(* ===== verification/Prelude.thy ===== *)
theory Prelude
  imports Main "HOL-Library.Char_ord" "HOL-Library.List_Lexorder" "HOL-Library.Multiset"
begin

text \<open>
  What every component of the development shares: Python text (a list of code points below
  256, with \<open>str.strip\<close>, \<open>str.upper\<close> and code-point order), exceptions as values
  (\<open>Raise cls message\<close> on the left of a sum), sequencing of fallible steps
  (\<open>bindE\<close>, \<open>guardE\<close>), first-occurrence deduplication as \<open>dict.fromkeys\<close> does it,
  and the lemma collections the component proofs use.
\<close>

named_theorems res_simps \<open>inversion of fallible steps\<close>

subsection \<open>Exceptions as values\<close>

text \<open>
  The exception classes raised by the modelled modules. A raise is \<open>Raise cls msg\<close>;
  the message is the source's message.
\<close>

datatype exc_class =
    PyTypeError | PyValueError | PyKeyError | PyIndexError | PyAttributeError
  | PyAssertionError | IntegrityError
  | AuthorityValidationError | NetworkPolicyError | EligibilityError
  | OutboundValidationError
  | ExecutionEnvelopeError | TrustedContextError | ExecutionPermitError
  | CoordinatorGatewayError | ReferenceDiscoveryGatewayError
  | CoordinatorReferenceClientError | MutationVerificationError | MutationReconciliationError
  | ValidationError | NotFoundError | LineageCorruptionError
  | OperationError | DuplicateExecutionError | TransactionError | ObligationError

datatype exc = Raise (exc_cls: exc_class) (exc_msg: string)

type_synonym 'a res = "exc + 'a"

definition bindE :: "'e + 'a \<Rightarrow> ('a \<Rightarrow> 'e + 'b) \<Rightarrow> 'e + 'b" where
  "bindE r f = (case r of Inl e \<Rightarrow> Inl e | Inr x \<Rightarrow> f x)"

definition guardE :: "bool \<Rightarrow> 'e \<Rightarrow> 'e + unit" where
  "guardE ok e = (if ok then Inr () else Inl e)"

lemma bindE_Inl [simp]: "bindE (Inl e) f = Inl e"
  and bindE_Inr [simp]: "bindE (Inr x) f = f x"
  by (simp_all add: bindE_def)

lemma bindE_eq_Inr [res_simps]: "bindE r f = Inr y \<longleftrightarrow> (\<exists>x. r = Inr x \<and> f x = Inr y)"
  by (cases r) auto

lemma bindE_eq_Inl [res_simps]:
  "bindE r f = Inl e \<longleftrightarrow> r = Inl e \<or> (\<exists>x. r = Inr x \<and> f x = Inl e)"
  by (cases r) auto

lemma bindE_InrE:
  assumes "bindE r f = Inr y" obtains x where "r = Inr x" "f x = Inr y"
  using assms by (auto simp: bindE_eq_Inr)

lemma guardE_eq_Inr [res_simps]: "guardE ok e = Inr u \<longleftrightarrow> ok"
  by (simp add: guardE_def)

lemma guardE_eq_Inl [res_simps]: "guardE ok e = Inl e' \<longleftrightarrow> \<not> ok \<and> e' = e"
  by (auto simp: guardE_def)

lemma guardE_True [simp]: "guardE True e = Inr ()"
  and guardE_False [simp]: "guardE False e = Inl e"
  by (simp_all add: guardE_def)

lemma bindE_cong [fundef_cong]:
  "r = r' \<Longrightarrow> (\<And>x. r' = Inr x \<Longrightarrow> f x = g x) \<Longrightarrow> bindE r f = bindE r' g"
  by (cases r') auto

text \<open>Apply a fallible function to every element, left to right, stopping at the first error.\<close>

fun mapE :: "('a \<Rightarrow> 'e + 'b) \<Rightarrow> 'a list \<Rightarrow> 'e + 'b list" where
  "mapE f [] = Inr []"
| "mapE f (x # xs) = bindE (f x) (\<lambda>y. bindE (mapE f xs) (\<lambda>ys. Inr (y # ys)))"

lemma mapE_cong [fundef_cong]:
  "xs = ys \<Longrightarrow> (\<And>x. x \<in> set ys \<Longrightarrow> f x = g x) \<Longrightarrow> mapE f xs = mapE g ys"
  by (induction ys arbitrary: xs) auto

lemma mapE_all: "mapE f xs = Inr ys \<Longrightarrow> list_all2 (\<lambda>x y. f x = Inr y) xs ys"
  by (induction xs arbitrary: ys) (auto simp: res_simps)

lemma mapE_total: "(\<And>x. x \<in> set xs \<Longrightarrow> f x = Inr (g x)) \<Longrightarrow> mapE f xs = Inr (map g xs)"
  by (induction xs) auto

subsection \<open>Python text\<close>

definition code :: "char \<Rightarrow> nat" where
  "code c = of_char c"

text \<open>\<open>str.isspace\<close> for code points below 256.\<close>

definition is_space :: "char \<Rightarrow> bool" where
  "is_space c \<longleftrightarrow> (let n = code c in
     (9 \<le> n \<and> n \<le> 13) \<or> (28 \<le> n \<and> n \<le> 32) \<or> n = 133 \<or> n = 160)"

definition lstrip :: "string \<Rightarrow> string" where
  "lstrip s = dropWhile is_space s"

definition strip :: "string \<Rightarrow> string" where
  "strip s = rev (lstrip (rev (lstrip s)))"

text \<open>
  \<open>str.upper\<close> below 256: the sharp s (223) becomes SS; the two letters whose upper case is above 255
  (181 and 255) are left as they are.
\<close>

definition upper_char :: "char \<Rightarrow> string" where
  "upper_char c = (let n = code c in
     if 97 \<le> n \<and> n \<le> 122 \<or> 224 \<le> n \<and> n \<le> 254 \<and> n \<noteq> 247 then [char_of (n - 32)]
     else if n = 223 then ''SS'' else [c])"

definition upper :: "string \<Rightarrow> string" where
  "upper s = concat (map upper_char s)"

text \<open>Text as the model's constructors keep it: non-empty and without outer white space.\<close>

definition trimmed :: "string \<Rightarrow> bool" where
  "trimmed s \<longleftrightarrow> s \<noteq> [] \<and> \<not> is_space (hd s) \<and> \<not> is_space (last s)"

lemma lstrip_Nil [simp]: "lstrip [] = []"
  by (simp add: lstrip_def)

lemma hd_lstrip: "lstrip s \<noteq> [] \<Longrightarrow> \<not> is_space (hd (lstrip s))"
  unfolding lstrip_def by (rule hd_dropWhile)

lemma lstrip_id: "s \<noteq> [] \<Longrightarrow> \<not> is_space (hd s) \<Longrightarrow> lstrip s = s"
  by (cases s) (auto simp: lstrip_def)

lemma last_lstrip: "lstrip s \<noteq> [] \<Longrightarrow> last (lstrip s) = last s"
  by (induction s) (auto simp: lstrip_def)

lemma strip_nonempty_trimmed: "strip s \<noteq> [] \<Longrightarrow> trimmed (strip s)"
proof -
  assume ne: "strip s \<noteq> []"
  then have rne: "lstrip (rev (lstrip s)) \<noteq> []" by (simp add: strip_def)
  then have ne2: "lstrip s \<noteq> []" by auto
  have "hd (strip s) = hd (lstrip s)"
    using rne ne2 by (simp add: strip_def hd_rev last_lstrip last_rev)
  moreover have "last (strip s) = hd (lstrip (rev (lstrip s)))"
    using rne by (simp add: strip_def last_rev)
  ultimately show ?thesis
    using ne hd_lstrip [OF rne] hd_lstrip [OF ne2] by (simp add: trimmed_def)
qed

lemma strip_trimmed: "trimmed s \<Longrightarrow> strip s = s"
  by (simp add: trimmed_def strip_def lstrip_id hd_rev)

lemma not_trimmed_Nil [simp]: "\<not> trimmed []"
  by (simp add: trimmed_def)

lemma trimmed_nonempty: "trimmed s \<Longrightarrow> s \<noteq> []"
  by (simp add: trimmed_def)

lemma strip_Nil [simp]: "strip [] = []"
  by (simp add: strip_def)

lemma strip_idem [simp]: "strip (strip s) = strip s"
proof (cases "strip s = []")
  case True
  then show ?thesis by simp
next
  case False
  then show ?thesis by (simp add: strip_trimmed strip_nonempty_trimmed)
qed

subsection \<open>Required and optional text fields\<close>

definition require_text :: "exc_class \<Rightarrow> string \<Rightarrow> string \<Rightarrow> string res" where
  "require_text cls value field =
     (let text = strip value in
      if text = [] then Inl (Raise cls (field @ '' must not be empty'')) else Inr text)"

definition optional_text :: "exc_class \<Rightarrow> string option \<Rightarrow> string \<Rightarrow> string option res" where
  "optional_text cls value field =
     (case value of None \<Rightarrow> Inr None
      | Some v \<Rightarrow> bindE (require_text cls v field) (\<lambda>t. Inr (Some t)))"

lemma require_text_eq_Inr [res_simps]:
  "require_text cls v f = Inr t \<longleftrightarrow> t = strip v \<and> t \<noteq> []"
  by (auto simp: require_text_def Let_def)

lemma require_text_trimmed: "require_text cls v f = Inr t \<Longrightarrow> trimmed t"
  by (auto simp: res_simps strip_nonempty_trimmed)

lemma require_text_idem [simp]: "trimmed t \<Longrightarrow> require_text cls t f = Inr t"
  by (simp add: res_simps strip_trimmed trimmed_nonempty)

lemma optional_text_idem [simp]:
  "pred_option trimmed v \<Longrightarrow> optional_text cls v f = Inr v"
  by (cases v) (auto simp: optional_text_def)

lemma optional_text_trimmed: "optional_text cls v f = Inr w \<Longrightarrow> pred_option trimmed w"
  by (auto simp: optional_text_def res_simps strip_nonempty_trimmed split: option.splits)

subsection \<open>Enumerated text\<close>

text \<open>
  \<open>str(value).strip().upper()\<close> looked up among the allowed names: the typed constants of
  the model stand for the upper-case strings the code stores.
\<close>

definition norm_enum :: "string \<Rightarrow> string" where
  "norm_enum value = upper (strip value)"

definition parse_enum :: "(string \<times> 'a) list \<Rightarrow> string \<Rightarrow> 'a option" where
  "parse_enum names value = map_of names (norm_enum value)"

lemmas enum_eval = parse_enum_def norm_enum_def upper_def upper_char_def strip_def lstrip_def
  is_space_def code_def Let_def

subsection \<open>Deduplication and joining\<close>

text \<open>\<open>dict.fromkeys(xs)\<close> read as a list: first occurrences, in order.\<close>

fun fromkeys_acc :: "'a list \<Rightarrow> 'a list \<Rightarrow> 'a list" where
  "fromkeys_acc seen [] = []"
| "fromkeys_acc seen (x # xs) =
     (if x \<in> set seen then fromkeys_acc seen xs else x # fromkeys_acc (x # seen) xs)"

definition fromkeys :: "'a list \<Rightarrow> 'a list" where
  "fromkeys xs = fromkeys_acc [] xs"

lemma set_fromkeys_acc: "set (fromkeys_acc seen xs) = set xs - set seen"
  by (induction xs arbitrary: seen) auto

lemma distinct_fromkeys_acc: "distinct (fromkeys_acc seen xs)"
  by (induction xs arbitrary: seen) (auto simp: set_fromkeys_acc)

lemma set_fromkeys [simp]: "set (fromkeys xs) = set xs"
  by (simp add: fromkeys_def set_fromkeys_acc)

lemma distinct_fromkeys [simp]: "distinct (fromkeys xs)"
  by (simp add: fromkeys_def distinct_fromkeys_acc)

lemma fromkeys_acc_distinct:
  "distinct xs \<Longrightarrow> set xs \<inter> set seen = {} \<Longrightarrow> fromkeys_acc seen xs = xs"
  by (induction xs arbitrary: seen) auto

lemma fromkeys_id: "distinct xs \<Longrightarrow> fromkeys xs = xs"
  by (simp add: fromkeys_def fromkeys_acc_distinct)

text \<open>\<open>sorted(set(xs))\<close> and \<open>sorted(dict.fromkeys(xs))\<close>.\<close>

definition sorted_unique :: "('a::linorder) list \<Rightarrow> 'a list" where
  "sorted_unique xs = sort (fromkeys xs)"

lemma sorted_unique_props [simp]:
  "sorted (sorted_unique xs)" "distinct (sorted_unique xs)" "set (sorted_unique xs) = set xs"
  by (simp_all add: sorted_unique_def)

lemma sorted_unique_canonical:
  "set xs = set ys \<Longrightarrow> sorted_unique xs = sorted_unique ys"
  by (rule sorted_distinct_set_unique) simp_all

fun join :: "string \<Rightarrow> string list \<Rightarrow> string" where
  "join sep [] = []"
| "join sep [x] = x"
| "join sep (x # y # ys) = x @ sep @ join sep (y # ys)"

lemma find_append_Some: "find P xs = Some x \<Longrightarrow> find P (xs @ ys) = Some x"
  by (induction xs) auto

text \<open>Evaluation of \<open>pred_option\<close>.\<close>

lemma pred_option_code [code]: "pred_option P None = True" "pred_option P (Some x) = P x"
  by simp_all

end
