(* ===== verification/Lineage.thy ===== *)
theory Lineage
  imports Prelude
begin

text \<open>
  \<open>n0te/lineage.py\<close> with the activity hooks of \<open>n0te/activity.py\<close> installed: the profile
  database of artists, songs, assets and versions, its operations, and the append-only
  chronology the triggers write. A table is the list of its rows; \<open>activity_events\<close> is in
  \<open>seq\<close> order. A transaction either returns the new database or an error, and an error leaves
  the caller with the database it had (rollback). Random identifiers are drawn from the stream
  \<open>db_random\<close>, \<open>db_draws\<close> counting the draws; every uniqueness, foreign-key and trigger check
  of the schema is a branch that yields \<open>IntegrityError\<close>. Later components extend the record.
\<close>

subsection \<open>Rows and tables\<close>

record artist =
  ar_id :: string
  ar_display_name :: string

record song =
  so_id :: string
  so_artist_id :: string
  so_title :: string
  so_current_version_id :: "string option"
  so_approved_version_id :: "string option"

record asset =
  as_id :: string
  as_song_id :: string
  as_name :: string
  as_sha256 :: string
  as_source_uri :: "string option"

record version =
  ve_id :: string
  ve_song_id :: string
  ve_ordinal :: nat
  ve_label :: string
  ve_parent_version_id :: "string option"

record activity_row =
  ac_seq :: nat
  ac_id :: string
  ac_event_type :: string
  ac_artist_id :: string
  ac_song_id :: "string option"
  ac_version_id :: "string option"
  ac_object_type :: string
  ac_object_id :: string

record lineage_db =
  db_random :: "nat \<Rightarrow> string"
  db_draws :: nat
  db_metadata :: "string \<rightharpoonup> string"
  db_artists :: "artist list"
  db_songs :: "song list"
  db_assets :: "asset list"
  db_versions :: "version list"
  db_version_assets :: "(string \<times> string \<times> string) list"
  db_activity :: "activity_row list"

definition require_lineage_text :: "string \<Rightarrow> string \<Rightarrow> string res" where
  "require_lineage_text value field = require_text ValidationError value field"

text \<open>\<open>f"{prefix}_{uuid.uuid4().hex}"\<close>: the next text of the random stream.\<close>

definition new_id :: "string \<Rightarrow> 'a lineage_db_scheme \<Rightarrow> string \<times> 'a lineage_db_scheme" where
  "new_id prefix db =
     (prefix @ ''_'' @ db_random db (db_draws db), db\<lparr>db_draws := Suc (db_draws db)\<rparr>)"

text \<open>SQLite's \<open>length(trim(x)) = 0\<close>: only spaces are trimmed.\<close>

definition sql_blank :: "string \<Rightarrow> bool" where
  "sql_blank s \<longleftrightarrow> list_all (\<lambda>c. c = CHR '' '') s"

text \<open>\<open>COLLATE NOCASE\<close> and \<open>LIKE\<close> fold the ASCII letters.\<close>

definition nocase :: "string \<Rightarrow> string" where
  "nocase s = map (\<lambda>c. if 65 \<le> code c \<and> code c \<le> 90 then char_of (code c + 32) else c) s"

abbreviation integrity :: "string \<Rightarrow> exc" where
  "integrity msg \<equiv> Raise IntegrityError msg"

subsection \<open>Reading\<close>

definition get_song :: "'a lineage_db_scheme \<Rightarrow> string \<Rightarrow> song option" where
  "get_song db sid = find (\<lambda>s. so_id s = sid) (db_songs db)"

definition get_asset :: "'a lineage_db_scheme \<Rightarrow> string \<Rightarrow> asset option" where
  "get_asset db aid = find (\<lambda>a. as_id a = aid) (db_assets db)"

definition get_version :: "'a lineage_db_scheme \<Rightarrow> string \<Rightarrow> version option" where
  "get_version db vid = find (\<lambda>v. ve_id v = vid) (db_versions db)"

definition has_artist :: "'a lineage_db_scheme \<Rightarrow> string \<Rightarrow> bool" where
  "has_artist db aid \<longleftrightarrow> aid \<in> ar_id ` set (db_artists db)"

definition version_in_song :: "'a lineage_db_scheme \<Rightarrow> string \<Rightarrow> string \<Rightarrow> bool" where
  "version_in_song db vid sid \<longleftrightarrow>
     list_ex (\<lambda>v. ve_id v = vid \<and> ve_song_id v = sid) (db_versions db)"

definition primary_artist_id :: "'a lineage_db_scheme \<Rightarrow> string res" where
  "primary_artist_id db =
     (case db_metadata db ''primary_artist_id'' of
        None \<Rightarrow> Inl (Raise LineageCorruptionError ''primary artist metadata disappeared'')
      | Some v \<Rightarrow> Inr v)"

definition require_song :: "'a lineage_db_scheme \<Rightarrow> string \<Rightarrow> song res" where
  "require_song db sid =
     (case get_song db sid of
        None \<Rightarrow> Inl (Raise NotFoundError (''Song not found: '' @ sid))
      | Some s \<Rightarrow> Inr s)"

definition active_song :: "'a lineage_db_scheme \<Rightarrow> song option res" where
  "active_song db =
     (case db_metadata db ''active_song_id'' of
        None \<Rightarrow> Inl (Raise LineageCorruptionError ''active Song metadata disappeared'')
      | Some sid \<Rightarrow>
          if sid = [] then Inr None
          else (case get_song db sid of
                  None \<Rightarrow> Inl (Raise LineageCorruptionError ''active Song identity is missing'')
                | Some s \<Rightarrow> Inr (Some s)))"

definition require_asset_for_song :: "'a lineage_db_scheme \<Rightarrow> string \<Rightarrow> string \<Rightarrow> asset res" where
  "require_asset_for_song db aid sid =
     (case get_asset db aid of
        None \<Rightarrow> Inl (Raise NotFoundError (''asset not found: '' @ aid))
      | Some a \<Rightarrow>
          if as_song_id a \<noteq> sid
          then Inl (Raise ValidationError ''asset belongs to a different Song'')
          else Inr a)"

definition require_version_of_song :: "'a lineage_db_scheme \<Rightarrow> string \<Rightarrow> string \<Rightarrow> version res" where
  "require_version_of_song db vid sid =
     (case get_version db vid of
        None \<Rightarrow> Inl (Raise NotFoundError (''version not found: '' @ vid))
      | Some v \<Rightarrow>
          if ve_song_id v \<noteq> sid
          then Inl (Raise ValidationError ''version belongs to a different Song'')
          else Inr v)"

definition versions_for_song :: "'a lineage_db_scheme \<Rightarrow> string \<Rightarrow> version list res" where
  "versions_for_song db sid =
     bindE (require_song db sid) (\<lambda>_.
       Inr (sort_key ve_ordinal (filter (\<lambda>v. ve_song_id v = sid) (db_versions db))))"

definition version_asset_ids :: "'a lineage_db_scheme \<Rightarrow> string \<Rightarrow> string list res" where
  "version_asset_ids db vid =
     (case get_version db vid of
        None \<Rightarrow> Inl (Raise NotFoundError (''version not found: '' @ vid))
      | Some v \<Rightarrow> Inr (sort (map (\<lambda>(_, a, _). a)
                        (filter (\<lambda>(w, _, _). w = vid) (db_version_assets db)))))"

subsection \<open>The activity chronology\<close>

text \<open>
  \<open>INSERT INTO activity_events\<close>: the trigger \<open>activity_version_matches_song\<close>, the CHECK,
  UNIQUE and REFERENCES clauses of the table, then the row with the next \<open>seq\<close>.
\<close>

definition insert_activity ::
  "string \<Rightarrow> string \<Rightarrow> string option \<Rightarrow> string option \<Rightarrow> string \<Rightarrow> string
     \<Rightarrow> 'a lineage_db_scheme \<Rightarrow> 'a lineage_db_scheme res" where
  "insert_activity etype artist song version otype oid db0 =
     (let (aid, db) = new_id ''act'' db0 in
      bindE (guardE (case version of None \<Rightarrow> True
                     | Some v \<Rightarrow> (case song of None \<Rightarrow> False | Some s \<Rightarrow> version_in_song db v s))
               (integrity ''activity version belongs to a different Song'')) (\<lambda>_.
      bindE (guardE (\<not> sql_blank etype \<and> \<not> sql_blank otype \<and> \<not> sql_blank oid)
               (integrity ''CHECK constraint failed: activity_events'')) (\<lambda>_.
      bindE (guardE (aid \<notin> ac_id ` set (db_activity db))
               (integrity ''UNIQUE constraint failed: activity_events.id'')) (\<lambda>_.
      bindE (guardE (has_artist db artist
                     \<and> (case song of None \<Rightarrow> True | Some s \<Rightarrow> get_song db s \<noteq> None)
                     \<and> (case version of None \<Rightarrow> True | Some v \<Rightarrow> get_version db v \<noteq> None))
               (integrity ''FOREIGN KEY constraint failed'')) (\<lambda>_.
        Inr (db\<lparr>db_activity := db_activity db @
               [\<lparr>ac_seq = Suc (length (db_activity db)), ac_id = aid, ac_event_type = etype,
                 ac_artist_id = artist, ac_song_id = song, ac_version_id = version,
                 ac_object_type = otype, ac_object_id = oid\<rparr>]\<rparr>))))))"

definition checkpoint :: "'a lineage_db_scheme \<Rightarrow> nat" where
  "checkpoint db = fold max (map ac_seq (db_activity db)) 0"

definition take_limit :: "int option \<Rightarrow> 'b list \<Rightarrow> 'b list res" where
  "take_limit limit xs =
     (case limit of
        None \<Rightarrow> Inr xs
      | Some n \<Rightarrow> if n \<le> 0 then Inl (Raise ValidationError ''limit must be > 0'')
                  else Inr (take (nat n) xs))"

definition activity_for_song ::
  "'a lineage_db_scheme \<Rightarrow> string \<Rightarrow> int \<Rightarrow> int option \<Rightarrow> activity_row list res" where
  "activity_for_song db sid after limit =
     bindE (require_song db sid) (\<lambda>_.
     bindE (guardE (0 \<le> after) (Raise ValidationError ''after_sequence must be >= 0'')) (\<lambda>_.
       take_limit limit (filter (\<lambda>a. ac_song_id a = Some sid \<and> after < int (ac_seq a))
                           (db_activity db))))"

definition activity_for_profile ::
  "'a lineage_db_scheme \<Rightarrow> int \<Rightarrow> int option \<Rightarrow> activity_row list res" where
  "activity_for_profile db after limit =
     bindE (guardE (0 \<le> after) (Raise ValidationError ''after_sequence must be >= 0'')) (\<lambda>_.
       take_limit limit (filter (\<lambda>a. after < int (ac_seq a)) (db_activity db)))"

subsection \<open>Statements with their triggers\<close>

text \<open>\<open>UPDATE metadata SET value=? WHERE key='active_song_id'\<close> and \<open>activity_song_selected\<close>.\<close>

definition update_active_song ::
  "string \<Rightarrow> 'a lineage_db_scheme \<Rightarrow> 'a lineage_db_scheme res" where
  "update_active_song sid db =
     (case db_metadata db ''active_song_id'' of
        None \<Rightarrow> Inr db
      | Some old \<Rightarrow>
          let db' = db\<lparr>db_metadata := (db_metadata db)(''active_song_id'' \<mapsto> sid)\<rparr> in
          if sid \<noteq> [] \<and> sid \<noteq> old then
            (case get_song db' sid of
               None \<Rightarrow> Inr db'
             | Some s \<Rightarrow> insert_activity ''SONG_SELECTED'' (so_artist_id s) (Some sid)
                          (so_current_version_id s) ''SONG'' sid db')
          else Inr db')"

definition insert_song ::
  "string \<Rightarrow> string \<Rightarrow> string \<Rightarrow> 'a lineage_db_scheme \<Rightarrow> 'a lineage_db_scheme res" where
  "insert_song sid artist title db =
     bindE (guardE (sid \<notin> so_id ` set (db_songs db))
              (integrity ''UNIQUE constraint failed: songs.id'')) (\<lambda>_.
     bindE (guardE (\<not> sql_blank title) (integrity ''CHECK constraint failed: songs'')) (\<lambda>_.
     bindE (guardE (has_artist db artist) (integrity ''FOREIGN KEY constraint failed'')) (\<lambda>_.
       insert_activity ''SONG_CREATED'' artist (Some sid) None ''SONG'' sid
         (db\<lparr>db_songs := db_songs db @
            [\<lparr>so_id = sid, so_artist_id = artist, so_title = title,
              so_current_version_id = None, so_approved_version_id = None\<rparr>]\<rparr>))))"

definition insert_asset :: "asset \<Rightarrow> 'a lineage_db_scheme \<Rightarrow> 'a lineage_db_scheme res" where
  "insert_asset a db =
     bindE (guardE (as_id a \<notin> as_id ` set (db_assets db))
              (integrity ''UNIQUE constraint failed: assets.id'')) (\<lambda>_.
     bindE (guardE (\<not> sql_blank (as_name a) \<and> length (as_sha256 a) = 64)
              (integrity ''CHECK constraint failed: assets'')) (\<lambda>_.
     case get_song db (as_song_id a) of
       None \<Rightarrow> Inl (integrity ''FOREIGN KEY constraint failed'')
     | Some s \<Rightarrow> insert_activity ''ASSET_ATTACHED'' (so_artist_id s) (Some (as_song_id a)) None
                   ''ASSET'' (as_id a) (db\<lparr>db_assets := db_assets db @ [a]\<rparr>)))"

definition insert_version :: "version \<Rightarrow> 'a lineage_db_scheme \<Rightarrow> 'a lineage_db_scheme res" where
  "insert_version v db =
     bindE (guardE (case ve_parent_version_id v of None \<Rightarrow> True
                    | Some p \<Rightarrow> version_in_song db p (ve_song_id v))
              (integrity ''parent version belongs to a different song'')) (\<lambda>_.
     bindE (guardE (ve_id v \<notin> ve_id ` set (db_versions db)
                    \<and> list_all (\<lambda>w. (ve_song_id w, ve_ordinal w) \<noteq> (ve_song_id v, ve_ordinal v))
                        (db_versions db))
              (integrity ''UNIQUE constraint failed: versions'')) (\<lambda>_.
     bindE (guardE (0 < ve_ordinal v \<and> \<not> sql_blank (ve_label v))
              (integrity ''CHECK constraint failed: versions'')) (\<lambda>_.
     case get_song db (ve_song_id v) of
       None \<Rightarrow> Inl (integrity ''FOREIGN KEY constraint failed'')
     | Some s \<Rightarrow> insert_activity ''VERSION_CREATED'' (so_artist_id s) (Some (ve_song_id v))
                   (Some (ve_id v)) ''VERSION'' (ve_id v)
                   (db\<lparr>db_versions := db_versions db @ [v]\<rparr>))))"

definition insert_version_asset ::
  "string \<Rightarrow> string \<Rightarrow> string \<Rightarrow> 'a lineage_db_scheme \<Rightarrow> 'a lineage_db_scheme res" where
  "insert_version_asset vid aid role db =
     bindE (guardE (list_ex (\<lambda>v. list_ex (\<lambda>a. as_song_id a = ve_song_id v \<and> ve_id v = vid \<and> as_id a = aid)
                              (db_assets db)) (db_versions db))
              (integrity ''asset belongs to a different song'')) (\<lambda>_.
     bindE (guardE ((vid, aid, role) \<notin> set (db_version_assets db))
              (integrity ''UNIQUE constraint failed: version_assets'')) (\<lambda>_.
     bindE (guardE (\<not> sql_blank role) (integrity ''CHECK constraint failed: version_assets'')) (\<lambda>_.
       Inr (db\<lparr>db_version_assets := db_version_assets db @ [(vid, aid, role)]\<rparr>))))"

definition update_song ::
  "string \<Rightarrow> (song \<Rightarrow> song) \<Rightarrow> 'a lineage_db_scheme \<Rightarrow> 'a lineage_db_scheme" where
  "update_song sid f db =
     db\<lparr>db_songs := map (\<lambda>s. if so_id s = sid then f s else s) (db_songs db)\<rparr>"

text \<open>\<open>UPDATE songs SET current_version_id=? WHERE id=?\<close> with its two triggers.\<close>

definition update_current_version ::
  "string \<Rightarrow> string \<Rightarrow> 'a lineage_db_scheme \<Rightarrow> 'a lineage_db_scheme res" where
  "update_current_version sid vid db =
     (case get_song db sid of
        None \<Rightarrow> Inr db
      | Some s \<Rightarrow>
          bindE (guardE (version_in_song db vid sid)
                   (integrity ''current version belongs to a different song'')) (\<lambda>_.
          let db' = update_song sid (\<lambda>s. s\<lparr>so_current_version_id := Some vid\<rparr>) db in
          if so_current_version_id s \<noteq> Some vid then
            insert_activity ''CURRENT_VERSION_CHANGED'' (so_artist_id s) (Some sid) (Some vid)
              ''VERSION'' vid db'
          else Inr db'))"

definition update_approved_version ::
  "string \<Rightarrow> string \<Rightarrow> 'a lineage_db_scheme \<Rightarrow> 'a lineage_db_scheme res" where
  "update_approved_version sid vid db =
     (case get_song db sid of
        None \<Rightarrow> Inr db
      | Some s \<Rightarrow>
          bindE (guardE (version_in_song db vid sid)
                   (integrity ''approved version belongs to a different song'')) (\<lambda>_.
          let db' = update_song sid (\<lambda>s. s\<lparr>so_approved_version_id := Some vid\<rparr>) db in
          if so_approved_version_id s \<noteq> Some vid then
            insert_activity ''VERSION_APPROVED'' (so_artist_id s) (Some sid) (Some vid)
              ''VERSION'' vid db'
          else Inr db'))"

subsection \<open>Operations of the store\<close>

definition create_song ::
  "string \<Rightarrow> 'a lineage_db_scheme \<Rightarrow> (song \<times> 'a lineage_db_scheme) res" where
  "create_song title db0 =
     bindE (require_lineage_text title ''title'') (\<lambda>title.
     let (sid, db) = new_id ''song'' db0 in
     bindE (primary_artist_id db) (\<lambda>artist.
     bindE (insert_song sid artist title db) (\<lambda>db.
     bindE (update_active_song sid db) (\<lambda>db.
     case get_song db sid of
       None \<Rightarrow> Inl (Raise PyAssertionError [])
     | Some s \<Rightarrow> Inr (s, db)))))"

definition select_song ::
  "string \<Rightarrow> 'a lineage_db_scheme \<Rightarrow> (song \<times> 'a lineage_db_scheme) res" where
  "select_song sid db =
     bindE (require_song db sid) (\<lambda>s.
     bindE (update_active_song (so_id s) db) (\<lambda>db. Inr (s, db)))"

definition lower_char :: "char \<Rightarrow> char" where
  "lower_char c = (let n = code c in if 65 \<le> n \<and> n \<le> 90 then char_of (n + 32) else c)"

definition is_sha256 :: "string \<Rightarrow> bool" where
  "is_sha256 s \<longleftrightarrow> length s = 64
     \<and> list_all (\<lambda>c. (48 \<le> code c \<and> code c \<le> 57) \<or> (97 \<le> code c \<and> code c \<le> 102)) s"

definition attach_asset ::
  "string \<Rightarrow> string \<Rightarrow> string \<Rightarrow> string option \<Rightarrow> 'a lineage_db_scheme
     \<Rightarrow> (asset \<times> 'a lineage_db_scheme) res" where
  "attach_asset sid name sha uri db0 =
     bindE (require_song db0 sid) (\<lambda>_.
     bindE (require_lineage_text name ''name'') (\<lambda>name.
     let digest = map lower_char (strip sha) in
     bindE (guardE (is_sha256 digest)
       (Raise ValidationError ''sha256 must be a 64-character hexadecimal digest'')) (\<lambda>_.
     let (aid, db) = new_id ''asset'' db0;
         a = \<lparr>as_id = aid, as_song_id = sid, as_name = name, as_sha256 = digest,
              as_source_uri = uri\<rparr> in
     bindE (insert_asset a db) (\<lambda>db. Inr (a, db)))))"

definition next_ordinal :: "'a lineage_db_scheme \<Rightarrow> string \<Rightarrow> nat" where
  "next_ordinal db sid =
     Suc (fold max (map ve_ordinal (filter (\<lambda>v. ve_song_id v = sid) (db_versions db))) 0)"

fun insert_version_assets ::
  "string \<Rightarrow> string list \<Rightarrow> 'a lineage_db_scheme \<Rightarrow> 'a lineage_db_scheme res" where
  "insert_version_assets vid [] db = Inr db"
| "insert_version_assets vid (a # as) db =
     bindE (insert_version_asset vid a ''SOURCE'' db) (insert_version_assets vid as)"

definition create_version ::
  "string \<Rightarrow> string \<Rightarrow> string option \<Rightarrow> string list \<Rightarrow> bool \<Rightarrow> 'a lineage_db_scheme
     \<Rightarrow> (version \<times> 'a lineage_db_scheme) res" where
  "create_version sid label parent asset_ids make_current db0 =
     bindE (require_song db0 sid) (\<lambda>_.
     bindE (require_lineage_text label ''label'') (\<lambda>label.
     bindE (case parent of
              None \<Rightarrow> Inr ()
            | Some p \<Rightarrow>
                (case get_version db0 p of
                   None \<Rightarrow> Inl (Raise NotFoundError (''parent version not found: '' @ p))
                 | Some v \<Rightarrow> guardE (ve_song_id v = sid)
                     (Raise ValidationError ''parent version belongs to a different Song''))) (\<lambda>_.
     let assets = fromkeys asset_ids in
     bindE (mapE (\<lambda>a. require_asset_for_song db0 a sid) assets) (\<lambda>_.
     let (vid, db) = new_id ''ver'' db0;
         v = \<lparr>ve_id = vid, ve_song_id = sid, ve_ordinal = next_ordinal db sid,
              ve_label = label, ve_parent_version_id = parent\<rparr> in
     bindE (insert_version v db) (\<lambda>db.
     bindE (insert_version_assets vid assets db) (\<lambda>db.
     bindE (if make_current then update_current_version sid vid db else Inr db) (\<lambda>db.
     case get_version db vid of
       None \<Rightarrow> Inl (Raise PyAssertionError [])
     | Some v \<Rightarrow> Inr (v, db))))))))"

definition set_current_version ::
  "string \<Rightarrow> string \<Rightarrow> 'a lineage_db_scheme \<Rightarrow> (song \<times> 'a lineage_db_scheme) res" where
  "set_current_version sid vid db =
     bindE (require_song db sid) (\<lambda>_.
     bindE (require_version_of_song db vid sid) (\<lambda>_.
     bindE (update_current_version sid vid db) (\<lambda>db.
     bindE (require_song db sid) (\<lambda>s. Inr (s, db)))))"

definition approve_version ::
  "string \<Rightarrow> string \<Rightarrow> 'a lineage_db_scheme \<Rightarrow> (song \<times> 'a lineage_db_scheme) res" where
  "approve_version sid vid db =
     bindE (require_song db sid) (\<lambda>_.
     bindE (require_version_of_song db vid sid) (\<lambda>_.
     bindE (update_approved_version sid vid db) (\<lambda>db.
     bindE (require_song db sid) (\<lambda>s. Inr (s, db)))))"

subsection \<open>Creating and re-opening a profile\<close>

text \<open>
  \<open>LineageStore.create\<close> with \<open>_initialize\<close>, then the first event \<open>ActivityLog\<close> writes
  when it installs its hooks. The file system (the profile directory) is not modelled.
\<close>

definition create_profile :: "(nat \<Rightarrow> string) \<Rightarrow> string \<Rightarrow> lineage_db res" where
  "create_profile random artist_name =
     bindE (require_lineage_text artist_name ''artist_name'') (\<lambda>name.
     let empty = \<lparr>db_random = random, db_draws = 0, db_metadata = Map.empty, db_artists = [],
                  db_songs = [], db_assets = [], db_versions = [], db_version_assets = [],
                  db_activity = []\<rparr>;
         (pid, db1) = new_id ''prf'' empty;
         (aid, db2) = new_id ''art'' db1 in
     insert_activity ''ACTIVITY_TRACKING_ENABLED'' aid None None ''PROFILE'' pid
       (db2\<lparr>db_metadata := [''schema_version'' \<mapsto> ''1'', ''profile_id'' \<mapsto> pid,
                            ''primary_artist_id'' \<mapsto> aid, ''active_song_id'' \<mapsto> []],
            db_artists := [\<lparr>ar_id = aid, ar_display_name = name\<rparr>]\<rparr>))"

text \<open>\<open>PRAGMA foreign_key_check\<close> on the lineage tables.\<close>

definition foreign_keys_ok :: "'a lineage_db_scheme \<Rightarrow> bool" where
  "foreign_keys_ok db \<longleftrightarrow>
     list_all (\<lambda>s. has_artist db (so_artist_id s)
        \<and> pred_option (\<lambda>v. get_version db v \<noteq> None) (so_current_version_id s)
        \<and> pred_option (\<lambda>v. get_version db v \<noteq> None) (so_approved_version_id s)) (db_songs db)
     \<and> list_all (\<lambda>a. get_song db (as_song_id a) \<noteq> None) (db_assets db)
     \<and> list_all (\<lambda>v. get_song db (ve_song_id v) \<noteq> None
        \<and> pred_option (\<lambda>p. get_version db p \<noteq> None) (ve_parent_version_id v)) (db_versions db)
     \<and> list_all (\<lambda>(v, a, _). get_version db v \<noteq> None \<and> get_asset db a \<noteq> None)
         (db_version_assets db)"

definition validate_lineage :: "string \<Rightarrow> 'a lineage_db_scheme \<Rightarrow> unit res" where
  "validate_lineage expected db =
     bindE (guardE (foreign_keys_ok db)
       (Raise LineageCorruptionError ''lineage foreign-key integrity check failed'')) (\<lambda>_.
     case (db_metadata db ''schema_version'', db_metadata db ''profile_id'',
           db_metadata db ''primary_artist_id'', db_metadata db ''active_song_id'') of
       (Some sv, Some pid, Some artist, Some active) \<Rightarrow>
         bindE (guardE (sv = ''1'') (Raise LineageCorruptionError
           (''unsupported lineage schema version: '' @ sv))) (\<lambda>_.
         bindE (guardE (pid = expected) (Raise LineageCorruptionError
           ''profile identity does not match durable state'')) (\<lambda>_.
         bindE (guardE (has_artist db artist)
           (Raise LineageCorruptionError ''primary artist identity is missing'')) (\<lambda>_.
         guardE (active = [] \<or> get_song db active \<noteq> None)
           (Raise LineageCorruptionError ''active Song identity is missing''))))
     | _ \<Rightarrow> Inl (Raise LineageCorruptionError ''lineage metadata is incomplete''))"

definition validate_activity :: "'a lineage_db_scheme \<Rightarrow> unit res" where
  "validate_activity db =
     bindE (guardE (list_all (\<lambda>a. has_artist db (ac_artist_id a)
              \<and> pred_option (\<lambda>s. get_song db s \<noteq> None) (ac_song_id a)
              \<and> pred_option (\<lambda>v. \<exists>s \<in> set_option (ac_song_id a). version_in_song db v s)
                   (ac_version_id a)) (db_activity db))
       (Raise LineageCorruptionError ''activity history contains invalid object references'')) (\<lambda>_.
     guardE (1 \<le> length (db_activity db))
       (Raise LineageCorruptionError ''activity history unexpectedly became empty''))"

end
