(* ===== verification/Machine.thy ===== *)
theory Machine
  imports Prelude "HOL-Library.Sublist"
begin

text \<open>
  Interfaces several components share. A component with durable state is a function that
  executes one command or fails, a failing command leaving the state as it was
  (\<open>run_cmds\<close>). \<open>machine\<close> is the contract "commands keep the invariant";
  \<open>logged_machine\<close> adds an append-only log.

\<close>

fun run_cmds :: "('c \<Rightarrow> 's \<Rightarrow> 'e + 's) \<Rightarrow> 'c list \<Rightarrow> 's \<Rightarrow> 's" where
  "run_cmds exec [] s = s"
| "run_cmds exec (c # cs) s =
     run_cmds exec cs (case exec c s of Inl _ \<Rightarrow> s | Inr s' \<Rightarrow> s')"

lemma run_cmds_append: "run_cmds exec (cs @ ds) s = run_cmds exec ds (run_cmds exec cs s)"
  by (induction cs arbitrary: s) simp_all

locale machine =
  fixes exec :: "'c \<Rightarrow> 's \<Rightarrow> 'e + 's"
    and inv :: "'s \<Rightarrow> bool"
  assumes exec_inv: "inv s \<Longrightarrow> exec c s = Inr s' \<Longrightarrow> inv s'"
begin

lemma step_inv: "inv s \<Longrightarrow> inv (case exec c s of Inl _ \<Rightarrow> s | Inr s' \<Rightarrow> s')"
  by (auto split: sum.split dest: exec_inv)

lemma run_inv: "inv s \<Longrightarrow> inv (run_cmds exec cs s)"
  by (induction cs arbitrary: s) (simp_all add: step_inv)

end

locale logged_machine = machine exec inv
  for exec :: "'c \<Rightarrow> 's \<Rightarrow> 'e + 's" and inv :: "'s \<Rightarrow> bool" +
  fixes log :: "'s \<Rightarrow> 'r list"
  assumes exec_log: "inv s \<Longrightarrow> exec c s = Inr s' \<Longrightarrow> prefix (log s) (log s')"
begin

lemma step_log: "inv s \<Longrightarrow> prefix (log s) (log (case exec c s of Inl _ \<Rightarrow> s | Inr s' \<Rightarrow> s'))"
  by (auto split: sum.split dest: exec_log)

lemma run_log: "inv s \<Longrightarrow> prefix (log s) (log (run_cmds exec cs s))"
proof (induction cs arbitrary: s)
  case Nil
  then show ?case by simp
next
  case (Cons c cs)
  then show ?case using step_log step_inv prefix_order.trans by (metis run_cmds.simps(2))
qed

lemma run_log_kept: "inv s \<Longrightarrow> r \<in> set (log s) \<Longrightarrow> r \<in> set (log (run_cmds exec cs s))"
  using run_log set_mono_prefix by blast

end

end
