(* ===== verification/Lineage_Facts.thy ===== *)
theory Lineage_Facts
  imports Lineage Machine
begin

text \<open>
  The invariant of a profile database (\<open>Lineage\<close>): the identity metadata, the references
  between the tables, the version chains and the chronology. Each statement keeps it and only
  adds rows; so does each operation of the store, and every run of them.
\<close>

subsection \<open>Reading rows\<close>

lemma get_song_None [simp]: "get_song db sid = None \<longleftrightarrow> sid \<notin> so_id ` set (db_songs db)"
  by (auto simp: get_song_def find_None_iff)

lemma get_version_None [simp]: "get_version db vid = None \<longleftrightarrow> vid \<notin> ve_id ` set (db_versions db)"
  by (auto simp: get_version_def find_None_iff)

lemma get_asset_None [simp]: "get_asset db aid = None \<longleftrightarrow> aid \<notin> as_id ` set (db_assets db)"
  by (auto simp: get_asset_def find_None_iff)

lemma get_song_Some: "get_song db sid = Some s \<Longrightarrow> s \<in> set (db_songs db) \<and> so_id s = sid"
  by (auto simp: get_song_def find_Some_iff in_set_conv_nth)

lemma get_version_Some: "get_version db vid = Some v \<Longrightarrow> v \<in> set (db_versions db) \<and> ve_id v = vid"
  by (auto simp: get_version_def find_Some_iff in_set_conv_nth)

lemma get_asset_Some: "get_asset db aid = Some a \<Longrightarrow> a \<in> set (db_assets db) \<and> as_id a = aid"
  by (auto simp: get_asset_def find_Some_iff in_set_conv_nth)

lemma version_in_song_iff:
  "version_in_song db vid sid \<longleftrightarrow> (\<exists>v \<in> set (db_versions db). ve_id v = vid \<and> ve_song_id v = sid)"
  by (auto simp: version_in_song_def list_ex_iff)

subsection \<open>The invariant\<close>

text \<open>The identity metadata, the references between the tables, and the version chains.\<close>

definition metadata_ok :: "'a lineage_db_scheme \<Rightarrow> bool" where
  "metadata_ok db \<longleftrightarrow>
     db_metadata db ''schema_version'' = Some ''1'' \<and> db_metadata db ''profile_id'' \<noteq> None
     \<and> (\<exists>a. db_metadata db ''primary_artist_id'' = Some a \<and> has_artist db a)
     \<and> (\<exists>s. db_metadata db ''active_song_id'' = Some s \<and> (s = [] \<or> s \<in> so_id ` set (db_songs db)))"

definition songs_ok :: "'a lineage_db_scheme \<Rightarrow> bool" where
  "songs_ok db \<longleftrightarrow> distinct (map so_id (db_songs db)) \<and>
     (\<forall>s \<in> set (db_songs db). has_artist db (so_artist_id s)
        \<and> (\<forall>v. so_current_version_id s = Some v \<longrightarrow> version_in_song db v (so_id s))
        \<and> (\<forall>v. so_approved_version_id s = Some v \<longrightarrow> version_in_song db v (so_id s)))"

definition assets_ok :: "'a lineage_db_scheme \<Rightarrow> bool" where
  "assets_ok db \<longleftrightarrow> distinct (map as_id (db_assets db)) \<and>
     (\<forall>a \<in> set (db_assets db). as_song_id a \<in> so_id ` set (db_songs db))"

text \<open>
  Every version belongs to a song, the ordinals of a song count its versions from 1 in creation
  order, and a parent is an earlier version of the same song, so parent chains end.
\<close>

definition versions_ok :: "'a lineage_db_scheme \<Rightarrow> bool" where
  "versions_ok db \<longleftrightarrow> distinct (map ve_id (db_versions db)) \<and>
     (\<forall>v \<in> set (db_versions db). ve_song_id v \<in> so_id ` set (db_songs db)
        \<and> (\<forall>p. ve_parent_version_id v = Some p \<longrightarrow>
             (\<exists>w \<in> set (db_versions db). ve_id w = p \<and> ve_song_id w = ve_song_id v
                \<and> ve_ordinal w < ve_ordinal v)))
     \<and> (\<forall>sid. let vs = filter (\<lambda>v. ve_song_id v = sid) (db_versions db) in
          map ve_ordinal vs = [1..<Suc (length vs)])"

definition version_assets_ok :: "'a lineage_db_scheme \<Rightarrow> bool" where
  "version_assets_ok db \<longleftrightarrow>
     (\<forall>(v, a, r) \<in> set (db_version_assets db).
        \<exists>w \<in> set (db_versions db). \<exists>b \<in> set (db_assets db).
          ve_id w = v \<and> as_id b = a \<and> as_song_id b = ve_song_id w)"

definition activity_row_ok :: "'a lineage_db_scheme \<Rightarrow> activity_row \<Rightarrow> bool" where
  "activity_row_ok db a \<longleftrightarrow> has_artist db (ac_artist_id a)
     \<and> (\<forall>s. ac_song_id a = Some s \<longrightarrow> s \<in> so_id ` set (db_songs db))
     \<and> (\<forall>v. ac_version_id a = Some v \<longrightarrow>
          (\<exists>s. ac_song_id a = Some s \<and> version_in_song db v s))"

definition activity_ok :: "'a lineage_db_scheme \<Rightarrow> bool" where
  "activity_ok db \<longleftrightarrow> db_activity db \<noteq> [] \<and> distinct (map ac_id (db_activity db))
     \<and> map ac_seq (db_activity db) = [1..<Suc (length (db_activity db))]
     \<and> list_all (activity_row_ok db) (db_activity db)"

definition core_ok :: "'a lineage_db_scheme \<Rightarrow> bool" where
  "core_ok db \<longleftrightarrow> metadata_ok db \<and> songs_ok db \<and> assets_ok db \<and> versions_ok db
     \<and> version_assets_ok db"

definition lineage_inv :: "'a lineage_db_scheme \<Rightarrow> bool" where
  "lineage_inv db \<longleftrightarrow> core_ok db \<and> activity_ok db"

lemmas core_defs = core_ok_def metadata_ok_def songs_ok_def assets_ok_def versions_ok_def
  version_assets_ok_def

text \<open>Which tables each part reads.\<close>

lemma has_artist_frame [simp]:
  "has_artist (db\<lparr>db_draws := n\<rparr>) = has_artist db"
  "has_artist (db\<lparr>db_metadata := md\<rparr>) = has_artist db"
  "has_artist (db\<lparr>db_songs := ss\<rparr>) = has_artist db"
  "has_artist (db\<lparr>db_assets := aa\<rparr>) = has_artist db"
  "has_artist (db\<lparr>db_versions := vv\<rparr>) = has_artist db"
  "has_artist (db\<lparr>db_version_assets := va\<rparr>) = has_artist db"
  "has_artist (db\<lparr>db_activity := acs\<rparr>) = has_artist db"
  by (simp_all add: fun_eq_iff has_artist_def)

lemma version_in_song_frame [simp]:
  "version_in_song (db\<lparr>db_draws := n\<rparr>) = version_in_song db"
  "version_in_song (db\<lparr>db_metadata := md\<rparr>) = version_in_song db"
  "version_in_song (db\<lparr>db_songs := ss\<rparr>) = version_in_song db"
  "version_in_song (db\<lparr>db_assets := aa\<rparr>) = version_in_song db"
  "version_in_song (db\<lparr>db_version_assets := va\<rparr>) = version_in_song db"
  "version_in_song (db\<lparr>db_activity := acs\<rparr>) = version_in_song db"
  by (simp_all add: fun_eq_iff version_in_song_def)

lemma component_frames [simp]:
  "metadata_ok (db\<lparr>db_assets := aa\<rparr>) = metadata_ok db"
  "metadata_ok (db\<lparr>db_versions := vv\<rparr>) = metadata_ok db"
  "metadata_ok (db\<lparr>db_version_assets := va\<rparr>) = metadata_ok db"
  "songs_ok (db\<lparr>db_metadata := md\<rparr>) = songs_ok db"
  "songs_ok (db\<lparr>db_assets := aa\<rparr>) = songs_ok db"
  "songs_ok (db\<lparr>db_version_assets := va\<rparr>) = songs_ok db"
  "assets_ok (db\<lparr>db_metadata := md\<rparr>) = assets_ok db"
  "assets_ok (db\<lparr>db_versions := vv\<rparr>) = assets_ok db"
  "assets_ok (db\<lparr>db_version_assets := va\<rparr>) = assets_ok db"
  "versions_ok (db\<lparr>db_metadata := md\<rparr>) = versions_ok db"
  "versions_ok (db\<lparr>db_assets := aa\<rparr>) = versions_ok db"
  "versions_ok (db\<lparr>db_version_assets := va\<rparr>) = versions_ok db"
  "version_assets_ok (db\<lparr>db_metadata := md\<rparr>) = version_assets_ok db"
  "version_assets_ok (db\<lparr>db_songs := ss\<rparr>) = version_assets_ok db"
  by (simp_all add: metadata_ok_def songs_ok_def assets_ok_def versions_ok_def version_assets_ok_def)

text \<open>Extending the chronology or drawing an identifier keeps the tables.\<close>

lemma core_ok_frame [simp]:
  "core_ok (db\<lparr>db_draws := n\<rparr>) = core_ok db"
  "core_ok (db\<lparr>db_draws := n, db_activity := acs\<rparr>) = core_ok db"
  "core_ok (db\<lparr>db_activity := acs\<rparr>) = core_ok db"
  by (simp_all add: core_defs has_artist_def version_in_song_def)

lemma activity_row_ok_frame [simp]:
  "activity_row_ok (db\<lparr>db_draws := n\<rparr>) = activity_row_ok db"
  "activity_row_ok (db\<lparr>db_draws := n, db_activity := acs\<rparr>) = activity_row_ok db"
  "activity_row_ok (db\<lparr>db_activity := acs\<rparr>) = activity_row_ok db"
  by (simp_all add: fun_eq_iff activity_row_ok_def has_artist_def version_in_song_def)

lemma activity_ok_draws [simp]: "activity_ok (db\<lparr>db_draws := n\<rparr>) = activity_ok db"
  by (simp add: activity_ok_def)

lemma lineage_inv_draws [simp]: "lineage_inv (db\<lparr>db_draws := n\<rparr>) = lineage_inv db"
  by (simp add: lineage_inv_def)

lemma trimmed_not_blank: "trimmed t \<Longrightarrow> \<not> sql_blank t"
  by (cases t) (auto simp: trimmed_def sql_blank_def is_space_def code_def)

lemma new_id_draws: "new_id p db = (i, db') \<Longrightarrow> db' = db\<lparr>db_draws := Suc (db_draws db)\<rparr>"
  by (simp add: new_id_def)

lemma insert_activity_Inr:
  assumes "insert_activity etype artist song version otype oid db = Inr db'"
  obtains row where
    "db' = db\<lparr>db_draws := Suc (db_draws db), db_activity := db_activity db @ [row]\<rparr>"
    "activity_row_ok db row" "ac_seq row = Suc (length (db_activity db))"
    "ac_id row \<notin> ac_id ` set (db_activity db)" "ac_event_type row = etype"
    "ac_song_id row = song" "ac_version_id row = version"
    "ac_object_type row = otype" "ac_object_id row = oid"
  using assms
  by (auto simp: insert_activity_def new_id_def Let_def activity_row_ok_def has_artist_def
      version_in_song_def guardE_eq_Inr split: option.splits elim!: bindE_InrE)

lemma insert_activity_inv:
  assumes "insert_activity etype artist song version otype oid db = Inr db'"
    and "core_ok db" and "activity_ok db \<or> db_activity db = []"
  shows "lineage_inv db'"
  using assms
  by (elim insert_activity_Inr) (auto simp: lineage_inv_def activity_ok_def)

lemma insert_activity_log:
  "insert_activity etype artist song version otype oid db = Inr db'
     \<Longrightarrow> prefix (db_activity db) (db_activity db')"
  by (elim insert_activity_Inr) auto

subsection \<open>Rows are added, never dropped\<close>

text \<open>\<open>db\<close> is extended by \<open>db'\<close>: every identity row survives, songs keep their
  ids, the metadata other than the selection stays, and so do the tables of other components.\<close>

definition extends :: "'a lineage_db_scheme \<Rightarrow> 'a lineage_db_scheme \<Rightarrow> bool" where
  "extends db db' \<longleftrightarrow> db_artists db' = db_artists db \<and> db_random db' = db_random db
     \<and> (\<forall>k. k \<noteq> ''active_song_id'' \<longrightarrow> db_metadata db' k = db_metadata db k)
     \<and> lineage_db.more db' = lineage_db.more db
     \<and> prefix (map so_id (db_songs db)) (map so_id (db_songs db'))
     \<and> prefix (db_assets db) (db_assets db') \<and> prefix (db_versions db) (db_versions db')
     \<and> prefix (db_version_assets db) (db_version_assets db')
     \<and> prefix (db_activity db) (db_activity db')"

lemma extends_refl [simp]: "extends db db"
  by (simp add: extends_def)

lemma extends_trans: "extends a b \<Longrightarrow> extends b c \<Longrightarrow> extends a c"
  by (auto simp: extends_def elim: prefix_order.trans)

lemma extends_metadata:
  "extends db db' \<Longrightarrow> k \<noteq> ''active_song_id'' \<Longrightarrow> db_metadata db' k = db_metadata db k"
  by (simp add: extends_def)

lemma extends_songs: "extends db db' \<Longrightarrow> so_id ` set (db_songs db) \<subseteq> so_id ` set (db_songs db')"
  unfolding extends_def using set_mono_prefix [of "map so_id (db_songs db)"] by force

lemma extends_versions: "extends db db' \<Longrightarrow> set (db_versions db) \<subseteq> set (db_versions db')"
  by (simp add: extends_def set_mono_prefix)

lemma activity_row_ok_mono:
  assumes "extends db db'" and "activity_row_ok db a"
  shows "activity_row_ok db' a"
proof -
  have "has_artist db' (ac_artist_id a)"
    using assms by (simp add: activity_row_ok_def has_artist_def extends_def)
  moreover have "\<forall>s. ac_song_id a = Some s \<longrightarrow> s \<in> so_id ` set (db_songs db')"
    using assms(2) extends_songs [OF assms(1)] by (auto simp: activity_row_ok_def)
  moreover have "version_in_song db' v s" if "version_in_song db v s" for v s
    using that extends_versions [OF assms(1)] by (auto simp: version_in_song_iff)
  ultimately show ?thesis using assms(2) by (auto simp: activity_row_ok_def)
qed

lemma activity_ok_mono:
  "extends db db' \<Longrightarrow> activity_ok db \<Longrightarrow> db_activity db' = db_activity db \<Longrightarrow> activity_ok db'"
  by (auto simp: activity_ok_def list_all_iff intro: activity_row_ok_mono)

lemma insert_activity_step:
  assumes "insert_activity etype artist song version otype oid db1 = Inr db2"
    and "core_ok db1" and "extends db db1" and "activity_ok db" and "db_activity db1 = db_activity db"
  shows "lineage_inv db2 \<and> extends db db2"
proof -
  have "activity_ok db1" using assms(3-5) by (rule activity_ok_mono)
  with assms(1,2) have "lineage_inv db2" by (blast intro: insert_activity_inv)
  moreover have "extends db1 db2"
    using assms(1) by (elim insert_activity_Inr) (simp add: extends_def)
  ultimately show ?thesis using assms(3) extends_trans by blast
qed

subsection \<open>Each statement keeps the invariant\<close>

lemma core_ok_add_song:
  assumes "core_ok db" and "sid \<notin> so_id ` set (db_songs db)" and "has_artist db artist"
  shows "core_ok (db\<lparr>db_songs := db_songs db @ [\<lparr>so_id = sid, so_artist_id = artist,
     so_title = title, so_current_version_id = None, so_approved_version_id = None\<rparr>]\<rparr>)"
    (is "core_ok ?db")
proof -
  have "metadata_ok ?db" using assms(1) by (auto simp: core_ok_def metadata_ok_def)
  moreover have "songs_ok ?db" using assms by (auto simp: core_ok_def songs_ok_def)
  moreover have "assets_ok ?db" using assms(1) by (auto simp: core_ok_def assets_ok_def)
  moreover have "versions_ok ?db" using assms(1) by (auto simp: core_ok_def versions_ok_def)
  moreover have "version_assets_ok ?db" using assms(1) by (simp add: core_ok_def)
  ultimately show ?thesis by (simp add: core_ok_def)
qed

lemma insert_song_inv:
  assumes "insert_song sid artist title db = Inr db'" and "lineage_inv db"
  shows "lineage_inv db' \<and> extends db db' \<and> sid \<in> so_id ` set (db_songs db')"
proof -
  let ?db = "db\<lparr>db_songs := db_songs db @ [\<lparr>so_id = sid, so_artist_id = artist,
     so_title = title, so_current_version_id = None, so_approved_version_id = None\<rparr>]\<rparr>"
  from assms(1) have new: "sid \<notin> so_id ` set (db_songs db)" "has_artist db artist"
    and ins: "insert_activity ''SONG_CREATED'' artist (Some sid) None ''SONG'' sid ?db = Inr db'"
    by (auto simp: insert_song_def guardE_eq_Inr elim!: bindE_InrE)
  have "core_ok ?db" using core_ok_add_song [OF _ new] assms(2) by (simp add: lineage_inv_def)
  then have "lineage_inv db' \<and> extends db db'"
    by (rule insert_activity_step [OF ins]) (use assms(2) in \<open>simp_all add: lineage_inv_def extends_def\<close>)
  moreover have "sid \<in> so_id ` set (db_songs db')"
    using ins by (elim insert_activity_Inr) simp
  ultimately show ?thesis by simp
qed

lemma core_ok_active:
  "core_ok db \<Longrightarrow> sid \<in> so_id ` set (db_songs db)
     \<Longrightarrow> core_ok (db\<lparr>db_metadata := (db_metadata db)(''active_song_id'' \<mapsto> sid)\<rparr>)"
  by (simp add: core_ok_def) (auto simp: metadata_ok_def)

lemma update_active_song_cases:
  assumes "update_active_song sid db = Inr db'"
  defines "db1 \<equiv> db\<lparr>db_metadata := (db_metadata db)(''active_song_id'' \<mapsto> sid)\<rparr>"
  shows "db' = db \<or> db' = db1 \<or> (\<exists>s :: song. insert_activity ''SONG_SELECTED'' (so_artist_id s) (Some sid)
          (so_current_version_id s) ''SONG'' sid db1 = Inr db')"
proof (cases "db_metadata db ''active_song_id''")
  case None
  with assms(1) show ?thesis by (simp add: update_active_song_def)
next
  case (Some old)
  show ?thesis
  proof (cases "sid \<noteq> [] \<and> sid \<noteq> old")
    case True
    have eq: "(case get_song db1 sid of None \<Rightarrow> Inr db1
        | Some s \<Rightarrow> insert_activity ''SONG_SELECTED'' (so_artist_id s) (Some sid)
            (so_current_version_id s) ''SONG'' sid db1) = Inr db'"
      using True Some assms(1) unfolding update_active_song_def db1_def Let_def by simp
    show ?thesis
    proof (cases "get_song db1 sid")
      case None
      then show ?thesis using eq by (simp del: get_song_None)
    next
      case (Some s)
      then have "insert_activity ''SONG_SELECTED'' (so_artist_id s) (Some sid)
          (so_current_version_id s) ''SONG'' sid db1 = Inr db'" using eq by simp
      then show ?thesis by blast
    qed
  next
    case False
    with Some assms(1) show ?thesis by (simp add: update_active_song_def db1_def Let_def)
  qed
qed

lemma update_active_song_inv:
  assumes "update_active_song sid db = Inr db'" and "lineage_inv db"
    and "sid \<in> so_id ` set (db_songs db)"
  shows "lineage_inv db' \<and> extends db db' \<and> db_songs db' = db_songs db"
proof -
  let ?db = "db\<lparr>db_metadata := (db_metadata db)(''active_song_id'' \<mapsto> sid)\<rparr>"
  have core: "core_ok ?db" and ext: "extends db ?db"
    using assms(2,3) core_ok_active by (auto simp: lineage_inv_def extends_def)
  then have inv: "lineage_inv ?db"
    using assms(2) activity_ok_mono [OF ext] by (simp add: lineage_inv_def)
  have "lineage_inv db' \<and> extends db db' \<and> db_songs db' = db_songs db"
    if ins: "insert_activity ''SONG_SELECTED'' (so_artist_id s) (Some sid)
          (so_current_version_id s) ''SONG'' sid ?db = Inr db'" for s :: song
  proof -
    have "lineage_inv db' \<and> extends db db'"
      by (rule insert_activity_step [OF ins core ext]) (use assms(2) in \<open>simp_all add: lineage_inv_def\<close>)
    moreover have "db_songs db' = db_songs db" using ins by (elim insert_activity_Inr) simp
    ultimately show ?thesis by simp
  qed
  then show ?thesis
    using update_active_song_cases [OF assms(1)] assms(2) inv ext by auto
qed

lemma insert_asset_inv:
  assumes "insert_asset a db = Inr db'" and "lineage_inv db"
  shows "lineage_inv db' \<and> extends db db'"
proof -
  let ?db = "db\<lparr>db_assets := db_assets db @ [a]\<rparr>"
  from assms(1) obtain s where new: "as_id a \<notin> as_id ` set (db_assets db)"
    and s: "get_song db (as_song_id a) = Some s"
    and ins: "insert_activity ''ASSET_ATTACHED'' (so_artist_id s) (Some (as_song_id a)) None
                ''ASSET'' (as_id a) ?db = Inr db'"
    unfolding insert_asset_def
    by (elim bindE_InrE) (simp add: guardE_eq_Inr split: option.splits)
  have "as_song_id a \<in> so_id ` set (db_songs db)" using get_song_Some [OF s] by (metis imageI)
  then have "assets_ok ?db"
    using assms(2) new by (auto simp: lineage_inv_def core_ok_def assets_ok_def)
  moreover have "version_assets_ok ?db"
    using assms(2) by (fastforce simp: lineage_inv_def core_ok_def version_assets_ok_def)
  ultimately have "core_ok ?db" using assms(2) by (simp add: lineage_inv_def core_ok_def)
  then show ?thesis
    by (rule insert_activity_step [OF ins]) (use assms(2) in \<open>simp_all add: lineage_inv_def extends_def\<close>)
qed

text \<open>A version takes the next ordinal of its song.\<close>

lemma fold_max_upt: "fold max [1..<Suc n] (0::nat) = n"
proof -
  have "fold max [1..<Suc n] (0::nat) = Max (set (0 # [1..<Suc n]))"
    by (simp only: Max.set_eq_fold)
  also have "\<dots> = n" by (intro Max_eqI) auto
  finally show ?thesis .
qed

lemma next_ordinal_eq:
  "versions_ok db \<Longrightarrow> next_ordinal db sid
     = Suc (length (filter (\<lambda>v. ve_song_id v = sid) (db_versions db)))"
  unfolding next_ordinal_def versions_ok_def Let_def by (metis fold_max_upt)

lemma versions_ok_ordinal:
  "versions_ok db \<Longrightarrow> v \<in> set (db_versions db) \<Longrightarrow> ve_ordinal v < next_ordinal db (ve_song_id v)"
proof -
  assume ok: "versions_ok db" and v: "v \<in> set (db_versions db)"
  let ?vs = "filter (\<lambda>w. ve_song_id w = ve_song_id v) (db_versions db)"
  have "map ve_ordinal ?vs = [1..<Suc (length ?vs)]" using ok by (simp only: versions_ok_def Let_def)
  moreover have "ve_ordinal v \<in> set (map ve_ordinal ?vs)" using v by simp
  ultimately have "ve_ordinal v \<in> set [1..<Suc (length ?vs)]" by (simp del: upt_Suc)
  then show ?thesis by (auto simp: next_ordinal_eq [OF ok] simp del: upt_Suc)
qed

lemma versions_ok_add:
  assumes "versions_ok db" and "ve_id v \<notin> ve_id ` set (db_versions db)"
    and "ve_song_id v \<in> so_id ` set (db_songs db)"
    and ord: "ve_ordinal v = next_ordinal db (ve_song_id v)"
    and parent: "\<And>p. ve_parent_version_id v = Some p \<Longrightarrow> version_in_song db p (ve_song_id v)"
  shows "versions_ok (db\<lparr>db_versions := db_versions db @ [v]\<rparr>)"
proof -
  have par: "\<exists>w \<in> set (db_versions db). ve_id w = p \<and> ve_song_id w = ve_song_id v
      \<and> ve_ordinal w < ve_ordinal v" if "ve_parent_version_id v = Some p" for p
    using parent [OF that] versions_ok_ordinal [OF assms(1)] ord
    by (auto simp: version_in_song_iff) metis
  have seg: "map ve_ordinal (filter (\<lambda>w. ve_song_id w = sid) (db_versions db @ [v]))
      = [1..<Suc (length (filter (\<lambda>w. ve_song_id w = sid) (db_versions db @ [v])))]" for sid
  proof -
    have "map ve_ordinal (filter (\<lambda>w. ve_song_id w = sid) (db_versions db))
      = [1..<Suc (length (filter (\<lambda>w. ve_song_id w = sid) (db_versions db)))]"
      using assms(1) by (simp only: versions_ok_def Let_def)
    then show ?thesis using ord next_ordinal_eq [OF assms(1), of sid]
      by (cases "ve_song_id v = sid") simp_all
  qed
  have old: "\<forall>u \<in> set (db_versions db). ve_song_id u \<in> so_id ` set (db_songs db)
        \<and> (\<forall>p. ve_parent_version_id u = Some p \<longrightarrow>
             (\<exists>w \<in> set (db_versions db). ve_id w = p \<and> ve_song_id w = ve_song_id u
                \<and> ve_ordinal w < ve_ordinal u))" and dist: "distinct (map ve_id (db_versions db))"
    using assms(1) unfolding versions_ok_def by blast+
  show ?thesis
    unfolding versions_ok_def Let_def
    using old dist par assms(2,3) seg by (auto simp del: upt_Suc filter_append)
qed

lemma core_ok_add_version:
  assumes "core_ok db" and "versions_ok (db\<lparr>db_versions := db_versions db @ [v]\<rparr>)"
  shows "core_ok (db\<lparr>db_versions := db_versions db @ [v]\<rparr>)" (is "core_ok ?db")
proof -
  have "songs_ok ?db" using assms(1) by (auto simp: core_ok_def songs_ok_def version_in_song_iff)
  moreover have "version_assets_ok ?db"
    using assms(1) by (fastforce simp: core_ok_def version_assets_ok_def)
  ultimately show ?thesis using assms by (simp add: core_ok_def)
qed

lemma insert_version_inv:
  assumes "insert_version v db = Inr db'" and "lineage_inv db"
    and "ve_ordinal v = next_ordinal db (ve_song_id v)"
  shows "lineage_inv db' \<and> extends db db' \<and> v \<in> set (db_versions db')"
proof -
  let ?db = "db\<lparr>db_versions := db_versions db @ [v]\<rparr>"
  from assms(1) obtain s where new: "ve_id v \<notin> ve_id ` set (db_versions db)"
    and s: "get_song db (ve_song_id v) = Some s"
    and par: "\<And>p. ve_parent_version_id v = Some p \<Longrightarrow> version_in_song db p (ve_song_id v)"
    and ins: "insert_activity ''VERSION_CREATED'' (so_artist_id s) (Some (ve_song_id v))
                (Some (ve_id v)) ''VERSION'' (ve_id v) ?db = Inr db'"
    unfolding insert_version_def
    by (elim bindE_InrE) (simp add: guardE_eq_Inr split: option.splits)
  have "ve_song_id v \<in> so_id ` set (db_songs db)" using get_song_Some [OF s] by (metis imageI)
  then have "core_ok ?db"
    using assms(2,3) new par
    by (intro core_ok_add_version versions_ok_add) (auto simp: lineage_inv_def core_ok_def)
  then have "lineage_inv db' \<and> extends db db'"
    by (rule insert_activity_step [OF ins]) (use assms(2) in \<open>simp_all add: lineage_inv_def extends_def\<close>)
  moreover have "v \<in> set (db_versions db')" using ins by (elim insert_activity_Inr) simp
  ultimately show ?thesis by simp
qed

lemma insert_version_asset_inv:
  assumes "insert_version_asset vid aid role db = Inr db'" and "lineage_inv db"
  shows "lineage_inv db' \<and> extends db db' \<and> db_versions db' = db_versions db"
proof -
  let ?db = "db\<lparr>db_version_assets := db_version_assets db @ [(vid, aid, role)]\<rparr>"
  from assms(1) have db': "db' = ?db" and ref: "\<exists>w \<in> set (db_versions db). \<exists>b \<in> set (db_assets db).
      ve_id w = vid \<and> as_id b = aid \<and> as_song_id b = ve_song_id w"
    unfolding insert_version_asset_def
    by (auto simp: guardE_eq_Inr list_ex_iff elim!: bindE_InrE) metis
  have "version_assets_ok ?db"
    using assms(2) ref by (auto simp: lineage_inv_def core_ok_def version_assets_ok_def)
  then have "core_ok ?db" using assms(2) by (simp add: lineage_inv_def core_ok_def)
  moreover have ext: "extends db ?db" by (simp add: extends_def)
  moreover have "activity_ok ?db"
    using activity_ok_mono [OF ext] assms(2) by (simp add: lineage_inv_def)
  ultimately show ?thesis by (simp add: db' lineage_inv_def)
qed

lemma insert_version_assets_inv:
  "insert_version_assets vid as db = Inr db' \<Longrightarrow> lineage_inv db
     \<Longrightarrow> lineage_inv db' \<and> extends db db' \<and> db_versions db' = db_versions db"
proof (induction "as" arbitrary: db)
  case Nil
  then show ?case by simp
next
  case (Cons a as)
  from Cons.prems(1) obtain db1 where 1: "insert_version_asset vid a ''SOURCE'' db = Inr db1"
    and 2: "insert_version_assets vid as db1 = Inr db'"
    by (auto elim!: bindE_InrE)
  from insert_version_asset_inv [OF 1 Cons.prems(2)] Cons.IH [OF 2] show ?case
    using extends_trans by auto
qed

lemma map_so_id_update:
  "(\<And>s. so_id (f s) = so_id s) \<Longrightarrow> map so_id (db_songs (update_song sid f db)) = map so_id (db_songs db)"
  by (simp add: update_song_def)

lemma core_ok_update_song:
  assumes "core_ok db" and keep: "\<And>s. so_id (f s) = so_id s \<and> so_artist_id (f s) = so_artist_id s"
    and cur: "\<And>s v. so_current_version_id (f s) = Some v \<Longrightarrow>
        so_current_version_id s = Some v \<or> version_in_song db v sid"
    and app: "\<And>s v. so_approved_version_id (f s) = Some v \<Longrightarrow>
        so_approved_version_id s = Some v \<or> version_in_song db v sid"
  shows "core_ok (update_song sid f db)" (is "core_ok ?db")
proof -
  have ids: "so_id ` set (db_songs ?db) = so_id ` set (db_songs db)"
    "distinct (map so_id (db_songs ?db)) = distinct (map so_id (db_songs db))"
    using map_so_id_update [of f sid db] keep by (metis image_set, metis)
  have fr: "has_artist ?db = has_artist db" "version_in_song ?db = version_in_song db"
    by (simp_all add: update_song_def)
  have "metadata_ok ?db" using assms(1) ids by (auto simp: core_ok_def metadata_ok_def fr) (simp_all add: update_song_def)
  moreover have "songs_ok ?db"
    unfolding songs_ok_def fr ids(2)
    using assms(1) keep by (auto simp: core_ok_def songs_ok_def update_song_def dest!: cur app)
  moreover have tabs: "db_assets ?db = db_assets db" "db_versions ?db = db_versions db"
    "db_version_assets ?db = db_version_assets db"
    by (simp_all add: update_song_def)
  moreover have "assets_ok ?db"
    using assms(1) unfolding core_ok_def assets_ok_def tabs ids by blast
  moreover have "versions_ok ?db"
    using assms(1) unfolding core_ok_def versions_ok_def tabs ids by blast
  moreover have "version_assets_ok ?db"
    using assms(1) unfolding core_ok_def version_assets_ok_def tabs by blast
  ultimately show ?thesis by (simp add: core_ok_def)
qed

text \<open>The two pointer updates of a song share their shape.\<close>

lemma update_song_inv:
  assumes "core_ok db" "activity_ok db"
    and "\<And>s. so_id (f s) = so_id s \<and> so_artist_id (f s) = so_artist_id s"
    and "\<And>s v. so_current_version_id (f s) = Some v \<Longrightarrow>
        so_current_version_id s = Some v \<or> version_in_song db v sid"
    and "\<And>s v. so_approved_version_id (f s) = Some v \<Longrightarrow>
        so_approved_version_id s = Some v \<or> version_in_song db v sid"
  shows "core_ok (update_song sid f db) \<and> extends db (update_song sid f db)
    \<and> db_activity (update_song sid f db) = db_activity db
    \<and> lineage_inv (update_song sid f db)"
proof -
  have "core_ok (update_song sid f db)" using core_ok_update_song assms by blast
  moreover have ext: "extends db (update_song sid f db)"
    using map_so_id_update [of f sid db] assms(3) by (simp add: extends_def) (simp add: update_song_def)
  moreover have log: "db_activity (update_song sid f db) = db_activity db" by (simp add: update_song_def)
  moreover have "activity_ok (update_song sid f db)" using activity_ok_mono [OF ext assms(2) log] .
  ultimately show ?thesis by (simp add: lineage_inv_def)
qed

lemma update_current_version_inv:
  assumes "update_current_version sid vid db = Inr db'" and "lineage_inv db"
  shows "lineage_inv db' \<and> extends db db'"
proof (cases "get_song db sid")
  case None
  with assms show ?thesis by (simp add: update_current_version_def del: get_song_None)
next
  case (Some s)
  let ?db = "update_song sid (\<lambda>s. s\<lparr>so_current_version_id := Some vid\<rparr>) db"
  from Some assms(1) have v: "version_in_song db vid sid"
    and eq: "(if so_current_version_id s \<noteq> Some vid then
       insert_activity ''CURRENT_VERSION_CHANGED'' (so_artist_id s) (Some sid) (Some vid)
              ''VERSION'' vid ?db else Inr ?db) = Inr db'"
    unfolding update_current_version_def
    by (simp_all add: guardE_def Let_def bindE_def split: if_splits)
  have ok: "core_ok ?db \<and> extends db ?db \<and> db_activity ?db = db_activity db \<and> lineage_inv ?db"
    by (rule update_song_inv) (use assms(2) v in \<open>auto simp: lineage_inv_def\<close>)
  show ?thesis
  proof (cases "so_current_version_id s = Some vid")
    case True
    with eq ok show ?thesis by auto
  next
    case False
    with eq have "insert_activity ''CURRENT_VERSION_CHANGED'' (so_artist_id s) (Some sid) (Some vid)
              ''VERSION'' vid ?db = Inr db'" by simp
    then show ?thesis
      by (rule insert_activity_step) (use ok assms(2) in \<open>simp_all add: lineage_inv_def\<close>)
  qed
qed

lemma update_approved_version_inv:
  assumes "update_approved_version sid vid db = Inr db'" and "lineage_inv db"
  shows "lineage_inv db' \<and> extends db db'"
proof (cases "get_song db sid")
  case None
  with assms show ?thesis by (simp add: update_approved_version_def del: get_song_None)
next
  case (Some s)
  let ?db = "update_song sid (\<lambda>s. s\<lparr>so_approved_version_id := Some vid\<rparr>) db"
  from Some assms(1) have v: "version_in_song db vid sid"
    and eq: "(if so_approved_version_id s \<noteq> Some vid then
       insert_activity ''VERSION_APPROVED'' (so_artist_id s) (Some sid) (Some vid)
              ''VERSION'' vid ?db else Inr ?db) = Inr db'"
    unfolding update_approved_version_def
    by (simp_all add: guardE_def Let_def bindE_def split: if_splits)
  have ok: "core_ok ?db \<and> extends db ?db \<and> db_activity ?db = db_activity db \<and> lineage_inv ?db"
    by (rule update_song_inv) (use assms(2) v in \<open>auto simp: lineage_inv_def\<close>)
  show ?thesis
  proof (cases "so_approved_version_id s = Some vid")
    case True
    with eq ok show ?thesis by auto
  next
    case False
    with eq have "insert_activity ''VERSION_APPROVED'' (so_artist_id s) (Some sid) (Some vid)
              ''VERSION'' vid ?db = Inr db'" by simp
    then show ?thesis
      by (rule insert_activity_step) (use ok assms(2) in \<open>simp_all add: lineage_inv_def\<close>)
  qed
qed

subsection \<open>Each operation keeps the invariant\<close>

lemma create_song_inv:
  assumes "create_song title db = Inr (s, db')" and "lineage_inv db"
  shows "lineage_inv db' \<and> extends db db'"
proof -
  obtain sid db1 where id: "new_id ''song'' db = (sid, db1)" by (cases "new_id ''song'' db") auto
  from assms(1) obtain t a db2 db3 where 1: "insert_song sid a t db1 = Inr db2"
    and 2: "update_active_song sid db2 = Inr db3"
    and 3: "(case get_song db3 sid of None \<Rightarrow> Inl (Raise PyAssertionError []) | Some s \<Rightarrow> Inr (s, db3))
              = Inr (s, db')"
    unfolding create_song_def id Let_def by (auto elim!: bindE_InrE)
  have db1: "lineage_inv db1" "extends db db1"
    using new_id_draws [OF id] assms(2) by (simp_all add: extends_def)
  note i1 = insert_song_inv [OF 1 db1(1)]
  note i2 = update_active_song_inv [OF 2] 
  from 3 have "db' = db3" by (simp split: option.splits)
  with i1 i2 db1 extends_trans show ?thesis by blast
qed

lemma select_song_inv:
  assumes "select_song sid db = Inr (s, db')" and "lineage_inv db"
  shows "lineage_inv db' \<and> extends db db'"
proof -
  from assms(1) obtain s0 where "get_song db sid = Some s0" and "update_active_song (so_id s0) db = Inr db'"
    by (auto simp: select_song_def require_song_def elim!: bindE_InrE split: option.splits)
  then show ?thesis using update_active_song_inv assms(2) get_song_Some by (metis imageI)
qed

lemma attach_asset_inv:
  assumes "attach_asset sid name sha uri db = Inr (a, db')" and "lineage_inv db"
  shows "lineage_inv db' \<and> extends db db'"
proof -
  obtain aid db1 where id: "new_id ''asset'' db = (aid, db1)" by (cases "new_id ''asset'' db") auto
  from assms(1) obtain b where 1: "insert_asset b db1 = Inr db'"
    unfolding attach_asset_def id Let_def by (auto elim!: bindE_InrE)
  have db1: "lineage_inv db1" "extends db db1"
    using new_id_draws [OF id] assms(2) by (simp_all add: extends_def)
  with insert_asset_inv [OF 1 db1(1)] extends_trans show ?thesis by blast
qed

lemma create_version_inv:
  assumes "create_version sid label parent as mk db = Inr (v, db')" and "lineage_inv db"
  shows "lineage_inv db' \<and> extends db db'"
proof -
  obtain vid db1 where id: "new_id ''ver'' db = (vid, db1)" by (cases "new_id ''ver'' db") auto
  from assms(1) obtain l db2 db3 db4 where
    1: "insert_version \<lparr>ve_id = vid, ve_song_id = sid, ve_ordinal = next_ordinal db1 sid,
              ve_label = l, ve_parent_version_id = parent\<rparr> db1 = Inr db2"
    and 2: "insert_version_assets vid (fromkeys as) db2 = Inr db3"
    and 3: "(if mk then update_current_version sid vid db3 else Inr db3) = Inr db4"
    and 4: "(case get_version db4 vid of None \<Rightarrow> Inl (Raise PyAssertionError []) | Some v \<Rightarrow> Inr (v, db4))
              = Inr (v, db')"
    unfolding create_version_def id Let_def prod.case by (elim bindE_InrE) blast
  have db1: "lineage_inv db1" "extends db db1"
    using new_id_draws [OF id] assms(2) by (simp_all add: extends_def)
  have i1: "lineage_inv db2 \<and> extends db1 db2" using insert_version_inv [OF 1 db1(1)] by simp
  then have i2: "lineage_inv db3 \<and> extends db2 db3" using insert_version_assets_inv [OF 2] by simp
  have i3: "lineage_inv db4 \<and> extends db3 db4"
    using 3 i2 update_current_version_inv by (cases mk) auto
  from 4 have "db' = db4" by (simp split: option.splits)
  with i1 i2 i3 db1 extends_trans show ?thesis by blast
qed

lemma set_current_version_inv:
  assumes "set_current_version sid vid db = Inr (s, db')" and "lineage_inv db"
  shows "lineage_inv db' \<and> extends db db'"
  using assms by (auto simp: set_current_version_def elim!: bindE_InrE dest: update_current_version_inv)

lemma approve_version_inv:
  assumes "approve_version sid vid db = Inr (s, db')" and "lineage_inv db"
  shows "lineage_inv db' \<and> extends db db'"
  using assms by (auto simp: approve_version_def elim!: bindE_InrE dest: update_approved_version_inv)

text \<open>The store as a machine: one command per public operation that writes.\<close>

datatype lineage_cmd =
    Create_Song string
  | Select_Song string
  | Attach_Asset string string string "string option"
  | Create_Version string string "string option" "string list" bool
  | Set_Current string string
  | Approve string string

fun exec_lineage :: "lineage_cmd \<Rightarrow> 'a lineage_db_scheme \<Rightarrow> 'a lineage_db_scheme res" where
  "exec_lineage (Create_Song title) db = map_sum id snd (create_song title db)"
| "exec_lineage (Select_Song sid) db = map_sum id snd (select_song sid db)"
| "exec_lineage (Attach_Asset sid name sha uri) db = map_sum id snd (attach_asset sid name sha uri db)"
| "exec_lineage (Create_Version sid label parent as mk) db =
     map_sum id snd (create_version sid label parent as mk db)"
| "exec_lineage (Set_Current sid vid) db = map_sum id snd (set_current_version sid vid db)"
| "exec_lineage (Approve sid vid) db = map_sum id snd (approve_version sid vid db)"

lemma map_sum_snd_Inr: "map_sum id snd r = Inr y \<longleftrightarrow> (\<exists>x. r = Inr (x, y))"
  by (cases r) auto

lemma exec_lineage_inv:
  "exec_lineage c db = Inr db' \<Longrightarrow> lineage_inv db \<Longrightarrow> lineage_inv db' \<and> extends db db'"
  by (cases c) (simp only: exec_lineage.simps map_sum_snd_Inr,
    blast dest: create_song_inv select_song_inv attach_asset_inv create_version_inv
      set_current_version_inv approve_version_inv)+

interpretation lineage_machine: logged_machine exec_lineage lineage_inv db_activity
  by unfold_locales (auto simp: extends_def dest: exec_lineage_inv)

interpretation version_machine: logged_machine exec_lineage lineage_inv db_versions
  by unfold_locales (auto simp: extends_def dest: exec_lineage_inv)

subsection \<open>Creating and re-opening\<close>

lemma create_profile_inv:
  assumes "create_profile random name = Inr db"
  shows "lineage_inv db"
proof -
  obtain n where 1: "insert_activity ''ACTIVITY_TRACKING_ENABLED'' (''art_'' @ random 1) None None
      ''PROFILE'' (''prf_'' @ random 0)
      \<lparr>db_random = random, db_draws = 2,
       db_metadata = [''schema_version'' \<mapsto> ''1'', ''profile_id'' \<mapsto> ''prf_'' @ random 0,
         ''primary_artist_id'' \<mapsto> ''art_'' @ random 1, ''active_song_id'' \<mapsto> []],
       db_artists = [\<lparr>ar_id = ''art_'' @ random 1, ar_display_name = n\<rparr>],
       db_songs = [], db_assets = [], db_versions = [], db_version_assets = [], db_activity = []\<rparr>
      = Inr db"
    using assms by (auto simp: create_profile_def new_id_def Let_def numeral_2_eq_2 elim!: bindE_InrE)
  show ?thesis
    by (rule insert_activity_inv [OF 1])
      (simp_all add: core_defs has_artist_def)
qed

lemma lineage_inv_foreign_keys:
  assumes "lineage_inv db"
  shows "foreign_keys_ok db"
proof -
  have vis: "v \<in> ve_id ` set (db_versions db)" if "version_in_song db v s" for v s
    using that by (auto simp: version_in_song_iff)
  have "list_all (\<lambda>s. has_artist db (so_artist_id s)
        \<and> pred_option (\<lambda>v. get_version db v \<noteq> None) (so_current_version_id s)
        \<and> pred_option (\<lambda>v. get_version db v \<noteq> None) (so_approved_version_id s)) (db_songs db)"
    using assms vis by (auto simp: lineage_inv_def core_ok_def songs_ok_def list_all_iff pred_option_def)
  moreover have "list_all (\<lambda>a. get_song db (as_song_id a) \<noteq> None) (db_assets db)"
    using assms by (auto simp: lineage_inv_def core_ok_def assets_ok_def list_all_iff)
  moreover have "list_all (\<lambda>v. get_song db (ve_song_id v) \<noteq> None
        \<and> pred_option (\<lambda>p. get_version db p \<noteq> None) (ve_parent_version_id v)) (db_versions db)"
    using assms unfolding lineage_inv_def core_ok_def versions_ok_def
    by (auto simp: list_all_iff pred_option_def simp del: upt_Suc)
  moreover have "list_all (\<lambda>(v, a, _). get_version db v \<noteq> None \<and> get_asset db a \<noteq> None)
         (db_version_assets db)"
    using assms by (fastforce simp: lineage_inv_def core_ok_def version_assets_ok_def list_all_iff)
  ultimately show ?thesis by (simp add: foreign_keys_ok_def)
qed

lemma lineage_inv_validates:
  assumes "lineage_inv db" and "db_metadata db ''profile_id'' = Some pid"
  shows "validate_lineage pid db = Inr ()" and "validate_activity db = Inr ()"
proof -
  show "validate_lineage pid db = Inr ()"
    using lineage_inv_foreign_keys [OF assms(1)] assms
    by (auto simp: validate_lineage_def lineage_inv_def core_ok_def metadata_ok_def)
  have "list_all (\<lambda>a. has_artist db (ac_artist_id a)
              \<and> pred_option (\<lambda>s. get_song db s \<noteq> None) (ac_song_id a)
              \<and> pred_option (\<lambda>v. \<exists>s \<in> set_option (ac_song_id a). version_in_song db v s)
                   (ac_version_id a)) (db_activity db)"
    using assms(1)
    by (fastforce simp: lineage_inv_def activity_ok_def activity_row_ok_def list_all_iff
        pred_option_def simp del: upt_Suc)
  moreover have "1 \<le> length (db_activity db)"
    using assms(1) by (cases "db_activity db") (auto simp: lineage_inv_def activity_ok_def)
  ultimately show "validate_activity db = Inr ()" by (simp add: validate_activity_def)
qed

lemma run_extends:
  "lineage_inv db \<Longrightarrow> extends db (run_cmds exec_lineage cs db)"
proof (induction cs arbitrary: db)
  case Nil
  then show ?case by simp
next
  case (Cons c cs)
  then show ?case
    using exec_lineage_inv extends_trans by (cases "exec_lineage c db") fastforce+
qed

lemma create_profile_id:
  "create_profile random name = Inr db \<Longrightarrow> db_metadata db ''profile_id'' = Some (''prf_'' @ random 0)"
  by (auto simp: create_profile_def new_id_def Let_def elim!: bindE_InrE insert_activity_Inr)

lemmas profile_run = create_profile_inv [THEN lineage_machine.run_inv]
  create_profile_inv [THEN run_extends]

text \<open>A component that extends the record adds its tables and records its schema version.\<close>

lemma extend_activity_row_ok:
  "activity_row_ok (lineage_db.extend db m) = activity_row_ok db" for db :: lineage_db
  by (simp add: fun_eq_iff activity_row_ok_def has_artist_def version_in_song_def lineage_db.defs)

lemma extend_lineage_inv: "lineage_inv (lineage_db.extend db m) = lineage_inv db" for db :: lineage_db
proof -
  have "core_ok (lineage_db.extend db m) = core_ok db"
    by (simp add: core_defs has_artist_def version_in_song_def lineage_db.defs del: upt_Suc)
  moreover have "activity_ok (lineage_db.extend db m) = activity_ok db"
    unfolding activity_ok_def extend_activity_row_ok by (simp add: lineage_db.defs del: upt_Suc)
  ultimately show ?thesis by (simp add: lineage_inv_def)
qed

lemma install_tables_inv:
  fixes db :: lineage_db
  assumes "lineage_inv db"
    and "k \<notin> {''schema_version'', ''profile_id'', ''primary_artist_id'', ''active_song_id''}"
  shows "lineage_inv (lineage_db.extend (db\<lparr>db_metadata := (db_metadata db)(k \<mapsto> v)\<rparr>) m)"
proof -
  let ?db = "db\<lparr>db_metadata := (db_metadata db)(k \<mapsto> v)\<rparr>"
  have "metadata_ok ?db" using assms by (auto simp: lineage_inv_def core_ok_def metadata_ok_def)
  then have "core_ok ?db" using assms by (simp add: lineage_inv_def core_ok_def)
  moreover have "activity_row_ok ?db = activity_row_ok db" by (simp add: fun_eq_iff activity_row_ok_def)
  then have "activity_ok ?db" using assms by (simp add: lineage_inv_def activity_ok_def del: upt_Suc)
  ultimately show ?thesis unfolding extend_lineage_inv by (simp add: lineage_inv_def)
qed

text \<open>A concrete profile for the witnesses.\<close>

definition demo_random :: "nat \<Rightarrow> string" where
  "demo_random n = replicate (Suc n) CHR ''a''"

definition demo_profile :: lineage_db where
  "demo_profile = the (case create_profile demo_random ''Ada'' of Inl _ \<Rightarrow> None | Inr db \<Rightarrow> Some db)"

lemma demo_profile_created: "create_profile demo_random ''Ada'' = Inr demo_profile"
proof -
  have "\<not> isl (create_profile demo_random ''Ada'')" by code_simp
  then show ?thesis by (cases "create_profile demo_random ''Ada''") (simp_all add: demo_profile_def)
qed

definition demo_cmds :: "lineage_cmd list" where
  "demo_cmds = [Create_Song ''Dawn'', Create_Version ''song_aaaa'' ''first'' None [] True,
     Approve ''song_aaaa'' ''ver_aaaaaaa'']"


lemma demo_run: "map ac_event_type (db_activity (run_cmds exec_lineage demo_cmds demo_profile)) =
  [''ACTIVITY_TRACKING_ENABLED'', ''SONG_CREATED'', ''SONG_SELECTED'', ''VERSION_CREATED'',
   ''CURRENT_VERSION_CHANGED'', ''VERSION_APPROVED'']"
  by code_simp

subsection \<open>Properties\<close>

text \<open>
  Every profile the store can reach re-opens: after \<open>create\<close> and any sequence of operations,
  successful or failing, \<open>_validate_existing\<close> of the lineage store (with the profile's own id)
  and of the activity log accept the database.
\<close>
theorem reachable_profile_validates:
  assumes "create_profile random name = Inr db0" and "db = run_cmds exec_lineage cs db0"
  shows "validate_lineage (''prf_'' @ random 0) db = Inr () \<and> validate_activity db = Inr ()"
proof -
  have "db_metadata db ''profile_id'' = Some (''prf_'' @ random 0)"
    using extends_metadata [OF profile_run(2) [OF assms(1)]] create_profile_id [OF assms(1)] assms(2)
    by simp
  then show ?thesis using lineage_inv_validates profile_run(1) [OF assms(1)] assms(2) by blast
qed

theorem reachable_profile_validates_witness:
  "length (db_activity (run_cmds exec_lineage demo_cmds demo_profile)) = 6
   \<and> validate_lineage (''prf_'' @ demo_random 0) (run_cmds exec_lineage demo_cmds demo_profile) = Inr ()
   \<and> validate_activity (run_cmds exec_lineage demo_cmds demo_profile) = Inr ()"
  using reachable_profile_validates [OF demo_profile_created refl] arg_cong [OF demo_run, of length] by simp

text \<open>
  History is append-only: what a profile has recorded (its chronology, its versions and
  their asset links) is an initial segment of what any later state records, row for row.
\<close>
theorem history_append_only:
  assumes "create_profile random name = Inr db0" and "db1 = run_cmds exec_lineage cs db0"
    and "db2 = run_cmds exec_lineage ds db1"
  shows "prefix (db_activity db1) (db_activity db2) \<and> prefix (db_versions db1) (db_versions db2)
     \<and> prefix (db_version_assets db1) (db_version_assets db2) \<and> prefix (db_assets db1) (db_assets db2)"
  using run_extends profile_run(1) [OF assms(1)] assms(2,3) by (metis extends_def)

theorem history_append_only_witness:
  "prefix (db_activity demo_profile) (db_activity (run_cmds exec_lineage demo_cmds demo_profile))
   \<and> db_versions (run_cmds exec_lineage demo_cmds demo_profile) \<noteq> []"
proof
  show "prefix (db_activity demo_profile) (db_activity (run_cmds exec_lineage demo_cmds demo_profile))"
    using history_append_only [OF demo_profile_created, of demo_profile "[]" _ demo_cmds] by simp
  show "db_versions (run_cmds exec_lineage demo_cmds demo_profile) \<noteq> []" by code_simp
qed

text \<open>
  C36. In every reachable profile the versions of a song carry the ordinals 1, 2, ... in
  creation order, a parent version belongs to the same song and has a smaller ordinal (so the
  ancestry is acyclic), and the current and the approved version of a song are its own versions.
\<close>
theorem reachable_version_chain:
  assumes "create_profile random name = Inr db0" and "db = run_cmds exec_lineage cs db0"
  shows "(\<forall>sid. map ve_ordinal (filter (\<lambda>v. ve_song_id v = sid) (db_versions db))
            = [1..<Suc (length (filter (\<lambda>v. ve_song_id v = sid) (db_versions db)))])
     \<and> (\<forall>v \<in> set (db_versions db). \<forall>p. ve_parent_version_id v = Some p \<longrightarrow>
          (\<exists>w. get_version db p = Some w \<and> ve_song_id w = ve_song_id v \<and> ve_ordinal w < ve_ordinal v))
     \<and> (\<forall>s \<in> set (db_songs db). \<forall>v. so_current_version_id s = Some v \<or> so_approved_version_id s = Some v
          \<longrightarrow> version_in_song db v (so_id s))"
proof -
  have inv: "lineage_inv db" using profile_run(1) [OF assms(1)] assms(2) by simp
  then have ver: "versions_ok db" and sng: "songs_ok db" by (simp_all add: lineage_inv_def core_ok_def)
  have "map ve_ordinal (filter (\<lambda>v. ve_song_id v = sid) (db_versions db))
            = [1..<Suc (length (filter (\<lambda>v. ve_song_id v = sid) (db_versions db)))]" for sid
    using ver unfolding versions_ok_def Let_def by blast
  moreover have "\<exists>w. get_version db p = Some w \<and> ve_song_id w = ve_song_id v \<and> ve_ordinal w < ve_ordinal v"
    if tv: "v \<in> set (db_versions db)" and tp: "ve_parent_version_id v = Some p" for v p
  proof -
    obtain w where "w \<in> set (db_versions db)" "ve_id w = p" "ve_song_id w = ve_song_id v"
      "ve_ordinal w < ve_ordinal v" using ver tv tp unfolding versions_ok_def by blast
    moreover from this obtain u where u: "get_version db p = Some u"
      using get_version_None [of db p] by (cases "get_version db p") auto
    ultimately have "u = w" using get_version_Some [OF u] ver
      unfolding versions_ok_def by (metis eq_key_imp_eq_value inj_onD distinct_map)
    with u show ?thesis using \<open>ve_song_id w = _\<close> \<open>ve_ordinal w < _\<close> by blast
  qed
  moreover have "version_in_song db v (so_id s)"
    if "s \<in> set (db_songs db)" "so_current_version_id s = Some v \<or> so_approved_version_id s = Some v" for s v
    using sng that unfolding songs_ok_def by blast
  ultimately show ?thesis by blast
qed

theorem reachable_version_chain_witness:
  "list_ex (\<lambda>s. so_approved_version_id s = Some ''ver_aaaaaaa'')
     (db_songs (run_cmds exec_lineage demo_cmds demo_profile))
   \<and> map ve_ordinal (filter (\<lambda>v. ve_song_id v = ''song_aaaa'')
        (db_versions (run_cmds exec_lineage demo_cmds demo_profile)))
     = [1..<Suc (length (filter (\<lambda>v. ve_song_id v = ''song_aaaa'')
        (db_versions (run_cmds exec_lineage demo_cmds demo_profile))))]"
proof
  show "list_ex (\<lambda>s. so_approved_version_id s = Some ''ver_aaaaaaa'')
     (db_songs (run_cmds exec_lineage demo_cmds demo_profile))" by code_simp
  show "map ve_ordinal (filter (\<lambda>v. ve_song_id v = ''song_aaaa'')
        (db_versions (run_cmds exec_lineage demo_cmds demo_profile)))
     = [1..<Suc (length (filter (\<lambda>v. ve_song_id v = ''song_aaaa'')
        (db_versions (run_cmds exec_lineage demo_cmds demo_profile))))]"
    using reachable_version_chain [OF demo_profile_created refl, of demo_cmds] by blast
qed

end
