(* ===== verification/Json.thy ===== *)
theory Json
  imports Prelude
begin

text \<open>
  The part of Python's \<open>json\<close> module the program relies on for fingerprints and permit
  tokens: JSON values, \<open>json.dumps(..., sort_keys=True, separators=(",", ":"))\<close> with
  either setting of \<open>ensure_ascii\<close>, and \<open>json.loads\<close>. Numbers are Python integers;
  floating-point literals are outside the model and make \<open>loads\<close> fail. Objects are
  association lists in insertion order. The main result is the round trip
  \<open>loads_dumps\<close>, from which canonical encodings are injective up to key order
  (\<open>dumps_inj\<close>).
\<close>

datatype json =
    JNull | JBool bool | JInt int | JStr string
  | JList "json list" | JObj "(string \<times> json) list"

subsection \<open>Encoding\<close>

definition hex_digit :: "nat \<Rightarrow> char" where
  "hex_digit n = (if n < 10 then char_of (48 + n) else char_of (87 + n))"

definition esc_char :: "bool \<Rightarrow> char \<Rightarrow> string" where
  "esc_char ascii c = (let n = code c in
     if n = 34 then [CHR 0x5C, CHR 0x22]
     else if n = 92 then [CHR 0x5C, CHR 0x5C]
     else if n = 10 then [CHR 0x5C, CHR ''n'']
     else if n = 13 then [CHR 0x5C, CHR ''r'']
     else if n = 9 then [CHR 0x5C, CHR ''t'']
     else if n = 12 then [CHR 0x5C, CHR ''f'']
     else if n = 8 then [CHR 0x5C, CHR ''b'']
     else if n < 32 \<or> (ascii \<and> 126 < n)
       then [CHR 0x5C, CHR ''u'', CHR ''0'', CHR ''0'', hex_digit (n div 16), hex_digit (n mod 16)]
     else [c])"

definition str_body :: "bool \<Rightarrow> string \<Rightarrow> string" where
  "str_body ascii s = concat (map (esc_char ascii) s)"

definition str_lit :: "bool \<Rightarrow> string \<Rightarrow> string" where
  "str_lit ascii s = CHR 0x22 # str_body ascii s @ [CHR 0x22]"

fun digits :: "nat \<Rightarrow> string" where
  "digits n = (if n < 10 then [char_of (48 + n)] else digits (n div 10) @ [char_of (48 + n mod 10)])"

declare digits.simps [simp del]

definition show_int :: "int \<Rightarrow> string" where
  "show_int i = (if i < 0 then CHR ''-'' # digits (nat (- i)) else digits (nat i))"

fun dumps :: "bool \<Rightarrow> json \<Rightarrow> string" where
  "dumps a JNull = ''null''"
| "dumps a (JBool b) = (if b then ''true'' else ''false'')"
| "dumps a (JInt i) = show_int i"
| "dumps a (JStr s) = str_lit a s"
| "dumps a (JList vs) = ''['' @ join '','' (map (dumps a) vs) @ '']''"
| "dumps a (JObj kvs) = ''{'' @ join '',''
     (map (\<lambda>(k, s). str_lit a k @ '':'' @ s)
       (sort_key fst (map (\<lambda>(k, v). (k, dumps a v)) kvs))) @ ''}''"

subsection \<open>Decoding\<close>

definition is_ws :: "char \<Rightarrow> bool" where
  "is_ws c \<longleftrightarrow> code c \<in> {9, 10, 13, 32}"

definition skip_ws :: "string \<Rightarrow> string" where
  "skip_ws s = dropWhile is_ws s"

definition unhex :: "char \<Rightarrow> nat option" where
  "unhex c = (let n = code c in
     if 48 \<le> n \<and> n \<le> 57 then Some (n - 48)
     else if 97 \<le> n \<and> n \<le> 102 then Some (n - 87)
     else if 65 \<le> n \<and> n \<le> 70 then Some (n - 55)
     else None)"

definition unhex4 :: "char \<Rightarrow> char \<Rightarrow> char \<Rightarrow> char \<Rightarrow> nat option" where
  "unhex4 a b c d =
     (case (unhex a, unhex b, unhex c, unhex d) of
        (Some w, Some x, Some y, Some z) \<Rightarrow> Some (((w * 16 + x) * 16 + y) * 16 + z)
      | _ \<Rightarrow> None)"

definition unescape :: "char \<Rightarrow> char option" where
  "unescape c = (let n = code c in
     if n = 34 \<or> n = 92 \<or> n = 47 then Some c
     else if n = 110 then Some (char_of (10::nat))
     else if n = 114 then Some (char_of (13::nat))
     else if n = 116 then Some (char_of (9::nat))
     else if n = 102 then Some (char_of (12::nat))
     else if n = 98 then Some (char_of (8::nat))
     else None)"

definition push :: "char \<Rightarrow> (string \<times> string) option \<Rightarrow> (string \<times> string) option" where
  "push c r = (case r of None \<Rightarrow> None | Some (s, rest) \<Rightarrow> Some (c # s, rest))"

text \<open>The characters of a string literal after its opening quote, and the rest.\<close>

fun p_str :: "string \<Rightarrow> (string \<times> string) option" where
  "p_str [] = None"
| "p_str (c # cs) =
     (if code c = 34 then Some ([], cs)
      else if code c = 92 then
        (case cs of
           [] \<Rightarrow> None
         | e # ds \<Rightarrow>
             if code e = 117 then
               (case ds of
                  h1 # h2 # h3 # h4 # es \<Rightarrow>
                    (case unhex4 h1 h2 h3 h4 of
                       None \<Rightarrow> None
                     | Some n \<Rightarrow> if n < 256 then push (char_of n) (p_str es) else None)
                | _ \<Rightarrow> None)
             else (case unescape e of None \<Rightarrow> None | Some x \<Rightarrow> push x (p_str ds)))
      else if code c < 32 then None
      else push c (p_str cs))"

definition is_digit :: "char \<Rightarrow> bool" where
  "is_digit c \<longleftrightarrow> 48 \<le> code c \<and> code c \<le> 57"

definition digit_val :: "string \<Rightarrow> nat" where
  "digit_val ds = foldl (\<lambda>n c. n * 10 + (code c - 48)) 0 ds"

definition p_nat :: "string \<Rightarrow> (nat \<times> string) option" where
  "p_nat s = (let ds = takeWhile is_digit s; rest = dropWhile is_digit s in
     if ds = [] then None
     else if hd ds = CHR ''0'' then Some (0, tl ds @ rest)
     else if rest \<noteq> [] \<and> code (hd rest) \<in> {46, 69, 101} then None
     else Some (digit_val ds, rest))"

definition p_num :: "string \<Rightarrow> (json \<times> string) option" where
  "p_num s =
     (case s of
        [] \<Rightarrow> None
      | c # cs \<Rightarrow>
          if c = CHR ''-'' then map_option (\<lambda>(n, r). (JInt (- int n), r)) (p_nat cs)
          else map_option (\<lambda>(n, r). (JInt (int n), r)) (p_nat s))"

text \<open>A Python dict built from pairs: a repeated key keeps its place and takes the last value.\<close>

fun dict_put :: "string \<Rightarrow> json \<Rightarrow> (string \<times> json) list \<Rightarrow> (string \<times> json) list" where
  "dict_put k v [] = [(k, v)]"
| "dict_put k v ((k', v') # kvs) =
     (if k' = k then (k, v) # kvs else (k', v') # dict_put k v kvs)"

definition dict_of :: "(string \<times> json) list \<Rightarrow> (string \<times> json) list" where
  "dict_of kvs = foldl (\<lambda>d (k, v). dict_put k v d) [] kvs"

definition keyword :: "string \<Rightarrow> json \<Rightarrow> string \<Rightarrow> (json \<times> string) option" where
  "keyword w j s = (if take (length w) s = w then Some (j, drop (length w) s) else None)"

fun p_value :: "nat \<Rightarrow> string \<Rightarrow> (json \<times> string) option"
  and p_elems :: "nat \<Rightarrow> string \<Rightarrow> (json list \<times> string) option"
  and p_members :: "nat \<Rightarrow> string \<Rightarrow> ((string \<times> json) list \<times> string) option" where
  "p_value 0 s = None"
| "p_value (Suc f) s =
     (case skip_ws s of
        [] \<Rightarrow> None
      | c # cs \<Rightarrow>
          if code c = 34 then map_option (\<lambda>(t, r). (JStr t, r)) (p_str cs)
          else if c = CHR ''['' then
            (case skip_ws cs of
               [] \<Rightarrow> None
             | d # ds \<Rightarrow>
                 if d = CHR '']'' then Some (JList [], ds)
                 else map_option (\<lambda>(vs, r). (JList vs, r)) (p_elems f cs))
          else if c = CHR ''{'' then
            (case skip_ws cs of
               [] \<Rightarrow> None
             | d # ds \<Rightarrow>
                 if d = CHR ''}'' then Some (JObj [], ds)
                 else map_option (\<lambda>(kvs, r). (JObj (dict_of kvs), r)) (p_members f cs))
          else if c = CHR ''n'' then keyword ''null'' JNull (c # cs)
          else if c = CHR ''t'' then keyword ''true'' (JBool True) (c # cs)
          else if c = CHR ''f'' then keyword ''false'' (JBool False) (c # cs)
          else p_num (c # cs))"
| "p_elems 0 s = None"
| "p_elems (Suc f) s =
     (case p_value f s of
        None \<Rightarrow> None
      | Some (v, r) \<Rightarrow>
          (case skip_ws r of
             [] \<Rightarrow> None
           | c # cs \<Rightarrow>
               if c = CHR '']'' then Some ([v], cs)
               else if c = CHR '','' then
                 map_option (\<lambda>(vs, r'). (v # vs, r')) (p_elems f cs)
               else None))"
| "p_members 0 s = None"
| "p_members (Suc f) s =
     (case skip_ws s of
        [] \<Rightarrow> None
      | q # qs \<Rightarrow>
          if code q \<noteq> 34 then None
          else (case p_str qs of
             None \<Rightarrow> None
           | Some (k, r) \<Rightarrow>
               (case skip_ws r of
                  [] \<Rightarrow> None
                | c # cs \<Rightarrow>
                    if c \<noteq> CHR '':'' then None
                    else (case p_value f cs of
                       None \<Rightarrow> None
                     | Some (v, r') \<Rightarrow>
                         (case skip_ws r' of
                            [] \<Rightarrow> None
                          | d # ds \<Rightarrow>
                              if d = CHR ''}'' then Some ([(k, v)], ds)
                              else if d = CHR '','' then
                                map_option (\<lambda>(kvs, r''). ((k, v) # kvs, r'')) (p_members f ds)
                              else None)))))"

definition loads :: "string \<Rightarrow> json option" where
  "loads s =
     (case p_value (Suc (length s)) s of
        None \<Rightarrow> None
      | Some (v, r) \<Rightarrow> if skip_ws r = [] then Some v else None)"

subsection \<open>Strings and numbers are read back\<close>

lemma code_char_of [simp]: "n < 256 \<Longrightarrow> code (char_of n) = n"
  by (simp add: code_def)

lemma char_of_code [simp]: "char_of (code c) = c"
  by (simp add: code_def)

lemma code_less [simp]: "code c < 256"
  by (simp add: code_def)

lemma code_eq_iff: "n < 256 \<Longrightarrow> code c = n \<longleftrightarrow> c = char_of n"
  by (metis char_of_code code_char_of)

lemma hex_digit_cases: "n < 16 \<Longrightarrow> unhex (hex_digit n) = Some n"
  by (auto simp: unhex_def hex_digit_def Let_def)

lemma code_lits [simp]: "code CHR 0x22 = 34" "code CHR 0x5C = 92" "code CHR ''n'' = 110"
  "code CHR ''r'' = 114" "code CHR ''t'' = 116" "code CHR ''f'' = 102" "code CHR ''b'' = 98"
  "code CHR ''u'' = 117" "code CHR ''0'' = 48"
  by (simp_all add: code_def)

lemma char_of_lits [simp]: "char_of (34::nat) = CHR 0x22" "char_of (92::nat) = CHR 0x5C"
  by (rule code_eq_iff [THEN iffD1, symmetric]; simp)+

lemma p_str_esc: "p_str (esc_char a c @ r) = push c (p_str r)"
proof -
  have c: "c = char_of (code c)" by simp
  consider "code c \<in> {34, 92, 10, 13, 9, 12, 8}"
    | "code c \<notin> {34, 92, 10, 13, 9, 12, 8}" "code c < 32 \<or> (a \<and> 126 < code c)"
    | "code c \<notin> {34, 92, 10, 13, 9, 12, 8}" "\<not> (code c < 32 \<or> (a \<and> 126 < code c))"
    by blast
  then show ?thesis
  proof cases
    case 1
    then show ?thesis
      by (elim insertE emptyE; subst c; simp add: esc_char_def unescape_def code_eq_iff)
  next
    case 2
    have "code c div 16 < 16" using code_less [of c] by (simp del: code_less)
    then have "unhex4 CHR ''0'' CHR ''0'' (hex_digit (code c div 16)) (hex_digit (code c mod 16)) = Some (code c)"
      by (simp add: unhex4_def hex_digit_cases) (simp add: unhex_def)
    with 2 show ?thesis by (auto simp: esc_char_def Let_def)
  next
    case 3
    then show ?thesis by (auto simp: esc_char_def Let_def)
  qed
qed

lemma p_str_body: "p_str (str_body a s @ CHR 0x22 # r) = Some (s, r)"
  by (induction s) (simp_all add: str_body_def p_str_esc push_def)

lemma digit_char: "d < 10 \<Longrightarrow> is_digit (char_of (48 + d)) \<and> code (char_of (48 + d)) = 48 + d"
  by (simp add: is_digit_def)

lemma digits_digit: "c \<in> set (digits n) \<Longrightarrow> is_digit c"
proof (induction n rule: digits.induct)
  case (1 n)
  then show ?case
    by (subst (asm) digits.simps) (auto split: if_splits simp: digit_char)
qed

lemma digits_nonempty [simp]: "digits n \<noteq> []"
  by (subst digits.simps) simp

lemma digit_val_snoc: "digit_val (ds @ [c]) = digit_val ds * 10 + (code c - 48)"
  by (simp add: digit_val_def)

lemma digit_val_digits [simp]: "digit_val (digits n) = n"
proof (induction n rule: digits.induct)
  case (1 n)
  show ?case
  proof (cases "n < 10")
    case True
    then show ?thesis by (subst digits.simps) (simp add: digit_val_def)
  next
    case False
    with 1 show ?thesis by (subst digits.simps) (simp add: digit_val_snoc)
  qed
qed

lemma digits_zero_head: "hd (digits n) = CHR ''0'' \<Longrightarrow> n = 0"
proof (induction n rule: digits.induct)
  case (1 n)
  show ?case
  proof (cases "n < 10")
    case True
    with "1.prems" have "code (char_of (48 + n)) = code CHR ''0''"
      by (subst (asm) digits.simps) simp
    with True show ?thesis by simp
  next
    case False
    with 1 show ?thesis by (subst (asm) (2) digits.simps) simp
  qed
qed

definition num_end :: "string \<Rightarrow> bool" where
  "num_end r \<longleftrightarrow> r = [] \<or> \<not> is_digit (hd r) \<and> code (hd r) \<notin> {46, 69, 101}"

lemma takeWhile_digits: "num_end r \<Longrightarrow> takeWhile is_digit (digits n @ r) = digits n"
  "num_end r \<Longrightarrow> dropWhile is_digit (digits n @ r) = r"
  by (cases r; auto simp: num_end_def takeWhile_append dropWhile_append dest: digits_digit)+

lemma p_nat_digits: "num_end r \<Longrightarrow> p_nat (digits n @ r) = Some (n, r)"
  using digits_zero_head [of n]
  by (auto simp: p_nat_def Let_def takeWhile_digits num_end_def digits.simps [of 0])

lemma digits_not_minus: "hd (digits n) \<noteq> CHR ''-''"
  using digits_digit [of "hd (digits n)" n] by (auto simp: is_digit_def code_def)

lemma p_num_int: "num_end r \<Longrightarrow> p_num (show_int i @ r) = Some (JInt i, r)"
  using digits_not_minus [of "nat i"]
  by (cases "digits (nat i)") (auto simp: p_num_def show_int_def p_nat_digits dest: p_nat_digits [of r "nat i"])

subsection \<open>The round trip\<close>

text \<open>Objects with distinct keys, as Python dicts have; keys in sorted order.\<close>

fun wf_json :: "json \<Rightarrow> bool" where
  "wf_json (JList vs) = list_all wf_json vs"
| "wf_json (JObj kvs) = (distinct (map fst kvs) \<and> list_all (\<lambda>(k, v). wf_json v) kvs)"
| "wf_json _ = True"

fun norm_json :: "json \<Rightarrow> json" where
  "norm_json (JList vs) = JList (map norm_json vs)"
| "norm_json (JObj kvs) = JObj (sort_key fst (map (\<lambda>(k, v). (k, norm_json v)) kvs))"
| "norm_json j = j"

text \<open>The recursion depth \<open>p_value\<close> spends on an encoded value.\<close>

fun need :: "json \<Rightarrow> nat" where
  "need (JList vs) = Suc (sum_list (map (\<lambda>v. Suc (need v)) vs))"
| "need (JObj kvs) = Suc (sum_list (map (\<lambda>(k, v). Suc (need v)) kvs))"
| "need _ = 1"

lemma insort_key_map_val:
  "insort_key fst (k, g v) (map (\<lambda>(k, v). (k, g v)) xs)
     = map (\<lambda>(k, v). (k, g v)) (insort_key fst (k, v) xs)"
  by (induction xs) auto

lemma sort_key_map_val:
  "sort_key fst (map (\<lambda>(k, v). (k, g v)) xs) = map (\<lambda>(k, v). (k, g v)) (sort_key fst xs)"
  by (induction xs) (auto simp: insort_key_map_val)

lemma skip_ws_id: "s \<noteq> [] \<Longrightarrow> \<not> is_ws (hd s) \<Longrightarrow> skip_ws s = s"
  by (cases s) (auto simp: skip_ws_def)

lemma skip_ws_Cons [simp]: "\<not> is_ws c \<Longrightarrow> skip_ws (c # s) = c # s"
  by (simp add: skip_ws_def)

lemma not_ws_lits [simp]: "\<not> is_ws CHR 0x22" "\<not> is_ws CHR '',''" "\<not> is_ws CHR '':''"
  "\<not> is_ws CHR ''[''" "\<not> is_ws CHR '']''" "\<not> is_ws CHR ''{''" "\<not> is_ws CHR ''}''"
  "\<not> is_ws CHR ''n''" "\<not> is_ws CHR ''t''" "\<not> is_ws CHR ''f''" "\<not> is_ws CHR ''-''"
  by (simp_all add: is_ws_def code_def)

lemma num_end_lits [simp]: "num_end (CHR '','' # r)" "num_end (CHR '']'' # r)" "num_end (CHR ''}'' # r)"
  "num_end []"
  by (simp_all add: num_end_def is_digit_def code_def)

lemma is_digit_not:
  "is_digit c \<Longrightarrow> \<not> is_ws c \<and> c \<notin> {CHR ''['', CHR '']'', CHR ''{'', CHR ''n'', CHR ''t'', CHR ''f'', CHR ''-''} \<and> code c \<noteq> 34"
  by (auto simp: is_digit_def is_ws_def code_def)

lemma hd_digits: "is_digit (hd (digits n))"
  by (rule digits_digit) (rule hd_in_set, simp)

lemma dumps_hd:
  "dumps a v \<noteq> [] \<and> \<not> is_ws (hd (dumps a v)) \<and> hd (dumps a v) \<noteq> CHR '']''"
  by (cases v) (use is_digit_not [OF hd_digits] in \<open>auto simp: str_lit_def show_int_def\<close>)

lemma p_value_int:
  assumes "num_end r"
  shows "p_value (Suc f) (show_int i @ r) = Some (JInt i, r)"
proof -
  obtain c cs where c: "show_int i @ r = c # cs" and
    h: "c = CHR ''-'' \<or> is_digit c"
    using hd_digits by (cases "show_int i @ r") (auto simp: show_int_def split: if_splits, metis append_Cons digits_nonempty hd_append2 list.sel(1))
  then have "p_num (c # cs) = Some (JInt i, r)" using p_num_int [OF assms] by metis
  with c h is_digit_not [of c] show ?thesis by (auto simp: code_def)
qed

definition reads_back :: "bool \<Rightarrow> json \<Rightarrow> bool" where
  "reads_back a v \<longleftrightarrow>
     (\<forall>f r. need v \<le> f \<longrightarrow> num_end r \<longrightarrow> p_value f (dumps a v @ r) = Some (norm_json v, r))"

lemma p_elems_dumps:
  assumes "vs \<noteq> []" and "list_all (reads_back a) vs"
    and "sum_list (map (\<lambda>v. Suc (need v)) vs) \<le> f"
  shows "p_elems f (join '','' (map (dumps a) vs) @ CHR '']'' # r) = Some (map norm_json vs, r)"
  using assms
proof (induction vs arbitrary: f rule: list_nonempty_induct)
  case (single v)
  then obtain f' where "f = Suc f'" "need v \<le> f'" by (cases f) auto
  with single show ?case by (auto simp: reads_back_def)
next
  case (cons v vs)
  then obtain f' where f: "f = Suc f'" "need v \<le> f'" "sum_list (map (\<lambda>v. Suc (need v)) vs) \<le> f'"
    by (cases f) auto
  with cons obtain w ws where "vs = w # ws" by (cases vs) auto
  with cons f show ?case by (auto simp: reads_back_def)
qed

abbreviation member_text :: "bool \<Rightarrow> string \<times> json \<Rightarrow> string" where
  "member_text a kv \<equiv> (case kv of (k, v) \<Rightarrow> str_lit a k @ '':'' @ dumps a v)"

lemma p_str_lit: "p_str (str_body a k @ CHR 0x22 # r) = Some (k, r)"
  by (rule p_str_body)

lemma p_members_one:
  assumes "reads_back a v" and "need v \<le> f"
  shows "p_members (Suc f) (member_text a (k, v) @ CHR ''}'' # r) = Some ([(k, norm_json v)], r)"
    and "p_members (Suc f) (member_text a (k, v) @ CHR '','' # r) =
           map_option (\<lambda>(kvs, r'). ((k, norm_json v) # kvs, r')) (p_members f r)"
  using assms by (auto simp: str_lit_def p_str_lit reads_back_def)

lemma p_members_dumps:
  assumes "kvs \<noteq> []" and "list_all (\<lambda>(k, v). reads_back a v) kvs"
    and "sum_list (map (\<lambda>(k, v). Suc (need v)) kvs) \<le> f"
  shows "p_members f (join '','' (map (member_text a) kvs) @ CHR ''}'' # r)
           = Some (map (\<lambda>(k, v). (k, norm_json v)) kvs, r)"
  using assms
proof (induction kvs arbitrary: f rule: list_nonempty_induct)
  case (single kv)
  then obtain k v f' where "kv = (k, v)" "f = Suc f'" "need v \<le> f'" by (cases f; cases kv) auto
  with single show ?case using p_members_one(1) [of a v f' k r] by auto
next
  case (cons kv kvs)
  obtain k v where kv: "kv = (k, v)" by (cases kv)
  with cons obtain f' where f: "f = Suc f'" "need v \<le> f'"
    "sum_list (map (\<lambda>(k, v). Suc (need v)) kvs) \<le> f'"
    by (cases f) auto
  from cons obtain w ws where w: "kvs = w # ws" by (cases kvs) auto
  let ?rest = "join '','' (map (member_text a) kvs) @ CHR ''}'' # r"
  have "join '','' (map (member_text a) (kv # kvs)) @ CHR ''}'' # r
          = member_text a (k, v) @ CHR '','' # ?rest"
    by (simp add: w kv split: prod.split)
  with cons f kv show ?case using p_members_one(2) [of a v f' k ?rest] by auto
qed

lemma dict_put_new: "k \<notin> fst ` set kvs \<Longrightarrow> dict_put k v kvs = kvs @ [(k, v)]"
  by (induction k v kvs rule: dict_put.induct) auto

lemma dict_of_distinct: "distinct (map fst kvs) \<Longrightarrow> dict_of kvs = kvs"
proof (induction kvs rule: rev_induct)
  case Nil
  then show ?case by (simp add: dict_of_def)
next
  case (snoc kv kvs)
  then show ?case by (cases kv) (simp add: dict_of_def dict_put_new)
qed

lemma sum_list_sort_key:
  "sum_list (map g (sort_key f xs)) = (sum_list (map g xs) :: nat)"
proof -
  have "mset (map g (sort_key f xs)) = mset (map g xs)" by simp
  then show ?thesis by (metis sum_mset_sum_list)
qed

lemma distinct_keys_sort: "distinct (map fst kvs) \<Longrightarrow> distinct (map fst (sort_key fst kvs))"
  by (metis mset_eq_imp_distinct_iff mset_map mset_sort)

lemma need_pos: "0 < need v"
  by (cases v) auto

lemma dumps_reads_back: "wf_json v \<Longrightarrow> reads_back a v"
proof (induction v)
  case JNull
  show ?case unfolding reads_back_def
    by (intro allI impI) (case_tac f; simp add: keyword_def code_def)
next
  case (JBool b)
  show ?case unfolding reads_back_def
    by (intro allI impI) (case_tac f; simp add: keyword_def code_def)
next
  case (JInt i)
  show ?case unfolding reads_back_def
    by (intro allI impI) (case_tac f; simp add: p_value_int del: p_value.simps)
next
  case (JStr s)
  show ?case unfolding reads_back_def
    by (intro allI impI) (case_tac f; simp add: str_lit_def p_str_lit)
next
  case (JList vs)
  then have rb: "list_all (reads_back a) vs" by (auto simp: list_all_iff)
  show ?case unfolding reads_back_def
  proof (intro allI impI)
    fix f r assume "need (JList vs) \<le> f"
    then obtain f' where f: "f = Suc f'" "sum_list (map (\<lambda>v. Suc (need v)) vs) \<le> f'"
      by (cases f) auto
    assume "num_end r"
    show "p_value f (dumps a (JList vs) @ r) = Some (norm_json (JList vs), r)"
    proof (cases vs)
      case Nil
      with f show ?thesis by (simp add: code_def)
    next
      case (Cons w ws)
      let ?t = "join '','' (map (dumps a) vs) @ CHR '']'' # r"
      obtain c cs where c: "?t = c # cs" "\<not> is_ws c" "c \<noteq> CHR '']''"
        using dumps_hd [of a w] Cons
        by (cases ws; cases "dumps a w") auto
      with p_elems_dumps [OF _ rb f(2), of r] Cons f show ?thesis
        by (auto simp: code_def)
    qed
  qed
next
  case (JObj kvs)
  let ?ps = "sort_key fst kvs"
  from JObj have rb: "list_all (\<lambda>(k, v). reads_back a v) ?ps"
    by (fastforce simp: list_all_iff)
  from JObj.prems have dist: "distinct (map fst (map (\<lambda>(k, v). (k, norm_json v)) ?ps))"
    using distinct_keys_sort [of kvs] by (simp add: comp_def case_prod_unfold)
  show ?case unfolding reads_back_def
  proof (intro allI impI)
    fix f r assume "need (JObj kvs) \<le> f"
    then obtain f' where f: "f = Suc f'" "sum_list (map (\<lambda>(k, v). Suc (need v)) ?ps) \<le> f'"
      by (cases f) (auto simp: sum_list_sort_key)
    assume "num_end r"
    have enc: "dumps a (JObj kvs) = ''{'' @ join '','' (map (member_text a) ?ps) @ ''}''"
      by (simp add: sort_key_map_val) (simp add: comp_def case_prod_unfold)
    show "p_value f (dumps a (JObj kvs) @ r) = Some (norm_json (JObj kvs), r)"
    proof (cases ?ps)
      case Nil
      then have "kvs = []" by (metis length_0_conv length_sort)
      with f show ?thesis by (simp add: code_def)
    next
      case (Cons w ws)
      let ?t = "join '','' (map (member_text a) ?ps) @ CHR ''}'' # r"
      obtain cs where c: "?t = CHR 0x22 # cs"
        using Cons by (cases ws; cases w) (auto simp: str_lit_def)
      with p_members_dumps [OF _ rb f(2), of r] Cons f dist show ?thesis
        by (auto simp: code_def enc dict_of_distinct sort_key_map_val
            simp del: dumps.simps)
    qed
  qed
qed


lemma sum_need_join:
  "list_all (\<lambda>x. n x \<le> length (t x)) xs
     \<Longrightarrow> sum_list (map (\<lambda>x. Suc (n x)) xs) \<le> Suc (length (join '','' (map t xs)))"
  by (induction xs rule: induct_list012) auto

lemma need_le: "need v \<le> length (dumps a v)"
proof (induction v)
  case (JInt i)
  show ?case by (cases "show_int i") (auto simp: show_int_def split: if_splits)
next
  case (JList vs)
  then have "list_all (\<lambda>v. need v \<le> length (dumps a v)) vs" by (simp add: list_all_iff)
  from sum_need_join [OF this] show ?case by simp
next
  case (JObj kvs)
  let ?ps = "sort_key fst kvs"
  have "list_all (\<lambda>kv. need (snd kv) \<le> length (member_text a kv)) ?ps"
    using JObj by (fastforce simp: list_all_iff snds.simps split: prod.split)
  from sum_need_join [OF this]
  have "sum_list (map (\<lambda>(k, v). Suc (need v)) ?ps)
          \<le> Suc (length (join '','' (map (member_text a) ?ps)))"
    by (simp add: case_prod_unfold)
  then show ?case
    by (simp add: sort_key_map_val sum_list_sort_key) (simp add: comp_def case_prod_unfold)
qed (simp_all add: str_lit_def)

theorem loads_dumps: "wf_json v \<Longrightarrow> loads (dumps a v) = Some (norm_json v)"
proof -
  assume "wf_json v"
  then have "p_value (Suc (length (dumps a v))) (dumps a v @ []) = Some (norm_json v, [])"
    using dumps_reads_back [of v a] need_le [of v a] unfolding reads_back_def
    by (meson le_SucI num_end_lits(4))
  then show ?thesis by (simp add: loads_def skip_ws_def del: p_value.simps)
qed

theorem dumps_inj:
  "wf_json v \<Longrightarrow> wf_json w \<Longrightarrow> dumps a v = dumps a w \<Longrightarrow> norm_json v = norm_json w"
  by (metis loads_dumps option.inject)

text \<open>The normal form is reached at once, and has the same text.\<close>

lemma sort_key_idem [simp]: "sort_key f (sort_key f xs) = sort_key f xs"
  by (rule sort_key_id_if_sorted) simp

lemma norm_json_idem [simp]: "norm_json (norm_json v) = norm_json v"
proof (induction v rule: norm_json.induct)
  case (2 kvs)
  have "map (\<lambda>(k, v). (k, norm_json v)) (map (\<lambda>(k, v). (k, norm_json v)) kvs) = map (\<lambda>(k, v). (k, norm_json v)) kvs"
    using 2 by auto
  then show ?case
    by (simp add: sort_key_map_val [of norm_json, symmetric] del: map_map)
qed (simp_all)

lemma dumps_norm [simp]: "dumps a (norm_json v) = dumps a v"
proof (induction a v rule: dumps.induct)
  case (6 a kvs)
  have "map (\<lambda>(k, v). (k, dumps a v)) (map (\<lambda>(k, v). (k, norm_json v)) kvs) = map (\<lambda>(k, v). (k, dumps a v)) kvs"
    using 6 by auto
  then show ?case
    by (simp add: sort_key_map_val [of "dumps a", symmetric] del: map_map)
next
  case (5 a vs)
  have "map (dumps a \<circ> norm_json) vs = map (dumps a) vs" using 5 by simp
  then show ?case by (simp only: norm_json.simps dumps.simps map_map)
qed simp_all

text \<open>Objects with the same normal form agree key by key.\<close>

lemma norm_obj_lookup:
  assumes "norm_json (JObj kvs) = norm_json (JObj kvs')"
    and "distinct (map fst kvs)" and "distinct (map fst kvs')"
  shows "map_option norm_json (map_of kvs k) = map_option norm_json (map_of kvs' k)"
proof -
  let ?n = "map (\<lambda>(k, v). (k, norm_json v))"
  from assms(1) have "sort_key fst (?n kvs) = sort_key fst (?n kvs')" by simp
  then have "mset (sort_key fst (?n kvs)) = mset (sort_key fst (?n kvs'))" by (rule arg_cong)
  then have "mset (?n kvs) = mset (?n kvs')" by (simp only: mset_sort)
  then have "set (?n kvs) = set (?n kvs')" by (rule mset_eq_setD)
  moreover have "distinct (map fst (?n kvs))" "distinct (map fst (?n kvs'))"
    using assms(2,3) by (simp_all add: comp_def case_prod_unfold)
  ultimately have "map_of (?n kvs) = map_of (?n kvs')" by (simp only: map_of_inject_set)
  then have "map_of (?n kvs) k = map_of (?n kvs') k" by simp
  then show ?thesis by (simp add: map_of_map)
qed

subsection \<open>UTF-8\<close>

text \<open>\<open>str.encode("utf-8")\<close> and its inverse, on code points below 256; bytes are chars.\<close>

definition utf8_char :: "char \<Rightarrow> string" where
  "utf8_char c = (let n = code c in
     if n < 128 then [c] else [char_of (192 + n div 64), char_of (128 + n mod 64)])"

definition utf8_encode :: "string \<Rightarrow> string" where
  "utf8_encode s = concat (map utf8_char s)"

fun utf8_decode :: "string \<Rightarrow> string option" where
  "utf8_decode [] = Some []"
| "utf8_decode (c # cs) =
     (if code c < 128 then map_option ((#) c) (utf8_decode cs)
      else if code c = 194 \<or> code c = 195 then
        (case cs of
           [] \<Rightarrow> None
         | d # ds \<Rightarrow>
             if 128 \<le> code d \<and> code d < 192
             then map_option ((#) (char_of ((code c - 192) * 64 + (code d - 128)))) (utf8_decode ds)
             else None)
      else None)"

lemma utf8_decode_char: "utf8_decode (utf8_char c @ r) = map_option ((#) c) (utf8_decode r)"
proof (cases "code c < 128")
  case True
  then show ?thesis by (simp add: utf8_char_def)
next
  case False
  have "2 \<le> code c div 64" using False by (simp add: less_eq_div_iff_mult_less_eq)
  moreover have "code c div 64 < 4" by (rule less_mult_imp_div_less) simp
  ultimately have "code c div 64 = 2 \<or> code c div 64 = 3" by linarith
  then have q: "192 + code c div 64 < 256" "192 + code c div 64 = 194 \<or> 192 + code c div 64 = 195"
    by auto
  have m: "128 + code c mod 64 < 192" by (simp add: add.commute)
  have "(192 + code c div 64 - 192) * 64 + (128 + code c mod 64 - 128) = code c"
    by simp
  with False q m show ?thesis
    by (simp add: utf8_char_def Let_def)
qed

lemma utf8_roundtrip: "utf8_decode (utf8_encode s) = Some s"
  by (induction s) (simp_all add: utf8_encode_def utf8_decode_char)

lemma utf8_encode_inj: "utf8_encode s = utf8_encode t \<Longrightarrow> s = t"
  by (metis utf8_roundtrip option.inject)

text \<open>\<open>json.dumps(value, sort_keys=True, separators=(",", ":"), ensure_ascii=False).encode("utf-8")\<close>.\<close>

definition canonical :: "json \<Rightarrow> string" where
  "canonical v = utf8_encode (dumps False v)"

lemma canonical_inj:
  "wf_json v \<Longrightarrow> wf_json w \<Longrightarrow> canonical v = canonical w \<Longrightarrow> norm_json v = norm_json w"
  unfolding canonical_def by (blast dest: utf8_encode_inj dumps_inj)

end
