(* ===== verification/Authority.thy ===== *)
theory Authority
  imports Json
begin

text \<open>
  \<open>n0te/authority.py\<close>: action intents, their fingerprint, and approvals bound to one exact
  fingerprint. The SHA-256 hex digest is the argument \<open>sha\<close> of the definitions; the fresh
  UUID of an approval is an argument of \<open>bind_approval\<close>.
\<close>

subsection \<open>Field normalisation\<close>

datatype action_class = READ_ONLY | REVERSIBLE | COMPENSATABLE | IRREVERSIBLE

definition ACTION_CLASSES :: "(string \<times> action_class) list" where
  "ACTION_CLASSES =
     [(''READ_ONLY'', READ_ONLY), (''REVERSIBLE'', REVERSIBLE),
      (''COMPENSATABLE'', COMPENSATABLE), (''IRREVERSIBLE'', IRREVERSIBLE)]"

fun action_class_name :: "action_class \<Rightarrow> string" where
  "action_class_name READ_ONLY = ''READ_ONLY''"
| "action_class_name REVERSIBLE = ''REVERSIBLE''"
| "action_class_name COMPENSATABLE = ''COMPENSATABLE''"
| "action_class_name IRREVERSIBLE = ''IRREVERSIBLE''"

definition auth_text :: "string \<Rightarrow> string \<Rightarrow> string res" where
  "auth_text value field = require_text AuthorityValidationError value field"

definition auth_optional_text :: "string option \<Rightarrow> string \<Rightarrow> string option res" where
  "auth_optional_text value field = optional_text AuthorityValidationError value field"

fun collect_categories :: "string list \<Rightarrow> string list \<Rightarrow> string list res" where
  "collect_categories result [] = Inr result"
| "collect_categories result (v # vs) =
     bindE (auth_text v ''data_categories'') (\<lambda>t.
       collect_categories (if t \<in> set result then result else result @ [t]) vs)"

definition categories :: "string list option \<Rightarrow> string list res" where
  "categories values =
     (case values of
        None \<Rightarrow> Inr []
      | Some vs \<Rightarrow> bindE (collect_categories [] vs) (\<lambda>result. Inr (sort result)))"

subsection \<open>ActionIntent\<close>

record action_intent =
  ai_action_id :: string
  ai_job_id :: string
  ai_action_class :: action_class
  ai_description :: string
  ai_target_ref :: string
  ai_revision_fingerprint :: string
  ai_payload_fingerprint :: string
  ai_destination :: "string option"
  ai_purpose :: "string option"
  ai_data_categories :: "string list"

definition make_action_intent ::
  "string \<Rightarrow> string \<Rightarrow> string \<Rightarrow> string \<Rightarrow> string \<Rightarrow> string \<Rightarrow> string
     \<Rightarrow> string option \<Rightarrow> string option \<Rightarrow> string list option \<Rightarrow> action_intent res" where
  "make_action_intent aid job cls desc target revn payload dest purp cats =
     bindE (auth_text aid ''action.action_id'') (\<lambda>aid.
     bindE (auth_text job ''action.job_id'') (\<lambda>job.
     bindE (case parse_enum ACTION_CLASSES cls of
              None \<Rightarrow> Inl (Raise AuthorityValidationError
                        (''unsupported action class: '' @ norm_enum cls))
            | Some c \<Rightarrow> Inr c) (\<lambda>c.
     bindE (auth_text desc ''action.description'') (\<lambda>desc.
     bindE (auth_text target ''action.target_ref'') (\<lambda>target.
     bindE (auth_text revn ''action.revision_fingerprint'') (\<lambda>revn.
     bindE (auth_text payload ''action.payload_fingerprint'') (\<lambda>payload.
     bindE (auth_optional_text dest ''action.destination'') (\<lambda>dest.
     bindE (auth_optional_text purp ''action.purpose'') (\<lambda>purp.
     bindE (guardE (\<not> (dest \<noteq> None \<and> purp = None))
              (Raise AuthorityValidationError
                 ''outbound action destination requires an explicit purpose'')) (\<lambda>_.
     bindE (categories cats) (\<lambda>cats.
       Inr \<lparr>ai_action_id = aid, ai_job_id = job, ai_action_class = c, ai_description = desc,
             ai_target_ref = target, ai_revision_fingerprint = revn,
             ai_payload_fingerprint = payload, ai_destination = dest, ai_purpose = purp,
             ai_data_categories = cats\<rparr>)))))))))))"

definition opt_str :: "string option \<Rightarrow> json" where
  "opt_str v = (case v of None \<Rightarrow> JNull | Some s \<Rightarrow> JStr s)"

definition material_fields :: "action_intent \<Rightarrow> json" where
  "material_fields i = JObj
     [(''action_id'', JStr (ai_action_id i)),
      (''job_id'', JStr (ai_job_id i)),
      (''action_class'', JStr (action_class_name (ai_action_class i))),
      (''description'', JStr (ai_description i)),
      (''target_ref'', JStr (ai_target_ref i)),
      (''revision_fingerprint'', JStr (ai_revision_fingerprint i)),
      (''payload_fingerprint'', JStr (ai_payload_fingerprint i)),
      (''destination'', opt_str (ai_destination i)),
      (''purpose'', opt_str (ai_purpose i)),
      (''data_categories'', JList (map JStr (ai_data_categories i)))]"

definition intent_fingerprint :: "(string \<Rightarrow> string) \<Rightarrow> action_intent \<Rightarrow> string" where
  "intent_fingerprint sha i = sha (canonical (material_fields i))"

subsection \<open>Previews, approvals and their validation\<close>

record action_preview =
  ap_intent :: action_intent
  ap_intent_fingerprint :: string

record approval_binding =
  ab_approval_id :: string
  ab_intent_fingerprint :: string
  ab_source_ref :: string

definition make_approval_binding :: "string \<Rightarrow> string \<Rightarrow> string \<Rightarrow> approval_binding res" where
  "make_approval_binding aid fp src =
     bindE (auth_text aid ''approval.approval_id'') (\<lambda>aid.
     bindE (auth_text fp ''approval.intent_fingerprint'') (\<lambda>fp.
     bindE (auth_text src ''approval.source_ref'') (\<lambda>src.
       Inr \<lparr>ab_approval_id = aid, ab_intent_fingerprint = fp, ab_source_ref = src\<rparr>)))"

datatype approval_status = VALID | STALE_APPROVAL

record approval_validation =
  av_status :: approval_status
  av_approval_id :: string
  av_bound :: string
  av_current :: string

definition preview :: "(string \<Rightarrow> string) \<Rightarrow> action_intent \<Rightarrow> action_preview" where
  "preview sha i = \<lparr>ap_intent = i, ap_intent_fingerprint = intent_fingerprint sha i\<rparr>"

definition bind_approval ::
  "(string \<Rightarrow> string) \<Rightarrow> string \<Rightarrow> action_intent \<Rightarrow> string \<Rightarrow> approval_binding res" where
  "bind_approval sha uuid i src =
     bindE (auth_text src ''approval.source_ref'') (\<lambda>src.
       make_approval_binding (''approval_'' @ uuid) (intent_fingerprint sha i) src)"

definition validate_approval ::
  "(string \<Rightarrow> string) \<Rightarrow> action_intent \<Rightarrow> approval_binding \<Rightarrow> approval_validation" where
  "validate_approval sha i a =
     (let current = intent_fingerprint sha i in
      \<lparr>av_status = (if current = ab_intent_fingerprint a then VALID else STALE_APPROVAL),
       av_approval_id = ab_approval_id a,
       av_bound = ab_intent_fingerprint a,
       av_current = current\<rparr>)"

subsection \<open>The digest\<close>

text \<open>
  What is used of \<open>hashlib.sha256(...).hexdigest()\<close>: it is a text without surrounding space,
  and, on the texts a statement names, it does not collide.
\<close>

definition sha_text :: "(string \<Rightarrow> string) \<Rightarrow> bool" where
  "sha_text sha \<longleftrightarrow> (\<forall>x. trimmed (sha x))"

definition collision_free :: "(string \<Rightarrow> string) \<Rightarrow> string list \<Rightarrow> bool" where
  "collision_free sha texts \<longleftrightarrow>
     list_all (\<lambda>x. list_all (\<lambda>y. sha x = sha y \<longrightarrow> x = y) texts) texts"

lemma collision_freeD:
  "collision_free sha texts \<Longrightarrow> x \<in> set texts \<Longrightarrow> y \<in> set texts \<Longrightarrow> sha x = sha y \<Longrightarrow> x = y"
  by (simp add: collision_free_def list_all_iff)

subsection \<open>What construction guarantees\<close>

definition intent_ok :: "action_intent \<Rightarrow> bool" where
  "intent_ok i \<longleftrightarrow>
     list_all trimmed [ai_action_id i, ai_job_id i, ai_description i, ai_target_ref i,
                       ai_revision_fingerprint i, ai_payload_fingerprint i]
     \<and> pred_option trimmed (ai_destination i) \<and> pred_option trimmed (ai_purpose i)
     \<and> (ai_destination i \<noteq> None \<longrightarrow> ai_purpose i \<noteq> None)
     \<and> sorted (ai_data_categories i) \<and> distinct (ai_data_categories i)
     \<and> list_all trimmed (ai_data_categories i)"

lemma auth_text_Inr:
  "auth_text v f = Inr t \<longleftrightarrow> t = strip v \<and> trimmed (strip v)"
  by (auto simp: auth_text_def require_text_eq_Inr strip_nonempty_trimmed trimmed_nonempty)

lemma collect_categories_props:
  "collect_categories acc vs = Inr out \<Longrightarrow> distinct acc \<Longrightarrow> list_all trimmed acc
     \<Longrightarrow> distinct out \<and> list_all trimmed out \<and> set out = set acc \<union> strip ` set vs"
proof (induction vs arbitrary: acc)
  case Nil
  then show ?case by simp
next
  case (Cons v vs)
  let ?acc = "if strip v \<in> set acc then acc else acc @ [strip v]"
  from Cons.prems(1) have tr: "trimmed (strip v)" and run: "collect_categories ?acc vs = Inr out"
    by (auto elim!: bindE_InrE simp: auth_text_Inr)
  have "distinct ?acc" "list_all trimmed ?acc" using Cons.prems tr by auto
  from Cons.IH [OF run this] show ?case by auto
qed

lemma categories_props:
  assumes "categories vs = Inr out"
  shows "sorted out \<and> distinct out \<and> list_all trimmed out
       \<and> set out = (case vs of None \<Rightarrow> {} | Some xs \<Rightarrow> strip ` set xs)"
proof (cases vs)
  case None
  with assms show ?thesis by (simp add: categories_def)
next
  case (Some xs)
  with assms obtain ys where ys: "collect_categories [] xs = Inr ys" "out = sort ys"
    by (auto simp: categories_def elim!: bindE_InrE)
  from collect_categories_props [OF ys(1)] ys(2) Some show ?thesis by (simp add: list_all_iff)
qed

lemma collect_categories_id:
  "list_all trimmed vs \<Longrightarrow> distinct (acc @ vs) \<Longrightarrow> collect_categories acc vs = Inr (acc @ vs)"
  by (induction vs arbitrary: acc) (auto simp: auth_text_def)

lemma categories_id:
  "list_all trimmed vs \<Longrightarrow> distinct vs \<Longrightarrow> sorted vs \<Longrightarrow> categories (Some vs) = Inr vs"
  by (simp add: categories_def collect_categories_id sorted_sort_id)

lemma wf_material_fields [simp]: "wf_json (material_fields i)"
  by (simp add: material_fields_def opt_str_def list_all_iff split: option.split)

lemma action_class_name_inj: "action_class_name a = action_class_name b \<Longrightarrow> a = b"
  by (cases a; cases b) simp_all

lemma opt_str_norm [simp]: "norm_json (opt_str v) = opt_str v"
  by (simp add: opt_str_def split: option.split)

lemma opt_str_inj [simp]: "opt_str v = opt_str w \<longleftrightarrow> v = w"
  by (auto simp: opt_str_def split: option.splits)

lemma map_JStr_inj [simp]: "map JStr xs = map JStr ys \<longleftrightarrow> xs = ys"
  by (simp add: inj_def inj_map_eq_map)

lemma norm_material_fields:
  assumes "norm_json (material_fields i) = norm_json (material_fields j)"
  shows "i = j"
proof -
  note look = norm_obj_lookup [OF assms [unfolded material_fields_def]]
  from look [of "''action_id''"] look [of "''job_id''"] look [of "''action_class''"]
    look [of "''description''"] look [of "''target_ref''"] look [of "''revision_fingerprint''"]
    look [of "''payload_fingerprint''"] look [of "''destination''"] look [of "''purpose''"]
    look [of "''data_categories''"]
  show "i = j" by (simp add: action_class_name_inj comp_def)
qed

text \<open>Two intents with the same fingerprint are equal unless \<open>sha\<close> collides on their encodings.\<close>

lemma intent_fingerprint_inj:
  assumes "intent_fingerprint sha i = intent_fingerprint sha j"
    and "sha (canonical (material_fields i)) = sha (canonical (material_fields j))
           \<Longrightarrow> canonical (material_fields i) = canonical (material_fields j)"
  shows "i = j"
proof -
  from assms have "canonical (material_fields i) = canonical (material_fields j)"
    unfolding intent_fingerprint_def by blast
  then have "norm_json (material_fields i) = norm_json (material_fields j)"
    by (rule canonical_inj [OF wf_material_fields wf_material_fields])
  then show ?thesis by (rule norm_material_fields)
qed

lemma make_action_intent_ok:
  "make_action_intent aid job cls desc target revn payload dest purp cats = Inr i \<Longrightarrow> intent_ok i"
  unfolding make_action_intent_def auth_text_def auth_optional_text_def
  apply (elim bindE_InrE)
  apply (drule categories_props)
  apply (drule optional_text_trimmed)+
  apply (drule require_text_trimmed)+
  apply (auto simp: guardE_eq_Inr intent_ok_def)
  done

lemma parse_action_class_name [simp]:
  "parse_enum ACTION_CLASSES (action_class_name c) = Some c"
  by (cases c) (simp_all add: enum_eval ACTION_CLASSES_def)

lemma make_action_intent_id:
  "intent_ok i \<Longrightarrow>
     make_action_intent (ai_action_id i) (ai_job_id i) (action_class_name (ai_action_class i))
       (ai_description i) (ai_target_ref i) (ai_revision_fingerprint i)
       (ai_payload_fingerprint i) (ai_destination i) (ai_purpose i)
       (Some (ai_data_categories i)) = Inr i"
  by (auto simp: make_action_intent_def auth_text_def auth_optional_text_def intent_ok_def categories_id)

lemma validate_approval_status:
  "av_status (validate_approval sha i a) = VALID
     \<longleftrightarrow> intent_fingerprint sha i = ab_intent_fingerprint a"
  by (simp add: validate_approval_def Let_def)

lemma bind_approval_fingerprint:
  "bind_approval sha uuid i src = Inr a \<Longrightarrow> sha_text sha
     \<Longrightarrow> ab_intent_fingerprint a = intent_fingerprint sha i"
  by (auto simp: bind_approval_def make_approval_binding_def auth_text_Inr sha_text_def
      intent_fingerprint_def strip_trimmed elim!: bindE_InrE)

lemma intent_fingerprint_eq_iff:
  assumes "collision_free sha xs" and "canonical (material_fields i) \<in> set xs"
    and "canonical (material_fields j) \<in> set xs"
  shows "intent_fingerprint sha i = intent_fingerprint sha j \<longleftrightarrow> i = j"
proof
  assume eq: "intent_fingerprint sha i = intent_fingerprint sha j"
  show "i = j" by (rule intent_fingerprint_inj [OF eq]) (rule collision_freeD [OF assms])
qed simp

subsection \<open>Properties\<close>

text \<open>
  C37. An approval is bound to exactly one action: an approval bound to the intent \<open>i\<close> validates
  against the intent \<open>j\<close> precisely when \<open>j\<close> agrees with \<open>i\<close> in every material field (unless
  the digest collides on the two encodings).
\<close>

theorem approval_binds_one_intent:
  assumes "sha_text sha" and "bind_approval sha uuid i src = Inr a"
    and "collision_free sha [canonical (material_fields i), canonical (material_fields j)]"
  shows "av_status (validate_approval sha j a) = VALID \<longleftrightarrow> j = i"
proof -
  have "intent_fingerprint sha j = intent_fingerprint sha i \<longleftrightarrow> j = i"
    by (rule intent_fingerprint_eq_iff [OF assms(3)]) simp_all
  then show ?thesis
    by (simp add: validate_approval_status bind_approval_fingerprint [OF assms(2,1)])
qed

definition demo_intent :: action_intent where
  "demo_intent = \<lparr>ai_action_id = ''a1'', ai_job_id = ''j'', ai_action_class = IRREVERSIBLE,
     ai_description = ''d'', ai_target_ref = ''t'', ai_revision_fingerprint = ''r'',
     ai_payload_fingerprint = ''p'', ai_destination = Some ''x'', ai_purpose = Some ''y'',
     ai_data_categories = [''audio'']\<rparr>"

text \<open>A digest that keeps its argument and ends in a visible character.\<close>

definition demo_sha :: "string \<Rightarrow> string" where
  "demo_sha s = CHR ''h'' # s @ ''h''"

lemma demo_sha_text: "sha_text demo_sha"
  by (simp add: sha_text_def demo_sha_def trimmed_def is_space_def code_def)

lemma demo_sha_free: "collision_free demo_sha xs"
  by (simp add: collision_free_def demo_sha_def list_all_iff)

lemma demo_bind:
  "\<exists>a. bind_approval demo_sha ''u'' demo_intent ''artist'' = Inr a"
proof -
  have "\<not> isl (bind_approval demo_sha ''u'' demo_intent ''artist'')" by code_simp
  then show ?thesis by (cases "bind_approval demo_sha ''u'' demo_intent ''artist''") auto
qed

theorem approval_binds_one_intent_witness:
  "\<exists>a. bind_approval demo_sha ''u'' demo_intent ''artist'' = Inr a
     \<and> av_status (validate_approval demo_sha demo_intent a) = VALID
     \<and> av_status (validate_approval demo_sha (demo_intent\<lparr>ai_target_ref := ''other''\<rparr>) a) \<noteq> VALID"
proof -
  obtain a where a: "bind_approval demo_sha ''u'' demo_intent ''artist'' = Inr a" using demo_bind ..
  note use = approval_binds_one_intent [OF demo_sha_text a demo_sha_free]
  have "demo_intent\<lparr>ai_target_ref := ''other''\<rparr> \<noteq> demo_intent" by (simp add: demo_intent_def)
  with a use show ?thesis by auto
qed

text \<open>
  Normalisation is stable: what the constructor of \<open>ActionIntent\<close> accepts has trimmed,
  non-empty texts, sorted categories without repetition and a purpose whenever it has a
  destination; and rebuilding an intent from its own fields gives it back unchanged.
\<close>

theorem action_intent_normal_form:
  assumes "make_action_intent aid job cls desc target revn payload dest purp cats = Inr i"
  shows "intent_ok i
    \<and> make_action_intent (ai_action_id i) (ai_job_id i) (action_class_name (ai_action_class i))
       (ai_description i) (ai_target_ref i) (ai_revision_fingerprint i)
       (ai_payload_fingerprint i) (ai_destination i) (ai_purpose i)
       (Some (ai_data_categories i)) = Inr i"
  using make_action_intent_ok [OF assms] make_action_intent_id by blast

theorem action_intent_normal_form_witness:
  "\<exists>i. make_action_intent '' a1'' ''j'' ''irreversible'' ''d'' ''t'' ''r'' ''p'' (Some '' x '')
       (Some ''y'') (Some [''b'', ''a'', ''b '']) = Inr i \<and> intent_ok i"
proof -
  have "\<not> isl (make_action_intent '' a1'' ''j'' ''irreversible'' ''d'' ''t'' ''r'' ''p'' (Some '' x '')
       (Some ''y'') (Some [''b'', ''a'', ''b '']))" by code_simp
  then obtain i where "make_action_intent '' a1'' ''j'' ''irreversible'' ''d'' ''t'' ''r'' ''p'' (Some '' x '')
       (Some ''y'') (Some [''b'', ''a'', ''b '']) = Inr i" unfolding isl_def by (metis sum.exhaust)
  then show ?thesis using action_intent_normal_form by blast
qed

end
