(* ===== verification/Egress.thy ===== *)
theory Egress
  imports Authority
begin

text \<open>
  \<open>n0te/egress.py\<close>: the inspectable package of material that would leave the machine, the
  action intent it stands for, and its confirmation through \<open>Authority\<close>. The package's
  fingerprints are SHA-256 digests of canonical JSON; the digest is the argument \<open>sha\<close>.
\<close>

subsection \<open>Material and envelopes\<close>

definition egress_text :: "string \<Rightarrow> string \<Rightarrow> string res" where
  "egress_text value field = require_text OutboundValidationError value field"

definition egress_optional_text :: "string option \<Rightarrow> string \<Rightarrow> string option res" where
  "egress_optional_text value field = optional_text OutboundValidationError value field"

definition sha256_json :: "(string \<Rightarrow> string) \<Rightarrow> json \<Rightarrow> string" where
  "sha256_json sha value = sha (canonical value)"

record outbound_material =
  om_item_id :: string
  om_category :: string
  om_source_ref :: string
  om_revision_fingerprint :: string
  om_private :: bool
  om_rights_ref :: "string option"
  om_consent_ref :: "string option"

definition make_outbound_material ::
  "string \<Rightarrow> string \<Rightarrow> string \<Rightarrow> string \<Rightarrow> bool \<Rightarrow> string option \<Rightarrow> string option
     \<Rightarrow> outbound_material res" where
  "make_outbound_material item cat src fp priv rights consent =
     bindE (egress_text item ''material.item_id'') (\<lambda>item.
     bindE (egress_text cat ''material.category'') (\<lambda>cat.
     bindE (egress_text src ''material.source_ref'') (\<lambda>src.
     bindE (egress_text fp ''material.revision_fingerprint'') (\<lambda>fp.
     bindE (egress_optional_text rights ''material.rights_ref'') (\<lambda>rights.
     bindE (egress_optional_text consent ''material.consent_ref'') (\<lambda>consent.
       Inr \<lparr>om_item_id = item, om_category = cat, om_source_ref = src,
             om_revision_fingerprint = fp, om_private = priv, om_rights_ref = rights,
             om_consent_ref = consent\<rparr>))))))"

definition outbound_material_fields :: "outbound_material \<Rightarrow> json" where
  "outbound_material_fields m = JObj
     [(''item_id'', JStr (om_item_id m)),
      (''category'', JStr (om_category m)),
      (''source_ref'', JStr (om_source_ref m)),
      (''revision_fingerprint'', JStr (om_revision_fingerprint m)),
      (''private'', JBool (om_private m)),
      (''rights_ref'', opt_str (om_rights_ref m)),
      (''consent_ref'', opt_str (om_consent_ref m))]"

record outbound_envelope =
  oe_request_id :: string
  oe_job_id :: string
  oe_description :: string
  oe_destination :: string
  oe_purpose :: string
  oe_materials :: "outbound_material list"
  oe_retention_statement :: string
  oe_cost_statement :: string

definition make_outbound_envelope ::
  "string \<Rightarrow> string \<Rightarrow> string \<Rightarrow> string \<Rightarrow> string \<Rightarrow> outbound_material list \<Rightarrow> string \<Rightarrow> string
     \<Rightarrow> outbound_envelope res" where
  "make_outbound_envelope req job desc dest purp materials ret cost =
     bindE (egress_text req ''envelope.request_id'') (\<lambda>req.
     bindE (egress_text job ''envelope.job_id'') (\<lambda>job.
     bindE (egress_text desc ''envelope.description'') (\<lambda>desc.
     bindE (egress_text dest ''envelope.destination'') (\<lambda>dest.
     bindE (egress_text purp ''envelope.purpose'') (\<lambda>purp.
     bindE (egress_text ret ''envelope.retention_statement'') (\<lambda>ret.
     bindE (egress_text cost ''envelope.cost_statement'') (\<lambda>cost.
     bindE (guardE (materials \<noteq> [])
       (Raise OutboundValidationError ''envelope.materials must not be empty'')) (\<lambda>_.
     bindE (guardE (distinct (map om_item_id materials))
       (Raise OutboundValidationError ''material item_id values must be unique'')) (\<lambda>_.
       Inr \<lparr>oe_request_id = req, oe_job_id = job, oe_description = desc,
             oe_destination = dest, oe_purpose = purp,
             oe_materials = sort_key om_item_id materials,
             oe_retention_statement = ret, oe_cost_statement = cost\<rparr>)))))))))"

definition private_material_ids :: "outbound_envelope \<Rightarrow> string list" where
  "private_material_ids e = map om_item_id (filter om_private (oe_materials e))"

definition data_categories :: "outbound_envelope \<Rightarrow> string list" where
  "data_categories e = sorted_unique (map om_category (oe_materials e))"

definition material_revision_fingerprint :: "(string \<Rightarrow> string) \<Rightarrow> outbound_envelope \<Rightarrow> string" where
  "material_revision_fingerprint sha e = sha256_json sha (JList (map (\<lambda>m. JObj
     [(''item_id'', JStr (om_item_id m)),
      (''source_ref'', JStr (om_source_ref m)),
      (''revision_fingerprint'', JStr (om_revision_fingerprint m))]) (oe_materials e)))"

definition payload_json :: "outbound_envelope \<Rightarrow> json" where
  "payload_json e = JObj
     [(''materials'', JList (map outbound_material_fields (oe_materials e))),
      (''retention_statement'', JStr (oe_retention_statement e)),
      (''cost_statement'', JStr (oe_cost_statement e))]"

definition payload_fingerprint :: "(string \<Rightarrow> string) \<Rightarrow> outbound_envelope \<Rightarrow> string" where
  "payload_fingerprint sha e = sha256_json sha (payload_json e)"

definition to_action_intent ::
  "(string \<Rightarrow> string) \<Rightarrow> outbound_envelope \<Rightarrow> action_intent res" where
  "to_action_intent sha e = make_action_intent
     (''outbound:'' @ oe_request_id e) (oe_job_id e) ''IRREVERSIBLE'' (oe_description e)
     (''outbound:'' @ oe_request_id e)
     (''sha256:'' @ material_revision_fingerprint sha e)
     (''sha256:'' @ payload_fingerprint sha e)
     (Some (oe_destination e)) (Some (oe_purpose e)) (Some (data_categories e))"

record outbound_preview =
  opv_envelope :: outbound_envelope
  opv_private_material_ids :: "string list"
  opv_data_categories :: "string list"
  opv_material_revision_fingerprint :: string
  opv_payload_fingerprint :: string
  opv_intent_fingerprint :: string

definition preview_outbound ::
  "(string \<Rightarrow> string) \<Rightarrow> outbound_envelope \<Rightarrow> outbound_preview res" where
  "preview_outbound sha e =
     bindE (to_action_intent sha e) (\<lambda>intent.
       Inr \<lparr>opv_envelope = e, opv_private_material_ids = private_material_ids e,
             opv_data_categories = data_categories e,
             opv_material_revision_fingerprint = material_revision_fingerprint sha e,
             opv_payload_fingerprint = payload_fingerprint sha e,
             opv_intent_fingerprint = intent_fingerprint sha intent\<rparr>)"

definition bind_confirmation ::
  "(string \<Rightarrow> string) \<Rightarrow> string \<Rightarrow> outbound_envelope \<Rightarrow> string \<Rightarrow> approval_binding res" where
  "bind_confirmation sha uuid e src =
     (case bindE (to_action_intent sha e) (\<lambda>intent. bind_approval sha uuid intent src) of
        Inl x \<Rightarrow> if exc_cls x = AuthorityValidationError
                 then Inl (Raise OutboundValidationError (exc_msg x)) else Inl x
      | Inr a \<Rightarrow> Inr a)"

definition validate_confirmation ::
  "(string \<Rightarrow> string) \<Rightarrow> outbound_envelope \<Rightarrow> approval_binding \<Rightarrow> approval_validation res" where
  "validate_confirmation sha e a =
     bindE (to_action_intent sha e) (\<lambda>intent. Inr (validate_approval sha intent a))"

subsection \<open>What a confirmation covers\<close>

definition material_ok :: "outbound_material \<Rightarrow> bool" where
  "material_ok m \<longleftrightarrow> list_all trimmed [om_item_id m, om_category m, om_source_ref m,
     om_revision_fingerprint m] \<and> pred_option trimmed (om_rights_ref m)
     \<and> pred_option trimmed (om_consent_ref m)"

definition envelope_ok :: "outbound_envelope \<Rightarrow> bool" where
  "envelope_ok e \<longleftrightarrow> list_all trimmed [oe_request_id e, oe_job_id e, oe_description e,
     oe_destination e, oe_purpose e, oe_retention_statement e, oe_cost_statement e]
     \<and> oe_materials e \<noteq> [] \<and> distinct (map om_item_id (oe_materials e))
     \<and> sorted (map om_item_id (oe_materials e)) \<and> list_all material_ok (oe_materials e)"

lemma make_outbound_material_ok:
  "make_outbound_material item cat src fp priv rights consent = Inr m \<Longrightarrow> material_ok m"
  unfolding make_outbound_material_def egress_text_def egress_optional_text_def
  apply (elim bindE_InrE)
  apply (drule optional_text_trimmed)+
  apply (drule require_text_trimmed)+
  apply (auto simp: material_ok_def)
  done

lemma make_outbound_envelope_ok:
  "make_outbound_envelope req job desc dest purp ms ret cost = Inr e \<Longrightarrow> list_all material_ok ms
     \<Longrightarrow> envelope_ok e"
  unfolding make_outbound_envelope_def egress_text_def
  apply (elim bindE_InrE)
  apply (drule require_text_trimmed)+
  apply (auto simp: envelope_ok_def guardE_eq_Inr list_all_iff distinct_map
      dest: arg_cong [of _ _ length])
  done

lemma trimmed_prefix: "trimmed s \<Longrightarrow> p \<noteq> [] \<Longrightarrow> \<not> is_space (hd p) \<Longrightarrow> trimmed (p @ s)"
  by (auto simp: trimmed_def)

lemma trimmed_outbound: "trimmed s \<Longrightarrow> trimmed (''outbound:'' @ s)"
  by (rule trimmed_prefix) (simp_all add: is_space_def code_def)

lemma trimmed_sha256: "trimmed s \<Longrightarrow> trimmed (''sha256:'' @ s)"
  by (rule trimmed_prefix) (simp_all add: is_space_def code_def)

text \<open>The action intent of a well-formed envelope, when the digest yields usable text.\<close>

definition envelope_intent :: "(string \<Rightarrow> string) \<Rightarrow> outbound_envelope \<Rightarrow> action_intent" where
  "envelope_intent sha e =
     \<lparr>ai_action_id = ''outbound:'' @ oe_request_id e, ai_job_id = oe_job_id e,
      ai_action_class = IRREVERSIBLE, ai_description = oe_description e,
      ai_target_ref = ''outbound:'' @ oe_request_id e,
      ai_revision_fingerprint = ''sha256:'' @ material_revision_fingerprint sha e,
      ai_payload_fingerprint = ''sha256:'' @ payload_fingerprint sha e,
      ai_destination = Some (oe_destination e), ai_purpose = Some (oe_purpose e),
      ai_data_categories = data_categories e\<rparr>"

lemma to_action_intent_eq:
  assumes "envelope_ok e" and "sha_text sha"
  shows "to_action_intent sha e = Inr (envelope_intent sha e)"
proof -
  have c: "categories (Some (data_categories e)) = Inr (data_categories e)"
    using assms(1)
    by (intro categories_id) (auto simp: data_categories_def list_all_iff envelope_ok_def material_ok_def)
  have p: "parse_enum ACTION_CLASSES ''IRREVERSIBLE'' = Some IRREVERSIBLE"
    using parse_action_class_name [of IRREVERSIBLE] by simp
  have s: "trimmed (material_revision_fingerprint sha e)" "trimmed (payload_fingerprint sha e)"
    using assms(2) by (simp_all add: sha_text_def material_revision_fingerprint_def
        payload_fingerprint_def sha256_json_def)
  show ?thesis
    using assms(1) unfolding to_action_intent_def make_action_intent_def auth_text_def
      auth_optional_text_def envelope_ok_def
    by (simp add: c p trimmed_outbound trimmed_sha256 s envelope_intent_def del: append.simps)
qed

lemma wf_outbound_fields [simp]: "wf_json (outbound_material_fields m)"
  by (simp add: outbound_material_fields_def opt_str_def split: option.split)

lemma wf_payload [simp]: "wf_json (payload_json e)"
  by (simp add: payload_json_def list_all_iff)

lemma norm_outbound_fields:
  assumes "norm_json (outbound_material_fields m) = norm_json (outbound_material_fields n)"
  shows "m = n"
proof -
  note look = norm_obj_lookup [OF assms [unfolded outbound_material_fields_def]]
  from look [of "''item_id''"] look [of "''category''"] look [of "''source_ref''"]
    look [of "''revision_fingerprint''"] look [of "''private''"] look [of "''rights_ref''"]
    look [of "''consent_ref''"]
  show ?thesis by simp
qed

lemma norm_payload:
  assumes "norm_json (payload_json d) = norm_json (payload_json e)"
  shows "oe_materials d = oe_materials e \<and> oe_retention_statement d = oe_retention_statement e
     \<and> oe_cost_statement d = oe_cost_statement e"
proof -
  note look = norm_obj_lookup [OF assms [unfolded payload_json_def]]
  from look [of "''materials''"]
  have "map (norm_json \<circ> outbound_material_fields) (oe_materials d)
          = map (norm_json \<circ> outbound_material_fields) (oe_materials e)"
    by simp
  moreover have "inj (norm_json \<circ> outbound_material_fields)"
    by (rule injI) (simp add: norm_outbound_fields)
  ultimately have "oe_materials d = oe_materials e" by (rule map_injective)
  with look [of "''retention_statement''"] look [of "''cost_statement''"] show ?thesis by simp
qed

lemma envelope_intent_inj:
  assumes "envelope_intent sha d = envelope_intent sha e"
    and "collision_free sha xs" and "canonical (payload_json d) \<in> set xs"
    and "canonical (payload_json e) \<in> set xs"
  shows "d = e"
proof -
  from assms(1) have "payload_fingerprint sha d = payload_fingerprint sha e"
    by (simp add: envelope_intent_def)
  then have "canonical (payload_json d) = canonical (payload_json e)"
    unfolding payload_fingerprint_def sha256_json_def
    by (rule collision_freeD [OF assms(2-4)])
  then have "norm_json (payload_json d) = norm_json (payload_json e)"
    by (rule canonical_inj [OF wf_payload wf_payload])
  from norm_payload [OF this] assms(1) show ?thesis by (simp add: envelope_intent_def)
qed

lemma bind_confirmation_bind:
  "envelope_ok e \<Longrightarrow> sha_text sha \<Longrightarrow> bind_confirmation sha uuid e src = Inr a
     \<Longrightarrow> bind_approval sha uuid (envelope_intent sha e) src = Inr a"
  by (auto simp: bind_confirmation_def to_action_intent_eq split: sum.splits if_splits)

subsection \<open>Properties\<close>

text \<open>
  C38. A confirmation covers the whole outbound package: one bound to the envelope \<open>e\<close> validates
  against the envelope \<open>d\<close> precisely when \<open>d\<close> is \<open>e\<close>, so any change of a material, of the
  destination, the purpose, the retention or the cost statement makes it stale.
\<close>

theorem confirmation_covers_envelope:
  assumes "sha_text sha" and "envelope_ok e" and "envelope_ok d"
    and "bind_confirmation sha uuid e src = Inr a"
    and "collision_free sha [canonical (payload_json d), canonical (payload_json e),
          canonical (material_fields (envelope_intent sha d)),
          canonical (material_fields (envelope_intent sha e))]"
  shows "\<exists>v. validate_confirmation sha d a = Inr v \<and> (av_status v = VALID \<longleftrightarrow> d = e)"
proof -
  note bound = bind_confirmation_bind [OF assms(2,1,4)]
  have "intent_fingerprint sha (envelope_intent sha d) = intent_fingerprint sha (envelope_intent sha e)
      \<longleftrightarrow> envelope_intent sha d = envelope_intent sha e"
    by (rule intent_fingerprint_eq_iff [OF assms(5)]) simp_all
  moreover have "d = e" if "envelope_intent sha d = envelope_intent sha e"
    by (rule envelope_intent_inj [OF that assms(5)]) simp_all
  ultimately show ?thesis
    using bind_approval_fingerprint [OF bound assms(1)]
    by (auto simp: validate_confirmation_def to_action_intent_eq [OF assms(3,1)] validate_approval_status)
qed

definition demo_envelope :: outbound_envelope where
  "demo_envelope = \<lparr>oe_request_id = ''q'', oe_job_id = ''j'', oe_description = ''d'',
     oe_destination = ''x'', oe_purpose = ''y'',
     oe_materials = [\<lparr>om_item_id = ''m'', om_category = ''audio'', om_source_ref = ''s'',
       om_revision_fingerprint = ''r'', om_private = True, om_rights_ref = None,
       om_consent_ref = None\<rparr>],
     oe_retention_statement = ''none'', oe_cost_statement = ''free''\<rparr>"

lemma demo_envelope_ok: "envelope_ok demo_envelope" "envelope_ok (demo_envelope\<lparr>oe_purpose := ''z''\<rparr>)"
  by (simp_all add: envelope_ok_def demo_envelope_def material_ok_def trimmed_def is_space_def code_def)

theorem confirmation_covers_envelope_witness:
  "\<exists>a v. bind_confirmation demo_sha ''u'' demo_envelope ''artist'' = Inr a
     \<and> validate_confirmation demo_sha (demo_envelope\<lparr>oe_purpose := ''z''\<rparr>) a = Inr v
     \<and> av_status v \<noteq> VALID"
proof -
  have "\<not> isl (bind_confirmation demo_sha ''u'' demo_envelope ''artist'')" by code_simp
  then obtain a where a: "bind_confirmation demo_sha ''u'' demo_envelope ''artist'' = Inr a"
    unfolding isl_def by (metis sum.exhaust)
  have "demo_envelope\<lparr>oe_purpose := ''z''\<rparr> \<noteq> demo_envelope" by (simp add: demo_envelope_def)
  with confirmation_covers_envelope [OF demo_sha_text demo_envelope_ok a demo_sha_free] a
  show ?thesis by blast
qed

text \<open>
  The preview hides nothing: for an envelope the constructor accepts it lists every private
  item and every category of the package, and the fingerprint it shows is the one a confirmation
  of the same envelope is bound to.
\<close>

theorem preview_discloses_everything:
  assumes "sha_text sha" and "envelope_ok e"
  shows "\<exists>p. preview_outbound sha e = Inr p
     \<and> set (opv_private_material_ids p) = om_item_id ` {m \<in> set (oe_materials e). om_private m}
     \<and> distinct (opv_private_material_ids p)
     \<and> set (opv_data_categories p) = om_category ` set (oe_materials e)
     \<and> (\<forall>uuid src a. bind_confirmation sha uuid e src = Inr a
          \<longrightarrow> ab_intent_fingerprint a = opv_intent_fingerprint p)"
proof -
  have "distinct (private_material_ids e)"
    using assms(2) by (simp add: private_material_ids_def envelope_ok_def distinct_map_filter)
  moreover have "set (data_categories e) = om_category ` set (oe_materials e)"
    by (simp add: data_categories_def)
  moreover have "ab_intent_fingerprint a = intent_fingerprint sha (envelope_intent sha e)"
    if "bind_confirmation sha uuid e src = Inr a" for uuid src a
    using bind_confirmation_bind [OF assms(2,1) that] bind_approval_fingerprint assms(1) by blast
  moreover have "set (private_material_ids e) = om_item_id ` {m \<in> set (oe_materials e). om_private m}"
    by (simp add: private_material_ids_def)
  ultimately show ?thesis
    unfolding preview_outbound_def to_action_intent_eq [OF assms(2,1)] bindE_Inr by fastforce
qed

theorem preview_discloses_everything_witness:
  "\<exists>p. preview_outbound demo_sha demo_envelope = Inr p \<and> ''m'' \<in> set (opv_private_material_ids p)"
proof -
  have item: "''m'' \<in> om_item_id ` {m \<in> set (oe_materials demo_envelope). om_private m}"
    by (intro image_eqI [where x = "hd (oe_materials demo_envelope)"]) (simp_all add: demo_envelope_def)
  from preview_discloses_everything [OF demo_sha_text demo_envelope_ok(1)]
  show ?thesis
    apply (elim exE conjE)
    subgoal for p using item by metis
    done
qed

end
