(* ===== verification/Network.thy ===== *)
theory Network
  imports Prelude
begin

text \<open>
  \<open>n0te/network.py\<close>: the connectivity policy. Routes, the transport decision for a route,
  and planning and resolving a change of connectivity mode. A decision never carries action
  authority. Statuses, modes and route kinds are datatypes whose constructors are the strings
  the code stores.
\<close>

subsection \<open>Values\<close>

datatype network_mode = OFFLINE | CONNECTED
datatype route_kind = LOCALHOST | LAN | INTERNET
datatype transport_status = TRANSPORT_ALLOW | TRANSPORT_DENY
datatype pending_status = PENDING | UNSENT | UNRECONCILED
datatype transition_status = READY | CHOICE_REQUIRED
datatype transition_direction = TO_OFFLINE | TO_CONNECTED

definition NETWORK_MODES :: "(string \<times> network_mode) list" where
  "NETWORK_MODES = [(''OFFLINE'', OFFLINE), (''CONNECTED'', CONNECTED)]"

definition NETWORK_ROUTE_KINDS :: "(string \<times> route_kind) list" where
  "NETWORK_ROUTE_KINDS = [(''LOCALHOST'', LOCALHOST), (''LAN'', LAN), (''INTERNET'', INTERNET)]"

definition PENDING_EXTERNAL_STATUSES :: "(string \<times> pending_status) list" where
  "PENDING_EXTERNAL_STATUSES =
     [(''PENDING'', PENDING), (''UNSENT'', UNSENT), (''UNRECONCILED'', UNRECONCILED)]"

definition OFFLINE_TRANSITION_CHOICES :: "string list" where
  "OFFLINE_TRANSITION_CHOICES =
     [''FINISH_FIRST'', ''PRESERVE_AND_GO_OFFLINE'', ''PROCEED_WITH_PENDING'']"

definition CONNECTED_TRANSITION_CHOICES :: "string list" where
  "CONNECTED_TRANSITION_CHOICES =
     [''SYNC_NOW'', ''SYNC_SELECTIVELY'', ''POSTPONE'', ''REMAIN_UNSYNCED'']"

definition net_text :: "string \<Rightarrow> string \<Rightarrow> string res" where
  "net_text value field = require_text NetworkPolicyError value field"

definition net_optional_text :: "string option \<Rightarrow> string \<Rightarrow> string option res" where
  "net_optional_text value field = optional_text NetworkPolicyError value field"

definition net_enum :: "(string \<times> 'a) list \<Rightarrow> string \<Rightarrow> string \<Rightarrow> 'a res" where
  "net_enum names value what =
     (case parse_enum names value of
        None \<Rightarrow> Inl (Raise NetworkPolicyError (''unsupported '' @ what @ '': '' @ norm_enum value))
      | Some x \<Rightarrow> Inr x)"

record network_route =
  nr_route_id :: string
  nr_kind :: route_kind
  nr_description :: string
  nr_lan_approval_ref :: "string option"

definition make_network_route ::
  "string \<Rightarrow> string \<Rightarrow> string \<Rightarrow> string option \<Rightarrow> network_route res" where
  "make_network_route rid kind desc approval =
     bindE (net_text rid ''route.route_id'') (\<lambda>rid.
     bindE (net_enum NETWORK_ROUTE_KINDS kind ''network route kind'') (\<lambda>kind.
     bindE (net_text desc ''route.description'') (\<lambda>desc.
     bindE (net_optional_text approval ''route.lan_approval_ref'') (\<lambda>approval.
     bindE (guardE (\<not> (kind \<noteq> LAN \<and> approval \<noteq> None))
              (Raise NetworkPolicyError ''lan_approval_ref is valid only for LAN routes'')) (\<lambda>_.
       Inr \<lparr>nr_route_id = rid, nr_kind = kind, nr_description = desc,
             nr_lan_approval_ref = approval\<rparr>)))))"

record transport_decision =
  td_status :: transport_status
  td_mode :: network_mode
  td_route_id :: string
  td_route_kind :: route_kind
  td_reason_codes :: "string list"
  td_action_authority_granted :: bool

definition make_transport_decision ::
  "transport_status \<Rightarrow> network_mode \<Rightarrow> string \<Rightarrow> route_kind \<Rightarrow> string list \<Rightarrow> bool
     \<Rightarrow> transport_decision res" where
  "make_transport_decision status mode rid kind reasons granted =
     bindE (guardE (granted = False)
              (Raise NetworkPolicyError ''network policy may never grant action authority'')) (\<lambda>_.
       Inr \<lparr>td_status = status, td_mode = mode, td_route_id = rid, td_route_kind = kind,
             td_reason_codes = reasons, td_action_authority_granted = granted\<rparr>)"

record pending_external_change =
  pc_change_id :: string
  pc_kind :: string
  pc_description :: string
  pc_status :: pending_status

definition make_pending_external_change ::
  "string \<Rightarrow> string \<Rightarrow> string \<Rightarrow> string \<Rightarrow> pending_external_change res" where
  "make_pending_external_change cid kind desc status =
     bindE (net_text cid ''pending.change_id'') (\<lambda>cid.
     bindE (net_text kind ''pending.kind'') (\<lambda>kind.
     bindE (net_text desc ''pending.description'') (\<lambda>desc.
     bindE (net_enum PENDING_EXTERNAL_STATUSES status ''pending external status'') (\<lambda>status.
       Inr \<lparr>pc_change_id = cid, pc_kind = kind, pc_description = desc, pc_status = status\<rparr>))))"

record offline_accumulated_change =
  oc_change_id :: string
  oc_kind :: string
  oc_description :: string

definition make_offline_accumulated_change ::
  "string \<Rightarrow> string \<Rightarrow> string \<Rightarrow> offline_accumulated_change res" where
  "make_offline_accumulated_change cid kind desc =
     bindE (net_text cid ''offline_change.change_id'') (\<lambda>cid.
     bindE (net_text kind ''offline_change.kind'') (\<lambda>kind.
     bindE (net_text desc ''offline_change.description'') (\<lambda>desc.
       Inr \<lparr>oc_change_id = cid, oc_kind = kind, oc_description = desc\<rparr>)))"

record network_transition_plan =
  tp_direction :: transition_direction
  tp_status :: transition_status
  tp_current_mode :: network_mode
  tp_target_mode :: network_mode
  tp_change_ids :: "string list"
  tp_choices :: "string list"
  tp_reason_codes :: "string list"

record network_transition_result =
  tr_direction :: transition_direction
  tr_next_mode :: network_mode
  tr_selected_choice :: "string option"
  tr_preserved_change_ids :: "string list"
  tr_reconciliation_directive :: "string option"
  tr_requires_external_work :: bool
  tr_performed_external_action :: bool
  tr_action_authority_granted :: bool

definition make_transition_result ::
  "transition_direction \<Rightarrow> network_mode \<Rightarrow> string option \<Rightarrow> string list \<Rightarrow> string option \<Rightarrow> bool
     \<Rightarrow> bool \<Rightarrow> bool \<Rightarrow> network_transition_result res" where
  "make_transition_result dir next choice ids directive work performed granted =
     bindE (guardE (performed = False) (Raise NetworkPolicyError
              ''network transition planning may not perform external actions'')) (\<lambda>_.
     bindE (guardE (granted = False) (Raise NetworkPolicyError
              ''network transition planning may not grant action authority'')) (\<lambda>_.
       Inr \<lparr>tr_direction = dir, tr_next_mode = next, tr_selected_choice = choice,
             tr_preserved_change_ids = ids, tr_reconciliation_directive = directive,
             tr_requires_external_work = work, tr_performed_external_action = performed,
             tr_action_authority_granted = granted\<rparr>))"

subsection \<open>The policy\<close>

definition make_network_policy :: "string \<Rightarrow> network_mode res" where
  "make_network_policy mode = net_enum NETWORK_MODES mode ''network mode''"

definition evaluate_route :: "network_mode \<Rightarrow> network_route \<Rightarrow> transport_decision" where
  "evaluate_route mode route =
     (let decide = (\<lambda>status reason.
        \<lparr>td_status = status, td_mode = mode, td_route_id = nr_route_id route,
         td_route_kind = nr_kind route,
         td_reason_codes = [reason, ''CONNECTIVITY_ONLY_NO_ACTION_AUTHORITY''],
         td_action_authority_granted = False\<rparr>) in
      if nr_kind route = LOCALHOST then decide TRANSPORT_ALLOW ''LOCALHOST_PERMITTED''
      else if nr_kind route = LAN then
        (if nr_lan_approval_ref route = None
         then decide TRANSPORT_DENY ''LAN_EXPLICIT_APPROVAL_REQUIRED''
         else decide TRANSPORT_ALLOW ''LAN_EXPLICIT_APPROVAL_PRESENT'')
      else if mode = OFFLINE then decide TRANSPORT_DENY ''OFFLINE_BLOCKS_INTERNET''
      else decide TRANSPORT_ALLOW ''CONNECTED_INTERNET_TRANSPORT_ELIGIBLE'')"

definition unique_change_ids :: "string list \<Rightarrow> string list res" where
  "unique_change_ids ids =
     bindE (guardE (distinct (sort ids))
              (Raise NetworkPolicyError ''change_id values must be unique'')) (\<lambda>_. Inr (sort ids))"

definition plan_offline_transition ::
  "network_mode \<Rightarrow> pending_external_change list \<Rightarrow> network_transition_plan res" where
  "plan_offline_transition mode pending =
     bindE (guardE (mode = CONNECTED) (Raise NetworkPolicyError
              ''offline transition may be planned only from CONNECTED mode'')) (\<lambda>_.
     bindE (unique_change_ids (map pc_change_id pending)) (\<lambda>ids.
       Inr (if ids = [] then
              \<lparr>tp_direction = TO_OFFLINE, tp_status = READY, tp_current_mode = mode,
               tp_target_mode = OFFLINE, tp_change_ids = [], tp_choices = [],
               tp_reason_codes = [''NO_PENDING_EXTERNAL_CHANGES'']\<rparr>
            else
              \<lparr>tp_direction = TO_OFFLINE, tp_status = CHOICE_REQUIRED, tp_current_mode = mode,
               tp_target_mode = OFFLINE, tp_change_ids = ids,
               tp_choices = OFFLINE_TRANSITION_CHOICES,
               tp_reason_codes = [''PENDING_EXTERNAL_CHANGES_REQUIRE_ARTIST_CHOICE'']\<rparr>)))"

text \<open>
  \<open>str(None)\<close> is the text \<open>None\<close>, so a missing choice where one is required is refused as an
  unsupported choice.
\<close>

definition choice_text :: "string option \<Rightarrow> string" where
  "choice_text choice = (case choice of None \<Rightarrow> ''None'' | Some c \<Rightarrow> c)"

definition resolve_offline_transition ::
  "network_mode \<Rightarrow> network_transition_plan \<Rightarrow> string option \<Rightarrow> network_transition_result res" where
  "resolve_offline_transition mode plan choice =
     bindE (guardE (\<not> (mode \<noteq> CONNECTED \<or> tp_current_mode plan \<noteq> mode))
       (Raise NetworkPolicyError ''offline transition plan does not match policy mode'')) (\<lambda>_.
     bindE (guardE (\<not> (tp_direction plan \<noteq> TO_OFFLINE \<or> tp_target_mode plan \<noteq> OFFLINE))
       (Raise NetworkPolicyError ''plan is not an offline transition'')) (\<lambda>_.
     if tp_status plan = READY then
       bindE (guardE (choice = None)
         (Raise NetworkPolicyError ''READY offline transition does not accept a choice'')) (\<lambda>_.
       make_transition_result (tp_direction plan) OFFLINE None (tp_change_ids plan) None
         False False False)
     else
       bindE (net_text (choice_text choice) ''offline_transition.choice'') (\<lambda>text.
       let normalized = upper text in
       bindE (guardE (normalized \<in> set OFFLINE_TRANSITION_CHOICES)
         (Raise NetworkPolicyError
           (''unsupported offline transition choice: '' @ normalized))) (\<lambda>_.
       if normalized = ''FINISH_FIRST'' then
         make_transition_result (tp_direction plan) CONNECTED (Some normalized)
           (tp_change_ids plan) (Some ''FINISH_PENDING_REMOTE_WORK'') True False False
       else
         make_transition_result (tp_direction plan) OFFLINE (Some normalized)
           (tp_change_ids plan) (Some normalized) False False False))))"

definition plan_connected_transition ::
  "network_mode \<Rightarrow> offline_accumulated_change list \<Rightarrow> network_transition_plan res" where
  "plan_connected_transition mode changes =
     bindE (guardE (mode = OFFLINE) (Raise NetworkPolicyError
              ''connected transition may be planned only from OFFLINE mode'')) (\<lambda>_.
     bindE (unique_change_ids (map oc_change_id changes)) (\<lambda>ids.
       Inr (if ids = [] then
              \<lparr>tp_direction = TO_CONNECTED, tp_status = READY, tp_current_mode = mode,
               tp_target_mode = CONNECTED, tp_change_ids = [], tp_choices = [],
               tp_reason_codes = [''NOTHING_TO_RECONCILE'']\<rparr>
            else
              \<lparr>tp_direction = TO_CONNECTED, tp_status = CHOICE_REQUIRED, tp_current_mode = mode,
               tp_target_mode = CONNECTED, tp_change_ids = ids,
               tp_choices = CONNECTED_TRANSITION_CHOICES,
               tp_reason_codes = [''OFFLINE_CHANGES_REQUIRE_RECONCILIATION_CHOICE'']\<rparr>)))"

definition resolve_connected_transition ::
  "network_mode \<Rightarrow> network_transition_plan \<Rightarrow> string option \<Rightarrow> network_transition_result res" where
  "resolve_connected_transition mode plan choice =
     bindE (guardE (\<not> (mode \<noteq> OFFLINE \<or> tp_current_mode plan \<noteq> mode))
       (Raise NetworkPolicyError ''connected transition plan does not match policy mode'')) (\<lambda>_.
     bindE (guardE (\<not> (tp_direction plan \<noteq> TO_CONNECTED \<or> tp_target_mode plan \<noteq> CONNECTED))
       (Raise NetworkPolicyError ''plan is not a connected transition'')) (\<lambda>_.
     if tp_status plan = READY then
       bindE (guardE (choice = None)
         (Raise NetworkPolicyError ''READY connected transition does not accept a choice'')) (\<lambda>_.
       make_transition_result (tp_direction plan) CONNECTED None (tp_change_ids plan) None
         False False False)
     else
       bindE (net_text (choice_text choice) ''connected_transition.choice'') (\<lambda>text.
       let normalized = upper text in
       bindE (guardE (normalized \<in> set CONNECTED_TRANSITION_CHOICES)
         (Raise NetworkPolicyError
           (''unsupported connected transition choice: '' @ normalized))) (\<lambda>_.
       make_transition_result (tp_direction plan) CONNECTED (Some normalized)
         (tp_change_ids plan) (Some normalized)
         (normalized \<in> {''SYNC_NOW'', ''SYNC_SELECTIVELY''}) False False))))"

subsection \<open>Facts used elsewhere\<close>

lemma make_transition_result_fields [simp]:
  "make_transition_result dir next choice ids directive work performed granted = Inr r \<longleftrightarrow>
     \<not> performed \<and> \<not> granted \<and>
     r = \<lparr>tr_direction = dir, tr_next_mode = next, tr_selected_choice = choice,
          tr_preserved_change_ids = ids, tr_reconciliation_directive = directive,
          tr_requires_external_work = work, tr_performed_external_action = False,
          tr_action_authority_granted = False\<rparr>"
  by (auto simp: make_transition_result_def res_simps)

lemma evaluate_route_constructible:
  "make_transport_decision (td_status (evaluate_route m r)) (td_mode (evaluate_route m r))
     (td_route_id (evaluate_route m r)) (td_route_kind (evaluate_route m r))
     (td_reason_codes (evaluate_route m r)) (td_action_authority_granted (evaluate_route m r))
     = Inr (evaluate_route m r)"
  by (simp add: make_transport_decision_def evaluate_route_def Let_def)

lemma evaluate_route_route_id [simp]: "td_route_id (evaluate_route m r) = nr_route_id r"
  by (simp add: evaluate_route_def Let_def)

lemma evaluate_route_no_authority [simp]: "\<not> td_action_authority_granted (evaluate_route m r)"
  by (simp add: evaluate_route_def Let_def)

lemma unique_change_ids_Inr:
  "unique_change_ids ids = Inr out \<longleftrightarrow> distinct ids \<and> out = sort ids"
  by (auto simp: unique_change_ids_def res_simps)

lemma sort_Nil_iff: "sort xs = [] \<longleftrightarrow> xs = []"
  by (metis set_empty set_sort)

text \<open>
  The transport decision for a route is ALLOW exactly for localhost routes, for LAN routes
  with an explicit approval, and for internet routes while the policy is CONNECTED; whatever the
  decision, it names the evaluated route and mode and grants no action authority.
\<close>

theorem evaluate_route_complete:
  "(td_status (evaluate_route m r) = TRANSPORT_ALLOW \<longleftrightarrow>
      nr_kind r = LOCALHOST
      \<or> (nr_kind r = LAN \<and> nr_lan_approval_ref r \<noteq> None)
      \<or> (nr_kind r = INTERNET \<and> m = CONNECTED))
   \<and> td_route_id (evaluate_route m r) = nr_route_id r
   \<and> td_mode (evaluate_route m r) = m
   \<and> td_route_kind (evaluate_route m r) = nr_kind r
   \<and> td_action_authority_granted (evaluate_route m r) = False"
  by (cases "nr_kind r"; cases m) (auto simp: evaluate_route_def Let_def)

text \<open>
  C39. Going offline loses nothing and never happens silently: for a plan made from the pending
  changes, the resolution succeeds exactly with no choice when nothing is pending and with one of
  the three choices when something is; it keeps every change identity, performs no external
  action, and the next mode is OFFLINE unless the choice is to finish first.
\<close>

theorem offline_transition_complete:
  assumes "plan_offline_transition m pending = Inr plan"
  shows "((\<exists>r. resolve_offline_transition m plan choice = Inr r) \<longleftrightarrow>
      (if pending = [] then choice = None
       else upper (strip (choice_text choice)) \<in> set OFFLINE_TRANSITION_CHOICES))
   \<and> (\<forall>r. resolve_offline_transition m plan choice = Inr r \<longrightarrow>
        tr_preserved_change_ids r = sort (map pc_change_id pending)
        \<and> distinct (tr_preserved_change_ids r)
        \<and> tr_performed_external_action r = False \<and> tr_action_authority_granted r = False
        \<and> (tr_next_mode r = OFFLINE
             \<longleftrightarrow> tr_selected_choice r \<noteq> Some ''FINISH_FIRST''))"
proof -
  from assms have m: "m = CONNECTED" and d: "distinct (map pc_change_id pending)"
    and plan: "tp_direction plan = TO_OFFLINE" "tp_target_mode plan = OFFLINE"
      "tp_current_mode plan = m" "tp_change_ids plan = sort (map pc_change_id pending)"
      "tp_status plan = READY \<longleftrightarrow> pending = []"
    by (auto simp: plan_offline_transition_def unique_change_ids_Inr guardE_eq_Inr sort_Nil_iff
        split: if_splits elim!: bindE_InrE)
  show ?thesis
  proof (cases "pending = []")
    case True
    then show ?thesis
      using m plan by (cases choice) (simp_all add: resolve_offline_transition_def guardE_def)
  next
    case False
    show ?thesis
    proof (cases "upper (strip (choice_text choice)) \<in> set OFFLINE_TRANSITION_CHOICES")
      case True
      then have "strip (choice_text choice) \<noteq> []"
        by (auto simp: OFFLINE_TRANSITION_CHOICES_def upper_def)
      then have "net_text (choice_text choice) ''offline_transition.choice''
          = Inr (strip (choice_text choice))"
        by (simp add: net_text_def require_text_def Let_def)
      then show ?thesis
        using False True m plan d by (simp add: resolve_offline_transition_def guardE_def Let_def)
    next
      case False2: False
      have "resolve_offline_transition m plan choice \<noteq> Inr r" for r
        using False False2 m plan
        by (auto simp: resolve_offline_transition_def guardE_eq_Inr net_text_def require_text_eq_Inr
            Let_def elim!: bindE_InrE)
      then show ?thesis using False False2 by simp
    qed
  qed
qed

definition demo_pending :: "pending_external_change list" where
  "demo_pending = [\<lparr>pc_change_id = ''c'', pc_kind = ''k'', pc_description = ''d'', pc_status = UNSENT\<rparr>]"

theorem offline_transition_complete_witness:
  "\<exists>plan. plan_offline_transition CONNECTED demo_pending = Inr plan
     \<and> (\<nexists>r. resolve_offline_transition CONNECTED plan None = Inr r)
     \<and> (\<exists>r. resolve_offline_transition CONNECTED plan (Some '' finish_first '') = Inr r)"
proof -
  have "\<not> isl (plan_offline_transition CONNECTED demo_pending)" by code_simp
  then obtain plan where p: "plan_offline_transition CONNECTED demo_pending = Inr plan"
    unfolding isl_def by (metis sum.exhaust)
  have ne: "demo_pending \<noteq> []" by (simp add: demo_pending_def)
  have "upper (strip (choice_text None)) \<notin> set OFFLINE_TRANSITION_CHOICES"
    "upper (strip (choice_text (Some '' finish_first ''))) \<in> set OFFLINE_TRANSITION_CHOICES"
    by code_simp+
  with offline_transition_complete [OF p, of None] ne
    offline_transition_complete [OF p, of "Some '' finish_first ''"]
  show ?thesis using p by (simp only: if_False) blast
qed

text \<open>
  Coming back online: for a plan made from the accumulated offline changes, the resolution
  succeeds exactly with no choice when nothing accumulated and with one of the four choices
  otherwise; every change identity is kept, the result is CONNECTED, only a synchronising choice
  asks for external work, and nothing is performed or authorised.
\<close>

theorem connected_transition_complete:
  assumes "plan_connected_transition m changes = Inr plan"
  shows "((\<exists>r. resolve_connected_transition m plan choice = Inr r) \<longleftrightarrow>
      (if changes = [] then choice = None
       else upper (strip (choice_text choice)) \<in> set CONNECTED_TRANSITION_CHOICES))
   \<and> (\<forall>r. resolve_connected_transition m plan choice = Inr r \<longrightarrow>
        tr_preserved_change_ids r = sort (map oc_change_id changes)
        \<and> distinct (tr_preserved_change_ids r)
        \<and> tr_performed_external_action r = False \<and> tr_action_authority_granted r = False
        \<and> tr_next_mode r = CONNECTED
        \<and> (tr_requires_external_work r \<longleftrightarrow> tr_selected_choice r = Some ''SYNC_NOW''
             \<or> tr_selected_choice r = Some ''SYNC_SELECTIVELY''))"
proof -
  from assms have m: "m = OFFLINE" and d: "distinct (map oc_change_id changes)"
    and plan: "tp_direction plan = TO_CONNECTED" "tp_target_mode plan = CONNECTED"
      "tp_current_mode plan = m" "tp_change_ids plan = sort (map oc_change_id changes)"
      "tp_status plan = READY \<longleftrightarrow> changes = []"
    by (auto simp: plan_connected_transition_def unique_change_ids_Inr guardE_eq_Inr sort_Nil_iff
        split: if_splits elim!: bindE_InrE)
  show ?thesis
  proof (cases "changes = []")
    case True
    then show ?thesis
      using m plan by (cases choice) (simp_all add: resolve_connected_transition_def guardE_def)
  next
    case False
    show ?thesis
    proof (cases "upper (strip (choice_text choice)) \<in> set CONNECTED_TRANSITION_CHOICES")
      case True
      then have "strip (choice_text choice) \<noteq> []"
        by (auto simp: CONNECTED_TRANSITION_CHOICES_def upper_def)
      then have "net_text (choice_text choice) ''connected_transition.choice''
          = Inr (strip (choice_text choice))"
        by (simp add: net_text_def require_text_def Let_def)
      then show ?thesis
        using False True m plan d by (simp add: resolve_connected_transition_def guardE_def Let_def)
    next
      case False2: False
      have "resolve_connected_transition m plan choice \<noteq> Inr r" for r
        using False False2 m plan
        by (auto simp: resolve_connected_transition_def guardE_eq_Inr net_text_def require_text_eq_Inr
            Let_def elim!: bindE_InrE)
      then show ?thesis using False False2 by simp
    qed
  qed
qed

definition demo_changes :: "offline_accumulated_change list" where
  "demo_changes = [\<lparr>oc_change_id = ''c'', oc_kind = ''k'', oc_description = ''d''\<rparr>]"

theorem connected_transition_complete_witness:
  "\<exists>plan r. plan_connected_transition OFFLINE demo_changes = Inr plan
     \<and> resolve_connected_transition OFFLINE plan (Some ''postpone'') = Inr r
     \<and> tr_preserved_change_ids r = sort (map oc_change_id demo_changes)"
proof -
  have "\<not> isl (plan_connected_transition OFFLINE demo_changes)" by code_simp
  then obtain plan where p: "plan_connected_transition OFFLINE demo_changes = Inr plan"
    unfolding isl_def by (metis sum.exhaust)
  have ne: "demo_changes \<noteq> []" by (simp add: demo_changes_def)
  have "upper (strip (choice_text (Some ''postpone''))) \<in> set CONNECTED_TRANSITION_CHOICES"
    by code_simp
  with connected_transition_complete [OF p, of "Some ''postpone''"] ne p
  show ?thesis by (simp only: if_False) blast
qed

end
