(* ===== verification/Eligibility.thy ===== *)
theory Eligibility
  imports Prelude
begin

text \<open>
  \<open>n0te/eligibility.py\<close>: the gate that says whether one already-selected execution route is
  usable now. Identity mismatches and missing entitlement or permission deny; a changed
  environment or old evidence make the decision stale; only otherwise is it ALLOW.
\<close>

datatype eligibility_status = ELIGIBLE_ALLOW | ELIGIBLE_DENY | ELIGIBLE_STALE
datatype grant_state = GRANTED | DENIED | STATE_UNKNOWN | NOT_REQUIRED

definition GRANT_STATES :: "(string \<times> grant_state) list" where
  "GRANT_STATES = [(''GRANTED'', GRANTED), (''DENIED'', DENIED),
                   (''UNKNOWN'', STATE_UNKNOWN), (''NOT_REQUIRED'', NOT_REQUIRED)]"

fun grant_state_name :: "grant_state \<Rightarrow> string" where
  "grant_state_name GRANTED = ''GRANTED''"
| "grant_state_name DENIED = ''DENIED''"
| "grant_state_name STATE_UNKNOWN = ''UNKNOWN''"
| "grant_state_name NOT_REQUIRED = ''NOT_REQUIRED''"

definition elig_text :: "string \<Rightarrow> string \<Rightarrow> string res" where
  "elig_text value field = require_text EligibilityError value field"

definition elig_nonnegative_int :: "int \<Rightarrow> string \<Rightarrow> int res" where
  "elig_nonnegative_int value field =
     (if value < 0 then Inl (Raise EligibilityError (field @ '' must be >= 0'')) else Inr value)"

definition elig_positive_int :: "int \<Rightarrow> string \<Rightarrow> int res" where
  "elig_positive_int value field =
     bindE (elig_nonnegative_int value field) (\<lambda>result.
     if result \<le> 0 then Inl (Raise EligibilityError (field @ '' must be > 0'')) else Inr result)"

definition elig_state :: "string \<Rightarrow> string \<Rightarrow> grant_state res" where
  "elig_state value field =
     (case parse_enum GRANT_STATES value of
        None \<Rightarrow> Inl (Raise EligibilityError (''unsupported '' @ field @ '': '' @ norm_enum value))
      | Some s \<Rightarrow> Inr s)"

record eligibility_request =
  eq_job_id :: string
  eq_route_id :: string
  eq_subject_id :: string
  eq_capability :: string
  eq_environment_fingerprint :: string
  eq_max_evidence_age_seconds :: int

definition make_eligibility_request ::
  "string \<Rightarrow> string \<Rightarrow> string \<Rightarrow> string \<Rightarrow> string \<Rightarrow> int \<Rightarrow> eligibility_request res" where
  "make_eligibility_request job route subject cap env age =
     bindE (elig_text job ''request.job_id'') (\<lambda>job.
     bindE (elig_text route ''request.route_id'') (\<lambda>route.
     bindE (elig_text subject ''request.subject_id'') (\<lambda>subject.
     bindE (elig_text cap ''request.capability'') (\<lambda>cap.
     bindE (elig_text env ''request.environment_fingerprint'') (\<lambda>env.
     bindE (elig_positive_int age ''request.max_evidence_age_seconds'') (\<lambda>age.
       Inr \<lparr>eq_job_id = job, eq_route_id = route, eq_subject_id = subject, eq_capability = cap,
             eq_environment_fingerprint = env, eq_max_evidence_age_seconds = age\<rparr>))))))"

record eligibility_evidence =
  ev_job_id :: string
  ev_route_id :: string
  ev_subject_id :: string
  ev_capability :: string
  ev_environment_fingerprint :: string
  ev_evidence_fingerprint :: string
  ev_evidence_ref :: string
  ev_verified :: bool
  ev_entitlement_state :: grant_state
  ev_permission_state :: grant_state
  ev_evidence_age_seconds :: int

definition make_eligibility_evidence ::
  "string \<Rightarrow> string \<Rightarrow> string \<Rightarrow> string \<Rightarrow> string \<Rightarrow> string \<Rightarrow> string \<Rightarrow> bool \<Rightarrow> string \<Rightarrow> string
     \<Rightarrow> int \<Rightarrow> eligibility_evidence res" where
  "make_eligibility_evidence job route subject cap env efp eref verified ent perm age =
     bindE (elig_text job ''evidence.job_id'') (\<lambda>job.
     bindE (elig_text route ''evidence.route_id'') (\<lambda>route.
     bindE (elig_text subject ''evidence.subject_id'') (\<lambda>subject.
     bindE (elig_text cap ''evidence.capability'') (\<lambda>cap.
     bindE (elig_text env ''evidence.environment_fingerprint'') (\<lambda>env.
     bindE (elig_text efp ''evidence.evidence_fingerprint'') (\<lambda>efp.
     bindE (elig_text eref ''evidence.evidence_ref'') (\<lambda>eref.
     bindE (elig_state ent ''entitlement state'') (\<lambda>ent.
     bindE (elig_state perm ''permission state'') (\<lambda>perm.
     bindE (elig_nonnegative_int age ''evidence.evidence_age_seconds'') (\<lambda>age.
       Inr \<lparr>ev_job_id = job, ev_route_id = route, ev_subject_id = subject, ev_capability = cap,
             ev_environment_fingerprint = env, ev_evidence_fingerprint = efp,
             ev_evidence_ref = eref, ev_verified = verified, ev_entitlement_state = ent,
             ev_permission_state = perm, ev_evidence_age_seconds = age\<rparr>))))))))))"

record eligibility_decision =
  ed_status :: eligibility_status
  ed_job_id :: string
  ed_route_id :: string
  ed_subject_id :: string
  ed_capability :: string
  ed_evidence_fingerprint :: string
  ed_evidence_ref :: string
  ed_reason_codes :: "string list"
  ed_action_authority_granted :: bool

definition make_eligibility_decision ::
  "eligibility_status \<Rightarrow> string \<Rightarrow> string \<Rightarrow> string \<Rightarrow> string \<Rightarrow> string \<Rightarrow> string \<Rightarrow> string list \<Rightarrow> bool
     \<Rightarrow> eligibility_decision res" where
  "make_eligibility_decision status job route subject cap efp eref reasons granted =
     bindE (elig_text job ''decision.job_id'') (\<lambda>job.
     bindE (elig_text route ''decision.route_id'') (\<lambda>route.
     bindE (elig_text subject ''decision.subject_id'') (\<lambda>subject.
     bindE (elig_text cap ''decision.capability'') (\<lambda>cap.
     bindE (elig_text efp ''decision.evidence_fingerprint'') (\<lambda>efp.
     bindE (elig_text eref ''decision.evidence_ref'') (\<lambda>eref.
     bindE (mapE (\<lambda>x. elig_text x ''decision.reason_codes'') reasons) (\<lambda>xs.
     let reasons = sorted_unique xs in
     bindE (guardE (reasons \<noteq> [])
              (Raise EligibilityError ''decision.reason_codes must not be empty'')) (\<lambda>_.
     bindE (guardE (granted = False)
              (Raise EligibilityError ''eligibility decision may never grant action authority'')) (\<lambda>_.
       Inr \<lparr>ed_status = status, ed_job_id = job, ed_route_id = route, ed_subject_id = subject,
             ed_capability = cap, ed_evidence_fingerprint = efp, ed_evidence_ref = eref,
             ed_reason_codes = reasons, ed_action_authority_granted = granted\<rparr>)))))))))"

subsection \<open>The gate\<close>

definition deny_reasons :: "eligibility_request \<Rightarrow> eligibility_evidence \<Rightarrow> string list" where
  "deny_reasons q e =
     (if ev_job_id e \<noteq> eq_job_id q then [''JOB_MISMATCH''] else [])
     @ (if ev_route_id e \<noteq> eq_route_id q then [''ROUTE_MISMATCH''] else [])
     @ (if ev_subject_id e \<noteq> eq_subject_id q then [''SUBJECT_MISMATCH''] else [])
     @ (if ev_capability e \<noteq> eq_capability q then [''CAPABILITY_MISMATCH''] else [])
     @ (if \<not> ev_verified e then [''CAPABILITY_NOT_VERIFIED''] else [])
     @ (if ev_entitlement_state e = DENIED then [''ENTITLEMENT_DENIED'']
        else if ev_entitlement_state e = STATE_UNKNOWN then [''ENTITLEMENT_UNKNOWN''] else [])
     @ (if ev_permission_state e = DENIED then [''PERMISSION_DENIED'']
        else if ev_permission_state e = STATE_UNKNOWN then [''PERMISSION_UNKNOWN''] else [])"

definition stale_reasons :: "eligibility_request \<Rightarrow> eligibility_evidence \<Rightarrow> string list" where
  "stale_reasons q e =
     (if ev_environment_fingerprint e \<noteq> eq_environment_fingerprint q
      then [''ENVIRONMENT_CHANGED''] else [])
     @ (if eq_max_evidence_age_seconds q < ev_evidence_age_seconds e
        then [''EVIDENCE_EXPIRED''] else [])"

definition evaluate_eligibility ::
  "eligibility_request \<Rightarrow> eligibility_evidence \<Rightarrow> eligibility_decision res" where
  "evaluate_eligibility q e =
     (let deny = deny_reasons q e; stale = stale_reasons q e;
          (status, reasons) =
            (if deny \<noteq> [] then (ELIGIBLE_DENY, deny @ stale)
             else if stale \<noteq> [] then (ELIGIBLE_STALE, stale)
             else (ELIGIBLE_ALLOW,
                   [''CAPABILITY_VERIFIED'',
                    ''ENTITLEMENT_'' @ grant_state_name (ev_entitlement_state e),
                    ''PERMISSION_'' @ grant_state_name (ev_permission_state e),
                    ''ENVIRONMENT_MATCH'', ''EVIDENCE_FRESH'',
                    ''ELIGIBILITY_ONLY_NO_ACTION_AUTHORITY'']))
      in make_eligibility_decision status (eq_job_id q) (eq_route_id q) (eq_subject_id q)
           (eq_capability q) (ev_evidence_fingerprint e) (ev_evidence_ref e) reasons False)"

subsection \<open>Completeness of the gate\<close>

definition request_ok :: "eligibility_request \<Rightarrow> bool" where
  "request_ok q \<longleftrightarrow> list_all trimmed [eq_job_id q, eq_route_id q, eq_subject_id q,
     eq_capability q, eq_environment_fingerprint q] \<and> 0 < eq_max_evidence_age_seconds q"

definition evidence_ok :: "eligibility_evidence \<Rightarrow> bool" where
  "evidence_ok e \<longleftrightarrow> list_all trimmed [ev_job_id e, ev_route_id e, ev_subject_id e,
     ev_capability e, ev_environment_fingerprint e, ev_evidence_fingerprint e, ev_evidence_ref e]
     \<and> 0 \<le> ev_evidence_age_seconds e"

lemma make_eligibility_request_ok:
  "make_eligibility_request job route subject cap env age = Inr q \<Longrightarrow> request_ok q"
  unfolding make_eligibility_request_def elig_text_def
  apply (elim bindE_InrE)
  apply (drule require_text_trimmed)+
  apply (auto simp: request_ok_def elig_positive_int_def elig_nonnegative_int_def res_simps
      split: if_splits)
  done

lemma make_eligibility_evidence_ok:
  "make_eligibility_evidence job route subject cap env efp eref v ent perm age = Inr e
     \<Longrightarrow> evidence_ok e"
  unfolding make_eligibility_evidence_def elig_text_def
  apply (elim bindE_InrE)
  apply (drule require_text_trimmed)+
  apply (auto simp: evidence_ok_def elig_nonnegative_int_def split: if_splits)
  done

definition eligible :: "eligibility_request \<Rightarrow> eligibility_evidence \<Rightarrow> bool" where
  "eligible q e \<longleftrightarrow>
     (ev_job_id e, ev_route_id e, ev_subject_id e, ev_capability e)
       = (eq_job_id q, eq_route_id q, eq_subject_id q, eq_capability q)
     \<and> ev_verified e
     \<and> ev_entitlement_state e \<in> {GRANTED, NOT_REQUIRED}
     \<and> ev_permission_state e \<in> {GRANTED, NOT_REQUIRED}"

lemma deny_reasons_empty: "deny_reasons q e = [] \<longleftrightarrow> eligible q e"
  by (cases "ev_entitlement_state e"; cases "ev_permission_state e")
    (auto simp: deny_reasons_def eligible_def)

lemma stale_reasons_empty:
  "stale_reasons q e = [] \<longleftrightarrow>
     ev_environment_fingerprint e = eq_environment_fingerprint q
     \<and> ev_evidence_age_seconds e \<le> eq_max_evidence_age_seconds q"
  by (auto simp: stale_reasons_def)

definition upper_word :: "string \<Rightarrow> bool" where
  "upper_word s \<longleftrightarrow> s \<noteq> [] \<and> list_all (\<lambda>c. 33 \<le> code c \<and> code c \<le> 126) s"

lemma graphic_not_space: "33 \<le> code c \<Longrightarrow> code c \<le> 126 \<Longrightarrow> \<not> is_space c"
  by (simp add: is_space_def Let_def)

lemma upper_word_trimmed: "upper_word s \<Longrightarrow> trimmed s"
  using graphic_not_space [of "hd s"] graphic_not_space [of "last s"] hd_in_set [of s]
    last_in_set [of s]
  by (simp add: upper_word_def trimmed_def list_all_iff)

lemma reasons_words:
  "list_all upper_word (deny_reasons q e)" "list_all upper_word (stale_reasons q e)"
  by (auto simp: deny_reasons_def stale_reasons_def upper_word_def code_def)

lemma make_eligibility_decision_total:
  assumes "list_all trimmed [job, route, subject, cap, efp, eref]"
    and "reasons \<noteq> []" and "list_all upper_word reasons"
  shows "make_eligibility_decision status job route subject cap efp eref reasons False
     = Inr \<lparr>ed_status = status, ed_job_id = job, ed_route_id = route, ed_subject_id = subject,
            ed_capability = cap, ed_evidence_fingerprint = efp, ed_evidence_ref = eref,
            ed_reason_codes = sorted_unique reasons, ed_action_authority_granted = False\<rparr>"
proof -
  have "mapE (\<lambda>x. elig_text x ''decision.reason_codes'') reasons = Inr (map id reasons)"
    using assms(3) by (intro mapE_total) (auto simp: elig_text_def list_all_iff upper_word_trimmed)
  moreover have "sorted_unique reasons \<noteq> []"
    using assms(2) by (metis sorted_unique_props(3) set_empty)
  ultimately show ?thesis
    using assms(1) by (simp add: make_eligibility_decision_def elig_text_def)
qed

lemma allow_words:
  "list_all upper_word [''CAPABILITY_VERIFIED'', ''ENTITLEMENT_'' @ grant_state_name a,
     ''PERMISSION_'' @ grant_state_name b, ''ENVIRONMENT_MATCH'', ''EVIDENCE_FRESH'',
     ''ELIGIBILITY_ONLY_NO_ACTION_AUTHORITY'']"
  by (cases a; cases b) (simp_all add: upper_word_def code_def)

lemma evaluate_eligibility_fields:
  assumes "request_ok q" and "evidence_ok e"
  shows "\<exists>d. evaluate_eligibility q e = Inr d
     \<and> ed_status d = (if \<not> eligible q e then ELIGIBLE_DENY
                      else if stale_reasons q e \<noteq> [] then ELIGIBLE_STALE else ELIGIBLE_ALLOW)
     \<and> (ed_job_id d, ed_route_id d, ed_subject_id d, ed_capability d)
         = (eq_job_id q, eq_route_id q, eq_subject_id q, eq_capability q)
     \<and> ed_action_authority_granted d = False \<and> ed_reason_codes d \<noteq> []"
proof -
  have t: "list_all trimmed [eq_job_id q, eq_route_id q, eq_subject_id q, eq_capability q,
      ev_evidence_fingerprint e, ev_evidence_ref e]"
    using assms by (simp add: request_ok_def evidence_ok_def)
  have ne: "sorted_unique xs \<noteq> []" if "xs \<noteq> []" for xs :: "string list"
    using that by (metis sorted_unique_props(3) set_empty)
  consider "\<not> eligible q e" | "eligible q e" "stale_reasons q e \<noteq> []"
    | "eligible q e" "stale_reasons q e = []" by blast
  then show ?thesis
  proof cases
    case 1
    then show ?thesis
      using make_eligibility_decision_total [OF t, of "deny_reasons q e @ stale_reasons q e"]
        reasons_words [of q e]
      by (simp add: evaluate_eligibility_def Let_def deny_reasons_empty ne)
  next
    case 2
    then show ?thesis
      using make_eligibility_decision_total [OF t, of "stale_reasons q e"] reasons_words [of q e]
      by (simp add: evaluate_eligibility_def Let_def deny_reasons_empty [symmetric] ne)
  next
    case 3
    then show ?thesis
      using make_eligibility_decision_total [OF t _ allow_words]
      by (simp add: evaluate_eligibility_def Let_def deny_reasons_empty [symmetric] ne
          del: append.simps)
  qed
qed

subsection \<open>Properties\<close>

text \<open>
  C40. The eligibility gate is total and exact on what its constructors accept: it allows exactly
  the evidence that matches the request in job, route, subject and capability, is verified, with
  entitlement and permission granted or not required, in the same environment and not older than
  the request admits; evidence that fails only in the last two is stale, any other is denied; the
  decision repeats the request's identities and never grants action authority.
\<close>

theorem eligibility_gate_exact:
  assumes "make_eligibility_request job route subject cap env age = Inr q"
    and "make_eligibility_evidence job' route' subject' cap' env' efp eref v ent perm age' = Inr e"
  shows "\<exists>d. evaluate_eligibility q e = Inr d
     \<and> (ed_status d = ELIGIBLE_ALLOW \<longleftrightarrow> eligible q e
          \<and> ev_environment_fingerprint e = eq_environment_fingerprint q
          \<and> ev_evidence_age_seconds e \<le> eq_max_evidence_age_seconds q)
     \<and> (ed_status d = ELIGIBLE_DENY \<longleftrightarrow> \<not> eligible q e)
     \<and> (ed_job_id d, ed_route_id d, ed_subject_id d, ed_capability d)
         = (eq_job_id q, eq_route_id q, eq_subject_id q, eq_capability q)
     \<and> ed_action_authority_granted d = False"
  using evaluate_eligibility_fields [OF make_eligibility_request_ok [OF assms(1)]
      make_eligibility_evidence_ok [OF assms(2)]]
  by (auto simp: stale_reasons_empty)

theorem eligibility_gate_exact_witness:
  "\<exists>q e d. make_eligibility_request ''j'' ''r'' ''s'' ''c'' ''v'' 60 = Inr q
     \<and> make_eligibility_evidence ''j'' ''r'' ''s'' ''c'' ''v'' ''f'' ''e'' True ''granted''
         ''not_required'' 61 = Inr e
     \<and> evaluate_eligibility q e = Inr d \<and> ed_status d = ELIGIBLE_STALE"
proof -
  have "\<not> isl (make_eligibility_request ''j'' ''r'' ''s'' ''c'' ''v'' 60)" by code_simp
  then obtain q where q: "make_eligibility_request ''j'' ''r'' ''s'' ''c'' ''v'' 60 = Inr q"
    unfolding isl_def by (metis sum.exhaust)
  have "case make_eligibility_evidence ''j'' ''r'' ''s'' ''c'' ''v'' ''f'' ''e'' True ''granted''
         ''not_required'' 61 of Inl _ \<Rightarrow> False | Inr e \<Rightarrow>
     (case make_eligibility_request ''j'' ''r'' ''s'' ''c'' ''v'' 60 of Inl _ \<Rightarrow> False
      | Inr q \<Rightarrow> deny_reasons q e = [] \<and> eq_max_evidence_age_seconds q < ev_evidence_age_seconds e)"
    by code_simp
  then obtain e where e: "make_eligibility_evidence ''j'' ''r'' ''s'' ''c'' ''v'' ''f'' ''e'' True
      ''granted'' ''not_required'' 61 = Inr e"
    and el: "eligible q e" "eq_max_evidence_age_seconds q < ev_evidence_age_seconds e"
    by (auto simp: q deny_reasons_empty split: sum.splits)
  from eligibility_gate_exact [OF q e] el obtain d where "evaluate_eligibility q e = Inr d"
    "ed_status d \<noteq> ELIGIBLE_ALLOW" "ed_status d \<noteq> ELIGIBLE_DENY" by auto
  moreover from this have "ed_status d = ELIGIBLE_STALE" by (cases "ed_status d") auto
  ultimately show ?thesis using q e by blast
qed

end
