(* ===== verification/Operations.thy ===== *)
theory Operations
  imports Lineage_Facts Egress Network Eligibility
begin

text \<open>
  \<open>n0te/operations.py\<close>: the durable journal of operations in the profile database. An operation
  is prepared once for an idempotency key and an approved intent, claimed at most once, and ends
  in exactly one outcome; an unknown outcome may be reconciled once. The record extends
  \<open>lineage_db\<close> by the journal's two tables.
\<close>

subsection \<open>Rows and tables\<close>

datatype op_event_type =
  PREPARED | EXECUTION_CLAIMED | SUCCEEDED | FAILED | UNKNOWN
  | RECONCILED_SUCCEEDED | RECONCILED_FAILED

fun op_event_name :: "op_event_type \<Rightarrow> string" where
  "op_event_name PREPARED = ''PREPARED''"
| "op_event_name EXECUTION_CLAIMED = ''EXECUTION_CLAIMED''"
| "op_event_name SUCCEEDED = ''SUCCEEDED''"
| "op_event_name FAILED = ''FAILED''"
| "op_event_name UNKNOWN = ''UNKNOWN''"
| "op_event_name RECONCILED_SUCCEEDED = ''RECONCILED_SUCCEEDED''"
| "op_event_name RECONCILED_FAILED = ''RECONCILED_FAILED''"

datatype recorded_state =
  ST_PREPARED | ST_EXECUTING | ST_SUCCEEDED | ST_FAILED | ST_UNKNOWN

fun recorded_state_name :: "recorded_state \<Rightarrow> string" where
  "recorded_state_name ST_PREPARED = ''PREPARED''"
| "recorded_state_name ST_EXECUTING = ''EXECUTING''"
| "recorded_state_name ST_SUCCEEDED = ''SUCCEEDED''"
| "recorded_state_name ST_FAILED = ''FAILED''"
| "recorded_state_name ST_UNKNOWN = ''UNKNOWN''"

datatype effective_outcome = OUT_SUCCEEDED | OUT_FAILED | OUT_UNKNOWN

record op_event =
  ov_seq :: nat
  ov_id :: string
  ov_operation_id :: string
  ov_event_type :: op_event_type
  ov_evidence_ref :: "string option"
  ov_receipt_ref :: "string option"
  ov_result_fingerprint :: "string option"

record operation_row =
  op_id :: string
  op_idempotency_key :: string
  op_intent_fingerprint :: string
  op_approval_id :: string
  op_approval_source_ref :: string
  op_song_id :: "string option"
  op_version_id :: "string option"
  op_transport_route_id :: "string option"
  op_eligibility_subject_id :: "string option"
  op_eligibility_capability :: "string option"

record operation_record = operation_row +
  or_recorded_state :: recorded_state
  or_effective_outcome :: "effective_outcome option"
  or_attempt_count :: nat
  or_receipt_ref :: "string option"
  or_evidence_ref :: "string option"
  or_result_fingerprint :: "string option"
  or_reconciled :: bool
  or_reconciliation_evidence_ref :: "string option"

record operations_db = lineage_db +
  db_operations :: "operation_row list"
  db_op_events :: "op_event list"

definition op_text :: "string \<Rightarrow> string \<Rightarrow> string res" where
  "op_text value field = require_text ValidationError value field"

definition op_optional :: "string option \<Rightarrow> string \<Rightarrow> string option res" where
  "op_optional value field = optional_text ValidationError value field"

text \<open>\<open>_ensure_schema\<close> on a profile without a journal.\<close>

definition install_operations :: "lineage_db \<Rightarrow> operations_db" where
  "install_operations db = lineage_db.extend
     (db\<lparr>db_metadata := (db_metadata db)(''operation_schema_version'' \<mapsto> ''2'')\<rparr>)
     (operations_db.fields [] [])"

text \<open>
  A profile as it is found on disk: the table of operations with the columns of schema version 1, which had no
  eligibility identity, or of version 2, and each of the two tables possibly missing.
\<close>

record operation_row_v1 =
  o1_id :: string
  o1_idempotency_key :: string
  o1_intent_fingerprint :: string
  o1_approval_id :: string
  o1_approval_source_ref :: string
  o1_song_id :: "string option"
  o1_version_id :: "string option"
  o1_transport_route_id :: "string option"

datatype operations_table = Operations_V1 "operation_row_v1 list" | Operations_V2 "operation_row list"

record operations_file = lineage_db +
  jf_operations :: "operations_table option"
  jf_events :: "op_event list option"

text \<open>\<open>ALTER TABLE ... ADD COLUMN ... TEXT NULL\<close> for both columns.\<close>

definition add_eligibility :: "operation_row_v1 \<Rightarrow> operation_row" where
  "add_eligibility r = \<lparr>op_id = o1_id r, op_idempotency_key = o1_idempotency_key r,
     op_intent_fingerprint = o1_intent_fingerprint r, op_approval_id = o1_approval_id r,
     op_approval_source_ref = o1_approval_source_ref r, op_song_id = o1_song_id r,
     op_version_id = o1_version_id r, op_transport_route_id = o1_transport_route_id r,
     op_eligibility_subject_id = None, op_eligibility_capability = None\<rparr>"

definition open_journal ::
  "operations_file \<Rightarrow> (string \<rightharpoonup> string) \<Rightarrow> operation_row list \<Rightarrow> op_event list \<Rightarrow> operations_db" where
  "open_journal f metadata rows events =
     lineage_db.extend ((lineage_db.truncate f)\<lparr>db_metadata := metadata\<rparr>) (operations_db.fields rows events)"

text \<open>
  \<open>_ensure_schema\<close>. A column that exists already cannot be added; version 2 without the columns is left to
  the validation that follows, whose query names them and fails.
\<close>

definition ensure_operations :: "operations_file \<Rightarrow> operations_db res" where
  "ensure_operations f =
     (case (jf_operations f, jf_events f, db_metadata f ''operation_schema_version'') of
        (None, None, None) \<Rightarrow> Inr (install_operations (lineage_db.truncate f))
      | (Some table, Some events, Some v) \<Rightarrow>
          if v = ''1'' then
            (case table of
               Operations_V1 rows \<Rightarrow> Inr (open_journal f ((db_metadata f)(''operation_schema_version'' \<mapsto> ''2''))
                 (map add_eligibility rows) events)
             | Operations_V2 _ \<Rightarrow> Inl (Raise LineageCorruptionError
                 ''cannot migrate Operation Journal eligibility identity''))
          else if v \<noteq> ''2'' then
            Inl (Raise LineageCorruptionError (''unsupported operation schema version: '' @ v))
          else
            (case table of
               Operations_V1 _ \<Rightarrow> Inl (Raise LineageCorruptionError ''operation history is unreadable or corrupt'')
             | Operations_V2 rows \<Rightarrow> Inr (open_journal f (db_metadata f) rows events))
      | _ \<Rightarrow> Inl (Raise LineageCorruptionError ''operation schema metadata/table mismatch''))"

subsection \<open>Deriving the state of an operation\<close>

type_synonym op_state = "recorded_state \<times> effective_outcome option \<times> nat \<times> bool"

fun derive_step :: "op_state \<Rightarrow> op_event_type \<Rightarrow> op_state option" where
  "derive_step (st, eff, attempts, reconciled) kind =
     (if kind = EXECUTION_CLAIMED \<and> st = ST_PREPARED \<and> attempts = 0
      then Some (ST_EXECUTING, eff, 1, reconciled)
      else if kind = SUCCEEDED \<and> st = ST_EXECUTING \<and> eff = None
      then Some (ST_SUCCEEDED, Some OUT_SUCCEEDED, attempts, reconciled)
      else if kind = FAILED \<and> st = ST_EXECUTING \<and> eff = None
      then Some (ST_FAILED, Some OUT_FAILED, attempts, reconciled)
      else if kind = UNKNOWN \<and> st = ST_EXECUTING \<and> eff = None
      then Some (ST_UNKNOWN, Some OUT_UNKNOWN, attempts, reconciled)
      else if kind = RECONCILED_SUCCEEDED \<and> st = ST_UNKNOWN \<and> eff = Some OUT_UNKNOWN \<and> \<not> reconciled
      then Some (st, Some OUT_SUCCEEDED, attempts, True)
      else if kind = RECONCILED_FAILED \<and> st = ST_UNKNOWN \<and> eff = Some OUT_UNKNOWN \<and> \<not> reconciled
      then Some (st, Some OUT_FAILED, attempts, True)
      else None)"

fun derive_loop :: "op_state \<Rightarrow> op_event_type list \<Rightarrow> op_state res" where
  "derive_loop s [] = Inr s"
| "derive_loop s (k # ks) =
     (case derive_step s k of
        None \<Rightarrow> Inl (Raise LineageCorruptionError ''operation lifecycle sequence is invalid'')
      | Some (st, eff, attempts, reconciled) \<Rightarrow>
          if (reconciled \<or> st = ST_SUCCEEDED \<or> st = ST_FAILED) \<and> ks \<noteq> []
          then Inl (Raise LineageCorruptionError ''operation history continues after terminal outcome'')
          else derive_loop (st, eff, attempts, reconciled) ks)"

fun derive_types :: "op_event_type list \<Rightarrow> op_state res" where
  "derive_types (PREPARED # ks) = derive_loop (ST_PREPARED, None, 0, False) ks"
| "derive_types _ = Inl (Raise LineageCorruptionError ''operation history must begin with PREPARED'')"

definition derive :: "op_event list \<Rightarrow> op_state res" where
  "derive events = derive_types (map ov_event_type events)"

text \<open>Python's truth of an optional text: present and not empty.\<close>

definition truthy :: "string option \<Rightarrow> bool" where
  "truthy v \<longleftrightarrow> v \<noteq> None \<and> v \<noteq> Some []"

fun validate_evidence :: "op_event list \<Rightarrow> unit res" where
  "validate_evidence [] = Inr ()"
| "validate_evidence (e # es) =
     bindE (guardE (\<not> (ov_event_type e \<in> {PREPARED, EXECUTION_CLAIMED, FAILED, UNKNOWN, RECONCILED_FAILED}
                       \<and> \<not> truthy (ov_evidence_ref e)))
       (Raise LineageCorruptionError
          (op_event_name (ov_event_type e) @ '' operation event requires evidence''))) (\<lambda>_.
     bindE (guardE (\<not> (ov_event_type e \<in> {SUCCEEDED, RECONCILED_SUCCEEDED}
                       \<and> \<not> (truthy (ov_receipt_ref e) \<and> truthy (ov_evidence_ref e)
                            \<and> truthy (ov_result_fingerprint e))))
       (Raise LineageCorruptionError
          (op_event_name (ov_event_type e) @ '' requires receipt, evidence and result fingerprint''))) (\<lambda>_.
     validate_evidence es))"

subsection \<open>Reading\<close>

definition op_events :: "'a operations_db_scheme \<Rightarrow> string \<Rightarrow> op_event list" where
  "op_events db oid = filter (\<lambda>e. ov_operation_id e = oid) (db_op_events db)"

definition op_identity :: "'a operations_db_scheme \<Rightarrow> string \<Rightarrow> operation_row res" where
  "op_identity db oid =
     (case find (\<lambda>r. op_id r = oid) (db_operations db) of
        None \<Rightarrow> Inl (Raise NotFoundError (''operation not found: '' @ oid))
      | Some r \<Rightarrow> Inr r)"

definition op_record :: "'a operations_db_scheme \<Rightarrow> operation_row \<Rightarrow> operation_record res" where
  "op_record db r =
     (let events = op_events db (op_id r) in
      bindE (derive events) (\<lambda>(st, eff, attempts, reconciled).
      let terminal = last events in
      Inr (operation_row.extend r (operation_record.fields st eff attempts
             (ov_receipt_ref terminal) (ov_evidence_ref terminal)
             (ov_result_fingerprint terminal) reconciled
             (if ov_event_type terminal \<in> {RECONCILED_SUCCEEDED, RECONCILED_FAILED}
              then ov_evidence_ref terminal else None)))))"

definition get_operation :: "'a operations_db_scheme \<Rightarrow> string \<Rightarrow> operation_record res" where
  "get_operation db oid = bindE (op_identity db oid) (op_record db)"

definition by_idempotency_key ::
  "'a operations_db_scheme \<Rightarrow> string \<Rightarrow> operation_record option res" where
  "by_idempotency_key db key =
     bindE (op_text key ''idempotency_key'') (\<lambda>key.
     case find (\<lambda>r. op_idempotency_key r = key) (db_operations db) of
       None \<Rightarrow> Inr None
     | Some r \<Rightarrow> bindE (op_record db r) (\<lambda>x. Inr (Some x)))"

definition operation_events :: "'a operations_db_scheme \<Rightarrow> string \<Rightarrow> op_event list res" where
  "operation_events db oid = bindE (op_identity db oid) (\<lambda>_. Inr (op_events db oid))"

subsection \<open>Checks before a step\<close>

definition song_version ::
  "'a operations_db_scheme \<Rightarrow> string option \<Rightarrow> string option
     \<Rightarrow> (string option \<times> string option) res" where
  "song_version db song_id version_id =
     (case song_id of
        None \<Rightarrow> (case version_id of
                  Some _ \<Rightarrow> Inl (Raise ValidationError ''version_id requires song_id'')
                | None \<Rightarrow> Inr (None, None))
      | Some sid \<Rightarrow>
          (case get_song db sid of
             None \<Rightarrow> Inl (Raise NotFoundError (''Song not found in profile '' @
                       (case db_metadata db ''profile_id'' of None \<Rightarrow> [] | Some p \<Rightarrow> p) @ '': '' @ sid))
           | Some s \<Rightarrow>
               (case version_id of
                  None \<Rightarrow> Inr (Some (so_id s), None)
                | Some vid \<Rightarrow>
                    (case get_version db vid of
                       None \<Rightarrow> Inl (Raise NotFoundError (''version not found: '' @ vid))
                     | Some v \<Rightarrow>
                         if ve_song_id v \<noteq> so_id s
                         then Inl (Raise ValidationError ''version belongs to a different Song'')
                         else Inr (Some (so_id s), Some (ve_id v))))))"

definition op_approval ::
  "(string \<Rightarrow> string) \<Rightarrow> action_intent \<Rightarrow> approval_binding \<Rightarrow> unit res" where
  "op_approval sha intent approval =
     guardE (av_status (validate_approval sha intent approval) = VALID)
       (Raise OperationError ''approval is stale for the current action intent'')"

definition execution_identity ::
  "action_intent \<Rightarrow> string option \<Rightarrow> string option \<Rightarrow> string option
     \<Rightarrow> (string option \<times> string option \<times> string option) res" where
  "execution_identity intent route subject capability =
     bindE (op_optional route ''transport_route_id'') (\<lambda>route.
     bindE (op_optional subject ''eligibility_subject_id'') (\<lambda>subject.
     bindE (op_optional capability ''eligibility_capability'') (\<lambda>capability.
     if ai_destination intent = None then
       (if route \<noteq> None \<or> subject \<noteq> None \<or> capability \<noteq> None
        then Inl (Raise OperationError
          ''local operation cannot bind outbound execution eligibility identity'')
        else Inr (None, None, None))
     else
       (if route = None \<or> subject = None \<or> capability = None
        then Inl (Raise OperationError
          ''outbound operation requires transport_route_id, eligibility_subject_id and eligibility_capability'')
        else Inr (route, subject, capability)))))"

definition op_gates ::
  "operation_record \<Rightarrow> action_intent \<Rightarrow> transport_decision option
     \<Rightarrow> eligibility_decision option \<Rightarrow> unit res" where
  "op_gates operation intent transport eligibility =
     (if op_transport_route_id operation = None then
        bindE (guardE (ai_destination intent = None)
          (Raise OperationError ''outbound intent is missing its prepared transport route'')) (\<lambda>_.
        guardE (\<not> (transport \<noteq> None \<or> eligibility \<noteq> None))
          (Raise OperationError ''local operation has no bound outbound execution gates''))
      else
        bindE (guardE (ai_destination intent \<noteq> None)
          (Raise OperationError ''transport-bound operation cannot claim a local intent'')) (\<lambda>_.
        bindE (guardE (\<not> (op_eligibility_subject_id operation = None
                          \<or> op_eligibility_capability operation = None))
          (Raise OperationError
            ''legacy outbound operation lacks eligibility identity and must be prepared again'')) (\<lambda>_.
        case transport of
          None \<Rightarrow> Inl (Raise OperationError ''outbound operation requires an explicit transport decision'')
        | Some t \<Rightarrow>
            bindE (guardE (\<not> (td_status t \<noteq> TRANSPORT_ALLOW
                              \<or> Some (td_route_id t) \<noteq> op_transport_route_id operation
                              \<or> td_action_authority_granted t))
              (Raise OperationError
                ''transport decision does not allow this exact route without authority'')) (\<lambda>_.
            case eligibility of
              None \<Rightarrow> Inl (Raise OperationError ''outbound operation requires an explicit eligibility decision'')
            | Some d \<Rightarrow>
                bindE (guardE (ed_status d = ELIGIBLE_ALLOW)
                  (Raise OperationError ''execution eligibility denies or marks this route stale'')) (\<lambda>_.
                bindE (guardE ((ed_job_id d, Some (ed_route_id d), Some (ed_subject_id d), Some (ed_capability d))
                         = (ai_job_id intent, op_transport_route_id operation,
                            op_eligibility_subject_id operation, op_eligibility_capability operation))
                  (Raise OperationError
                    ''eligibility decision does not match the exact prepared execution identity'')) (\<lambda>_.
                guardE (\<not> ed_action_authority_granted d)
                  (Raise OperationError ''eligibility decision must not grant action authority'')))))))"

subsection \<open>Writing\<close>

text \<open>\<open>INSERT INTO operations\<close>: the trigger, then the constraints of the table.\<close>

definition insert_operation ::
  "operation_row \<Rightarrow> 'a operations_db_scheme \<Rightarrow> 'a operations_db_scheme res" where
  "insert_operation r db =
     bindE (guardE (case op_version_id r of None \<Rightarrow> True
                    | Some v \<Rightarrow> (case op_song_id r of None \<Rightarrow> False | Some s \<Rightarrow> version_in_song db v s))
       (integrity ''operation version belongs to a different Song'')) (\<lambda>_.
     bindE (guardE (op_id r \<notin> op_id ` set (db_operations db)
                    \<and> op_idempotency_key r \<notin> op_idempotency_key ` set (db_operations db))
       (integrity ''UNIQUE constraint failed: operations'')) (\<lambda>_.
     bindE (guardE (list_all (\<lambda>x. \<not> sql_blank x)
                      [op_idempotency_key r, op_intent_fingerprint r, op_approval_id r,
                       op_approval_source_ref r]
                    \<and> list_all (pred_option (\<lambda>x. \<not> sql_blank x))
                        [op_transport_route_id r, op_eligibility_subject_id r,
                         op_eligibility_capability r])
       (integrity ''CHECK constraint failed: operations'')) (\<lambda>_.
     bindE (guardE (pred_option (\<lambda>s. get_song db s \<noteq> None) (op_song_id r)
                    \<and> pred_option (\<lambda>v. get_version db v \<noteq> None) (op_version_id r))
       (integrity ''FOREIGN KEY constraint failed'')) (\<lambda>_.
       Inr (db\<lparr>db_operations := db_operations db @ [r]\<rparr>)))))"

text \<open>\<open>_append\<close> with the trigger \<open>activity_operation_event\<close>.\<close>

definition append_op_event ::
  "string \<Rightarrow> op_event_type \<Rightarrow> string option \<Rightarrow> string option \<Rightarrow> string option
     \<Rightarrow> 'a operations_db_scheme \<Rightarrow> 'a operations_db_scheme res" where
  "append_op_event oid kind evidence receipt fp db0 =
     (let (eid, db) = new_id ''opevt'' db0 in
      bindE (guardE (eid \<notin> ov_id ` set (db_op_events db))
        (integrity ''UNIQUE constraint failed: operation_events.id'')) (\<lambda>_.
      case find (\<lambda>r. op_id r = oid) (db_operations db) of
        None \<Rightarrow> Inl (integrity ''FOREIGN KEY constraint failed'')
      | Some r \<Rightarrow>
          (case db_metadata db ''primary_artist_id'' of
             None \<Rightarrow> Inl (integrity ''NOT NULL constraint failed: activity_events.artist_id'')
           | Some artist \<Rightarrow>
               insert_activity (''OPERATION_'' @ op_event_name kind) artist (op_song_id r)
                 (op_version_id r) ''OPERATION'' oid
                 (db\<lparr>db_op_events := db_op_events db @
                    [\<lparr>ov_seq = Suc (length (db_op_events db)), ov_id = eid, ov_operation_id = oid,
                      ov_event_type = kind, ov_evidence_ref = evidence, ov_receipt_ref = receipt,
                      ov_result_fingerprint = fp\<rparr>]\<rparr>))))"

definition same_operation :: "operation_row \<Rightarrow> 'a operation_row_scheme \<Rightarrow> bool" where
  "same_operation r x \<longleftrightarrow>
     (op_intent_fingerprint x, op_approval_id x, op_approval_source_ref x, op_song_id x,
      op_version_id x, op_transport_route_id x, op_eligibility_subject_id x,
      op_eligibility_capability x)
     = (op_intent_fingerprint r, op_approval_id r, op_approval_source_ref r, op_song_id r,
        op_version_id r, op_transport_route_id r, op_eligibility_subject_id r,
        op_eligibility_capability r)"

definition prepare ::
  "(string \<Rightarrow> string) \<Rightarrow> string \<Rightarrow> action_intent \<Rightarrow> approval_binding \<Rightarrow> string option \<Rightarrow> string option
     \<Rightarrow> string option \<Rightarrow> string option \<Rightarrow> string option \<Rightarrow> 'a operations_db_scheme
     \<Rightarrow> (operation_record \<times> 'a operations_db_scheme) res" where
  "prepare sha key0 intent approval song version route0 subject0 capability0 db0 =
     bindE (op_text key0 ''idempotency_key'') (\<lambda>key.
     bindE (op_approval sha intent approval) (\<lambda>_.
     bindE (song_version db0 song version) (\<lambda>(song, version).
     bindE (execution_identity intent route0 subject0 capability0) (\<lambda>(route, subject, capability).
     bindE (by_idempotency_key db0 key) (\<lambda>existing.
     let (oid, db) = new_id ''op'' db0;
         r = \<lparr>op_id = oid, op_idempotency_key = key,
              op_intent_fingerprint = intent_fingerprint sha intent,
              op_approval_id = ab_approval_id approval,
              op_approval_source_ref = ab_source_ref approval,
              op_song_id = song, op_version_id = version, op_transport_route_id = route,
              op_eligibility_subject_id = subject, op_eligibility_capability = capability\<rparr> in
     case existing of
       Some x \<Rightarrow>
         if same_operation r x then Inr (x, db0)
         else Inl (Raise OperationError ''idempotency key is already bound to a different operation'')
     | None \<Rightarrow>
         (case bindE (insert_operation r db)
                 (append_op_event oid PREPARED (Some (ab_source_ref approval)) None None) of
            Inl e \<Rightarrow>
              if exc_cls e = IntegrityError then
                bindE (by_idempotency_key db0 key) (\<lambda>existing.
                case existing of
                  Some x \<Rightarrow> if same_operation r x then Inr (x, db0)
                            else Inl (Raise OperationError ''cannot prepare operation with this idempotency key'')
                | None \<Rightarrow> Inl (Raise OperationError ''cannot prepare operation with this idempotency key''))
              else Inl e
          | Inr db \<Rightarrow> bindE (get_operation db oid) (\<lambda>x. Inr (x, db))))))))"

definition claim_execution ::
  "(string \<Rightarrow> string) \<Rightarrow> string \<Rightarrow> action_intent \<Rightarrow> approval_binding \<Rightarrow> string
     \<Rightarrow> transport_decision option \<Rightarrow> eligibility_decision option \<Rightarrow> 'a operations_db_scheme
     \<Rightarrow> (operation_record \<times> 'a operations_db_scheme) res" where
  "claim_execution sha oid intent approval evidence0 transport eligibility db =
     bindE (op_text evidence0 ''claim_evidence_ref'') (\<lambda>evidence.
     bindE (get_operation db oid) (\<lambda>op.
     bindE (op_approval sha intent approval) (\<lambda>_.
     bindE (guardE ((op_intent_fingerprint op, op_approval_id op, op_approval_source_ref op)
                    = (intent_fingerprint sha intent, ab_approval_id approval, ab_source_ref approval))
       (Raise OperationError ''operation is bound to a different intent or approval'')) (\<lambda>_.
     bindE (op_gates op intent transport eligibility) (\<lambda>_.
     bindE (guardE (or_recorded_state op = ST_PREPARED)
       (Raise DuplicateExecutionError
          (''operation cannot be claimed from state '' @ recorded_state_name (or_recorded_state op)))) (\<lambda>_.
     bindE (append_op_event oid EXECUTION_CLAIMED (Some evidence) None None db) (\<lambda>db.
     bindE (get_operation db oid) (\<lambda>op. Inr (op, db)))))))))"

definition op_terminal ::
  "string \<Rightarrow> op_event_type \<Rightarrow> string \<Rightarrow> string option \<Rightarrow> string option \<Rightarrow> 'a operations_db_scheme
     \<Rightarrow> (operation_record \<times> 'a operations_db_scheme) res" where
  "op_terminal oid event evidence0 receipt0 result0 db =
     bindE (op_text evidence0 ''evidence_ref'') (\<lambda>evidence.
     bindE (op_optional receipt0 ''receipt_ref'') (\<lambda>receipt.
     bindE (op_optional result0 ''result_fingerprint'') (\<lambda>fp.
     bindE (guardE (\<not> (event = SUCCEEDED \<and> (receipt = None \<or> fp = None)))
       (Raise ValidationError ''successful operation requires receipt_ref and result_fingerprint'')) (\<lambda>_.
     bindE (get_operation db oid) (\<lambda>op.
     bindE (guardE (or_recorded_state op = ST_EXECUTING)
       (Raise OperationError (op_event_name event @ '' cannot be recorded from state ''
          @ recorded_state_name (or_recorded_state op)))) (\<lambda>_.
     bindE (append_op_event oid event (Some evidence) receipt fp db) (\<lambda>db.
     bindE (get_operation db oid) (\<lambda>op. Inr (op, db)))))))))"

definition complete_success ::
  "string \<Rightarrow> string \<Rightarrow> string \<Rightarrow> string \<Rightarrow> 'a operations_db_scheme
     \<Rightarrow> (operation_record \<times> 'a operations_db_scheme) res" where
  "complete_success oid receipt evidence fp db =
     op_terminal oid SUCCEEDED evidence (Some receipt) (Some fp) db"

definition complete_failure ::
  "string \<Rightarrow> string \<Rightarrow> string option \<Rightarrow> string option \<Rightarrow> 'a operations_db_scheme
     \<Rightarrow> (operation_record \<times> 'a operations_db_scheme) res" where
  "complete_failure oid evidence receipt fp db = op_terminal oid FAILED evidence receipt fp db"

definition mark_unknown ::
  "string \<Rightarrow> string \<Rightarrow> string option \<Rightarrow> 'a operations_db_scheme
     \<Rightarrow> (operation_record \<times> 'a operations_db_scheme) res" where
  "mark_unknown oid evidence receipt db = op_terminal oid UNKNOWN evidence receipt None db"

definition reconcile_unknown ::
  "string \<Rightarrow> string \<Rightarrow> string \<Rightarrow> string option \<Rightarrow> string option \<Rightarrow> 'a operations_db_scheme
     \<Rightarrow> (operation_record \<times> 'a operations_db_scheme) res" where
  "reconcile_unknown oid observed evidence0 receipt0 result0 db =
     (let outcome = norm_enum observed in
      bindE (guardE (outcome = ''SUCCEEDED'' \<or> outcome = ''FAILED'')
        (Raise OperationError ''observed_outcome must be SUCCEEDED or FAILED'')) (\<lambda>_.
      bindE (op_text evidence0 ''evidence_ref'') (\<lambda>evidence.
      bindE (op_optional receipt0 ''receipt_ref'') (\<lambda>receipt.
      bindE (op_optional result0 ''result_fingerprint'') (\<lambda>fp.
      bindE (guardE (\<not> (outcome = ''SUCCEEDED'' \<and> (receipt = None \<or> fp = None)))
        (Raise OperationError ''reconciled success requires receipt_ref and result_fingerprint'')) (\<lambda>_.
      bindE (get_operation db oid) (\<lambda>op.
      bindE (guardE (\<not> (or_recorded_state op \<noteq> ST_UNKNOWN \<or> or_reconciled op))
        (Raise OperationError ''only unreconciled UNKNOWN operations may be reconciled'')) (\<lambda>_.
      bindE (append_op_event oid
               (if outcome = ''SUCCEEDED'' then RECONCILED_SUCCEEDED else RECONCILED_FAILED)
               (Some evidence) receipt fp db) (\<lambda>db.
      bindE (get_operation db oid) (\<lambda>op. Inr (op, db)))))))))))"

text \<open>\<open>_validate_existing\<close>: the identity query, then every operation in the order of its id.\<close>

definition validate_operations :: "'a operations_db_scheme \<Rightarrow> unit res" where
  "validate_operations db =
     bindE (guardE (list_all (\<lambda>r.
          pred_option (\<lambda>s. get_song db s \<noteq> None) (op_song_id r)
          \<and> pred_option (\<lambda>v. case (get_version db v, op_song_id r) of
                (Some w, Some s) \<Rightarrow> ve_song_id w = s | _ \<Rightarrow> False) (op_version_id r)
          \<and> list_all (pred_option (\<lambda>x. \<not> sql_blank x))
              [op_transport_route_id r, op_eligibility_subject_id r, op_eligibility_capability r])
          (db_operations db))
       (Raise LineageCorruptionError ''operation history contains invalid identity references'')) (\<lambda>_.
     bindE (mapE (\<lambda>oid.
         let events = op_events db oid in
         bindE (derive events) (\<lambda>_. validate_evidence events))
       (sort (map op_id (db_operations db)))) (\<lambda>_. Inr ()))"

end
