(* ===== verification/Operations_Facts.thy ===== *)
theory Operations_Facts
  imports Operations
begin

text \<open>
  The journal of \<open>Operations\<close>: its lifecycle as a step relation and the refinement of the
  derivation to it, the invariant that every operation keeps, and what follows for every reachable
  journal: an operation is claimed at most once, with the exact authority it was prepared with,
  and its outcome is final.
\<close>

subsection \<open>The lifecycle as a step relation\<close>

inductive op_step :: "op_state \<Rightarrow> op_event_type \<Rightarrow> op_state \<Rightarrow> bool" where
  step_claim: "op_step (ST_PREPARED, None, 0, False) EXECUTION_CLAIMED (ST_EXECUTING, None, 1, False)"
| step_succeed: "op_step (ST_EXECUTING, None, 1, False) SUCCEEDED
     (ST_SUCCEEDED, Some OUT_SUCCEEDED, 1, False)"
| step_fail: "op_step (ST_EXECUTING, None, 1, False) FAILED (ST_FAILED, Some OUT_FAILED, 1, False)"
| step_unknown: "op_step (ST_EXECUTING, None, 1, False) UNKNOWN
     (ST_UNKNOWN, Some OUT_UNKNOWN, 1, False)"
| step_reconcile_success: "op_step (ST_UNKNOWN, Some OUT_UNKNOWN, 1, False) RECONCILED_SUCCEEDED
     (ST_UNKNOWN, Some OUT_SUCCEEDED, 1, True)"
| step_reconcile_failure: "op_step (ST_UNKNOWN, Some OUT_UNKNOWN, 1, False) RECONCILED_FAILED
     (ST_UNKNOWN, Some OUT_FAILED, 1, True)"

code_pred (modes: i \<Rightarrow> i \<Rightarrow> o \<Rightarrow> bool, i \<Rightarrow> i \<Rightarrow> i \<Rightarrow> bool) op_step .

inductive_simps op_step_simps: "op_step (st, eff, n, b) k t"

fun op_path :: "op_state \<Rightarrow> op_event_type list \<Rightarrow> op_state \<Rightarrow> bool" where
  "op_path s [] t \<longleftrightarrow> s = t"
| "op_path s (k # ks) t \<longleftrightarrow> (\<exists>u. op_step s k u \<and> op_path u ks t)"

definition op_start :: op_state where
  "op_start = (ST_PREPARED, None, 0, False)"

definition live_state :: "op_state \<Rightarrow> bool" where
  "live_state s \<longleftrightarrow> s \<in> {(ST_PREPARED, None, 0, False), (ST_EXECUTING, None, 1, False),
     (ST_UNKNOWN, Some OUT_UNKNOWN, 1, False)}"

definition final_state :: "op_state \<Rightarrow> bool" where
  "final_state s \<longleftrightarrow> s \<in> {(ST_SUCCEEDED, Some OUT_SUCCEEDED, 1, False),
     (ST_FAILED, Some OUT_FAILED, 1, False), (ST_UNKNOWN, Some OUT_SUCCEEDED, 1, True),
     (ST_UNKNOWN, Some OUT_FAILED, 1, True)}"

lemma op_step_states: "op_step s k t \<Longrightarrow> live_state s \<and> (live_state t \<or> final_state t)"
  by (induction rule: op_step.induct) (simp_all add: live_state_def final_state_def)

lemma final_no_step: "final_state s \<Longrightarrow> \<not> op_step s k t"
  by (auto simp: final_state_def op_step_simps)

lemma op_step_det: "op_step s k t \<Longrightarrow> op_step s k u \<Longrightarrow> t = u"
  by (induction rule: op_step.induct) (auto simp: op_step_simps)

lemma derive_step_iff:
  "live_state s \<or> final_state s \<Longrightarrow> derive_step s k = Some t \<longleftrightarrow> op_step s k t"
  by (cases k) (auto simp: live_state_def final_state_def op_step_simps)

lemma final_flag:
  "live_state (st, eff, n, b) \<or> final_state (st, eff, n, b) \<Longrightarrow>
     final_state (st, eff, n, b) \<longleftrightarrow> b \<or> st = ST_SUCCEEDED \<or> st = ST_FAILED"
  by (auto simp: live_state_def final_state_def)

lemma op_path_final: "final_state s \<Longrightarrow> op_path s ks t \<longleftrightarrow> ks = [] \<and> t = s"
  by (cases ks) (auto simp: final_no_step)

lemma derive_loop_iff:
  "live_state s \<or> final_state s \<Longrightarrow> derive_loop s ks = Inr t \<longleftrightarrow> op_path s ks t"
proof (induction ks arbitrary: s)
  case Nil
  then show ?case by simp
next
  case (Cons k ks)
  show ?case
  proof (cases "derive_step s k")
    case None
    then have "\<not> op_step s k u" for u using derive_step_iff [OF Cons.prems] by (metis option.distinct(1))
    with None show ?thesis by simp
  next
    case (Some u)
    then have st: "op_step s k u" using derive_step_iff [OF Cons.prems] by blast
    have u: "live_state u \<or> final_state u" using op_step_states [OF st] by blast
    obtain st1 eff n b where ueq: "u = (st1, eff, n, b)" by (cases u)
    have "derive_loop s (k # ks) = Inr t \<longleftrightarrow> op_path u ks t"
    proof (cases "final_state u")
      case True
      then have "b \<or> st1 = ST_SUCCEEDED \<or> st1 = ST_FAILED" using final_flag u ueq by blast
      then show ?thesis
        using Some Cons.IH [OF u] op_path_final [OF True] by (auto simp: ueq)
    next
      case False
      then have "\<not> (b \<or> st1 = ST_SUCCEEDED \<or> st1 = ST_FAILED)" using final_flag u ueq by blast
      then show ?thesis using Some Cons.IH [OF u] by (simp add: ueq)
    qed
    moreover have "op_path s (k # ks) t \<longleftrightarrow> op_path u ks t" using st op_step_det unfolding op_path.simps by blast
    ultimately show ?thesis by simp
  qed
qed

lemma op_start_live: "live_state op_start"
  by (simp add: live_state_def op_start_def)

lemma derive_types_iff:
  "derive_types ks = Inr t \<longleftrightarrow> (\<exists>rest. ks = PREPARED # rest \<and> op_path op_start rest t)"
  using derive_loop_iff [of op_start _ t] op_start_live
  by (cases ks rule: derive_types.cases) (auto simp: op_start_def)

lemma op_path_snoc: "op_path s (ks @ [k]) t \<longleftrightarrow> (\<exists>u. op_path s ks u \<and> op_step u k t)"
  by (induction ks arbitrary: s) (simp_all del: split_paired_Ex, blast)

lemma derive_types_snoc:
  "derive_types ks = Inr s \<Longrightarrow> op_step s k t \<Longrightarrow> derive_types (ks @ [k]) = Inr t"
  unfolding derive_types_iff by (metis append_Cons op_path_snoc)

lemma op_path_append: "op_path s (ks @ ls) t \<longleftrightarrow> (\<exists>u. op_path s ks u \<and> op_path u ls t)"
  by (induction ks arbitrary: s) (simp_all del: split_paired_Ex, blast)

lemma op_path_det: "op_path s ks t \<Longrightarrow> op_path s ks u \<Longrightarrow> t = u"
  by (induction ks arbitrary: s) (auto dest: op_step_det)

text \<open>A finished history has no proper extension.\<close>

lemma derive_types_final:
  assumes "derive_types ks = Inr s" and "final_state s" and "derive_types (ks @ ls) = Inr t"
  shows "ls = [] \<and> t = s"
proof -
  from assms(1) obtain rest where r: "ks = PREPARED # rest" "op_path op_start rest s"
    unfolding derive_types_iff by blast
  have "op_path op_start (rest @ ls) t"
    using assms(3) r(1) unfolding derive_types_iff by simp
  then obtain u where "op_path op_start rest u" "op_path u ls t"
    unfolding op_path_append by blast
  with op_path_det [OF r(2)] op_path_final [OF assms(2)] show ?thesis by blast
qed

lemma op_path_Cons_simp:
  "op_path s ks t \<longleftrightarrow> (ks = [] \<and> t = s) \<or> (\<exists>k ls u. ks = k # ls \<and> op_step s k u \<and> op_path u ls t)"
  by (cases ks) (auto simp del: split_paired_Ex)

lemma op_path_unknown:
  "op_path (ST_UNKNOWN, Some OUT_UNKNOWN, Suc 0, False) ks t \<longleftrightarrow>
     (ks = [] \<and> t = (ST_UNKNOWN, Some OUT_UNKNOWN, 1, False))
     \<or> (ks = [RECONCILED_SUCCEEDED] \<and> t = (ST_UNKNOWN, Some OUT_SUCCEEDED, 1, True))
     \<or> (ks = [RECONCILED_FAILED] \<and> t = (ST_UNKNOWN, Some OUT_FAILED, 1, True))"
  by (subst op_path_Cons_simp) (auto simp: op_step_simps op_path_final final_state_def)

lemma op_path_executing:
  "op_path (ST_EXECUTING, None, Suc 0, False) ks t \<longleftrightarrow>
     (ks = [] \<and> t = (ST_EXECUTING, None, 1, False))
     \<or> (ks = [SUCCEEDED] \<and> t = (ST_SUCCEEDED, Some OUT_SUCCEEDED, 1, False))
     \<or> (ks = [FAILED] \<and> t = (ST_FAILED, Some OUT_FAILED, 1, False))
     \<or> (\<exists>ls. ks = UNKNOWN # ls \<and> op_path (ST_UNKNOWN, Some OUT_UNKNOWN, Suc 0, False) ls t)"
  by (subst op_path_Cons_simp) (auto simp: op_step_simps op_path_final final_state_def)

lemma op_path_start:
  "op_path op_start ks t \<longleftrightarrow>
     (ks = [] \<and> t = op_start)
     \<or> (\<exists>ls. ks = EXECUTION_CLAIMED # ls \<and> op_path (ST_EXECUTING, None, Suc 0, False) ls t)"
  by (subst op_path_Cons_simp) (auto simp: op_start_def op_step_simps)

text \<open>The complete list of histories and the states they derive.\<close>

definition op_histories :: "(op_event_type list \<times> op_state) list" where
  "op_histories =
    [([PREPARED], op_start),
     ([PREPARED, EXECUTION_CLAIMED], (ST_EXECUTING, None, 1, False)),
     ([PREPARED, EXECUTION_CLAIMED, SUCCEEDED], (ST_SUCCEEDED, Some OUT_SUCCEEDED, 1, False)),
     ([PREPARED, EXECUTION_CLAIMED, FAILED], (ST_FAILED, Some OUT_FAILED, 1, False)),
     ([PREPARED, EXECUTION_CLAIMED, UNKNOWN], (ST_UNKNOWN, Some OUT_UNKNOWN, 1, False)),
     ([PREPARED, EXECUTION_CLAIMED, UNKNOWN, RECONCILED_SUCCEEDED],
        (ST_UNKNOWN, Some OUT_SUCCEEDED, 1, True)),
     ([PREPARED, EXECUTION_CLAIMED, UNKNOWN, RECONCILED_FAILED],
        (ST_UNKNOWN, Some OUT_FAILED, 1, True))]"

lemma derive_types_table: "derive_types ks = Inr t \<longleftrightarrow> (ks, t) \<in> set op_histories"
  unfolding derive_types_iff op_path_start op_path_executing op_path_unknown op_histories_def
  by auto

subsection \<open>The invariant of the journal\<close>

definition journal_ok :: "op_event list \<Rightarrow> bool" where
  "journal_ok es \<longleftrightarrow> (\<exists>s. derive es = Inr s) \<and> validate_evidence es = Inr ()"

definition op_row_ok :: "'a lineage_db_scheme \<Rightarrow> operation_row \<Rightarrow> bool" where
  "op_row_ok db r \<longleftrightarrow> (\<forall>s. op_song_id r = Some s \<longrightarrow> s \<in> so_id ` set (db_songs db))
     \<and> (\<forall>v. op_version_id r = Some v \<longrightarrow> (\<exists>s. op_song_id r = Some s \<and> version_in_song db v s))
     \<and> list_all (pred_option (\<lambda>x. \<not> sql_blank x))
         [op_transport_route_id r, op_eligibility_subject_id r, op_eligibility_capability r]"

text \<open>\<open>op_inv_but X\<close>: the operations in \<open>X\<close> may have no history yet.\<close>

definition op_tables_ok :: "'a operations_db_scheme \<Rightarrow> bool" where
  "op_tables_ok db \<longleftrightarrow> distinct (map op_id (db_operations db))
     \<and> distinct (map op_idempotency_key (db_operations db))
     \<and> list_all (op_row_ok db) (db_operations db)
     \<and> distinct (map ov_id (db_op_events db))
     \<and> ov_operation_id ` set (db_op_events db) \<subseteq> op_id ` set (db_operations db)"

definition op_inv_but :: "string set \<Rightarrow> 'a operations_db_scheme \<Rightarrow> bool" where
  "op_inv_but X db \<longleftrightarrow> lineage_inv db \<and> op_tables_ok db
     \<and> (\<forall>r \<in> set (db_operations db). op_id r \<notin> X \<longrightarrow> journal_ok (op_events db (op_id r)))"

abbreviation op_inv :: "'a operations_db_scheme \<Rightarrow> bool" where
  "op_inv \<equiv> op_inv_but {}"

lemma op_frames [simp]:
  "core_ok (db\<lparr>db_operations := os\<rparr>) = core_ok db"
  "core_ok (db\<lparr>db_op_events := es\<rparr>) = core_ok db"
  "activity_row_ok (db\<lparr>db_operations := os\<rparr>) = activity_row_ok db"
  "activity_row_ok (db\<lparr>db_op_events := es\<rparr>) = activity_row_ok db"
  by (simp_all add: core_defs has_artist_def version_in_song_def activity_row_ok_def fun_eq_iff)

lemma op_frames_inv [simp]:
  "activity_ok (db\<lparr>db_operations := os\<rparr>) = activity_ok db"
  "activity_ok (db\<lparr>db_op_events := es\<rparr>) = activity_ok db"
  "lineage_inv (db\<lparr>db_operations := os\<rparr>) = lineage_inv db"
  "lineage_inv (db\<lparr>db_op_events := es\<rparr>) = lineage_inv db"
  by (simp_all add: lineage_inv_def activity_ok_def)

lemma op_row_ok_eq:
  "db_songs db' = db_songs db \<Longrightarrow> db_versions db' = db_versions db \<Longrightarrow> op_row_ok db' r = op_row_ok db r"
  by (simp add: op_row_ok_def version_in_song_def)

lemma op_row_ok_mono:
  assumes "extends db db'" and "op_row_ok db r"
  shows "op_row_ok db' r"
proof -
  have "version_in_song db' v s" if "version_in_song db v s" for v s
    using that extends_versions [OF assms(1)] by (auto simp: version_in_song_iff)
  then show ?thesis
    using assms(2) extends_songs [OF assms(1)] by (auto simp: op_row_ok_def)
qed

text \<open>What the journal keeps from one state to the next.\<close>

definition op_extends :: "'a operations_db_scheme \<Rightarrow> 'a operations_db_scheme \<Rightarrow> bool" where
  "op_extends db db' \<longleftrightarrow> prefix (db_operations db) (db_operations db')
     \<and> prefix (db_op_events db) (db_op_events db')
     \<and> prefix (map so_id (db_songs db)) (map so_id (db_songs db'))
     \<and> prefix (db_versions db) (db_versions db') \<and> prefix (db_activity db) (db_activity db')"

lemma op_extends_refl [simp]: "op_extends db db"
  by (simp add: op_extends_def)

lemma op_extends_trans: "op_extends a b \<Longrightarrow> op_extends b c \<Longrightarrow> op_extends a c"
  by (auto simp: op_extends_def elim: prefix_order.trans)

lemma more_operations:
  "lineage_db.more db' = lineage_db.more db \<Longrightarrow>
     db_operations db' = db_operations db \<and> db_op_events db' = db_op_events db"
  by (cases db; cases db') simp

lemma extends_op_extends: "extends db db' \<Longrightarrow> op_extends db db'"
proof -
  assume e: "extends db db'"
  then have "db_operations db' = db_operations db \<and> db_op_events db' = db_op_events db"
    using more_operations unfolding extends_def by blast
  with e show ?thesis by (simp add: extends_def op_extends_def)
qed

lemma op_inv_extends:
  assumes "op_inv_but X db" and "lineage_inv db'" and "extends db db'"
  shows "op_inv_but X db'"
proof -
  have "db_operations db' = db_operations db \<and> db_op_events db' = db_op_events db"
    using assms(3) more_operations unfolding extends_def by blast
  then show ?thesis
    using assms op_row_ok_mono [OF assms(3)]
    by (auto simp: op_inv_but_def op_tables_ok_def list_all_iff op_events_def)
qed

subsection \<open>Appending an event\<close>

lemma append_op_event_Inr:
  assumes "append_op_event oid kind ev rc fp db = Inr db'"
  obtains e row where "db_op_events db' = db_op_events db @ [e]"
    and "ov_operation_id e = oid" "ov_event_type e = kind" "ov_evidence_ref e = ev"
      "ov_receipt_ref e = rc" "ov_result_fingerprint e = fp"
      "ov_id e \<notin> ov_id ` set (db_op_events db)"
    and "oid \<in> op_id ` set (db_operations db)"
    and "db_operations db' = db_operations db" "db_songs db' = db_songs db"
      "db_versions db' = db_versions db" "db_activity db' = db_activity db @ [row]"
    and "lineage_inv db \<Longrightarrow> lineage_inv db'"
proof -
  obtain eid db1 where id: "new_id ''opevt'' db = (eid, db1)" by (cases "new_id ''opevt'' db") auto
  note db1 = new_id_draws [OF id]
  let ?e = "\<lparr>ov_seq = Suc (length (db_op_events db1)), ov_id = eid, ov_operation_id = oid,
    ov_event_type = kind, ov_evidence_ref = ev, ov_receipt_ref = rc, ov_result_fingerprint = fp\<rparr>"
  let ?db = "db1\<lparr>db_op_events := db_op_events db1 @ [?e]\<rparr>"
  from assms obtain r artist where new: "eid \<notin> ov_id ` set (db_op_events db1)"
    and r: "find (\<lambda>r. op_id r = oid) (db_operations db1) = Some r"
    and ins: "insert_activity (''OPERATION_'' @ op_event_name kind) artist (op_song_id r)
                 (op_version_id r) ''OPERATION'' oid ?db = Inr db'"
    unfolding append_op_event_def id Let_def prod.case
    by (elim bindE_InrE) (simp add: guardE_eq_Inr split: option.splits)
  from insert_activity_Inr [OF ins] obtain row where
    db': "db' = ?db\<lparr>db_draws := Suc (db_draws ?db), db_activity := db_activity ?db @ [row]\<rparr>" by blast
  have "lineage_inv db'" if "lineage_inv db"
    using insert_activity_inv [OF ins] that by (simp add: db1 lineage_inv_def)
  moreover have "oid \<in> op_id ` set (db_operations db)"
    using r by (auto simp: db1 find_Some_iff in_set_conv_nth intro!: rev_image_eqI)
  ultimately show ?thesis using new by (intro that [of ?e row]) (simp_all add: db' db1)
qed

definition evidence_complete ::
  "op_event_type \<Rightarrow> string option \<Rightarrow> string option \<Rightarrow> string option \<Rightarrow> bool" where
  "evidence_complete kind ev rc fp \<longleftrightarrow> truthy ev
     \<and> (kind \<in> {SUCCEEDED, RECONCILED_SUCCEEDED} \<longrightarrow> truthy rc \<and> truthy fp)"

lemma validate_evidence_append [simp]:
  "validate_evidence (es @ fs) = Inr () \<longleftrightarrow> validate_evidence es = Inr () \<and> validate_evidence fs = Inr ()"
  by (induction es) (auto simp: guardE_def)

lemma journal_ok_snoc:
  assumes "es = [] \<and> ov_event_type e = PREPARED
     \<or> journal_ok es \<and> (\<exists>s t. derive es = Inr s \<and> op_step s (ov_event_type e) t)"
    and "evidence_complete (ov_event_type e) (ov_evidence_ref e) (ov_receipt_ref e) (ov_result_fingerprint e)"
  shows "journal_ok (es @ [e])"
proof -
  have "validate_evidence [e] = Inr ()"
    using assms(2) by (cases "ov_event_type e") (simp_all add: evidence_complete_def guardE_def)
  moreover have "validate_evidence es = Inr ()" using assms(1) by (auto simp: journal_ok_def)
  moreover have "\<exists>s. derive (es @ [e]) = Inr s"
    using assms(1)
  proof
    assume "es = [] \<and> ov_event_type e = PREPARED"
    then have "derive (es @ [e]) = Inr op_start" by (simp add: derive_def op_start_def)
    then show ?thesis by blast
  next
    assume "journal_ok es \<and> (\<exists>s t. derive es = Inr s \<and> op_step s (ov_event_type e) t)"
    then obtain s t where "derive_types (map ov_event_type es) = Inr s" "op_step s (ov_event_type e) t"
      unfolding derive_def by blast
    from derive_types_snoc [OF this] have "derive (es @ [e]) = Inr t" by (simp add: derive_def)
    then show ?thesis by blast
  qed
  ultimately show ?thesis by (simp add: journal_ok_def)
qed

lemma append_op_event_inv:
  assumes "append_op_event oid kind ev rc fp db = Inr db'" and "op_inv_but X db" and "X \<subseteq> {oid}"
    and "op_events db oid = [] \<and> kind = PREPARED
      \<or> journal_ok (op_events db oid) \<and> (\<exists>s t. derive (op_events db oid) = Inr s \<and> op_step s kind t)"
    and "evidence_complete kind ev rc fp"
  shows "op_inv db' \<and> op_extends db db'"
proof -
  from append_op_event_Inr [OF assms(1)] obtain e row where
    e: "db_op_events db' = db_op_events db @ [e]" "ov_operation_id e = oid" "ov_event_type e = kind"
      "ov_evidence_ref e = ev" "ov_receipt_ref e = rc" "ov_result_fingerprint e = fp"
      "ov_id e \<notin> ov_id ` set (db_op_events db)" "oid \<in> op_id ` set (db_operations db)"
    and same: "db_operations db' = db_operations db" "db_songs db' = db_songs db"
      "db_versions db' = db_versions db" "db_activity db' = db_activity db @ [row]"
    and inv: "lineage_inv db \<Longrightarrow> lineage_inv db'" by blast
  have "lineage_inv db'" using inv assms(2) by (simp add: op_inv_but_def)
  moreover have "op_tables_ok db'"
    using assms(2) e by (simp add: op_inv_but_def op_tables_ok_def same op_row_ok_eq [OF same(2,3)]
      list_all_iff)
  moreover have "journal_ok (op_events db' (op_id r))" if "r \<in> set (db_operations db')" for r
  proof (cases "op_id r = oid")
    case True
    have "op_events db' oid = op_events db oid @ [e]" using e by (simp add: op_events_def)
    with True journal_ok_snoc [of "op_events db oid" e] assms(4,5) e show ?thesis by simp
  next
    case False
    then have "op_events db' (op_id r) = op_events db (op_id r)" using e by (simp add: op_events_def)
    then show ?thesis using False that assms(2,3) same(1) by (auto simp: op_inv_but_def)
  qed
  moreover have "op_extends db db'" using e same by (simp add: op_extends_def)
  ultimately show ?thesis by (simp add: op_inv_but_def)
qed

subsection \<open>Reading back\<close>

lemma op_identity_Inr:
  "op_identity db oid = Inr r \<Longrightarrow> r \<in> set (db_operations db) \<and> op_id r = oid"
  by (auto simp: op_identity_def find_Some_iff in_set_conv_nth split: option.splits)

lemma get_operation_Inr:
  assumes "get_operation db oid = Inr x"
  obtains r where "r \<in> set (db_operations db)" "op_id r = oid" "op_id x = oid"
    "derive (op_events db oid) = Inr (or_recorded_state x, or_effective_outcome x,
       or_attempt_count x, or_reconciled x)" "same_operation r x"
    "op_idempotency_key x = op_idempotency_key r"
proof -
  from assms obtain r where r: "op_identity db oid = Inr r" "op_record db r = Inr x"
    by (auto simp: get_operation_def elim!: bindE_InrE)
  from op_identity_Inr [OF r(1)] have m: "r \<in> set (db_operations db)" "op_id r = oid" by auto
  from r(2) m(2) obtain st eff n b where d: "derive (op_events db oid) = Inr (st, eff, n, b)"
    and x: "x = operation_row.extend r (operation_record.fields st eff n
             (ov_receipt_ref (last (op_events db oid))) (ov_evidence_ref (last (op_events db oid)))
             (ov_result_fingerprint (last (op_events db oid))) b
             (if ov_event_type (last (op_events db oid)) \<in> {RECONCILED_SUCCEEDED, RECONCILED_FAILED}
              then ov_evidence_ref (last (op_events db oid)) else None))"
    by (auto simp: op_record_def Let_def elim!: bindE_InrE)
  show ?thesis
    by (rule that [OF m]) (simp_all add: x d m(2) operation_row.defs operation_record.defs same_operation_def)
qed

lemma record_ok:
  assumes "op_inv_but X db" and "get_operation db oid = Inr x" and "oid \<notin> X"
  shows "journal_ok (op_events db oid)"
proof -
  from get_operation_Inr [OF assms(2)] obtain r where "r \<in> set (db_operations db)" "op_id r = oid"
    by blast
  then show ?thesis using assms(1,3) by (auto simp: op_inv_but_def)
qed

lemma op_text_truthy: "op_text v f = Inr t \<Longrightarrow> truthy (Some t)"
  by (auto simp: op_text_def res_simps truthy_def)

lemma op_optional_truthy: "op_optional v f = Inr t \<Longrightarrow> t \<noteq> None \<Longrightarrow> truthy t"
  by (auto simp: op_optional_def optional_text_def res_simps truthy_def split: option.splits)

text \<open>The state a record shows fixes the whole state of its history.\<close>

lemma derive_table:
  "derive es = Inr s \<longleftrightarrow> (map ov_event_type es, s) \<in> set op_histories"
  by (simp add: derive_def derive_types_table)

lemma derive_prepared:
  "derive es = Inr (ST_PREPARED, eff, n, b) \<Longrightarrow> op_step (ST_PREPARED, eff, n, b) EXECUTION_CLAIMED
     (ST_EXECUTING, None, 1, False)"
  by (auto simp: derive_table op_histories_def op_step_simps op_start_def)

lemma derive_executing:
  "derive es = Inr (ST_EXECUTING, eff, n, b) \<Longrightarrow> k \<in> {SUCCEEDED, FAILED, UNKNOWN}
     \<Longrightarrow> \<exists>t. op_step (ST_EXECUTING, eff, n, b) k t"
  by (auto simp: derive_table op_histories_def op_step_simps op_start_def)

lemma derive_unreconciled:
  "derive es = Inr (ST_UNKNOWN, eff, n, False) \<Longrightarrow> k \<in> {RECONCILED_SUCCEEDED, RECONCILED_FAILED}
     \<Longrightarrow> \<exists>t. op_step (ST_UNKNOWN, eff, n, False) k t"
  by (auto simp: derive_table op_histories_def op_step_simps op_start_def)

subsection \<open>Each operation keeps the invariant\<close>

lemma claim_execution_inv:
  assumes "claim_execution sha oid intent approval ev tr el db = Inr (x, db')" and "op_inv db"
  shows "op_inv db' \<and> op_extends db db'"
proof -
  from assms(1) obtain t op where t: "op_text ev ''claim_evidence_ref'' = Inr t"
    and op: "get_operation db oid = Inr op" "or_recorded_state op = ST_PREPARED"
    and app: "append_op_event oid EXECUTION_CLAIMED (Some t) None None db = Inr db'"
    unfolding claim_execution_def by (elim bindE_InrE) (auto simp: guardE_eq_Inr)
  from get_operation_Inr [OF op(1)] op(2)
  have d: "derive (op_events db oid) = Inr (ST_PREPARED, or_effective_outcome op, or_attempt_count op,
    or_reconciled op)" by metis
  have "op_inv db' \<and> op_extends db db'"
  proof (rule append_op_event_inv [OF app assms(2)])
    show "op_events db oid = [] \<and> EXECUTION_CLAIMED = PREPARED \<or> journal_ok (op_events db oid)
       \<and> (\<exists>s t. derive (op_events db oid) = Inr s \<and> op_step s EXECUTION_CLAIMED t)"
      using record_ok [OF assms(2) op(1)] d derive_prepared [OF d] by blast
    show "evidence_complete EXECUTION_CLAIMED (Some t) None None"
      using op_text_truthy [OF t] by (simp add: evidence_complete_def)
  qed simp
  then show ?thesis .
qed

lemma op_terminal_inv:
  assumes "op_terminal oid k ev rc fp db = Inr (x, db')" and "op_inv db"
    and "k \<in> {SUCCEEDED, FAILED, UNKNOWN}"
  shows "op_inv db' \<and> op_extends db db'"
proof -
  from assms(1) obtain t r f op where t: "op_text ev ''evidence_ref'' = Inr t"
    and r: "op_optional rc ''receipt_ref'' = Inr r" and f: "op_optional fp ''result_fingerprint'' = Inr f"
    and need: "\<not> (k = SUCCEEDED \<and> (r = None \<or> f = None))"
    and op: "get_operation db oid = Inr op" "or_recorded_state op = ST_EXECUTING"
    and app: "append_op_event oid k (Some t) r f db = Inr db'"
    unfolding op_terminal_def by (elim bindE_InrE) (auto simp: guardE_eq_Inr)
  from get_operation_Inr [OF op(1)] op(2)
  have d: "derive (op_events db oid) = Inr (ST_EXECUTING, or_effective_outcome op, or_attempt_count op,
    or_reconciled op)" by metis
  show ?thesis
  proof (rule append_op_event_inv [OF app assms(2)])
    show "op_events db oid = [] \<and> k = PREPARED \<or> journal_ok (op_events db oid)
       \<and> (\<exists>s t. derive (op_events db oid) = Inr s \<and> op_step s k t)"
      using record_ok [OF assms(2) op(1)] d derive_executing [OF d assms(3)] by blast
    show "evidence_complete k (Some t) r f"
      using op_text_truthy [OF t] op_optional_truthy [OF r] op_optional_truthy [OF f] need assms(3)
      by (auto simp: evidence_complete_def)
  qed simp
qed

lemma reconcile_unknown_inv:
  assumes "reconcile_unknown oid obs ev rc fp db = Inr (x, db')" and "op_inv db"
  shows "op_inv db' \<and> op_extends db db'"
proof -
  let ?k = "if norm_enum obs = ''SUCCEEDED'' then RECONCILED_SUCCEEDED else RECONCILED_FAILED"
  from assms(1) obtain t r f op where t: "op_text ev ''evidence_ref'' = Inr t"
    and r: "op_optional rc ''receipt_ref'' = Inr r" and f: "op_optional fp ''result_fingerprint'' = Inr f"
    and need: "\<not> (norm_enum obs = ''SUCCEEDED'' \<and> (r = None \<or> f = None))"
    and op: "get_operation db oid = Inr op" "or_recorded_state op = ST_UNKNOWN" "\<not> or_reconciled op"
    and app: "append_op_event oid ?k (Some t) r f db = Inr db'"
    unfolding reconcile_unknown_def Let_def by (elim bindE_InrE) (auto simp: guardE_eq_Inr)
  from get_operation_Inr [OF op(1)] op(2,3)
  have d: "derive (op_events db oid) = Inr (ST_UNKNOWN, or_effective_outcome op, or_attempt_count op,
    False)" by metis
  show ?thesis
  proof (rule append_op_event_inv [OF app assms(2)])
    show "op_events db oid = [] \<and> ?k = PREPARED \<or> journal_ok (op_events db oid)
       \<and> (\<exists>s t. derive (op_events db oid) = Inr s \<and> op_step s ?k t)"
      using record_ok [OF assms(2) op(1)] d derive_unreconciled [OF d, of ?k] by (auto split: if_splits)
    show "evidence_complete ?k (Some t) r f"
      using op_text_truthy [OF t] op_optional_truthy [OF r] op_optional_truthy [OF f] need
      by (auto simp: evidence_complete_def)
  qed simp
qed

lemma op_optional_not_blank: "op_optional v f = Inr w \<Longrightarrow> pred_option (\<lambda>x. \<not> sql_blank x) w"
  using optional_text_trimmed trimmed_not_blank unfolding op_optional_def
  by (metis option.pred_mono_strong)

lemma execution_identity_ok:
  "execution_identity intent r s c = Inr (r', s', c') \<Longrightarrow>
     list_all (pred_option (\<lambda>x. \<not> sql_blank x)) [r', s', c']"
  by (auto simp: execution_identity_def split: if_splits elim!: bindE_InrE dest!: op_optional_not_blank)

lemma find_None_image: "find (\<lambda>r. f r = x) xs = None \<longleftrightarrow> x \<notin> f ` set xs"
  by (auto simp: find_None_iff)

lemma insert_operation_Inr:
  assumes "insert_operation r db = Inr db'"
  shows "db' = db\<lparr>db_operations := db_operations db @ [r]\<rparr>"
    and "op_id r \<notin> op_id ` set (db_operations db)"
    and "op_idempotency_key r \<notin> op_idempotency_key ` set (db_operations db)"
  using assms unfolding insert_operation_def by (auto simp: guardE_eq_Inr elim!: bindE_InrE)

lemma song_version_ok:
  assumes "song_version db s v = Inr (s', v')" and "lineage_inv db"
  shows "s' = s \<and> v' = v \<and> (\<forall>sid. s = Some sid \<longrightarrow> sid \<in> so_id ` set (db_songs db))
     \<and> (\<forall>vid. v = Some vid \<longrightarrow> (\<exists>sid. s = Some sid \<and> version_in_song db vid sid))"
  using assms
  by (auto simp: song_version_def version_in_song_iff split: option.splits if_splits
      dest!: get_song_Some get_version_Some)

text \<open>What a successful preparation did.\<close>

lemma prepare_Inr:
  assumes "prepare sha key intent approval song version route subject cap db = Inr (x, db')"
  obtains k s v r sb c rw where
    "op_text key ''idempotency_key'' = Inr k" "op_approval sha intent approval = Inr ()"
    "song_version db song version = Inr (s, v)"
    "execution_identity intent route subject cap = Inr (r, sb, c)"
    "rw = \<lparr>op_id = fst (new_id ''op'' db), op_idempotency_key = k,
       op_intent_fingerprint = intent_fingerprint sha intent,
       op_approval_id = ab_approval_id approval, op_approval_source_ref = ab_source_ref approval,
       op_song_id = s, op_version_id = v, op_transport_route_id = r,
       op_eligibility_subject_id = sb, op_eligibility_capability = c\<rparr>"
    "(by_idempotency_key db k = Inr (Some x) \<and> same_operation rw x \<and> db' = db) \<or>
     (\<exists>db1. by_idempotency_key db k = Inr None \<and> insert_operation rw (snd (new_id ''op'' db)) = Inr db1
        \<and> append_op_event (op_id rw) PREPARED (Some (ab_source_ref approval)) None None db1 = Inr db'
        \<and> get_operation db' (op_id rw) = Inr x)"
proof -
  obtain oid dbi where id: "new_id ''op'' db = (oid, dbi)" by (cases "new_id ''op'' db") auto
  from assms obtain k s v r sb c ex where
    1: "op_text key ''idempotency_key'' = Inr k" "op_approval sha intent approval = Inr ()"
      "song_version db song version = Inr (s, v)"
      "execution_identity intent route subject cap = Inr (r, sb, c)"
      "by_idempotency_key db k = Inr ex"
    unfolding prepare_def by (auto elim!: bindE_InrE)
  let ?r = "\<lparr>op_id = oid, op_idempotency_key = k,
       op_intent_fingerprint = intent_fingerprint sha intent,
       op_approval_id = ab_approval_id approval, op_approval_source_ref = ab_source_ref approval,
       op_song_id = s, op_version_id = v, op_transport_route_id = r,
       op_eligibility_subject_id = sb, op_eligibility_capability = c\<rparr>"
  have "(ex = Some x \<and> same_operation ?r x \<and> db' = db) \<or>
     (\<exists>db1. ex = None \<and> insert_operation ?r dbi = Inr db1
        \<and> append_op_event oid PREPARED (Some (ab_source_ref approval)) None None db1 = Inr db'
        \<and> get_operation db' oid = Inr x)"
    using assms unfolding prepare_def 1 bindE_Inr id Let_def prod.case
    by (auto simp: 1 split: option.splits sum.splits if_splits elim!: bindE_InrE)
  with 1 show ?thesis by (intro that [of k s v r sb c ?r]) (simp_all add: id)
qed

lemma prepare_inv:
  assumes "prepare sha key intent approval song version route subject cap db = Inr (x, db')"
    and "op_inv db" and "trimmed (ab_source_ref approval)"
  shows "op_inv db' \<and> op_extends db db'"
  using prepare_Inr [OF assms(1)]
proof cases
  case (1 k s v r sb c rw)
  show ?thesis
  proof (cases "db' = db")
    case True
    then show ?thesis using assms(2) by simp
  next
    case False
    with 1(6) obtain db1 where ins: "insert_operation rw (snd (new_id ''op'' db)) = Inr db1"
      and app: "append_op_event (op_id rw) PREPARED (Some (ab_source_ref approval)) None None db1 = Inr db'"
      by blast
    obtain oid dbi where id: "new_id ''op'' db = (oid, dbi)" by (cases "new_id ''op'' db") auto
    note dbi = new_id_draws [OF id]
    note i = insert_operation_Inr [OF ins [unfolded id snd_conv]]
    have inv: "lineage_inv db" and tab: "op_tables_ok db" using assms(2) by (auto simp: op_inv_but_def)
    have row: "op_row_ok db rw"
      using song_version_ok [OF 1(3) inv] execution_identity_ok [OF 1(4)] 1(5) by (auto simp: op_row_ok_def)
    have "ov_operation_id ` set (db_op_events db) \<subseteq> op_id ` set (db_operations db)"
      using tab by (simp add: op_tables_ok_def)
    then have "ov_operation_id e \<in> op_id ` set (db_operations db)" if "e \<in> set (db_op_events db)" for e
      using that by blast
    moreover have "op_id rw \<notin> op_id ` set (db_operations db)" using i(2) by (simp add: dbi)
    ultimately have "ov_operation_id e \<noteq> op_id rw" if "e \<in> set (db_op_events db)" for e
      using that by metis
    then have none: "op_events db1 (op_id rw) = []"
      by (simp add: i(1) dbi op_events_def filter_empty_conv)
    have ext: "op_extends db db1" by (simp add: i(1) dbi op_extends_def)
    have roweq: "op_row_ok db1 = op_row_ok db"
      by (simp add: fun_eq_iff op_row_ok_def i(1) dbi version_in_song_def)
    have "op_tables_ok db1"
      using tab row i(2,3) unfolding op_tables_ok_def roweq by (auto simp: i(1) dbi)
    moreover have "lineage_inv db1" using inv by (simp add: i(1) dbi)
    moreover have "journal_ok (op_events db1 (op_id q))"
      if "q \<in> set (db_operations db1)" "op_id q \<noteq> op_id rw" for q
      using that assms(2) by (auto simp: i(1) dbi op_inv_but_def op_events_def)
    ultimately have but: "op_inv_but {op_id rw} db1" by (auto simp: op_inv_but_def)
    have "op_inv db' \<and> op_extends db1 db'"
    proof (rule append_op_event_inv [OF app but])
      show "evidence_complete PREPARED (Some (ab_source_ref approval)) None None"
        using assms(3) by (auto simp: evidence_complete_def truthy_def)
    qed (simp_all add: none)
    then show ?thesis using op_extends_trans [OF ext] by blast
  qed
qed

subsection \<open>The journal as a machine\<close>

text \<open>
  One command per operation that writes, the profile's own included. An approval is given by the
  arguments of its constructor, since the code accepts only constructed ones.
\<close>

datatype op_cmd =
    Op_Lineage lineage_cmd
  | Op_Prepare string action_intent "string \<times> string \<times> string" "string option" "string option"
      "string option" "string option" "string option"
  | Op_Claim string action_intent "string \<times> string \<times> string" string "transport_decision option"
      "eligibility_decision option"
  | Op_Success string string string string
  | Op_Failure string string "string option" "string option"
  | Op_Unknown string string "string option"
  | Op_Reconcile string string string "string option" "string option"

fun exec_op ::
  "(string \<Rightarrow> string) \<Rightarrow> op_cmd \<Rightarrow> 'a operations_db_scheme \<Rightarrow> 'a operations_db_scheme res" where
  "exec_op sha (Op_Lineage c) db = exec_lineage c db"
| "exec_op sha (Op_Prepare key intent (aid, fp, src) song version route subject cap) db =
     bindE (make_approval_binding aid fp src) (\<lambda>a.
       map_sum id snd (prepare sha key intent a song version route subject cap db))"
| "exec_op sha (Op_Claim oid intent (aid, fp, src) ev tr el) db =
     bindE (make_approval_binding aid fp src) (\<lambda>a.
       map_sum id snd (claim_execution sha oid intent a ev tr el db))"
| "exec_op sha (Op_Success oid rc ev fp) db = map_sum id snd (complete_success oid rc ev fp db)"
| "exec_op sha (Op_Failure oid ev rc fp) db = map_sum id snd (complete_failure oid ev rc fp db)"
| "exec_op sha (Op_Unknown oid ev rc) db = map_sum id snd (mark_unknown oid ev rc db)"
| "exec_op sha (Op_Reconcile oid outcome ev rc fp) db =
     map_sum id snd (reconcile_unknown oid outcome ev rc fp db)"

lemma make_approval_binding_ok:
  "make_approval_binding aid fp src = Inr a \<Longrightarrow>
     trimmed (ab_approval_id a) \<and> trimmed (ab_intent_fingerprint a) \<and> trimmed (ab_source_ref a)"
  by (auto simp: make_approval_binding_def auth_text_Inr elim!: bindE_InrE)

lemma exec_op_inv:
  assumes "exec_op sha c db = Inr db'" and "op_inv db"
  shows "op_inv db' \<and> op_extends db db'"
proof (cases c)
  case (Op_Lineage d)
  with assms have "lineage_inv db' \<and> extends db db'"
    using exec_lineage_inv by (auto simp: op_inv_but_def)
  then show ?thesis using op_inv_extends [OF assms(2)] extends_op_extends by blast
next
  case (Op_Prepare key intent b song version route subject cap)
  obtain aid fp src where b: "b = (aid, fp, src)" by (cases b)
  from assms(1) Op_Prepare b obtain a x where "make_approval_binding aid fp src = Inr a"
    "prepare sha key intent a song version route subject cap db = Inr (x, db')"
    by (auto simp: map_sum_snd_Inr elim!: bindE_InrE)
  then show ?thesis using prepare_inv assms(2) make_approval_binding_ok by blast
next
  case (Op_Claim oid intent b ev tr el)
  obtain aid fp src where b: "b = (aid, fp, src)" by (cases b)
  from assms(1) Op_Claim b obtain a x where "claim_execution sha oid intent a ev tr el db = Inr (x, db')"
    by (auto simp: map_sum_snd_Inr elim!: bindE_InrE)
  then show ?thesis using claim_execution_inv assms(2) by blast
next
  case (Op_Success oid rc ev fp)
  with assms(1) obtain x where "op_terminal oid SUCCEEDED ev (Some rc) (Some fp) db = Inr (x, db')"
    by (auto simp: map_sum_snd_Inr complete_success_def)
  then show ?thesis by (rule op_terminal_inv) (simp_all add: assms(2))
next
  case (Op_Failure oid ev rc fp)
  with assms(1) obtain x where "op_terminal oid FAILED ev rc fp db = Inr (x, db')"
    by (auto simp: map_sum_snd_Inr complete_failure_def)
  then show ?thesis by (rule op_terminal_inv) (simp_all add: assms(2))
next
  case (Op_Unknown oid ev rc)
  with assms(1) obtain x where "op_terminal oid UNKNOWN ev rc None db = Inr (x, db')"
    by (auto simp: map_sum_snd_Inr mark_unknown_def)
  then show ?thesis by (rule op_terminal_inv) (simp_all add: assms(2))
next
  case (Op_Reconcile oid outcome ev rc fp)
  with assms(1) obtain x where "reconcile_unknown oid outcome ev rc fp db = Inr (x, db')"
    by (auto simp: map_sum_snd_Inr)
  then show ?thesis by (rule reconcile_unknown_inv) (rule assms(2))
qed

interpretation op_machine: logged_machine "exec_op sha" op_inv db_op_events for sha
  by unfold_locales (auto dest: exec_op_inv simp: op_extends_def)

lemma run_op_extends:
  "op_inv db \<Longrightarrow> op_extends db (run_cmds (exec_op sha) cs db)"
proof (induction cs arbitrary: db)
  case Nil
  then show ?case by simp
next
  case (Cons c cs)
  show ?case
  proof (cases "exec_op sha c db")
    case (Inl e)
    with Cons show ?thesis by simp
  next
    case (Inr db1)
    from exec_op_inv [OF Inr Cons.prems] Cons.IH show ?thesis
      using op_extends_trans by (auto simp: Inr)
  qed
qed

lemma install_operations_inv: "lineage_inv db \<Longrightarrow> op_inv (install_operations db)"
  using install_tables_inv [of db "''operation_schema_version''" "''2''" "operations_db.fields [] []"]
  by (simp add: install_operations_def op_inv_but_def op_tables_ok_def lineage_db.defs operations_db.defs)

text \<open>A state of the journal that the code can reach on a created profile.\<close>

definition op_reachable :: "(string \<Rightarrow> string) \<Rightarrow> operations_db \<Rightarrow> bool" where
  "op_reachable sha db \<longleftrightarrow> (\<exists>random name db0 cs. create_profile random name = Inr db0
     \<and> db = run_cmds (exec_op sha) cs (install_operations db0))"

lemma op_reachable_inv: "op_reachable sha db \<Longrightarrow> op_inv db"
  unfolding op_reachable_def
  using op_machine.run_inv install_operations_inv create_profile_inv by blast

lemma op_reachable_run: "op_reachable sha db \<Longrightarrow> op_reachable sha (run_cmds (exec_op sha) cs db)"
  unfolding op_reachable_def by (metis run_cmds_append)

text \<open>
  Opening a stored journal: a file of the current version is the journal it holds, and a journal whose
  operations name no eligibility comes back whole from a file of schema version 1.
\<close>

definition journal_file :: "operations_db \<Rightarrow> operations_file" where
  "journal_file db = lineage_db.extend (lineage_db.truncate db)
     (operations_file.fields (Some (Operations_V2 (db_operations db))) (Some (db_op_events db)))"

definition without_eligibility :: "operation_row \<Rightarrow> operation_row_v1" where
  "without_eligibility r = \<lparr>o1_id = op_id r, o1_idempotency_key = op_idempotency_key r,
     o1_intent_fingerprint = op_intent_fingerprint r, o1_approval_id = op_approval_id r,
     o1_approval_source_ref = op_approval_source_ref r, o1_song_id = op_song_id r,
     o1_version_id = op_version_id r, o1_transport_route_id = op_transport_route_id r\<rparr>"

definition journal_file_v1 :: "operations_db \<Rightarrow> operations_file" where
  "journal_file_v1 db = lineage_db.extend
     ((lineage_db.truncate db)\<lparr>db_metadata := (db_metadata db)(''operation_schema_version'' \<mapsto> ''1'')\<rparr>)
     (operations_file.fields (Some (Operations_V1 (map without_eligibility (db_operations db)))) (Some (db_op_events db)))"

lemma add_without_eligibility:
  "op_eligibility_subject_id r = None \<Longrightarrow> op_eligibility_capability r = None
     \<Longrightarrow> add_eligibility (without_eligibility r) = r"
  by (cases r) (simp add: add_eligibility_def without_eligibility_def)

lemma journal_opens:
  assumes "db_metadata db ''operation_schema_version'' = Some ''2''"
  shows "ensure_operations (journal_file db) = Inr db"
    and "list_all (\<lambda>r. op_eligibility_subject_id r = None \<and> op_eligibility_capability r = None) (db_operations db)
      \<Longrightarrow> ensure_operations (journal_file_v1 db) = Inr db"
proof -
  show "ensure_operations (journal_file db) = Inr db"
    using assms by (cases db) (simp add: ensure_operations_def open_journal_def journal_file_def lineage_db.defs
        operations_file.defs operations_db.defs)
  assume "list_all (\<lambda>r. op_eligibility_subject_id r = None \<and> op_eligibility_capability r = None) (db_operations db)"
  then have "map (add_eligibility \<circ> without_eligibility) (db_operations db) = db_operations db"
    by (intro map_idI) (auto simp: list_all_iff add_without_eligibility)
  moreover have "(db_metadata db)(''operation_schema_version'' \<mapsto> ''2'') = db_metadata db"
    using assms by (simp add: fun_upd_idem)
  ultimately show "ensure_operations (journal_file_v1 db) = Inr db"
    by (cases db) (simp add: ensure_operations_def open_journal_def journal_file_v1_def lineage_db.defs
        operations_file.defs operations_db.defs)
qed

subsection \<open>Records later on\<close>

lemma op_record_cong: "op_events db' (op_id r) = op_events db (op_id r) \<Longrightarrow> op_record db' r = op_record db r"
  by (simp add: op_record_def)

lemma op_extends_events:
  "op_extends db db' \<Longrightarrow> \<exists>ls. op_events db' oid = op_events db oid @ ls"
  by (auto simp: op_extends_def prefix_def op_events_def)

lemma op_extends_identity:
  "op_extends db db' \<Longrightarrow> op_identity db oid = Inr r \<Longrightarrow> op_identity db' oid = Inr r"
  by (auto simp: op_extends_def prefix_def op_identity_def find_append_Some split: option.splits)

lemma op_record_exists:
  assumes "op_inv db" and "r \<in> set (db_operations db)"
  obtains x where "op_record db r = Inr x" "op_id x = op_id r" "same_operation r x"
    "op_idempotency_key x = op_idempotency_key r"
proof -
  from assms have "journal_ok (op_events db (op_id r))" by (auto simp: op_inv_but_def)
  then obtain st eff n b where d: "derive (op_events db (op_id r)) = Inr (st, eff, n, b)"
    unfolding journal_ok_def by (metis prod_cases4)
  show ?thesis
    by (rule that [OF op_record_def [of db r, unfolded Let_def d bindE_Inr prod.case]])
      (simp_all add: operation_row.defs operation_record.defs same_operation_def)
qed

lemma op_record_same:
  "op_record db r = Inr x \<Longrightarrow> op_record db' r = Inr y \<Longrightarrow>
     op_id y = op_id x \<and> (\<forall>q. same_operation q y = same_operation q x)
     \<and> op_idempotency_key y = op_idempotency_key x
     \<and> op_transport_route_id y = op_transport_route_id x
     \<and> op_eligibility_subject_id y = op_eligibility_subject_id x
     \<and> op_eligibility_capability y = op_eligibility_capability x
     \<and> op_intent_fingerprint y = op_intent_fingerprint x \<and> op_approval_id y = op_approval_id x
     \<and> op_approval_source_ref y = op_approval_source_ref x"
  by (auto simp: op_record_def Let_def operation_row.defs operation_record.defs same_operation_def
      elim!: bindE_InrE)

lemma op_gates_same:
  "op_record db r = Inr x \<Longrightarrow> op_record db' r = Inr y \<Longrightarrow> op_gates y = op_gates x"
proof -
  assume "op_record db r = Inr x" "op_record db' r = Inr y"
  from op_record_same [OF this] have eqs: "op_transport_route_id y = op_transport_route_id x"
    "op_eligibility_subject_id y = op_eligibility_subject_id x"
    "op_eligibility_capability y = op_eligibility_capability x" by blast+
  show "op_gates y = op_gates x" by (intro ext) (simp only: op_gates_def eqs)
qed

lemma get_operation_after:
  assumes "op_inv db'" and "op_extends db db'" and "get_operation db oid = Inr x"
  obtains y r ls where "get_operation db' oid = Inr y" "op_record db r = Inr x" "op_record db' r = Inr y"
    "op_id r = oid" "op_events db' oid = op_events db oid @ ls"
proof -
  from assms(3) obtain r where r: "op_identity db oid = Inr r" "op_record db r = Inr x"
    by (auto simp: get_operation_def elim!: bindE_InrE)
  note r' = op_extends_identity [OF assms(2) r(1)]
  from op_identity_Inr [OF r'] have m: "r \<in> set (db_operations db')" "op_id r = oid" by auto
  obtain y where y: "op_record db' r = Inr y" by (rule op_record_exists [OF assms(1) m(1)])
  obtain ls where "op_events db' oid = op_events db oid @ ls" using op_extends_events [OF assms(2)] by blast
  then show ?thesis using that [OF _ r(2) y m(2)] y r' by (simp add: get_operation_def)
qed

lemma final_record:
  assumes "derive (op_events db oid) = Inr s" "final_state s" "journal_ok (op_events db oid @ ls)"
  shows "ls = []"
proof -
  from assms(3) obtain t where "derive (op_events db oid @ ls) = Inr t" unfolding journal_ok_def by blast
  then show ?thesis
    using derive_types_final [of "map ov_event_type (op_events db oid)" s "map ov_event_type ls" t]
      assms(1,2) by (simp add: derive_def)
qed

subsection \<open>Properties\<close>

text \<open>
  C16. The derivation of an operation's state refines the lifecycle relation \<open>op_step\<close>: a history
  is accepted, with the state the code computes, exactly when it starts with PREPARED and the
  remaining events are a path of the relation; the accepted histories are the seven of
  \<open>op_histories\<close>.
\<close>

theorem derive_refines_lifecycle:
  "(derive es = Inr s \<longleftrightarrow>
      (\<exists>rest. map ov_event_type es = PREPARED # rest \<and> op_path op_start rest s))
   \<and> (derive es = Inr s \<longleftrightarrow> (map ov_event_type es, s) \<in> set op_histories)"
  using derive_types_iff [of "map ov_event_type es" s] derive_types_table [of "map ov_event_type es" s]
  unfolding derive_def by (intro conjI) assumption+

lemma histories_count:
  "list_all (\<lambda>(ks, s). length (filter (\<lambda>k. k = EXECUTION_CLAIMED) ks) \<le> 1
     \<and> length (filter (\<lambda>k. k \<in> {SUCCEEDED, FAILED, UNKNOWN}) ks) \<le> 1) op_histories"
  by code_simp

text \<open>
  Execute once: in every reachable profile the history of each prepared operation is one of
  the seven, so it holds at most one execution claim and at most one recorded outcome; and no
  event belongs to an operation that was not prepared.
\<close>

theorem reachable_execute_once:
  assumes "op_reachable sha db"
  shows "(\<forall>r \<in> set (db_operations db).
        (\<exists>s. (map ov_event_type (op_events db (op_id r)), s) \<in> set op_histories)
        \<and> length (filter (\<lambda>e. ov_event_type e = EXECUTION_CLAIMED) (op_events db (op_id r))) \<le> 1
        \<and> length (filter (\<lambda>e. ov_event_type e \<in> {SUCCEEDED, FAILED, UNKNOWN})
            (op_events db (op_id r))) \<le> 1)
     \<and> (\<forall>e \<in> set (db_op_events db). ov_operation_id e \<in> op_id ` set (db_operations db))"
proof -
  have inv: "op_inv db" by (rule op_reachable_inv [OF assms])
  have "(\<exists>s. (map ov_event_type (op_events db (op_id r)), s) \<in> set op_histories)
        \<and> length (filter (\<lambda>e. ov_event_type e = EXECUTION_CLAIMED) (op_events db (op_id r))) \<le> 1
        \<and> length (filter (\<lambda>e. ov_event_type e \<in> {SUCCEEDED, FAILED, UNKNOWN})
            (op_events db (op_id r))) \<le> 1" if "r \<in> set (db_operations db)" for r
  proof -
    from inv that obtain s where s: "(map ov_event_type (op_events db (op_id r)), s) \<in> set op_histories"
      unfolding op_inv_but_def journal_ok_def derive_table by blast
    with histories_count have
      "length (filter (\<lambda>k. k = EXECUTION_CLAIMED) (map ov_event_type (op_events db (op_id r)))) \<le> 1
        \<and> length (filter (\<lambda>k. k \<in> {SUCCEEDED, FAILED, UNKNOWN}) (map ov_event_type (op_events db (op_id r)))) \<le> 1"
      unfolding list_all_iff by fast
    with s show ?thesis by (simp add: filter_map comp_def del: split_paired_Ex) blast
  qed
  moreover have "\<forall>e \<in> set (db_op_events db). ov_operation_id e \<in> op_id ` set (db_operations db)"
    using inv by (auto simp: op_inv_but_def op_tables_ok_def)
  ultimately show ?thesis by blast
qed

text \<open>What a successful claim checked and wrote.\<close>

lemma claim_execution_Inr:
  assumes "claim_execution sha oid intent approval ev tr el db = Inr (x, db')"
  obtains t op where "op_text ev ''claim_evidence_ref'' = Inr t" "get_operation db oid = Inr op"
    "op_approval sha intent approval = Inr ()"
    "op_intent_fingerprint op = intent_fingerprint sha intent"
    "op_approval_id op = ab_approval_id approval" "op_approval_source_ref op = ab_source_ref approval"
    "op_gates op intent tr el = Inr ()" "or_recorded_state op = ST_PREPARED"
    "append_op_event oid EXECUTION_CLAIMED (Some t) None None db = Inr db'"
    "get_operation db' oid = Inr x"
  using assms unfolding claim_execution_def by (elim bindE_InrE) (auto simp: guardE_eq_Inr)

lemma claimed_not_prepared:
  assumes "op_inv db" and "claim_execution sha oid intent approval ev tr el db = Inr (x, db')"
    and "op_inv db2" and "op_extends db' db2"
    and "get_operation db2 oid = Inr y"
  shows "or_recorded_state y \<noteq> ST_PREPARED"
proof -
  from claim_execution_Inr [OF assms(2)] obtain t where
    app: "append_op_event oid EXECUTION_CLAIMED (Some t) None None db = Inr db'" by metis
  obtain e where e: "e \<in> set (op_events db' oid)" "ov_event_type e = EXECUTION_CLAIMED"
    by (rule append_op_event_Inr [OF app]) (auto simp: op_events_def)
  obtain ls where "op_events db2 oid = op_events db' oid @ ls" using op_extends_events [OF assms(4)] by blast
  with e have mem: "EXECUTION_CLAIMED \<in> set (map ov_event_type (op_events db2 oid))" by force
  from get_operation_Inr [OF assms(5)] have "derive (op_events db2 oid) = Inr (or_recorded_state y,
     or_effective_outcome y, or_attempt_count y, or_reconciled y)" by metis
  with mem show ?thesis unfolding derive_table op_histories_def by (auto simp: op_start_def)
qed

text \<open>
  C13. A claim is never given twice: once an operation has been claimed, then whatever commands
  run in between, every later claim of it fails, and repeating the very same claim fails with
  DuplicateExecutionError.
\<close>

theorem second_claim_refused:
  assumes "op_reachable sha db"
    and "claim_execution sha oid intent approval ev tr el db = Inr (x, db1)"
    and "db2 = run_cmds (exec_op sha) cs db1"
  shows "(\<forall>intent' approval' ev' tr' el' y db3.
        claim_execution sha oid intent' approval' ev' tr' el' db2 \<noteq> Inr (y, db3))
    \<and> (\<exists>m. claim_execution sha oid intent approval ev tr el db2 = Inl (Raise DuplicateExecutionError m))"
proof -
  have inv: "op_inv db" by (rule op_reachable_inv [OF assms(1)])
  note i1 = claim_execution_inv [OF assms(2) inv]
  have inv2: "op_inv db2" and ext: "op_extends db1 db2"
    using op_machine.run_inv run_op_extends i1 by (auto simp: assms(3))
  note not = claimed_not_prepared [OF inv assms(2) inv2 ext]
  have "claim_execution sha oid intent' approval' ev' tr' el' db2 \<noteq> Inr (y, db3)"
    for intent' approval' ev' tr' el' y db3
    using not by (auto elim!: claim_execution_Inr)
  moreover have "\<exists>m. claim_execution sha oid intent approval ev tr el db2 = Inl (Raise DuplicateExecutionError m)"
  proof -
    from claim_execution_Inr [OF assms(2)] obtain t op where c:
      "op_text ev ''claim_evidence_ref'' = Inr t" "get_operation db oid = Inr op"
      "op_approval sha intent approval = Inr ()"
      "op_intent_fingerprint op = intent_fingerprint sha intent"
      "op_approval_id op = ab_approval_id approval" "op_approval_source_ref op = ab_source_ref approval"
      "op_gates op intent tr el = Inr ()" by metis
    have ext2: "op_extends db db2" using i1 ext op_extends_trans by blast
    from get_operation_after [OF inv2 ext2 c(2)] obtain y r where
      y: "get_operation db2 oid = Inr y" "op_record db r = Inr op" "op_record db2 r = Inr y" by metis
    note same = op_record_same [OF y(2,3)]
    have "op_gates y intent tr el = Inr ()" using c(7) op_gates_same [OF y(2,3)] by simp
    then show ?thesis using not [OF y(1)] c same by (simp add: claim_execution_def y(1) guardE_def)
  qed
  ultimately show ?thesis by blast
qed

text \<open>
  C14. A claim needs the exact authority: if it succeeds, the approval is valid for the current
  intent, both are the ones the operation was prepared with, a local operation carries no gate,
  and an outbound one carries an allowing transport decision for the prepared route and an
  allowing eligibility decision for the prepared job, route, subject and capability, neither of
  which grants authority; the operation is then executing, at its first attempt.
\<close>

theorem claim_needs_exact_authority:
  assumes "op_reachable sha db"
    and "claim_execution sha oid intent approval ev tr el db = Inr (x, db')"
  shows "av_status (validate_approval sha intent approval) = VALID
    \<and> (op_intent_fingerprint x, op_approval_id x, op_approval_source_ref x)
        = (intent_fingerprint sha intent, ab_approval_id approval, ab_source_ref approval)
    \<and> (if ai_destination intent = None
       then op_transport_route_id x = None \<and> tr = None \<and> el = None
       else \<exists>t d. tr = Some t \<and> el = Some d
          \<and> td_status t = TRANSPORT_ALLOW \<and> op_transport_route_id x = Some (td_route_id t)
          \<and> \<not> td_action_authority_granted t
          \<and> ed_status d = ELIGIBLE_ALLOW \<and> ed_job_id d = ai_job_id intent
          \<and> op_transport_route_id x = Some (ed_route_id d)
          \<and> op_eligibility_subject_id x = Some (ed_subject_id d)
          \<and> op_eligibility_capability x = Some (ed_capability d)
          \<and> \<not> ed_action_authority_granted d)
    \<and> or_recorded_state x = ST_EXECUTING \<and> or_attempt_count x = 1"
proof -
  have inv: "op_inv db" by (rule op_reachable_inv [OF assms(1)])
  note i = claim_execution_inv [OF assms(2) inv]
  from claim_execution_Inr [OF assms(2)] obtain t op where c:
    "get_operation db oid = Inr op" "op_approval sha intent approval = Inr ()"
    "op_intent_fingerprint op = intent_fingerprint sha intent"
    "op_approval_id op = ab_approval_id approval" "op_approval_source_ref op = ab_source_ref approval"
    "op_gates op intent tr el = Inr ()" "or_recorded_state op = ST_PREPARED"
    "append_op_event oid EXECUTION_CLAIMED (Some t) None None db = Inr db'"
    "get_operation db' oid = Inr x" by metis
  obtain r where r: "op_record db r = Inr op" "op_record db' r = Inr x"
    by (rule get_operation_after [OF _ _ c(1), of db']) (use i c(9) in auto)
  note same = op_record_same [OF r]
  from get_operation_Inr [OF c(1)] c(7) have "derive (op_events db oid) = Inr (ST_PREPARED,
      or_effective_outcome op, or_attempt_count op, or_reconciled op)" by metis
  then have "map ov_event_type (op_events db oid) = [PREPARED]"
    unfolding derive_table op_histories_def by (auto simp: op_start_def)
  then have ev': "map ov_event_type (op_events db' oid) = [PREPARED, EXECUTION_CLAIMED]"
    by (rule_tac append_op_event_Inr [OF c(8)]) (simp add: op_events_def)
  from get_operation_Inr [OF c(9)] have "derive (op_events db' oid) = Inr (or_recorded_state x,
      or_effective_outcome x, or_attempt_count x, or_reconciled x)" by metis
  then have st: "or_recorded_state x = ST_EXECUTING \<and> or_attempt_count x = 1"
    unfolding derive_table ev' op_histories_def by simp
  have "av_status (validate_approval sha intent approval) = VALID"
    using c(2) by (simp add: op_approval_def guardE_eq_Inr)
  moreover have "if ai_destination intent = None
       then op_transport_route_id x = None \<and> tr = None \<and> el = None
       else \<exists>t d. tr = Some t \<and> el = Some d
          \<and> td_status t = TRANSPORT_ALLOW \<and> op_transport_route_id x = Some (td_route_id t)
          \<and> \<not> td_action_authority_granted t
          \<and> ed_status d = ELIGIBLE_ALLOW \<and> ed_job_id d = ai_job_id intent
          \<and> op_transport_route_id x = Some (ed_route_id d)
          \<and> op_eligibility_subject_id x = Some (ed_subject_id d)
          \<and> op_eligibility_capability x = Some (ed_capability d)
          \<and> \<not> ed_action_authority_granted d"
    using c(6) same unfolding op_gates_def
    by (auto simp: guardE_eq_Inr split: if_splits option.splits elim!: bindE_InrE)
  ultimately show ?thesis using st same c(3-5) by simp
qed

lemma unique_key:
  "distinct (map f xs) \<Longrightarrow> x \<in> set xs \<Longrightarrow> y \<in> set xs \<Longrightarrow> f x = f y \<Longrightarrow> x = y"
  by (metis distinct_map inj_onD)

lemma by_key_row:
  assumes "op_inv db" and "r \<in> set (db_operations db)" and "op_idempotency_key r = k"
    and "op_text k f = Inr k"
  obtains y where "op_record db r = Inr y" "by_idempotency_key db k = Inr (Some y)"
proof -
  obtain y where y: "op_record db r = Inr y" by (rule op_record_exists [OF assms(1,2)])
  obtain q where q: "find (\<lambda>r. op_idempotency_key r = k) (db_operations db) = Some q"
    using assms(2,3) by (cases "find (\<lambda>r. op_idempotency_key r = k) (db_operations db)")
      (auto simp: find_None_iff)
  then have "q \<in> set (db_operations db)" "op_idempotency_key q = k"
    by (auto simp: find_Some_iff in_set_conv_nth)
  moreover have "distinct (map op_idempotency_key (db_operations db))"
    using assms(1) by (simp add: op_inv_but_def op_tables_ok_def)
  ultimately have "q = r" using unique_key assms(2,3) by metis
  then have "by_idempotency_key db k = Inr (Some y)"
    using assms(4) q y by (simp add: by_idempotency_key_def op_text_def require_text_def Let_def split: if_splits)
  with y that show ?thesis by blast
qed

lemma by_key_Some:
  assumes "by_idempotency_key db k = Inr (Some x)"
  obtains r where "r \<in> set (db_operations db)" "op_idempotency_key r = strip k" "op_record db r = Inr x"
  using assms
  by (auto simp: by_idempotency_key_def op_text_def res_simps find_Some_iff in_set_conv_nth
      split: option.splits elim!: bindE_InrE)

lemma op_text_idem: "op_text v f = Inr t \<Longrightarrow> op_text t g = Inr t \<and> strip t = t"
  by (auto simp: op_text_def res_simps)

text \<open>The row a preparation leaves behind.\<close>

lemma prepare_row:
  assumes "prepare sha key intent approval song version route subject cap db = Inr (x, db')"
    and "op_inv db" and "trimmed (ab_source_ref approval)"
  obtains k s v r sb c r0 rw where
    "op_text key ''idempotency_key'' = Inr k" "op_approval sha intent approval = Inr ()"
    "song_version db song version = Inr (s, v)"
    "execution_identity intent route subject cap = Inr (r, sb, c)"
    "rw = \<lparr>op_id = fst (new_id ''op'' db), op_idempotency_key = k,
       op_intent_fingerprint = intent_fingerprint sha intent,
       op_approval_id = ab_approval_id approval, op_approval_source_ref = ab_source_ref approval,
       op_song_id = s, op_version_id = v, op_transport_route_id = r,
       op_eligibility_subject_id = sb, op_eligibility_capability = c\<rparr>"
    "r0 \<in> set (db_operations db')" "op_idempotency_key r0 = k" "op_record db' r0 = Inr x"
    "same_operation rw x"
  using prepare_Inr [OF assms(1)]
proof cases
  case (1 k s v r sb c rw)
  note inv' = prepare_inv [OF assms]
  show ?thesis
  proof (cases "\<exists>db1. insert_operation rw (snd (new_id ''op'' db)) = Inr db1
        \<and> append_op_event (op_id rw) PREPARED (Some (ab_source_ref approval)) None None db1 = Inr db'
        \<and> get_operation db' (op_id rw) = Inr x")
    case False
    with 1(6) have ex: "by_idempotency_key db k = Inr (Some x)" "same_operation rw x" "db' = db" by blast+
    from by_key_Some [OF ex(1)] op_text_idem [OF 1(1)] obtain r0 where
      "r0 \<in> set (db_operations db)" "op_idempotency_key r0 = k" "op_record db r0 = Inr x" by metis
    with 1 ex show ?thesis by (intro that [of k s v r sb c rw r0]) simp_all
  next
    case True
    then obtain db1 where ins: "insert_operation rw (snd (new_id ''op'' db)) = Inr db1"
      and app: "append_op_event (op_id rw) PREPARED (Some (ab_source_ref approval)) None None db1 = Inr db'"
      and get: "get_operation db' (op_id rw) = Inr x" by blast
    have "rw \<in> set (db_operations db1)" using insert_operation_Inr(1) [OF ins] by simp
    then have mem: "rw \<in> set (db_operations db')"
      by (rule_tac append_op_event_Inr [OF app]) simp
    from get obtain r0 where r0: "op_identity db' (op_id rw) = Inr r0" "op_record db' r0 = Inr x"
      by (auto simp: get_operation_def elim!: bindE_InrE)
    from op_identity_Inr [OF r0(1)] have "r0 \<in> set (db_operations db')" "op_id r0 = op_id rw" by auto
    moreover have "distinct (map op_id (db_operations db'))"
      using inv' by (simp add: op_inv_but_def op_tables_ok_def)
    ultimately have "r0 = rw" using unique_key mem by metis
    moreover obtain y where "op_record db' rw = Inr y" "same_operation rw y"
      by (rule op_record_exists [OF _ mem]) (use inv' in blast)+
    ultimately show ?thesis using 1 mem r0 by (intro that [of k s v r sb c rw rw]) simp_all
  qed
qed

lemma song_version_later:
  assumes "song_version db s v = Inr (s', v')" and "lineage_inv db" and "op_extends db db'"
  shows "song_version db' s v = Inr (s, v)"
proof -
  note ok = song_version_ok [OF assms(1,2)]
  have song: "\<exists>q. get_song db' sid = Some q \<and> so_id q = sid" if "s = Some sid" for sid
  proof -
    have "sid \<in> set (map so_id (db_songs db))" using ok that by simp
    then have "sid \<in> set (map so_id (db_songs db'))"
      using assms(3) set_mono_prefix unfolding op_extends_def by blast
    then have "get_song db' sid \<noteq> None" by simp
    then show ?thesis using get_song_Some by blast
  qed
  have ver: "get_version db' vid = Some w" if "get_version db vid = Some w" for vid w
    using that assms(3) by (auto simp: get_version_def op_extends_def prefix_def find_append_Some)
  show ?thesis
  proof (cases s)
    case None
    then show ?thesis using ok assms(1) by (cases v) (auto simp: song_version_def)
  next
    case (Some sid)
    obtain q where q: "get_song db' sid = Some q" "so_id q = sid" using song [OF Some] by blast
    show ?thesis
    proof (cases v)
      case None
      with Some q show ?thesis by (simp add: song_version_def)
    next
      case Some2: (Some vid)
      from assms(1) Some Some2 obtain w where "get_version db vid = Some w" "ve_song_id w = sid"
        by (auto simp: song_version_def split: option.splits if_splits dest!: get_song_Some)
      with ver get_version_Some [of db vid w] Some Some2 q show ?thesis by (simp add: song_version_def)
    qed
  qed
qed

text \<open>A key that names an operation is bound to its intent: \<open>prepare\<close> returns no other.\<close>

lemma prepare_bound_key:
  assumes "prepare sha key intent approval song version route subject cap db = Inr (x, db')"
    and "op_text key ''idempotency_key'' = Inr k" and "by_idempotency_key db k = Inr (Some y)"
  shows "op_intent_fingerprint y = intent_fingerprint sha intent"
  using assms(1)
proof (rule prepare_Inr)
  fix k' s v r sb c rw
  assume a: "op_text key ''idempotency_key'' = Inr k'"
    "rw = \<lparr>op_id = fst (new_id ''op'' db), op_idempotency_key = k',
       op_intent_fingerprint = intent_fingerprint sha intent,
       op_approval_id = ab_approval_id approval, op_approval_source_ref = ab_source_ref approval,
       op_song_id = s, op_version_id = v, op_transport_route_id = r,
       op_eligibility_subject_id = sb, op_eligibility_capability = c\<rparr>"
    "by_idempotency_key db k' = Inr (Some x) \<and> same_operation rw x \<and> db' = db \<or>
     (\<exists>dbx. by_idempotency_key db k' = Inr None \<and> insert_operation rw (snd (new_id ''op'' db)) = Inr dbx
        \<and> append_op_event (op_id rw) PREPARED (Some (ab_source_ref approval)) None None dbx = Inr db'
        \<and> get_operation db' (op_id rw) = Inr x)"
  from a(1) assms(2) have "k' = k" by simp
  with a(3) assms(3) have "x = y" "same_operation rw x" by auto
  then show ?thesis using a(2) by (simp add: same_operation_def)
qed

text \<open>
  C15. Preparing is idempotent: once a key is prepared, then whatever commands run in between,
  preparing it again with the same intent, approval and identities returns the same operation and
  changes nothing, and preparing it for an intent with another fingerprint fails.
\<close>

theorem prepare_idempotent:
  assumes "op_reachable sha db" and "make_approval_binding aid fp src = Inr approval"
    and "prepare sha key intent approval song version route subject cap db = Inr (x, db1)"
    and "db2 = run_cmds (exec_op sha) cs db1"
  shows "(\<exists>y. prepare sha key intent approval song version route subject cap db2 = Inr (y, db2)
            \<and> op_id y = op_id x)
    \<and> (\<forall>intent' approval' song' version' route' subject' cap' y db3.
        intent_fingerprint sha intent' \<noteq> intent_fingerprint sha intent \<longrightarrow>
        prepare sha key intent' approval' song' version' route' subject' cap' db2 \<noteq> Inr (y, db3))"
proof -
  have inv: "op_inv db" by (rule op_reachable_inv [OF assms(1)])
  have tr: "trimmed (ab_source_ref approval)" using make_approval_binding_ok [OF assms(2)] by simp
  note i1 = prepare_inv [OF assms(3) inv tr]
  have inv2: "op_inv db2" and ext: "op_extends db1 db2"
    using op_machine.run_inv run_op_extends i1 by (auto simp: assms(4))
  show ?thesis
    using prepare_row [OF assms(3) inv tr]
  proof cases
    case (1 k s v r sb c r0 rw)
    have "r0 \<in> set (db_operations db2)"
      using 1(6) ext set_mono_prefix unfolding op_extends_def by blast
    then obtain y where y: "op_record db2 r0 = Inr y" "by_idempotency_key db2 k = Inr (Some y)"
      by (rule by_key_row [OF inv2 _ 1(7)]) (use op_text_idem [OF 1(1)] in blast)+
    note same = op_record_same [OF 1(8) y(1)]
    have linv: "lineage_inv db" using inv by (simp add: op_inv_but_def)
    note sv = song_version_ok [OF 1(3) linv]
    have sv2: "song_version db2 song version = Inr (s, v)"
      using song_version_later [OF 1(3) linv] sv i1 ext op_extends_trans by blast
    obtain oid dbi where id: "new_id ''op'' db2 = (oid, dbi)" by (cases "new_id ''op'' db2") auto
    have "same_operation rw y" using same 1(9) by blast
    then have "same_operation (rw\<lparr>op_id := oid\<rparr>) y" by (simp add: same_operation_def)
    then have "prepare sha key intent approval song version route subject cap db2 = Inr (y, db2)"
      by (simp add: prepare_def 1(1,2,4) sv2 y(2) id Let_def 1(5))
    moreover have "op_intent_fingerprint y = intent_fingerprint sha intent"
      using same 1(5,9) by (simp add: same_operation_def)
    then have "prepare sha key intent' approval' song' version' route' subject' cap' db2 \<noteq> Inr (z, db3)"
      if "intent_fingerprint sha intent' \<noteq> intent_fingerprint sha intent"
      for intent' approval' song' version' route' subject' cap' z db3
      using prepare_bound_key [OF _ 1(1) y(2)] that by metis
    ultimately show ?thesis using same by blast
  qed
qed

text \<open>
  Outcomes are final: once an operation has succeeded, failed or been reconciled, its record
  never changes again, whatever commands run.
\<close>

theorem outcome_is_final:
  assumes "op_reachable sha db" and "get_operation db oid = Inr x"
    and "or_recorded_state x = ST_SUCCEEDED \<or> or_recorded_state x = ST_FAILED \<or> or_reconciled x"
  shows "get_operation (run_cmds (exec_op sha) cs db) oid = Inr x"
proof -
  let ?db = "run_cmds (exec_op sha) cs db"
  have inv: "op_inv db" by (rule op_reachable_inv [OF assms(1)])
  have inv2: "op_inv ?db" and ext: "op_extends db ?db"
    using op_machine.run_inv run_op_extends inv by blast+
  from get_operation_after [OF inv2 ext assms(2)] obtain y r ls where
    y: "get_operation ?db oid = Inr y" "op_record db r = Inr x" "op_record ?db r = Inr y"
      "op_id r = oid" "op_events ?db oid = op_events db oid @ ls" by metis
  from get_operation_Inr [OF assms(2)] have d: "derive (op_events db oid) = Inr (or_recorded_state x,
     or_effective_outcome x, or_attempt_count x, or_reconciled x)" by metis
  then have "final_state (or_recorded_state x, or_effective_outcome x, or_attempt_count x, or_reconciled x)"
    using assms(3) unfolding derive_table op_histories_def final_state_def by (auto simp: op_start_def)
  moreover have "journal_ok (op_events db oid @ ls)" using record_ok [OF inv2 y(1)] y(5) by simp
  ultimately have "ls = []" using final_record [OF d] by blast
  then have "op_record ?db r = op_record db r" using y(4,5) by (intro op_record_cong) simp
  with y show ?thesis by simp
qed

lemma version_in_song_get:
  assumes "distinct (map ve_id (db_versions db))" and "version_in_song db vid s"
  shows "\<exists>w. get_version db vid = Some w \<and> ve_song_id w = s"
proof -
  from assms(2) obtain w where w: "w \<in> set (db_versions db)" "ve_id w = vid" "ve_song_id w = s"
    by (auto simp: version_in_song_iff)
  then obtain u where u: "get_version db vid = Some u" using get_version_None [of db vid] by blast
  then have "u = w" using get_version_Some [OF u] unique_key [OF assms(1)] w by metis
  with u w show ?thesis by blast
qed

lemma op_row_references:
  assumes "distinct (map ve_id (db_versions db))" and "op_row_ok db r"
  shows "pred_option (\<lambda>s. get_song db s \<noteq> None) (op_song_id r)
    \<and> pred_option (\<lambda>v. case (get_version db v, op_song_id r) of
          (Some w, Some s) \<Rightarrow> ve_song_id w = s | _ \<Rightarrow> False) (op_version_id r)
    \<and> list_all (pred_option (\<lambda>x. \<not> sql_blank x))
        [op_transport_route_id r, op_eligibility_subject_id r, op_eligibility_capability r]"
proof -
  have "case (get_version db vid, op_song_id r) of (Some w, Some s) \<Rightarrow> ve_song_id w = s | _ \<Rightarrow> False"
    if "op_version_id r = Some vid" for vid
  proof -
    from assms(2) that obtain s where s: "op_song_id r = Some s" "version_in_song db vid s"
      unfolding op_row_ok_def by blast
    with version_in_song_get [OF assms(1) s(2)] show ?thesis by auto
  qed
  then show ?thesis using assms(2) unfolding op_row_ok_def option.pred_set by auto
qed

text \<open>
  Every reachable journal re-opens: \<open>_validate_existing\<close> accepts the identities, the event
  sequence and the evidence of every operation.
\<close>

theorem reachable_journal_validates:
  assumes "op_reachable sha db"
  shows "validate_operations db = Inr ()"
proof -
  have inv: "op_inv db" by (rule op_reachable_inv [OF assms])
  then have rows: "list_all (op_row_ok db) (db_operations db)"
    and ver: "distinct (map ve_id (db_versions db))"
    by (simp_all add: op_inv_but_def op_tables_ok_def lineage_inv_def core_ok_def versions_ok_def)
  have "list_all (\<lambda>r.
          pred_option (\<lambda>s. get_song db s \<noteq> None) (op_song_id r)
          \<and> pred_option (\<lambda>v. case (get_version db v, op_song_id r) of
                (Some w, Some s) \<Rightarrow> ve_song_id w = s | _ \<Rightarrow> False) (op_version_id r)
          \<and> list_all (pred_option (\<lambda>x. \<not> sql_blank x))
              [op_transport_route_id r, op_eligibility_subject_id r, op_eligibility_capability r])
          (db_operations db)"
    by (rule list.pred_mono_strong [OF rows]) (rule op_row_references [OF ver])
  moreover have "(let events = op_events db oid in bindE (derive events) (\<lambda>_. validate_evidence events))
      = Inr ()" if "oid \<in> op_id ` set (db_operations db)" for oid
  proof -
    have "journal_ok (op_events db oid)" using inv that by (auto simp: op_inv_but_def)
    then obtain s where "derive (op_events db oid) = Inr s" "validate_evidence (op_events db oid) = Inr ()"
      unfolding journal_ok_def by blast
    then show ?thesis by (simp add: Let_def)
  qed
  then have "mapE (\<lambda>oid. let events = op_events db oid in bindE (derive events) (\<lambda>_. validate_evidence events))
       (sort (map op_id (db_operations db))) = Inr (map (\<lambda>_. ()) (sort (map op_id (db_operations db))))"
    by (intro mapE_total) auto
  ultimately show ?thesis unfolding validate_operations_def by (simp add: guardE_def)
qed

subsection \<open>A concrete journal\<close>

definition demo_digest :: "string \<Rightarrow> string" where
  "demo_digest s = ''h''"

definition demo_approval :: "string \<times> string \<times> string" where
  "demo_approval = (''ap'', intent_fingerprint demo_digest demo_intent, ''artist'')"

definition demo_binding :: approval_binding where
  "demo_binding = \<lparr>ab_approval_id = ''ap'',
     ab_intent_fingerprint = intent_fingerprint demo_digest demo_intent, ab_source_ref = ''artist''\<rparr>"

definition demo_transport :: transport_decision where
  "demo_transport = evaluate_route CONNECTED \<lparr>nr_route_id = ''rt'', nr_kind = INTERNET,
     nr_description = ''d'', nr_lan_approval_ref = None\<rparr>"

definition demo_decision :: eligibility_decision where
  "demo_decision = \<lparr>ed_status = ELIGIBLE_ALLOW, ed_job_id = ''j'', ed_route_id = ''rt'',
     ed_subject_id = ''sb'', ed_capability = ''cp'', ed_evidence_fingerprint = ''f'',
     ed_evidence_ref = ''e'', ed_reason_codes = [''OK''], ed_action_authority_granted = False\<rparr>"

definition demo_prepare :: op_cmd where
  "demo_prepare = Op_Prepare ''k'' demo_intent demo_approval None None (Some ''rt'') (Some ''sb'') (Some ''cp'')"

definition demo_empty :: operations_db where
  "demo_empty = install_operations demo_profile"

definition demo_prepared :: operations_db where
  "demo_prepared = run_cmds (exec_op demo_digest) [demo_prepare] demo_empty"

definition demo_done :: operations_db where
  "demo_done = run_cmds (exec_op demo_digest)
     [demo_prepare,
      Op_Claim ''op_aaaa'' demo_intent demo_approval ''ev'' (Some demo_transport) (Some demo_decision),
      Op_Success ''op_aaaa'' ''rc'' ''ev'' ''fp''] demo_empty"

lemma demo_reachable:
  "op_reachable demo_digest demo_empty" "op_reachable demo_digest demo_prepared" "op_reachable demo_digest demo_done"
  unfolding op_reachable_def demo_prepared_def demo_done_def demo_empty_def
  using demo_profile_created run_cmds.simps(1) by metis+

lemma isl_Inr: "\<not> isl r \<Longrightarrow> \<exists>x. r = Inr x"
  by (cases r) auto

definition demo_done_check :: "operations_db \<Rightarrow> bool" where
  "demo_done_check db \<longleftrightarrow> length (db_operations db) = 1 \<and> length (db_op_events db) = 3
     \<and> (case get_operation db ''op_aaaa'' of Inl _ \<Rightarrow> False | Inr x \<Rightarrow> or_recorded_state x = ST_SUCCEEDED)"

lemma demo_done_facts: "demo_done_check demo_done"
  by code_simp

theorem reachable_execute_once_witness:
  "length (db_op_events demo_done) = 3
   \<and> ov_operation_id (hd (db_op_events demo_done)) \<in> op_id ` set (db_operations demo_done)"
proof
  show len: "length (db_op_events demo_done) = 3" using demo_done_facts by (simp add: demo_done_check_def)
  then have "hd (db_op_events demo_done) \<in> set (db_op_events demo_done)" by (intro hd_in_set) auto
  then show "ov_operation_id (hd (db_op_events demo_done)) \<in> op_id ` set (db_operations demo_done)"
    using reachable_execute_once [OF demo_reachable(3)] by blast
qed

lemma demo_claim:
  "\<exists>x db. claim_execution demo_digest ''op_aaaa'' demo_intent demo_binding ''ev'' (Some demo_transport)
     (Some demo_decision) demo_prepared = Inr (x, db)"
proof -
  have "\<not> isl (claim_execution demo_digest ''op_aaaa'' demo_intent demo_binding ''ev'' (Some demo_transport)
     (Some demo_decision) demo_prepared)" by code_simp
  from isl_Inr [OF this] show ?thesis by auto
qed

theorem second_claim_refused_witness:
  "\<exists>x db m. claim_execution demo_digest ''op_aaaa'' demo_intent demo_binding ''ev'' (Some demo_transport)
       (Some demo_decision) demo_prepared = Inr (x, db)
     \<and> claim_execution demo_digest ''op_aaaa'' demo_intent demo_binding ''ev'' (Some demo_transport)
       (Some demo_decision) db = Inl (Raise DuplicateExecutionError m)"
proof -
  obtain x db where c: "claim_execution demo_digest ''op_aaaa'' demo_intent demo_binding ''ev''
     (Some demo_transport) (Some demo_decision) demo_prepared = Inr (x, db)" using demo_claim by blast
  have "db = run_cmds (exec_op demo_digest) [] db" by simp
  from second_claim_refused [OF demo_reachable(2) c this] c show ?thesis by blast
qed

theorem claim_needs_exact_authority_witness:
  "\<exists>x db. claim_execution demo_digest ''op_aaaa'' demo_intent demo_binding ''ev'' (Some demo_transport)
       (Some demo_decision) demo_prepared = Inr (x, db) \<and> or_recorded_state x = ST_EXECUTING"
  using demo_claim claim_needs_exact_authority [OF demo_reachable(2)] by metis

theorem prepare_idempotent_witness:
  "\<exists>x db y. prepare demo_digest ''k'' demo_intent demo_binding None None (Some ''rt'') (Some ''sb'')
       (Some ''cp'') demo_empty = Inr (x, db)
     \<and> prepare demo_digest ''k'' demo_intent demo_binding None None (Some ''rt'') (Some ''sb'')
       (Some ''cp'') db = Inr (y, db) \<and> op_id y = op_id x"
proof -
  have "\<not> isl (prepare demo_digest ''k'' demo_intent demo_binding None None (Some ''rt'') (Some ''sb'')
       (Some ''cp'') demo_empty)" by code_simp
  from isl_Inr [OF this] obtain x db where p: "prepare demo_digest ''k'' demo_intent demo_binding None None
      (Some ''rt'') (Some ''sb'') (Some ''cp'') demo_empty = Inr (x, db)" by auto
  have b: "make_approval_binding ''ap'' (intent_fingerprint demo_digest demo_intent) ''artist'' = Inr demo_binding"
    by code_simp
  have "db = run_cmds (exec_op demo_digest) [] db" by simp
  from prepare_idempotent [OF demo_reachable(1) b p this] p show ?thesis by blast
qed

theorem outcome_is_final_witness:
  "\<exists>x. get_operation demo_done ''op_aaaa'' = Inr x
     \<and> get_operation (run_cmds (exec_op demo_digest) [Op_Failure ''op_aaaa'' ''ev'' None None] demo_done)
         ''op_aaaa'' = Inr x"
proof -
  obtain x where x: "get_operation demo_done ''op_aaaa'' = Inr x" "or_recorded_state x = ST_SUCCEEDED"
    using demo_done_facts by (auto simp: demo_done_check_def split: sum.splits)
  then show ?thesis using outcome_is_final [OF demo_reachable(3) x(1)] by blast
qed

theorem reachable_journal_validates_witness:
  "length (db_operations demo_done) = 1 \<and> validate_operations demo_done = Inr ()"
proof
  show "length (db_operations demo_done) = 1" using demo_done_facts by (simp add: demo_done_check_def)
  show "validate_operations demo_done = Inr ()" by (rule reachable_journal_validates [OF demo_reachable(3)])
qed

end
