(* ===== verification/Transactions.thy ===== *)
theory Transactions
  imports Operations_Facts
begin

text \<open>
  \<open>n0te/transactions.py\<close>: the coordinator that runs the steps of an already claimed operation
  through a driver, records each phase in the profile database before and after it acts, and
  compensates in reverse order when something fails. The record extends \<open>operations_db\<close> by the
  three tables. A driver acts on a world \<open>'w\<close>; each of its methods returns the arguments of the
  result it constructs, a value of another type, or raises an exception of a named class. Since
  every \<open>with store._tx()\<close> commits on its own, \<open>run\<close> keeps the database and the world it
  reached also when it raises.
\<close>

subsection \<open>Statefully failing steps\<close>

text \<open>A computation returns its result or exception together with the state it reached.\<close>

type_synonym ('s, 'a) run = "'s \<Rightarrow> 'a res \<times> 's"

definition retS :: "'a \<Rightarrow> ('s, 'a) run" where
  "retS x = (\<lambda>s. (Inr x, s))"

definition throwS :: "exc \<Rightarrow> ('s, 'a) run" where
  "throwS e = (\<lambda>s. (Inl e, s))"

definition bindS :: "('s, 'a) run \<Rightarrow> ('a \<Rightarrow> ('s, 'b) run) \<Rightarrow> ('s, 'b) run" where
  "bindS m f = (\<lambda>s. case m s of (Inl e, s') \<Rightarrow> (Inl e, s') | (Inr x, s') \<Rightarrow> f x s')"

definition liftS :: "'a res \<Rightarrow> ('s, 'a) run" where
  "liftS r = (\<lambda>s. (r, s))"

subsection \<open>Plans and results\<close>

datatype step_status = STEP_SUCCEEDED | STEP_FAILED | STEP_UNKNOWN
datatype change_state = APPLIED | NOT_APPLIED | CHANGE_UNKNOWN
datatype post_status = POST_SATISFIED | POST_FAILED | POST_UNKNOWN
datatype comp_status = COMP_RESTORED | COMP_FAILED | COMP_UNKNOWN
datatype tx_status = COMPLETE | COMPENSATED | RECOVERY_REQUIRED_STATUS | TX_UNKNOWN

definition STEP_EXECUTION_STATUSES :: "(string \<times> step_status) list" where
  "STEP_EXECUTION_STATUSES =
     [(''SUCCEEDED'', STEP_SUCCEEDED), (''FAILED'', STEP_FAILED), (''UNKNOWN'', STEP_UNKNOWN)]"

definition CHANGE_STATES :: "(string \<times> change_state) list" where
  "CHANGE_STATES =
     [(''APPLIED'', APPLIED), (''NOT_APPLIED'', NOT_APPLIED), (''UNKNOWN'', CHANGE_UNKNOWN)]"

definition POSTCONDITION_STATUSES :: "(string \<times> post_status) list" where
  "POSTCONDITION_STATUSES =
     [(''SATISFIED'', POST_SATISFIED), (''FAILED'', POST_FAILED), (''UNKNOWN'', POST_UNKNOWN)]"

definition COMPENSATION_STATUSES :: "(string \<times> comp_status) list" where
  "COMPENSATION_STATUSES =
     [(''RESTORED'', COMP_RESTORED), (''FAILED'', COMP_FAILED), (''UNKNOWN'', COMP_UNKNOWN)]"

fun step_status_name :: "step_status \<Rightarrow> string" where
  "step_status_name STEP_SUCCEEDED = ''SUCCEEDED''"
| "step_status_name STEP_FAILED = ''FAILED''"
| "step_status_name STEP_UNKNOWN = ''UNKNOWN''"

fun change_state_name :: "change_state \<Rightarrow> string" where
  "change_state_name APPLIED = ''APPLIED''"
| "change_state_name NOT_APPLIED = ''NOT_APPLIED''"
| "change_state_name CHANGE_UNKNOWN = ''UNKNOWN''"

fun post_status_name :: "post_status \<Rightarrow> string" where
  "post_status_name POST_SATISFIED = ''SATISFIED''"
| "post_status_name POST_FAILED = ''FAILED''"
| "post_status_name POST_UNKNOWN = ''UNKNOWN''"

fun comp_status_name :: "comp_status \<Rightarrow> string" where
  "comp_status_name COMP_RESTORED = ''RESTORED''"
| "comp_status_name COMP_FAILED = ''FAILED''"
| "comp_status_name COMP_UNKNOWN = ''UNKNOWN''"

definition tx_text :: "string \<Rightarrow> string \<Rightarrow> string res" where
  "tx_text value field = require_text TransactionError value field"

definition tx_optional_text :: "string option \<Rightarrow> string \<Rightarrow> string option res" where
  "tx_optional_text value field = optional_text TransactionError value field"

definition tx_enum :: "(string \<times> 'a) list \<Rightarrow> string \<Rightarrow> string \<Rightarrow> 'a res" where
  "tx_enum names value field =
     (case parse_enum names value of
        None \<Rightarrow> Inl (Raise TransactionError (''unsupported '' @ field @ '': '' @ norm_enum value))
      | Some x \<Rightarrow> Inr x)"

record tx_step =
  st_step_id :: string
  st_description :: string
  st_postcondition_ref :: string
  st_compensatable :: bool
  st_depends_on :: "string list"

definition make_step ::
  "string \<Rightarrow> string \<Rightarrow> string \<Rightarrow> bool \<Rightarrow> string list \<Rightarrow> tx_step res" where
  "make_step sid desc post cmp deps =
     bindE (tx_text sid ''step.step_id'') (\<lambda>sid.
     bindE (tx_text desc ''step.description'') (\<lambda>desc.
     bindE (tx_text post ''step.postcondition_ref'') (\<lambda>post.
     bindE (mapE (\<lambda>d. tx_text d ''step.depends_on_step_ids'') deps) (\<lambda>deps.
     bindE (guardE (distinct deps)
       (Raise TransactionError ''step dependencies must be unique'')) (\<lambda>_.
     bindE (guardE (sid \<notin> set deps)
       (Raise TransactionError ''step cannot depend on itself'')) (\<lambda>_.
       Inr \<lparr>st_step_id = sid, st_description = desc, st_postcondition_ref = post,
             st_compensatable = cmp, st_depends_on = deps\<rparr>))))))"

record tx_plan =
  pl_transaction_id :: string
  pl_operation_id :: string
  pl_steps :: "tx_step list"

text \<open>
  The loop over the steps with the set of the ids seen. The message's list of the missing ids is
  left out.
\<close>

fun check_dependencies :: "string list \<Rightarrow> tx_step list \<Rightarrow> unit res" where
  "check_dependencies seen [] = Inr ()"
| "check_dependencies seen (s # ss) =
     bindE (guardE (list_all (\<lambda>d. d \<in> set seen) (st_depends_on s))
       (Raise TransactionError (''step '' @ st_step_id s @ '' has unknown or forward dependencies''))) (\<lambda>_.
     check_dependencies (st_step_id s # seen) ss)"

definition make_plan :: "string \<Rightarrow> string \<Rightarrow> tx_step list \<Rightarrow> tx_plan res" where
  "make_plan tid oid steps =
     bindE (tx_text tid ''plan.transaction_id'') (\<lambda>tid.
     bindE (tx_text oid ''plan.operation_id'') (\<lambda>oid.
     bindE (guardE (steps \<noteq> [])
       (Raise TransactionError ''transaction plan requires at least one step'')) (\<lambda>_.
     bindE (guardE (distinct (map st_step_id steps))
       (Raise TransactionError ''transaction step IDs must be unique'')) (\<lambda>_.
     bindE (check_dependencies [] steps) (\<lambda>_.
       Inr \<lparr>pl_transaction_id = tid, pl_operation_id = oid, pl_steps = steps\<rparr>)))))"

definition step_json :: "tx_step \<Rightarrow> json" where
  "step_json s = JObj
     [(''step_id'', JStr (st_step_id s)),
      (''description'', JStr (st_description s)),
      (''postcondition_ref'', JStr (st_postcondition_ref s)),
      (''compensatable'', JBool (st_compensatable s)),
      (''depends_on_step_ids'', JList (map JStr (st_depends_on s)))]"

definition plan_json :: "tx_plan \<Rightarrow> json" where
  "plan_json p = JObj
     [(''transaction_id'', JStr (pl_transaction_id p)),
      (''operation_id'', JStr (pl_operation_id p)),
      (''steps'', JList (map step_json (pl_steps p)))]"

definition plan_fingerprint :: "(string \<Rightarrow> string) \<Rightarrow> tx_plan \<Rightarrow> string" where
  "plan_fingerprint sha p = sha (utf8_encode (dumps True (plan_json p)))"

record tx_snapshot =
  sn_transaction_id :: string
  sn_operation_id :: string
  sn_snapshot_ref :: string
  sn_snapshot_fingerprint :: string
  sn_evidence_ref :: string

fun make_snapshot :: "string \<times> string \<times> string \<times> string \<times> string \<Rightarrow> tx_snapshot res" where
  "make_snapshot (tid, oid, ref, fp, ev) =
     bindE (tx_text tid ''snapshot.transaction_id'') (\<lambda>tid.
     bindE (tx_text oid ''snapshot.operation_id'') (\<lambda>oid.
     bindE (tx_text ref ''snapshot.snapshot_ref'') (\<lambda>ref.
     bindE (tx_text fp ''snapshot.snapshot_fingerprint'') (\<lambda>fp.
     bindE (tx_text ev ''snapshot.evidence_ref'') (\<lambda>ev.
       Inr \<lparr>sn_transaction_id = tid, sn_operation_id = oid, sn_snapshot_ref = ref,
             sn_snapshot_fingerprint = fp, sn_evidence_ref = ev\<rparr>)))))"

record step_execution =
  ex_step_id :: string
  ex_status :: step_status
  ex_change_state :: change_state
  ex_evidence_ref :: string
  ex_result_fingerprint :: "string option"

fun make_execution ::
  "string \<times> string \<times> string \<times> string \<times> string option \<Rightarrow> step_execution res" where
  "make_execution (sid, status, change, ev, fp) =
     bindE (tx_text sid ''execution.step_id'') (\<lambda>sid.
     bindE (tx_enum STEP_EXECUTION_STATUSES status ''step execution status'') (\<lambda>status.
     bindE (tx_enum CHANGE_STATES change ''step change state'') (\<lambda>change.
     bindE (tx_text ev ''execution.evidence_ref'') (\<lambda>ev.
     bindE (tx_optional_text fp ''execution.result_fingerprint'') (\<lambda>fp.
     bindE (guardE (\<not> (status = STEP_SUCCEEDED \<and> change = CHANGE_UNKNOWN))
       (Raise TransactionError ''successful execution cannot have UNKNOWN change state'')) (\<lambda>_.
       Inr \<lparr>ex_step_id = sid, ex_status = status, ex_change_state = change,
             ex_evidence_ref = ev, ex_result_fingerprint = fp\<rparr>))))))"

record post_result =
  po_step_id :: string
  po_postcondition_ref :: string
  po_status :: post_status
  po_evidence_ref :: string

fun make_post :: "string \<times> string \<times> string \<times> string \<Rightarrow> post_result res" where
  "make_post (sid, ref, status, ev) =
     bindE (tx_text sid ''postcondition.step_id'') (\<lambda>sid.
     bindE (tx_text ref ''postcondition.postcondition_ref'') (\<lambda>ref.
     bindE (tx_enum POSTCONDITION_STATUSES status ''postcondition status'') (\<lambda>status.
     bindE (tx_text ev ''postcondition.evidence_ref'') (\<lambda>ev.
       Inr \<lparr>po_step_id = sid, po_postcondition_ref = ref, po_status = status,
             po_evidence_ref = ev\<rparr>))))"

record comp_result =
  co_step_id :: string
  co_snapshot_ref :: string
  co_status :: comp_status
  co_evidence_ref :: string

fun make_compensation :: "string \<times> string \<times> string \<times> string \<Rightarrow> comp_result res" where
  "make_compensation (sid, ref, status, ev) =
     bindE (tx_text sid ''compensation.step_id'') (\<lambda>sid.
     bindE (tx_text ref ''compensation.snapshot_ref'') (\<lambda>ref.
     bindE (tx_enum COMPENSATION_STATUSES status ''compensation status'') (\<lambda>status.
     bindE (tx_text ev ''compensation.evidence_ref'') (\<lambda>ev.
       Inr \<lparr>co_step_id = sid, co_snapshot_ref = ref, co_status = status,
             co_evidence_ref = ev\<rparr>))))"

record tx_receipt =
  re_transaction_id :: string
  re_operation_id :: string
  re_snapshot_ref :: string
  re_receipt_ref :: string
  re_evidence_ref :: string
  re_result_fingerprint :: string

fun make_receipt ::
  "string \<times> string \<times> string \<times> string \<times> string \<times> string \<Rightarrow> tx_receipt res" where
  "make_receipt (tid, oid, snap, ref, ev, fp) =
     bindE (tx_text tid ''receipt.transaction_id'') (\<lambda>tid.
     bindE (tx_text oid ''receipt.operation_id'') (\<lambda>oid.
     bindE (tx_text snap ''receipt.snapshot_ref'') (\<lambda>snap.
     bindE (tx_text ref ''receipt.receipt_ref'') (\<lambda>ref.
     bindE (tx_text ev ''receipt.evidence_ref'') (\<lambda>ev.
     bindE (tx_text fp ''receipt.result_fingerprint'') (\<lambda>fp.
       Inr \<lparr>re_transaction_id = tid, re_operation_id = oid, re_snapshot_ref = snap,
             re_receipt_ref = ref, re_evidence_ref = ev, re_result_fingerprint = fp\<rparr>))))))"

record tx_result =
  rx_status :: tx_status
  rx_transaction_id :: string
  rx_operation_id :: string
  rx_snapshot_ref :: "string option"
  rx_executed_step_ids :: "string list"
  rx_compensated_step_ids :: "string list"
  rx_failed_step_id :: "string option"
  rx_evidence_refs :: "string list"
  rx_operation :: operation_record

definition make_result ::
  "tx_status \<Rightarrow> string \<Rightarrow> string \<Rightarrow> string option \<Rightarrow> string list \<Rightarrow> string list \<Rightarrow> string option
     \<Rightarrow> string list \<Rightarrow> operation_record \<Rightarrow> tx_result res" where
  "make_result status tid oid snap executed compensated failed evidence operation =
     bindE (tx_text tid ''result.transaction_id'') (\<lambda>tid.
     bindE (tx_text oid ''result.operation_id'') (\<lambda>oid.
     bindE (tx_optional_text snap ''result.snapshot_ref'') (\<lambda>snap.
     bindE (tx_optional_text failed ''result.failed_step_id'') (\<lambda>failed.
       Inr \<lparr>rx_status = status, rx_transaction_id = tid, rx_operation_id = oid,
             rx_snapshot_ref = snap, rx_executed_step_ids = executed,
             rx_compensated_step_ids = compensated, rx_failed_step_id = failed,
             rx_evidence_refs = evidence, rx_operation = operation\<rparr>))))"

subsection \<open>Tables\<close>

datatype tx_event_type =
  PLAN_REGISTERED | SNAPSHOT_CAPTURED | SAFE_FAILURE | STEP_EXECUTION_STARTED
  | STEP_EXECUTION_RECORDED | POSTCONDITION_RECORDED | COMPENSATION_STARTED
  | COMPENSATION_RECORDED | RECOVERY_REQUIRED

fun tx_event_name :: "tx_event_type \<Rightarrow> string" where
  "tx_event_name PLAN_REGISTERED = ''PLAN_REGISTERED''"
| "tx_event_name SNAPSHOT_CAPTURED = ''SNAPSHOT_CAPTURED''"
| "tx_event_name SAFE_FAILURE = ''SAFE_FAILURE''"
| "tx_event_name STEP_EXECUTION_STARTED = ''STEP_EXECUTION_STARTED''"
| "tx_event_name STEP_EXECUTION_RECORDED = ''STEP_EXECUTION_RECORDED''"
| "tx_event_name POSTCONDITION_RECORDED = ''POSTCONDITION_RECORDED''"
| "tx_event_name COMPENSATION_STARTED = ''COMPENSATION_STARTED''"
| "tx_event_name COMPENSATION_RECORDED = ''COMPENSATION_RECORDED''"
| "tx_event_name RECOVERY_REQUIRED = ''RECOVERY_REQUIRED''"

text \<open>What an event records, apart from its identity and its transaction.\<close>

record tx_body =
  te_step_id :: "string option"
  te_event_type :: tx_event_type
  te_status :: "string option"
  te_change_state :: "string option"
  te_snapshot_ref :: "string option"
  te_snapshot_fingerprint :: "string option"
  te_evidence_ref :: string
  te_receipt_ref :: "string option"
  te_result_fingerprint :: "string option"

record tx_event =
  te_seq :: nat
  te_id :: string
  te_transaction_id :: string
  te_body :: tx_body

record tx_row =
  tx_id :: string
  tx_operation_id :: string
  tx_plan_fingerprint :: string

record tx_step_row =
  ts_transaction_id :: string
  ts_ordinal :: nat
  ts_step_id :: string
  ts_description :: string
  ts_postcondition_ref :: string
  ts_compensatable :: bool
  ts_dependencies_json :: string

record tx_db = operations_db +
  db_transactions :: "tx_row list"
  db_tx_steps :: "tx_step_row list"
  db_tx_events :: "tx_event list"

definition install_transactions :: "operations_db \<Rightarrow> tx_db" where
  "install_transactions db = operations_db.extend
     (db\<lparr>db_metadata := (db_metadata db)(''transaction_schema_version'' \<mapsto> ''1'')\<rparr>)
     (tx_db.fields [] [] [])"

definition tx_events :: "'a tx_db_scheme \<Rightarrow> string \<Rightarrow> tx_event list" where
  "tx_events db tid = filter (\<lambda>e. te_transaction_id e = tid) (db_tx_events db)"

text \<open>\<open>json.loads\<close> of the dependency column, which must be a list of texts.\<close>

fun json_texts :: "json list \<Rightarrow> string list option" where
  "json_texts [] = Some []"
| "json_texts (JStr s # js) = map_option ((#) s) (json_texts js)"
| "json_texts (_ # _) = None"

definition dependencies_of :: "string \<Rightarrow> string list res" where
  "dependencies_of s =
     (case loads s of
        None \<Rightarrow> Inl (Raise PyValueError ''invalid JSON'')
      | Some (JList js) \<Rightarrow>
          (case json_texts js of
             None \<Rightarrow> Inl (Raise LineageCorruptionError ''transaction dependency JSON is invalid'')
           | Some deps \<Rightarrow> Inr deps)
      | Some _ \<Rightarrow> Inl (Raise LineageCorruptionError ''transaction dependency JSON is invalid''))"

definition tx_steps :: "'a tx_db_scheme \<Rightarrow> string \<Rightarrow> tx_step list res" where
  "tx_steps db tid =
     mapE (\<lambda>r. bindE (dependencies_of (ts_dependencies_json r)) (\<lambda>deps.
         make_step (ts_step_id r) (ts_description r) (ts_postcondition_ref r)
           (ts_compensatable r) deps))
       (sort_key ts_ordinal (filter (\<lambda>r. ts_transaction_id r = tid) (db_tx_steps db)))"

subsection \<open>History\<close>

text \<open>The balance of started and recorded events of a step.\<close>

fun balance :: "tx_event_type \<Rightarrow> tx_event_type \<Rightarrow> string \<Rightarrow> tx_event list \<Rightarrow> int" where
  "balance started recorded sid [] = 0"
| "balance started recorded sid (e # es) =
     (if te_step_id (te_body e) \<noteq> Some sid then balance started recorded sid es
      else if te_event_type (te_body e) = started then 1 + balance started recorded sid es
      else if te_event_type (te_body e) = recorded then balance started recorded sid es - 1
      else balance started recorded sid es)"

definition unresolved :: "tx_event list \<Rightarrow> tx_event_type \<Rightarrow> tx_event_type \<Rightarrow> string list" where
  "unresolved es started recorded =
     filter (\<lambda>sid. 0 < balance started recorded sid es)
       (sorted_unique (List.map_filter (\<lambda>e. te_step_id (te_body e)) es))"

record tx_history =
  th_transaction_id :: string
  th_operation_id :: string
  th_plan_fingerprint :: string
  th_steps :: "tx_step list"
  th_events :: "tx_event list"
  th_operation :: operation_record
  th_unresolved_execution :: "string list"
  th_unresolved_compensation :: "string list"
  th_requires_recovery_review :: bool

definition tx_history_of :: "'a tx_db_scheme \<Rightarrow> string \<Rightarrow> tx_history res" where
  "tx_history_of db tid0 =
     bindE (tx_text tid0 ''transaction_id'') (\<lambda>tid.
     case find (\<lambda>r. tx_id r = tid) (db_transactions db) of
       None \<Rightarrow> Inl (Raise TransactionError (''transaction not found: '' @ tid))
     | Some r \<Rightarrow>
         bindE (tx_steps db tid) (\<lambda>steps.
         let events = tx_events db tid in
         bindE (get_operation db (tx_operation_id r)) (\<lambda>op.
         Inr \<lparr>th_transaction_id = tid, th_operation_id = tx_operation_id r,
               th_plan_fingerprint = tx_plan_fingerprint r, th_steps = steps,
               th_events = events, th_operation = op,
               th_unresolved_execution =
                 unresolved events STEP_EXECUTION_STARTED STEP_EXECUTION_RECORDED,
               th_unresolved_compensation =
                 unresolved events COMPENSATION_STARTED COMPENSATION_RECORDED,
               th_requires_recovery_review = (or_recorded_state op = ST_EXECUTING
                 \<or> or_recorded_state op = ST_UNKNOWN \<and> \<not> or_reconciled op)\<rparr>)))"

subsection \<open>Validation of a stored transaction\<close>

text \<open>The state of the validation loop: balances, the last ordinal, whether a snapshot was seen.\<close>

record check_state =
  ck_execution :: "string \<Rightarrow> int"
  ck_compensation :: "string \<Rightarrow> int"
  ck_last :: int
  ck_snapshot :: bool

definition check_start :: check_state where
  "check_start = \<lparr>ck_execution = (\<lambda>_. 0), ck_compensation = (\<lambda>_. 0), ck_last = -1,
     ck_snapshot = False\<rparr>"

abbreviation corrupt :: "string \<Rightarrow> exc" where
  "corrupt msg \<equiv> Raise LineageCorruptionError msg"

fun index_of :: "string \<Rightarrow> string list \<Rightarrow> int" where
  "index_of x [] = 0"
| "index_of x (y # ys) = (if x = y then 0 else 1 + index_of x ys)"

definition in_enum :: "string option \<Rightarrow> (string \<times> 'a) list \<Rightarrow> bool" where
  "in_enum s names \<longleftrightarrow> (\<exists>x \<in> set_option s. x \<in> set (map fst names))"

definition check_event :: "string list \<Rightarrow> check_state \<Rightarrow> tx_body \<Rightarrow> check_state res" where
  "check_event ids ck e =
     bindE (guardE (pred_option (\<lambda>s. s \<in> set ids) (te_step_id e))
       (corrupt ''transaction event references an unknown step'')) (\<lambda>_.
     case te_event_type e of
       PLAN_REGISTERED \<Rightarrow>
         bindE (guardE (te_step_id e = None \<and> te_status e = None \<and> te_change_state e = None)
           (corrupt ''PLAN_REGISTERED event shape is invalid'')) (\<lambda>_. Inr ck)
     | SNAPSHOT_CAPTURED \<Rightarrow>
         bindE (guardE (\<not> ck_snapshot ck \<and> te_step_id e = None \<and> truthy (te_snapshot_ref e)
                        \<and> truthy (te_snapshot_fingerprint e))
           (corrupt ''SNAPSHOT_CAPTURED event shape is invalid'')) (\<lambda>_. Inr (ck\<lparr>ck_snapshot := True\<rparr>))
     | SAFE_FAILURE \<Rightarrow>
         bindE (guardE (te_step_id e = None \<and> \<not> ck_snapshot ck)
           (corrupt ''SAFE_FAILURE must occur before snapshot/mutation'')) (\<lambda>_. Inr ck)
     | STEP_EXECUTION_STARTED \<Rightarrow>
         (case te_step_id e of
            None \<Rightarrow> Inl (corrupt ''STEP_EXECUTION_STARTED event shape is invalid'')
          | Some s \<Rightarrow>
              bindE (guardE (ck_snapshot ck \<and> truthy (te_snapshot_ref e))
                (corrupt ''STEP_EXECUTION_STARTED event shape is invalid'')) (\<lambda>_.
              bindE (guardE (ck_last ck \<le> index_of s ids)
                (corrupt ''forward execution order regressed'')) (\<lambda>_.
              let bal = (ck_execution ck)(s := ck_execution ck s + 1) in
              bindE (guardE (bal s = 1)
                (corrupt ''transaction step execution started more than once'')) (\<lambda>_.
              Inr (ck\<lparr>ck_last := index_of s ids, ck_execution := bal\<rparr>)))))
     | STEP_EXECUTION_RECORDED \<Rightarrow>
         (case te_step_id e of
            None \<Rightarrow> Inl (corrupt ''STEP_EXECUTION_RECORDED event shape is invalid'')
          | Some s \<Rightarrow>
              bindE (guardE (in_enum (te_status e) STEP_EXECUTION_STATUSES
                             \<and> in_enum (te_change_state e) CHANGE_STATES)
                (corrupt ''STEP_EXECUTION_RECORDED event shape is invalid'')) (\<lambda>_.
              let bal = (ck_execution ck)(s := ck_execution ck s - 1) in
              bindE (guardE (bal s = 0)
                (corrupt ''step execution recorded without exactly one start'')) (\<lambda>_.
              Inr (ck\<lparr>ck_execution := bal\<rparr>))))
     | POSTCONDITION_RECORDED \<Rightarrow>
         (case te_step_id e of
            None \<Rightarrow> Inl (corrupt ''POSTCONDITION_RECORDED event shape is invalid'')
          | Some s \<Rightarrow>
              bindE (guardE (in_enum (te_status e) POSTCONDITION_STATUSES \<and> te_change_state e = None)
                (corrupt ''POSTCONDITION_RECORDED event shape is invalid'')) (\<lambda>_.
              bindE (guardE (ck_execution ck s = 0)
                (corrupt ''postcondition recorded before execution result'')) (\<lambda>_. Inr ck)))
     | COMPENSATION_STARTED \<Rightarrow>
         (case te_step_id e of
            None \<Rightarrow> Inl (corrupt ''COMPENSATION_STARTED event shape is invalid'')
          | Some s \<Rightarrow>
              bindE (guardE (truthy (te_snapshot_ref e))
                (corrupt ''COMPENSATION_STARTED event shape is invalid'')) (\<lambda>_.
              let bal = (ck_compensation ck)(s := ck_compensation ck s + 1) in
              bindE (guardE (bal s = 1)
                (corrupt ''compensation started more than once for a step'')) (\<lambda>_.
              Inr (ck\<lparr>ck_compensation := bal\<rparr>))))
     | COMPENSATION_RECORDED \<Rightarrow>
         (case te_step_id e of
            None \<Rightarrow> Inl (corrupt ''COMPENSATION_RECORDED event shape is invalid'')
          | Some s \<Rightarrow>
              bindE (guardE (in_enum (te_status e) COMPENSATION_STATUSES \<and> truthy (te_snapshot_ref e))
                (corrupt ''COMPENSATION_RECORDED event shape is invalid'')) (\<lambda>_.
              let bal = (ck_compensation ck)(s := ck_compensation ck s - 1) in
              bindE (guardE (bal s = 0)
                (corrupt ''compensation recorded without exactly one start'')) (\<lambda>_.
              Inr (ck\<lparr>ck_compensation := bal\<rparr>))))
     | RECOVERY_REQUIRED \<Rightarrow>
         bindE (guardE (truthy (te_snapshot_ref e))
           (corrupt ''RECOVERY_REQUIRED requires snapshot reference'')) (\<lambda>_. Inr ck))"

fun check_events :: "string list \<Rightarrow> check_state \<Rightarrow> tx_body list \<Rightarrow> check_state res" where
  "check_events ids ck [] = Inr ck"
| "check_events ids ck (e # es) = bindE (check_event ids ck e) (\<lambda>ck. check_events ids ck es)"

definition validate_history :: "string list \<Rightarrow> tx_body list \<Rightarrow> unit res" where
  "validate_history ids es =
     bindE (guardE (es \<noteq> [] \<and> te_event_type (hd es) = PLAN_REGISTERED)
       (corrupt ''transaction history must begin with PLAN_REGISTERED'')) (\<lambda>_.
     bindE (guardE (length (filter (\<lambda>e. te_event_type e = PLAN_REGISTERED) es) = 1)
       (corrupt ''transaction history must contain one PLAN_REGISTERED event'')) (\<lambda>_.
     bindE (check_events ids check_start es) (\<lambda>_. Inr ())))"

definition validate_transaction ::
  "(string \<Rightarrow> string) \<Rightarrow> 'a tx_db_scheme \<Rightarrow> tx_row \<Rightarrow> unit res" where
  "validate_transaction sha db r =
     bindE (tx_steps db (tx_id r)) (\<lambda>steps.
     bindE (guardE (steps \<noteq> []) (corrupt ''transaction plan unexpectedly has no steps'')) (\<lambda>_.
     bindE (make_plan (tx_id r) (tx_operation_id r) steps) (\<lambda>plan.
     bindE (guardE (plan_fingerprint sha plan = tx_plan_fingerprint r)
       (corrupt ''transaction plan fingerprint mismatch'')) (\<lambda>_.
     validate_history (map st_step_id steps) (map te_body (tx_events db (tx_id r)))))))"

text \<open>
  \<open>_validate_existing\<close>: an exception other than LineageCorruptionError becomes one.
\<close>

definition validate_transactions :: "(string \<Rightarrow> string) \<Rightarrow> 'a tx_db_scheme \<Rightarrow> unit res" where
  "validate_transactions sha db =
     (case bindE (guardE (list_all (\<lambda>r. tx_operation_id r \<in> op_id ` set (db_operations db))
                    (db_transactions db))
               (corrupt ''transaction references a missing operation'')) (\<lambda>_.
             bindE (mapE (validate_transaction sha db) (sort_key tx_id (db_transactions db)))
               (\<lambda>_. Inr ())) of
        Inl e \<Rightarrow> if exc_cls e = LineageCorruptionError then Inl e
                 else Inl (corrupt ''transaction journal is unreadable or corrupt'')
      | Inr u \<Rightarrow> Inr u)"

subsection \<open>Writing\<close>

definition plain_body :: "tx_event_type \<Rightarrow> string \<Rightarrow> tx_body" where
  "plain_body kind evidence =
     \<lparr>te_step_id = None, te_event_type = kind, te_status = None, te_change_state = None,
      te_snapshot_ref = None, te_snapshot_fingerprint = None, te_evidence_ref = evidence,
      te_receipt_ref = None, te_result_fingerprint = None\<rparr>"

text \<open>
  \<open>_append_event\<close>: the table's constraints and the trigger \<open>activity_transaction_event\<close>, which
  adds a chronology row for the operation of the transaction.
\<close>

definition append_tx_event ::
  "string \<Rightarrow> tx_body \<Rightarrow> 'a tx_db_scheme \<Rightarrow> 'a tx_db_scheme res" where
  "append_tx_event tid body db0 =
     (let (eid, db) = new_id ''txevt'' db0 in
      bindE (tx_text (te_evidence_ref body) ''event.evidence_ref'') (\<lambda>evidence.
      bindE (guardE (eid \<notin> te_id ` set (db_tx_events db))
        (integrity ''UNIQUE constraint failed: transaction_events.id'')) (\<lambda>_.
      bindE (guardE (pred_option (\<lambda>s. list_ex (\<lambda>r. ts_transaction_id r = tid \<and> ts_step_id r = s)
                        (db_tx_steps db)) (te_step_id body))
        (integrity ''FOREIGN KEY constraint failed'')) (\<lambda>_.
      case find (\<lambda>r. tx_id r = tid) (db_transactions db) of
        None \<Rightarrow> Inl (integrity ''FOREIGN KEY constraint failed'')
      | Some r \<Rightarrow>
          let db' = db\<lparr>db_tx_events := db_tx_events db @
               [\<lparr>te_seq = Suc (length (db_tx_events db)), te_id = eid, te_transaction_id = tid,
                 te_body = body\<lparr>te_evidence_ref := evidence\<rparr>\<rparr>]\<rparr> in
          (case find (\<lambda>o1. op_id o1 = tx_operation_id r) (db_operations db) of
             None \<Rightarrow> Inr db'
           | Some o1 \<Rightarrow>
               (case db_metadata db ''primary_artist_id'' of
                  None \<Rightarrow> Inl (integrity ''NOT NULL constraint failed: activity_events.artist_id'')
                | Some artist \<Rightarrow>
                    insert_activity (''TRANSACTION_'' @ tx_event_name (te_event_type body)) artist
                      (op_song_id o1) (op_version_id o1) ''TRANSACTION'' tid db'))))))"

definition insert_transaction :: "tx_row \<Rightarrow> 'a tx_db_scheme \<Rightarrow> 'a tx_db_scheme res" where
  "insert_transaction r db =
     bindE (guardE (tx_id r \<notin> tx_id ` set (db_transactions db)
                    \<and> tx_operation_id r \<notin> tx_operation_id ` set (db_transactions db))
       (integrity ''UNIQUE constraint failed: transactions'')) (\<lambda>_.
     bindE (guardE (\<not> sql_blank (tx_plan_fingerprint r))
       (integrity ''CHECK constraint failed: transactions'')) (\<lambda>_.
     bindE (guardE (tx_operation_id r \<in> op_id ` set (db_operations db))
       (integrity ''FOREIGN KEY constraint failed'')) (\<lambda>_.
       Inr (db\<lparr>db_transactions := db_transactions db @ [r]\<rparr>))))"

definition insert_tx_step :: "tx_step_row \<Rightarrow> 'a tx_db_scheme \<Rightarrow> 'a tx_db_scheme res" where
  "insert_tx_step r db =
     bindE (guardE (list_all (\<lambda>q. ts_transaction_id q = ts_transaction_id r \<longrightarrow>
                      ts_ordinal q \<noteq> ts_ordinal r \<and> ts_step_id q \<noteq> ts_step_id r) (db_tx_steps db))
       (integrity ''UNIQUE constraint failed: transaction_steps'')) (\<lambda>_.
     bindE (guardE (\<not> sql_blank (ts_step_id r) \<and> \<not> sql_blank (ts_description r)
                    \<and> \<not> sql_blank (ts_postcondition_ref r))
       (integrity ''CHECK constraint failed: transaction_steps'')) (\<lambda>_.
     bindE (guardE (ts_transaction_id r \<in> tx_id ` set (db_transactions db))
       (integrity ''FOREIGN KEY constraint failed'')) (\<lambda>_.
       Inr (db\<lparr>db_tx_steps := db_tx_steps db @ [r]\<rparr>))))"

definition step_row :: "string \<Rightarrow> nat \<Rightarrow> tx_step \<Rightarrow> tx_step_row" where
  "step_row tid n s =
     \<lparr>ts_transaction_id = tid, ts_ordinal = n, ts_step_id = st_step_id s,
      ts_description = st_description s, ts_postcondition_ref = st_postcondition_ref s,
      ts_compensatable = st_compensatable s,
      ts_dependencies_json = dumps True (JList (map JStr (st_depends_on s)))\<rparr>"

fun insert_tx_steps ::
  "string \<Rightarrow> nat \<Rightarrow> tx_step list \<Rightarrow> 'a tx_db_scheme \<Rightarrow> 'a tx_db_scheme res" where
  "insert_tx_steps tid n [] db = Inr db"
| "insert_tx_steps tid n (s # ss) db =
     bindE (insert_tx_step (step_row tid n s) db) (insert_tx_steps tid (Suc n) ss)"

definition register_plan ::
  "(string \<Rightarrow> string) \<Rightarrow> tx_plan \<Rightarrow> 'a tx_db_scheme \<Rightarrow> 'a tx_db_scheme res" where
  "register_plan sha plan db =
     bindE (guardE (pl_transaction_id plan \<notin> tx_id ` set (db_transactions db)
                    \<and> pl_operation_id plan \<notin> tx_operation_id ` set (db_transactions db))
       (Raise TransactionError
         ''transaction or operation is already registered; inspect recovery state instead of rerunning'')) (\<lambda>_.
     bindE (insert_transaction
       \<lparr>tx_id = pl_transaction_id plan, tx_operation_id = pl_operation_id plan,
        tx_plan_fingerprint = plan_fingerprint sha plan\<rparr> db) (\<lambda>db.
     bindE (insert_tx_steps (pl_transaction_id plan) 0 (pl_steps plan) db) (\<lambda>db.
     append_tx_event (pl_transaction_id plan)
       (plain_body PLAN_REGISTERED
         (''transaction:'' @ pl_transaction_id plan @ '':plan:'' @ plan_fingerprint sha plan)) db)))"

subsection \<open>Drivers\<close>

datatype 'a reply = Raised string | Wrong_Type | Returned 'a

text \<open>
  The five methods of a driver. \<open>dr_contract\<close> is None when all are callable, else the class name
  of what \<open>_driver_methods\<close> raises.
\<close>

record 'w driver =
  dr_contract :: "string option"
  dr_prepare_snapshot ::
    "tx_plan \<Rightarrow> 'w \<Rightarrow> (string \<times> string \<times> string \<times> string \<times> string) reply \<times> 'w"
  dr_execute_step ::
    "tx_step \<Rightarrow> 'w \<Rightarrow> (string \<times> string \<times> string \<times> string \<times> string option) reply \<times> 'w"
  dr_verify_postcondition ::
    "tx_step \<Rightarrow> step_execution \<Rightarrow> 'w \<Rightarrow> (string \<times> string \<times> string \<times> string) reply \<times> 'w"
  dr_compensate_step ::
    "tx_step \<Rightarrow> tx_snapshot \<Rightarrow> 'w \<Rightarrow> (string \<times> string \<times> string \<times> string) reply \<times> 'w"
  dr_success_receipt ::
    "tx_plan \<Rightarrow> tx_snapshot \<Rightarrow> 'w
       \<Rightarrow> (string \<times> string \<times> string \<times> string \<times> string \<times> string) reply \<times> 'w"

text \<open>
  A driver call inside its \<open>try\<close>: the class name of what was raised, or the checked result. The
  constructors and the identity checks raise TransactionError only.
\<close>

fun receive :: "('a \<Rightarrow> 'b res) \<Rightarrow> ('b \<Rightarrow> bool) \<Rightarrow> 'a reply \<Rightarrow> string + 'b" where
  "receive mk ident (Raised cls) = Inl cls"
| "receive mk ident Wrong_Type = Inl ''TypeError''"
| "receive mk ident (Returned args) =
     (case mk args of
        Inl _ \<Rightarrow> Inl ''TransactionError''
      | Inr x \<Rightarrow> if ident x then Inr x else Inl ''TransactionError'')"

definition attempt ::
  "('w \<Rightarrow> 'a reply \<times> 'w) \<Rightarrow> ('a \<Rightarrow> 'b res) \<Rightarrow> ('b \<Rightarrow> bool) \<Rightarrow> ('d \<times> 'w, string + 'b) run" where
  "attempt call mk ident = (\<lambda>(db, w). case call w of (r, w') \<Rightarrow> (Inr (receive mk ident r), db, w'))"

text \<open>A transaction of the database.\<close>

definition tx_do :: "('d \<Rightarrow> 'd res) \<Rightarrow> ('d \<times> 'w, unit) run" where
  "tx_do f = (\<lambda>(db, w). case f db of Inl e \<Rightarrow> (Inl e, db, w) | Inr db' \<Rightarrow> (Inr (), db', w))"

definition journal_do :: "('d \<Rightarrow> ('r \<times> 'd) res) \<Rightarrow> ('d \<times> 'w, 'r) run" where
  "journal_do f = (\<lambda>(db, w). case f db of Inl e \<Rightarrow> (Inl e, db, w) | Inr (x, db') \<Rightarrow> (Inr x, db', w))"

definition exception_ref :: "tx_plan \<Rightarrow> string \<Rightarrow> string option \<Rightarrow> string \<Rightarrow> string" where
  "exception_ref plan phase sid cls =
     ''transaction:'' @ pl_transaction_id plan @ '':'' @ phase @ '':''
       @ (case sid of None \<Rightarrow> ''none'' | Some s \<Rightarrow> s) @ '':exception:'' @ cls"

definition snapshot_identity :: "tx_plan \<Rightarrow> tx_snapshot \<Rightarrow> bool" where
  "snapshot_identity plan s \<longleftrightarrow>
     sn_transaction_id s = pl_transaction_id plan \<and> sn_operation_id s = pl_operation_id plan"

definition execution_of_step :: "tx_step \<Rightarrow> step_execution \<Rightarrow> bool" where
  "execution_of_step step e \<longleftrightarrow> ex_step_id e = st_step_id step"

definition post_identity :: "tx_step \<Rightarrow> post_result \<Rightarrow> bool" where
  "post_identity step p \<longleftrightarrow>
     po_step_id p = st_step_id step \<and> po_postcondition_ref p = st_postcondition_ref step"

definition compensation_identity :: "tx_step \<Rightarrow> tx_snapshot \<Rightarrow> comp_result \<Rightarrow> bool" where
  "compensation_identity step s c \<longleftrightarrow>
     co_step_id c = st_step_id step \<and> co_snapshot_ref c = sn_snapshot_ref s"

definition receipt_identity :: "tx_plan \<Rightarrow> tx_snapshot \<Rightarrow> tx_receipt \<Rightarrow> bool" where
  "receipt_identity plan s r \<longleftrightarrow> re_transaction_id r = pl_transaction_id plan
     \<and> re_operation_id r = pl_operation_id plan \<and> re_snapshot_ref r = sn_snapshot_ref s"

definition safe_failure ::
  "tx_plan \<Rightarrow> string \<Rightarrow> ('a tx_db_scheme \<times> 'w, tx_result) run" where
  "safe_failure plan evidence =
     bindS (tx_do (append_tx_event (pl_transaction_id plan) (plain_body SAFE_FAILURE evidence))) (\<lambda>_.
     bindS (journal_do (complete_failure (pl_operation_id plan) evidence None None)) (\<lambda>op.
     liftS (make_result COMPENSATED (pl_transaction_id plan) (pl_operation_id plan) None [] [] None
              [evidence] op)))"

text \<open>What one compensation attempt leaves: the result the driver gave, or UNKNOWN.\<close>

definition settle_compensation ::
  "tx_plan \<Rightarrow> tx_step \<Rightarrow> tx_snapshot \<Rightarrow> string + comp_result \<Rightarrow> comp_result res" where
  "settle_compensation plan step snap r =
     (case r of
        Inr c \<Rightarrow> Inr c
      | Inl cls \<Rightarrow> make_compensation (st_step_id step, sn_snapshot_ref snap, ''UNKNOWN'',
                     exception_ref plan ''compensate'' (Some (st_step_id step)) cls))"

text \<open>
  The loop over the reversed changed steps with its variables: the evidence, the restored steps,
  whether recovery is required, and the recovery evidence.
\<close>

fun comp_loop ::
  "tx_plan \<Rightarrow> tx_snapshot \<Rightarrow> 'w driver \<Rightarrow> tx_step list \<Rightarrow> string list \<Rightarrow> string list \<Rightarrow> bool
     \<Rightarrow> string option
     \<Rightarrow> ('a tx_db_scheme \<times> 'w, string list \<times> string list \<times> bool \<times> string option) run" where
  "comp_loop plan snap driver [] evidence restored recovery rref =
     retS (evidence, restored, recovery, rref)"
| "comp_loop plan snap driver (step # steps) evidence restored recovery rref =
     (if \<not> st_compensatable step then
        (let ref = ''transaction:'' @ pl_transaction_id plan @ '':noncompensatable:'' @ st_step_id step in
         comp_loop plan snap driver steps (evidence @ [ref]) restored True (Some ref))
      else
        bindS (tx_do (append_tx_event (pl_transaction_id plan)
          ((plain_body COMPENSATION_STARTED
             (''transaction:'' @ pl_transaction_id plan @ '':compensation-started:'' @ st_step_id step))
             \<lparr>te_step_id := Some (st_step_id step), te_snapshot_ref := Some (sn_snapshot_ref snap)\<rparr>))) (\<lambda>_.
        bindS (attempt (dr_compensate_step driver step snap) make_compensation
                 (compensation_identity step snap)) (\<lambda>r.
        bindS (liftS (settle_compensation plan step snap r)) (\<lambda>c.
        bindS (tx_do (append_tx_event (pl_transaction_id plan)
          ((plain_body COMPENSATION_RECORDED (co_evidence_ref c))
             \<lparr>te_step_id := Some (st_step_id step), te_status := Some (comp_status_name (co_status c)),
              te_snapshot_ref := Some (co_snapshot_ref c)\<rparr>))) (\<lambda>_.
        if co_status c = COMP_RESTORED
        then comp_loop plan snap driver steps (evidence @ [co_evidence_ref c])
               (restored @ [st_step_id step]) recovery rref
        else comp_loop plan snap driver steps (evidence @ [co_evidence_ref c])
               restored True (Some (co_evidence_ref c)))))))"

definition compensate ::
  "tx_plan \<Rightarrow> tx_snapshot \<Rightarrow> 'w driver \<Rightarrow> tx_step list \<Rightarrow> string list \<Rightarrow> bool \<Rightarrow> string option
     \<Rightarrow> ('a tx_db_scheme \<times> 'w, tx_result) run" where
  "compensate plan snap driver changed evidence root_unknown failed =
     (let root = last evidence in
      bindS (comp_loop plan snap driver (rev changed) evidence [] root_unknown
               (if root_unknown then Some root else None)) (\<lambda>(evidence, restored, recovery, rref).
      if recovery then
        (let ref = (if truthy rref then the rref else root) in
         bindS (tx_do (append_tx_event (pl_transaction_id plan)
           ((plain_body RECOVERY_REQUIRED ref)
              \<lparr>te_step_id := failed, te_snapshot_ref := Some (sn_snapshot_ref snap)\<rparr>))) (\<lambda>_.
         bindS (journal_do (mark_unknown (pl_operation_id plan) ref None)) (\<lambda>op.
         liftS (make_result RECOVERY_REQUIRED_STATUS (pl_transaction_id plan) (pl_operation_id plan)
                  (Some (sn_snapshot_ref snap)) (map st_step_id changed) restored failed evidence op))))
      else
        bindS (journal_do (complete_failure (pl_operation_id plan) root None
                 (Some (''compensated:'' @ sn_snapshot_fingerprint snap)))) (\<lambda>op.
        liftS (make_result COMPENSATED (pl_transaction_id plan) (pl_operation_id plan)
                 (Some (sn_snapshot_ref snap)) (map st_step_id changed) restored failed evidence op))))"

definition settle_execution :: "tx_plan \<Rightarrow> tx_step \<Rightarrow> string + step_execution \<Rightarrow> step_execution res" where
  "settle_execution plan step r =
     (case r of
        Inr e \<Rightarrow> Inr e
      | Inl cls \<Rightarrow> make_execution (st_step_id step, ''UNKNOWN'', ''UNKNOWN'',
                     exception_ref plan ''execute'' (Some (st_step_id step)) cls, None))"

definition settle_post :: "tx_plan \<Rightarrow> tx_step \<Rightarrow> string + post_result \<Rightarrow> post_result res" where
  "settle_post plan step r =
     (case r of
        Inr p \<Rightarrow> Inr p
      | Inl cls \<Rightarrow> make_post (st_step_id step, st_postcondition_ref step, ''UNKNOWN'',
                     exception_ref plan ''verify'' (Some (st_step_id step)) cls))"

text \<open>The loop over the steps: an early return is \<open>Inl\<close> the result, the end of the loop \<open>Inr\<close>.\<close>

fun step_loop ::
  "tx_plan \<Rightarrow> tx_snapshot \<Rightarrow> 'w driver \<Rightarrow> tx_step list \<Rightarrow> string list \<Rightarrow> tx_step list
     \<Rightarrow> ('a tx_db_scheme \<times> 'w, tx_result + (string list \<times> tx_step list)) run" where
  "step_loop plan snap driver [] evidence changed = retS (Inr (evidence, changed))"
| "step_loop plan snap driver (step # steps) evidence changed =
     bindS (tx_do (append_tx_event (pl_transaction_id plan)
       ((plain_body STEP_EXECUTION_STARTED
          (''transaction:'' @ pl_transaction_id plan @ '':execution-started:'' @ st_step_id step))
          \<lparr>te_step_id := Some (st_step_id step), te_snapshot_ref := Some (sn_snapshot_ref snap)\<rparr>))) (\<lambda>_.
     bindS (attempt (dr_execute_step driver step) make_execution (execution_of_step step)) (\<lambda>r.
     bindS (liftS (settle_execution plan step r)) (\<lambda>e.
     let evidence = evidence @ [ex_evidence_ref e] in
     bindS (tx_do (append_tx_event (pl_transaction_id plan)
       ((plain_body STEP_EXECUTION_RECORDED (ex_evidence_ref e))
          \<lparr>te_step_id := Some (st_step_id step), te_status := Some (step_status_name (ex_status e)),
           te_change_state := Some (change_state_name (ex_change_state e)),
           te_snapshot_ref := Some (sn_snapshot_ref snap),
           te_result_fingerprint := ex_result_fingerprint e\<rparr>))) (\<lambda>_.
     let changed = (if ex_change_state e = APPLIED then changed @ [step] else changed) in
     if ex_change_state e = CHANGE_UNKNOWN then
       bindS (compensate plan snap driver changed evidence True (Some (st_step_id step)))
         (\<lambda>x. retS (Inl x))
     else if ex_status e \<noteq> STEP_SUCCEEDED then
       bindS (compensate plan snap driver changed evidence (ex_status e = STEP_UNKNOWN)
                (Some (st_step_id step))) (\<lambda>x. retS (Inl x))
     else
       bindS (attempt (dr_verify_postcondition driver step e) make_post (post_identity step)) (\<lambda>r.
       bindS (liftS (settle_post plan step r)) (\<lambda>p.
       let evidence = evidence @ [po_evidence_ref p] in
       bindS (tx_do (append_tx_event (pl_transaction_id plan)
         ((plain_body POSTCONDITION_RECORDED (po_evidence_ref p))
            \<lparr>te_step_id := Some (st_step_id step), te_status := Some (post_status_name (po_status p)),
             te_snapshot_ref := Some (sn_snapshot_ref snap)\<rparr>))) (\<lambda>_.
       if po_status p \<noteq> POST_SATISFIED then
         bindS (compensate plan snap driver changed evidence (po_status p = POST_UNKNOWN)
                  (Some (st_step_id step))) (\<lambda>x. retS (Inl x))
       else step_loop plan snap driver steps evidence changed)))))))"

definition finish ::
  "tx_plan \<Rightarrow> tx_snapshot \<Rightarrow> 'w driver \<Rightarrow> string list \<Rightarrow> tx_step list
     \<Rightarrow> ('a tx_db_scheme \<times> 'w, tx_result) run" where
  "finish plan snap driver evidence changed =
     bindS (attempt (dr_success_receipt driver plan snap) make_receipt (receipt_identity plan snap)) (\<lambda>r.
     case r of
       Inl cls \<Rightarrow>
         compensate plan snap driver changed (evidence @ [exception_ref plan ''receipt'' None cls])
           True None
     | Inr receipt \<Rightarrow>
         bindS (journal_do (complete_success (pl_operation_id plan) (re_receipt_ref receipt)
                  (re_evidence_ref receipt) (re_result_fingerprint receipt))) (\<lambda>op.
         liftS (make_result COMPLETE (pl_transaction_id plan) (pl_operation_id plan)
                  (Some (sn_snapshot_ref snap)) (map st_step_id changed) [] None
                  (evidence @ [re_evidence_ref receipt]) op)))"

definition run_transaction ::
  "(string \<Rightarrow> string) \<Rightarrow> tx_plan \<Rightarrow> 'w driver \<Rightarrow> ('a tx_db_scheme \<times> 'w, tx_result) run" where
  "run_transaction sha plan driver =
     bindS (\<lambda>(db, w). (get_operation db (pl_operation_id plan), db, w)) (\<lambda>op.
     bindS (liftS (guardE (or_recorded_state op = ST_EXECUTING)
       (Raise TransactionError (''transaction requires already-claimed EXECUTING operation, got ''
          @ recorded_state_name (or_recorded_state op))))) (\<lambda>_.
     bindS (tx_do (register_plan sha plan)) (\<lambda>_.
     case dr_contract driver of
       Some cls \<Rightarrow> safe_failure plan (exception_ref plan ''driver-contract'' None cls)
     | None \<Rightarrow>
         bindS (attempt (dr_prepare_snapshot driver plan) make_snapshot (snapshot_identity plan)) (\<lambda>r.
         case r of
           Inl cls \<Rightarrow> safe_failure plan (exception_ref plan ''snapshot'' None cls)
         | Inr snap \<Rightarrow>
             bindS (tx_do (append_tx_event (pl_transaction_id plan)
               ((plain_body SNAPSHOT_CAPTURED (sn_evidence_ref snap))
                  \<lparr>te_snapshot_ref := Some (sn_snapshot_ref snap),
                   te_snapshot_fingerprint := Some (sn_snapshot_fingerprint snap)\<rparr>))) (\<lambda>_.
             bindS (step_loop plan snap driver (pl_steps plan) [sn_evidence_ref snap] []) (\<lambda>out.
             case out of
               Inl result \<Rightarrow> retS result
             | Inr (evidence, changed) \<Rightarrow> finish plan snap driver evidence changed))))))"

end
