(* ===== verification/Transactions_Run.thy ===== *)
theory Transactions_Run
  imports Transactions
begin

text \<open>
  The run of a transaction: what each loop of the coordinator records and returns. \<open>tx_ext\<close> says
  which events a computation appended; \<open>emits\<close> is a pre/postcondition judgement over them with one rule
  per construct (append, driver call, journal call, sequence, branch). \<open>comp_loop_emits\<close>,
  \<open>compensate_emits\<close>, \<open>step_loop_emits\<close>, \<open>finish_emits\<close> and \<open>run_emits\<close> are its instances for the
  functions of the model, from the inside out; \<open>idle\<close> is the state of the validation loop between
  two steps.
\<close>

subsection \<open>Invariant and extension\<close>

definition bodies :: "'a tx_db_scheme \<Rightarrow> string \<Rightarrow> tx_body list" where
  "bodies db tid = map te_body (tx_events db tid)"

definition tx_base :: "'a tx_db_scheme \<Rightarrow> bool" where
  "tx_base db \<longleftrightarrow> op_inv db
     \<and> distinct (map tx_id (db_transactions db))
     \<and> distinct (map tx_operation_id (db_transactions db))
     \<and> tx_operation_id ` set (db_transactions db) \<subseteq> op_id ` set (db_operations db)
     \<and> ts_transaction_id ` set (db_tx_steps db) \<subseteq> tx_id ` set (db_transactions db)
     \<and> te_transaction_id ` set (db_tx_events db) \<subseteq> tx_id ` set (db_transactions db)"

text \<open>From \<open>db\<close> to \<open>db'\<close> the transaction \<open>tid\<close> recorded \<open>bs\<close>; the others did not change.\<close>

definition tx_ext :: "string \<Rightarrow> tx_body list \<Rightarrow> 'a tx_db_scheme \<Rightarrow> 'a tx_db_scheme \<Rightarrow> bool" where
  "tx_ext tid bs db db' \<longleftrightarrow> db_transactions db' = db_transactions db
     \<and> db_tx_steps db' = db_tx_steps db
     \<and> bodies db' tid = bodies db tid @ bs \<and> (\<forall>t. t \<noteq> tid \<longrightarrow> bodies db' t = bodies db t)
     \<and> prefix (db_tx_events db) (db_tx_events db')
     \<and> (tx_base db \<longrightarrow> tx_base db' \<and> op_extends db db')"

lemma tx_ext_refl [simp]: "tx_ext tid [] db db"
  by (simp add: tx_ext_def)

lemma tx_ext_trans:
  assumes "tx_ext tid bs a b" and "tx_ext tid cs b c"
  shows "tx_ext tid (bs @ cs) a c"
proof -
  have "tx_base c \<and> op_extends a c" if "tx_base a"
    using assms that op_extends_trans [of a b c] by (auto simp: tx_ext_def)
  moreover have "prefix (db_tx_events a) (db_tx_events c)"
    using assms prefix_order.trans by (auto simp: tx_ext_def)
  ultimately show ?thesis using assms by (auto simp: tx_ext_def)
qed

definition norm_body :: "tx_body \<Rightarrow> tx_body" where
  "norm_body b = b\<lparr>te_evidence_ref := strip (te_evidence_ref b)\<rparr>"

lemma norm_body_simps [simp]:
  "te_step_id (norm_body b) = te_step_id b" "te_event_type (norm_body b) = te_event_type b"
  "te_status (norm_body b) = te_status b" "te_change_state (norm_body b) = te_change_state b"
  "te_snapshot_ref (norm_body b) = te_snapshot_ref b"
  "te_snapshot_fingerprint (norm_body b) = te_snapshot_fingerprint b"
  by (simp_all add: norm_body_def)

lemma tx_frames [simp]:
  "core_ok (db\<lparr>db_transactions := ts\<rparr>) = core_ok db"
  "core_ok (db\<lparr>db_tx_steps := ss\<rparr>) = core_ok db"
  "core_ok (db\<lparr>db_tx_events := es\<rparr>) = core_ok db"
  "activity_row_ok (db\<lparr>db_transactions := ts\<rparr>) = activity_row_ok db"
  "activity_row_ok (db\<lparr>db_tx_steps := ss\<rparr>) = activity_row_ok db"
  "activity_row_ok (db\<lparr>db_tx_events := es\<rparr>) = activity_row_ok db"
  by (simp_all add: core_defs has_artist_def version_in_song_def activity_row_ok_def fun_eq_iff)

lemma tx_frames_inv [simp]:
  "lineage_inv (db\<lparr>db_transactions := ts\<rparr>) = lineage_inv db"
  "lineage_inv (db\<lparr>db_tx_steps := ss\<rparr>) = lineage_inv db"
  "lineage_inv (db\<lparr>db_tx_events := es\<rparr>) = lineage_inv db"
  by (simp_all add: lineage_inv_def activity_ok_def)

text \<open>The journal's invariant depends on the journal, the songs and the versions only.\<close>

lemma op_inv_frame:
  assumes "op_inv db" and "lineage_inv db'" and "db_operations db' = db_operations db"
    and "db_op_events db' = db_op_events db" and "db_songs db' = db_songs db"
    and "db_versions db' = db_versions db"
  shows "op_inv db'"
proof -
  have "op_row_ok db' = op_row_ok db" using assms(5,6) by (simp add: fun_eq_iff op_row_ok_def version_in_song_def)
  then show ?thesis using assms by (simp add: op_inv_but_def op_tables_ok_def op_events_def)
qed

lemma append_tx_event_Inr:
  assumes "append_tx_event tid b db = Inr db'"
  obtains e where "db_tx_events db' = db_tx_events db @ [e]" "te_transaction_id e = tid"
    "te_body e = norm_body b" "tid \<in> tx_id ` set (db_transactions db)"
    "db_transactions db' = db_transactions db" "db_tx_steps db' = db_tx_steps db"
    "db_operations db' = db_operations db" "db_op_events db' = db_op_events db"
    "db_songs db' = db_songs db" "db_versions db' = db_versions db"
    "prefix (db_activity db) (db_activity db')"
    "lineage_inv db \<Longrightarrow> lineage_inv db'"
proof -
  obtain eid db1 where id: "new_id ''txevt'' db = (eid, db1)" by (cases "new_id ''txevt'' db") auto
  note db1 = new_id_draws [OF id]
  let ?e = "\<lparr>te_seq = Suc (length (db_tx_events db1)), te_id = eid, te_transaction_id = tid,
                 te_body = norm_body b\<rparr>"
  let ?db = "db1\<lparr>db_tx_events := db_tx_events db1 @ [?e]\<rparr>"
  from assms obtain r where r: "find (\<lambda>r. tx_id r = tid) (db_transactions db1) = Some r"
    and out: "(case find (\<lambda>o1. op_id o1 = tx_operation_id r) (db_operations db1) of
             None \<Rightarrow> Inr ?db
           | Some o1 \<Rightarrow>
               (case db_metadata db1 ''primary_artist_id'' of
                  None \<Rightarrow> Inl (integrity ''NOT NULL constraint failed: activity_events.artist_id'')
                | Some artist \<Rightarrow>
                    insert_activity (''TRANSACTION_'' @ tx_event_name (te_event_type b)) artist
                      (op_song_id o1) (op_version_id o1) ''TRANSACTION'' tid ?db)) = Inr db'"
    unfolding append_tx_event_def id Let_def prod.case
    apply (elim bindE_InrE)
    apply (cases "find (\<lambda>r. tx_id r = tid) (db_transactions db1)")
     apply simp
    apply (simp only: option.case tx_text_def require_text_eq_Inr norm_body_def [symmetric] simp_thms)
    done
  have t: "tid \<in> tx_id ` set (db_transactions db)"
    using r by (auto simp: db1 find_Some_iff in_set_conv_nth intro!: rev_image_eqI)
  consider "db' = ?db" | kind artist s v where
    "insert_activity kind artist s v ''TRANSACTION'' tid ?db = Inr db'"
  proof (cases "find (\<lambda>o1. op_id o1 = tx_operation_id r) (db_operations db1)")
    case None
    with out have "db' = ?db" by (simp del: find_None_image)
    then show ?thesis using that(1) by blast
  next
    case (Some o1)
    with out obtain artist where "insert_activity (''TRANSACTION_'' @ tx_event_name (te_event_type b))
        artist (op_song_id o1) (op_version_id o1) ''TRANSACTION'' tid ?db = Inr db'"
      by (cases "db_metadata db1 ''primary_artist_id''") (simp_all only: option.case, blast+)
    then show ?thesis using that(2) by blast
  qed
  then show ?thesis
  proof cases
    case 1
    then show ?thesis using t by (intro that [of ?e]) (simp_all add: db1)
  next
    case 2
    have "lineage_inv db'" if "lineage_inv db"
      using insert_activity_inv [OF 2] that by (simp add: db1 lineage_inv_def activity_ok_def)
    moreover from insert_activity_Inr [OF 2] obtain row where
      db': "db' = ?db\<lparr>db_draws := Suc (db_draws ?db), db_activity := db_activity ?db @ [row]\<rparr>" by blast
    ultimately show ?thesis using t by (intro that [of ?e]) (simp_all add: db' db1)
  qed
qed

lemma append_tx_event_ext:
  assumes "append_tx_event tid b db = Inr db'"
  shows "tx_ext tid [norm_body b] db db'"
  using assms
proof (rule append_tx_event_Inr)
  fix e
  assume e: "db_tx_events db' = db_tx_events db @ [e]" "te_transaction_id e = tid"
    "te_body e = norm_body b" "tid \<in> tx_id ` set (db_transactions db)"
    and same: "db_transactions db' = db_transactions db" "db_tx_steps db' = db_tx_steps db"
    "db_operations db' = db_operations db" "db_op_events db' = db_op_events db"
    "db_songs db' = db_songs db" "db_versions db' = db_versions db"
    "prefix (db_activity db) (db_activity db')"
    and inv: "lineage_inv db \<Longrightarrow> lineage_inv db'"
  have "tx_base db' \<and> op_extends db db'" if "tx_base db"
  proof -
    have "op_inv db" using that by (simp add: tx_base_def)
    moreover from this have "lineage_inv db'" using inv by (simp add: op_inv_but_def)
    ultimately have "op_inv db'" using op_inv_frame same(3-6) by blast
    then show ?thesis using that e(1,2,4) same by (simp add: tx_base_def op_extends_def)
  qed
  then show ?thesis using e same by (simp add: tx_ext_def bodies_def tx_events_def)
qed

lemma append_op_event_tx:
  fixes db :: "'a tx_db_scheme"
  assumes "append_op_event oid kind ev rc fp db = Inr db'"
  shows "db_transactions db' = db_transactions db \<and> db_tx_steps db' = db_tx_steps db
    \<and> db_tx_events db' = db_tx_events db"
proof -
  obtain eid db1 where id: "new_id ''opevt'' db = (eid, db1)" by (cases "new_id ''opevt'' db") auto
  from assms obtain e artist and r :: operation_row where
    "insert_activity (''OPERATION_'' @ op_event_name kind) artist (op_song_id r)
                 (op_version_id r) ''OPERATION'' oid
       (db1\<lparr>db_op_events := db_op_events db1 @ [e]\<rparr>) = Inr db'"
    unfolding append_op_event_def id Let_def prod.case
    by (elim bindE_InrE) (simp add: guardE_eq_Inr split: option.splits)
  then show ?thesis by (elim insert_activity_Inr) (simp add: new_id_draws [OF id])
qed

lemma op_terminal_append:
  "op_terminal oid k ev rc fp db = Inr (x, db') \<Longrightarrow>
     \<exists>t r f. append_op_event oid k (Some t) r f db = Inr db' \<and> get_operation db' oid = Inr x
       \<and> (\<exists>op. get_operation db oid = Inr op \<and> or_recorded_state op = ST_EXECUTING)"
  unfolding op_terminal_def by (elim bindE_InrE) (auto simp: guardE_eq_Inr)

fun terminal_state :: "op_event_type \<Rightarrow> recorded_state" where
  "terminal_state SUCCEEDED = ST_SUCCEEDED"
| "terminal_state FAILED = ST_FAILED"
| "terminal_state _ = ST_UNKNOWN"

lemma op_terminal_result:
  assumes "op_terminal oid k ev rc fp db = Inr (x, db')" and "k \<in> {SUCCEEDED, FAILED, UNKNOWN}"
  shows "get_operation db' oid = Inr x \<and> or_recorded_state x = terminal_state k \<and> op_id x = oid"
proof -
  from op_terminal_append [OF assms(1)] obtain t r f op where
    app: "append_op_event oid k (Some t) r f db = Inr db'" and get: "get_operation db' oid = Inr x"
    and op: "get_operation db oid = Inr op" "or_recorded_state op = ST_EXECUTING" by blast
  from get_operation_Inr [OF op(1)] op(2) have "derive (op_events db oid) = Inr (ST_EXECUTING,
      or_effective_outcome op, or_attempt_count op, or_reconciled op)" by metis
  then have "map ov_event_type (op_events db oid) = [PREPARED, EXECUTION_CLAIMED]"
    unfolding derive_table op_histories_def by (auto simp: op_start_def)
  then have ev: "map ov_event_type (op_events db' oid) = [PREPARED, EXECUTION_CLAIMED, k]"
    by (rule_tac append_op_event_Inr [OF app]) (simp add: op_events_def)
  from get_operation_Inr [OF get] have "derive (op_events db' oid) = Inr (or_recorded_state x,
      or_effective_outcome x, or_attempt_count x, or_reconciled x)" "op_id x = oid" by metis+
  then show ?thesis using get assms(2) unfolding derive_table ev op_histories_def by auto
qed

lemma op_terminal_ext:
  fixes db :: "'a tx_db_scheme"
  assumes "op_terminal oid k ev rc fp db = Inr (x, db')" and "k \<in> {SUCCEEDED, FAILED, UNKNOWN}"
  shows "tx_ext tid [] db db'"
proof -
  from op_terminal_append [OF assms(1)] obtain t r f where
    app: "append_op_event oid k (Some t) r f db = Inr db'" by blast
  note same = append_op_event_tx [OF app]
  have "tx_base db' \<and> op_extends db db'" if "tx_base db"
  proof -
    from that have "op_inv db" by (simp add: tx_base_def)
    from op_terminal_inv [OF assms(1) this assms(2)] have i: "op_inv db' \<and> op_extends db db'" .
    then have "op_id ` set (db_operations db) \<subseteq> op_id ` set (db_operations db')"
      by (simp add: op_extends_def set_mono_prefix image_mono)
    then show ?thesis using that i same unfolding tx_base_def by (metis subset_trans)
  qed
  then show ?thesis using same by (simp add: tx_ext_def bodies_def tx_events_def)
qed

subsection \<open>Reading a recorded history\<close>

text \<open>The steps named by the events of one kind, and the driver calls a history announces.\<close>

definition ids_where :: "(tx_body \<Rightarrow> bool) \<Rightarrow> tx_body list \<Rightarrow> string list" where
  "ids_where P bs = List.map_filter (\<lambda>b. if P b then te_step_id b else None) bs"

definition ids_of :: "tx_event_type \<Rightarrow> tx_body list \<Rightarrow> string list" where
  "ids_of k = ids_where (\<lambda>b. te_event_type b = k)"

definition applied_ids :: "tx_body list \<Rightarrow> string list" where
  "applied_ids = ids_where (\<lambda>b. te_event_type b = STEP_EXECUTION_RECORDED
     \<and> te_change_state b = Some ''APPLIED'')"

definition satisfied_ids :: "tx_body list \<Rightarrow> string list" where
  "satisfied_ids = ids_where (\<lambda>b. te_event_type b = POSTCONDITION_RECORDED
     \<and> te_status b = Some ''SATISFIED'')"

definition restored_ids :: "tx_body list \<Rightarrow> string list" where
  "restored_ids = ids_where (\<lambda>b. te_event_type b = COMPENSATION_RECORDED
     \<and> te_status b = Some ''RESTORED'')"

definition announced :: "tx_body list \<Rightarrow> (bool \<times> string) list" where
  "announced bs = List.map_filter (\<lambda>b.
     if te_event_type b = STEP_EXECUTION_STARTED then map_option (Pair True) (te_step_id b)
     else if te_event_type b = COMPENSATION_STARTED then map_option (Pair False) (te_step_id b)
     else None) bs"

lemma ids_where_simps [simp]:
  "ids_where P [] = []"
  "ids_where P (b # bs) = (if P b then case te_step_id b of None \<Rightarrow> [] | Some s \<Rightarrow> [s] else []) @ ids_where P bs"
  "ids_where P (bs @ cs) = ids_where P bs @ ids_where P cs"
  by (simp_all add: ids_where_def List.map_filter_def split: option.split)

lemma announced_simps [simp]:
  "announced [] = []"
  "announced (b # bs) = (case te_step_id b of None \<Rightarrow> [] | Some s \<Rightarrow>
     if te_event_type b = STEP_EXECUTION_STARTED then [(True, s)]
     else if te_event_type b = COMPENSATION_STARTED then [(False, s)] else []) @ announced bs"
  "announced (bs @ cs) = announced bs @ announced cs"
  by (auto simp: announced_def List.map_filter_def split: option.splits)

lemmas id_reads = ids_of_def applied_ids_def satisfied_ids_def restored_ids_def

text \<open>A way to observe the calls of \<open>execute_step\<close> and \<open>compensate_step\<close> in the driver's world.\<close>

definition observes :: "'w driver \<Rightarrow> ('w \<Rightarrow> (bool \<times> string) list) \<Rightarrow> bool" where
  "observes d calls \<longleftrightarrow>
     (\<forall>p w. calls (snd (dr_prepare_snapshot d p w)) = calls w)
     \<and> (\<forall>s w. calls (snd (dr_execute_step d s w)) = calls w @ [(True, st_step_id s)])
     \<and> (\<forall>s e w. calls (snd (dr_verify_postcondition d s e w)) = calls w)
     \<and> (\<forall>s n w. calls (snd (dr_compensate_step d s n w)) = calls w @ [(False, st_step_id s)])
     \<and> (\<forall>p n w. calls (snd (dr_success_receipt d p n w)) = calls w)"

subsection \<open>Rules for computations that record events\<close>

definition emits ::
  "string \<Rightarrow> 'a tx_db_scheme \<Rightarrow> 'r res \<times> ('a tx_db_scheme \<times> 'w)
     \<Rightarrow> ('r res \<Rightarrow> tx_body list \<Rightarrow> 'a tx_db_scheme \<Rightarrow> 'w \<Rightarrow> bool) \<Rightarrow> bool" where
  "emits tid db out Q \<longleftrightarrow>
     (case out of (r, db', w') \<Rightarrow> \<exists>bs. tx_ext tid bs db db' \<and> Q r bs db' w')"

lemma emitsD:
  "emits tid db out Q \<Longrightarrow> out = (r, db', w') \<Longrightarrow> \<exists>bs. tx_ext tid bs db db' \<and> Q r bs db' w'"
  by (simp add: emits_def)

lemma emits_ret: "Q (Inr x) [] db w \<Longrightarrow> emits tid db (retS x (db, w)) Q"
  unfolding emits_def retS_def using tx_ext_refl by fastforce

lemma emits_lift: "Q r [] db w \<Longrightarrow> emits tid db (liftS r (db, w)) Q"
  unfolding emits_def liftS_def using tx_ext_refl by fastforce

lemma emits_mono:
  "emits tid db out Q \<Longrightarrow> (\<And>r bs db' w'. Q r bs db' w' \<Longrightarrow> Q' r bs db' w') \<Longrightarrow> emits tid db out Q'"
  unfolding emits_def by fast

lemma emits_bind:
  assumes "emits tid db (m (db, w)) Q1"
    and "\<And>e bs db1 w1. Q1 (Inl e) bs db1 w1 \<Longrightarrow> Q (Inl e) bs db1 w1"
    and "\<And>x bs db1 w1. Q1 (Inr x) bs db1 w1 \<Longrightarrow> tx_ext tid bs db db1 \<Longrightarrow>
          emits tid db1 (f x (db1, w1)) (\<lambda>r cs. Q r (bs @ cs))"
  shows "emits tid db (bindS m f (db, w)) Q"
proof -
  obtain r db1 w1 where m: "m (db, w) = (r, db1, w1)" by (cases "m (db, w)") auto
  from emitsD [OF assms(1) m] obtain bs where bs: "tx_ext tid bs db db1" "Q1 r bs db1 w1" by blast
  show ?thesis
  proof (cases r)
    case (Inl e)
    then show ?thesis using bs assms(2) by (auto simp: emits_def bindS_def m)
  next
    case (Inr x)
    obtain r2 db2 w2 where f: "f x (db1, w1) = (r2, db2, w2)" by (cases "f x (db1, w1)") auto
    from emitsD [OF assms(3) f] bs Inr obtain cs where "tx_ext tid cs db1 db2" "Q r2 (bs @ cs) db2 w2" by blast
    then show ?thesis using tx_ext_trans [OF bs(1)] by (auto simp: emits_def bindS_def m Inr f)
  qed
qed

lemma emits_append:
  assumes "\<And>e. Q (Inl e) [] db w"
    and "\<And>db1. append_tx_event tid b db = Inr db1 \<Longrightarrow>
          emits tid db1 (f () (db1, w)) (\<lambda>r cs. Q r (norm_body b # cs))"
  shows "emits tid db (bindS (tx_do (append_tx_event tid b)) f (db, w)) Q"
proof (rule emits_bind [where ?Q1.0 = "\<lambda>r bs db1 w1. w1 = w \<and> (case r of Inl e \<Rightarrow> bs = [] \<and> db1 = db
      | Inr _ \<Rightarrow> bs = [norm_body b] \<and> append_tx_event tid b db = Inr db1)"])
  show "emits tid db (tx_do (append_tx_event tid b) (db, w)) (\<lambda>r bs db1 w1. w1 = w \<and>
      (case r of Inl e \<Rightarrow> bs = [] \<and> db1 = db
      | Inr _ \<Rightarrow> bs = [norm_body b] \<and> append_tx_event tid b db = Inr db1))"
    using append_tx_event_ext [of tid b db]
    by (cases "append_tx_event tid b db") (simp_all add: emits_def tx_do_def)
qed (use assms in auto)

lemma emits_attempt:
  assumes "\<And>r w1. call w = (r, w1) \<Longrightarrow> emits tid db (f (receive mk ident r) (db, w1)) Q"
  shows "emits tid db (bindS (attempt call mk ident) f (db, w)) Q"
proof -
  obtain r w1 where c: "call w = (r, w1)" by (cases "call w")
  have "bindS (attempt call mk ident) f (db, w) = f (receive mk ident r) (db, w1)"
    by (simp add: bindS_def attempt_def c)
  then show ?thesis using assms [OF c] by simp
qed

lemma emits_lift_bind:
  assumes "\<And>e. r = Inl e \<Longrightarrow> Q (Inl e) [] db w"
    and "\<And>x. r = Inr x \<Longrightarrow> emits tid db (f x (db, w)) Q"
  shows "emits tid db (bindS (liftS r) f (db, w)) Q"
proof (cases r)
  case (Inl e)
  then show ?thesis using assms(1) by (auto simp: emits_def bindS_def liftS_def intro: tx_ext_refl)
next
  case (Inr x)
  then have "bindS (liftS r) f (db, w) = f x (db, w)" by (simp add: bindS_def liftS_def)
  then show ?thesis using assms(2) Inr by simp
qed

lemma emits_journal:
  assumes "\<And>e. Q (Inl e) [] db w"
    and "\<And>x db1. g db = Inr (x, db1) \<Longrightarrow> tx_ext tid [] db db1"
    and "\<And>x db1. g db = Inr (x, db1) \<Longrightarrow> emits tid db1 (f x (db1, w)) Q"
  shows "emits tid db (bindS (journal_do g) f (db, w)) Q"
proof (cases "g db")
  case (Inl e)
  then show ?thesis using assms(1) by (auto simp: emits_def bindS_def journal_do_def intro: tx_ext_refl)
next
  case (Inr p)
  obtain x db1 where p: "p = (x, db1)" by (cases p)
  then have "bindS (journal_do g) f (db, w) = f x (db1, w)" by (simp add: bindS_def journal_do_def Inr)
  moreover obtain r db2 w2 where f: "f x (db1, w) = (r, db2, w2)" by (cases "f x (db1, w)") auto
  moreover from emitsD [OF assms(3) f] Inr p obtain cs where "tx_ext tid cs db1 db2" "Q r cs db2 w2" by blast
  moreover have "tx_ext tid cs db db2"
    using tx_ext_trans [OF assms(2) \<open>tx_ext tid cs db1 db2\<close>] Inr p by simp
  ultimately show ?thesis by (auto simp: emits_def)
qed

subsection \<open>The validation loop on recorded blocks\<close>

definition idle :: "int \<Rightarrow> check_state" where
  "idle l = \<lparr>ck_execution = (\<lambda>_. 0), ck_compensation = (\<lambda>_. 0), ck_last = l, ck_snapshot = True\<rparr>"

lemma check_events_append:
  "check_events ids ck (bs @ cs) = bindE (check_events ids ck bs) (\<lambda>ck. check_events ids ck cs)"
  by (induction bs arbitrary: ck) (auto simp: bindE_def split: sum.split)

text \<open>The loop accepts the events, none of which registers a plan.\<close>

definition no_plan :: "tx_body list \<Rightarrow> bool" where
  "no_plan bs \<longleftrightarrow> (\<forall>b \<in> set bs. te_event_type b \<noteq> PLAN_REGISTERED)"

definition passes :: "string list \<Rightarrow> check_state \<Rightarrow> tx_body list \<Rightarrow> bool" where
  "passes ids ck bs \<longleftrightarrow> (\<exists>ck'. check_events ids ck bs = Inr ck') \<and> no_plan bs"

lemma no_plan_simps [simp]:
  "no_plan []" "no_plan (b # bs) \<longleftrightarrow> te_event_type b \<noteq> PLAN_REGISTERED \<and> no_plan bs"
  "no_plan (bs @ cs) \<longleftrightarrow> no_plan bs \<and> no_plan cs"
  by (auto simp: no_plan_def)

lemma passes_Nil [simp]: "passes ids ck []"
  by (simp add: passes_def)

lemma passes_append:
  "check_events ids ck bs = Inr ck' \<Longrightarrow> passes ids ck (bs @ cs) \<longleftrightarrow> no_plan bs \<and> passes ids ck' cs"
  by (auto simp: passes_def check_events_append)

lemma passes_prefix: "passes ids ck (bs @ cs) \<Longrightarrow> passes ids ck bs"
  by (auto simp: passes_def check_events_append elim!: bindE_InrE)

lemma in_enum_names [simp]:
  "in_enum (Some (step_status_name s)) STEP_EXECUTION_STATUSES"
  "in_enum (Some (change_state_name c)) CHANGE_STATES"
  "in_enum (Some (post_status_name p)) POSTCONDITION_STATUSES"
  "in_enum (Some (comp_status_name k)) COMPENSATION_STATUSES"
  by (cases s; cases c; cases p; cases k; simp add: in_enum_def STEP_EXECUTION_STATUSES_def
      CHANGE_STATES_def POSTCONDITION_STATUSES_def COMPENSATION_STATUSES_def)+

lemma check_started:
  "te_event_type b = STEP_EXECUTION_STARTED \<Longrightarrow> te_step_id b = Some s \<Longrightarrow> s \<in> set ids
     \<Longrightarrow> truthy (te_snapshot_ref b) \<Longrightarrow> l \<le> index_of s ids
     \<Longrightarrow> check_event ids (idle l) b = Inr ((idle (index_of s ids))\<lparr>ck_execution := (\<lambda>_. 0)(s := 1)\<rparr>)"
  by (simp add: check_event_def idle_def Let_def)

lemma check_recorded:
  "te_event_type b = STEP_EXECUTION_RECORDED \<Longrightarrow> te_step_id b = Some s \<Longrightarrow> s \<in> set ids
     \<Longrightarrow> in_enum (te_status b) STEP_EXECUTION_STATUSES \<Longrightarrow> in_enum (te_change_state b) CHANGE_STATES
     \<Longrightarrow> check_event ids ((idle l)\<lparr>ck_execution := (\<lambda>_. 0)(s := 1)\<rparr>) b = Inr (idle l)"
  by (simp add: check_event_def idle_def Let_def fun_upd_def fun_eq_iff)

lemma check_post:
  "te_event_type b = POSTCONDITION_RECORDED \<Longrightarrow> te_step_id b = Some s \<Longrightarrow> s \<in> set ids
     \<Longrightarrow> in_enum (te_status b) POSTCONDITION_STATUSES \<Longrightarrow> te_change_state b = None
     \<Longrightarrow> check_event ids (idle l) b = Inr (idle l)"
  by (simp add: check_event_def idle_def)

lemma check_comp_started:
  "te_event_type b = COMPENSATION_STARTED \<Longrightarrow> te_step_id b = Some s \<Longrightarrow> s \<in> set ids
     \<Longrightarrow> truthy (te_snapshot_ref b)
     \<Longrightarrow> check_event ids (idle l) b = Inr ((idle l)\<lparr>ck_compensation := (\<lambda>_. 0)(s := 1)\<rparr>)"
  by (simp add: check_event_def idle_def Let_def)

lemma check_comp_recorded:
  "te_event_type b = COMPENSATION_RECORDED \<Longrightarrow> te_step_id b = Some s \<Longrightarrow> s \<in> set ids
     \<Longrightarrow> truthy (te_snapshot_ref b) \<Longrightarrow> in_enum (te_status b) COMPENSATION_STATUSES
     \<Longrightarrow> check_event ids ((idle l)\<lparr>ck_compensation := (\<lambda>_. 0)(s := 1)\<rparr>) b = Inr (idle l)"
  by (simp add: check_event_def idle_def Let_def fun_upd_def fun_eq_iff)

lemma check_recovery:
  "te_event_type b = RECOVERY_REQUIRED \<Longrightarrow> pred_option (\<lambda>s. s \<in> set ids) (te_step_id b)
     \<Longrightarrow> truthy (te_snapshot_ref b) \<Longrightarrow> check_event ids ck b = Inr ck"
  by (simp add: check_event_def)

subsection \<open>Compensation\<close>

definition plan_ids :: "tx_plan \<Rightarrow> string list" where
  "plan_ids plan = map st_step_id (pl_steps plan)"

text \<open>What the compensation loop over \<open>steps\<close> records and returns.\<close>

definition comp_loop_post ::
  "string list \<Rightarrow> int \<Rightarrow> tx_step list \<Rightarrow> string list \<Rightarrow> bool
     \<Rightarrow> (string list \<times> string list \<times> bool \<times> string option) res \<Rightarrow> tx_body list \<Rightarrow> bool" where
  "comp_loop_post ids l steps restored recovery r bs \<longleftrightarrow>
     passes ids (idle l) bs \<and> ids_of STEP_EXECUTION_STARTED bs = [] \<and> applied_ids bs = []
     \<and> satisfied_ids bs = []
     \<and> (\<forall>ev rs rec rref. r = Inr (ev, rs, rec, rref) \<longrightarrow>
          check_events ids (idle l) bs = Inr (idle l)
          \<and> ids_of COMPENSATION_STARTED bs = map st_step_id (filter st_compensatable steps)
          \<and> rs = restored @ restored_ids bs \<and> subseq (restored_ids bs) (map st_step_id steps)
          \<and> (rec \<longleftrightarrow> recovery \<or> restored_ids bs \<noteq> map st_step_id steps))"

definition comp_start_raw :: "tx_plan \<Rightarrow> tx_snapshot \<Rightarrow> tx_step \<Rightarrow> tx_body" where
  "comp_start_raw plan snap step = (plain_body COMPENSATION_STARTED
             (''transaction:'' @ pl_transaction_id plan @ '':compensation-started:'' @ st_step_id step))
             \<lparr>te_step_id := Some (st_step_id step), te_snapshot_ref := Some (sn_snapshot_ref snap)\<rparr>"

definition comp_done_raw :: "tx_step \<Rightarrow> comp_result \<Rightarrow> tx_body" where
  "comp_done_raw step c = (plain_body COMPENSATION_RECORDED (co_evidence_ref c))
             \<lparr>te_step_id := Some (st_step_id step), te_status := Some (comp_status_name (co_status c)),
              te_snapshot_ref := Some (co_snapshot_ref c)\<rparr>"

abbreviation comp_start_body :: "tx_plan \<Rightarrow> tx_snapshot \<Rightarrow> tx_step \<Rightarrow> tx_body" where
  "comp_start_body plan snap step \<equiv> norm_body (comp_start_raw plan snap step)"

abbreviation comp_done_body :: "tx_step \<Rightarrow> comp_result \<Rightarrow> tx_body" where
  "comp_done_body step c \<equiv> norm_body (comp_done_raw step c)"

lemma comp_bodies_read [simp]:
  "te_step_id (comp_start_raw plan snap step) = Some (st_step_id step)"
  "te_event_type (comp_start_raw plan snap step) = COMPENSATION_STARTED"
  "te_snapshot_ref (comp_start_raw plan snap step) = Some (sn_snapshot_ref snap)"
  "te_step_id (comp_done_raw step c) = Some (st_step_id step)"
  "te_event_type (comp_done_raw step c) = COMPENSATION_RECORDED"
  "te_snapshot_ref (comp_done_raw step c) = Some (co_snapshot_ref c)"
  "te_status (comp_done_raw step c) = Some (comp_status_name (co_status c))"
  by (simp_all add: comp_start_raw_def comp_done_raw_def plain_body_def)

lemma observesD:
  assumes "observes d calls"
  shows "dr_prepare_snapshot d p w = (r1, w1) \<Longrightarrow> calls w1 = calls w"
    and "dr_execute_step d s w = (r2, w1) \<Longrightarrow> calls w1 = calls w @ [(True, st_step_id s)]"
    and "dr_verify_postcondition d s e w = (r3, w1) \<Longrightarrow> calls w1 = calls w"
    and "dr_compensate_step d s n w = (r4, w1) \<Longrightarrow> calls w1 = calls w @ [(False, st_step_id s)]"
    and "dr_success_receipt d p n w = (r5, w1) \<Longrightarrow> calls w1 = calls w"
  using assms unfolding observes_def by (metis snd_conv)+

lemma comp_status_name_restored [simp]:
  "comp_status_name k = ''RESTORED'' \<longleftrightarrow> k = COMP_RESTORED"
  by (cases k) simp_all

lemma tx_text_truthy: "tx_text v f = Inr t \<Longrightarrow> truthy (Some t)"
  by (auto simp: tx_text_def res_simps truthy_def)

text \<open>A settled compensation names a snapshot.\<close>

lemma make_compensation_ref: "make_compensation a = Inr c \<Longrightarrow> truthy (Some (co_snapshot_ref c))"
  by (cases a) (auto elim!: bindE_InrE dest: tx_text_truthy)

lemma settle_compensation_ref:
  assumes "settle_compensation plan step snap (receive make_compensation ident r) = Inr c"
  shows "truthy (Some (co_snapshot_ref c))"
proof (cases "receive make_compensation ident r")
  case (Inl cls)
  then show ?thesis using assms make_compensation_ref by (simp add: settle_compensation_def del: make_compensation.simps)
next
  case (Inr x)
  then have "x = c" using assms by (simp add: settle_compensation_def)
  moreover obtain a where "make_compensation a = Inr x"
    using Inr by (cases r) (auto split: sum.splits if_splits simp del: make_compensation.simps)
  ultimately show ?thesis using make_compensation_ref by blast
qed

lemma comp_start_passes:
  "st_step_id step \<in> set ids \<Longrightarrow> truthy (Some (sn_snapshot_ref snap)) \<Longrightarrow>
     check_event ids (idle l) (comp_start_body plan snap step)
       = Inr ((idle l)\<lparr>ck_compensation := (\<lambda>_. 0)(st_step_id step := 1)\<rparr>)"
  by (rule check_comp_started) simp_all

lemma comp_pair:
  assumes "st_step_id step \<in> set ids" and "truthy (Some (sn_snapshot_ref snap))"
    and "truthy (Some (co_snapshot_ref c))"
  shows "check_events ids (idle l) [comp_start_body plan snap step, comp_done_body step c] = Inr (idle l)"
proof -
  have "check_event ids ((idle l)\<lparr>ck_compensation := (\<lambda>_. 0)(st_step_id step := 1)\<rparr>)
      (comp_done_body step c) = Inr (idle l)"
    using assms by (intro check_comp_recorded) simp_all
  then show ?thesis using assms by (simp add: comp_start_passes)
qed

lemma passes_single:
  "check_event ids ck b = Inr ck' \<Longrightarrow> te_event_type b \<noteq> PLAN_REGISTERED \<Longrightarrow> passes ids ck [b]"
  by (simp add: passes_def)

lemma ids_where_none: "\<forall>b \<in> set bs. \<not> P b \<Longrightarrow> ids_where P bs = []"
  by (induction bs) simp_all

lemma comp_loop_post_stop:
  "passes ids (idle l) bs \<Longrightarrow> \<forall>b \<in> set bs. te_event_type b = COMPENSATION_STARTED \<Longrightarrow>
     comp_loop_post ids l steps restored recovery (Inl e) bs"
  by (simp add: comp_loop_post_def id_reads ids_where_none)

lemma comp_loop_post_step:
  assumes "comp_loop_post ids l steps (restored @ (if ok then [st_step_id step] else []))
       (if ok then recovery else True) r bs"
    and "st_step_id step \<in> set ids" and "truthy (Some (sn_snapshot_ref snap))"
    and "truthy (Some (co_snapshot_ref c))" and "ok \<longleftrightarrow> co_status c = COMP_RESTORED"
    and "st_compensatable step"
  shows "comp_loop_post ids l (step # steps) restored recovery r
     (comp_start_body plan snap step # comp_done_body step c # bs)"
proof -
  note chk = comp_pair [OF assms(2-4), of l plan]
  have "passes ids (idle l) ([comp_start_body plan snap step, comp_done_body step c] @ bs)"
    unfolding passes_append [OF chk] using assms(1) by (simp add: comp_loop_post_def)
  moreover have "length (restored_ids bs) \<le> length steps"
    if "subseq (restored_ids bs) (map st_step_id steps)"
    using list_emb_length [OF that] by simp
  moreover have "check_events ids (idle l) ([comp_start_body plan snap step, comp_done_body step c] @ bs)
      = check_events ids (idle l) bs"
    unfolding check_events_append chk by simp
  ultimately show ?thesis
    using assms(1,5,6)
    unfolding comp_loop_post_def id_reads
    by (cases ok) (auto split: if_splits)
qed

lemma comp_loop_post_skip:
  "comp_loop_post ids l steps restored True r bs \<Longrightarrow> \<not> st_compensatable step \<Longrightarrow>
     comp_loop_post ids l (step # steps) restored recovery r bs"
  unfolding comp_loop_post_def by (auto dest: list_emb_length)

lemma comp_loop_emits:
  assumes "st_step_id ` set steps \<subseteq> set ids" and "truthy (Some (sn_snapshot_ref snap))"
  shows "emits (pl_transaction_id plan) db
     (comp_loop plan snap d steps evidence restored recovery rref (db, w))
     (\<lambda>r bs db' w'. comp_loop_post ids l steps restored recovery r bs
        \<and> (observes d calls \<longrightarrow> calls w' = calls w @ announced bs))"
  using assms(1)
proof (induction steps arbitrary: evidence restored recovery rref db w)
  case Nil
  then show ?case
    by (simp only: comp_loop.simps) (rule emits_ret, simp add: comp_loop_post_def id_reads)
next
  case (Cons step steps)
  show ?case
  proof (cases "st_compensatable step")
    case False
    show ?thesis
      using Cons False
      by (simp add: Let_def) (rule emits_mono, assumption?, auto intro: comp_loop_post_skip)
  next
    case True
    have mem: "st_step_id step \<in> set ids" and sub: "st_step_id ` set steps \<subseteq> set ids"
      using Cons.prems by auto
    show ?thesis
      unfolding comp_loop.simps comp_start_raw_def [symmetric] comp_done_raw_def [symmetric]
        if_not_P [OF notI [OF notE [OF _ True]]]
      apply (subst if_not_P)
       apply (simp add: True)
      apply (rule emits_append)
       apply (simp add: comp_loop_post_stop)
      apply (rule emits_attempt)
      apply (rule emits_lift_bind)
       subgoal for db1 r w1 e
         using mem assms(2)
         by (auto simp: observesD intro!: comp_loop_post_stop passes_single comp_start_passes)
      apply (rule emits_append)
       subgoal for db1 r w1 c
         using mem assms(2)
         by (auto simp: observesD intro!: comp_loop_post_stop passes_single comp_start_passes)
      subgoal premises pr for db1 r w1 c db2
      proof -
        have ref: "truthy (Some (co_snapshot_ref c))" using settle_compensation_ref pr(3) .
        note step = comp_loop_post_step [OF _ mem assms(2) ref refl True]
        show ?thesis
        proof (cases "co_status c = COMP_RESTORED")
          case True
          show ?thesis
            unfolding if_P [OF True]
            by (rule emits_mono [OF Cons.IH [OF sub]])
              (use True pr(2) step in \<open>auto simp: observesD\<close>)
        next
          case False
          show ?thesis
            unfolding if_not_P [OF False]
            by (rule emits_mono [OF Cons.IH [OF sub]])
              (use False pr(2) step in \<open>auto simp: observesD\<close>)
        qed
      qed
      done
  qed
qed

definition rx_agrees :: "tx_plan \<Rightarrow> 'a tx_db_scheme \<Rightarrow> tx_result \<Rightarrow> bool" where
  "rx_agrees plan db x \<longleftrightarrow> get_operation db (pl_operation_id plan) = Inr (rx_operation x)
     \<and> (case rx_status x of
          COMPLETE \<Rightarrow> or_recorded_state (rx_operation x) = ST_SUCCEEDED
        | COMPENSATED \<Rightarrow> or_recorded_state (rx_operation x) = ST_FAILED
        | RECOVERY_REQUIRED_STATUS \<Rightarrow> or_recorded_state (rx_operation x) = ST_UNKNOWN
        | TX_UNKNOWN \<Rightarrow> False)"

definition comp_post ::
  "tx_plan \<Rightarrow> string list \<Rightarrow> int \<Rightarrow> tx_step list \<Rightarrow> bool \<Rightarrow> tx_result res \<Rightarrow> tx_body list
     \<Rightarrow> 'a tx_db_scheme \<Rightarrow> bool" where
  "comp_post plan ids l changed unknown r bs db \<longleftrightarrow>
     passes ids (idle l) bs \<and> ids_of STEP_EXECUTION_STARTED bs = [] \<and> applied_ids bs = []
     \<and> satisfied_ids bs = []
     \<and> (\<forall>x. r = Inr x \<longrightarrow>
          rx_agrees plan db x
          \<and> rx_executed_step_ids x = map st_step_id changed
          \<and> rx_compensated_step_ids x = restored_ids bs
          \<and> ids_of COMPENSATION_STARTED bs = map st_step_id (filter st_compensatable (rev changed))
          \<and> subseq (restored_ids bs) (map st_step_id (rev changed))
          \<and> rx_status x = (if unknown \<or> restored_ids bs \<noteq> map st_step_id (rev changed)
                           then RECOVERY_REQUIRED_STATUS else COMPENSATED))"

lemma make_result_Inr:
  "make_result st tid oid snap ex co fl ev op = Inr x \<Longrightarrow>
     rx_status x = st \<and> rx_executed_step_ids x = ex \<and> rx_compensated_step_ids x = co \<and> rx_operation x = op"
  unfolding make_result_def by (elim bindE_InrE) auto

lemma journal_emits:
  assumes "g db = op_terminal (pl_operation_id plan) k ev rc fp db" and "k \<in> {SUCCEEDED, FAILED, UNKNOWN}"
    and "\<And>e. Q (Inl e) [] db w"
    and "\<And>op db1 r. get_operation db1 (pl_operation_id plan) = Inr op \<Longrightarrow>
           or_recorded_state op = terminal_state k \<Longrightarrow>
           r = make_result st tid oid snap ex co fl evs op \<Longrightarrow> Q r [] db1 w"
  shows "emits tid db (bindS (journal_do g) (\<lambda>op. liftS (make_result st tid oid snap ex co fl evs op)) (db, w)) Q"
proof (rule emits_journal)
  fix x db1
  assume g: "g db = Inr (x, db1)"
  then show "tx_ext tid [] db db1" using assms(1,2) op_terminal_ext by metis
  have "get_operation db1 (pl_operation_id plan) = Inr x \<and> or_recorded_state x = terminal_state k"
    using op_terminal_result g assms(1,2) by metis
  then show "emits tid db1 (liftS (make_result st tid oid snap ex co fl evs x) (db1, w)) (\<lambda>r cs. Q r cs)"
    by (intro emits_lift assms(4) refl) simp_all
qed (rule assms(3))

definition recovery_raw :: "tx_snapshot \<Rightarrow> string option \<Rightarrow> string \<Rightarrow> tx_body" where
  "recovery_raw snap failed ref = (plain_body RECOVERY_REQUIRED ref)
     \<lparr>te_step_id := failed, te_snapshot_ref := Some (sn_snapshot_ref snap)\<rparr>"

lemma recovery_raw_read [simp]:
  "te_step_id (recovery_raw snap failed ref) = failed"
  "te_event_type (recovery_raw snap failed ref) = RECOVERY_REQUIRED"
  "te_snapshot_ref (recovery_raw snap failed ref) = Some (sn_snapshot_ref snap)"
  by (simp_all add: recovery_raw_def plain_body_def)

lemma check_events_snoc:
  "check_events ids ck bs = Inr ck' \<Longrightarrow> check_event ids ck' b = Inr ck'' \<Longrightarrow>
     check_events ids ck (bs @ [b]) = Inr ck''"
  by (simp add: check_events_append)

lemma compensate_emits:
  assumes "st_step_id ` set changed \<subseteq> set ids" and "truthy (Some (sn_snapshot_ref snap))"
    and "pred_option (\<lambda>s. s \<in> set ids) failed"
  shows "emits (pl_transaction_id plan) db (compensate plan snap d changed evidence unknown failed (db, w))
     (\<lambda>r bs db' w'. comp_post plan ids l changed unknown r bs db'
        \<and> (observes d calls \<longrightarrow> calls w' = calls w @ announced bs))"
  unfolding compensate_def Let_def
  apply (rule emits_bind)
    apply (rule comp_loop_emits [where ids = ids and l = l and calls = calls])
     apply (use assms(1) in simp)
    apply (rule assms(2))
   apply (simp add: comp_loop_post_def comp_post_def)
  subgoal premises pr for x bs db1 w1
  proof -
    obtain ev rs rec rref where x: "x = (ev, rs, rec, rref)" by (metis prod.exhaust)
    note loop = pr(1) [unfolded x comp_loop_post_def, simplified]
    have chk: "check_events ids (idle l) (bs @ [norm_body (recovery_raw snap failed ref)]) = Inr (idle l)"
      for ref
      by (rule check_events_snoc [OF _ check_recovery]) (use loop assms(2,3) in simp_all)
    show ?thesis
    proof (cases rec)
      case True
      show ?thesis
        unfolding x prod.case if_P [OF True] recovery_raw_def [symmetric]
        apply (rule emits_append)
         apply (use loop in \<open>simp add: comp_post_def\<close>)
        apply (rule journal_emits [OF mark_unknown_def])
          apply simp
        subgoal premises b for db2 e
          using loop chk by (simp add: comp_post_def id_reads passes_def split: option.split)
        subgoal premises b for db2 op db3 r
          using loop True chk b(2-4)
          by (auto simp: comp_post_def rx_agrees_def id_reads passes_def dest!: make_result_Inr split: option.split)
        done
    next
      case False
      show ?thesis
        unfolding x prod.case if_not_P [OF False]
        apply (rule journal_emits [OF complete_failure_def])
          apply simp
         apply (use loop in \<open>simp add: comp_post_def\<close>)
        subgoal for op db2 r
          using loop False by (auto simp: comp_post_def rx_agrees_def dest: make_result_Inr)
        done
    qed
  qed
  done

subsection \<open>The loop over the steps\<close>

definition start_raw :: "tx_plan \<Rightarrow> tx_snapshot \<Rightarrow> tx_step \<Rightarrow> tx_body" where
  "start_raw plan snap step = (plain_body STEP_EXECUTION_STARTED
          (''transaction:'' @ pl_transaction_id plan @ '':execution-started:'' @ st_step_id step))
          \<lparr>te_step_id := Some (st_step_id step), te_snapshot_ref := Some (sn_snapshot_ref snap)\<rparr>"

definition exec_raw :: "tx_snapshot \<Rightarrow> tx_step \<Rightarrow> step_execution \<Rightarrow> tx_body" where
  "exec_raw snap step e = (plain_body STEP_EXECUTION_RECORDED (ex_evidence_ref e))
          \<lparr>te_step_id := Some (st_step_id step), te_status := Some (step_status_name (ex_status e)),
           te_change_state := Some (change_state_name (ex_change_state e)),
           te_snapshot_ref := Some (sn_snapshot_ref snap),
           te_result_fingerprint := ex_result_fingerprint e\<rparr>"

definition post_raw :: "tx_snapshot \<Rightarrow> tx_step \<Rightarrow> post_result \<Rightarrow> tx_body" where
  "post_raw snap step p = (plain_body POSTCONDITION_RECORDED (po_evidence_ref p))
            \<lparr>te_step_id := Some (st_step_id step), te_status := Some (post_status_name (po_status p)),
             te_snapshot_ref := Some (sn_snapshot_ref snap)\<rparr>"

lemma step_raw_read [simp]:
  "te_step_id (start_raw plan snap step) = Some (st_step_id step)"
  "te_event_type (start_raw plan snap step) = STEP_EXECUTION_STARTED"
  "te_snapshot_ref (start_raw plan snap step) = Some (sn_snapshot_ref snap)"
  "te_step_id (exec_raw snap step e) = Some (st_step_id step)"
  "te_event_type (exec_raw snap step e) = STEP_EXECUTION_RECORDED"
  "te_status (exec_raw snap step e) = Some (step_status_name (ex_status e))"
  "te_change_state (exec_raw snap step e) = Some (change_state_name (ex_change_state e))"
  "te_step_id (post_raw snap step p) = Some (st_step_id step)"
  "te_event_type (post_raw snap step p) = POSTCONDITION_RECORDED"
  "te_status (post_raw snap step p) = Some (post_status_name (po_status p))"
  "te_change_state (post_raw snap step p) = None"
  by (simp_all add: start_raw_def exec_raw_def post_raw_def plain_body_def)

lemma names_decide [simp]:
  "change_state_name c = ''APPLIED'' \<longleftrightarrow> c = APPLIED"
  "post_status_name p = ''SATISFIED'' \<longleftrightarrow> p = POST_SATISFIED"
  by (cases c; simp) (cases p; simp)

text \<open>
  The events of one step, up to its execution and up to its postcondition: they leave the
  validation loop idle at the ordinal of the step.
\<close>

definition exec_block :: "tx_plan \<Rightarrow> tx_snapshot \<Rightarrow> tx_step \<Rightarrow> step_execution \<Rightarrow> tx_body list" where
  "exec_block plan snap step e = [norm_body (start_raw plan snap step), norm_body (exec_raw snap step e)]"

definition post_block ::
  "tx_plan \<Rightarrow> tx_snapshot \<Rightarrow> tx_step \<Rightarrow> step_execution \<Rightarrow> post_result \<Rightarrow> tx_body list" where
  "post_block plan snap step e p = exec_block plan snap step e @ [norm_body (post_raw snap step p)]"

lemma check_step_started:
  assumes "st_step_id step \<in> set ids" and "l \<le> index_of (st_step_id step) ids"
    and "truthy (Some (sn_snapshot_ref snap))"
  shows "check_event ids (idle l) (norm_body (start_raw plan snap step))
     = Inr ((idle (index_of (st_step_id step) ids))\<lparr>ck_execution := (\<lambda>_. 0)(st_step_id step := 1)\<rparr>)"
  using assms by (intro check_started) simp_all

lemma check_exec_block:
  assumes "st_step_id step \<in> set ids" and "l \<le> index_of (st_step_id step) ids"
    and "truthy (Some (sn_snapshot_ref snap))"
  shows "check_events ids (idle l) (exec_block plan snap step e) = Inr (idle (index_of (st_step_id step) ids))"
proof -
  have "check_event ids ((idle (index_of (st_step_id step) ids))\<lparr>ck_execution := (\<lambda>_. 0)(st_step_id step := 1)\<rparr>)
      (norm_body (exec_raw snap step e)) = Inr (idle (index_of (st_step_id step) ids))"
    using assms(1) by (intro check_recorded) simp_all
  then show ?thesis using check_step_started [OF assms] by (simp add: exec_block_def)
qed

lemma check_post_block:
  assumes "st_step_id step \<in> set ids" and "l \<le> index_of (st_step_id step) ids"
    and "truthy (Some (sn_snapshot_ref snap))"
  shows "check_events ids (idle l) (post_block plan snap step e p) = Inr (idle (index_of (st_step_id step) ids))"
  unfolding post_block_def
  by (rule check_events_snoc [OF check_exec_block [OF assms]]) (use assms(1) in \<open>intro check_post; simp\<close>)

definition reads_one :: "tx_step \<Rightarrow> tx_body list \<Rightarrow> bool \<Rightarrow> bool \<Rightarrow> bool" where
  "reads_one step bs applied satisfied \<longleftrightarrow> ids_of STEP_EXECUTION_STARTED bs = [st_step_id step]
     \<and> applied_ids bs = (if applied then [st_step_id step] else [])
     \<and> satisfied_ids bs = (if satisfied then [st_step_id step] else [])
     \<and> ids_of COMPENSATION_STARTED bs = [] \<and> restored_ids bs = []
     \<and> announced bs = [(True, st_step_id step)] \<and> no_plan bs"

lemma reads_blocks:
  "reads_one step [norm_body (start_raw plan snap step)] False False"
  "reads_one step (exec_block plan snap step e) (ex_change_state e = APPLIED) False"
  "reads_one step (post_block plan snap step e p) (ex_change_state e = APPLIED) (po_status p = POST_SATISFIED)"
  by (simp_all add: reads_one_def exec_block_def post_block_def id_reads)

lemma no_plan_blocks [simp]:
  "no_plan (exec_block plan snap step e)" "no_plan (post_block plan snap step e p)"
  using reads_blocks(2,3) by (auto simp: reads_one_def)

definition step_loop_post ::
  "tx_plan \<Rightarrow> string list \<Rightarrow> int \<Rightarrow> tx_step list \<Rightarrow> tx_step list
     \<Rightarrow> (tx_result + (string list \<times> tx_step list)) res \<Rightarrow> tx_body list \<Rightarrow> 'a tx_db_scheme \<Rightarrow> bool" where
  "step_loop_post plan ids l steps changed r bs db \<longleftrightarrow>
     passes ids (idle l) bs \<and> prefix (ids_of STEP_EXECUTION_STARTED bs) (map st_step_id steps)
     \<and> (\<forall>x. r = Inr (Inl x) \<longrightarrow>
          (\<exists>ch. map st_step_id ch = map st_step_id changed @ applied_ids bs
             \<and> set ch \<subseteq> set changed \<union> set steps
             \<and> rx_agrees plan db x \<and> rx_status x \<noteq> COMPLETE
             \<and> rx_executed_step_ids x = map st_step_id ch
             \<and> rx_compensated_step_ids x = restored_ids bs
             \<and> ids_of COMPENSATION_STARTED bs = map st_step_id (filter st_compensatable (rev ch))
             \<and> subseq (restored_ids bs) (map st_step_id (rev ch))
             \<and> (rx_status x = COMPENSATED \<longrightarrow> restored_ids bs = map st_step_id (rev ch))))
     \<and> (\<forall>ev ch. r = Inr (Inr (ev, ch)) \<longrightarrow>
          map st_step_id ch = map st_step_id changed @ applied_ids bs
          \<and> set ch \<subseteq> set changed \<union> set steps
          \<and> (\<exists>l'. check_events ids (idle l) bs = Inr (idle l'))
          \<and> ids_of STEP_EXECUTION_STARTED bs = map st_step_id steps
          \<and> satisfied_ids bs = map st_step_id steps
          \<and> ids_of COMPENSATION_STARTED bs = [] \<and> restored_ids bs = [])"

lemma step_loop_post_stop:
  "passes ids (idle l) bs \<Longrightarrow> reads_one step bs a s \<Longrightarrow>
     step_loop_post plan ids l (step # steps) changed (Inl e) bs db"
  by (simp add: step_loop_post_def reads_one_def)

lemma reads_append [simp]:
  "ids_of k (bs @ cs) = ids_of k bs @ ids_of k cs"
  "applied_ids (bs @ cs) = applied_ids bs @ applied_ids cs"
  "satisfied_ids (bs @ cs) = satisfied_ids bs @ satisfied_ids cs"
  "restored_ids (bs @ cs) = restored_ids bs @ restored_ids cs"
  by (simp_all add: id_reads)

lemma step_loop_post_comp:
  assumes "check_events ids (idle l) pre = Inr (idle l')" and "reads_one step pre a s"
    and "comp_post plan ids l' (if a then changed @ [step] else changed) unknown r bs db"
  shows "step_loop_post plan ids l (step # steps) changed (case r of Inl e \<Rightarrow> Inl e | Inr x \<Rightarrow> Inr (Inl x))
     (pre @ bs) db"
proof -
  obtain ch where ch: "ch = (if a then changed @ [step] else changed)" by blast
  have sub: "set ch \<subseteq> set changed \<union> set (step # steps)" by (auto simp: ch)
  have ids: "map st_step_id ch = map st_step_id changed @ applied_ids pre"
    using assms(2) by (simp add: ch reads_one_def)
  have "\<exists>ch. map st_step_id ch = map st_step_id changed @ applied_ids (pre @ bs)
             \<and> set ch \<subseteq> set changed \<union> set (step # steps)
             \<and> rx_agrees plan db x \<and> rx_status x \<noteq> COMPLETE
             \<and> rx_executed_step_ids x = map st_step_id ch
             \<and> rx_compensated_step_ids x = restored_ids (pre @ bs)
             \<and> ids_of COMPENSATION_STARTED (pre @ bs) = map st_step_id (filter st_compensatable (rev ch))
             \<and> subseq (restored_ids (pre @ bs)) (map st_step_id (rev ch))
             \<and> (rx_status x = COMPENSATED \<longrightarrow> restored_ids (pre @ bs) = map st_step_id (rev ch))"
    if "r = Inr x" for x
    using assms(2) assms(3) [folded ch] that sub ids
    by (intro exI [of _ ch]) (simp add: comp_post_def reads_one_def del: set_simps)
  moreover have "passes ids (idle l) (pre @ bs)"
    unfolding passes_append [OF assms(1)] using assms(2,3) by (simp add: comp_post_def reads_one_def)
  moreover have "prefix (ids_of STEP_EXECUTION_STARTED (pre @ bs)) (map st_step_id (step # steps))"
    using assms(2,3) by (simp add: comp_post_def reads_one_def)
  ultimately show ?thesis unfolding step_loop_post_def by (cases r) simp_all
qed

lemma step_loop_post_next:
  assumes "check_events ids (idle l) pre = Inr (idle l')" and "reads_one step pre a True"
    and "step_loop_post plan ids l' steps (if a then changed @ [step] else changed) r bs db"
  shows "step_loop_post plan ids l (step # steps) changed r (pre @ bs) db"
proof -
  let ?ch = "if a then changed @ [step] else changed"
  have np: "no_plan pre" using assms(2) by (simp add: reads_one_def)
  have ch: "map st_step_id ?ch @ applied_ids bs = map st_step_id changed @ applied_ids (pre @ bs)"
    "set ?ch \<union> set steps \<subseteq> set changed \<union> set (step # steps)"
    using assms(2) by (auto simp: reads_one_def)
  have reads: "restored_ids (pre @ bs) = restored_ids bs"
    "ids_of COMPENSATION_STARTED (pre @ bs) = ids_of COMPENSATION_STARTED bs"
    "ids_of STEP_EXECUTION_STARTED (pre @ bs) = st_step_id step # ids_of STEP_EXECUTION_STARTED bs"
    "satisfied_ids (pre @ bs) = st_step_id step # satisfied_ids bs"
    using assms(2) by (simp_all add: reads_one_def)
  show ?thesis
    using assms(3) ch(2) np
    unfolding step_loop_post_def reads ch(1) passes_append [OF assms(1)]
      check_events_append [of _ _ pre] assms(1) bindE_Inr list.map
    by (auto 4 4 simp del: reads_append)
qed

lemma compensate_ret_emits:
  assumes "st_step_id ` set changed \<subseteq> set ids" and "truthy (Some (sn_snapshot_ref snap))"
    and "pred_option (\<lambda>s. s \<in> set ids) failed"
  shows "emits (pl_transaction_id plan) db
     (bindS (compensate plan snap d changed evidence unknown failed) (\<lambda>x. retS (Inl x)) (db, w))
     (\<lambda>r bs db' w'. (\<exists>r0. comp_post plan ids l changed unknown r0 bs db'
           \<and> r = (case r0 of Inl e \<Rightarrow> Inl e | Inr x \<Rightarrow> Inr (Inl x)))
        \<and> (observes d calls \<longrightarrow> calls w' = calls w @ announced bs))"
  apply (rule emits_bind)
    apply (rule compensate_emits [where ids = ids and l = l and calls = calls, OF assms])
   apply (force intro: exI [of _ "Inl _"])
  apply (rule emits_ret)
  apply simp
  apply (metis sum.case(2))
  done


lemma index_of_length: "x \<notin> set xs \<Longrightarrow> index_of x (xs @ x # ys) = int (length xs)"
  by (induction xs) auto

lemma comp_branch_emits:
  assumes "st_step_id ` set (if a then changed @ [step] else changed) \<subseteq> set ids"
    and "truthy (Some (sn_snapshot_ref snap))" and "st_step_id step \<in> set ids"
    and "check_events ids (idle l) pre = Inr (idle l')" and "reads_one step pre a s"
  shows "emits (pl_transaction_id plan) db
     (bindS (compensate plan snap d (if a then changed @ [step] else changed) evidence unknown
        (Some (st_step_id step))) (\<lambda>x. retS (Inl x)) (db, w))
     (\<lambda>r bs db' w'. step_loop_post plan ids l (step # steps) changed r (pre @ bs) db'
        \<and> (observes d calls \<longrightarrow> calls w' = calls w @ announced bs))"
  by (rule emits_mono [OF compensate_ret_emits [where l = l' and calls = calls, OF assms(1,2)]])
    (use assms(3) step_loop_post_comp [OF assms(4,5)] in auto)

lemma emits_if:
  "(b \<Longrightarrow> emits tid db (f s) Q) \<Longrightarrow> (\<not> b \<Longrightarrow> emits tid db (g s) Q) \<Longrightarrow>
     emits tid db ((if b then f else g) s) Q"
  by simp

lemma step_loop_emits:
  assumes "truthy (Some (sn_snapshot_ref snap))" and "ids = before @ map st_step_id steps" and "distinct ids"
    and "l \<le> int (length before)" and "st_step_id ` set changed \<subseteq> set ids"
  shows "emits (pl_transaction_id plan) db
     (step_loop plan snap d steps evidence changed (db, w))
     (\<lambda>r bs db' w'. step_loop_post plan ids l steps changed r bs db'
        \<and> (observes d calls \<longrightarrow> calls w' = calls w @ announced bs))"
  using assms(2,4,5)
proof (induction steps arbitrary: before l evidence changed db w)
  case Nil
  then show ?case
    by (simp only: step_loop.simps) (rule emits_ret, auto simp: step_loop_post_def id_reads)
next
  case (Cons step steps)
  have ix: "index_of (st_step_id step) ids = int (length before)"
    using Cons.prems(1) assms(3) index_of_length by auto
  have mem: "st_step_id step \<in> set ids" using Cons.prems(1) by simp
  have l: "l \<le> index_of (st_step_id step) ids" using Cons.prems(2) ix by simp
  note chk = check_step_started [OF mem l assms(1)] check_exec_block [OF mem l assms(1)]
    check_post_block [OF mem l assms(1)]
  show ?case
    unfolding step_loop.simps Let_def start_raw_def [symmetric] exec_raw_def [symmetric]
      post_raw_def [symmetric]
    apply (rule emits_append)
     apply (simp add: step_loop_post_def id_reads)
    apply (rule emits_attempt)
    apply (rule emits_lift_bind)
     subgoal premises p for db1 r w1 e
       using step_loop_post_stop [OF passes_single [OF chk(1)] reads_blocks(1)] p
       by (simp add: observesD)
    apply (rule emits_append)
     subgoal premises p for db1 r w1 e
       using step_loop_post_stop [OF passes_single [OF chk(1)] reads_blocks(1)] p
       by (simp add: observesD)
    subgoal premises p for db1 r w1 e db2
    proof -
      let ?ch = "if ex_change_state e = APPLIED then changed @ [step] else changed"
      have sub: "st_step_id ` set ?ch \<subseteq> set ids" using Cons.prems(3) mem by auto
      have block: "norm_body (start_raw plan snap step) # norm_body (exec_raw snap step e) # cs
          = exec_block plan snap step e @ cs" for cs
        by (simp add: exec_block_def)
      have calls: "calls w1 = calls w @ [(True, st_step_id step)]" if "observes d calls"
        using p(2) that by (simp add: observesD)
      have annE: "announced (exec_block plan snap step e) = [(True, st_step_id step)]"
        and annP: "announced (post_block plan snap step e q) = [(True, st_step_id step)]" for q
        using reads_blocks(2,3) by (auto simp: reads_one_def)
      note branch = comp_branch_emits [where calls = calls and steps = steps and plan = plan,
          OF sub assms(1) mem]
      have stop: "step_loop_post plan ids l (step # steps) changed (Inl x) (exec_block plan snap step e) db'"
        for x db'
        by (rule step_loop_post_stop [OF _ reads_blocks(2)]) (simp add: passes_def chk(2))
      have stop': "step_loop_post plan ids l (step # steps) changed (Inl x) (post_block plan snap step e q) db'"
        for x q db'
        by (rule step_loop_post_stop [OF _ reads_blocks(3)]) (simp add: passes_def chk(3))
      show ?thesis
        unfolding block
        apply (rule emits_if)
         apply (rule emits_mono [OF branch [OF chk(2) reads_blocks(2)]])
         apply (simp add: calls annE)
        apply (rule emits_if)
         apply (rule emits_mono [OF branch [OF chk(2) reads_blocks(2)]])
         apply (simp add: calls annE)
        apply (rule emits_attempt)
        subgoal premises q for r2 w2
        proof -
          have calls2: "calls w2 = calls w @ [(True, st_step_id step)]" if "observes d calls"
            using observesD(3) [OF that q(3)] calls [OF that] by simp
          show ?thesis
            apply (rule emits_lift_bind)
             apply (simp add: stop annE calls2)
            apply (rule emits_append)
             apply (simp add: stop annE calls2)
            subgoal premises q2 for pr db3
            proof -
              have block2: "exec_block plan snap step e @ norm_body (post_raw snap step pr) # cs
                  = post_block plan snap step e pr @ cs" for cs
                by (simp add: post_block_def)
              show ?thesis
                unfolding block2
                apply (rule emits_if)
                 apply (rule emits_mono [OF branch [OF chk(3) reads_blocks(3)]])
                 apply (simp add: calls2 annP)
                apply (rule emits_mono [OF Cons.IH [where l = "index_of (st_step_id step) ids"]])
                   apply (use Cons.prems(1) in simp)
                  apply (simp add: ix)
                 apply (rule sub)
                subgoal premises q3 for r4 cs db4 w4
                proof -
                  have "reads_one step (post_block plan snap step e pr) (ex_change_state e = APPLIED) True"
                    using reads_blocks(3) [of step plan snap e pr] q3(1) by simp
                  then have "step_loop_post plan ids l (step # steps) changed r4
                      (post_block plan snap step e pr @ cs) db4"
                    by (rule step_loop_post_next [OF chk(3)]) (use q3(2) in blast)
                  then show ?thesis using q3(2) calls2 annP by simp
                qed
                done
            qed
            done
        qed
        done
    qed
    done
qed

subsection \<open>Registration\<close>

text \<open>A plan its constructors made.\<close>

definition made_step :: "tx_step \<Rightarrow> bool" where
  "made_step s \<longleftrightarrow> make_step (st_step_id s) (st_description s) (st_postcondition_ref s)
     (st_compensatable s) (st_depends_on s) = Inr s"

definition made_plan :: "tx_plan \<Rightarrow> bool" where
  "made_plan plan \<longleftrightarrow>
     make_plan (pl_transaction_id plan) (pl_operation_id plan) (pl_steps plan) = Inr plan
     \<and> list_all made_step (pl_steps plan)"

lemma tx_text_trimmed: "tx_text v f = Inr t \<Longrightarrow> trimmed t"
  by (simp add: tx_text_def require_text_trimmed)

lemma tx_text_idem: "trimmed t \<Longrightarrow> tx_text t f = Inr t"
  by (simp add: tx_text_def)

lemma tx_texts_trimmed: "mapE (\<lambda>d. tx_text d f) ds = Inr ts \<Longrightarrow> list_all trimmed ts"
  by (induction ds arbitrary: ts) (auto elim!: bindE_InrE dest: tx_text_trimmed)

lemma tx_texts_idem: "list_all trimmed ts \<Longrightarrow> mapE (\<lambda>d. tx_text d f) ts = Inr ts"
  by (induction ts) (simp_all add: tx_text_idem)

lemma make_step_made: "make_step a b c k ds = Inr s \<Longrightarrow> made_step s"
  unfolding made_step_def make_step_def
  by (auto elim!: bindE_InrE simp: guardE_eq_Inr tx_text_idem tx_texts_idem
      dest!: tx_text_trimmed tx_texts_trimmed)

lemma make_plan_made:
  assumes "make_plan t oid steps = Inr plan" and "list_all made_step steps"
  shows "made_plan plan"
  using assms unfolding made_plan_def make_plan_def
  by (auto elim!: bindE_InrE simp: guardE_eq_Inr tx_text_idem dest!: tx_text_trimmed)

lemma made_plan_ids: "made_plan plan \<Longrightarrow> distinct (plan_ids plan) \<and> pl_steps plan \<noteq> []"
  by (auto simp: made_plan_def make_plan_def plan_ids_def guardE_eq_Inr elim!: bindE_InrE)

lemma json_texts_map: "json_texts (map JStr ds) = Some ds"
  by (induction ds) simp_all

text \<open>The dependency column round trips.\<close>

lemma dependencies_of_dumps: "dependencies_of (dumps True (JList (map JStr ds))) = Inr ds"
proof -
  have "wf_json (JList (map JStr ds))" by (induction ds) simp_all
  moreover have "norm_json (JList (map JStr ds)) = JList (map JStr ds)" by (induction ds) simp_all
  ultimately have "loads (dumps True (JList (map JStr ds))) = Some (JList (map JStr ds))"
    using loads_dumps by metis
  then show ?thesis by (simp add: dependencies_of_def json_texts_map)
qed

fun step_rows :: "string \<Rightarrow> nat \<Rightarrow> tx_step list \<Rightarrow> tx_step_row list" where
  "step_rows tid n [] = []"
| "step_rows tid n (s # ss) = step_row tid n s # step_rows tid (Suc n) ss"

lemma insert_tx_steps_Inr:
  "insert_tx_steps tid n ss db = Inr db' \<Longrightarrow> db' = db\<lparr>db_tx_steps := db_tx_steps db @ step_rows tid n ss\<rparr>
     \<and> (ss \<noteq> [] \<longrightarrow> tid \<in> tx_id ` set (db_transactions db))"
proof (induction ss arbitrary: n db)
  case Nil
  then show ?case by simp
next
  case (Cons s ss)
  from Cons.prems obtain db1 where 1: "insert_tx_step (step_row tid n s) db = Inr db1"
    "insert_tx_steps tid (Suc n) ss db1 = Inr db'" by (auto elim!: bindE_InrE)
  from 1(1) have "db1 = db\<lparr>db_tx_steps := db_tx_steps db @ [step_row tid n s]\<rparr>"
    "tid \<in> tx_id ` set (db_transactions db)"
    by (auto simp: insert_tx_step_def guardE_eq_Inr step_row_def elim!: bindE_InrE)
  with Cons.IH [OF 1(2)] show ?case by simp
qed

lemma step_rows_ids: "ts_transaction_id ` set (step_rows tid n ss) \<subseteq> {tid}"
  by (induction ss arbitrary: n) (auto simp: step_row_def)

lemma step_rows_sorted: "sorted (map ts_ordinal (step_rows tid n ss)) \<and> (\<forall>r \<in> set (step_rows tid n ss). n \<le> ts_ordinal r)"
  by (induction ss arbitrary: n) (fastforce simp: step_row_def)+

lemma step_rows_read:
  "list_all made_step ss \<Longrightarrow>
     mapE (\<lambda>r. bindE (dependencies_of (ts_dependencies_json r)) (\<lambda>deps.
         make_step (ts_step_id r) (ts_description r) (ts_postcondition_ref r)
           (ts_compensatable r) deps)) (step_rows tid n ss) = Inr ss"
  by (induction ss arbitrary: n)
    (simp_all add: step_row_def dependencies_of_dumps made_step_def del: dumps.simps)

lemma tx_steps_registered:
  assumes "db_tx_steps db' = db_tx_steps db @ step_rows tid 0 ss" and "list_all made_step ss"
    and "tid \<notin> ts_transaction_id ` set (db_tx_steps db)"
  shows "tx_steps db' tid = Inr ss"
proof -
  have "filter (\<lambda>r. ts_transaction_id r = tid) (db_tx_steps db) = []"
    using assms(3) by (auto simp: filter_empty_conv)
  moreover have "filter (\<lambda>r. ts_transaction_id r = tid) (step_rows tid 0 ss) = step_rows tid 0 ss"
    using step_rows_ids [of tid 0 ss] by (auto simp: filter_id_conv)
  moreover have "sort_key ts_ordinal (step_rows tid 0 ss) = step_rows tid 0 ss"
    using step_rows_sorted by (simp add: sort_key_id_if_sorted)
  ultimately show ?thesis using step_rows_read [OF assms(2)] by (simp add: tx_steps_def assms(1))
qed

definition plan_row :: "(string \<Rightarrow> string) \<Rightarrow> tx_plan \<Rightarrow> tx_row" where
  "plan_row sha plan = \<lparr>tx_id = pl_transaction_id plan, tx_operation_id = pl_operation_id plan,
        tx_plan_fingerprint = plan_fingerprint sha plan\<rparr>"

definition plan_body :: "(string \<Rightarrow> string) \<Rightarrow> tx_plan \<Rightarrow> tx_body" where
  "plan_body sha plan = norm_body (plain_body PLAN_REGISTERED
         (''transaction:'' @ pl_transaction_id plan @ '':plan:'' @ plan_fingerprint sha plan))"

text \<open>What registration did.\<close>

lemma register_plan_Inr:
  assumes "register_plan sha plan db = Inr db'"
  obtains db1 where "pl_transaction_id plan \<notin> tx_id ` set (db_transactions db)"
    "pl_operation_id plan \<notin> tx_operation_id ` set (db_transactions db)"
    "pl_operation_id plan \<in> op_id ` set (db_operations db)"
    "db1 = db\<lparr>db_transactions := db_transactions db @ [plan_row sha plan],
       db_tx_steps := db_tx_steps db @ step_rows (pl_transaction_id plan) 0 (pl_steps plan)\<rparr>"
    "tx_ext (pl_transaction_id plan) [plan_body sha plan] db1 db'"
proof -
  from assms obtain db0 db1 where g: "pl_transaction_id plan \<notin> tx_id ` set (db_transactions db)"
    "pl_operation_id plan \<notin> tx_operation_id ` set (db_transactions db)"
    and 0: "insert_transaction (plan_row sha plan) db = Inr db0"
    and 1: "insert_tx_steps (pl_transaction_id plan) 0 (pl_steps plan) db0 = Inr db1"
    and 2: "append_tx_event (pl_transaction_id plan) (plain_body PLAN_REGISTERED
         (''transaction:'' @ pl_transaction_id plan @ '':plan:'' @ plan_fingerprint sha plan)) db1 = Inr db'"
    unfolding register_plan_def plan_row_def [symmetric] by (elim bindE_InrE) (simp add: guardE_eq_Inr)
  from 0 have "db0 = db\<lparr>db_transactions := db_transactions db @ [plan_row sha plan]\<rparr>"
    "pl_operation_id plan \<in> op_id ` set (db_operations db)"
    by (auto simp: insert_transaction_def guardE_eq_Inr plan_row_def elim!: bindE_InrE)
  with insert_tx_steps_Inr [OF 1] append_tx_event_ext [OF 2] g show ?thesis
    unfolding plan_body_def [symmetric] by (intro that) simp_all
qed

lemma register_plan_base:
  assumes "register_plan sha plan db = Inr db'" and "tx_base db" and "made_plan plan"
  shows "tx_base db' \<and> op_extends db db'
    \<and> db_transactions db' = db_transactions db @ [plan_row sha plan]
    \<and> bodies db' (pl_transaction_id plan) = [plan_body sha plan]
    \<and> (\<forall>t. t \<noteq> pl_transaction_id plan \<longrightarrow> bodies db' t = bodies db t \<and> tx_steps db' t = tx_steps db t)
    \<and> tx_steps db' (pl_transaction_id plan) = Inr (pl_steps plan)
    \<and> prefix (db_tx_events db) (db_tx_events db')"
proof -
  let ?tid = "pl_transaction_id plan"
  show ?thesis
  proof (rule register_plan_Inr [OF assms(1)])
    fix db1
    assume new: "?tid \<notin> tx_id ` set (db_transactions db)"
        "pl_operation_id plan \<notin> tx_operation_id ` set (db_transactions db)"
        "pl_operation_id plan \<in> op_id ` set (db_operations db)"
      and db1: "db1 = db\<lparr>db_transactions := db_transactions db @ [plan_row sha plan],
         db_tx_steps := db_tx_steps db @ step_rows ?tid 0 (pl_steps plan)\<rparr>"
      and ext: "tx_ext ?tid [plan_body sha plan] db1 db'"
    have opi: "op_inv db" using assms(2) by (simp only: tx_base_def)
    then have lin: "lineage_inv db" by (simp only: op_inv_but_def)
    have "op_inv db1" by (rule op_inv_frame [OF opi]) (simp_all add: db1 lin)
    moreover have "op_extends db db1" by (simp add: db1 op_extends_def)
    ultimately have op1: "op_inv db1 \<and> op_extends db db1" by blast
    note base = assms(2) [unfolded tx_base_def]
    have ids: "tx_id ` set (db_transactions db1) = insert ?tid (tx_id ` set (db_transactions db))"
      by (simp add: db1 plan_row_def)
    have "ts_transaction_id ` set (db_tx_steps db) \<subseteq> tx_id ` set (db_transactions db)"
      "te_transaction_id ` set (db_tx_events db) \<subseteq> tx_id ` set (db_transactions db)"
      using base by blast+
    then have sub: "ts_transaction_id ` set (db_tx_steps db1) \<subseteq> tx_id ` set (db_transactions db1)"
      "te_transaction_id ` set (db_tx_events db1) \<subseteq> tx_id ` set (db_transactions db1)"
      unfolding ids using step_rows_ids [of ?tid 0 "pl_steps plan"]
      by (simp_all add: db1 image_Un subset_insertI2)
        (metis subset_insertI2 insert_is_Un le_supI1 subset_trans insertI1 insert_mono empty_subsetI)
    have "distinct (map tx_id (db_transactions db1))"
      "distinct (map tx_operation_id (db_transactions db1))"
      "tx_operation_id ` set (db_transactions db1) \<subseteq> op_id ` set (db_operations db1)"
      using base new by (simp_all add: db1 plan_row_def)
    with op1 sub have base1: "tx_base db1" by (simp only: tx_base_def simp_thms)
    have 1: "tx_base db' \<and> op_extends db db'"
      using ext base1 op1 op_extends_trans by (auto simp: tx_ext_def)
    have 2: "db_transactions db' = db_transactions db @ [plan_row sha plan]"
      using ext by (simp add: tx_ext_def db1)
    have ev: "te_transaction_id e \<noteq> ?tid" if "e \<in> set (db_tx_events db)" for e
      using base new(1) imageI [OF that, of te_transaction_id] by (metis subsetD)
    have "bodies db1 ?tid = []" using ev by (simp add: bodies_def tx_events_def db1 filter_empty_conv)
    then have 3: "bodies db' ?tid = [plan_body sha plan]" using ext by (simp add: tx_ext_def)
    have st: "db_tx_steps db' = db_tx_steps db @ step_rows ?tid 0 (pl_steps plan)"
      using ext by (simp add: tx_ext_def db1)
    have "tx_steps db' t = tx_steps db t" if "t \<noteq> ?tid" for t
    proof -
      have "filter (\<lambda>r. ts_transaction_id r = t) (step_rows ?tid 0 (pl_steps plan)) = []"
        using step_rows_ids [of ?tid 0 "pl_steps plan"] that by (auto simp: filter_empty_conv)
      then show ?thesis by (simp add: tx_steps_def st)
    qed
    moreover have "bodies db1 t = bodies db t" for t by (simp add: bodies_def tx_events_def db1)
    ultimately have 4: "\<forall>t. t \<noteq> ?tid \<longrightarrow> bodies db' t = bodies db t \<and> tx_steps db' t = tx_steps db t"
      using ext by (simp add: tx_ext_def)
    have "?tid \<notin> ts_transaction_id ` set (db_tx_steps db)"
      using base new(1) by (metis subsetD)
    then have 5: "tx_steps db' ?tid = Inr (pl_steps plan)"
      using tx_steps_registered [OF st] assms(3) by (simp add: made_plan_def)
    have "prefix (db_tx_events db) (db_tx_events db')" using ext by (simp add: tx_ext_def db1)
    with 1 2 3 4 5 show ?thesis by (intro conjI) simp_all
  qed
qed

subsection \<open>A whole run\<close>

definition finish_post ::
  "tx_plan \<Rightarrow> string list \<Rightarrow> int \<Rightarrow> tx_step list \<Rightarrow> tx_result res \<Rightarrow> tx_body list
     \<Rightarrow> 'a tx_db_scheme \<Rightarrow> bool" where
  "finish_post plan ids l changed r bs db \<longleftrightarrow>
     passes ids (idle l) bs \<and> ids_of STEP_EXECUTION_STARTED bs = [] \<and> applied_ids bs = []
     \<and> satisfied_ids bs = []
     \<and> (\<forall>x. r = Inr x \<longrightarrow> rx_agrees plan db x
          \<and> rx_executed_step_ids x = map st_step_id changed
          \<and> rx_compensated_step_ids x = restored_ids bs
          \<and> subseq (restored_ids bs) (map st_step_id (rev changed))
          \<and> (rx_status x = COMPLETE \<and> bs = [] \<or>
             rx_status x = RECOVERY_REQUIRED_STATUS
             \<and> ids_of COMPENSATION_STARTED bs = map st_step_id (filter st_compensatable (rev changed))))"

lemma finish_emits:
  assumes "st_step_id ` set changed \<subseteq> set ids" and "truthy (Some (sn_snapshot_ref snap))"
  shows "emits (pl_transaction_id plan) db (finish plan snap d evidence changed (db, w))
     (\<lambda>r bs db' w'. finish_post plan ids l changed r bs db'
        \<and> (observes d calls \<longrightarrow> calls w' = calls w @ announced bs))"
  unfolding finish_def
proof (rule emits_attempt)
  fix r w1
  assume call: "dr_success_receipt d plan snap w = (r, w1)"
  note calls = observesD(5) [OF _ call, of calls]
  show "emits (pl_transaction_id plan) db ((case receive make_receipt (receipt_identity plan snap) r of
       Inl cls \<Rightarrow>
         compensate plan snap d changed (evidence @ [exception_ref plan ''receipt'' None cls]) True None
     | Inr receipt \<Rightarrow>
         bindS (journal_do (complete_success (pl_operation_id plan) (re_receipt_ref receipt)
                  (re_evidence_ref receipt) (re_result_fingerprint receipt))) (\<lambda>op.
         liftS (make_result COMPLETE (pl_transaction_id plan) (pl_operation_id plan)
                  (Some (sn_snapshot_ref snap)) (map st_step_id changed) [] None
                  (evidence @ [re_evidence_ref receipt]) op))) (db, w1))
     (\<lambda>r bs db' w'. finish_post plan ids l changed r bs db'
        \<and> (observes d calls \<longrightarrow> calls w' = calls w @ announced bs))"
  proof (cases "receive make_receipt (receipt_identity plan snap) r")
    case (Inl cls)
    show ?thesis
      unfolding Inl sum.case
      by (rule emits_mono [OF compensate_emits [where l = l and calls = calls, OF assms]])
        (use calls in \<open>auto simp: comp_post_def finish_post_def\<close>)
  next
    case (Inr rc)
    show ?thesis
      unfolding Inr sum.case
      apply (rule journal_emits [OF complete_success_def])
        apply simp
       apply (use calls in \<open>simp add: finish_post_def id_reads\<close>)
      apply (use calls in \<open>auto simp: finish_post_def rx_agrees_def id_reads dest!: make_result_Inr\<close>)
      done
  qed
qed

definition run_post ::
  "tx_plan \<Rightarrow> tx_result res \<Rightarrow> tx_body list \<Rightarrow> 'a tx_db_scheme \<Rightarrow> bool" where
  "run_post plan r bs db \<longleftrightarrow>
     passes (plan_ids plan) check_start bs
     \<and> prefix (ids_of STEP_EXECUTION_STARTED bs) (plan_ids plan)
     \<and> (\<forall>x. r = Inr x \<longrightarrow> rx_agrees plan db x
          \<and> (\<exists>ch. map st_step_id ch = applied_ids bs \<and> set ch \<subseteq> set (pl_steps plan)
               \<and> rx_executed_step_ids x = map st_step_id ch
               \<and> rx_compensated_step_ids x = restored_ids bs
               \<and> subseq (restored_ids bs) (map st_step_id (rev ch))
               \<and> (rx_status x = COMPLETE \<longrightarrow> ids_of STEP_EXECUTION_STARTED bs = plan_ids plan
                    \<and> satisfied_ids bs = plan_ids plan \<and> ids_of COMPENSATION_STARTED bs = []
                    \<and> restored_ids bs = [])
               \<and> (rx_status x \<noteq> COMPLETE \<longrightarrow>
                    ids_of COMPENSATION_STARTED bs = map st_step_id (filter st_compensatable (rev ch)))
               \<and> (rx_status x = COMPENSATED \<longrightarrow> restored_ids bs = map st_step_id (rev ch))))"

lemma plan_reads [simp]:
  "te_step_id (plain_body k ev) = None" "te_event_type (plain_body k ev) = k"
  "te_status (plain_body k ev) = None" "te_change_state (plain_body k ev) = None"
  by (simp_all add: plain_body_def)

lemma safe_failure_emits:
  "emits (pl_transaction_id plan) db (safe_failure plan ev (db, w))
     (\<lambda>r bs db' w'. run_post plan r bs db' \<and> w' = w \<and> announced bs = []
        \<and> (\<forall>x. r = Inr x \<longrightarrow> rx_status x = COMPENSATED \<and> rx_executed_step_ids x = []))"
proof -
  have chk: "check_event ids check_start (norm_body (plain_body SAFE_FAILURE ev)) = Inr check_start" for ids
    by (simp add: check_event_def check_start_def)
  show ?thesis
    unfolding safe_failure_def
    apply (rule emits_append)
     apply (simp add: run_post_def id_reads)
    apply (rule journal_emits [OF complete_failure_def])
      apply simp
     apply (simp add: run_post_def id_reads passes_def chk)
    apply (auto simp: run_post_def id_reads passes_def chk rx_agrees_def dest!: make_result_Inr)
    done
qed

lemma make_snapshot_refs:
  "make_snapshot a = Inr s \<Longrightarrow> truthy (Some (sn_snapshot_ref s)) \<and> truthy (Some (sn_snapshot_fingerprint s))"
  by (cases a) (auto elim!: bindE_InrE dest: tx_text_truthy)

lemma receive_snapshot:
  "receive make_snapshot ident r = Inr s \<Longrightarrow> \<exists>a. make_snapshot a = Inr s"
  by (cases r) (auto split: sum.splits if_splits simp del: make_snapshot.simps split_paired_Ex)

definition snap_raw :: "tx_snapshot \<Rightarrow> tx_body" where
  "snap_raw snap = (plain_body SNAPSHOT_CAPTURED (sn_evidence_ref snap))
                  \<lparr>te_snapshot_ref := Some (sn_snapshot_ref snap),
                   te_snapshot_fingerprint := Some (sn_snapshot_fingerprint snap)\<rparr>"

lemma snap_raw_read [simp]:
  "te_step_id (snap_raw snap) = None" "te_event_type (snap_raw snap) = SNAPSHOT_CAPTURED"
  "te_snapshot_ref (snap_raw snap) = Some (sn_snapshot_ref snap)"
  "te_snapshot_fingerprint (snap_raw snap) = Some (sn_snapshot_fingerprint snap)"
  by (simp_all add: snap_raw_def plain_body_def)

lemma check_snap:
  "truthy (Some (sn_snapshot_ref s)) \<Longrightarrow> truthy (Some (sn_snapshot_fingerprint s)) \<Longrightarrow>
     check_event ids check_start (norm_body (snap_raw s)) = Inr (idle (-1))"
  by (simp add: check_event_def check_start_def idle_def)

lemma snap_first:
  assumes "check_event ids check_start b = Inr (idle (-1))" and "te_event_type b = SNAPSHOT_CAPTURED"
  shows "passes ids check_start (b # cs) \<longleftrightarrow> passes ids (idle (-1)) cs"
    and "ids_of STEP_EXECUTION_STARTED (b # cs) = ids_of STEP_EXECUTION_STARTED cs"
    and "ids_of COMPENSATION_STARTED (b # cs) = ids_of COMPENSATION_STARTED cs"
    and "applied_ids (b # cs) = applied_ids cs" and "satisfied_ids (b # cs) = satisfied_ids cs"
    and "restored_ids (b # cs) = restored_ids cs"
  using assms by (simp_all add: passes_def id_reads)

lemma run_post_error:
  assumes "check_event (plan_ids plan) check_start b = Inr (idle (-1))"
    and "te_event_type b = SNAPSHOT_CAPTURED"
    and "passes (plan_ids plan) (idle (-1)) bs"
    and "prefix (ids_of STEP_EXECUTION_STARTED bs) (plan_ids plan)"
  shows "run_post plan (Inl e) (b # bs) db"
  using assms(3,4) by (simp add: run_post_def snap_first [OF assms(1,2)])

lemma run_post_early:
  assumes "check_event (plan_ids plan) check_start b = Inr (idle (-1))"
    and "te_event_type b = SNAPSHOT_CAPTURED"
    and "step_loop_post plan (plan_ids plan) (-1) (pl_steps plan) [] (Inr (Inl x)) bs db"
  shows "run_post plan (Inr x) (b # bs) db"
proof -
  from assms(3) obtain ch where "map st_step_id ch = applied_ids bs" "set ch \<subseteq> set (pl_steps plan)"
    "rx_agrees plan db x" "rx_status x \<noteq> COMPLETE" "rx_executed_step_ids x = map st_step_id ch"
    "rx_compensated_step_ids x = restored_ids bs"
    "ids_of COMPENSATION_STARTED bs = map st_step_id (filter st_compensatable (rev ch))"
    "subseq (restored_ids bs) (map st_step_id (rev ch))"
    "rx_status x = COMPENSATED \<longrightarrow> restored_ids bs = map st_step_id (rev ch)"
    by (auto simp: step_loop_post_def)
  moreover have "passes (plan_ids plan) (idle (-1)) bs"
    "prefix (ids_of STEP_EXECUTION_STARTED bs) (plan_ids plan)"
    using assms(3) by (simp_all add: step_loop_post_def plan_ids_def)
  ultimately show ?thesis
    unfolding run_post_def snap_first [OF assms(1,2)] by blast
qed

lemma run_post_finished:
  assumes "check_event (plan_ids plan) check_start b = Inr (idle (-1))"
    and "te_event_type b = SNAPSHOT_CAPTURED"
    and "step_loop_post plan (plan_ids plan) (-1) (pl_steps plan) [] (Inr (Inr (ev, ch))) bs db0"
    and "check_events (plan_ids plan) (idle (-1)) bs = Inr (idle l)"
    and "finish_post plan (plan_ids plan) l ch r cs db"
  shows "run_post plan r (b # bs @ cs) db"
proof -
  from assms(3) have s: "map st_step_id ch = applied_ids bs" "set ch \<subseteq> set (pl_steps plan)"
    "passes (plan_ids plan) (idle (-1)) bs" "ids_of STEP_EXECUTION_STARTED bs = plan_ids plan"
    "satisfied_ids bs = plan_ids plan" "ids_of COMPENSATION_STARTED bs = []" "restored_ids bs = []"
    by (simp_all add: step_loop_post_def plan_ids_def)
  have f: "passes (plan_ids plan) (idle l) cs" "ids_of STEP_EXECUTION_STARTED cs = []"
    "applied_ids cs = []" "satisfied_ids cs = []"
    using assms(5) by (simp_all add: finish_post_def)
  have "passes (plan_ids plan) (idle (-1)) (bs @ cs)"
    unfolding passes_append [OF assms(4)] using s(3) f(1) by (simp add: passes_def)
  moreover have "\<exists>ch. map st_step_id ch = applied_ids bs \<and> set ch \<subseteq> set (pl_steps plan)
               \<and> rx_executed_step_ids x = map st_step_id ch
               \<and> rx_compensated_step_ids x = restored_ids cs
               \<and> subseq (restored_ids cs) (map st_step_id (rev ch))
               \<and> (rx_status x = COMPLETE \<longrightarrow> ids_of COMPENSATION_STARTED cs = [] \<and> restored_ids cs = [])
               \<and> (rx_status x \<noteq> COMPLETE \<longrightarrow>
                    ids_of COMPENSATION_STARTED cs = map st_step_id (filter st_compensatable (rev ch)))
               \<and> (rx_status x = COMPENSATED \<longrightarrow> restored_ids cs = map st_step_id (rev ch))"
    if "r = Inr x" for x
    using assms(5) s(1,2) that
    by (intro exI [of _ ch]) (auto simp: finish_post_def id_reads)
  moreover have "rx_agrees plan db x" if "r = Inr x" for x
    using assms(5) that by (simp add: finish_post_def)
  ultimately show ?thesis
    unfolding run_post_def snap_first [OF assms(1,2)] reads_append s f append_Nil append_Nil2
    by simp
qed

lemma bindS_first:
  "bindS (liftS (Inr x)) f s = f x s"
  "h db = Inr y \<Longrightarrow> bindS (\<lambda>(db, w). (h db, db, w)) g (db, w) = g y (db, w)"
  "t db = Inr db' \<Longrightarrow> bindS (tx_do t) k (db, w) = k () (db', w)"
  by (simp_all add: bindS_def liftS_def tx_do_def)

text \<open>A run that is refused changes nothing; one that is registered records what follows.\<close>

lemma run_cases:
  obtains (refused) e where "run_transaction sha plan d (db, w) = (Inl e, db, w)"
    "\<And>op. get_operation db (pl_operation_id plan) = Inr op \<Longrightarrow>
       or_recorded_state op = ST_EXECUTING \<Longrightarrow> register_plan sha plan db = Inl e"
  | (registered) op db1 where "register_plan sha plan db = Inr db1"
    "get_operation db (pl_operation_id plan) = Inr op" "or_recorded_state op = ST_EXECUTING"
    "run_transaction sha plan d (db, w) =
       (case dr_contract d of
          Some cls \<Rightarrow> safe_failure plan (exception_ref plan ''driver-contract'' None cls)
        | None \<Rightarrow>
            bindS (attempt (dr_prepare_snapshot d plan) make_snapshot (snapshot_identity plan)) (\<lambda>r.
            case r of
              Inl cls \<Rightarrow> safe_failure plan (exception_ref plan ''snapshot'' None cls)
            | Inr snap \<Rightarrow>
                bindS (tx_do (append_tx_event (pl_transaction_id plan) (snap_raw snap))) (\<lambda>_.
                bindS (step_loop plan snap d (pl_steps plan) [sn_evidence_ref snap] []) (\<lambda>out.
                case out of
                  Inl result \<Rightarrow> retS result
                | Inr (evidence, changed) \<Rightarrow> finish plan snap d evidence changed)))) (db1, w)"
proof (cases "get_operation db (pl_operation_id plan)")
  case (Inl e)
  then show ?thesis by (intro refused [of e]) (simp_all add: run_transaction_def bindS_def)
next
  case (Inr op)
  show ?thesis
  proof (cases "or_recorded_state op = ST_EXECUTING")
    case False
    then show ?thesis
      using Inr by (intro refused) (auto simp: run_transaction_def bindS_def liftS_def guardE_def)
  next
    case True
    show ?thesis
    proof (cases "register_plan sha plan db")
      case (Inl e)
      then show ?thesis
        using Inr True by (intro refused [of e]) (simp_all add: run_transaction_def bindS_def liftS_def tx_do_def)
    next
      case (Inr db1)
      then show ?thesis
        using \<open>get_operation db (pl_operation_id plan) = Inr op\<close> True
        by (intro registered [OF Inr]) (simp_all only: run_transaction_def bindS_first guardE_True
             simp_thms snap_raw_def)
    qed
  qed
qed

lemma run_emits:
  assumes "register_plan sha plan db = Inr db1" and "made_plan plan"
    and "get_operation db (pl_operation_id plan) = Inr op" and "or_recorded_state op = ST_EXECUTING"
  shows "emits (pl_transaction_id plan) db1 (run_transaction sha plan d (db, w))
     (\<lambda>r bs db' w'. run_post plan r bs db' \<and> (observes d calls \<longrightarrow> calls w' = calls w @ announced bs))"
proof (cases rule: run_cases [of sha plan d db w])
  case (refused e)
  then show ?thesis using assms by simp
next
  case (registered op' db1')
  then have "db1' = db1" using assms(1) by simp
  note run = registered(4) [unfolded this]
  show ?thesis
  proof (cases "dr_contract d")
    case (Some cls)
    show ?thesis unfolding run Some option.case by (rule emits_mono [OF safe_failure_emits]) auto
  next
    case None
    show ?thesis
      unfolding run None option.case
    proof (rule emits_attempt)
      fix r w1
      assume call: "dr_prepare_snapshot d plan w = (r, w1)"
      note calls = observesD(1) [OF _ call, of calls]
      show "emits (pl_transaction_id plan) db1
        ((case receive make_snapshot (snapshot_identity plan) r of
              Inl cls \<Rightarrow> safe_failure plan (exception_ref plan ''snapshot'' None cls)
            | Inr snap \<Rightarrow>
                bindS (tx_do (append_tx_event (pl_transaction_id plan) (snap_raw snap))) (\<lambda>_.
                bindS (step_loop plan snap d (pl_steps plan) [sn_evidence_ref snap] []) (\<lambda>out.
                case out of
                  Inl result \<Rightarrow> retS result
                | Inr (evidence, changed) \<Rightarrow> finish plan snap d evidence changed))) (db1, w1))
        (\<lambda>r bs db' w'. run_post plan r bs db' \<and> (observes d calls \<longrightarrow> calls w' = calls w @ announced bs))"
      proof (cases "receive make_snapshot (snapshot_identity plan) r")
        case (Inl cls)
        show ?thesis unfolding Inl sum.case
          by (rule emits_mono [OF safe_failure_emits]) (use calls in auto)
      next
        case (Inr snap)
        have refs: "truthy (Some (sn_snapshot_ref snap))" "truthy (Some (sn_snapshot_fingerprint snap))"
          using receive_snapshot [OF Inr] make_snapshot_refs by blast+
        note chk = check_snap [OF refs, of "plan_ids plan"]
        show ?thesis
          unfolding Inr sum.case
          apply (rule emits_append)
           apply (use calls in \<open>simp add: run_post_def id_reads\<close>)
          apply (rule emits_bind)
            apply (rule step_loop_emits [where ids = "plan_ids plan" and before = "[]" and l = "-1" and calls = calls])
                apply (rule refs(1))
               apply (simp add: plan_ids_def)
              apply (use made_plan_ids [OF assms(2)] in simp)
             apply simp
            apply simp
           subgoal premises p for db2 e bs db3 w3
             using p(2) calls
             by (auto simp: step_loop_post_def plan_ids_def intro!: run_post_error [OF chk])
          subgoal premises p for db2 out bs db3 w3
          proof (cases out)
            case (Inl x)
            show ?thesis
              unfolding Inl sum.case
              by (rule emits_ret) (use p(2) calls Inl in \<open>auto intro!: run_post_early [OF chk]\<close>)
          next
            case (Inr q)
            obtain ev ch where q: "q = (ev, ch)" by (cases q)
            from p(2) obtain l where l: "check_events (plan_ids plan) (idle (-1)) bs = Inr (idle l)"
              and sub: "set ch \<subseteq> set (pl_steps plan)"
              by (auto simp: Inr q step_loop_post_def)
            show ?thesis
              unfolding Inr q sum.case prod.case
              apply (rule emits_mono [OF finish_emits [where ids = "plan_ids plan" and l = l and calls = calls]])
                apply (use sub in \<open>auto simp: plan_ids_def\<close>)[1]
               apply (rule refs(1))
              subgoal premises f for r4 cs db4 w4
                using f p(2) calls Inr q by (auto intro!: run_post_finished [OF chk _ _ l])
              done
          qed
          done
      qed
    qed
  qed
qed

end
