(* ===== verification/Transactions_Facts.thy ===== *)
theory Transactions_Facts
  imports Transactions_Run
begin

text \<open>
  The invariant of the transaction tables, the profile with its three components as a machine
  (an interpretation of \<open>logged_machine\<close>), and the properties of the coordinator.
\<close>

subsection \<open>The invariant of the transaction tables\<close>

definition tx_inv :: "(string \<Rightarrow> string) \<Rightarrow> 'a tx_db_scheme \<Rightarrow> bool" where
  "tx_inv sha db \<longleftrightarrow> tx_base db
     \<and> (\<forall>r \<in> set (db_transactions db). validate_transaction sha db r = Inr ())"

lemma validate_transaction_cong:
  "tx_steps db' (tx_id r) = tx_steps db (tx_id r) \<Longrightarrow> bodies db' (tx_id r) = bodies db (tx_id r) \<Longrightarrow>
     validate_transaction sha db' r = validate_transaction sha db r"
  by (simp add: validate_transaction_def bodies_def)

lemma tx_steps_cong: "db_tx_steps db' = db_tx_steps db \<Longrightarrow> tx_steps db' t = tx_steps db t"
  by (simp add: tx_steps_def)

lemma validate_history_run:
  assumes "passes ids check_start bs"
  shows "validate_history ids (plan_body sha plan # bs) = Inr ()"
proof -
  have "check_event ids check_start (plan_body sha plan) = Inr check_start"
    by (simp add: check_event_def plan_body_def)
  moreover have "filter (\<lambda>e. te_event_type e = PLAN_REGISTERED) bs = []"
    using assms by (simp add: passes_def no_plan_def filter_empty_conv)
  moreover have "te_event_type (plan_body sha plan) = PLAN_REGISTERED" by (simp add: plan_body_def)
  ultimately show ?thesis using assms by (auto simp: validate_history_def passes_def)
qed

lemma registered_validates:
  assumes "made_plan plan" and "tx_steps db (pl_transaction_id plan) = Inr (pl_steps plan)"
    and "bodies db (pl_transaction_id plan) = plan_body sha plan # bs"
    and "passes (plan_ids plan) check_start bs"
  shows "validate_transaction sha db (plan_row sha plan) = Inr ()"
  using assms made_plan_ids [OF assms(1)] validate_history_run [OF assms(4)]
  by (simp add: validate_transaction_def plan_row_def made_plan_def bodies_def plan_ids_def)

lemma run_registered:
  assumes "run_transaction sha plan d (db, w) = (r, db', w')" and "register_plan sha plan db = Inr db1"
    and "made_plan plan" and "get_operation db (pl_operation_id plan) = Inr op"
    and "or_recorded_state op = ST_EXECUTING" and "tx_base db"
  obtains bs where "bodies db' (pl_transaction_id plan) = plan_body sha plan # bs"
    "run_post plan r bs db'" "tx_ext (pl_transaction_id plan) bs db1 db'"
    "\<And>calls. observes d calls \<Longrightarrow> calls w' = calls w @ announced bs"
proof -
  have ex: "\<exists>bs. tx_ext (pl_transaction_id plan) bs db1 db' \<and> run_post plan r bs db'
     \<and> (observes d calls \<longrightarrow> calls w' = calls w @ announced bs)" for calls
    using emitsD [OF run_emits [OF assms(2-5)] assms(1)] by blast
  have b1: "bodies db1 (pl_transaction_id plan) = [plan_body sha plan]"
    using register_plan_base [OF assms(2,6,3)] by (elim conjE)
  obtain bs where bs: "tx_ext (pl_transaction_id plan) bs db1 db'" "run_post plan r bs db'"
    using ex [of undefined] by (elim exE conjE)
  have calls: "calls w' = calls w @ announced bs" if "observes d calls" for calls
  proof -
    obtain bs' where b: "tx_ext (pl_transaction_id plan) bs' db1 db'"
      "observes d calls \<longrightarrow> calls w' = calls w @ announced bs'"
      using ex [of calls] by (elim exE conjE)
    have "bs' = bs" using b(1) bs(1) by (simp add: tx_ext_def)
    then show ?thesis using b(2) that by simp
  qed
  have "bodies db' (pl_transaction_id plan) = plan_body sha plan # bs"
    using bs(1) b1 by (simp add: tx_ext_def)
  then show ?thesis by (rule that [OF _ bs(2,1) calls])
qed

lemma run_transaction_inv:
  assumes "run_transaction sha plan d (db, w) = (r, db', w')" and "tx_inv sha db" and "made_plan plan"
  shows "tx_inv sha db' \<and> op_extends db db' \<and> prefix (db_tx_events db) (db_tx_events db')
    \<and> prefix (db_transactions db) (db_transactions db')"
proof (cases rule: run_cases [of sha plan d db w])
  case (refused e)
  then show ?thesis using assms by simp
next
  case (registered op db1)
  have base: "tx_base db" using assms(2) by (simp add: tx_inv_def)
  note reg = register_plan_base [OF registered(1) base assms(3)]
  show ?thesis
    using assms(1) registered(1) assms(3) registered(2,3) base
  proof (rule run_registered)
    fix bs
    assume b: "bodies db' (pl_transaction_id plan) = plan_body sha plan # bs" "run_post plan r bs db'"
      "tx_ext (pl_transaction_id plan) bs db1 db'"
    have tx: "db_transactions db' = db_transactions db @ [plan_row sha plan]"
      using b(3) reg by (simp add: tx_ext_def)
    have steps: "tx_steps db' t = tx_steps db1 t" for t
      by (rule tx_steps_cong) (use b(3) in \<open>simp add: tx_ext_def\<close>)
    have "pl_transaction_id plan \<notin> tx_id ` set (db_transactions db)"
      using registered(1) by (rule register_plan_Inr)
    moreover have "validate_transaction sha db' q = Inr ()"
      if "q \<in> set (db_transactions db)" "tx_id q \<noteq> pl_transaction_id plan" for q
    proof -
      have "validate_transaction sha db' q = validate_transaction sha db q"
        by (rule validate_transaction_cong) (use steps reg b(3) that(2) in \<open>simp_all add: tx_ext_def\<close>)
      then show ?thesis using assms(2) that(1) by (simp add: tx_inv_def)
    qed
    moreover have "validate_transaction sha db' (plan_row sha plan) = Inr ()"
      by (rule registered_validates [OF assms(3) _ b(1)]) (use steps reg b(2) in \<open>simp_all add: run_post_def\<close>)
    ultimately have "\<forall>q \<in> set (db_transactions db'). validate_transaction sha db' q = Inr ()"
      unfolding tx by (auto simp: image_iff)
    moreover have "tx_base db' \<and> op_extends db1 db'" using b(3) reg by (simp add: tx_ext_def)
    moreover have "prefix (db_tx_events db1) (db_tx_events db')" using b(3) by (simp add: tx_ext_def)
    ultimately show ?thesis
      using reg op_extends_trans [of db db1 db']
        prefix_order.trans [of "db_tx_events db" "db_tx_events db1" "db_tx_events db'"]
      by (simp add: tx_inv_def tx)
  qed
qed

subsection \<open>The profile with its three components as a machine\<close>

definition same_tx :: "'a tx_db_scheme \<Rightarrow> 'a tx_db_scheme \<Rightarrow> bool" where
  "same_tx db db' \<longleftrightarrow> db_transactions db' = db_transactions db \<and> db_tx_steps db' = db_tx_steps db
     \<and> db_tx_events db' = db_tx_events db"

lemma same_tx_refl [simp]: "same_tx db db"
  by (simp add: same_tx_def)

lemma append_op_event_same: "append_op_event oid kind ev rc fp db = Inr db' \<Longrightarrow> same_tx db db'"
  using append_op_event_tx by (simp add: same_tx_def)

lemma extends_same_tx: "extends db db' \<Longrightarrow> same_tx db db'"
  by (cases db; cases db') (simp add: extends_def same_tx_def)

lemma prepare_same:
  fixes db :: "'a tx_db_scheme"
  assumes "prepare sha key intent a song version route subject cap db = Inr (x, db')"
  shows "same_tx db db'"
  using assms
proof (rule prepare_Inr)
  fix k s v r sb c rw
  assume "(by_idempotency_key db k = Inr (Some x) \<and> same_operation rw x \<and> db' = db) \<or>
     (\<exists>db1. by_idempotency_key db k = Inr None \<and> insert_operation rw (snd (new_id ''op'' db)) = Inr db1
        \<and> append_op_event (op_id rw) PREPARED (Some (ab_source_ref a)) None None db1 = Inr db'
        \<and> get_operation db' (op_id rw) = Inr x)"
  then show ?thesis
  proof (elim disjE exE conjE)
    fix db1
    assume i: "insert_operation rw (snd (new_id ''op'' db)) = Inr db1"
      and p: "append_op_event (op_id rw) PREPARED (Some (ab_source_ref a)) None None db1 = Inr db'"
    obtain oid dbi where id: "new_id ''op'' db = (oid, dbi)" by (cases "new_id ''op'' db") auto
    have "same_tx db db1"
      using insert_operation_Inr [OF i [unfolded id snd_conv]] new_id_draws [OF id]
      by (simp add: same_tx_def)
    then show ?thesis using append_op_event_same [OF p] by (simp add: same_tx_def)
  qed simp
qed

lemma terminal_same: "op_terminal oid k ev rc fp db = Inr (x, db') \<Longrightarrow> same_tx db db'"
  using op_terminal_append append_op_event_same by blast

lemma claim_same: "claim_execution sha oid intent a ev tr el db = Inr (x, db') \<Longrightarrow> same_tx db db'"
  unfolding claim_execution_def by (auto elim!: bindE_InrE dest: append_op_event_same)

lemma reconcile_same: "reconcile_unknown oid outcome ev rc fp db = Inr (x, db') \<Longrightarrow> same_tx db db'"
  unfolding reconcile_unknown_def Let_def by (auto elim!: bindE_InrE dest: append_op_event_same)

lemma exec_op_same:
  assumes "exec_op sha c db = Inr db'" and "op_inv db"
  shows "same_tx db db'"
proof (cases c)
  case (Op_Lineage d)
  with assms(1) have "exec_lineage d db = Inr db'" by simp
  moreover have "lineage_inv db" using assms(2) by (simp only: op_inv_but_def)
  ultimately have "extends db db'" using exec_lineage_inv by blast
  then show ?thesis by (rule extends_same_tx)
next
  case (Op_Prepare key intent b song version route subject cap)
  obtain aid fp src where "b = (aid, fp, src)" by (cases b)
  with assms(1) Op_Prepare show ?thesis
    by (auto simp: map_sum_snd_Inr elim!: bindE_InrE dest: prepare_same)
next
  case (Op_Claim oid intent b ev tr el)
  obtain aid fp src where "b = (aid, fp, src)" by (cases b)
  with assms(1) Op_Claim show ?thesis
    by (auto simp: map_sum_snd_Inr elim!: bindE_InrE dest: claim_same)
next
  case (Op_Reconcile oid outcome ev rc fp)
  with assms(1) show ?thesis by (auto simp: map_sum_snd_Inr dest: reconcile_same)
qed (use assms(1) in \<open>auto simp: map_sum_snd_Inr complete_success_def complete_failure_def
      mark_unknown_def dest: terminal_same\<close>)

lemma exec_op_tx_inv:
  assumes "exec_op sha c db = Inr db'" and "tx_inv sha db"
  shows "tx_inv sha db' \<and> op_extends db db'"
proof -
  have b: "tx_base db" using assms(2) by (simp add: tx_inv_def)
  then have i: "op_inv db" by (simp add: tx_base_def)
  note e = exec_op_inv [OF assms(1) i]
  note s = exec_op_same [OF assms(1) i, unfolded same_tx_def]
  have "op_id ` set (db_operations db) \<subseteq> op_id ` set (db_operations db')"
    using e by (simp add: op_extends_def set_mono_prefix image_mono)
  then have "tx_base db'" using b e s unfolding tx_base_def by (metis subset_trans)
  moreover have "validate_transaction sha db' r = validate_transaction sha db r" for r
    by (rule validate_transaction_cong) (use s in \<open>simp_all add: tx_steps_def bodies_def tx_events_def\<close>)
  ultimately show ?thesis using assms(2) e s by (simp add: tx_inv_def)
qed

text \<open>
  The commands of the profile: those of the journal, and a run with its driver and the world the
  driver finds. A run keeps the database it reached, also when it raises.
\<close>

datatype 'w tx_cmd = Tx_Op op_cmd | Tx_Run tx_plan "'w driver" 'w

fun exec_tx :: "(string \<Rightarrow> string) \<Rightarrow> 'w tx_cmd \<Rightarrow> 'a tx_db_scheme \<Rightarrow> 'a tx_db_scheme res" where
  "exec_tx sha (Tx_Op c) db = exec_op sha c db"
| "exec_tx sha (Tx_Run plan d w) db =
     (if made_plan plan then Inr (fst (snd (run_transaction sha plan d (db, w)))) else Inr db)"

lemma exec_tx_inv:
  assumes "exec_tx sha c db = Inr db'" and "tx_inv sha db"
  shows "tx_inv sha db' \<and> op_extends db db' \<and> prefix (db_tx_events db) (db_tx_events db')
    \<and> prefix (db_transactions db) (db_transactions db')"
proof (cases c)
  case (Tx_Op d)
  moreover have "same_tx db db'"
    using assms Tx_Op exec_op_same by (auto simp: tx_inv_def tx_base_def)
  ultimately show ?thesis using assms exec_op_tx_inv by (auto simp: same_tx_def)
next
  case (Tx_Run plan d w)
  obtain r db2 w2 where r: "run_transaction sha plan d (db, w) = (r, db2, w2)"
    by (cases "run_transaction sha plan d (db, w)") auto
  then show ?thesis
    using assms Tx_Run run_transaction_inv [OF r assms(2)] by (auto split: if_splits)
qed

interpretation tx_machine: logged_machine "exec_tx sha" "tx_inv sha" db_tx_events for sha
  by unfold_locales (auto dest: exec_tx_inv)

lemma extend_op_frames:
  fixes db :: operations_db
  shows "activity_row_ok (operations_db.extend db m) = activity_row_ok db"
    and "core_ok (operations_db.extend db m) = core_ok db"
  by (simp_all add: fun_eq_iff activity_row_ok_def core_defs has_artist_def version_in_song_def
      operations_db.defs del: upt_Suc)

lemma extend_op_inv: "op_inv (operations_db.extend db m) = op_inv db" for db :: operations_db
proof -
  have "activity_ok (operations_db.extend db m) = activity_ok db"
    unfolding activity_ok_def extend_op_frames by (simp add: operations_db.defs del: upt_Suc)
  then have l: "lineage_inv (operations_db.extend db m) = lineage_inv db"
    by (simp add: lineage_inv_def extend_op_frames)
  have r: "op_row_ok (operations_db.extend db m) = op_row_ok db"
    by (simp add: fun_eq_iff op_row_ok_def version_in_song_def operations_db.defs)
  have "op_tables_ok (operations_db.extend db m) = op_tables_ok db"
    unfolding op_tables_ok_def r by (simp add: operations_db.defs)
  then show ?thesis
    unfolding op_inv_but_def l by (simp add: op_events_def operations_db.defs)
qed

lemma install_transactions_inv:
  assumes "op_inv db"
  shows "tx_inv sha (install_transactions db)"
proof -
  let ?db = "db\<lparr>db_metadata := (db_metadata db)(''transaction_schema_version'' \<mapsto> ''1'')\<rparr>"
  have lin: "lineage_inv db" using assms by (simp only: op_inv_but_def)
  have "core_ok ?db" using lin by (simp add: lineage_inv_def core_ok_def) (simp add: metadata_ok_def)
  moreover have "activity_row_ok ?db = activity_row_ok db" by (simp add: fun_eq_iff activity_row_ok_def)
  then have "activity_ok ?db" using lin by (simp add: lineage_inv_def activity_ok_def del: upt_Suc)
  ultimately have "lineage_inv ?db" by (simp add: lineage_inv_def)
  from op_inv_frame [OF assms this] have "op_inv ?db" by simp
  then have "op_inv (install_transactions db)" unfolding install_transactions_def extend_op_inv .
  moreover have "db_transactions (install_transactions db) = []" "db_tx_steps (install_transactions db) = []"
    "db_tx_events (install_transactions db) = []"
    by (simp_all add: install_transactions_def operations_db.defs tx_db.defs)
  ultimately show ?thesis by (simp add: tx_inv_def tx_base_def)
qed

text \<open>A profile on whose journal a command list ran.\<close>

definition tx_state :: "(string \<Rightarrow> string) \<Rightarrow> 'w tx_cmd list \<Rightarrow> operations_db \<Rightarrow> tx_db" where
  "tx_state sha cs db = run_cmds (exec_tx sha) cs (install_transactions db)"

lemma tx_state_inv: "op_reachable sha db \<Longrightarrow> tx_inv sha (tx_state sha cs db)"
  unfolding tx_state_def
  by (rule tx_machine.run_inv) (rule install_transactions_inv, rule op_reachable_inv)

lemma tx_state_base: "op_reachable sha db0 \<Longrightarrow> db = tx_state sha cs db0 \<Longrightarrow> tx_base db"
  using tx_state_inv tx_inv_def by blast

lemma exec_run_extends:
  "tx_inv sha db \<Longrightarrow> prefix (db_transactions db) (db_transactions (run_cmds (exec_tx sha) cs db))"
proof (induction cs arbitrary: db)
  case (Cons c cs)
  show ?case
  proof (cases "exec_tx sha c db")
    case (Inr db1)
    from exec_tx_inv [OF Inr Cons.prems] Cons.IH show ?thesis
      using prefix_order.trans by (auto simp: Inr)
  qed (use Cons in simp)
qed simp

lemma returned_registered:
  assumes "run_transaction sha plan d (db, w) = (Inr x, db', w')"
  obtains op db1 where "register_plan sha plan db = Inr db1"
    "get_operation db (pl_operation_id plan) = Inr op" "or_recorded_state op = ST_EXECUTING"
  using assms by (cases rule: run_cases [of sha plan d db w]) auto

lemma returned_post:
  assumes "run_transaction sha plan d (db, w) = (Inr x, db', w')" and "tx_base db" and "made_plan plan"
  obtains bs where "bodies db' (pl_transaction_id plan) = plan_body sha plan # bs"
    "run_post plan (Inr x) bs db'"
  using returned_registered [OF assms(1)] run_registered [OF assms(1) _ assms(3) _ _ assms(2)] by metis

lemma plan_body_reads [simp]:
  "te_step_id (plan_body sha plan) = None" "te_event_type (plan_body sha plan) = PLAN_REGISTERED"
  "ids_of STEP_EXECUTION_STARTED (plan_body sha plan # bs) = ids_of STEP_EXECUTION_STARTED bs"
  "ids_of COMPENSATION_STARTED (plan_body sha plan # bs) = ids_of COMPENSATION_STARTED bs"
  "applied_ids (plan_body sha plan # bs) = applied_ids bs"
  "satisfied_ids (plan_body sha plan # bs) = satisfied_ids bs"
  "restored_ids (plan_body sha plan # bs) = restored_ids bs"
  "announced (plan_body sha plan # bs) = announced bs"
  by (simp_all add: id_reads plan_body_def)

subsection \<open>Properties\<close>

text \<open>
  C9. The status a run returns and the journal agree: COMPLETE exactly when the operation is
  recorded SUCCEEDED, COMPENSATED exactly when FAILED, RECOVERY_REQUIRED exactly when UNKNOWN; the
  operation in the result is the one the journal now returns, and no other status is returned.
\<close>

theorem run_status_agrees:
  assumes "op_reachable sha db0" and "db = tx_state sha cs db0" and "made_plan plan"
    and "run_transaction sha plan d (db, w) = (Inr x, db', w')"
  shows "get_operation db' (pl_operation_id plan) = Inr (rx_operation x)
    \<and> (rx_status x = COMPLETE \<longleftrightarrow> or_recorded_state (rx_operation x) = ST_SUCCEEDED)
    \<and> (rx_status x = COMPENSATED \<longleftrightarrow> or_recorded_state (rx_operation x) = ST_FAILED)
    \<and> (rx_status x = RECOVERY_REQUIRED_STATUS \<longleftrightarrow> or_recorded_state (rx_operation x) = ST_UNKNOWN)
    \<and> rx_status x \<noteq> TX_UNKNOWN"
proof -
  have "tx_base db" using assms(1,2) by (rule tx_state_base)
  from returned_post [OF assms(4) this assms(3)] have "rx_agrees plan db' x"
    by (auto simp: run_post_def)
  then show ?thesis by (cases "rx_status x") (simp_all add: rx_agrees_def)
qed

text \<open>
  C10. Compensation undoes in reverse order. The steps a result lists as executed are those the
  history records as APPLIED; unless the run is COMPLETE, the compensations started are exactly the
  compensatable ones among them, last first; those listed as compensated are the ones recorded
  RESTORED; and COMPENSATED is returned only when every executed step was restored.
\<close>

theorem compensation_reverses:
  assumes "op_reachable sha db0" and "db = tx_state sha cs db0" and "made_plan plan"
    and "run_transaction sha plan d (db, w) = (Inr x, db', w')"
    and "h = bodies db' (pl_transaction_id plan)"
  shows "rx_executed_step_ids x = applied_ids h \<and> rx_compensated_step_ids x = restored_ids h
    \<and> subseq (rx_compensated_step_ids x) (rev (rx_executed_step_ids x))
    \<and> (rx_status x \<noteq> COMPLETE \<longrightarrow> ids_of COMPENSATION_STARTED h =
         filter (\<lambda>i. \<exists>s \<in> set (pl_steps plan). st_step_id s = i \<and> st_compensatable s)
           (rev (rx_executed_step_ids x)))
    \<and> (rx_status x = COMPENSATED \<longrightarrow> rx_compensated_step_ids x = rev (rx_executed_step_ids x))"
proof -
  have "tx_base db" using assms(1,2) by (rule tx_state_base)
  from assms(4) this assms(3) show ?thesis
  proof (rule returned_post)
    fix bs
    assume b: "bodies db' (pl_transaction_id plan) = plan_body sha plan # bs"
      and p: "run_post plan (Inr x) bs db'"
    from p obtain ch where ch: "map st_step_id ch = applied_ids bs" "set ch \<subseteq> set (pl_steps plan)"
      "rx_executed_step_ids x = map st_step_id ch" "rx_compensated_step_ids x = restored_ids bs"
      "subseq (restored_ids bs) (map st_step_id (rev ch))"
      "rx_status x \<noteq> COMPLETE \<longrightarrow>
         ids_of COMPENSATION_STARTED bs = map st_step_id (filter st_compensatable (rev ch))"
      "rx_status x = COMPENSATED \<longrightarrow> restored_ids bs = map st_step_id (rev ch)"
      unfolding run_post_def by blast
    have inj: "inj_on st_step_id (set (pl_steps plan))"
      using made_plan_ids [OF assms(3)] by (simp add: plan_ids_def distinct_map)
    have "(\<exists>t \<in> set (pl_steps plan). st_step_id t = st_step_id s \<and> st_compensatable t) \<longleftrightarrow> st_compensatable s"
      if "s \<in> set ch" for s
      using that ch(2) inj by (auto dest: inj_onD)
    then have "filter ((\<lambda>i. \<exists>s \<in> set (pl_steps plan). st_step_id s = i \<and> st_compensatable s) \<circ> st_step_id)
        (rev ch) = filter st_compensatable (rev ch)"
      by (intro filter_cong) simp_all
    then have "filter (\<lambda>i. \<exists>s \<in> set (pl_steps plan). st_step_id s = i \<and> st_compensatable s)
        (rev (map st_step_id ch)) = map st_step_id (filter st_compensatable (rev ch))"
      unfolding rev_map filter_map by simp
    then show ?thesis
      using ch(2,4-7) unfolding assms(5) b plan_body_reads ch(3)
      by (simp add: ch(1) [symmetric] rev_map [symmetric])
  qed
qed

text \<open>
  C11. COMPLETE means everything was done: every step of the plan was started, in the order of the
  plan, every postcondition was recorded SATISFIED, and nothing was compensated.
\<close>

theorem complete_means_done:
  assumes "op_reachable sha db0" and "db = tx_state sha cs db0" and "made_plan plan"
    and "run_transaction sha plan d (db, w) = (Inr x, db', w')" and "rx_status x = COMPLETE"
    and "h = bodies db' (pl_transaction_id plan)"
  shows "ids_of STEP_EXECUTION_STARTED h = map st_step_id (pl_steps plan)
    \<and> satisfied_ids h = map st_step_id (pl_steps plan)
    \<and> ids_of COMPENSATION_STARTED h = [] \<and> rx_compensated_step_ids x = []"
proof -
  have "tx_base db" using assms(1,2) by (rule tx_state_base)
  from assms(4) this assms(3) show ?thesis
    by (rule returned_post) (use assms(5,6) in \<open>auto simp: run_post_def plan_ids_def\<close>)
qed

lemma validate_history_prefix:
  assumes "validate_history ids bs = Inr ()" and "0 < k"
  shows "validate_history ids (take k bs) = Inr ()"
proof -
  obtain b cs where bs: "bs = b # cs" using assms(1) by (cases bs) (auto simp: validate_history_def)
  obtain j where k: "k = Suc j" using assms(2) by (cases k) auto
  have reg: "te_event_type b = PLAN_REGISTERED" "no_plan cs"
    using assms(1) by (auto simp: validate_history_def bs no_plan_def guardE_eq_Inr filter_empty_conv
        elim!: bindE_InrE)
  have "check_events ids check_start (take k bs @ drop k bs) = check_events ids check_start bs" by simp
  moreover obtain ck where "check_events ids check_start bs = Inr ck"
    using assms(1) by (auto simp: validate_history_def elim!: bindE_InrE)
  ultimately obtain ck' where "check_events ids check_start (take k bs) = Inr ck'"
    unfolding check_events_append by (auto elim!: bindE_InrE)
  moreover have "filter (\<lambda>e. te_event_type e = PLAN_REGISTERED) (take j cs) = []"
    using reg(2) by (auto simp: no_plan_def filter_empty_conv dest: in_set_takeD)
  ultimately show ?thesis using reg(1) by (simp add: validate_history_def bs k)
qed

text \<open>
  A crash never corrupts a history. Every transaction of a reachable profile passes the
  validation that runs when the profile is opened, and so does every non-empty initial segment of
  its events - the histories a crash between two commits leaves.
\<close>

theorem crash_points_validate:
  assumes "op_reachable sha db0" and "db = tx_state sha cs db0"
  shows "validate_transactions sha db = Inr ()
    \<and> (\<forall>r \<in> set (db_transactions db). \<exists>steps. tx_steps db (tx_id r) = Inr steps
         \<and> (\<forall>k > 0. validate_history (map st_step_id steps) (take k (bodies db (tx_id r))) = Inr ()))"
proof -
  have inv: "tx_inv sha db" unfolding assms(2) by (rule tx_state_inv [OF assms(1)])
  then have "tx_operation_id ` set (db_transactions db) \<subseteq> op_id ` set (db_operations db)"
    by (simp add: tx_inv_def tx_base_def)
  then have refs: "list_all (\<lambda>r. tx_operation_id r \<in> op_id ` set (db_operations db)) (db_transactions db)"
    by (auto simp: list_all_iff)
  have all: "\<forall>r \<in> set (db_transactions db). validate_transaction sha db r = Inr ()"
    using inv by (simp add: tx_inv_def)
  then have "mapE (validate_transaction sha db) (sort_key tx_id (db_transactions db))
      = Inr (map (\<lambda>_. ()) (sort_key tx_id (db_transactions db)))"
    by (intro mapE_total) simp
  then have "validate_transactions sha db = Inr ()"
    using refs by (simp add: validate_transactions_def)
  moreover have "\<exists>steps. tx_steps db (tx_id r) = Inr steps
         \<and> (\<forall>k > 0. validate_history (map st_step_id steps) (take k (bodies db (tx_id r))) = Inr ())"
    if "r \<in> set (db_transactions db)" for r
  proof -
    from all that obtain steps where "tx_steps db (tx_id r) = Inr steps"
      "validate_history (map st_step_id steps) (bodies db (tx_id r)) = Inr ()"
      by (auto simp: validate_transaction_def bodies_def elim!: bindE_InrE)
    then show ?thesis using validate_history_prefix by blast
  qed
  ultimately show ?thesis by blast
qed

text \<open>
  A registered plan is never run again. Once a transaction or its operation is registered,
  whatever runs afterwards, another run with the transaction's or the operation's id raises, the
  database stays as it was and no method of the driver is called.
\<close>

theorem registered_never_reruns:
  assumes "op_reachable sha db0" and "db = tx_state sha cs db0" and "r \<in> set (db_transactions db)"
    and "later = run_cmds (exec_tx sha) es db"
    and "tx_id r = pl_transaction_id plan \<or> tx_operation_id r = pl_operation_id plan"
  shows "\<exists>e. run_transaction sha plan d (later, w) = (Inl e, later, w)"
proof -
  have "tx_inv sha db" unfolding assms(2) by (rule tx_state_inv [OF assms(1)])
  from exec_run_extends [OF this] have "r \<in> set (db_transactions later)"
    unfolding assms(4) using assms(3) set_mono_prefix by blast
  then have "pl_transaction_id plan \<in> tx_id ` set (db_transactions later)
      \<or> pl_operation_id plan \<in> tx_operation_id ` set (db_transactions later)"
    using assms(5) by (metis imageI)
  then have "\<not> (\<exists>db1. register_plan sha plan later = Inr db1)"
    by (auto elim: register_plan_Inr)
  then show ?thesis by (cases rule: run_cases [of sha plan d later w]) auto
qed

text \<open>
  C12. The history accounts for every effect. Whether a run returns or raises, the calls of
  \<open>execute_step\<close> and \<open>compensate_step\<close> it made are, one for one and in order, those that the
  events it recorded announced as started: no effect without its record.
\<close>

theorem effects_are_announced:
  assumes "op_reachable sha db0" and "db = tx_state sha cs db0" and "made_plan plan"
    and "run_transaction sha plan d (db, w) = (r, db', w')" and "observes d calls"
  shows "\<exists>bs. bodies db' (pl_transaction_id plan) = bodies db (pl_transaction_id plan) @ bs
    \<and> calls w' = calls w @ announced bs"
proof (cases rule: run_cases [of sha plan d db w])
  case (refused e)
  then show ?thesis using assms(4) by (intro exI [of _ "[]"]) simp
next
  case (registered op db1)
  have base: "tx_base db" using assms(1,2) by (rule tx_state_base)
  have "e \<notin> set (tx_events db (pl_transaction_id plan))" for e
  proof -
    have "pl_transaction_id plan \<notin> tx_id ` set (db_transactions db)"
      using registered(1) by (rule register_plan_Inr)
    moreover have "te_transaction_id ` set (db_tx_events db) \<subseteq> tx_id ` set (db_transactions db)"
      using base by (simp add: tx_base_def)
    ultimately show ?thesis unfolding tx_events_def by (metis (mono_tags, lifting) filter_is_subset imageI mem_Collect_eq set_filter subsetD)
  qed
  then have none: "bodies db (pl_transaction_id plan) = []"
    by (cases "tx_events db (pl_transaction_id plan)") (auto simp: bodies_def)
  from assms(4) registered(1) assms(3) registered(2,3) base show ?thesis
    by (rule run_registered) (use assms(5) none in auto)
qed

subsection \<open>Reading a history back\<close>

lemma run_steps_kept:
  assumes "run_transaction sha plan d (db, w) = (r, db', w')" and "tx_base db" and "made_plan plan"
    and "t \<in> tx_id ` set (db_transactions db)"
  shows "tx_steps db' t = tx_steps db t"
proof (cases rule: run_cases [of sha plan d db w])
  case (refused e)
  then show ?thesis using assms(1) by simp
next
  case (registered op db1)
  have new: "pl_transaction_id plan \<notin> tx_id ` set (db_transactions db)"
    using registered(1) by (rule register_plan_Inr)
  then have "t \<noteq> pl_transaction_id plan" using assms(4) by metis
  then have "tx_steps db1 t = tx_steps db t"
    using register_plan_base [OF registered(1) assms(2,3)] by (elim conjE) simp
  moreover from assms(1) registered(1) assms(3) registered(2,3) assms(2)
  have "db_tx_steps db' = db_tx_steps db1" by (rule run_registered) (simp add: tx_ext_def)
  ultimately show ?thesis using tx_steps_cong by metis
qed

lemma exec_tx_steps_kept:
  assumes "exec_tx sha c db = Inr db'" and "tx_inv sha db" and "t \<in> tx_id ` set (db_transactions db)"
  shows "tx_steps db' t = tx_steps db t"
proof (cases c)
  case (Tx_Op d)
  then have "same_tx db db'"
    using assms exec_op_same by (auto simp: tx_inv_def tx_base_def)
  then show ?thesis by (intro tx_steps_cong) (simp add: same_tx_def)
next
  case (Tx_Run plan d w)
  obtain r db2 w2 where r: "run_transaction sha plan d (db, w) = (r, db2, w2)"
    by (cases "run_transaction sha plan d (db, w)") auto
  have base: "tx_base db" using assms(2) by (simp add: tx_inv_def)
  show ?thesis
    using assms(1) run_steps_kept [OF r base _ assms(3)] by (auto simp: Tx_Run r split: if_splits)
qed

lemma exec_run_steps_kept:
  assumes "tx_inv sha db" and "t \<in> tx_id ` set (db_transactions db)"
  shows "tx_steps (run_cmds (exec_tx sha) cs db) t = tx_steps db t"
  using assms
proof (induction cs arbitrary: db)
  case (Cons c cs)
  show ?case
  proof (cases "exec_tx sha c db")
    case (Inr db1)
    note i = exec_tx_inv [OF Inr Cons.prems(1)]
    have "tx_id ` set (db_transactions db) \<subseteq> tx_id ` set (db_transactions db1)"
      using i by (intro image_mono set_mono_prefix) simp
    then have "t \<in> tx_id ` set (db_transactions db1)" using Cons.prems(2) by blast
    with Cons.IH [of db1] i exec_tx_steps_kept [OF Inr Cons.prems] show ?thesis by (simp add: Inr)
  qed (use Cons in simp)
qed simp

lemma get_operation_exists:
  assumes "op_inv db" and "oid \<in> op_id ` set (db_operations db)"
  shows "\<exists>x. get_operation db oid = Inr x"
proof (cases "find (\<lambda>r. op_id r = oid) (db_operations db)")
  case None
  then show ?thesis using assms(2) unfolding find_None_image by simp
next
  case (Some r)
  then have "r \<in> set (db_operations db)" by (auto simp: find_Some_iff in_set_conv_nth)
  from op_record_exists [OF assms(1) this] obtain x where "op_record db r = Inr x" by blast
  then show ?thesis using Some by (simp add: get_operation_def op_identity_def)
qed

lemma find_unique:
  "distinct (map f xs) \<Longrightarrow> x \<in> set xs \<Longrightarrow> find (\<lambda>y. f y = f x) xs = Some x"
  by (induction xs) (auto simp: image_iff)

lemma history_of_row:
  assumes "tx_inv sha db" and "r \<in> set (db_transactions db)" and "trimmed (tx_id r)"
    and "tx_steps db (tx_id r) = Inr steps"
  obtains h where "tx_history_of db (tx_id r) = Inr h" "th_steps h = steps"
    "th_operation_id h = tx_operation_id r" "th_plan_fingerprint h = tx_plan_fingerprint r"
    "th_requires_recovery_review h \<longleftrightarrow> or_recorded_state (th_operation h) = ST_EXECUTING
         \<or> or_recorded_state (th_operation h) = ST_UNKNOWN \<and> \<not> or_reconciled (th_operation h)"
    "th_events h = tx_events db (tx_id r)"
    "th_unresolved_execution h
       = unresolved (tx_events db (tx_id r)) STEP_EXECUTION_STARTED STEP_EXECUTION_RECORDED"
proof -
  have base: "tx_base db" using assms(1) by (simp add: tx_inv_def)
  then have "distinct (map tx_id (db_transactions db))" by (simp add: tx_base_def)
  from find_unique [OF this assms(2)]
  have f: "find (\<lambda>y. tx_id y = tx_id r) (db_transactions db) = Some r" .
  have "op_inv db" "tx_operation_id r \<in> op_id ` set (db_operations db)"
    using base assms(2) by (simp_all add: tx_base_def image_subset_iff)
  from get_operation_exists [OF this] obtain x where x: "get_operation db (tx_operation_id r) = Inr x" by blast
  show ?thesis
    by (rule that) (simp add: tx_history_of_def tx_text_idem [OF assms(3)] f assms(4) x Let_def, simp_all)
qed

lemma made_plan_trimmed: "made_plan plan \<Longrightarrow> trimmed (pl_transaction_id plan)"
  by (cases plan) (auto simp: made_plan_def make_plan_def elim!: bindE_InrE dest!: tx_text_trimmed)

lemma bindS_attempt:
  "call w = (r, w1) \<Longrightarrow> bindS (attempt call mk ident) f (db, w) = f (receive mk ident r) (db, w1)"
  by (simp add: bindS_def attempt_def)

text \<open>
  The plan round trips through the database. Whatever runs after a registered run, \<open>history\<close>
  gives back exactly the plan's steps with their dependencies, its operation and its fingerprint,
  and asks for a review exactly when the operation is executing or unreconciled.
\<close>

theorem plan_round_trip:
  assumes "op_reachable sha db0" and "db = tx_state sha cs db0" and "made_plan plan"
    and "run_transaction sha plan d (db, w) = (Inr x, db', w')"
    and "later = run_cmds (exec_tx sha) es db'"
  shows "\<exists>h. tx_history_of later (pl_transaction_id plan) = Inr h
    \<and> th_steps h = pl_steps plan \<and> th_operation_id h = pl_operation_id plan
    \<and> th_plan_fingerprint h = plan_fingerprint sha plan
    \<and> (th_requires_recovery_review h \<longleftrightarrow> or_recorded_state (th_operation h) = ST_EXECUTING
         \<or> or_recorded_state (th_operation h) = ST_UNKNOWN \<and> \<not> or_reconciled (th_operation h))"
proof -
  have inv: "tx_inv sha db" unfolding assms(2) by (rule tx_state_inv [OF assms(1)])
  then have base: "tx_base db" by (simp add: tx_inv_def)
  from run_transaction_inv [OF assms(4) inv assms(3)] have inv': "tx_inv sha db'" by blast
  then have invl: "tx_inv sha later" unfolding assms(5) by (rule tx_machine.run_inv)
  obtain op db1 where reg: "register_plan sha plan db = Inr db1"
    "get_operation db (pl_operation_id plan) = Inr op" "or_recorded_state op = ST_EXECUTING"
    by (rule returned_registered [OF assms(4)])
  note b = register_plan_base [OF reg(1) base assms(3)]
  from assms(4) reg(1) assms(3) reg(2,3) base
  have t: "db_transactions db' = db_transactions db1 \<and> db_tx_steps db' = db_tx_steps db1"
    by (rule run_registered) (simp add: tx_ext_def)
  then have row: "plan_row sha plan \<in> set (db_transactions db')" using b by simp
  then have "tx_id (plan_row sha plan) \<in> tx_id ` set (db_transactions db')" by (rule imageI)
  from exec_run_steps_kept [OF inv' this, of es]
  have "tx_steps later (tx_id (plan_row sha plan)) = Inr (pl_steps plan)"
    using b t tx_steps_cong [of db' db1] by (simp add: assms(5) plan_row_def)
  moreover have "plan_row sha plan \<in> set (db_transactions later)"
    unfolding assms(5) using row exec_run_extends [OF inv'] set_mono_prefix by blast
  moreover have "trimmed (tx_id (plan_row sha plan))"
    using assms(3) by (simp add: plan_row_def made_plan_trimmed)
  ultimately show ?thesis
    using history_of_row [OF invl] by (metis plan_row_def tx_row.select_convs)
qed

text \<open>
  Without a driver contract and a snapshot nothing is executed. If the driver lacks a method,
  or \<open>prepare_snapshot\<close> raises or returns anything but a snapshot of this very transaction, a run
  that returns is COMPENSATED with no executed step, the operation is recorded FAILED, and the
  driver saw at most the snapshot call.
\<close>

theorem no_snapshot_no_effect:
  assumes "op_reachable sha db0" and "db = tx_state sha cs db0" and "made_plan plan"
    and "run_transaction sha plan d (db, w) = (Inr x, db', w')"
    and "dr_prepare_snapshot d plan w = (reply, w1)"
    and "dr_contract d \<noteq> None \<or> (\<forall>s. receive make_snapshot (snapshot_identity plan) reply \<noteq> Inr s)"
  shows "rx_status x = COMPENSATED \<and> rx_executed_step_ids x = []
    \<and> or_recorded_state (rx_operation x) = ST_FAILED
    \<and> announced (bodies db' (pl_transaction_id plan)) = []
    \<and> w' = (if dr_contract d \<noteq> None then w else w1)"
proof (cases rule: run_cases [of sha plan d db w])
  case (refused e)
  then show ?thesis using assms(4) by simp
next
  case (registered op db1)
  have base: "tx_base db" using assms(1,2) by (rule tx_state_base)
  have b1: "bodies db1 (pl_transaction_id plan) = [plan_body sha plan]"
    using register_plan_base [OF registered(1) base assms(3)] by (elim conjE)
  let ?w = "if dr_contract d \<noteq> None then w else w1"
  obtain ev where run: "run_transaction sha plan d (db, w) = safe_failure plan ev (db1, ?w)"
  proof (cases "dr_contract d")
    case (Some cls)
    then show ?thesis using that registered(4) by simp
  next
    case None
    then obtain cls where "receive make_snapshot (snapshot_identity plan) reply = Inl cls"
      using assms(6) by (cases "receive make_snapshot (snapshot_identity plan) reply") auto
    then show ?thesis
      using that registered(4) None by (simp add: bindS_attempt [where call = "dr_prepare_snapshot d plan" and w = w, OF assms(5)])
  qed
  from emitsD [OF safe_failure_emits, of plan ev db1 ?w "Inr x" db' w'] obtain bs where
    bs: "tx_ext (pl_transaction_id plan) bs db1 db'" "run_post plan (Inr x) bs db'" "w' = ?w" "announced bs = []"
    "rx_status x = COMPENSATED" "rx_executed_step_ids x = []"
    using run assms(4) by auto
  then have "rx_agrees plan db' x" by (auto simp: run_post_def)
  moreover have "bodies db' (pl_transaction_id plan) = plan_body sha plan # bs"
    using bs(1) b1 by (simp add: tx_ext_def)
  ultimately show ?thesis using bs(3-6) by (simp add: rx_agrees_def)
qed

subsection \<open>What the validation guarantees\<close>

definition ck_bounded :: "check_state \<Rightarrow> bool" where
  "ck_bounded ck \<longleftrightarrow> (\<forall>s. ck_execution ck s \<in> {0, 1} \<and> ck_compensation ck s \<in> {0, 1})"

definition delta :: "tx_event_type \<Rightarrow> tx_event_type \<Rightarrow> string \<Rightarrow> tx_body \<Rightarrow> int" where
  "delta started recorded s b = (if te_step_id b \<noteq> Some s then 0
     else if te_event_type b = started then 1 else if te_event_type b = recorded then -1 else 0)"

lemma balance_Cons:
  "balance started recorded s (e # es) = delta started recorded s (te_body e) + balance started recorded s es"
  by (simp add: delta_def)

lemma check_event_bounded:
  assumes "check_event ids ck b = Inr ck'" and "ck_bounded ck"
  shows "ck_bounded ck' \<and> pred_option (\<lambda>s. s \<in> set ids) (te_step_id b)
    \<and> ck_execution ck' s = ck_execution ck s + delta STEP_EXECUTION_STARTED STEP_EXECUTION_RECORDED s b
    \<and> ck_compensation ck' s = ck_compensation ck s + delta COMPENSATION_STARTED COMPENSATION_RECORDED s b"
  using assms
  by (cases "te_event_type b";
    auto simp: check_event_def delta_def ck_bounded_def guardE_eq_Inr Let_def split: option.splits
       elim!: bindE_InrE; metis)

lemma check_events_bounded:
  assumes "check_events ids ck (map te_body es) = Inr ck'" and "ck_bounded ck"
  shows "ck_bounded ck' \<and> (\<forall>e \<in> set es. pred_option (\<lambda>s. s \<in> set ids) (te_step_id (te_body e)))
    \<and> ck_execution ck' s = ck_execution ck s + balance STEP_EXECUTION_STARTED STEP_EXECUTION_RECORDED s es
    \<and> ck_compensation ck' s = ck_compensation ck s + balance COMPENSATION_STARTED COMPENSATION_RECORDED s es"
  using assms
proof (induction es arbitrary: ck)
  case Nil
  then show ?case by simp
next
  case (Cons e es)
  from Cons.prems(1) obtain ck1 where 1: "check_event ids ck (te_body e) = Inr ck1"
    "check_events ids ck1 (map te_body es) = Inr ck'" by (auto elim!: bindE_InrE)
  from check_event_bounded [OF 1(1) Cons.prems(2)] have b: "ck_bounded ck1" by blast
  show ?case
    using Cons.IH [OF 1(2) b] check_event_bounded [OF 1(1) Cons.prems(2), of s]
    unfolding balance_Cons by simp
qed

text \<open>
  In a history the validation accepts, every step has at most one execution and at most one
  compensation that was started and not recorded; so the unresolved lists \<open>history\<close> reports name
  steps of the plan, each once and in order, and are exactly the steps whose balance is 1.
\<close>

theorem accepted_history_balanced:
  assumes "validate_history ids (map te_body es) = Inr ()"
  shows "balance STEP_EXECUTION_STARTED STEP_EXECUTION_RECORDED s es \<in> {0, 1}
    \<and> balance COMPENSATION_STARTED COMPENSATION_RECORDED s es \<in> {0, 1}
    \<and> (\<forall>u \<in> {unresolved es STEP_EXECUTION_STARTED STEP_EXECUTION_RECORDED,
             unresolved es COMPENSATION_STARTED COMPENSATION_RECORDED}.
         set u \<subseteq> set ids \<and> distinct u \<and> sorted u)
    \<and> (s \<in> set (unresolved es STEP_EXECUTION_STARTED STEP_EXECUTION_RECORDED)
        \<longleftrightarrow> balance STEP_EXECUTION_STARTED STEP_EXECUTION_RECORDED s es = 1)"
proof -
  obtain ck where ck: "check_events ids check_start (map te_body es) = Inr ck"
    using assms by (auto simp: validate_history_def elim!: bindE_InrE)
  have "ck_bounded check_start" by (simp add: ck_bounded_def check_start_def)
  note b = check_events_bounded [OF ck this]
  have bal: "balance STEP_EXECUTION_STARTED STEP_EXECUTION_RECORDED s es \<in> {0, 1}
    \<and> balance COMPENSATION_STARTED COMPENSATION_RECORDED s es \<in> {0, 1}" for s
    using b [of s] by (simp add: ck_bounded_def check_start_def) metis
  have mem: "s \<in> set ids" if "e \<in> set es" "te_step_id (te_body e) = Some s" for e s
    using b that by (metis option.pred_inject(2))
  have named: "set (List.map_filter (\<lambda>e. te_step_id (te_body e)) es) = {s. \<exists>e \<in> set es. te_step_id (te_body e) = Some s}"
    by (auto simp: List.map_filter_def) force
  have zero: "balance a c s es = 0" if "\<forall>e \<in> set es. te_step_id (te_body e) \<noteq> Some s" for a c s
    using that by (induction es) auto
  have unr: "set (unresolved es a c) = {s. 0 < balance a c s es}" for a c
  proof -
    have "\<exists>e \<in> set es. te_step_id (te_body e) = Some x" if "0 < balance a c x es" for x
      using zero [of x a c] that by force
    then show ?thesis by (auto simp: unresolved_def named)
  qed
  have "set (unresolved es a c) \<subseteq> set ids" for a c
  proof
    fix x
    assume "x \<in> set (unresolved es a c)"
    then have "0 < balance a c x es" unfolding unr by simp
    with zero [of x a c] have "\<exists>e \<in> set es. te_step_id (te_body e) = Some x" by force
    then show "x \<in> set ids" using mem by blast
  qed
  moreover have "distinct (unresolved es a c)" "sorted (unresolved es a c)" for a c
    by (simp_all add: unresolved_def sorted_wrt_filter)
  ultimately show ?thesis using bal [of s] by (auto simp: unr)
qed

text \<open>
  The check "started more than once" sees overlapping starts only: a history in which a step is
  executed twice, one after the other, is accepted.
\<close>

definition twice_executed :: "tx_body list" where
  "twice_executed =
     (let started = (plain_body STEP_EXECUTION_STARTED ''e'')\<lparr>te_step_id := Some ''s'', te_snapshot_ref := Some ''n''\<rparr>;
          recorded = (plain_body STEP_EXECUTION_RECORDED ''e'')\<lparr>te_step_id := Some ''s'',
            te_status := Some ''SUCCEEDED'', te_change_state := Some ''APPLIED''\<rparr> in
      [plain_body PLAN_REGISTERED ''e'',
       (plain_body SNAPSHOT_CAPTURED ''e'')\<lparr>te_snapshot_ref := Some ''n'', te_snapshot_fingerprint := Some ''f''\<rparr>,
       started, recorded, started, recorded])"

lemma repeated_execution_accepted:
  "validate_history [''s''] twice_executed = Inr ()
   \<and> ids_of STEP_EXECUTION_STARTED twice_executed = [''s'', ''s'']"
  by code_simp

end
