(* ===== verification/Transactions_Demo.thy ===== *)
theory Transactions_Demo
  imports Transactions_Facts
begin

text \<open>
  Concrete runs of a plan of two steps: one that completes, one whose second postcondition fails, one
  without a snapshot; the properties of runs applied to them.
\<close>

subsection \<open>A local operation\<close>

definition local_intent :: action_intent where
  "local_intent = \<lparr>ai_action_id = ''a'', ai_job_id = ''j'', ai_action_class = REVERSIBLE,
     ai_description = ''d'', ai_target_ref = ''t'', ai_revision_fingerprint = ''r'',
     ai_payload_fingerprint = ''p'', ai_destination = None, ai_purpose = None, ai_data_categories = []\<rparr>"

definition local_approval :: "string \<times> string \<times> string" where
  "local_approval = (''ap'', ''h'', ''artist'')"

definition local_cmds :: "(bool \<times> string) list tx_cmd list" where
  "local_cmds = [Tx_Op (Op_Prepare ''k'' local_intent local_approval None None None None None),
     Tx_Op (Op_Claim ''op_aaaa'' local_intent local_approval ''ev'' None None)]"

definition local_tx :: tx_db where
  "local_tx = tx_state demo_digest local_cmds demo_empty"

lemma local_reachable: "op_reachable demo_digest demo_empty"
  by (rule demo_reachable)

subsection \<open>Plans and drivers\<close>

definition demo_step :: "string \<Rightarrow> string list \<Rightarrow> tx_step" where
  "demo_step sid deps = \<lparr>st_step_id = sid, st_description = ''d'', st_postcondition_ref = ''p'',
     st_compensatable = True, st_depends_on = deps\<rparr>"

definition demo_plan :: tx_plan where
  "demo_plan = \<lparr>pl_transaction_id = ''t'', pl_operation_id = ''op_aaaa'',
     pl_steps = [demo_step ''a'' [], demo_step ''b'' [''a'']]\<rparr>"

text \<open>
  A driver whose world lists its calls; \<open>snap\<close> is whether it takes a snapshot, \<open>post\<close> the status it
  reports for the postcondition of step b.
\<close>

definition demo_driver :: "bool \<Rightarrow> string \<Rightarrow> (bool \<times> string) list driver" where
  "demo_driver snap post = \<lparr>dr_contract = None,
     dr_prepare_snapshot = (\<lambda>p w. (if snap then Returned (''t'', ''op_aaaa'', ''n'', ''f'', ''e'')
        else Raised ''OSError'', w)),
     dr_execute_step = (\<lambda>s w. (Returned (st_step_id s, ''SUCCEEDED'', ''APPLIED'', ''e'', None),
        w @ [(True, st_step_id s)])),
     dr_verify_postcondition = (\<lambda>s e w. (Returned (st_step_id s, ''p'',
        if st_step_id s = ''b'' then post else ''SATISFIED'', ''e''), w)),
     dr_compensate_step = (\<lambda>s n w. (Returned (st_step_id s, ''n'', ''RESTORED'', ''e''),
        w @ [(False, st_step_id s)])),
     dr_success_receipt = (\<lambda>p n w. (Returned (''t'', ''op_aaaa'', ''n'', ''r'', ''e'', ''f''), w))\<rparr>"

lemma demo_observed: "observes (demo_driver snap post) (\<lambda>w. w)"
  by (simp add: observes_def demo_driver_def)

lemma demo_plan_made: "made_plan demo_plan"
  by code_simp

definition demo_outcome ::
  "bool \<Rightarrow> string \<Rightarrow> tx_result res \<times> tx_db \<times> (bool \<times> string) list" where
  "demo_outcome snap post = run_transaction demo_digest demo_plan (demo_driver snap post) (local_tx, [])"

definition demo_returns :: "bool \<Rightarrow> string \<Rightarrow> tx_status \<Rightarrow> bool" where
  "demo_returns snap post st \<longleftrightarrow>
     (case demo_outcome snap post of
        (Inr x, db, w) \<Rightarrow> rx_status x = st \<and> list_ex (\<lambda>r. tx_id r = ''t'') (db_transactions db)
      | (Inl e, db, w) \<Rightarrow> False)"

lemma demo_returnsE:
  assumes "demo_returns snap post st"
  obtains x db w where "run_transaction demo_digest demo_plan (demo_driver snap post) (local_tx, []) = (Inr x, db, w)"
    "rx_status x = st" "list_ex (\<lambda>r. tx_id r = ''t'') (db_transactions db)"
proof -
  obtain r db w where o: "demo_outcome snap post = (r, db, w)" by (cases "demo_outcome snap post")
  with assms obtain x where "r = Inr x" "rx_status x = st" "list_ex (\<lambda>r. tx_id r = ''t'') (db_transactions db)"
    by (cases r) (simp_all add: demo_returns_def)
  then show ?thesis using o that by (simp add: demo_outcome_def)
qed

lemma demo_complete: "demo_returns True ''SATISFIED'' COMPLETE"
  by code_simp

lemma demo_compensated: "demo_returns True ''FAILED'' COMPENSATED"
  by code_simp

lemma demo_unprepared: "demo_returns False ''SATISFIED'' COMPENSATED"
  by code_simp

subsection \<open>The properties of runs, applied\<close>

lemma local_tx_state: "local_tx = tx_state demo_digest local_cmds demo_empty"
  by (rule local_tx_def)

theorem run_status_agrees_witness:
  "\<exists>x db w. run_transaction demo_digest demo_plan (demo_driver True ''SATISFIED'') (local_tx, []) = (Inr x, db, w)
     \<and> rx_status x = COMPLETE \<and> or_recorded_state (rx_operation x) = ST_SUCCEEDED"
proof -
  obtain x db w where r: "run_transaction demo_digest demo_plan (demo_driver True ''SATISFIED'') (local_tx, [])
    = (Inr x, db, w)" "rx_status x = COMPLETE" by (rule demo_returnsE [OF demo_complete])
  from run_status_agrees [OF local_reachable local_tx_state demo_plan_made r(1)] r show ?thesis by blast
qed

theorem compensation_reverses_witness:
  "\<exists>x db w. run_transaction demo_digest demo_plan (demo_driver True ''FAILED'') (local_tx, []) = (Inr x, db, w)
     \<and> rx_status x = COMPENSATED \<and> rx_compensated_step_ids x = rev (rx_executed_step_ids x)"
proof -
  obtain x db w where r: "run_transaction demo_digest demo_plan (demo_driver True ''FAILED'') (local_tx, [])
    = (Inr x, db, w)" "rx_status x = COMPENSATED" by (rule demo_returnsE [OF demo_compensated])
  from compensation_reverses [OF local_reachable local_tx_state demo_plan_made r(1) refl] r show ?thesis by blast
qed

theorem complete_means_done_witness:
  "\<exists>x db w. run_transaction demo_digest demo_plan (demo_driver True ''SATISFIED'') (local_tx, []) = (Inr x, db, w)
     \<and> satisfied_ids (bodies db ''t'') = [''a'', ''b'']"
proof -
  obtain x db w where r: "run_transaction demo_digest demo_plan (demo_driver True ''SATISFIED'') (local_tx, [])
    = (Inr x, db, w)" "rx_status x = COMPLETE" by (rule demo_returnsE [OF demo_complete])
  have "pl_transaction_id demo_plan = ''t''" "map st_step_id (pl_steps demo_plan) = [''a'', ''b'']"
    by (simp_all add: demo_plan_def demo_step_def)
  with complete_means_done [OF local_reachable local_tx_state demo_plan_made r refl] r(1) show ?thesis by auto
qed

text \<open>The state after the run, reached by commands.\<close>

definition ran_cmds :: "(bool \<times> string) list tx_cmd list" where
  "ran_cmds = local_cmds @ [Tx_Run demo_plan (demo_driver True ''FAILED'') []]"

lemma ran_state:
  obtains x db w where "run_transaction demo_digest demo_plan (demo_driver True ''FAILED'') (local_tx, []) = (Inr x, db, w)"
    "db = tx_state demo_digest ran_cmds demo_empty" "list_ex (\<lambda>r. tx_id r = ''t'') (db_transactions db)"
proof -
  obtain x db w where r: "run_transaction demo_digest demo_plan (demo_driver True ''FAILED'') (local_tx, [])
    = (Inr x, db, w)" "rx_status x = COMPENSATED" "list_ex (\<lambda>r. tx_id r = ''t'') (db_transactions db)"
    by (rule demo_returnsE [OF demo_compensated])
  have "tx_state demo_digest ran_cmds demo_empty
      = run_cmds (exec_tx demo_digest) [Tx_Run demo_plan (demo_driver True ''FAILED'') []] local_tx"
    unfolding tx_state_def ran_cmds_def run_cmds_append local_tx_def ..
  also have "\<dots> = db" using r(1) demo_plan_made by simp
  finally show ?thesis using r that by metis
qed

theorem crash_points_validate_witness:
  "\<exists>x db w. run_transaction demo_digest demo_plan (demo_driver True ''FAILED'') (local_tx, []) = (Inr x, db, w)
     \<and> list_ex (\<lambda>r. tx_id r = ''t'') (db_transactions db) \<and> validate_transactions demo_digest db = Inr ()"
proof -
  obtain x db w where r: "run_transaction demo_digest demo_plan (demo_driver True ''FAILED'') (local_tx, []) = (Inr x, db, w)"
    "db = tx_state demo_digest ran_cmds demo_empty" "list_ex (\<lambda>r. tx_id r = ''t'') (db_transactions db)" by (rule ran_state)
  from crash_points_validate [OF local_reachable r(2)] r(1,3) show ?thesis by blast
qed

theorem registered_never_reruns_witness:
  "\<exists>x db w e. run_transaction demo_digest demo_plan (demo_driver True ''FAILED'') (local_tx, []) = (Inr x, db, w)
     \<and> run_transaction demo_digest demo_plan (demo_driver True ''SATISFIED'') (db, w) = (Inl e, db, w)"
proof -
  obtain x db w where r: "run_transaction demo_digest demo_plan (demo_driver True ''FAILED'') (local_tx, []) = (Inr x, db, w)"
    "db = tx_state demo_digest ran_cmds demo_empty" "list_ex (\<lambda>r. tx_id r = ''t'') (db_transactions db)" by (rule ran_state)
  from r(3) obtain row where row: "row \<in> set (db_transactions db)" "tx_id row = pl_transaction_id demo_plan"
    by (auto simp: list_ex_iff demo_plan_def)
  have later: "db = run_cmds (exec_tx demo_digest) [] db" by simp
  from registered_never_reruns [OF local_reachable r(2) row(1) later disjI1 [OF row(2)],
      of "demo_driver True ''SATISFIED''" w] r(1) show ?thesis by blast
qed

theorem effects_are_announced_witness:
  "\<exists>x db w bs. run_transaction demo_digest demo_plan (demo_driver True ''FAILED'') (local_tx, []) = (Inr x, db, w)
     \<and> w = announced bs"
proof -
  obtain x db w where r: "run_transaction demo_digest demo_plan (demo_driver True ''FAILED'') (local_tx, [])
    = (Inr x, db, w)" "rx_status x = COMPENSATED" by (rule demo_returnsE [OF demo_compensated])
  from effects_are_announced [OF local_reachable local_tx_state demo_plan_made r(1) demo_observed] r(1)
  show ?thesis by auto
qed

theorem plan_round_trip_witness:
  "\<exists>x db w h. run_transaction demo_digest demo_plan (demo_driver True ''FAILED'') (local_tx, []) = (Inr x, db, w)
     \<and> tx_history_of db (pl_transaction_id demo_plan) = Inr h \<and> th_steps h = pl_steps demo_plan"
proof -
  obtain x db w where r: "run_transaction demo_digest demo_plan (demo_driver True ''FAILED'') (local_tx, [])
    = (Inr x, db, w)" "rx_status x = COMPENSATED" by (rule demo_returnsE [OF demo_compensated])
  have later: "db = run_cmds (exec_tx demo_digest) [] db" by simp
  from plan_round_trip [OF local_reachable local_tx_state demo_plan_made r(1) later] r(1) show ?thesis by blast
qed

theorem no_snapshot_no_effect_witness:
  "\<exists>x db w. run_transaction demo_digest demo_plan (demo_driver False ''SATISFIED'') (local_tx, []) = (Inr x, db, w)
     \<and> rx_status x = COMPENSATED \<and> rx_executed_step_ids x = [] \<and> w = []"
proof -
  obtain x db w where r: "run_transaction demo_digest demo_plan (demo_driver False ''SATISFIED'') (local_tx, [])
    = (Inr x, db, w)" "rx_status x = COMPENSATED" by (rule demo_returnsE [OF demo_unprepared])
  have p: "dr_prepare_snapshot (demo_driver False ''SATISFIED'') demo_plan [] = (Raised ''OSError'', [])"
    by (simp add: demo_driver_def)
  have n: "dr_contract (demo_driver False ''SATISFIED'') \<noteq> None
      \<or> (\<forall>s. receive make_snapshot (snapshot_identity demo_plan) (Raised ''OSError'') \<noteq> Inr s)"
    by simp
  from no_snapshot_no_effect [OF local_reachable local_tx_state demo_plan_made r(1) p n] r(1)
  show ?thesis by (auto simp: demo_driver_def)
qed

end
