(* ===== verification/Dynamic.thy ===== *)
theory Dynamic
  imports Json
begin

text \<open>
  Values of unknown shape, as the governance code takes them from JSON files: \<open>str\<close>, \<open>repr\<close>, truth,
  attribute and item access with the exceptions they raise on the wrong shape, equality and hashing.
\<close>

subsection \<open>Text of a value\<close>

definition hex2 :: "nat \<Rightarrow> string" where
  "hex2 n = [hex_digit (n div 16), hex_digit (n mod 16)]"

definition repr_char :: "char \<Rightarrow> char \<Rightarrow> string" where
  "repr_char q c = (let n = code c in
     if c = q \<or> n = 92 then [CHR 0x5C, c]
     else if n = 9 then [CHR 0x5C, CHR ''t'']
     else if n = 10 then [CHR 0x5C, CHR ''n'']
     else if n = 13 then [CHR 0x5C, CHR ''r'']
     else if n < 32 \<or> 127 \<le> n \<and> n \<le> 160 \<or> n = 173 then [CHR 0x5C, CHR ''x''] @ hex2 n
     else [c])"

text \<open>Python quotes with ' unless the text has a ' and no double quote.\<close>

definition repr_text :: "string \<Rightarrow> string" where
  "repr_text s = (let q = (if CHR 0x27 \<in> set s \<and> CHR 0x22 \<notin> set s then CHR 0x22 else CHR 0x27) in
     [q] @ concat (map (repr_char q) s) @ [q])"

fun py_repr :: "json \<Rightarrow> string" where
  "py_repr JNull = ''None''"
| "py_repr (JBool b) = (if b then ''True'' else ''False'')"
| "py_repr (JInt i) = show_int i"
| "py_repr (JStr s) = repr_text s"
| "py_repr (JList vs) = ''['' @ join '', '' (map py_repr vs) @ '']''"
| "py_repr (JObj kvs) =
     ''{'' @ join '', '' (map (\<lambda>(k, v). repr_text k @ '': '' @ py_repr v) kvs) @ ''}''"

text \<open>\<open>str(x)\<close>.\<close>

fun py_str :: "json \<Rightarrow> string" where
  "py_str (JStr s) = s"
| "py_str v = py_repr v"

text \<open>The text of a sorted list of texts in a message.\<close>

definition show_sorted :: "string list \<Rightarrow> string" where
  "show_sorted xs = py_repr (JList (map JStr (sorted_unique xs)))"

subsection \<open>Access\<close>

text \<open>\<open>bool(x)\<close>.\<close>

fun py_truthy :: "json \<Rightarrow> bool" where
  "py_truthy JNull = False"
| "py_truthy (JBool b) = b"
| "py_truthy (JInt i) = (i \<noteq> 0)"
| "py_truthy (JStr s) = (s \<noteq> [])"
| "py_truthy (JList vs) = (vs \<noteq> [])"
| "py_truthy (JObj kvs) = (kvs \<noteq> [])"

fun is_obj :: "json \<Rightarrow> bool" where
  "is_obj (JObj kvs) = True"
| "is_obj _ = False"

text \<open>\<open>x.get(k)\<close> of a dict, and of anything else.\<close>

fun field :: "json \<Rightarrow> string \<Rightarrow> json option" where
  "field (JObj kvs) k = map_of kvs k"
| "field _ k = None"

definition py_get :: "json \<Rightarrow> string \<Rightarrow> json \<Rightarrow> json res" where
  "py_get x k other =
     (if is_obj x then Inr (case field x k of None \<Rightarrow> other | Some v \<Rightarrow> v)
      else Inl (Raise PyAttributeError ''get''))"

text \<open>\<open>x[k]\<close> with a text key.\<close>

definition py_item :: "json \<Rightarrow> string \<Rightarrow> json res" where
  "py_item x k =
     (if is_obj x then (case field x k of None \<Rightarrow> Inl (Raise PyKeyError (repr_text k)) | Some v \<Rightarrow> Inr v)
      else Inl (Raise PyTypeError ''indices''))"

text \<open>\<open>keys - set(x)\<close> for a dict \<open>x\<close>.\<close>

definition missing_keys :: "string list \<Rightarrow> json \<Rightarrow> string list" where
  "missing_keys keys x = filter (\<lambda>k. field x k = None) keys"

text \<open>\<open>for _ in x\<close>.\<close>

fun py_iter :: "json \<Rightarrow> json list res" where
  "py_iter (JList vs) = Inr vs"
| "py_iter (JStr s) = Inr (map (\<lambda>c. JStr [c]) s)"
| "py_iter (JObj kvs) = Inr (map (JStr \<circ> fst) kvs)"
| "py_iter _ = Inl (Raise PyTypeError ''object is not iterable'')"

text \<open>
  Equality of values: True and 1 are equal, dicts are compared without their order. \<open>py_key\<close> is the
  representative a set or dict uses; lists and dicts cannot be hashed.
\<close>

fun unbool :: "json \<Rightarrow> json" where
  "unbool (JBool b) = JInt (if b then 1 else 0)"
| "unbool (JList vs) = JList (map unbool vs)"
| "unbool (JObj kvs) = JObj (map (\<lambda>(k, v). (k, unbool v)) kvs)"
| "unbool j = j"

definition py_eq :: "json \<Rightarrow> json \<Rightarrow> bool" where
  "py_eq a b \<longleftrightarrow> norm_json (unbool a) = norm_json (unbool b)"

fun py_key :: "json \<Rightarrow> json res" where
  "py_key (JList vs) = Inl (Raise PyTypeError (''unhashable type: '' @ repr_text ''list''))"
| "py_key (JObj kvs) = Inl (Raise PyTypeError (''unhashable type: '' @ repr_text ''dict''))"
| "py_key v = Inr (unbool v)"

text \<open>\<open>x in {...}\<close> for a set of texts.\<close>

definition py_in_texts :: "json \<Rightarrow> string list \<Rightarrow> bool res" where
  "py_in_texts x xs = bindE (py_key x) (\<lambda>k. Inr (k \<in> set (map JStr xs)))"

text \<open>
  Instants are microseconds; \<open>parse_iso\<close> is \<open>datetime.fromisoformat\<close>, which gives an instant with or
  without a time zone, or fails. \<open>replace("Z", "+00:00")\<close> is the code's.
\<close>

datatype stamp = Naive int | Aware int

definition zulu :: "string \<Rightarrow> string" where
  "zulu s = concat (map (\<lambda>c. if c = CHR ''Z'' then ''+00:00'' else [c]) s)"

abbreviation value_error :: "string \<Rightarrow> exc" where
  "value_error msg \<equiv> Raise PyValueError msg"

text \<open>
  \<open>int\<close> of a text (spaces around, a sign, digits with single underscores between them) and of a value;
  a loop of checks.
\<close>

fun underscores_ok :: "string \<Rightarrow> bool" where
  "underscores_ok [] = True"
| "underscores_ok [c] = is_digit c"
| "underscores_ok (c # d # cs) = ((is_digit c \<or> is_digit d \<and> c = CHR ''_'') \<and> underscores_ok (d # cs))"

definition py_int :: "string \<Rightarrow> int res" where
  "py_int s0 =
     (let s = strip s0;
          neg = (s \<noteq> [] \<and> hd s = CHR ''-'');
          body = (if s \<noteq> [] \<and> (hd s = CHR ''-'' \<or> hd s = CHR ''+'') then tl s else s) in
      if body \<noteq> [] \<and> is_digit (hd body) \<and> underscores_ok body then
        (let n = int (digit_val (filter is_digit body)) in Inr (if neg then - n else n))
      else Inl (value_error ''invalid literal for int() with base 10''))"

fun py_int_value :: "json \<Rightarrow> int res" where
  "py_int_value (JInt i) = Inr i"
| "py_int_value (JBool b) = Inr (if b then 1 else 0)"
| "py_int_value (JStr s) = py_int s"
| "py_int_value _ = Inl (Raise PyTypeError ''int() argument must be a string or a number'')"

fun each :: "('a \<Rightarrow> unit res) \<Rightarrow> 'a list \<Rightarrow> unit res" where
  "each f [] = Inr ()"
| "each f (x # xs) = bindE (f x) (\<lambda>_. each f xs)"

lemma guard_passed: "guardE b e = Inr u \<longleftrightarrow> b"
  by (simp add: guardE_def)

lemma py_item_field: "py_item x k = Inr v \<longleftrightarrow> field x k = Some v"
  by (cases x) (auto simp: py_item_def split: option.splits)

lemma py_eq_refl [simp]: "py_eq a a"
  by (simp add: py_eq_def)

lemma py_in_texts_Inr: "py_in_texts x xs = Inr True \<longleftrightarrow> (\<exists>s. x = JStr s \<and> s \<in> set xs)"
  by (cases x) (auto simp: py_in_texts_def)

lemma py_eq_str [simp]: "py_eq x (JStr s) \<longleftrightarrow> x = JStr s"
  by (cases x) (auto simp: py_eq_def)

lemma field_obj: "field x k = Some v \<Longrightarrow> is_obj x"
  by (cases x) simp_all

lemma missing_none: "missing_keys keys x = [] \<Longrightarrow> k \<in> set keys \<Longrightarrow> \<exists>v. field x k = Some v"
  by (auto simp: missing_keys_def filter_empty_conv)

end
