(* ===== verification/Governance_Model.thy ===== *)
theory Governance_Model
  imports Dynamic
begin

text \<open>
  \<open>governance/model.py\<close>: evidence claims, obligations, checkpoints, construction programs with
  their work packages, incidents and the dependency search, and the acceptance and migration checks.
  Records are JSON values read from files; what Python raises on a value of the wrong shape is
  modelled. A depth-first search of any depth is assumed to fit Python's stack.
\<close>

subsection \<open>Evidence\<close>

definition EVIDENCE_DIMENSIONS :: "string list" where
  "EVIDENCE_DIMENSIONS = [''MAPPED'', ''IMPLEMENTED'', ''INTEGRATED'', ''REACHABLE'', ''VERIFIED'',
     ''RECOVERABLE'', ''AUTHORITY_SAFE'', ''CONSUMER_ACCEPTED'', ''VALUE_EVIDENCED'']"

definition GENERIC_COMPLETION :: "string list" where
  "GENERIC_COMPLETION = [''DONE'', ''PASS'', ''COMPLETE'', ''ACCEPTED'', ''READY'', ''SUPPORTED'']"

definition DISCOVERY_DISPOSITIONS :: "string list" where
  "DISCOVERY_DISPOSITIONS = [''EXECUTED'', ''DURABLY_CAPTURED'', ''DUPLICATE'', ''BLOCKED'',
     ''REJECTED'', ''NON_ACTIONABLE'']"

definition UNFINISHED_STATES :: "string list" where
  "UNFINISHED_STATES = [''ACTIVE'', ''WAITING'', ''BLOCKED'']"

definition CHECKPOINT_FIELDS :: "string list" where
  "CHECKPOINT_FIELDS = [''canonical_work_id'', ''outcome'', ''owner'', ''state'', ''progress_checkpoint'',
     ''state_basis_or_evidence'', ''remaining_work'', ''blocker_or_waiting_condition'',
     ''next_admissible_action'', ''wake_condition'', ''completion_condition'']"

definition OPTIONAL_CLASSES :: "string list" where
  "OPTIONAL_CLASSES = [''LATER'', ''BOUNDARY'', ''PROVIDER_OPTIONAL'', ''HOST_OPTIONAL'']"

definition WORK_PACKAGE_STATES :: "string list" where
  "WORK_PACKAGE_STATES = [''ACTIVE'', ''WAITING'', ''BLOCKED'', ''COMPLETE'']"

definition PROGRAM_STATES :: "string list" where
  "PROGRAM_STATES = [''ACTIVE'', ''WAITING'', ''BLOCKED'', ''COMPLETE'']"

text \<open>\<open>rsplit("-", 1)[1]\<close>.\<close>

definition after_last_dash :: "string \<Rightarrow> string res" where
  "after_last_dash s =
     (if CHR ''-'' \<in> set s then Inr (rev (takeWhile (\<lambda>c. c \<noteq> CHR ''-'') (rev s)))
      else Inl (Raise PyIndexError ''list index out of range''))"

text \<open>\<open>max(xs, key=f)\<close> of a non-empty list: the first element with the largest key.\<close>

fun first_max :: "('a \<times> int) \<Rightarrow> ('a \<times> int) list \<Rightarrow> 'a" where
  "first_max best [] = fst best"
| "first_max best (x # xs) = first_max (if snd best < snd x then x else best) xs"

definition validate_scope_projection :: "string list \<Rightarrow> string list \<Rightarrow> string option res" where
  "validate_scope_projection canonical_ids repo_ids =
     (let canonical = fromkeys canonical_ids; projected = fromkeys repo_ids in
      bindE (guardE (set canonical = set projected)
        (value_error (''canonical scope mismatch missing=''
           @ show_sorted (filter (\<lambda>x. x \<notin> set projected) canonical) @ '' extra=''
           @ show_sorted (filter (\<lambda>x. x \<notin> set canonical) projected)))) (\<lambda>_.
      case canonical of
        [] \<Rightarrow> Inr None
      | _ \<Rightarrow>
          bindE (mapE (\<lambda>x. bindE (after_last_dash x) (\<lambda>d. bindE (py_int d) (\<lambda>n. Inr (x, n)))) canonical)
            (\<lambda>keyed. Inr (Some (first_max (hd keyed) (tl keyed))))))"

datatype claim = PROVEN | UNPROVEN

definition claim_state :: "json \<Rightarrow> string \<Rightarrow> claim res" where
  "claim_state record dimension =
     bindE (guardE (dimension \<in> set EVIDENCE_DIMENSIONS)
       (value_error (''unknown evidence dimension: '' @ dimension))) (\<lambda>_.
     bindE (py_get record dimension JNull) (\<lambda>cell.
     if \<not> is_obj cell then Inr UNPROVEN
     else
       bindE (py_get cell ''state'' (JStr ''UNPROVEN'')) (\<lambda>v.
       let state = py_str v in
       if state \<in> set GENERIC_COMPLETION then Inr UNPROVEN
       else if state = ''PROVEN'' then Inr PROVEN else Inr UNPROVEN)))"

text \<open>\<open>rid in reqs\<close> for the value found under "requirements".\<close>

fun py_has :: "json \<Rightarrow> string \<Rightarrow> bool res" where
  "py_has (JObj kvs) k = Inr (map_of kvs k \<noteq> None)"
| "py_has (JList vs) k = Inr (JStr k \<in> set vs)"
| "py_has (JStr s) k = Inr (list_ex (\<lambda>i. take (length k) (drop i s) = k) [0..<Suc (length s)])"
| "py_has _ k = Inl (Raise PyTypeError ''argument is not iterable'')"

definition validate_requirement_evidence :: "string list \<Rightarrow> json \<Rightarrow> bool res" where
  "validate_requirement_evidence canonical_ids evidence =
     bindE (py_get evidence ''requirements'' (JObj [])) (\<lambda>reqs.
     bindE (each (\<lambda>rid.
         bindE (py_has reqs rid) (\<lambda>has.
         bindE (guardE has (value_error (''missing requirement evidence instance: '' @ rid))) (\<lambda>_.
         each (\<lambda>dim.
           bindE (py_item reqs rid) (\<lambda>r.
           bindE (py_has r dim) (\<lambda>has.
           bindE (guardE has (value_error (''missing evidence dimension '' @ rid @ '':'' @ dim))) (\<lambda>_.
           bindE (claim_state r dim) (\<lambda>_. Inr ()))))) EVIDENCE_DIMENSIONS))) canonical_ids) (\<lambda>_.
     Inr True))"

definition evidence_is_fresh :: "(string \<Rightarrow> stamp option) \<Rightarrow> json \<Rightarrow> json \<Rightarrow> stamp \<Rightarrow> bool res" where
  "evidence_is_fresh parse_iso observed_at ttl_seconds now =
     (if \<not> py_truthy observed_at \<or> ttl_seconds = JNull then Inr False
      else case parse_iso (zulu (py_str observed_at)) of
        None \<Rightarrow> Inl (value_error ''Invalid isoformat string'')
      | Some st \<Rightarrow>
          bindE (case (now, st) of
                   (Aware n, Aware s) \<Rightarrow> Inr (n - s)
                 | (Naive n, Naive s) \<Rightarrow> Inr (n - s)
                 | _ \<Rightarrow> Inl (Raise PyTypeError
                         ''can't subtract offset-naive and offset-aware datetimes'')) (\<lambda>age.
          if age < 0 then Inr False
          else bindE (py_int_value ttl_seconds) (\<lambda>ttl. Inr (age \<le> ttl * 1000000))))"

definition obligation_is_required :: "json \<Rightarrow> bool res" where
  "obligation_is_required obligation =
     bindE (py_get obligation ''class'' (JStr ''REQUIRED'')) (\<lambda>c.
     let cls = py_str c in
     if cls = ''REQUIRED'' then Inr True
     else if cls = ''CONDITIONAL'' then
       bindE (py_get obligation ''applies'' JNull) (\<lambda>v. Inr (py_truthy v))
     else if cls \<in> set OPTIONAL_CLASSES then
       bindE (py_get obligation ''advertised'' JNull) (\<lambda>a.
       bindE (py_get obligation ''acceptance_profile_requires'' JNull) (\<lambda>r.
       Inr (py_truthy a \<or> py_truthy r)))
     else if cls = ''ADVERTISED_CAPABILITY'' then
       bindE (py_get obligation ''advertised'' (JBool True)) (\<lambda>v. Inr (py_truthy v))
     else if cls = ''ACCEPTANCE_PROFILE'' then
       bindE (py_get obligation ''acceptance_profile_requires'' (JBool True)) (\<lambda>v. Inr (py_truthy v))
     else Inl (value_error (''unknown obligation class: '' @ cls)))"

text \<open>\<open>[c for c in xs if p(c)]\<close> and \<open>all(p(c) for c in xs)\<close> with a test that may raise.\<close>

fun filterE :: "('a \<Rightarrow> bool res) \<Rightarrow> 'a list \<Rightarrow> 'a list res" where
  "filterE p [] = Inr []"
| "filterE p (x # xs) =
     bindE (p x) (\<lambda>b. bindE (filterE p xs) (\<lambda>ys. Inr (if b then x # ys else ys)))"

fun allE_res :: "('a \<Rightarrow> bool res) \<Rightarrow> 'a list \<Rightarrow> bool res" where
  "allE_res p [] = Inr True"
| "allE_res p (x # xs) = bindE (p x) (\<lambda>b. if b then allE_res p xs else Inr False)"

definition derive_parent_state :: "json list \<Rightarrow> string \<Rightarrow> claim res" where
  "derive_parent_state children required_dimension =
     bindE (filterE obligation_is_required children) (\<lambda>required.
     if required = [] then Inr UNPROVEN
     else
       bindE (allE_res (\<lambda>c. bindE (py_item c ''evidence'') (\<lambda>e.
           bindE (claim_state e required_dimension) (\<lambda>s. Inr (s = PROVEN)))) required) (\<lambda>all_proven.
       Inr (if all_proven then PROVEN else UNPROVEN)))"

definition scoped_acceptance :: "json list \<Rightarrow> json \<Rightarrow> claim res" where
  "scoped_acceptance scoped_children scope_id =
     bindE (filterE (\<lambda>c. bindE (py_get c ''scope_id'' JNull) (\<lambda>s. Inr (py_eq s scope_id))) scoped_children)
       (\<lambda>selected. derive_parent_state selected ''CONSUMER_ACCEPTED'')"


text \<open>
  \<open>reopen_from_contradiction\<close> updates the record it is given: the dimensions from the contradicted
  one on become UNPROVEN. \<open>setdefault(dim, {})\<close> keeps a value that is present, and assigning a key of
  something that is not a dict raises.
\<close>

fun obj_put :: "string \<Rightarrow> json \<Rightarrow> json \<Rightarrow> json res" where
  "obj_put k v (JObj kvs) = Inr (JObj (dict_put k v kvs))"
| "obj_put k v (JList vs) = Inl (Raise PyTypeError ''list indices must be integers or slices, not str'')"
| "obj_put k v _ = Inl (Raise PyTypeError ''object does not support item assignment'')"

fun reopen_from :: "string list \<Rightarrow> json \<Rightarrow> json res" where
  "reopen_from [] record = Inr record"
| "reopen_from (dim # dims) record =
     (if \<not> is_obj record then Inl (Raise PyAttributeError ''setdefault'')
      else
        bindE (obj_put ''state'' (JStr ''UNPROVEN'')
                 (case field record dim of None \<Rightarrow> JObj [] | Some c \<Rightarrow> c)) (\<lambda>cell.
        bindE (obj_put dim cell record) (reopen_from dims)))"

definition reopen_from_contradiction :: "json \<Rightarrow> string \<Rightarrow> json \<Rightarrow> (json \<times> json) res" where
  "reopen_from_contradiction record dimension observation =
     bindE (guardE (dimension \<in> set EVIDENCE_DIMENSIONS) (value_error dimension)) (\<lambda>_.
     bindE (reopen_from (dropWhile (\<lambda>d. d \<noteq> dimension) EVIDENCE_DIMENSIONS) record) (\<lambda>record.
     Inr (JObj [(''kind'', JStr ''BOUNDED_REPAIR_CANDIDATE''),
                (''trigger'', JStr ''USER_OR_REAL_WORLD_CONTRADICTION''),
                (''affected_dimension'', JStr dimension),
                (''observation'', observation),
                (''requires_global_reselection'', JBool True),
                (''authority_granted'', JBool False)], record)))"

definition validate_discovery_disposition :: "json \<Rightarrow> bool res" where
  "validate_discovery_disposition value =
     bindE (py_in_texts value DISCOVERY_DISPOSITIONS) (\<lambda>ok.
     bindE (guardE ok (value_error (''orphan discovery disposition: '' @ py_str value))) (\<lambda>_. Inr True))"

text \<open>\<open>set(item)\<close> of a value that is no dict: its elements; they must be hashable.\<close>

definition missing_from :: "string list \<Rightarrow> json \<Rightarrow> string list res" where
  "missing_from keys x =
     bindE (py_iter x) (\<lambda>vs. bindE (mapE py_key vs) (\<lambda>ks. Inr (filter (\<lambda>k. JStr k \<notin> set ks) keys)))"

definition validate_checkpoint :: "json \<Rightarrow> bool res" where
  "validate_checkpoint item =
     bindE (missing_from CHECKPOINT_FIELDS item) (\<lambda>missing.
     bindE (guardE (missing = [])
       (value_error (''unfinished work checkpoint missing '' @ show_sorted missing))) (\<lambda>_.
     bindE (py_item item ''state'') (\<lambda>s.
     bindE (py_in_texts s UNFINISHED_STATES) (\<lambda>ok.
     bindE (guardE ok (value_error ''not unfinished work'')) (\<lambda>_. Inr True)))))"

fun first_in_state :: "string \<Rightarrow> json list \<Rightarrow> json option res" where
  "first_in_state st [] = Inr None"
| "first_in_state st (item # items) =
     bindE (py_get item ''state'' JNull) (\<lambda>s.
     if s = JStr st then bindE (validate_checkpoint item) (\<lambda>_. Inr (Some item))
     else first_in_state st items)"

definition select_next_work :: "json list \<Rightarrow> json option \<Rightarrow> json option res" where
  "select_next_work items adjacent =
     bindE (first_in_state ''ACTIVE'' items) (\<lambda>r. if r \<noteq> None then Inr r else
     bindE (first_in_state ''WAITING'' items) (\<lambda>r. if r \<noteq> None then Inr r else
     bindE (first_in_state ''BLOCKED'' items) (\<lambda>r. if r \<noteq> None then Inr r else
     Inr adjacent)))"

subsection \<open>Construction programs\<close>

text \<open>\<open>_as_set\<close>: the set as the list of its elements in order of first occurrence.\<close>

fun as_set :: "json \<Rightarrow> string \<Rightarrow> string list res" where
  "as_set JNull f = Inr []"
| "as_set (JList vs) f =
     (let normalized = fromkeys (filter (\<lambda>t. t \<noteq> []) (map (\<lambda>v. strip (py_str v)) vs)) in
      bindE (guardE (length normalized = length vs)
        (value_error (f @ '' contains empty or duplicate values''))) (\<lambda>_. Inr normalized))"
| "as_set _ f = Inl (value_error (f @ '' must be a collection''))"

text \<open>\<open>package.get("dependencies", [])\<close>.\<close>

definition dependencies :: "json \<Rightarrow> json res" where
  "dependencies package = py_get package ''dependencies'' (JList [])"

definition WORK_PACKAGE_FIELDS :: "string list" where
  "WORK_PACKAGE_FIELDS = [''work_id'', ''parent_program_id'', ''state'', ''paths'', ''requirement_ids'',
     ''authority_class'', ''dependencies'', ''evidence'']"

definition validate_work_package ::
  "string \<Rightarrow> string list \<Rightarrow> string list \<Rightarrow> string list \<Rightarrow> json \<Rightarrow> unit res" where
  "validate_work_package program_id allowed_paths allowed_requirement_ids allowed_authority package =
     bindE (missing_from WORK_PACKAGE_FIELDS package) (\<lambda>missing.
     bindE (guardE (missing = []) (value_error (''work package missing '' @ show_sorted missing))) (\<lambda>_.
     bindE (py_item package ''work_id'') (\<lambda>wid.
     let work_id = strip (py_str wid) in
     bindE (guardE (work_id \<noteq> []) (value_error ''work package id required'')) (\<lambda>_.
     bindE (py_item package ''parent_program_id'') (\<lambda>parent.
     bindE (guardE (parent = JStr program_id)
       (value_error (''work package parent mismatch: '' @ work_id))) (\<lambda>_.
     bindE (py_item package ''state'') (\<lambda>st.
     bindE (py_in_texts st WORK_PACKAGE_STATES) (\<lambda>ok.
     bindE (guardE ok (value_error (''invalid work package state: '' @ work_id))) (\<lambda>_.
     bindE (py_item package ''paths'') (\<lambda>ps.
     bindE (as_set ps ''paths'') (\<lambda>paths.
     bindE (py_item package ''requirement_ids'') (\<lambda>rs.
     bindE (as_set rs ''requirement_ids'') (\<lambda>requirements.
     bindE (guardE (paths \<noteq> [])
       (value_error (''work package must declare bounded paths: '' @ work_id))) (\<lambda>_.
     bindE (guardE (requirements \<noteq> [])
       (value_error (''work package must declare bounded requirements: '' @ work_id))) (\<lambda>_.
     bindE (guardE (set paths \<subseteq> set allowed_paths)
       (value_error (''work package path authority leak: '' @ work_id))) (\<lambda>_.
     bindE (guardE (set requirements \<subseteq> set allowed_requirement_ids)
       (value_error (''work package requirement authority leak: '' @ work_id))) (\<lambda>_.
     bindE (py_item package ''authority_class'') (\<lambda>ac.
     bindE (py_in_texts ac allowed_authority) (\<lambda>ok.
     bindE (guardE ok (value_error (''work package authority class leak: '' @ work_id))) (\<lambda>_.
     bindE (py_item package ''evidence'') (\<lambda>ev.
     bindE (guardE (is_obj ev)
       (value_error (''work package evidence must be an object: '' @ work_id))) (\<lambda>_.
     bindE (each (\<lambda>d. bindE (claim_state ev d) (\<lambda>_. Inr ())) EVIDENCE_DIMENSIONS) (\<lambda>_.
     bindE (dependencies package) (\<lambda>ds.
     bindE (as_set ds ''dependencies'') (\<lambda>_. Inr ())))))))))))))))))))))))))"

text \<open>The loop over the packages with the set of the ids seen; it gives that set.\<close>

fun check_packages :: "(json \<Rightarrow> unit res) \<Rightarrow> json list \<Rightarrow> json list \<Rightarrow> json list res" where
  "check_packages check seen [] = Inr seen"
| "check_packages check seen (p # ps) =
     bindE (check p) (\<lambda>_.
     bindE (py_item p ''work_id'') (\<lambda>wid.
     bindE (py_key wid) (\<lambda>k.
     bindE (guardE (k \<notin> set seen)
       (value_error (''duplicate work package id: '' @ py_str wid))) (\<lambda>_.
     check_packages check (k # seen) ps))))"

definition check_package_dependencies :: "json list \<Rightarrow> json \<Rightarrow> unit res" where
  "check_package_dependencies seen package =
     bindE (dependencies package) (\<lambda>ds.
     bindE (as_set ds ''dependencies'') (\<lambda>deps.
     bindE (py_item package ''work_id'') (\<lambda>wid.
     bindE (guardE (\<forall>d \<in> set deps. JStr d \<in> set seen)
       (value_error (''unknown work package dependencies for '' @ py_str wid @ '': ''
          @ show_sorted (filter (\<lambda>d. JStr d \<notin> set seen) deps)))) (\<lambda>_.
     guardE (\<forall>d \<in> set deps. wid \<noteq> JStr d)
       (value_error (''work package cannot depend on itself: '' @ py_str wid))))))"

lemma fewer_unvisited:
  assumes "map_of g k = Some d" and "k \<notin> set path"
  shows "card (fst ` set g - set (k # path)) < card (fst ` set g - set path)"
proof (rule psubset_card_mono)
  have "k \<in> fst ` set g" using assms(1) by (metis fst_conv image_eqI map_of_SomeD)
  then show "fst ` set g - set (k # path) \<subset> fst ` set g - set path" using assms(2) by auto
qed simp

text \<open>
  The depth-first search: \<open>g\<close> maps the id of each package to the value of its "dependencies",
  \<open>visiting\<close> is the path from the root, the result the set of the ids visited.
\<close>

function (sequential) visit ::
    "(json \<times> json) list \<Rightarrow> json list \<Rightarrow> json list \<Rightarrow> json \<Rightarrow> json list res"
  and visits :: "(json \<times> json) list \<Rightarrow> json list \<Rightarrow> json list \<Rightarrow> json list \<Rightarrow> json list res" where
  "visit g visiting visited w =
     bindE (py_key w) (\<lambda>k.
     if k \<in> set visited then Inr visited
     else if k \<in> set visiting then
       Inl (value_error (''work package dependency cycle: '' @ py_str w))
     else case map_of g k of
       None \<Rightarrow> Inl (Raise PyKeyError (py_repr w))
     | Some ds \<Rightarrow>
         bindE (py_iter ds) (\<lambda>deps.
         bindE (visits g (k # visiting) visited deps) (\<lambda>visited. Inr (k # visited))))"
| "visits g visiting visited [] = Inr visited"
| "visits g visiting visited (w # ws) =
     bindE (visit g visiting visited w) (\<lambda>visited. visits g visiting visited ws)"
  by pat_completeness auto
termination
  by (relation "measures
       [\<lambda>x. case x of Inl (g, visiting, _, _) \<Rightarrow> card (fst ` set g - set visiting)
            | Inr (g, visiting, _, _) \<Rightarrow> card (fst ` set g - set visiting),
        \<lambda>x. case x of Inl _ \<Rightarrow> 0 | Inr (_, _, _, ws) \<Rightarrow> Suc (length ws)]")
    (use fewer_unvisited in auto)

declare visit.simps [simp del]

definition PROGRAM_FIELDS :: "string list" where
  "PROGRAM_FIELDS = [''program_id'', ''state'', ''authority_source'', ''allowed_paths'',
     ''allowed_requirement_ids'', ''allowed_authority_classes'', ''work_packages'']"

definition package_entry :: "json \<Rightarrow> (json \<times> json) res" where
  "package_entry p = bindE (py_item p ''work_id'') (\<lambda>wid. bindE (py_key wid) (\<lambda>k. Inr (k, p)))"

definition dependency_entry :: "json \<times> json \<Rightarrow> (json \<times> json) res" where
  "dependency_entry kp = bindE (dependencies (snd kp)) (\<lambda>ds. Inr (fst kp, ds))"

definition validate_construction_program :: "json \<Rightarrow> bool res" where
  "validate_construction_program program =
     bindE (guardE (is_obj program) (value_error ''construction program must be an object'')) (\<lambda>_.
     bindE (missing_from PROGRAM_FIELDS program) (\<lambda>missing.
     bindE (guardE (missing = [])
       (value_error (''construction program missing '' @ show_sorted missing))) (\<lambda>_.
     bindE (py_item program ''program_id'') (\<lambda>pid.
     let program_id = strip (py_str pid) in
     bindE (guardE (program_id \<noteq> []) (value_error ''construction program id required'')) (\<lambda>_.
     bindE (py_item program ''state'') (\<lambda>st.
     bindE (py_in_texts st PROGRAM_STATES) (\<lambda>ok.
     bindE (guardE ok (value_error ''invalid construction program state'')) (\<lambda>_.
     bindE (py_item program ''authority_source'') (\<lambda>src.
     bindE (guardE (strip (py_str src) \<noteq> [])
       (value_error ''construction program authority source required'')) (\<lambda>_.
     bindE (py_item program ''allowed_paths'') (\<lambda>ap.
     bindE (as_set ap ''allowed_paths'') (\<lambda>allowed_paths.
     bindE (py_item program ''allowed_requirement_ids'') (\<lambda>ar.
     bindE (as_set ar ''allowed_requirement_ids'') (\<lambda>allowed_requirements.
     bindE (py_item program ''allowed_authority_classes'') (\<lambda>aa.
     bindE (as_set aa ''allowed_authority_classes'') (\<lambda>allowed_authority.
     bindE (py_item program ''work_packages'') (\<lambda>wps.
     case wps of
       JList packages \<Rightarrow>
         bindE (check_packages
                  (validate_work_package program_id allowed_paths allowed_requirements allowed_authority)
                  [] packages) (\<lambda>seen.
         bindE (each (check_package_dependencies seen) packages) (\<lambda>_.
         bindE (mapE package_entry packages) (\<lambda>by_id.
         bindE (mapE dependency_entry by_id) (\<lambda>g.
         bindE (mapE (\<lambda>p. py_item p ''work_id'') packages) (\<lambda>roots.
         bindE (visits g [] [] roots) (\<lambda>_. Inr True))))))
     | _ \<Rightarrow> Inl (value_error ''work_packages must be a list''))))))))))))))))))"

definition INCIDENT_STATES :: "string list" where
  "INCIDENT_STATES = [''OPEN'', ''ACTIVE'', ''BLOCKING'']"

definition incident_hits_package :: "json \<Rightarrow> json \<Rightarrow> bool res" where
  "incident_hits_package incident package =
     bindE (py_get incident ''state'' (JStr ''OPEN'')) (\<lambda>st.
     if upper (py_str st) \<notin> set INCIDENT_STATES then Inr False
     else
       bindE (py_get incident ''global'' JNull) (\<lambda>glob.
       if glob = JBool True then
         bindE (py_get incident ''global_evidence_refs'' (JList [])) (\<lambda>rs.
         bindE (as_set rs ''incident global_evidence_refs'') (\<lambda>refs.
         bindE (guardE (refs \<noteq> [])
           (value_error ''global incident requires blast-radius evidence'')) (\<lambda>_. Inr True)))
       else
         bindE (py_get incident ''blast_radius'' (JObj [])) (\<lambda>b.
         let blast = (if py_truthy b then b else JObj []) in
         bindE (guardE (is_obj blast) (value_error ''incident blast_radius must be an object'')) (\<lambda>_.
         bindE (py_get blast ''work_ids'' (JList [])) (\<lambda>ws.
         bindE (as_set ws ''incident work_ids'') (\<lambda>work_ids.
         bindE (py_get blast ''paths'' (JList [])) (\<lambda>ps.
         bindE (as_set ps ''incident paths'') (\<lambda>paths.
         bindE (py_get blast ''requirement_ids'' (JList [])) (\<lambda>rs.
         bindE (as_set rs ''incident requirement_ids'') (\<lambda>requirements.
         bindE (py_item package ''work_id'') (\<lambda>wid.
         bindE (py_in_texts wid work_ids) (\<lambda>hit.
         if hit then Inr True
         else
           bindE (py_item package ''paths'') (\<lambda>ps.
           bindE (as_set ps ''paths'') (\<lambda>package_paths.
           if set paths \<inter> set package_paths \<noteq> {} then Inr True
           else
             bindE (py_item package ''requirement_ids'') (\<lambda>rs.
             bindE (as_set rs ''requirement_ids'') (\<lambda>package_requirements.
             Inr (set requirements \<inter> set package_requirements \<noteq> {})))))))))))))))))"

record program_evaluation =
  pe_program_id :: json
  pe_eligible_work_package_ids :: "json list"
  pe_blocked_work_packages :: "(json \<times> string list) list"
  pe_package_states :: "(json \<times> claim \<times> claim) list"

text \<open>The reasons against one active package, in the order the three loops append them.\<close>

definition dependency_blockers :: "(json \<times> json) list \<Rightarrow> json \<Rightarrow> string list res" where
  "dependency_blockers packages package =
     bindE (dependencies package) (\<lambda>ds.
     bindE (py_iter ds) (\<lambda>deps.
     bindE (filterE (\<lambda>dep.
         bindE (py_key dep) (\<lambda>k.
         case map_of packages k of
           None \<Rightarrow> Inl (Raise PyKeyError (py_repr dep))
         | Some p \<Rightarrow> bindE (py_item p ''state'') (\<lambda>st. Inr (st \<noteq> JStr ''COMPLETE'')))) deps) (\<lambda>open_deps.
     Inr (map (\<lambda>dep. ''dependency:'' @ py_str dep) open_deps))))"

definition incident_blockers :: "json list \<Rightarrow> json \<Rightarrow> string list res" where
  "incident_blockers incidents package =
     bindE (filterE (\<lambda>i. incident_hits_package i package) incidents) (\<lambda>hits.
     mapE (\<lambda>i. bindE (py_get i ''incident_id'' (JStr ''unknown'')) (\<lambda>n.
       Inr (''incident:'' @ py_str n))) hits)"

definition paths_of :: "json \<Rightarrow> string list res" where
  "paths_of package = bindE (py_item package ''paths'') (\<lambda>ps. as_set ps ''paths'')"

text \<open>
  The nested loop over the pairs appends to both sides; package \<open>i\<close> so collects the other active
  packages it shares a path with, in their order.
\<close>

definition conflict_blockers :: "(json \<times> string list) list \<Rightarrow> nat \<Rightarrow> string list" where
  "conflict_blockers active i =
     map (\<lambda>j. ''path-conflict:'' @ py_str (fst (active ! j)))
       (filter (\<lambda>j. j \<noteq> i \<and> set (snd (active ! i)) \<inter> set (snd (active ! j)) \<noteq> {}) [0..<length active])"

definition evaluate_construction_program :: "json \<Rightarrow> json list \<Rightarrow> program_evaluation res" where
  "evaluate_construction_program program incidents =
     bindE (validate_construction_program program) (\<lambda>_.
     bindE (py_item program ''work_packages'') (\<lambda>wps.
     bindE (py_iter wps) (\<lambda>ps.
     bindE (mapE package_entry ps) (\<lambda>packages.
     bindE (filterE (\<lambda>p. bindE (py_item p ''state'') (\<lambda>st. Inr (st = JStr ''ACTIVE''))) ps) (\<lambda>active.
     bindE (mapE (\<lambda>p.
         bindE (dependency_blockers packages p) (\<lambda>a.
         bindE (incident_blockers incidents p) (\<lambda>b. Inr (a @ b)))) active) (\<lambda>reasons.
     bindE (mapE (\<lambda>p. bindE (py_item p ''work_id'') (\<lambda>wid. bindE (paths_of p) (\<lambda>paths. Inr (wid, paths)))) active)
       (\<lambda>pathed.
     let blockers = map (\<lambda>i. (fst (pathed ! i), reasons ! i @ conflict_blockers pathed i)) [0..<length active] in
     bindE (mapE (\<lambda>p.
         bindE (py_item p ''work_id'') (\<lambda>wid.
         bindE (py_item p ''evidence'') (\<lambda>ev.
         bindE (claim_state ev ''IMPLEMENTED'') (\<lambda>i.
         bindE (claim_state ev ''CONSUMER_ACCEPTED'') (\<lambda>a. Inr (wid, i, a)))))) ps) (\<lambda>states.
     bindE (py_item program ''program_id'') (\<lambda>pid.
     Inr \<lparr>pe_program_id = pid,
           pe_eligible_work_package_ids = map fst (filter (\<lambda>b. snd b = []) blockers),
           pe_blocked_work_packages = filter (\<lambda>b. snd b \<noteq> []) blockers,
           pe_package_states = states\<rparr>)))))))))"

subsection \<open>Acceptance and migration\<close>

definition dogfood_tuple_is_eligible :: "json \<Rightarrow> bool res" where
  "dogfood_tuple_is_eligible evidence =
     allE_res (\<lambda>dim. bindE (claim_state evidence dim) (\<lambda>s. Inr (s = PROVEN)))
       [''IMPLEMENTED'', ''INTEGRATED'', ''REACHABLE'', ''VERIFIED'', ''RECOVERABLE'', ''AUTHORITY_SAFE'']"

text \<open>
  The two evidence dicts map names to records; the reliability evidence is a list of records. The
  conjunction is over sets, whose order \<open>all\<close> does not depend on as long as no record raises.
\<close>

definition personal_production_accepted ::
  "(string \<times> json) list \<Rightarrow> (string \<times> json) list \<Rightarrow> json list \<Rightarrow> string list \<Rightarrow> string list \<Rightarrow> bool res" where
  "personal_production_accepted daw_paths os_families reliability required_daw_paths required_os_families =
     (let required_daws = fromkeys required_daw_paths; required_os = fromkeys required_os_families in
      if required_daws = [] \<or> required_os = [] then Inr False
      else if \<not> set required_daws \<subseteq> fst ` set daw_paths then Inr False
      else if \<not> set required_os \<subseteq> fst ` set os_families then Inr False
      else if reliability = [] then Inr False
      else
        allE_res (\<lambda>record. bindE (claim_state record ''CONSUMER_ACCEPTED'') (\<lambda>s. Inr (s = PROVEN)))
          (map (\<lambda>n. the (map_of daw_paths n)) required_daws
           @ map (\<lambda>n. the (map_of os_families n)) required_os @ reliability))"

definition legacy_veto_blocks_authorized_migration :: "json \<Rightarrow> json \<Rightarrow> bool res" where
  "legacy_veto_blocks_authorized_migration authority legacy_state =
     bindE (py_get authority ''bootstrap_migration_authority'' (JObj [])) (\<lambda>bootstrap.
     bindE (py_get bootstrap ''state'' JNull) (\<lambda>st.
     if st = JStr ''ACTIVE_UNTIL_VERIFIED_CUTOVER''
        \<and> field bootstrap ''may_be_vetoed_by_legacy_lifecycle'' = Some (JBool False) then Inr False
     else bindE (py_get legacy_state ''blocks'' JNull) (\<lambda>b. Inr (py_truthy b))))"

definition validate_constitutional_migration :: "json \<Rightarrow> bool res" where
  "validate_constitutional_migration candidate =
     bindE (py_get candidate ''candidate_certifier'' JNull) (\<lambda>certifier.
     bindE (py_get candidate ''candidate_owner'' JNull) (\<lambda>owner.
     bindE (guardE (\<not> py_eq certifier owner)
       (value_error ''candidate governance cannot certify itself'')) (\<lambda>_.
     bindE (py_get candidate ''ordinary_product_path'' JNull) (\<lambda>p.
     bindE (guardE (\<not> py_truthy p)
       (value_error ''ordinary product construction cannot invoke constitutional migration'')) (\<lambda>_.
     bindE (py_get candidate ''external_invariants'' JNull) (\<lambda>inv.
     bindE (guardE (py_truthy inv) (value_error ''external migration invariants required'')) (\<lambda>_.
     Inr True)))))))"

definition expire_bootstrap_authority :: "json \<Rightarrow> bool \<Rightarrow> json res" where
  "expire_bootstrap_authority authority cutover_passed =
     bindE (guardE cutover_passed
       (value_error ''bootstrap authority cannot expire before cutover proof'')) (\<lambda>_.
     bindE (py_item authority ''bootstrap_migration_authority'') (\<lambda>b.
     bindE (obj_put ''state'' (JStr ''EXPIRED'') b) (\<lambda>b.
     obj_put ''bootstrap_migration_authority'' b authority)))"

end
