(* ===== verification/Governance_Facts.thy ===== *)
theory Governance_Facts
  imports Governance_Model
begin

text \<open>
  Facts about \<open>governance/model.py\<close>: the dependency search decides acyclicity, validated programs
  contain their work, the eligible work packages are exactly the clear ones, parents are proven by
  their required children, and contradictions reopen evidence.
\<close>

subsection \<open>The dependency search decides acyclicity\<close>

text \<open>The keys a package depends on, if its dependencies can be read.\<close>

definition dependency_keys :: "(json \<times> json) list \<Rightarrow> json \<Rightarrow> json list res" where
  "dependency_keys g k =
     (case map_of g k of
        None \<Rightarrow> Inl (Raise PyKeyError (py_repr k))
      | Some ds \<Rightarrow> bindE (py_iter ds) (mapE py_key))"

definition depends :: "(json \<times> json) list \<Rightarrow> (json \<times> json) set" where
  "depends g = {(k, k'). \<exists>ds deps w. map_of g k = Some ds \<and> py_iter ds = Inr deps \<and> w \<in> set deps
     \<and> py_key w = Inr k'}"

text \<open>Every dependency of every package can be read and is a package.\<close>

definition resolved :: "(json \<times> json) list \<Rightarrow> bool" where
  "resolved g \<longleftrightarrow> (\<forall>k \<in> fst ` set g. \<exists>ks. dependency_keys g k = Inr ks \<and> set ks \<subseteq> fst ` set g)"

text \<open>A list in which the dependencies of each entry come later.\<close>

fun topological :: "(json \<times> json) list \<Rightarrow> json list \<Rightarrow> bool" where
  "topological g [] = True"
| "topological g (k # ks) =
     ((\<exists>ds. dependency_keys g k = Inr ds \<and> set ds \<subseteq> set ks) \<and> topological g ks)"

fun rank :: "json list \<Rightarrow> json \<Rightarrow> nat" where
  "rank [] k = 0"
| "rank (x # xs) k = (if k \<in> set xs then rank xs k else Suc (length xs))"

lemma mapE_sets:
  assumes "mapE f xs = Inr ys"
  shows "x \<in> set xs \<Longrightarrow> \<exists>y \<in> set ys. f x = Inr y" and "y \<in> set ys \<Longrightarrow> \<exists>x \<in> set xs. f x = Inr y"
  using mapE_all [OF assms] by (induction rule: list_all2_induct) auto

lemma rank_bound: "rank xs k \<le> length xs"
  by (induction xs) auto

lemma depends_keys:
  "dependency_keys g k = Inr ks \<Longrightarrow> (k, k') \<in> depends g \<longleftrightarrow> k' \<in> set ks"
  by (auto simp: dependency_keys_def depends_def list_all2_conv_all_nth in_set_conv_nth
      split: option.splits elim!: bindE_InrE dest!: mapE_all) metis+

lemma depends_dom: "(k, k') \<in> depends g \<Longrightarrow> k \<in> fst ` set g"
  by (auto simp: depends_def intro!: rev_image_eqI dest: map_of_SomeD)

lemma topological_rank:
  "topological g vs \<Longrightarrow> k \<in> set vs \<Longrightarrow> (k, k') \<in> depends g \<Longrightarrow> k' \<in> set vs \<and> rank vs k' < rank vs k"
proof (induction vs)
  case (Cons x xs)
  show ?case
  proof (cases "k \<in> set xs")
    case True
    with Cons show ?thesis by auto
  next
    case False
    with Cons have x: "x = k" by simp
    from Cons.prems(1) obtain ds where ds: "dependency_keys g k = Inr ds" "set ds \<subseteq> set xs"
      by (auto simp: x)
    then have "k' \<in> set xs" using Cons.prems(3) depends_keys by blast
    with False rank_bound [of xs k'] show ?thesis by (auto simp: x less_Suc_eq_le)
  qed
qed simp

lemma topological_acyclic:
  assumes "topological g vs"
  shows "(k, k') \<in> (depends g)\<^sup>+ \<Longrightarrow> k \<in> set vs \<Longrightarrow> k' \<in> set vs \<and> rank vs k' < rank vs k"
  by (induction rule: trancl_induct) (use topological_rank [OF assms] less_trans in blast)+

lemma topological_keys:
  "topological g vs \<Longrightarrow> k \<in> set vs \<Longrightarrow> \<exists>ks. dependency_keys g k = Inr ks \<and> set ks \<subseteq> set vs"
  by (induction vs) fastforce+

lemma visit_sound:
  "visit g path vis w = Inr vis' \<Longrightarrow> topological g vis \<Longrightarrow>
     topological g vis' \<and> set vis \<subseteq> set vis' \<and> (\<exists>k \<in> set vis'. py_key w = Inr k)"
  "visits g path vis ws = Inr vis' \<Longrightarrow> topological g vis \<Longrightarrow>
     topological g vis' \<and> set vis \<subseteq> set vis' \<and> (\<forall>w \<in> set ws. \<exists>k \<in> set vis'. py_key w = Inr k)"
proof (induction g path vis w and g path vis ws arbitrary: vis' and vis' rule: visit_visits.induct)
  case (1 g path vis w)
  from 1(2) obtain k where k: "py_key w = Inr k" by (auto simp: visit.simps [of g path vis w] elim!: bindE_InrE)
  show ?case
  proof (cases "k \<in> set vis")
    case True
    with 1(2,3) k show ?thesis by (auto simp: visit.simps [of g path vis w])
  next
    case False
    with 1(2) k obtain ds deps vs where d: "k \<notin> set path" "map_of g k = Some ds" "py_iter ds = Inr deps"
      "visits g (k # path) vis deps = Inr vs" "vis' = k # vs"
      by (auto simp: visit.simps [of g path vis w] split: if_splits option.splits elim!: bindE_InrE)
    from 1(1) [OF k False d(1-3) d(4) 1(3)] have vs: "topological g vs" "set vis \<subseteq> set vs"
      "\<forall>w \<in> set deps. \<exists>k \<in> set vs. py_key w = Inr k" by blast+
    then have "mapE py_key deps = Inr (map (\<lambda>w. projr (py_key w)) deps)"
      by (intro mapE_total) force
    then have "dependency_keys g k = Inr (map (\<lambda>w. projr (py_key w)) deps)"
      by (simp add: dependency_keys_def d)
    moreover have "set (map (\<lambda>w. projr (py_key w)) deps) \<subseteq> set vs" using vs(3) by force
    ultimately show ?thesis using vs k d(5) by auto
  qed
next
  case (2 g path vis)
  then show ?case by (simp add: visit.simps)
next
  case (3 g path vis w ws)
  from 3(3) obtain v1 where v: "visit g path vis w = Inr v1" "visits g path v1 ws = Inr vis'"
    by (auto simp: visit.simps elim!: bindE_InrE)
  from 3(1) [OF v(1) 3(4)] 3(2) [OF v] show ?case by auto
qed

lemma visit_complete:
  assumes "resolved g" and "acyclic (depends g)"
  shows "(\<exists>k. py_key w = Inr k \<and> k \<in> fst ` set g \<and> (\<forall>p \<in> set path. (p, k) \<in> (depends g)\<^sup>+)) \<Longrightarrow>
      \<exists>vis'. visit g path vis w = Inr vis'"
    and "(\<forall>w \<in> set ws. \<exists>k. py_key w = Inr k \<and> k \<in> fst ` set g \<and> (\<forall>p \<in> set path. (p, k) \<in> (depends g)\<^sup>+)) \<Longrightarrow>
      \<exists>vis'. visits g path vis ws = Inr vis'"
  using assms
proof (induction g path vis w and g path vis ws rule: visit_visits.induct)
  case (1 g path vis w)
  from 1(2) obtain k where k: "py_key w = Inr k" "k \<in> fst ` set g"
    "\<forall>p \<in> set path. (p, k) \<in> (depends g)\<^sup>+" by blast
  show ?case
  proof (cases "k \<in> set vis")
    case True
    then show ?thesis by (simp add: visit.simps [of g path vis w] k(1))
  next
    case False
    have np: "k \<notin> set path" using k(3) 1(4) by (auto simp: acyclic_def)
    from 1(3) k(2) obtain ks where ks: "dependency_keys g k = Inr ks" "set ks \<subseteq> fst ` set g"
      unfolding resolved_def by blast
    then obtain ds deps where d: "map_of g k = Some ds" "py_iter ds = Inr deps" "mapE py_key deps = Inr ks"
      by (auto simp: dependency_keys_def split: option.splits elim!: bindE_InrE)
    have "\<exists>k'. py_key w' = Inr k' \<and> k' \<in> fst ` set g \<and> (\<forall>p \<in> set (k # path). (p, k') \<in> (depends g)\<^sup>+)"
      if "w' \<in> set deps" for w'
    proof -
      obtain k' where k': "py_key w' = Inr k'" "k' \<in> set ks"
        using mapE_sets(1) [OF d(3) \<open>w' \<in> set deps\<close>] by blast
      then have "(k, k') \<in> depends g" using depends_keys [OF ks(1)] by blast
      then have "\<forall>p \<in> set (k # path). (p, k') \<in> (depends g)\<^sup>+"
        using k(3) by (auto intro: trancl_into_trancl)
      then show ?thesis using k' ks(2) by blast
    qed
    with 1(1) [OF k(1) False np d(1,2) _ 1(3,4)] obtain vs where "visits g (k # path) vis deps = Inr vs"
      by blast
    then show ?thesis using False np d by (simp add: visit.simps [of g path vis w] k(1))
  qed
next
  case (2 g path vis)
  then show ?case by (simp add: visit.simps)
next
  case (3 g path vis w ws)
  from 3(1) [OF _ 3(4,5)] 3(3) obtain v1 where v: "visit g path vis w = Inr v1" by auto
  from 3(2) [OF v _ 3(4,5)] 3(3) v show ?case by (auto simp: visit.simps)
qed

lemma visits_iff_acyclic:
  assumes "mapE py_key roots = Inr ks" and "set ks = fst ` set g"
  shows "(\<exists>vis. visits g [] [] roots = Inr vis) \<longleftrightarrow> resolved g \<and> acyclic (depends g)"
proof
  assume "\<exists>vis. visits g [] [] roots = Inr vis"
  then obtain vis where v: "visits g [] [] roots = Inr vis" by blast
  from visit_sound(2) [OF v] have top: "topological g vis"
    and roots: "\<forall>w \<in> set roots. \<exists>k \<in> set vis. py_key w = Inr k" by simp_all
  have all: "fst ` set g \<subseteq> set vis"
  proof
    fix k
    assume "k \<in> fst ` set g"
    then obtain w where "w \<in> set roots" "py_key w = Inr k"
      using mapE_sets(2) [OF assms(1)] assms(2) by blast
    then show "k \<in> set vis" using roots by force
  qed
  have "acyclic (depends g)"
    unfolding acyclic_def
  proof (intro allI notI)
    fix k
    assume k: "(k, k) \<in> (depends g)\<^sup>+"
    then have "k \<in> set vis" using all depends_dom by (meson subsetD tranclD)
    from topological_acyclic [OF top k this] show False by simp
  qed
  moreover have "\<exists>ks. dependency_keys g k = Inr ks \<and> set ks \<subseteq> set vis" if "k \<in> set vis" for k
    by (rule topological_keys [OF top that])
  moreover have "set vis \<subseteq> fst ` set g"
  proof
    fix k
    assume "k \<in> set vis"
    with topological_keys [OF top] have "\<exists>ds. dependency_keys g k = Inr ds" by blast
    then show "k \<in> fst ` set g"
      by (auto simp: dependency_keys_def split: option.splits intro!: rev_image_eqI dest: map_of_SomeD)
  qed
  ultimately show "resolved g \<and> acyclic (depends g)" unfolding resolved_def using all by (meson subset_iff)
next
  assume "resolved g \<and> acyclic (depends g)"
  moreover have "\<exists>k. py_key w = Inr k \<and> k \<in> fst ` set g" if "w \<in> set roots" for w
    using mapE_sets(1) [OF assms(1) that] assms(2) by blast
  ultimately show "\<exists>vis. visits g [] [] roots = Inr vis"
    using visit_complete(2) [of g roots "[]" "[]"] by auto
qed

text \<open>
  C34. The depth-first search of the work packages is a decision procedure: started at every package,
  it succeeds exactly when all dependencies can be read and name packages and the dependency
  relation has no cycle.
\<close>

theorem search_decides_acyclicity:
  assumes "mapE py_key roots = Inr ks" and "set ks = fst ` set g"
  shows "(\<exists>vis. visits g [] [] roots = Inr vis) \<longleftrightarrow> resolved g \<and> acyclic (depends g)"
  using assms by (rule visits_iff_acyclic)

definition demo_graph :: "(json \<times> json) list" where
  "demo_graph = [(JStr ''a'', JList [JStr ''b'']), (JStr ''b'', JList [])]"

theorem search_decides_acyclicity_witness:
  "acyclic (depends demo_graph) \<and> visits demo_graph [] [] [JStr ''a'', JStr ''b''] = Inr [JStr ''a'', JStr ''b'']"
proof -
  have v: "visits demo_graph [] [] [JStr ''a'', JStr ''b''] = Inr [JStr ''a'', JStr ''b'']" by code_simp
  moreover have "mapE py_key [JStr ''a'', JStr ''b''] = Inr [JStr ''a'', JStr ''b'']" by code_simp
  moreover have "set [JStr ''a'', JStr ''b''] = fst ` set demo_graph" by (simp add: demo_graph_def)
  ultimately show ?thesis using search_decides_acyclicity by blast
qed

subsection \<open>Validated programs\<close>

definition package_in_scope ::
  "string \<Rightarrow> string list \<Rightarrow> string list \<Rightarrow> string list \<Rightarrow> json \<Rightarrow> bool" where
  "package_in_scope program_id paths requirements classes p \<longleftrightarrow>
     field p ''parent_program_id'' = Some (JStr program_id)
     \<and> (\<exists>ps. paths_of p = Inr ps \<and> ps \<noteq> [] \<and> set ps \<subseteq> set paths)
     \<and> (\<exists>v rs. field p ''requirement_ids'' = Some v \<and> as_set v ''requirement_ids'' = Inr rs
          \<and> rs \<noteq> [] \<and> set rs \<subseteq> set requirements)
     \<and> (\<exists>c \<in> set classes. field p ''authority_class'' = Some (JStr c))
     \<and> (\<exists>s \<in> set WORK_PACKAGE_STATES. field p ''state'' = Some (JStr s))
     \<and> (\<exists>e. field p ''evidence'' = Some e \<and> is_obj e)"

lemma py_in_texts_ok: "py_in_texts v xs = Inr b \<Longrightarrow> b \<Longrightarrow> \<exists>c \<in> set xs. v = JStr c"
  using py_in_texts_Inr [of v xs] by auto

lemma paths_of_I: "field p ''paths'' = Some v \<Longrightarrow> as_set v ''paths'' = Inr ps \<Longrightarrow> paths_of p = Inr ps"
  by (simp add: paths_of_def py_item_field [THEN iffD2])

lemma validate_work_package_scope:
  "validate_work_package program_id paths requirements classes p = Inr u \<Longrightarrow>
     package_in_scope program_id paths requirements classes p"
  unfolding validate_work_package_def Let_def package_in_scope_def
  apply (elim bindE_InrE)
  apply (simp only: py_item_field guard_passed py_in_texts_Inr)
  apply (intro conjI)
       apply (rule refl)
      apply (intro exI conjI, erule (1) paths_of_I, assumption, assumption)
     apply (intro exI conjI, rule refl, assumption, assumption, assumption)
    apply blast
   apply blast
  apply blast
  done

lemma check_packages_Inr:
  "check_packages check seen ps = Inr seen' \<Longrightarrow> distinct seen \<Longrightarrow>
     (\<forall>p \<in> set ps. check p = Inr ()) \<and> (\<exists>ks. mapE package_entry ps = Inr (zip ks ps)
        \<and> length ks = length ps \<and> distinct ks \<and> set ks \<inter> set seen = {} \<and> set seen' = set seen \<union> set ks)"
proof (induction ps arbitrary: seen)
  case (Cons p ps)
  from Cons.prems(1) obtain wid k where c: "check p = Inr ()" "py_item p ''work_id'' = Inr wid"
    "py_key wid = Inr k" "k \<notin> set seen" "check_packages check (k # seen) ps = Inr seen'"
    by (auto simp: guard_passed elim!: bindE_InrE)
  with Cons.IH [of "k # seen"] Cons.prems(2) obtain ks where ks: "\<forall>p \<in> set ps. check p = Inr ()"
    "mapE package_entry ps = Inr (zip ks ps)" "length ks = length ps" "distinct ks"
    "set ks \<inter> set (k # seen) = {}" "set seen' = set (k # seen) \<union> set ks" by auto
  have "package_entry p = Inr (k, p)" using c by (simp add: package_entry_def)
  then show ?case using c ks by (intro conjI exI [of _ "k # ks"]) auto
qed (auto)

text \<open>The graph the search runs on.\<close>

definition package_graph :: "json list \<Rightarrow> (json \<times> json) list res" where
  "package_graph packages = bindE (mapE package_entry packages) (mapE dependency_entry)"

definition accepted_program ::
  "json \<Rightarrow> string list \<Rightarrow> string list \<Rightarrow> string list \<Rightarrow> json list \<Rightarrow> bool" where
  "accepted_program program paths requirements classes packages \<longleftrightarrow>
     field program ''work_packages'' = Some (JList packages)
     \<and> (\<exists>v. field program ''allowed_paths'' = Some v \<and> as_set v ''allowed_paths'' = Inr paths)
     \<and> (\<exists>v. field program ''allowed_requirement_ids'' = Some v
          \<and> as_set v ''allowed_requirement_ids'' = Inr requirements)
     \<and> (\<exists>v. field program ''allowed_authority_classes'' = Some v
          \<and> as_set v ''allowed_authority_classes'' = Inr classes)
     \<and> (\<exists>pid. field program ''program_id'' = Some pid
          \<and> list_all (package_in_scope (strip (py_str pid)) paths requirements classes) packages)
     \<and> (\<exists>ks. mapE package_entry packages = Inr (zip ks packages) \<and> length ks = length packages \<and> distinct ks)
     \<and> (\<exists>g. package_graph packages = Inr g \<and> resolved g \<and> acyclic (depends g))"

lemma dependency_entry_keys: "mapE dependency_entry kps = Inr g \<Longrightarrow> map fst g = map fst kps"
  by (induction kps arbitrary: g) (auto simp: dependency_entry_def elim!: bindE_InrE)

lemma package_entry_roots:
  "mapE package_entry ps = Inr kps \<Longrightarrow> mapE (\<lambda>p. py_item p ''work_id'') ps = Inr roots \<Longrightarrow>
     mapE py_key roots = Inr (map fst kps)"
  by (induction ps arbitrary: kps roots) (auto simp: package_entry_def elim!: bindE_InrE)

lemma validated_accepted:
  assumes "validate_construction_program program = Inr b"
  obtains paths requirements classes packages where
    "accepted_program program paths requirements classes packages"
proof -
  from assms obtain pid wps paths requirements classes ap ar aa where
    f: "field program ''program_id'' = Some pid" "field program ''work_packages'' = Some wps"
    "field program ''allowed_paths'' = Some ap" "as_set ap ''allowed_paths'' = Inr paths"
    "field program ''allowed_requirement_ids'' = Some ar" "as_set ar ''allowed_requirement_ids'' = Inr requirements"
    "field program ''allowed_authority_classes'' = Some aa" "as_set aa ''allowed_authority_classes'' = Inr classes"
    and rest: "(case wps of
       JList packages \<Rightarrow>
         bindE (check_packages
                  (validate_work_package (strip (py_str pid)) paths requirements classes)
                  [] packages) (\<lambda>seen.
         bindE (each (check_package_dependencies seen) packages) (\<lambda>_.
         bindE (mapE package_entry packages) (\<lambda>by_id.
         bindE (mapE dependency_entry by_id) (\<lambda>g.
         bindE (mapE (\<lambda>p. py_item p ''work_id'') packages) (\<lambda>roots.
         bindE (visits g [] [] roots) (\<lambda>_. Inr True))))))
     | _ \<Rightarrow> Inl (value_error ''work_packages must be a list'')) = Inr b"
    unfolding validate_construction_program_def Let_def
    by (elim bindE_InrE) (simp only: py_item_field)
  then obtain packages where packages: "wps = JList packages" by (cases wps) simp_all
  from rest [unfolded packages json.case] obtain seen by_id g roots vis where
    r: "check_packages (validate_work_package (strip (py_str pid)) paths requirements classes) [] packages = Inr seen"
    "mapE package_entry packages = Inr by_id" "mapE dependency_entry by_id = Inr g"
    "mapE (\<lambda>p. py_item p ''work_id'') packages = Inr roots" "visits g [] [] roots = Inr vis"
    by (elim bindE_InrE) blast
  from check_packages_Inr [OF r(1)] obtain ks where ks: "by_id = zip ks packages" "length ks = length packages"
    "distinct ks" and all: "\<forall>p \<in> set packages. validate_work_package (strip (py_str pid)) paths requirements classes p = Inr ()"
    using r(2) by auto
  have "set (map fst by_id) = fst ` set g" using dependency_entry_keys [OF r(3)] by (metis list.set_map)
  from visits_iff_acyclic [OF package_entry_roots [OF r(2,4)] this] r(5)
  have "resolved g \<and> acyclic (depends g)" by blast
  then have "accepted_program program paths requirements classes packages"
    using f r(2,3) ks all validate_work_package_scope packages
    by (auto simp: accepted_program_def package_graph_def list_all_iff)
  then show ?thesis using that by blast
qed

subsection \<open>Evaluation\<close>

lemma filterE_Inr:
  "filterE f xs = Inr ys \<Longrightarrow> (\<forall>x \<in> set xs. \<exists>b. f x = Inr b) \<and> ys = filter (\<lambda>x. f x = Inr True) xs"
  by (induction xs arbitrary: ys) (auto elim!: bindE_InrE split: if_splits)

lemma mapE_nth: "mapE f xs = Inr ys \<Longrightarrow> length ys = length xs \<and> (\<forall>i < length xs. f (xs ! i) = Inr (ys ! i))"
  using mapE_all [of f xs ys] by (auto simp: list_all2_conv_all_nth)

definition dep_open :: "(json \<times> json) list \<Rightarrow> json \<Rightarrow> bool res" where
  "dep_open packages dep = bindE (py_key dep) (\<lambda>k.
         case map_of packages k of
           None \<Rightarrow> Inl (Raise PyKeyError (py_repr dep))
         | Some p \<Rightarrow> bindE (py_item p ''state'') (\<lambda>st. Inr (st \<noteq> JStr ''COMPLETE'')))"

lemma dep_open_False: "dep_open packages dep = Inr False \<longleftrightarrow>
     (\<exists>k q. py_key dep = Inr k \<and> map_of packages k = Some q \<and> field q ''state'' = Some (JStr ''COMPLETE''))"
  by (auto simp: dep_open_def bindE_eq_Inr py_item_field split: option.splits)

lemma dependency_blockers_none:
  assumes "dependency_blockers packages p = Inr bs" and "dependencies p = Inr ds" and "py_iter ds = Inr deps"
  shows "bs = [] \<longleftrightarrow> (\<forall>dep \<in> set deps. \<exists>k q. py_key dep = Inr k \<and> map_of packages k = Some q
     \<and> field q ''state'' = Some (JStr ''COMPLETE''))"
proof -
  have "bindE (filterE (dep_open packages) deps) (\<lambda>os. Inr (map (\<lambda>dep. ''dependency:'' @ py_str dep) os)) = Inr bs"
    using assms(1) unfolding dependency_blockers_def assms(2,3) bindE_Inr dep_open_def .
  then obtain os where os: "filterE (dep_open packages) deps = Inr os" "bs = [] \<longleftrightarrow> os = []"
    by (elim bindE_InrE) auto
  note f = filterE_Inr [OF os(1)]
  have "os = [] \<longleftrightarrow> (\<forall>dep \<in> set deps. dep_open packages dep \<noteq> Inr True)"
    using f by (auto simp: filter_empty_conv)
  also have "\<dots> \<longleftrightarrow> (\<forall>dep \<in> set deps. dep_open packages dep = Inr False)"
    using f by (metis (full_types) sum.inject(2))
  finally show ?thesis unfolding os(2) dep_open_False .
qed

lemma incident_blockers_none:
  assumes "incident_blockers incidents p = Inr bs"
  shows "bs = [] \<longleftrightarrow> (\<forall>i \<in> set incidents. incident_hits_package i p = Inr False)"
proof -
  from assms obtain hs where hs: "filterE (\<lambda>i. incident_hits_package i p) incidents = Inr hs"
    and m: "mapE (\<lambda>i. bindE (py_get i ''incident_id'' (JStr ''unknown'')) (\<lambda>n. Inr (''incident:'' @ py_str n))) hs = Inr bs"
    by (auto simp: incident_blockers_def elim!: bindE_InrE)
  note f = filterE_Inr [OF hs]
  have "bs = [] \<longleftrightarrow> hs = []" using mapE_nth [OF m] by auto
  also have "\<dots> \<longleftrightarrow> (\<forall>i \<in> set incidents. incident_hits_package i p \<noteq> Inr True)"
    using f by (auto simp: filter_empty_conv)
  also have "\<dots> \<longleftrightarrow> (\<forall>i \<in> set incidents. incident_hits_package i p = Inr False)"
    using f by (metis (full_types) sum.inject(2))
  finally show ?thesis .
qed

lemma conflict_blockers_none:
  "i < length active \<Longrightarrow> conflict_blockers active i = [] \<longleftrightarrow>
     (\<forall>j < length active. j \<noteq> i \<longrightarrow> set (snd (active ! i)) \<inter> set (snd (active ! j)) = {})"
  by (auto simp: conflict_blockers_def filter_empty_conv)

definition is_active :: "json \<Rightarrow> bool" where
  "is_active p \<longleftrightarrow> field p ''state'' = Some (JStr ''ACTIVE'')"

text \<open>What an evaluation computed: the active packages with their reasons and paths.\<close>

lemma evaluate_Inr:
  assumes "evaluate_construction_program program incidents = Inr ev"
    and "field program ''work_packages'' = Some (JList ps)"
  obtains packages reasons pathed where
    "mapE package_entry ps = Inr packages"
    "mapE (\<lambda>p. bindE (dependency_blockers packages p) (\<lambda>a.
         bindE (incident_blockers incidents p) (\<lambda>b. Inr (a @ b)))) (filter is_active ps) = Inr reasons"
    "mapE (\<lambda>p. bindE (py_item p ''work_id'') (\<lambda>wid. bindE (paths_of p) (\<lambda>paths. Inr (wid, paths))))
       (filter is_active ps) = Inr pathed"
    "pe_eligible_work_package_ids ev = map (\<lambda>i. fst (pathed ! i))
       (filter (\<lambda>i. reasons ! i = [] \<and> conflict_blockers pathed i = []) [0..<length (filter is_active ps)])"
proof -
  have act: "filterE (\<lambda>p. bindE (py_item p ''state'') (\<lambda>st. Inr (st = JStr ''ACTIVE''))) ps = Inr active \<Longrightarrow>
      active = filter is_active ps" for active
    by (drule filterE_Inr) (auto simp: bindE_eq_Inr py_item_field is_active_def intro!: filter_cong)
  from assms obtain packages active reasons pathed where
    r: "mapE package_entry ps = Inr packages"
    "filterE (\<lambda>p. bindE (py_item p ''state'') (\<lambda>st. Inr (st = JStr ''ACTIVE''))) ps = Inr active"
    "mapE (\<lambda>p. bindE (dependency_blockers packages p) (\<lambda>a.
         bindE (incident_blockers incidents p) (\<lambda>b. Inr (a @ b)))) active = Inr reasons"
    "mapE (\<lambda>p. bindE (py_item p ''work_id'') (\<lambda>wid. bindE (paths_of p) (\<lambda>paths. Inr (wid, paths)))) active
       = Inr pathed"
    "pe_eligible_work_package_ids ev = map fst (filter (\<lambda>b. snd b = [])
       (map (\<lambda>i. (fst (pathed ! i), reasons ! i @ conflict_blockers pathed i)) [0..<length active]))"
    unfolding evaluate_construction_program_def Let_def
    by (elim bindE_InrE) (auto simp: py_item_field)
  show ?thesis
    by (rule that [OF r(1)]) (use r(3-5) act [OF r(2)] in \<open>simp_all add: filter_map comp_def\<close>)
qed

text \<open>\<open>p\<close> names \<open>q\<close> among its dependencies.\<close>

definition waits_for :: "json \<Rightarrow> json \<Rightarrow> bool" where
  "waits_for p q \<longleftrightarrow> (\<exists>ds deps dep wid k. dependencies p = Inr ds \<and> py_iter ds = Inr deps \<and> dep \<in> set deps
     \<and> field q ''work_id'' = Some wid \<and> py_key dep = Inr k \<and> py_key wid = Inr k)"

definition disjoint_paths :: "json \<Rightarrow> json \<Rightarrow> bool" where
  "disjoint_paths p q \<longleftrightarrow> (\<forall>ps qs. paths_of p = Inr ps \<longrightarrow> paths_of q = Inr qs \<longrightarrow> set ps \<inter> set qs = {})"

lemma package_entry_Inr: "package_entry p = Inr (k, q) \<longleftrightarrow> q = p \<and> (\<exists>w. field p ''work_id'' = Some w \<and> py_key w = Inr k)"
  by (auto simp: package_entry_def bindE_eq_Inr py_item_field)

lemma validated_ids:
  assumes "validate_construction_program program = Inr b" and "field program ''work_packages'' = Some (JList ps)"
  obtains ks where "mapE package_entry ps = Inr (zip ks ps)" "length ks = length ps" "distinct ks"
proof -
  from validated_accepted [OF assms(1)] obtain paths requirements classes packages where
    "accepted_program program paths requirements classes packages" .
  then show ?thesis using assms(2) that unfolding accepted_program_def by auto
qed

lemma entries_nth:
  "mapE package_entry ps = Inr (zip ks ps) \<Longrightarrow> length ks = length ps \<Longrightarrow> i < length ps \<Longrightarrow>
     \<exists>w. field (ps ! i) ''work_id'' = Some w \<and> py_key w = Inr (ks ! i)"
  using mapE_nth [of package_entry ps "zip ks ps"] by (auto simp: package_entry_Inr)

lemma same_id_same_package:
  assumes "mapE package_entry ps = Inr (zip ks ps)" and "length ks = length ps" and "distinct ks"
    and "p \<in> set ps" and "q \<in> set ps" and "field p ''work_id'' = Some v" and "field q ''work_id'' = Some w"
    and "py_key v = py_key w"
  shows "p = q"
proof -
  from assms(4,5) obtain i j where ij: "i < length ps" "p = ps ! i" "j < length ps" "q = ps ! j"
    by (auto simp: in_set_conv_nth)
  have "ks ! i = ks ! j"
    using entries_nth [OF assms(1,2) ij(1)] entries_nth [OF assms(1,2) ij(3)] assms(6-8) ij by auto
  then have "i = j" using assms(2,3) ij by (simp add: nth_eq_iff_index_eq)
  then show ?thesis using ij by simp
qed

lemma map_of_entries:
  assumes "mapE package_entry ps = Inr (zip ks ps)" and "length ks = length ps" and "distinct ks"
  shows "map_of (zip ks ps) k = Some q \<longleftrightarrow> q \<in> set ps \<and> (\<exists>w. field q ''work_id'' = Some w \<and> py_key w = Inr k)"
proof
  assume "map_of (zip ks ps) k = Some q"
  then obtain i where "i < length ps" "ks ! i = k" "ps ! i = q"
    using assms(2,3) by (auto simp: map_of_zip_nth dest!: map_of_SomeD simp: in_set_zip)
  with entries_nth [OF assms(1,2)] show "q \<in> set ps \<and> (\<exists>w. field q ''work_id'' = Some w \<and> py_key w = Inr k)"
    by force
next
  assume r: "q \<in> set ps \<and> (\<exists>w. field q ''work_id'' = Some w \<and> py_key w = Inr k)"
  then obtain i where i: "i < length ps" "ps ! i = q" by (auto simp: in_set_conv_nth)
  with entries_nth [OF assms(1,2) i(1)] r have "ks ! i = k" by auto
  with i show "map_of (zip ks ps) k = Some q" using assms(2,3) by (metis map_of_zip_nth)
qed

lemma dependency_blockers_clear:
  assumes "dependency_blockers (zip ks ps) p = Inr bs"
    and "mapE package_entry ps = Inr (zip ks ps)" and "length ks = length ps" and "distinct ks"
  shows "bs = [] \<longleftrightarrow> (\<forall>q \<in> set ps. waits_for p q \<longrightarrow> field q ''state'' = Some (JStr ''COMPLETE''))"
proof -
  from assms(1) obtain ds deps os where d: "dependencies p = Inr ds" "py_iter ds = Inr deps"
    "filterE (dep_open (zip ks ps)) deps = Inr os"
    by (auto simp: dependency_blockers_def dep_open_def [abs_def] elim!: bindE_InrE)
  have found: "\<exists>k q. py_key dep = Inr k \<and> map_of (zip ks ps) k = Some q" if "dep \<in> set deps" for dep
  proof -
    from filterE_Inr [OF d(3)] that obtain b where "dep_open (zip ks ps) dep = Inr b" by blast
    then show ?thesis by (auto simp: dep_open_def bindE_eq_Inr split: option.splits)
  qed
  note look = map_of_entries [OF assms(2-4)]
  show ?thesis
    unfolding dependency_blockers_none [OF assms(1) d(1,2)]
  proof (intro iffI ballI impI)
    fix q
    assume all: "\<forall>dep \<in> set deps. \<exists>k q. py_key dep = Inr k \<and> map_of (zip ks ps) k = Some q
        \<and> field q ''state'' = Some (JStr ''COMPLETE'')" and "q \<in> set ps" and "waits_for p q"
    then obtain dep k where k: "dep \<in> set deps" "py_key dep = Inr k" "map_of (zip ks ps) k = Some q"
      using d(1,2) by (auto simp: waits_for_def look)
    with all show "field q ''state'' = Some (JStr ''COMPLETE'')" by fastforce
  next
    fix dep
    assume all: "\<forall>q \<in> set ps. waits_for p q \<longrightarrow> field q ''state'' = Some (JStr ''COMPLETE'')"
      and dep: "dep \<in> set deps"
    from found [OF dep] obtain k q where kq: "py_key dep = Inr k" "map_of (zip ks ps) k = Some q" by blast
    then obtain w where "q \<in> set ps" "field q ''work_id'' = Some w" "py_key w = Inr k" by (auto simp: look)
    moreover from this have "waits_for p q" using d(1,2) dep kq unfolding waits_for_def by blast
    ultimately show "\<exists>k q. py_key dep = Inr k \<and> map_of (zip ks ps) k = Some q
        \<and> field q ''state'' = Some (JStr ''COMPLETE'')" using all kq by blast
  qed
qed

lemma pathed_at:
  assumes "mapE (\<lambda>p. bindE (py_item p ''work_id'') (\<lambda>wid. bindE (paths_of p) (\<lambda>paths. Inr (wid, paths)))) active
      = Inr pathed" and "i < length active"
  shows "field (active ! i) ''work_id'' = Some (fst (pathed ! i)) \<and> paths_of (active ! i) = Inr (snd (pathed ! i))"
proof -
  have "bindE (py_item (active ! i) ''work_id'') (\<lambda>wid. bindE (paths_of (active ! i)) (\<lambda>paths. Inr (wid, paths)))
      = Inr (pathed ! i)" using mapE_nth [OF assms(1)] assms(2) by blast
  then show ?thesis by (cases "pathed ! i") (auto simp: bindE_eq_Inr py_item_field)
qed

text \<open>Two active packages at different positions are different packages.\<close>

lemma conflict_blockers_clear:
  assumes "mapE (\<lambda>p. bindE (py_item p ''work_id'') (\<lambda>wid. bindE (paths_of p) (\<lambda>paths. Inr (wid, paths)))) active
      = Inr pathed"
    and "distinct active" and "i < length active"
  shows "conflict_blockers pathed i = [] \<longleftrightarrow> (\<forall>q \<in> set active. q \<noteq> active ! i \<longrightarrow> disjoint_paths (active ! i) q)"
proof -
  have len: "length pathed = length active" and
    at: "\<And>j. j < length active \<Longrightarrow> paths_of (active ! j) = Inr (snd (pathed ! j))"
    using pathed_at [OF assms(1)] mapE_nth [OF assms(1)] by auto
  have "conflict_blockers pathed i = [] \<longleftrightarrow>
      (\<forall>j < length active. active ! j \<noteq> active ! i \<longrightarrow> disjoint_paths (active ! i) (active ! j))"
    using assms(2,3) at by (simp add: conflict_blockers_none len disjoint_paths_def nth_eq_iff_index_eq)
  also have "\<dots> \<longleftrightarrow> (\<forall>q \<in> set active. q \<noteq> active ! i \<longrightarrow> disjoint_paths (active ! i) q)"
    by (simp add: all_set_conv_all_nth)
  finally show ?thesis .
qed

lemma packages_distinct:
  assumes "mapE package_entry ps = Inr (zip ks ps)" and "length ks = length ps" and "distinct ks"
  shows "distinct ps"
proof -
  have "i = j" if "i < length ps" "j < length ps" "ps ! i = ps ! j" for i j
  proof -
    have "ks ! i = ks ! j"
      using entries_nth [OF assms(1,2) that(1)] entries_nth [OF assms(1,2) that(2)] that(3) by auto
    then show ?thesis using assms(2,3) that by (simp add: nth_eq_iff_index_eq)
  qed
  then show ?thesis by (auto simp: distinct_conv_nth)
qed

text \<open>An active package at \<open>i\<close> has no blocker exactly when nothing stands in its way.\<close>

lemma unblocked_iff:
  assumes ks: "mapE package_entry ps = Inr (zip ks ps)" "length ks = length ps" "distinct ks"
    and reasons: "mapE (\<lambda>p. bindE (dependency_blockers (zip ks ps) p) (\<lambda>a.
         bindE (incident_blockers incidents p) (\<lambda>b. Inr (a @ b)))) (filter is_active ps) = Inr reasons"
    and pathed: "mapE (\<lambda>p. bindE (py_item p ''work_id'') (\<lambda>wid. bindE (paths_of p) (\<lambda>paths. Inr (wid, paths))))
       (filter is_active ps) = Inr pathed"
    and i: "i < length (filter is_active ps)" "filter is_active ps ! i = p"
  shows "reasons ! i = [] \<and> conflict_blockers pathed i = [] \<longleftrightarrow>
      (\<forall>q \<in> set ps. waits_for p q \<longrightarrow> field q ''state'' = Some (JStr ''COMPLETE''))
      \<and> (\<forall>i \<in> set incidents. incident_hits_package i p = Inr False)
      \<and> (\<forall>q \<in> set ps. is_active q \<longrightarrow> q \<noteq> p \<longrightarrow> disjoint_paths p q)"
proof -
  from mapE_nth [OF reasons] i obtain a b where
    ab: "dependency_blockers (zip ks ps) p = Inr a" "incident_blockers incidents p = Inr b" "reasons ! i = a @ b"
    by (fastforce simp: bindE_eq_Inr)
  show ?thesis
    using dependency_blockers_clear [OF ab(1) ks] incident_blockers_none [OF ab(2)]
      conflict_blockers_clear [OF pathed distinct_filter [OF packages_distinct [OF ks]] i(1)] ab(3) i(2)
    by (auto simp: ball_conj_distrib)
qed

text \<open>
  C33. A work package is eligible exactly when it is ACTIVE, every package it depends on is COMPLETE,
  no incident hits it, and it shares no path with another active package: no two packages that may
  run at the same time write the same paths.
\<close>

theorem eligible_work_is_clear:
  assumes ev: "evaluate_construction_program program incidents = Inr ev"
    and ps: "field program ''work_packages'' = Some (JList ps)"
    and p: "p \<in> set ps" and wid: "field p ''work_id'' = Some wid"
  shows "wid \<in> set (pe_eligible_work_package_ids ev) \<longleftrightarrow>
    is_active p
    \<and> (\<forall>q \<in> set ps. waits_for p q \<longrightarrow> field q ''state'' = Some (JStr ''COMPLETE''))
    \<and> (\<forall>i \<in> set incidents. incident_hits_package i p = Inr False)
    \<and> (\<forall>q \<in> set ps. is_active q \<longrightarrow> q \<noteq> p \<longrightarrow> disjoint_paths p q)"
proof -
  from ev obtain b where "validate_construction_program program = Inr b"
    by (auto simp: evaluate_construction_program_def elim!: bindE_InrE)
  then obtain ks where ks: "mapE package_entry ps = Inr (zip ks ps)" "length ks = length ps" "distinct ks"
    using validated_ids ps by blast
  from evaluate_Inr [OF ev ps] obtain packages reasons pathed where
    packages: "mapE package_entry ps = Inr packages"
    and reasons0: "mapE (\<lambda>p. bindE (dependency_blockers packages p) (\<lambda>a.
         bindE (incident_blockers incidents p) (\<lambda>b. Inr (a @ b)))) (filter is_active ps) = Inr reasons"
    and pathed: "mapE (\<lambda>p. bindE (py_item p ''work_id'') (\<lambda>wid. bindE (paths_of p) (\<lambda>paths. Inr (wid, paths))))
       (filter is_active ps) = Inr pathed"
    and el: "pe_eligible_work_package_ids ev = map (\<lambda>i. fst (pathed ! i))
       (filter (\<lambda>i. reasons ! i = [] \<and> conflict_blockers pathed i = []) [0..<length (filter is_active ps)])"
    by blast
  have "packages = zip ks ps" using packages ks(1) by simp
  note reasons = reasons0 [unfolded this]
  let ?act = "filter is_active ps"
  have fst_at: "field (?act ! i) ''work_id'' = Some (fst (pathed ! i))" if "i < length ?act" for i
    using pathed_at [OF pathed that] by simp
  note at = unblocked_iff [OF ks reasons pathed]
  show ?thesis
  proof (intro iffI)
    assume "wid \<in> set (pe_eligible_work_package_ids ev)"
    then obtain i where i: "i < length ?act" "fst (pathed ! i) = wid" "reasons ! i = []" "conflict_blockers pathed i = []"
      by (auto simp: el)
    have mem: "?act ! i \<in> set ?act" using i(1) by (rule nth_mem)
    have "?act ! i = p"
      using same_id_same_package [OF ks, of "?act ! i" p wid wid] mem fst_at [OF i(1)] i(2) p wid by auto
    with at [OF i(1) this] i(3,4) mem show "is_active p
      \<and> (\<forall>q \<in> set ps. waits_for p q \<longrightarrow> field q ''state'' = Some (JStr ''COMPLETE''))
      \<and> (\<forall>i \<in> set incidents. incident_hits_package i p = Inr False)
      \<and> (\<forall>q \<in> set ps. is_active q \<longrightarrow> q \<noteq> p \<longrightarrow> disjoint_paths p q)" by auto
  next
    assume r: "is_active p
      \<and> (\<forall>q \<in> set ps. waits_for p q \<longrightarrow> field q ''state'' = Some (JStr ''COMPLETE''))
      \<and> (\<forall>i \<in> set incidents. incident_hits_package i p = Inr False)
      \<and> (\<forall>q \<in> set ps. is_active q \<longrightarrow> q \<noteq> p \<longrightarrow> disjoint_paths p q)"
    then have "p \<in> set ?act" using p by simp
    then obtain i where i: "i < length ?act" "?act ! i = p" by (metis in_set_conv_nth)
    have "fst (pathed ! i) = wid" using fst_at [OF i(1)] wid i(2) by simp
    moreover have "reasons ! i = [] \<and> conflict_blockers pathed i = []" using at [OF i] r by blast
    ultimately show "wid \<in> set (pe_eligible_work_package_ids ev)" using i(1) by (force simp: el)
  qed
qed

subsection \<open>Evidence\<close>

lemma allE_res_True: "allE_res p xs = Inr True \<longleftrightarrow> (\<forall>x \<in> set xs. p x = Inr True)"
  by (induction xs) (auto simp: bindE_eq_Inr)

lemma allE_res_False_not_True: "allE_res p xs = Inr b \<Longrightarrow> b \<longleftrightarrow> (\<forall>x \<in> set xs. p x = Inr True)"
  using allE_res_True [of p xs] by (cases b) auto

lemma filterE_fails: "isl (filterE f xs) \<longleftrightarrow> \<not> list_all (\<lambda>x. \<not> isl (f x)) xs"
proof (induction xs)
  case (Cons x xs)
  then show ?case by (cases "f x"; cases "filterE f xs") auto
qed simp

text \<open>Only the text PROVEN in a cell of the named dimension proves it.\<close>

lemma claim_state_PROVEN:
  "claim_state record d = Inr PROVEN \<longleftrightarrow>
     d \<in> set EVIDENCE_DIMENSIONS \<and> (\<exists>cell v. field record d = Some cell \<and> field cell ''state'' = Some v
        \<and> py_str v = ''PROVEN'')"
proof -
  have g: "''PROVEN'' \<notin> set GENERIC_COMPLETION" "''UNPROVEN'' \<notin> set GENERIC_COMPLETION"
    by (simp_all add: GENERIC_COMPLETION_def)
  show ?thesis
    using g by (auto simp: claim_state_def bindE_eq_Inr py_get_def guardE_eq_Inr Let_def field_obj
        split: if_splits option.splits)
qed

lemma claim_state_cases: "d \<in> set EVIDENCE_DIMENSIONS \<Longrightarrow> is_obj record \<Longrightarrow>
   claim_state record d = Inr PROVEN \<or> claim_state record d = Inr UNPROVEN"
  by (auto simp: claim_state_def py_get_def Let_def)

lemma proven_if: "bindE r (\<lambda>b. Inr (if b then PROVEN else UNPROVEN)) = Inr PROVEN \<longleftrightarrow> r = Inr True"
  by (cases r) auto

definition proven_child :: "string \<Rightarrow> json \<Rightarrow> bool" where
  "proven_child dim c \<longleftrightarrow> (\<exists>e. field c ''evidence'' = Some e \<and> claim_state e dim = Inr PROVEN)"

text \<open>
  A parent obligation is proven exactly when some of its children are required and every required
  child is proven in the dimension asked for; children that are not required never count.
\<close>

theorem parent_proven_exactly:
  "derive_parent_state children dim = Inr PROVEN \<longleftrightarrow>
     list_all (\<lambda>c. \<not> isl (obligation_is_required c)) children
     \<and> list_ex (\<lambda>c. obligation_is_required c = Inr True) children
     \<and> list_all (\<lambda>c. obligation_is_required c = Inr False \<or> proven_child dim c) children"
proof (cases "filterE obligation_is_required children")
  case (Inl e)
  with filterE_fails [of obligation_is_required children] show ?thesis
    by (simp add: derive_parent_state_def)
next
  case (Inr required)
  note f = filterE_Inr [OF Inr, THEN conjunct1] filterE_Inr [OF Inr, THEN conjunct2]
  have "derive_parent_state children dim = Inr PROVEN \<longleftrightarrow>
     required \<noteq> [] \<and> allE_res (\<lambda>c. bindE (py_item c ''evidence'') (\<lambda>e.
           bindE (claim_state e dim) (\<lambda>s. Inr (s = PROVEN)))) required = Inr True"
    unfolding derive_parent_state_def Inr bindE_Inr by (simp add: proven_if)
  also have "\<dots> \<longleftrightarrow> required \<noteq> [] \<and> (\<forall>c \<in> set required. proven_child dim c)"
    by (simp add: allE_res_True bindE_eq_Inr py_item_field proven_child_def)
  also have "\<dots> \<longleftrightarrow> list_ex (\<lambda>c. obligation_is_required c = Inr True) children
      \<and> list_all (\<lambda>c. obligation_is_required c = Inr True \<longrightarrow> proven_child dim c) children"
    unfolding f(2) by (simp add: filter_empty_conv list_all_iff list_ex_iff Ball_def Bex_def imp_conjL)
  also have "list_all (\<lambda>c. obligation_is_required c = Inr True \<longrightarrow> proven_child dim c) children
      \<longleftrightarrow> list_all (\<lambda>c. obligation_is_required c = Inr False \<or> proven_child dim c) children"
    using f(1) by (intro list.pred_cong refl) (metis (full_types) Inr_inject)
  finally show ?thesis
    using filterE_fails [of obligation_is_required children] Inr by simp
qed

subsection \<open>Contradictions reopen evidence\<close>

lemma map_of_dict_put: "map_of (dict_put k v kvs) l = (if l = k then Some v else map_of kvs l)"
  by (induction k v kvs rule: dict_put.induct) auto

lemma obj_put_Inr: "obj_put k v x = Inr y \<Longrightarrow> is_obj x \<and> is_obj y \<and> field y k = Some v \<and> (\<forall>l. l \<noteq> k \<longrightarrow> field y l = field x l)"
  by (cases x) (auto simp: map_of_dict_put)

lemma reopen_from_Inr:
  "reopen_from dims record = Inr record' \<Longrightarrow> distinct dims \<Longrightarrow>
     (\<forall>d \<in> set dims. \<exists>cell. field record' d = Some cell \<and> field cell ''state'' = Some (JStr ''UNPROVEN''))
     \<and> (\<forall>k. k \<notin> set dims \<longrightarrow> field record' k = field record k)"
proof (induction dims arbitrary: "record")
  case (Cons d ds)
  from Cons.prems(1) obtain cell r where
    c: "obj_put ''state'' (JStr ''UNPROVEN'') (case field record d of None \<Rightarrow> JObj [] | Some c \<Rightarrow> c) = Inr cell"
    "obj_put d cell record = Inr r" "reopen_from ds r = Inr record'"
    by (auto split: if_splits elim!: bindE_InrE)
  from Cons.IH [OF c(3)] Cons.prems(2) obj_put_Inr [OF c(1)] obj_put_Inr [OF c(2)] show ?case by auto
qed simp

text \<open>
  A contradiction of a dimension by a user or the real world reopens it and every later one, leaves
  everything else of the record as it was, and gives a repair candidate that asks for global
  reselection and grants no authority.
\<close>

theorem contradiction_reopens:
  assumes "reopen_from_contradiction record dimension observation = Inr (candidate, record')"
  shows "list_all (\<lambda>d. claim_state record' d = Inr UNPROVEN)
       (dropWhile (\<lambda>d. d \<noteq> dimension) EVIDENCE_DIMENSIONS)
    \<and> list_all (\<lambda>d. claim_state record' d = claim_state record d)
       (takeWhile (\<lambda>d. d \<noteq> dimension) EVIDENCE_DIMENSIONS)
    \<and> field candidate ''requires_global_reselection'' = Some (JBool True)
    \<and> field candidate ''authority_granted'' = Some (JBool False)"
proof -
  let ?after = "dropWhile (\<lambda>d. d \<noteq> dimension) EVIDENCE_DIMENSIONS"
  from assms have dim: "dimension \<in> set EVIDENCE_DIMENSIONS" and r: "reopen_from ?after record = Inr record'"
    and cand: "field candidate ''requires_global_reselection'' = Some (JBool True)"
      "field candidate ''authority_granted'' = Some (JBool False)"
    by (auto simp: reopen_from_contradiction_def guardE_eq_Inr elim!: bindE_InrE)
  have dist: "distinct EVIDENCE_DIMENSIONS" by (simp add: EVIDENCE_DIMENSIONS_def)
  from dim have "dimension \<in> set ?after"
    by (metis (mono_tags, lifting) Un_iff set_append set_takeWhileD takeWhile_dropWhile_id)
  then have obj: "is_obj record" using r by (cases ?after) (auto split: if_splits)
  note o = reopen_from_Inr [OF r distinct_dropWhile [OF dist]]
  have "claim_state record' d = Inr UNPROVEN" if d: "d \<in> set ?after" for d
  proof -
    from o d obtain cell where "field record' d = Some cell" "field cell ''state'' = Some (JStr ''UNPROVEN'')"
      by blast
    then show ?thesis using set_dropWhileD [OF d]
      by (simp add: claim_state_def py_get_def field_obj Let_def GENERIC_COMPLETION_def)
  qed
  moreover have "claim_state record' d = claim_state record d" if d: "d \<in> set (takeWhile (\<lambda>d. d \<noteq> dimension) EVIDENCE_DIMENSIONS)" for d
  proof -
    have "d \<notin> set ?after"
      using dist d by (metis disjoint_iff distinct_append takeWhile_dropWhile_id)
    then have "field record' d = field record d" using o by blast
    moreover have "is_obj record'" using o \<open>dimension \<in> set ?after\<close> field_obj by blast
    ultimately show ?thesis using obj by (simp add: claim_state_def py_get_def)
  qed
  ultimately show ?thesis using cand by (simp add: list_all_iff)
qed

subsection \<open>Validated programs contain their work\<close>

text \<open>
  C35. A program that validates has a list of work packages, each of which names this program, stays
  inside the program's paths, requirements and authority classes, has a known state and evidence; the
  ids are pairwise different, and the dependencies name packages and are acyclic.
\<close>

theorem validated_program_contained:
  assumes "validate_construction_program program = Inr b"
  shows "\<exists>paths requirements classes packages. accepted_program program paths requirements classes packages"
  using validated_accepted [OF assms] by metis

definition texts :: "string list \<Rightarrow> json" where
  "texts xs = JList (map JStr xs)"

definition demo_package :: "string \<Rightarrow> string \<Rightarrow> string list \<Rightarrow> json \<Rightarrow> json" where
  "demo_package wid st paths deps = JObj [(''work_id'', JStr wid), (''parent_program_id'', JStr ''P''),
     (''state'', JStr st), (''paths'', texts paths), (''requirement_ids'', texts [''R'']),
     (''authority_class'', JStr ''A''), (''dependencies'', deps), (''evidence'', JObj [])]"

definition demo_program :: "json list \<Rightarrow> json" where
  "demo_program packages = JObj [(''program_id'', JStr ''P''), (''state'', JStr ''ACTIVE''),
     (''authority_source'', JStr ''owner''), (''allowed_paths'', texts [''x'', ''y'']),
     (''allowed_requirement_ids'', texts [''R'']), (''allowed_authority_classes'', texts [''A'']),
     (''work_packages'', JList packages)]"

definition demo_packages :: "json list" where
  "demo_packages = [demo_package ''a'' ''COMPLETE'' [''x''] (texts []), demo_package ''b'' ''ACTIVE'' [''x''] (texts [''a'']),
     demo_package ''c'' ''ACTIVE'' [''y''] (texts [''b''])]"

theorem validated_program_contained_witness:
  "\<exists>paths requirements classes packages.
     accepted_program (demo_program demo_packages) paths requirements classes packages"
proof -
  have "validate_construction_program (demo_program demo_packages) = Inr True" by code_simp
  then show ?thesis by (rule validated_program_contained)
qed

theorem eligible_work_is_clear_witness:
  "\<exists>ev. evaluate_construction_program (demo_program demo_packages) [] = Inr ev
     \<and> JStr ''b'' \<in> set (pe_eligible_work_package_ids ev) \<and> JStr ''c'' \<notin> set (pe_eligible_work_package_ids ev)
     \<and> is_active (demo_packages ! 1)"
proof -
  have "\<not> isl (evaluate_construction_program (demo_program demo_packages) [])" by code_simp
  then obtain ev where ev: "evaluate_construction_program (demo_program demo_packages) [] = Inr ev"
    by (auto simp: isl_def split: sum.splits) (metis sum.exhaust)
  have ps: "field (demo_program demo_packages) ''work_packages'' = Some (JList demo_packages)"
    by (simp add: demo_program_def)
  have "pe_eligible_work_package_ids (projr (evaluate_construction_program (demo_program demo_packages) []))
      = [JStr ''b'']" by code_simp
  then have el: "pe_eligible_work_package_ids ev = [JStr ''b'']" by (simp add: ev)
  have "demo_packages ! 1 \<in> set demo_packages" "field (demo_packages ! 1) ''work_id'' = Some (JStr ''b'')"
    by (simp_all add: demo_packages_def demo_package_def)
  from eligible_work_is_clear [OF ev ps this] el have "is_active (demo_packages ! 1)" by simp
  with ev el show ?thesis by auto
qed

theorem contradiction_reopens_witness:
  "\<exists>candidate r. reopen_from_contradiction (JObj []) ''VERIFIED'' JNull = Inr (candidate, r)
     \<and> claim_state r ''RECOVERABLE'' = Inr UNPROVEN"
proof -
  have "\<not> isl (reopen_from_contradiction (JObj []) ''VERIFIED'' JNull)" by code_simp
  then obtain candidate r where e: "reopen_from_contradiction (JObj []) ''VERIFIED'' JNull = Inr (candidate, r)"
    by (cases "reopen_from_contradiction (JObj []) ''VERIFIED'' JNull") auto
  from contradiction_reopens [OF e] have "claim_state r ''RECOVERABLE'' = Inr UNPROVEN"
    by (simp add: EVIDENCE_DIMENSIONS_def)
  with e show ?thesis by blast
qed

subsection \<open>Inputs the validation is not prepared for\<close>

text \<open>
  "dependencies" that are null pass \<open>_as_set\<close> (which reads null as the empty set) but the search
  iterates over them; a dependency with outer spaces passes the check of the trimmed names but is
  looked up untrimmed. Neither raises the ValueError of a rejected program..
\<close>

lemma null_dependencies_crash:
  "validate_construction_program (demo_program [demo_package ''a'' ''ACTIVE'' [''x''] JNull])
     = Inl (Raise PyTypeError ''object is not iterable'')"
  by code_simp

lemma spaced_dependency_crashes:
  "validate_construction_program (demo_program [demo_package ''a'' ''COMPLETE'' [''x''] (texts []),
       demo_package ''b'' ''ACTIVE'' [''x''] (texts ['' a''])])
     = Inl (Raise PyKeyError (repr_text '' a''))"
  by code_simp

end
