(* ===== verification/Envelope.thy ===== *)
theory Envelope
  imports Authority Dynamic
begin

text \<open>
  \<open>governance/execution_envelope.py\<close>: validation of an execution envelope, its fingerprint, and the gate
  that reports what blocks execution. An envelope is a JSON value; wrong shapes raise what Python raises.
  Validation is proved to admit exactly the well-formed envelopes, the gate to be total and exact.
\<close>

subsection \<open>Vocabulary\<close>

definition TRUTH_PLANES :: "string list" where
  "TRUTH_PLANES = [''WHY'', ''WHAT'', ''HOW'', ''NOW'', ''PROOF'']"

definition TRUTH_TYPES :: "string list" where
  "TRUTH_TYPES = [''DURABLE_PRINCIPLE'', ''ACCEPTED_SCOPE'', ''CURRENT_FACT'', ''USER_INTENT'',
     ''PREFERENCE'', ''DECISION'', ''EXPERIMENT'', ''HYPOTHESIS'', ''HISTORICAL_EVIDENCE'',
     ''IMPLEMENTATION_DETAIL'', ''EXTERNAL_CONSTRAINT'', ''UNKNOWN'']"

definition EVIDENCE_POSTURES :: "string list" where
  "EVIDENCE_POSTURES = [''OBSERVED'', ''DERIVED'', ''CLAIMED'', ''ASSUMED'', ''STALE'', ''UNKNOWN'']"

definition ENVELOPE_ACTION_CLASSES :: "string list" where
  "ENVELOPE_ACTION_CLASSES = [''READ_ONLY'', ''REVERSIBLE'', ''COMPENSATABLE'', ''IRREVERSIBLE'']"

definition OUTCOME_CLASSES :: "string list" where
  "OUTCOME_CLASSES = [''ARTIFACT'', ''SYSTEM_STATE'', ''EXTERNAL_STATE'', ''HUMAN_STATE'']"

definition NEXT_DEPENDENCY_STATES :: "string list" where
  "NEXT_DEPENDENCY_STATES = [''KNOWN'', ''BLOCKED'', ''NONE'', ''UNKNOWN'']"

definition BLOCKING_POSTURES :: "string list" where
  "BLOCKING_POSTURES = [''CLAIMED'', ''ASSUMED'', ''STALE'', ''UNKNOWN'']"

abbreviation envelope_error :: "string \<Rightarrow> exc" where
  "envelope_error msg \<equiv> Raise ExecutionEnvelopeError msg"

record gate_result =
  gr_valid :: bool
  gr_execution_allowed :: bool
  gr_envelope_fingerprint :: "string option"
  gr_blockers :: "string list"

subsection \<open>Reading fields\<close>

fun envelope_text :: "json \<Rightarrow> string \<Rightarrow> string res" where
  "envelope_text JNull f = Inl (envelope_error (f @ '' must not be empty''))"
| "envelope_text (JStr s) f =
     (let text = strip s in
      if text = [] then Inl (envelope_error (f @ '' must not be empty'')) else Inr text)"
| "envelope_text _ f = Inl (envelope_error (f @ '' must be text''))"

fun collect_texts :: "string \<Rightarrow> string list \<Rightarrow> json list \<Rightarrow> string list res" where
  "collect_texts f result [] = Inr result"
| "collect_texts f result (item # items) =
     bindE (envelope_text item f) (\<lambda>text.
     bindE (guardE (text \<notin> set result)
       (envelope_error (f @ '' contains duplicate value: '' @ text))) (\<lambda>_.
     collect_texts f (result @ [text]) items))"

fun string_list :: "json \<Rightarrow> string \<Rightarrow> bool \<Rightarrow> string list res" where
  "string_list (JList vs) f allow_empty =
     bindE (collect_texts f [] vs) (\<lambda>result.
     bindE (guardE (allow_empty \<or> result \<noteq> []) (envelope_error (f @ '' must not be empty''))) (\<lambda>_.
     Inr result))"
| "string_list _ f allow_empty = Inl (envelope_error (f @ '' must be a list''))"

text \<open>\<open>str(x[k]).strip().upper()\<close> and \<open>str(x.get(k, "")).strip().upper()\<close>.\<close>

definition enum_item :: "json \<Rightarrow> string \<Rightarrow> string res" where
  "enum_item x k = bindE (py_item x k) (\<lambda>v. Inr (norm_enum (py_str v)))"

definition enum_get :: "json \<Rightarrow> string \<Rightarrow> string res" where
  "enum_get x k = bindE (py_get x k (JStr [])) (\<lambda>v. Inr (norm_enum (py_str v)))"

fun is_bool :: "json \<Rightarrow> bool" where
  "is_bool (JBool b) = True"
| "is_bool _ = False"

definition show_nat :: "nat \<Rightarrow> string" where
  "show_nat i = show_int (int i)"

definition claims_at :: "nat \<Rightarrow> string" where
  "claims_at index = ''claims['' @ show_nat index @ '']''"

text \<open>\<open>for index, x in enumerate(xs)\<close> with the index of the first element.\<close>

fun each_from :: "(nat \<Rightarrow> 'a \<Rightarrow> unit res) \<Rightarrow> nat \<Rightarrow> 'a list \<Rightarrow> unit res" where
  "each_from f i [] = Inr ()"
| "each_from f i (x # xs) = bindE (f i x) (\<lambda>_. each_from f (Suc i) xs)"

subsection \<open>Validation\<close>

definition CLAIM_FIELDS :: "string list" where
  "CLAIM_FIELDS = [''statement'', ''truth_type'', ''evidence_posture'', ''source_refs'', ''blocking'']"

definition validate_claim :: "nat \<Rightarrow> json \<Rightarrow> unit res" where
  "validate_claim index claim =
     bindE (guardE (is_obj claim) (envelope_error (claims_at index @ '' must be an object''))) (\<lambda>_.
     let missing = missing_keys CLAIM_FIELDS claim in
     bindE (guardE (missing = [])
       (envelope_error (claims_at index @ '' missing '' @ show_sorted missing))) (\<lambda>_.
     bindE (py_item claim ''statement'') (\<lambda>v.
     bindE (envelope_text v (claims_at index @ ''.statement'')) (\<lambda>_.
     bindE (enum_item claim ''truth_type'') (\<lambda>truth_type.
     bindE (enum_item claim ''evidence_posture'') (\<lambda>posture.
     bindE (guardE (truth_type \<in> set TRUTH_TYPES)
       (envelope_error (claims_at index @ '' unknown truth_type: '' @ truth_type))) (\<lambda>_.
     bindE (guardE (posture \<in> set EVIDENCE_POSTURES)
       (envelope_error (claims_at index @ '' unknown evidence_posture: '' @ posture))) (\<lambda>_.
     bindE (py_item claim ''source_refs'') (\<lambda>v.
     bindE (string_list v (claims_at index @ ''.source_refs'') True) (\<lambda>refs.
     bindE (guardE (\<not> (posture \<in> {''OBSERVED'', ''DERIVED'', ''CLAIMED'', ''STALE''} \<and> refs = []))
       (envelope_error (claims_at index @ '' posture '' @ posture
          @ '' requires at least one source_ref''))) (\<lambda>_.
     bindE (py_item claim ''blocking'') (\<lambda>v.
     guardE (is_bool v) (envelope_error (claims_at index @ ''.blocking must be boolean''))))))))))))))"

definition ENVELOPE_FIELDS :: "string list" where
  "ENVELOPE_FIELDS = [''intent'', ''active_object'', ''retained_scope_refs'', ''dependencies'',
     ''truth_owners'', ''claims'', ''required_functions'', ''invoked_functions'', ''authority'',
     ''acceptance'', ''next_causal_dependency'']"

definition validate_intent :: "json \<Rightarrow> string res" where
  "validate_intent intent =
     bindE (guardE (is_obj intent) (envelope_error ''intent must be an object'')) (\<lambda>_.
     bindE (py_get intent ''description'' JNull) (\<lambda>v.
     bindE (envelope_text v ''intent.description'') (\<lambda>_.
     bindE (enum_get intent ''outcome_class'') (\<lambda>outcome_class.
     bindE (guardE (outcome_class \<in> set OUTCOME_CLASSES)
       (envelope_error (''unsupported intent outcome_class: '' @ outcome_class))) (\<lambda>_.
     Inr outcome_class)))))"

definition validate_dependencies :: "json \<Rightarrow> unit res" where
  "validate_dependencies dependencies =
     bindE (guardE (is_obj dependencies) (envelope_error ''dependencies must be an object'')) (\<lambda>_.
     each_from (\<lambda>_ side.
       bindE (guardE (field dependencies side \<noteq> None)
         (envelope_error (''dependencies missing '' @ side))) (\<lambda>_.
       bindE (py_item dependencies side) (\<lambda>v.
       bindE (string_list v (''dependencies.'' @ side) True) (\<lambda>_. Inr ()))))
       0 [''upstream'', ''downstream''])"

definition validate_owners :: "json \<Rightarrow> unit res" where
  "validate_owners owners =
     bindE (guardE (is_obj owners) (envelope_error ''truth_owners must be an object'')) (\<lambda>_.
     each_from (\<lambda>_ plane.
       bindE (py_get owners plane JNull) (\<lambda>v.
       bindE (envelope_text v (''truth_owners.'' @ plane)) (\<lambda>_. Inr ()))) 0 TRUTH_PLANES)"

definition validate_authority :: "json \<Rightarrow> unit res" where
  "validate_authority authority =
     bindE (guardE (is_obj authority) (envelope_error ''authority must be an object'')) (\<lambda>_.
     bindE (enum_get authority ''action_class'') (\<lambda>action_class.
     bindE (guardE (action_class \<in> set ENVELOPE_ACTION_CLASSES)
       (envelope_error (''unsupported authority.action_class: '' @ action_class))) (\<lambda>_.
     bindE (py_get authority ''authorized'' JNull) (\<lambda>v.
     bindE (guardE (is_bool v) (envelope_error ''authority.authorized must be boolean'')) (\<lambda>_.
     bindE (py_get authority ''requires_human'' JNull) (\<lambda>v.
     bindE (guardE (is_bool v) (envelope_error ''authority.requires_human must be boolean'')) (\<lambda>_.
     bindE (py_get authority ''source_ref'' JNull) (\<lambda>v.
     bindE (envelope_text v ''authority.source_ref'') (\<lambda>_. Inr ())))))))))"

definition validate_acceptance :: "string \<Rightarrow> json \<Rightarrow> unit res" where
  "validate_acceptance outcome_class acceptance =
     bindE (guardE (is_obj acceptance) (envelope_error ''acceptance must be an object'')) (\<lambda>_.
     bindE (enum_get acceptance ''outcome_class'') (\<lambda>acceptance_class.
     bindE (guardE (acceptance_class = outcome_class)
       (envelope_error ''acceptance outcome_class must match intent outcome_class'')) (\<lambda>_.
     bindE (py_get acceptance ''observable_condition'' JNull) (\<lambda>v.
     bindE (envelope_text v ''acceptance.observable_condition'') (\<lambda>_.
     bindE (py_get acceptance ''evidence_required'' JNull) (\<lambda>v.
     bindE (string_list v ''acceptance.evidence_required'' False) (\<lambda>_.
     bindE (py_get acceptance ''artifact_is_not_completion'' JNull) (\<lambda>v.
     guardE (v = JBool True \<or> outcome_class \<notin> {''EXTERNAL_STATE'', ''HUMAN_STATE''})
       (envelope_error ''external/human outcomes must explicitly reject artifact-only completion'')))))))))"

definition validate_next_dependency :: "json \<Rightarrow> unit res" where
  "validate_next_dependency next_dep =
     bindE (guardE (is_obj next_dep) (envelope_error ''next_causal_dependency must be an object'')) (\<lambda>_.
     bindE (enum_get next_dep ''state'') (\<lambda>dep_state.
     bindE (guardE (dep_state \<in> set NEXT_DEPENDENCY_STATES)
       (envelope_error (''unsupported next_causal_dependency.state: '' @ dep_state))) (\<lambda>_.
     bindE (py_get next_dep ''description'' JNull) (\<lambda>v.
     bindE (envelope_text v ''next_causal_dependency.description'') (\<lambda>_.
     bindE (py_get next_dep ''source_ref'' JNull) (\<lambda>v.
     bindE (envelope_text v ''next_causal_dependency.source_ref'') (\<lambda>_. Inr ())))))))"

definition validate_functions :: "json \<Rightarrow> unit res" where
  "validate_functions envelope =
     bindE (py_item envelope ''required_functions'') (\<lambda>v.
     bindE (string_list v ''required_functions'' False) (\<lambda>required_functions.
     bindE (py_item envelope ''invoked_functions'') (\<lambda>v.
     bindE (string_list v ''invoked_functions'' True) (\<lambda>invoked_functions.
     let missing_functions = filter (\<lambda>f. f \<notin> set invoked_functions) required_functions in
     guardE (missing_functions = [])
       (envelope_error (''required functions were not invoked: '' @ show_sorted missing_functions))))))"

fun claim_list :: "json \<Rightarrow> json list res" where
  "claim_list (JList (c # cs)) = Inr (c # cs)"
| "claim_list _ = Inl (envelope_error ''claims must be a non-empty list'')"

definition validate_execution_envelope :: "json \<Rightarrow> bool res" where
  "validate_execution_envelope envelope =
     bindE (guardE (is_obj envelope) (envelope_error ''execution envelope must be an object'')) (\<lambda>_.
     let missing = missing_keys ENVELOPE_FIELDS envelope in
     bindE (guardE (missing = [])
       (envelope_error (''execution envelope missing '' @ show_sorted missing))) (\<lambda>_.
     bindE (py_item envelope ''intent'') (\<lambda>intent.
     bindE (validate_intent intent) (\<lambda>outcome_class.
     bindE (py_item envelope ''active_object'') (\<lambda>v.
     bindE (envelope_text v ''active_object'') (\<lambda>_.
     bindE (py_item envelope ''retained_scope_refs'') (\<lambda>v.
     bindE (string_list v ''retained_scope_refs'' False) (\<lambda>_.
     bindE (py_item envelope ''dependencies'') (\<lambda>dependencies.
     bindE (validate_dependencies dependencies) (\<lambda>_.
     bindE (py_item envelope ''truth_owners'') (\<lambda>owners.
     bindE (validate_owners owners) (\<lambda>_.
     bindE (py_item envelope ''claims'') (\<lambda>v.
     bindE (claim_list v) (\<lambda>claims.
     bindE (each_from validate_claim 0 claims) (\<lambda>_.
     bindE (validate_functions envelope) (\<lambda>_.
     bindE (py_item envelope ''authority'') (\<lambda>authority.
     bindE (validate_authority authority) (\<lambda>_.
     bindE (py_item envelope ''acceptance'') (\<lambda>acceptance.
     bindE (validate_acceptance outcome_class acceptance) (\<lambda>_.
     bindE (py_item envelope ''next_causal_dependency'') (\<lambda>next_dep.
     bindE (validate_next_dependency next_dep) (\<lambda>_. Inr True))))))))))))))))))))))"

subsection \<open>The gate\<close>

definition envelope_fingerprint :: "(string \<Rightarrow> string) \<Rightarrow> json \<Rightarrow> string res" where
  "envelope_fingerprint sha envelope =
     bindE (validate_execution_envelope envelope) (\<lambda>_. Inr (sha (canonical envelope)))"

definition claim_blockers :: "nat \<Rightarrow> json \<Rightarrow> string list res" where
  "claim_blockers index claim =
     bindE (enum_item claim ''truth_type'') (\<lambda>truth_type.
     bindE (enum_item claim ''evidence_posture'') (\<lambda>posture.
     bindE (py_item claim ''blocking'') (\<lambda>blocking.
     Inr ((if py_truthy blocking \<and> posture \<in> set BLOCKING_POSTURES
           then [''blocking epistemic claim '' @ claims_at index @ ''='' @ posture] else [])
        @ (if truth_type = ''CURRENT_FACT'' \<and> posture \<in> {''STALE'', ''ASSUMED'', ''UNKNOWN''}
           then [''material current fact '' @ claims_at index @ '' cannot execute with posture='' @ posture]
           else [])))))"

fun all_claim_blockers :: "nat \<Rightarrow> json list \<Rightarrow> string list res" where
  "all_claim_blockers i [] = Inr []"
| "all_claim_blockers i (c # cs) =
     bindE (claim_blockers i c) (\<lambda>xs. bindE (all_claim_blockers (Suc i) cs) (\<lambda>ys. Inr (xs @ ys)))"

definition authority_blockers :: "json \<Rightarrow> string list res" where
  "authority_blockers authority =
     bindE (enum_item authority ''action_class'') (\<lambda>action_class.
     bindE (py_item authority ''authorized'') (\<lambda>authorized.
     bindE (py_item authority ''requires_human'') (\<lambda>requires_human.
     Inr ((if action_class \<noteq> ''READ_ONLY'' \<and> \<not> py_truthy authorized
           then [''stateful action is not authorized''] else [])
        @ (if action_class = ''IRREVERSIBLE'' \<and> \<not> py_truthy requires_human
           then [''irreversible action must require human authority''] else [])))))"

definition gate_validated :: "(string \<Rightarrow> string) \<Rightarrow> json \<Rightarrow> gate_result res" where
  "gate_validated sha envelope =
     bindE (py_item envelope ''claims'') (\<lambda>v.
     bindE (py_iter v) (\<lambda>claims.
     bindE (all_claim_blockers 0 claims) (\<lambda>b1.
     bindE (py_item envelope ''authority'') (\<lambda>authority.
     bindE (authority_blockers authority) (\<lambda>b2.
     bindE (envelope_fingerprint sha envelope) (\<lambda>fingerprint.
     Inr \<lparr>gr_valid = True, gr_execution_allowed = (b1 @ b2 = []),
           gr_envelope_fingerprint = Some fingerprint, gr_blockers = fromkeys (b1 @ b2)\<rparr>))))))"

definition evaluate_execution_envelope :: "(string \<Rightarrow> string) \<Rightarrow> json \<Rightarrow> gate_result res" where
  "evaluate_execution_envelope sha envelope =
     (case validate_execution_envelope envelope of
        Inl e \<Rightarrow>
          if exc_cls e \<in> {ExecutionEnvelopeError, PyTypeError, PyValueError} then
            Inr \<lparr>gr_valid = False, gr_execution_allowed = False, gr_envelope_fingerprint = None,
                  gr_blockers = [exc_msg e]\<rparr>
          else Inl e
      | Inr _ \<Rightarrow> gate_validated sha envelope)"

definition require_execution_permit :: "(string \<Rightarrow> string) \<Rightarrow> json \<Rightarrow> gate_result res" where
  "require_execution_permit sha envelope =
     bindE (evaluate_execution_envelope sha envelope) (\<lambda>result.
     bindE (guardE (gr_valid result) (envelope_error (hd (gr_blockers result)))) (\<lambda>_.
     bindE (guardE (gr_execution_allowed result)
       (envelope_error (''execution blocked: '' @ join ''; '' (gr_blockers result)))) (\<lambda>_.
     Inr result)))"

subsection \<open>Which exceptions validation raises\<close>

definition fails_in :: "exc_class set \<Rightarrow> 'a res \<Rightarrow> bool" where
  "fails_in C r \<longleftrightarrow> (\<forall>e. r = Inl e \<longrightarrow> exc_cls e \<in> C)"

named_theorems fails_intros \<open>how the steps of a fallible computation fail\<close>

lemma fails_in_Inr [fails_intros]: "fails_in C (Inr x)"
  by (simp add: fails_in_def)

lemma fails_in_Inl [fails_intros]: "c \<in> C \<Longrightarrow> fails_in C (Inl (Raise c m))"
  by (simp add: fails_in_def)

lemma fails_in_guard [fails_intros]: "(\<not> b \<Longrightarrow> c \<in> C) \<Longrightarrow> fails_in C (guardE b (Raise c m))"
  by (simp add: fails_in_def guardE_def)

lemma fails_in_bind:
  "fails_in C r \<Longrightarrow> (\<And>x. r = Inr x \<Longrightarrow> fails_in C (f x)) \<Longrightarrow> fails_in C (bindE r f)"
  by (auto simp: fails_in_def bindE_eq_Inl)

lemma fails_in_item: "field x k \<noteq> None \<Longrightarrow> fails_in C (py_item x k)"
  by (auto simp: fails_in_def py_item_def dest: field_obj)

lemma fails_in_get: "is_obj x \<Longrightarrow> fails_in C (py_get x k d)"
  by (auto simp: fails_in_def py_get_def)

abbreviation envelope_errors :: "exc_class set" where
  "envelope_errors \<equiv> {ExecutionEnvelopeError}"

lemma envelope_text_fails [fails_intros]: "fails_in envelope_errors (envelope_text v f)"
  by (cases v) (auto simp: fails_in_def Let_def)

lemma collect_texts_fails: "fails_in envelope_errors (collect_texts f r vs)"
  by (induction vs arbitrary: r) (auto intro!: fails_intros fails_in_bind)

lemma string_list_fails [fails_intros]: "fails_in envelope_errors (string_list v f a)"
  by (cases v) (auto intro!: fails_intros fails_in_bind collect_texts_fails)

lemma each_from_fails [fails_intros]:
  "(\<And>i x. x \<in> set xs \<Longrightarrow> fails_in C (f i x)) \<Longrightarrow> fails_in C (each_from f n xs)"
  by (induction xs arbitrary: n) (auto intro!: fails_intros fails_in_bind)

lemma enum_item_fails: "field x k \<noteq> None \<Longrightarrow> fails_in C (enum_item x k)"
  by (auto simp: enum_item_def intro!: fails_intros fails_in_bind fails_in_item)

lemma enum_get_fails: "is_obj x \<Longrightarrow> fails_in C (enum_get x k)"
  by (auto simp: enum_get_def intro!: fails_intros fails_in_bind fails_in_get)

lemma missing_Nil: "missing_keys keys x = [] \<longleftrightarrow> list_all (\<lambda>k. field x k \<noteq> None) keys"
  by (auto simp: missing_keys_def filter_empty_conv list_all_iff)

lemma validate_claim_fails [fails_intros]: "fails_in envelope_errors (validate_claim i c)"
  unfolding validate_claim_def Let_def
  by (intro fails_in_bind fails_intros fails_in_item enum_item_fails)
    (simp_all add: guardE_eq_Inr missing_Nil CLAIM_FIELDS_def)

lemma parts_fail [fails_intros]:
  "fails_in envelope_errors (validate_intent x)" "fails_in envelope_errors (validate_dependencies x)"
  "fails_in envelope_errors (validate_owners x)" "fails_in envelope_errors (validate_authority x)"
  "fails_in envelope_errors (validate_acceptance oc x)" "fails_in envelope_errors (validate_next_dependency x)"
  "fails_in envelope_errors (claim_list x)"
        apply (unfold validate_intent_def validate_dependencies_def validate_owners_def
      validate_authority_def validate_acceptance_def validate_next_dependency_def)
        apply (intro fails_in_bind fails_intros fails_in_get fails_in_item enum_get_fails, simp_all add: guardE_eq_Inr)+
  by (cases x rule: claim_list.cases) (auto intro!: fails_intros)

lemma validate_functions_fails:
  "field e ''required_functions'' \<noteq> None \<Longrightarrow> field e ''invoked_functions'' \<noteq> None \<Longrightarrow>
     fails_in envelope_errors (validate_functions e)"
  unfolding validate_functions_def Let_def
  by (intro fails_in_bind fails_intros fails_in_item) simp_all

lemma validate_envelope_fails: "fails_in envelope_errors (validate_execution_envelope e)"
  unfolding validate_execution_envelope_def Let_def
  by (intro fails_in_bind fails_intros fails_in_item validate_functions_fails)
    (simp_all add: guardE_eq_Inr missing_Nil ENVELOPE_FIELDS_def)


subsection \<open>What a validated envelope is known to hold\<close>

text \<open>The normalised text of a field, empty when it is absent.\<close>

definition enum_of :: "json \<Rightarrow> string \<Rightarrow> string" where
  "enum_of x k = (case field x k of None \<Rightarrow> [] | Some v \<Rightarrow> norm_enum (py_str v))"

lemma norm_enum_Nil [simp]: "norm_enum [] = []"
  by (simp add: norm_enum_def upper_def strip_def)

lemma enum_item_Inr: "enum_item x k = Inr t \<longleftrightarrow> field x k \<noteq> None \<and> t = enum_of x k"
  by (auto simp: enum_item_def enum_of_def bindE_eq_Inr py_item_field)

lemma enum_get_Inr: "enum_get x k = Inr t \<longleftrightarrow> is_obj x \<and> t = enum_of x k"
  by (auto simp: enum_get_def enum_of_def bindE_eq_Inr py_get_def split: option.splits)

lemma is_bool_obtain: "is_bool v \<longleftrightarrow> (\<exists>b. v = JBool b)"
  by (cases v) auto

lemma each_from_Inr: "each_from f n xs = Inr u \<longleftrightarrow> (\<forall>i < length xs. f (n + i) (xs ! i) = Inr ())"
proof (induction xs arbitrary: n)
  case (Cons x xs)
  have "(\<forall>i < length (x # xs). f (n + i) ((x # xs) ! i) = Inr ()) \<longleftrightarrow>
      f n x = Inr () \<and> (\<forall>i < length xs. f (Suc n + i) (xs ! i) = Inr ())"
    by (auto simp: less_Suc_eq_0_disj)
  with Cons [of "Suc n"] show ?case by (cases "f n x") auto
qed simp

lemma each_from_ball: "each_from (\<lambda>_. f) n xs = Inr u \<longleftrightarrow> (\<forall>x \<in> set xs. f x = Inr ())"
  by (auto simp: each_from_Inr all_set_conv_all_nth)

lemma valid_claim_fields:
  assumes "validate_claim i c = Inr u"
  shows "field c ''truth_type'' \<noteq> None" "field c ''evidence_posture'' \<noteq> None"
    "\<exists>b. field c ''blocking'' = Some (JBool b)"
  using assms by (auto simp: validate_claim_def Let_def bindE_eq_Inr py_item_field enum_item_Inr guard_passed
      is_bool_obtain)

lemma valid_authority_fields:
  assumes "validate_authority a = Inr u"
  shows "\<exists>b. field a ''authorized'' = Some (JBool b)" "\<exists>b. field a ''requires_human'' = Some (JBool b)"
    "enum_of a ''action_class'' \<in> set ENVELOPE_ACTION_CLASSES" "field a ''action_class'' \<noteq> None"
    "\<exists>s. field a ''source_ref'' = Some (JStr s) \<and> strip s \<noteq> []"
proof -
  from assms obtain v w s where r: "is_obj a" "enum_of a ''action_class'' \<in> set ENVELOPE_ACTION_CLASSES"
    "py_get a ''authorized'' JNull = Inr v" "is_bool v" "py_get a ''requires_human'' JNull = Inr w" "is_bool w"
    "py_get a ''source_ref'' JNull = Inr s" "\<exists>t. envelope_text s ''authority.source_ref'' = Inr t"
    by (auto simp: validate_authority_def bindE_eq_Inr enum_get_Inr guard_passed)
  show "\<exists>b. field a ''authorized'' = Some (JBool b)" "\<exists>b. field a ''requires_human'' = Some (JBool b)"
    using r(1,3-6) by (auto simp: py_get_def is_bool_obtain split: option.splits)
  show "enum_of a ''action_class'' \<in> set ENVELOPE_ACTION_CLASSES" by (rule r(2))
  show "field a ''action_class'' \<noteq> None"
    using r(2) by (auto simp: enum_of_def ENVELOPE_ACTION_CLASSES_def split: option.splits)
  show "\<exists>s. field a ''source_ref'' = Some (JStr s) \<and> strip s \<noteq> []"
    using r(1,7,8) by (cases s) (auto simp: py_get_def Let_def split: option.splits if_splits)
qed

lemma claim_list_Inr: "claim_list v = Inr cs \<longleftrightarrow> v = JList cs \<and> cs \<noteq> []"
  by (cases v rule: claim_list.cases) auto

lemma valid_envelope:
  assumes "validate_execution_envelope e = Inr b"
  obtains claims authority where "b" "field e ''claims'' = Some (JList claims)"
    "\<forall>i < length claims. validate_claim i (claims ! i) = Inr ()"
    "field e ''authority'' = Some authority" "validate_authority authority = Inr ()"
proof -
  from assms obtain v claims authority where
    "py_item e ''claims'' = Inr v" "claim_list v = Inr claims" "each_from validate_claim 0 claims = Inr ()"
    "py_item e ''authority'' = Inr authority" "validate_authority authority = Inr ()" "b"
    unfolding validate_execution_envelope_def Let_def by (elim bindE_InrE) auto
  then show ?thesis by (intro that) (simp_all add: py_item_field claim_list_Inr each_from_Inr)
qed

subsection \<open>What a valid envelope is\<close>

text \<open>
  The shape of a valid envelope, said without the order of the checks: a field with a text that is not
  blank, a field with a list of such texts that stay distinct when trimmed, and each part.
\<close>

definition text_field :: "json \<Rightarrow> string \<Rightarrow> bool" where
  "text_field x k \<longleftrightarrow> (\<exists>s. field x k = Some (JStr s) \<and> strip s \<noteq> [])"

definition texts_field :: "json \<Rightarrow> string \<Rightarrow> string list \<Rightarrow> bool" where
  "texts_field x k texts \<longleftrightarrow>
     (\<exists>ss. field x k = Some (JList (map JStr ss)) \<and> texts = map strip ss \<and> [] \<notin> set texts \<and> distinct texts)"

definition bool_field :: "json \<Rightarrow> string \<Rightarrow> bool" where
  "bool_field x k \<longleftrightarrow> (\<exists>b. field x k = Some (JBool b))"

definition well_formed_claim :: "json \<Rightarrow> bool" where
  "well_formed_claim c \<longleftrightarrow>
     text_field c ''statement'' \<and> enum_of c ''truth_type'' \<in> set TRUTH_TYPES
     \<and> enum_of c ''evidence_posture'' \<in> set EVIDENCE_POSTURES
     \<and> (\<exists>refs. texts_field c ''source_refs'' refs
          \<and> (refs = [] \<longrightarrow> enum_of c ''evidence_posture'' \<in> {''ASSUMED'', ''UNKNOWN''}))
     \<and> bool_field c ''blocking''"

definition well_formed_authority :: "json \<Rightarrow> bool" where
  "well_formed_authority a \<longleftrightarrow>
     enum_of a ''action_class'' \<in> set ENVELOPE_ACTION_CLASSES
     \<and> bool_field a ''authorized'' \<and> bool_field a ''requires_human'' \<and> text_field a ''source_ref''"

definition well_formed_outcome :: "json \<Rightarrow> json \<Rightarrow> bool" where
  "well_formed_outcome intent acceptance \<longleftrightarrow>
     text_field intent ''description'' \<and> enum_of intent ''outcome_class'' \<in> set OUTCOME_CLASSES
     \<and> enum_of acceptance ''outcome_class'' = enum_of intent ''outcome_class''
     \<and> text_field acceptance ''observable_condition''
     \<and> (\<exists>evidence. texts_field acceptance ''evidence_required'' evidence \<and> evidence \<noteq> [])
     \<and> (enum_of intent ''outcome_class'' \<in> {''EXTERNAL_STATE'', ''HUMAN_STATE''} \<longrightarrow>
          field acceptance ''artifact_is_not_completion'' = Some (JBool True))"

definition well_formed_envelope :: "json \<Rightarrow> bool" where
  "well_formed_envelope e \<longleftrightarrow>
     text_field e ''active_object''
     \<and> (\<exists>scope. texts_field e ''retained_scope_refs'' scope \<and> scope \<noteq> [])
     \<and> (\<exists>intent acceptance. field e ''intent'' = Some intent \<and> field e ''acceptance'' = Some acceptance
          \<and> well_formed_outcome intent acceptance)
     \<and> (\<exists>deps. field e ''dependencies'' = Some deps
          \<and> (\<forall>side \<in> {''upstream'', ''downstream''}. \<exists>refs. texts_field deps side refs))
     \<and> (\<exists>owners. field e ''truth_owners'' = Some owners \<and> (\<forall>plane \<in> set TRUTH_PLANES. text_field owners plane))
     \<and> (\<exists>claims. field e ''claims'' = Some (JList claims) \<and> claims \<noteq> [] \<and> list_all well_formed_claim claims)
     \<and> (\<exists>required invoked. texts_field e ''required_functions'' required \<and> required \<noteq> []
          \<and> texts_field e ''invoked_functions'' invoked \<and> set required \<subseteq> set invoked)
     \<and> (\<exists>authority. field e ''authority'' = Some authority \<and> well_formed_authority authority)
     \<and> (\<exists>next_dep. field e ''next_causal_dependency'' = Some next_dep
          \<and> enum_of next_dep ''state'' \<in> set NEXT_DEPENDENCY_STATES
          \<and> text_field next_dep ''description'' \<and> text_field next_dep ''source_ref'')"

lemma envelope_text_Inr: "envelope_text v f = Inr t \<longleftrightarrow> (\<exists>s. v = JStr s \<and> t = strip s \<and> t \<noteq> [])"
  by (cases v) (auto simp: Let_def)

lemma collect_texts_Inr:
  "collect_texts f result vs = Inr texts \<longleftrightarrow>
     (\<exists>ss. vs = map JStr ss \<and> texts = result @ map strip ss \<and> [] \<notin> set (map strip ss)
        \<and> distinct (map strip ss) \<and> set result \<inter> set (map strip ss) = {})"
proof (induction vs arbitrary: result)
  case (Cons v vs)
  show ?case
  proof
    assume "collect_texts f result (v # vs) = Inr texts"
    then obtain s where s: "v = JStr s" "strip s \<noteq> []" "strip s \<notin> set result"
      "collect_texts f (result @ [strip s]) vs = Inr texts"
      by (auto simp: bindE_eq_Inr envelope_text_Inr guard_passed)
    from s(4) [unfolded Cons.IH] obtain ss where "vs = map JStr ss" "texts = (result @ [strip s]) @ map strip ss"
      "[] \<notin> set (map strip ss)" "distinct (map strip ss)" "set (result @ [strip s]) \<inter> set (map strip ss) = {}" by blast
    with s(1-3) show "\<exists>ss. v # vs = map JStr ss \<and> texts = result @ map strip ss \<and> [] \<notin> set (map strip ss)
        \<and> distinct (map strip ss) \<and> set result \<inter> set (map strip ss) = {}"
      by (intro exI [of _ "s # ss"]) auto
  next
    assume "\<exists>ss. v # vs = map JStr ss \<and> texts = result @ map strip ss \<and> [] \<notin> set (map strip ss)
        \<and> distinct (map strip ss) \<and> set result \<inter> set (map strip ss) = {}"
    then obtain s ss where s: "v = JStr s" "vs = map JStr ss" "texts = result @ map strip (s # ss)"
      "[] \<notin> set (map strip (s # ss))" "distinct (map strip (s # ss))" "set result \<inter> set (map strip (s # ss)) = {}"
      by (auto simp: Cons_eq_map_conv)
    have "collect_texts f (result @ [strip s]) vs = Inr texts"
      unfolding Cons.IH using s(2-6) by (intro exI [of _ ss]) auto
    with s show "collect_texts f result (v # vs) = Inr texts" by (auto simp: Let_def)
  qed
qed auto

lemma string_list_Inr:
  "string_list v f a = Inr texts \<longleftrightarrow>
     (\<exists>ss. v = JList (map JStr ss) \<and> texts = map strip ss \<and> [] \<notin> set texts \<and> distinct texts) \<and> (a \<or> texts \<noteq> [])"
proof (cases v)
  case (JList vs)
  then show ?thesis by (auto simp: bindE_eq_Inr guard_passed collect_texts_Inr)
qed simp_all

text \<open>The steps of the validation, rewritten to what they need; a missing field reads as null, which is no text.\<close>

lemma then_guard: "bindE (guardE b er) g = Inr u \<longleftrightarrow> b \<and> g () = Inr u"
  by (auto simp: bindE_eq_Inr guard_passed)

lemma then_item: "bindE (py_item x k) g = Inr u \<longleftrightarrow> (\<exists>v. field x k = Some v \<and> g v = Inr u)"
  by (auto simp: bindE_eq_Inr py_item_field)

lemma then_enum:
  "bindE (enum_item x k) g = Inr u \<longleftrightarrow> field x k \<noteq> None \<and> g (enum_of x k) = Inr u"
  "bindE (enum_get x k) g = Inr u \<longleftrightarrow> is_obj x \<and> g (enum_of x k) = Inr u"
  by (auto simp: bindE_eq_Inr enum_item_Inr enum_get_Inr)

lemma then_text:
  "bindE (py_item x k) (\<lambda>v. bindE (envelope_text v f) (\<lambda>_. r)) = Inr u \<longleftrightarrow> text_field x k \<and> r = Inr u"
  "bindE (py_get x k JNull) (\<lambda>v. bindE (envelope_text v f) (\<lambda>_. r)) = Inr u \<longleftrightarrow> text_field x k \<and> r = Inr u"
  by (cases x; auto simp: bindE_eq_Inr py_item_field py_get_def text_field_def envelope_text_Inr
      split: option.splits)+

lemma then_texts:
  "bindE (py_item x k) (\<lambda>v. bindE (string_list v f a) g) = Inr u \<longleftrightarrow>
     (\<exists>ts. texts_field x k ts \<and> (a \<or> ts \<noteq> []) \<and> g ts = Inr u)"
  "bindE (py_get x k JNull) (\<lambda>v. bindE (string_list v f a) g) = Inr u \<longleftrightarrow>
     (\<exists>ts. texts_field x k ts \<and> (a \<or> ts \<noteq> []) \<and> g ts = Inr u)"
  by (cases x; auto simp: bindE_eq_Inr py_item_field py_get_def texts_field_def string_list_Inr
      split: option.splits)+

lemma then_bool:
  "bindE (py_get x k JNull) (\<lambda>v. bindE (guardE (is_bool v) er) (\<lambda>_. r)) = Inr u \<longleftrightarrow> bool_field x k \<and> r = Inr u"
  "bindE (py_item x k) (\<lambda>v. guardE (is_bool v) er) = Inr u \<longleftrightarrow> bool_field x k"
  by (cases x; auto simp: bindE_eq_Inr guard_passed py_item_field py_get_def bool_field_def is_bool_obtain
      split: option.splits)+

lemma then_true:
  "bindE (py_get x k JNull) (\<lambda>v. guardE (v = JBool True \<or> b) er) = Inr u \<longleftrightarrow>
     is_obj x \<and> (field x k = Some (JBool True) \<or> b)"
  by (cases x; auto simp: bindE_eq_Inr guard_passed py_get_def split: option.splits)

lemmas validation_steps = then_guard then_text then_texts then_bool then_true then_enum

lemma fields_obj: "text_field x k \<Longrightarrow> is_obj x" "texts_field x k ts \<Longrightarrow> is_obj x" "bool_field x k \<Longrightarrow> is_obj x"
  by (auto simp: text_field_def texts_field_def bool_field_def dest: field_obj)

lemma fields_present:
  "text_field x k \<Longrightarrow> field x k \<noteq> None" "texts_field x k ts \<Longrightarrow> field x k \<noteq> None" "bool_field x k \<Longrightarrow> field x k \<noteq> None"
  by (auto simp: text_field_def texts_field_def bool_field_def)

lemma enum_present: "enum_of x k \<noteq> [] \<Longrightarrow> field x k \<noteq> None"
  by (auto simp: enum_of_def split: option.splits)

lemma vocabulary_texts:
  "[] \<notin> set TRUTH_TYPES" "[] \<notin> set EVIDENCE_POSTURES" "[] \<notin> set ENVELOPE_ACTION_CLASSES" "[] \<notin> set OUTCOME_CLASSES"
  by (simp_all add: TRUTH_TYPES_def EVIDENCE_POSTURES_def ENVELOPE_ACTION_CLASSES_def OUTCOME_CLASSES_def)

lemma listed_present: "enum_of x k \<in> set xs \<Longrightarrow> [] \<notin> set xs \<Longrightarrow> field x k \<noteq> None"
  using enum_present by metis

lemma validate_claim_Inr: "validate_claim i c = Inr u \<longleftrightarrow> well_formed_claim c"
proof
  assume "validate_claim i c = Inr u"
  then show "well_formed_claim c"
    unfolding validate_claim_def Let_def validation_steps well_formed_claim_def
    by (auto simp: EVIDENCE_POSTURES_def)
next
  assume w: "well_formed_claim c"
  then have "missing_keys CLAIM_FIELDS c = []"
    unfolding missing_Nil CLAIM_FIELDS_def well_formed_claim_def
    using listed_present [OF _ vocabulary_texts(1)] listed_present [OF _ vocabulary_texts(2)]
    by (auto dest: fields_present)
  with w show "validate_claim i c = Inr u"
    unfolding validate_claim_def Let_def validation_steps well_formed_claim_def
    using listed_present [OF _ vocabulary_texts(1)] listed_present [OF _ vocabulary_texts(2)]
    by (auto dest: fields_obj)
qed

lemma validate_authority_Inr: "validate_authority a = Inr u \<longleftrightarrow> well_formed_authority a"
  unfolding validate_authority_def validation_steps well_formed_authority_def by (auto dest: fields_obj)

lemma validate_outcome_Inr:
  "(\<exists>oc. validate_intent i = Inr oc \<and> validate_acceptance oc x = Inr u) \<longleftrightarrow> well_formed_outcome i x"
  unfolding validate_intent_def validate_acceptance_def validation_steps well_formed_outcome_def
  by (auto dest: fields_obj)

lemma validate_dependencies_Inr:
  "validate_dependencies d = Inr u \<longleftrightarrow> (\<forall>side \<in> {''upstream'', ''downstream''}. \<exists>refs. texts_field d side refs)"
  unfolding validate_dependencies_def then_guard each_from_ball then_texts
  by (auto dest: fields_obj fields_present)

lemma validate_owners_Inr:
  "validate_owners x = Inr u \<longleftrightarrow> (\<forall>plane \<in> set TRUTH_PLANES. text_field x plane)"
  unfolding validate_owners_def then_guard each_from_ball then_text
  by (auto simp: TRUTH_PLANES_def dest: fields_obj)

lemma validate_next_Inr:
  "validate_next_dependency d = Inr u \<longleftrightarrow> enum_of d ''state'' \<in> set NEXT_DEPENDENCY_STATES
     \<and> text_field d ''description'' \<and> text_field d ''source_ref''"
  unfolding validate_next_dependency_def validation_steps by (auto dest: fields_obj)

lemma validate_functions_Inr:
  "validate_functions e = Inr u \<longleftrightarrow> (\<exists>required invoked. texts_field e ''required_functions'' required
     \<and> required \<noteq> [] \<and> texts_field e ''invoked_functions'' invoked \<and> set required \<subseteq> set invoked)"
  unfolding validate_functions_def Let_def validation_steps
  by (auto simp: guard_passed filter_empty_conv)

lemma validate_claims_Inr: "each_from validate_claim n cs = Inr u \<longleftrightarrow> list_all well_formed_claim cs"
  by (simp add: each_from_Inr validate_claim_Inr list_all_length)

lemma then_unit: "bindE r (\<lambda>_. g) = Inr u \<longleftrightarrow> r = Inr () \<and> g = Inr u" for r :: "unit res"
  by (cases r) auto

lemma well_formed_keys: "well_formed_envelope e \<Longrightarrow> is_obj e \<and> missing_keys ENVELOPE_FIELDS e = []"
  unfolding well_formed_envelope_def missing_Nil ENVELOPE_FIELDS_def
  by (auto dest: fields_obj fields_present)

lemma then_result:
  "bindE (validate_intent i) g = Inr u \<longleftrightarrow> (\<exists>oc. validate_intent i = Inr oc \<and> g oc = Inr u)"
  "bindE (claim_list v) h = Inr w \<longleftrightarrow> (\<exists>cs. v = JList cs \<and> cs \<noteq> [] \<and> h cs = Inr w)"
  by (auto simp: bindE_eq_Inr claim_list_Inr)

lemma validation_checks:
  "validate_execution_envelope e = Inr True \<longleftrightarrow>
     is_obj e \<and> missing_keys ENVELOPE_FIELDS e = [] \<and> well_formed_envelope e"
  unfolding validate_execution_envelope_def Let_def then_guard then_text then_texts then_unit then_result
    then_item [of e "''intent''"] then_item [of e "''dependencies''"] then_item [of e "''truth_owners''"]
    then_item [of e "''claims''"] then_item [of e "''authority''"] then_item [of e "''acceptance''"]
    then_item [of e "''next_causal_dependency''"]
    validate_claims_Inr validate_functions_Inr validate_authority_Inr validate_next_Inr
    validate_dependencies_Inr validate_owners_Inr well_formed_envelope_def validate_outcome_Inr [of _ _ "()", symmetric]
    guard_passed
  by blast

lemma validate_envelope_Inr: "validate_execution_envelope e = Inr True \<longleftrightarrow> well_formed_envelope e"
  unfolding validation_checks using well_formed_keys by blast


subsection \<open>The gate is total and exact\<close>

definition claim_admissible :: "json \<Rightarrow> bool" where
  "claim_admissible c \<longleftrightarrow>
     \<not> (field c ''blocking'' = Some (JBool True) \<and> enum_of c ''evidence_posture'' \<in> set BLOCKING_POSTURES)
     \<and> \<not> (enum_of c ''truth_type'' = ''CURRENT_FACT''
          \<and> enum_of c ''evidence_posture'' \<in> {''STALE'', ''ASSUMED'', ''UNKNOWN''})"

definition authority_admissible :: "json \<Rightarrow> bool" where
  "authority_admissible a \<longleftrightarrow>
     (enum_of a ''action_class'' = ''READ_ONLY'' \<or> field a ''authorized'' = Some (JBool True))
     \<and> (enum_of a ''action_class'' = ''IRREVERSIBLE'' \<longrightarrow> field a ''requires_human'' = Some (JBool True))"

definition envelope_admissible :: "json \<Rightarrow> bool" where
  "envelope_admissible e \<longleftrightarrow>
     (case (field e ''claims'', field e ''authority'') of
        (Some (JList claims), Some a) \<Rightarrow> list_all claim_admissible claims \<and> authority_admissible a
      | _ \<Rightarrow> False)"

lemma claim_blockers_total:
  assumes "validate_claim i c = Inr ()"
  shows "\<exists>bs. claim_blockers j c = Inr bs \<and> (bs = [] \<longleftrightarrow> claim_admissible c)"
proof -
  note v = valid_claim_fields [OF assms]
  from v(3) obtain b where "field c ''blocking'' = Some (JBool b)" ..
  then show ?thesis using v(1,2)
    by (auto simp: claim_blockers_def enum_item_Inr [THEN iffD2] py_item_field [THEN iffD2] claim_admissible_def)
qed

lemma all_claim_blockers_total:
  "\<forall>i < length cs. validate_claim (n + i) (cs ! i) = Inr () \<Longrightarrow>
     \<exists>bs. all_claim_blockers n cs = Inr bs \<and> (bs = [] \<longleftrightarrow> list_all claim_admissible cs)"
proof (induction cs arbitrary: n)
  case (Cons c cs)
  have "validate_claim (n + 0) ((c # cs) ! 0) = Inr ()" using Cons.prems by blast
  then obtain xs where "claim_blockers n c = Inr xs" "xs = [] \<longleftrightarrow> claim_admissible c"
    using claim_blockers_total [of n c n] by auto
  moreover have "\<forall>i < length cs. validate_claim (Suc n + i) (cs ! i) = Inr ()" using Cons.prems by auto
  ultimately show ?case using Cons.IH [of "Suc n"] by auto
qed simp

lemma authority_blockers_total:
  assumes "validate_authority a = Inr ()"
  shows "\<exists>bs. authority_blockers a = Inr bs \<and> (bs = [] \<longleftrightarrow> authority_admissible a)"
proof -
  note v = valid_authority_fields [OF assms]
  from v(1,2) obtain b c where "field a ''authorized'' = Some (JBool b)" "field a ''requires_human'' = Some (JBool c)"
    by blast
  then show ?thesis using v(4)
    by (auto simp: authority_blockers_def enum_item_Inr [THEN iffD2] py_item_field [THEN iffD2]
        authority_admissible_def)
qed

lemma fromkeys_Nil_iff [simp]: "fromkeys xs = [] \<longleftrightarrow> xs = []"
  using set_fromkeys [of xs] by (metis set_empty)

lemma gate_validated_total:
  assumes "validate_execution_envelope e = Inr b"
  shows "\<exists>r. gate_validated sha e = Inr r \<and> gr_valid r \<and> gr_envelope_fingerprint r = Some (sha (canonical e))
    \<and> (gr_execution_allowed r \<longleftrightarrow> envelope_admissible e) \<and> (gr_blockers r = [] \<longleftrightarrow> envelope_admissible e)"
proof -
  obtain claims authority where v:
    "field e ''claims'' = Some (JList claims)" "\<forall>i < length claims. validate_claim (0 + i) (claims ! i) = Inr ()"
    "field e ''authority'' = Some authority" "validate_authority authority = Inr ()"
    by (rule valid_envelope [OF assms]) (simp only: add_0)
  from all_claim_blockers_total [OF v(2)] authority_blockers_total [OF v(4)] obtain b1 b2 where
    "all_claim_blockers 0 claims = Inr b1" "b1 = [] \<longleftrightarrow> list_all claim_admissible claims"
    "authority_blockers authority = Inr b2" "b2 = [] \<longleftrightarrow> authority_admissible authority" by blast
  then show ?thesis using v(1,3) assms
    by (simp add: gate_validated_def py_item_field [THEN iffD2] envelope_fingerprint_def envelope_admissible_def)
qed

lemma gate_total:
  "\<exists>r. evaluate_execution_envelope sha e = Inr r
     \<and> (gr_valid r \<longleftrightarrow> validate_execution_envelope e = Inr True)
     \<and> (gr_execution_allowed r \<longleftrightarrow> validate_execution_envelope e = Inr True \<and> envelope_admissible e)
     \<and> (gr_envelope_fingerprint r = (if gr_valid r then Some (sha (canonical e)) else None))
     \<and> (gr_execution_allowed r \<longleftrightarrow> gr_blockers r = [])"
proof (cases "validate_execution_envelope e")
  case (Inl err)
  with validate_envelope_fails [of e] have "exc_cls err = ExecutionEnvelopeError" by (simp add: fails_in_def)
  with Inl show ?thesis by (simp add: evaluate_execution_envelope_def)
next
  case (Inr b)
  with valid_envelope [OF Inr] have "b" by blast
  from gate_validated_total [OF Inr, of sha] obtain r where
    "gate_validated sha e = Inr r" "gr_valid r" "gr_envelope_fingerprint r = Some (sha (canonical e))"
    "gr_execution_allowed r \<longleftrightarrow> envelope_admissible e" "gr_blockers r = [] \<longleftrightarrow> envelope_admissible e" by blast
  with Inr \<open>b\<close> show ?thesis by (simp add: evaluate_execution_envelope_def)
qed

text \<open>
  C30. The execution gate answers on every value. It is valid exactly when validation passes, which is
  exactly when the envelope is well formed in all its parts, and then carries the fingerprint of the
  envelope; execution is allowed exactly when moreover no blocking
  claim is merely claimed, assumed, stale or unknown, no material current fact is stale, assumed or
  unknown, a stateful action is authorized and an irreversible one requires a human; and it is
  allowed exactly when no blocker is reported.
\<close>

theorem execution_gate_exact:
  "\<exists>r. evaluate_execution_envelope sha e = Inr r
     \<and> (gr_valid r \<longleftrightarrow> validate_execution_envelope e = Inr True)
     \<and> (gr_execution_allowed r \<longleftrightarrow> validate_execution_envelope e = Inr True \<and> envelope_admissible e)
     \<and> (gr_envelope_fingerprint r = (if gr_valid r then Some (sha (canonical e)) else None))
     \<and> (gr_execution_allowed r \<longleftrightarrow> gr_blockers r = [])
     \<and> (validate_execution_envelope e = Inr True \<longleftrightarrow> well_formed_envelope e)"
  using gate_total [of sha e] validate_envelope_Inr [of e] by blast

lemma require_permit_Inr:
  "require_execution_permit sha e = Inr g \<Longrightarrow> validate_execution_envelope e = Inr True \<and> envelope_admissible e
     \<and> gr_envelope_fingerprint g = Some (sha (canonical e)) \<and> evaluate_execution_envelope sha e = Inr g"
  using gate_total [of sha e]
  by (auto simp: require_execution_permit_def bindE_eq_Inr guard_passed split: if_splits)

lemma require_permit_total:
  assumes "validate_execution_envelope e = Inr True" and "envelope_admissible e"
  shows "\<exists>g. require_execution_permit sha e = Inr g \<and> gr_envelope_fingerprint g = Some (sha (canonical e))"
  using gate_total [of sha e] assms by (auto simp: require_execution_permit_def)

text \<open>
  A null state of the next causal dependency reads as the text None, whose upper case is the admitted
  state NONE.
\<close>

lemma null_state_is_none:
  "enum_get (JObj [(''state'', JNull)]) ''state'' = Inr ''NONE''"
  by code_simp

end
