(* ===== verification/Trusted_Context.thy ===== *)
theory Trusted_Context
  imports Envelope "HOL-Library.AList"
begin

text \<open>
  \<open>governance/trusted_context.py\<close>: snapshots of trusted context read from a store that a trusted process
  writes, the cross-check of an execution envelope against one, and trusted approvals. Instants are
  integers; \<open>parse_iso\<close> stands for \<open>datetime.fromisoformat\<close>.
\<close>

abbreviation context_error :: "string \<Rightarrow> exc" where
  "context_error msg \<equiv> Raise TrustedContextError msg"

subsection \<open>Reading fields\<close>

fun context_text :: "json \<Rightarrow> string \<Rightarrow> string res" where
  "context_text (JStr s) f =
     (if strip s = [] then Inl (context_error (f @ '' must be non-empty text'')) else Inr (strip s))"
| "context_text _ f = Inl (context_error (f @ '' must be non-empty text''))"

text \<open>A frozenset is the list of its elements, which the check for duplicates makes distinct.\<close>

fun text_set :: "json \<Rightarrow> string \<Rightarrow> bool \<Rightarrow> string list res" where
  "text_set (JList vs) f allow_empty =
     bindE (mapE (\<lambda>item. context_text item f) vs) (\<lambda>values.
     bindE (guardE (distinct values) (context_error (f @ '' contains duplicates''))) (\<lambda>_.
     bindE (guardE (allow_empty \<or> values \<noteq> []) (context_error (f @ '' must not be empty''))) (\<lambda>_.
     Inr values)))"
| "text_set _ f allow_empty = Inl (context_error (f @ '' must be a list''))"

definition timestamp :: "(string \<Rightarrow> stamp option) \<Rightarrow> json \<Rightarrow> string \<Rightarrow> int res" where
  "timestamp parse_iso value f =
     bindE (context_text value f) (\<lambda>text.
     case parse_iso (zulu text) of
       None \<Rightarrow> Inl (context_error (f @ '' must be ISO-8601''))
     | Some (Naive n) \<Rightarrow> Inl (context_error (f @ '' must include timezone''))
     | Some (Aware n) \<Rightarrow> Inr n)"

subsection \<open>Approvals and authority profiles\<close>

record trusted_approval =
  ta_intent_fingerprint :: string
  ta_source_ref :: string

text \<open>The loop over the records, with the index of the first and the approvals read so far.\<close>

fun approval_loop ::
  "nat \<Rightarrow> (string \<times> trusted_approval) list \<Rightarrow> json list \<Rightarrow> (string \<times> trusted_approval) list res" where
  "approval_loop index approvals [] = Inr approvals"
| "approval_loop index approvals (item # items) =
     (let f = ''approvals['' @ show_nat index @ '']'' in
      bindE (guardE (is_obj item) (context_error (f @ '' must be an object''))) (\<lambda>_.
      bindE (py_get item ''approval_id'' JNull) (\<lambda>v.
      bindE (context_text v (f @ ''.approval_id'')) (\<lambda>approval_id.
      bindE (guardE (map_of approvals approval_id = None)
        (context_error (''duplicate trusted approval_id: '' @ approval_id))) (\<lambda>_.
      bindE (py_get item ''intent_fingerprint'' JNull) (\<lambda>v.
      bindE (context_text v (f @ ''.intent_fingerprint'')) (\<lambda>fp.
      bindE (py_get item ''source_ref'' JNull) (\<lambda>v.
      bindE (context_text v (f @ ''.source_ref'')) (\<lambda>src.
      approval_loop (Suc index)
        (approvals @ [(approval_id, \<lparr>ta_intent_fingerprint = fp, ta_source_ref = src\<rparr>)]) items)))))))))"

fun approval_records :: "json \<Rightarrow> (string \<times> trusted_approval) list res" where
  "approval_records (JList vs) = approval_loop 0 [] vs"
| "approval_records _ = Inl (context_error ''approvals must be a list'')"

record authority_profile =
  pr_requires_human :: bool
  pr_source_refs :: "string list"

fun as_bool :: "json \<Rightarrow> bool option" where
  "as_bool (JBool b) = Some b"
| "as_bool _ = None"

fun profile_loop ::
  "string \<Rightarrow> (string \<times> authority_profile) list \<Rightarrow> (string \<times> json) list
     \<Rightarrow> (string \<times> authority_profile) list res" where
  "profile_loop f profiles [] = Inr profiles"
| "profile_loop f profiles ((raw_class, raw_profile) # items) =
     bindE (context_text (JStr raw_class) f) (\<lambda>t.
     let action_class = upper t in
     bindE (guardE (action_class \<in> set ENVELOPE_ACTION_CLASSES \<and> action_class \<noteq> ''READ_ONLY'')
       (context_error (f @ '' contains unsupported stateful action class: '' @ action_class))) (\<lambda>_.
     bindE (guardE (map_of profiles action_class = None)
       (context_error (f @ '' contains duplicate normalized action class: '' @ action_class))) (\<lambda>_.
     bindE (guardE (is_obj raw_profile)
       (context_error (f @ ''.'' @ action_class @ '' must be an object''))) (\<lambda>_.
     bindE (py_get raw_profile ''requires_human'' JNull) (\<lambda>v.
     case as_bool v of
       None \<Rightarrow> Inl (context_error (f @ ''.'' @ action_class @ ''.requires_human must be bool''))
     | Some requires_human \<Rightarrow>
         bindE (py_get raw_profile ''source_refs'' JNull) (\<lambda>v.
         bindE (text_set v (f @ ''.'' @ action_class @ ''.source_refs'') False) (\<lambda>source_refs.
         profile_loop f (profiles @ [(action_class,
             \<lparr>pr_requires_human = requires_human, pr_source_refs = source_refs\<rparr>)]) items)))))))"

fun authority_profiles :: "json \<Rightarrow> string \<Rightarrow> (string \<times> authority_profile) list res" where
  "authority_profiles (JObj (kv # kvs)) f = profile_loop f [] (kv # kvs)"
| "authority_profiles _ f = Inl (context_error (f @ '' must be a non-empty object''))"

subsection \<open>Policies and snapshots\<close>

record policy =
  po_required_functions :: "string list"
  po_upstream :: "string list"
  po_downstream :: "string list"
  po_allowed_outcome_classes :: "string list"
  po_authority_by_action_class :: "(string \<times> authority_profile) list"

record trusted_snapshot =
  ts_snapshot_id :: string
  ts_source_fingerprint :: string
  ts_observed_at :: int
  ts_expires_at :: int
  ts_retained_scope_refs :: "string list"
  ts_truth_owners :: "(string \<times> string) list"
  ts_policies :: "(string \<times> policy) list"
  ts_approvals :: "(string \<times> trusted_approval) list"
  ts_fingerprint :: string

definition read_policy :: "string \<Rightarrow> json \<Rightarrow> policy res" where
  "read_policy active_object policy =
     (let at = ''policies.'' @ active_object in
      bindE (guardE (is_obj policy)
        (context_error (''policy for '' @ active_object @ '' must be an object''))) (\<lambda>_.
      bindE (py_get policy ''required_functions'' JNull) (\<lambda>v.
      bindE (text_set v (at @ ''.required_functions'') False) (\<lambda>required_functions.
      bindE (py_get policy ''required_dependencies'' JNull) (\<lambda>deps.
      bindE (guardE (is_obj deps)
        (context_error (at @ ''.required_dependencies must be an object''))) (\<lambda>_.
      bindE (py_get deps ''upstream'' (JList [])) (\<lambda>v.
      bindE (text_set v (at @ ''.required_dependencies.upstream'') True) (\<lambda>upstream.
      bindE (py_get deps ''downstream'' (JList [])) (\<lambda>v.
      bindE (text_set v (at @ ''.required_dependencies.downstream'') True) (\<lambda>downstream.
      bindE (py_get policy ''allowed_outcome_classes'' JNull) (\<lambda>v.
      bindE (text_set v (at @ ''.allowed_outcome_classes'') False) (\<lambda>outcomes.
      bindE (py_get policy ''authority_by_action_class'' JNull) (\<lambda>v.
      bindE (authority_profiles v (at @ ''.authority_by_action_class'')) (\<lambda>profiles.
      Inr \<lparr>po_required_functions = required_functions, po_upstream = upstream, po_downstream = downstream,
            po_allowed_outcome_classes = fromkeys (map upper outcomes),
            po_authority_by_action_class = profiles\<rparr>))))))))))))))"

text \<open>A later policy whose trimmed name is already present replaces the earlier one.\<close>

fun policy_loop ::
  "(string \<times> policy) list \<Rightarrow> (string \<times> json) list \<Rightarrow> (string \<times> policy) list res" where
  "policy_loop policies [] = Inr policies"
| "policy_loop policies ((active_object, policy) # items) =
     bindE (context_text (JStr active_object) ''policies.active_object'') (\<lambda>active_object.
     bindE (read_policy active_object policy) (\<lambda>p.
     policy_loop (AList.update active_object p policies) items))"

fun read_policies :: "json \<Rightarrow> (string \<times> policy) list res" where
  "read_policies (JObj (kv # kvs)) = policy_loop [] (kv # kvs)"
| "read_policies _ = Inl (context_error ''policies must be a non-empty object'')"

definition read_owners :: "json \<Rightarrow> (string \<times> string) list res" where
  "read_owners owners =
     bindE (guardE (is_obj owners) (context_error ''truth_owners must be an object'')) (\<lambda>_.
     mapE (\<lambda>plane.
       bindE (py_get owners plane JNull) (\<lambda>v.
       bindE (context_text v (''truth_owners.'' @ plane)) (\<lambda>t. Inr (plane, t)))) TRUTH_PLANES)"

definition SNAPSHOT_FIELDS :: "string list" where
  "SNAPSHOT_FIELDS = [''snapshot_id'', ''source_fingerprint'', ''observed_at'', ''expires_at'',
     ''retained_scope_refs'', ''truth_owners'', ''policies'', ''approvals'']"

definition validate_trusted_context_snapshot ::
  "(string \<Rightarrow> string) \<Rightarrow> (string \<Rightarrow> stamp option) \<Rightarrow> json \<Rightarrow> trusted_snapshot res" where
  "validate_trusted_context_snapshot sha parse_iso raw =
     bindE (guardE (is_obj raw) (context_error ''trusted context snapshot must be an object'')) (\<lambda>_.
     let missing = missing_keys SNAPSHOT_FIELDS raw in
     bindE (guardE (missing = [])
       (context_error (''trusted context snapshot missing '' @ show_sorted missing))) (\<lambda>_.
     bindE (py_item raw ''snapshot_id'') (\<lambda>v.
     bindE (context_text v ''snapshot_id'') (\<lambda>snapshot_id.
     bindE (py_item raw ''source_fingerprint'') (\<lambda>v.
     bindE (context_text v ''source_fingerprint'') (\<lambda>source_fingerprint.
     bindE (py_item raw ''observed_at'') (\<lambda>v.
     bindE (timestamp parse_iso v ''observed_at'') (\<lambda>observed_at.
     bindE (py_item raw ''expires_at'') (\<lambda>v.
     bindE (timestamp parse_iso v ''expires_at'') (\<lambda>expires_at.
     bindE (guardE (observed_at < expires_at)
       (context_error ''expires_at must be after observed_at'')) (\<lambda>_.
     bindE (py_item raw ''retained_scope_refs'') (\<lambda>v.
     bindE (text_set v ''retained_scope_refs'' False) (\<lambda>retained_scope_refs.
     bindE (py_item raw ''truth_owners'') (\<lambda>v.
     bindE (read_owners v) (\<lambda>truth_owners.
     bindE (py_item raw ''policies'') (\<lambda>v.
     bindE (read_policies v) (\<lambda>policies.
     bindE (py_item raw ''approvals'') (\<lambda>v.
     bindE (approval_records v) (\<lambda>approvals.
     Inr \<lparr>ts_snapshot_id = snapshot_id, ts_source_fingerprint = source_fingerprint,
           ts_observed_at = observed_at, ts_expires_at = expires_at,
           ts_retained_scope_refs = retained_scope_refs, ts_truth_owners = truth_owners,
           ts_policies = policies, ts_approvals = approvals,
           ts_fingerprint = sha (canonical raw)\<rparr>)))))))))))))))))))"

subsection \<open>Cross-check of an envelope\<close>

text \<open>\<open>str(x[k]).strip()\<close> and the set \<open>{str(item).strip() for item in x[k]}\<close>.\<close>

definition text_item :: "json \<Rightarrow> string \<Rightarrow> string res" where
  "text_item x k = bindE (py_item x k) (\<lambda>v. Inr (strip (py_str v)))"

definition text_items :: "json \<Rightarrow> string \<Rightarrow> string list res" where
  "text_items x k = bindE (py_item x k) (\<lambda>v. bindE (py_iter v) (\<lambda>vs. Inr (fromkeys (map (strip \<circ> py_str) vs))))"

definition minus_texts :: "string list \<Rightarrow> string list \<Rightarrow> string list" where
  "minus_texts xs ys = filter (\<lambda>x. x \<notin> set ys) xs"

definition check_required_dependencies :: "policy \<Rightarrow> json \<Rightarrow> unit res" where
  "check_required_dependencies policy dependencies =
     each_from (\<lambda>_ (side, needed).
       bindE (text_items dependencies side) (\<lambda>actual.
       let missing = minus_texts needed actual in
       guardE (missing = []) (context_error (''envelope omitted required '' @ side @ '' dependencies: ''
         @ show_sorted missing)))) 0
       [(''upstream'', po_upstream policy), (''downstream'', po_downstream policy)]"

definition check_authority :: "policy \<Rightarrow> string \<Rightarrow> json \<Rightarrow> unit res" where
  "check_authority policy active_object authority =
     bindE (enum_item authority ''action_class'') (\<lambda>action_class.
     case map_of (po_authority_by_action_class policy) action_class of
       None \<Rightarrow> Inl (context_error (''action class '' @ action_class
                  @ '' has no trusted authority for active_object '' @ active_object))
     | Some profile \<Rightarrow>
         bindE (py_item authority ''requires_human'') (\<lambda>v.
         bindE (guardE (v = JBool (pr_requires_human profile))
           (context_error (''human approval requirement mismatch for action class '' @ action_class))) (\<lambda>_.
         bindE (text_item authority ''source_ref'') (\<lambda>source_ref.
         guardE (source_ref \<in> set (pr_source_refs profile))
           (context_error (''authority source is not trusted for action class '' @ action_class
              @ '': '' @ source_ref))))))"

definition check_owners :: "(string \<times> string) list \<Rightarrow> json \<Rightarrow> unit res" where
  "check_owners truth_owners owners =
     each_from (\<lambda>_ plane.
       bindE (text_item owners plane) (\<lambda>t.
       case map_of truth_owners plane of
         None \<Rightarrow> Inl (Raise PyKeyError (repr_text plane))
       | Some owner \<Rightarrow>
           guardE (t = owner) (context_error (''truth owner mismatch for '' @ plane)))) 0 TRUTH_PLANES"

text \<open>The checks of an envelope against the policy of its active object.\<close>

definition check_policy :: "trusted_snapshot \<Rightarrow> policy \<Rightarrow> string \<Rightarrow> json \<Rightarrow> unit res" where
  "check_policy snapshot policy active_object envelope =
     bindE (text_items envelope ''retained_scope_refs'') (\<lambda>scope.
     bindE (guardE (set scope = set (ts_retained_scope_refs snapshot))
       (context_error (''retained scope does not match trusted snapshot missing=''
          @ show_sorted (minus_texts (ts_retained_scope_refs snapshot) scope) @ '' extra=''
          @ show_sorted (minus_texts scope (ts_retained_scope_refs snapshot))))) (\<lambda>_.
     bindE (py_item envelope ''truth_owners'') (\<lambda>owners.
     bindE (check_owners (ts_truth_owners snapshot) owners) (\<lambda>_.
     bindE (text_items envelope ''required_functions'') (\<lambda>required_functions.
     let missing_functions = minus_texts (po_required_functions policy) required_functions in
     bindE (guardE (missing_functions = [])
       (context_error (''envelope omitted canonically required functions: ''
          @ show_sorted missing_functions))) (\<lambda>_.
     bindE (py_item envelope ''dependencies'') (\<lambda>dependencies.
     bindE (check_required_dependencies policy dependencies) (\<lambda>_.
     bindE (py_item envelope ''intent'') (\<lambda>intent.
     bindE (enum_item intent ''outcome_class'') (\<lambda>outcome.
     bindE (guardE (outcome \<in> set (po_allowed_outcome_classes policy))
       (context_error (''outcome class '' @ outcome @ '' is not allowed for active_object ''
          @ active_object))) (\<lambda>_.
     bindE (py_item envelope ''authority'') (\<lambda>authority.
     check_authority policy active_object authority))))))))))))"

text \<open>\<open>now\<close> is the argument, \<open>clock\<close> the current instant that stands in for an absent one.\<close>

definition crosscheck_execution_envelope ::
  "int \<Rightarrow> json \<Rightarrow> trusted_snapshot \<Rightarrow> stamp option \<Rightarrow> trusted_snapshot res" where
  "crosscheck_execution_envelope clock envelope snapshot now =
     bindE (validate_execution_envelope envelope) (\<lambda>_.
     bindE (case now of None \<Rightarrow> Inr clock | Some (Aware n) \<Rightarrow> Inr n
            | Some (Naive n) \<Rightarrow> Inl (context_error ''now must include timezone'')) (\<lambda>now.
     bindE (guardE (now \<le> ts_expires_at snapshot)
       (context_error ''trusted context snapshot is expired'')) (\<lambda>_.
     bindE (text_item envelope ''active_object'') (\<lambda>active_object.
     bindE (case map_of (ts_policies snapshot) active_object of
              None \<Rightarrow> Inl (context_error (''active_object has no trusted policy: '' @ active_object))
            | Some policy \<Rightarrow> check_policy snapshot policy active_object envelope) (\<lambda>_.
     Inr snapshot)))))"

definition require_trusted_approval ::
  "trusted_snapshot \<Rightarrow> string \<Rightarrow> string \<Rightarrow> string \<Rightarrow> trusted_approval res" where
  "require_trusted_approval snapshot approval_id fingerprint source_ref =
     bindE (context_text (JStr approval_id) ''approval.approval_id'') (\<lambda>approval_id.
     bindE (context_text (JStr fingerprint) ''approval.intent_fingerprint'') (\<lambda>fingerprint.
     bindE (context_text (JStr source_ref) ''approval.source_ref'') (\<lambda>source_ref.
     case map_of (ts_approvals snapshot) approval_id of
       None \<Rightarrow> Inl (context_error (''approval is not present in trusted context: '' @ approval_id))
     | Some trusted \<Rightarrow>
         bindE (guardE (ta_intent_fingerprint trusted = fingerprint)
           (context_error (''trusted approval intent mismatch: '' @ approval_id))) (\<lambda>_.
         bindE (guardE (ta_source_ref trusted = source_ref)
           (context_error (''trusted approval source mismatch: '' @ approval_id))) (\<lambda>_.
         Inr trusted)))))"

subsection \<open>The snapshot store\<close>

text \<open>
  What \<open>get\<close> finds at its path: no file, a file the system cannot read, or the bytes of one. Bytes
  that are no UTF-8 raise \<open>UnicodeDecodeError\<close>, a ValueError that \<open>get\<close> does not convert.
\<close>

datatype store_file = Absent | Unreadable | Contents string

definition snapshot_items :: "json \<Rightarrow> json list res" where
  "snapshot_items raw =
     (case field raw ''snapshots'' of
        Some (JList items) \<Rightarrow> Inr items
      | _ \<Rightarrow> Inl (context_error ''trusted context snapshot store must contain snapshots list''))"

definition current_id :: "json \<Rightarrow> json list \<Rightarrow> string res" where
  "current_id raw snapshots =
     bindE (py_get raw ''current_snapshot_id'' JNull) (\<lambda>raw_current.
     if raw_current = JNull then
       (case snapshots of
          [only] \<Rightarrow>
            bindE (guardE (is_obj only)
              (context_error ''trusted context snapshot store contains invalid snapshot'')) (\<lambda>_.
            bindE (py_get only ''snapshot_id'' JNull) (\<lambda>v. context_text v ''snapshots[0].snapshot_id''))
        | _ \<Rightarrow> Inl (context_error ''multi-snapshot trusted context store requires current_snapshot_id''))
     else context_text raw_current ''current_snapshot_id'')"

definition store_raw :: "store_file \<Rightarrow> json res" where
  "store_raw store =
     (case store of
        Absent \<Rightarrow> Inl (context_error ''trusted context snapshot store is unavailable'')
      | Unreadable \<Rightarrow> Inl (context_error ''trusted context snapshot store is unreadable'')
      | Contents bytes \<Rightarrow>
          (case utf8_decode bytes of
             None \<Rightarrow> Inl (Raise PyValueError ''codec can't decode'')
           | Some text \<Rightarrow>
               (case loads text of
                  None \<Rightarrow> Inl (context_error ''trusted context snapshot store is unreadable'')
                | Some raw \<Rightarrow> Inr raw)))"

definition pick_current ::
  "(string \<Rightarrow> string) \<Rightarrow> (string \<Rightarrow> stamp option) \<Rightarrow> string \<Rightarrow> json list \<Rightarrow> trusted_snapshot res" where
  "pick_current sha parse_iso c items =
     (case filter (\<lambda>item. field item ''snapshot_id'' = Some (JStr c)) items of
       [] \<Rightarrow> Inl (context_error (''current trusted context snapshot not found: '' @ c))
     | [item] \<Rightarrow> validate_trusted_context_snapshot sha parse_iso item
     | _ \<Rightarrow> Inl (context_error (''duplicate current trusted context snapshot: '' @ c)))"

definition provider_get ::
  "(string \<Rightarrow> string) \<Rightarrow> (string \<Rightarrow> stamp option) \<Rightarrow> store_file \<Rightarrow> string \<Rightarrow> trusted_snapshot res" where
  "provider_get sha parse_iso store snapshot_id =
     bindE (context_text (JStr snapshot_id) ''snapshot_id'') (\<lambda>snapshot_id.
     bindE (store_raw store) (\<lambda>raw.
     bindE (snapshot_items raw) (\<lambda>snapshots.
     bindE (current_id raw snapshots) (\<lambda>current_snapshot_id.
     bindE (guardE (snapshot_id = current_snapshot_id)
       (context_error (''trusted context snapshot is not current: '' @ snapshot_id))) (\<lambda>_.
     pick_current sha parse_iso current_snapshot_id snapshots)))))"

end
