(* ===== verification/Permit.thy ===== *)
theory Permit
  imports Trusted_Context
begin

text \<open>
  \<open>governance/execution_permit.py\<close>: one-time execution permits. A permit is a signed JSON payload in
  base64 that names the envelope, the snapshot and the action intent it is for; consuming it enters
  its id in a ledger.
\<close>

subsection \<open>Base64\<close>

text \<open>
  Bytes are characters. \<open>base64.urlsafe_b64encode\<close> and the decoder of \<open>binascii\<close> in its lenient mode,
  which skips characters outside the alphabet and stops at complete padding; its state is the place in
  the group of four, the bits carried over and the padding seen.
\<close>

definition b64_digit :: "nat \<Rightarrow> char" where
  "b64_digit n =
     (if n < 26 then char_of (65 + n) else if n < 52 then char_of (71 + n)
      else if n < 62 then char_of (n - 4) else if n = 62 then CHR ''-'' else CHR ''_'')"

definition b64_value :: "char \<Rightarrow> nat option" where
  "b64_value c = (let n = code c in
     if 65 \<le> n \<and> n \<le> 90 then Some (n - 65)
     else if 97 \<le> n \<and> n \<le> 122 then Some (n - 71)
     else if 48 \<le> n \<and> n \<le> 57 then Some (n + 4)
     else if n = 45 \<or> n = 43 then Some 62
     else if n = 95 \<or> n = 47 then Some 63
     else None)"

fun urlsafe_b64encode :: "string \<Rightarrow> string" where
  "urlsafe_b64encode [] = []"
| "urlsafe_b64encode [a] =
     [b64_digit (code a div 4), b64_digit (code a mod 4 * 16), CHR ''='', CHR ''='']"
| "urlsafe_b64encode [a, b] =
     [b64_digit (code a div 4), b64_digit (code a mod 4 * 16 + code b div 16),
      b64_digit (code b mod 16 * 4), CHR ''='']"
| "urlsafe_b64encode (a # b # c # cs) =
     b64_digit (code a div 4) # b64_digit (code a mod 4 * 16 + code b div 16)
     # b64_digit (code b mod 16 * 4 + code c div 64) # b64_digit (code c mod 64) # urlsafe_b64encode cs"

fun a2b_base64 :: "nat \<Rightarrow> nat \<Rightarrow> nat \<Rightarrow> string \<Rightarrow> string option" where
  "a2b_base64 quad_pos leftchar pads [] = (if quad_pos = 0 then Some [] else None)"
| "a2b_base64 quad_pos leftchar pads (c # cs) =
     (if c = CHR ''='' then
        (if 2 \<le> quad_pos \<and> 4 \<le> quad_pos + Suc pads then Some []
         else a2b_base64 quad_pos leftchar (if 2 \<le> quad_pos then Suc pads else pads) cs)
      else case b64_value c of
        None \<Rightarrow> a2b_base64 quad_pos leftchar pads cs
      | Some v \<Rightarrow>
          if quad_pos = 0 then a2b_base64 1 v 0 cs
          else if quad_pos = 1 then
            map_option ((#) (char_of (leftchar * 4 + v div 16))) (a2b_base64 2 (v mod 16) 0 cs)
          else if quad_pos = 2 then
            map_option ((#) (char_of (leftchar * 16 + v div 4))) (a2b_base64 3 (v mod 4) 0 cs)
          else map_option ((#) (char_of (leftchar * 64 + v))) (a2b_base64 0 0 0 cs))"

definition b64encode :: "string \<Rightarrow> string" where
  "b64encode data = rev (dropWhile (\<lambda>c. c = CHR ''='') (rev (urlsafe_b64encode data)))"

abbreviation permit_error :: "string \<Rightarrow> exc" where
  "permit_error msg \<equiv> Raise ExecutionPermitError msg"

definition b64decode :: "string \<Rightarrow> string res" where
  "b64decode value =
     (let padding = replicate ((4 - length value mod 4) mod 4) (CHR ''='') in
      if list_all (\<lambda>c. code c < 128) value then
        (case a2b_base64 0 0 0 (value @ padding) of
           None \<Rightarrow> Inl (permit_error ''malformed execution permit encoding'')
         | Some data \<Rightarrow> Inr data)
      else Inl (permit_error ''malformed execution permit encoding''))"

subsection \<open>The ledger\<close>

record permit_row =
  pl_permit_id :: string
  pl_consumed_at :: int
  pl_envelope_fingerprint :: string
  pl_action_intent_fingerprint :: string

type_synonym ledger = "permit_row list"

text \<open>
  One immediate transaction on the table; \<open>fault\<close> says that SQLite failed in it, which is reported
  and leaves the table as it was.
\<close>

definition ledger_consume :: "bool \<Rightarrow> permit_row \<Rightarrow> ledger \<Rightarrow> ledger res" where
  "ledger_consume fault row l =
     (if fault then Inl (permit_error ''permit ledger failed closed'')
      else if pl_permit_id row \<in> set (map pl_permit_id l) then
        Inl (permit_error ''execution permit has already been consumed'')
      else Inr (l @ [row]))"

subsection \<open>The permit authority\<close>

text \<open>
  \<open>sha\<close> is the hexadecimal SHA-256, \<open>mac\<close> the HMAC of a key and a message (bytes). The authority keeps
  its secret; its clock and the ledger are arguments.
\<close>

record issued_permit =
  ip_token :: string
  ip_permit_id :: string
  ip_issued_at :: int
  ip_expires_at :: int
  ip_envelope_fingerprint :: string
  ip_context_snapshot_fingerprint :: string
  ip_action_intent_fingerprint :: string
  ip_action_class :: string

record consumed_permit =
  cp_permit_id :: string
  cp_consumed_at :: int
  cp_envelope_fingerprint :: string
  cp_action_intent_fingerprint :: string

definition make_permit_authority :: "string \<Rightarrow> string res" where
  "make_permit_authority secret =
     bindE (guardE (32 \<le> length secret)
       (permit_error ''execution permit secret must be at least 32 bytes'')) (\<lambda>_. Inr secret)"

definition PERMIT_VERSION :: int where
  "PERMIT_VERSION = 1"

text \<open>\<open>token.split(".", 1)\<close> of a token with exactly one dot.\<close>

definition split_token :: "string \<Rightarrow> (string \<times> string) res" where
  "split_token token =
     (if length (filter (\<lambda>c. c = CHR ''.'') token) = 1 then
        Inr (takeWhile (\<lambda>c. c \<noteq> CHR ''.'') token, tl (dropWhile (\<lambda>c. c \<noteq> CHR ''.'') token))
      else Inl (permit_error ''malformed execution permit''))"

definition decode_permit :: "(string \<Rightarrow> string \<Rightarrow> string) \<Rightarrow> string \<Rightarrow> string \<Rightarrow> json res" where
  "decode_permit mac secret token =
     bindE (split_token token) (\<lambda>(payload_part, signature_part).
     bindE (b64decode payload_part) (\<lambda>payload_bytes.
     bindE (b64decode signature_part) (\<lambda>signature.
     bindE (guardE (signature = mac secret payload_bytes)
       (permit_error ''execution permit signature is invalid'')) (\<lambda>_.
     bindE (case utf8_decode payload_bytes of
              None \<Rightarrow> Inl (Raise PyValueError ''codec can't decode'')
            | Some text \<Rightarrow>
                (case loads text of
                   None \<Rightarrow> Inl (permit_error ''execution permit payload is invalid'')
                 | Some payload \<Rightarrow> Inr payload)) (\<lambda>payload.
     bindE (py_get payload ''version'' JNull) (\<lambda>v.
     bindE (guardE (py_eq v (JInt PERMIT_VERSION)) (permit_error ''unsupported execution permit version'')) (\<lambda>_.
     Inr payload)))))))"

definition validate_action_binding :: "json \<Rightarrow> action_intent \<Rightarrow> unit res" where
  "validate_action_binding envelope action =
     bindE (py_item envelope ''authority'') (\<lambda>authority.
     bindE (enum_item authority ''action_class'') (\<lambda>envelope_class.
     guardE (envelope_class = action_class_name (ai_action_class action))
       (permit_error (''action class mismatch envelope='' @ envelope_class @ '' action=''
          @ action_class_name (ai_action_class action)))))"

definition trusted_or_permit_error :: "'a res \<Rightarrow> 'a res" where
  "trusted_or_permit_error r =
     (case r of Inl e \<Rightarrow> if exc_cls e = TrustedContextError then Inl (permit_error (exc_msg e)) else Inl e
      | Inr x \<Rightarrow> Inr x)"

definition validate_required_human_approval ::
  "(string \<Rightarrow> string) \<Rightarrow> json \<Rightarrow> action_intent \<Rightarrow> approval_binding option \<Rightarrow> trusted_snapshot \<Rightarrow> unit res" where
  "validate_required_human_approval sha envelope action approval snapshot =
     bindE (py_item envelope ''authority'') (\<lambda>authority.
     bindE (py_item authority ''requires_human'') (\<lambda>v.
     if v \<noteq> JBool True then Inr ()
     else case approval of
       None \<Rightarrow> Inl (permit_error ''human-required action lacks exact approval binding'')
     | Some approval \<Rightarrow>
         bindE (guardE (av_status (validate_approval sha action approval) = VALID)
           (permit_error ''human approval is stale for the current action intent'')) (\<lambda>_.
         bindE (trusted_or_permit_error (require_trusted_approval snapshot (ab_approval_id approval)
                  (ab_intent_fingerprint approval) (ab_source_ref approval))) (\<lambda>_.
         Inr ()))))"

text \<open>\<open>str(envelope["authority"]["source_ref"]).strip()\<close>.\<close>

definition authority_source :: "json \<Rightarrow> string res" where
  "authority_source envelope =
     bindE (py_item envelope ''authority'') (\<lambda>authority. text_item authority ''source_ref'')"

definition permit_payload ::
  "string \<Rightarrow> int \<Rightarrow> int \<Rightarrow> string \<Rightarrow> string \<Rightarrow> string \<Rightarrow> string \<Rightarrow> string \<Rightarrow> json" where
  "permit_payload permit_id issued_at expires_at envelope_fp snapshot_fp intent_fp action_class source =
     JObj [(''version'', JInt PERMIT_VERSION), (''permit_id'', JStr permit_id), (''issued_at'', JInt issued_at),
       (''expires_at'', JInt expires_at), (''envelope_fingerprint'', JStr envelope_fp),
       (''context_snapshot_fingerprint'', JStr snapshot_fp), (''action_intent_fingerprint'', JStr intent_fp),
       (''action_class'', JStr action_class), (''authority_source_ref'', JStr source)]"

definition issue_permit ::
  "(string \<Rightarrow> string) \<Rightarrow> (string \<Rightarrow> string \<Rightarrow> string) \<Rightarrow> string \<Rightarrow> int \<Rightarrow> int \<Rightarrow> string \<Rightarrow> json \<Rightarrow> action_intent
     \<Rightarrow> trusted_snapshot \<Rightarrow> approval_binding option \<Rightarrow> int \<Rightarrow> issued_permit res" where
  "issue_permit sha mac secret clock now uuid envelope action snapshot approval ttl_seconds =
     bindE (guardE (1 \<le> ttl_seconds \<and> ttl_seconds \<le> 900)
       (permit_error ''ttl_seconds must be between 1 and 900'')) (\<lambda>_.
     bindE (require_execution_permit sha envelope) (\<lambda>gate.
     bindE (crosscheck_execution_envelope clock envelope snapshot None) (\<lambda>_.
     bindE (validate_action_binding envelope action) (\<lambda>_.
     bindE (guardE (ai_action_class action \<noteq> READ_ONLY)
       (permit_error ''read-only actions do not require stateful execution permits'')) (\<lambda>_.
     bindE (validate_required_human_approval sha envelope action approval snapshot) (\<lambda>_.
     bindE (authority_source envelope) (\<lambda>source.
     let permit_id = ''permit_'' @ uuid;
         envelope_fp = the (gr_envelope_fingerprint gate);
         intent_fp = intent_fingerprint sha action;
         class_name = action_class_name (ai_action_class action);
         payload_bytes = canonical (permit_payload permit_id now (now + ttl_seconds) envelope_fp
           (ts_fingerprint snapshot) intent_fp class_name source) in
     Inr \<lparr>ip_token = b64encode payload_bytes @ ''.'' @ b64encode (mac secret payload_bytes),
           ip_permit_id = permit_id, ip_issued_at = now, ip_expires_at = now + ttl_seconds,
           ip_envelope_fingerprint = envelope_fp,
           ip_context_snapshot_fingerprint = ts_fingerprint snapshot,
           ip_action_intent_fingerprint = intent_fp, ip_action_class = class_name\<rparr>)))))))"

text \<open>What a consumption requires the payload to agree with.\<close>

definition expected_claims ::
  "string \<Rightarrow> string \<Rightarrow> action_intent \<Rightarrow> trusted_snapshot \<Rightarrow> string \<Rightarrow> (string \<times> string) list" where
  "expected_claims envelope_fp intent_fp action snapshot source =
     [(''envelope_fingerprint'', envelope_fp), (''context_snapshot_fingerprint'', ts_fingerprint snapshot),
      (''action_intent_fingerprint'', intent_fp), (''action_class'', action_class_name (ai_action_class action)),
      (''authority_source_ref'', source)]"

definition check_claim :: "json \<Rightarrow> string \<times> string \<Rightarrow> unit res" where
  "check_claim payload claim =
     bindE (py_get payload (fst claim) JNull) (\<lambda>v.
     guardE (v = JStr (snd claim)) (permit_error (''execution permit no longer matches '' @ fst claim)))"

text \<open>The part of \<open>consume\<close> after the token is decoded.\<close>

definition spend_permit ::
  "int \<Rightarrow> bool \<Rightarrow> json \<Rightarrow> string \<Rightarrow> string \<Rightarrow> json \<Rightarrow> action_intent \<Rightarrow> trusted_snapshot \<Rightarrow> ledger
     \<Rightarrow> (consumed_permit \<times> ledger) res" where
  "spend_permit now fault payload envelope_fp intent_fp envelope action snapshot l =
     bindE (py_item payload ''expires_at'') (\<lambda>v.
     bindE (py_int_value v) (\<lambda>expires_at.
     bindE (guardE (now \<le> expires_at) (permit_error ''execution permit has expired'')) (\<lambda>_.
     bindE (authority_source envelope) (\<lambda>source.
     bindE (each (check_claim payload) (expected_claims envelope_fp intent_fp action snapshot source)) (\<lambda>_.
     bindE (py_get payload ''permit_id'' (JStr [])) (\<lambda>v.
     let permit_id = strip (py_str v) in
     bindE (guardE (permit_id \<noteq> []) (permit_error ''execution permit has no permit_id'')) (\<lambda>_.
     bindE (ledger_consume fault \<lparr>pl_permit_id = permit_id, pl_consumed_at = now,
              pl_envelope_fingerprint = envelope_fp, pl_action_intent_fingerprint = intent_fp\<rparr> l) (\<lambda>l.
     Inr (\<lparr>cp_permit_id = permit_id, cp_consumed_at = now, cp_envelope_fingerprint = envelope_fp,
            cp_action_intent_fingerprint = intent_fp\<rparr>, l)))))))))"

definition consume_permit ::
  "(string \<Rightarrow> string) \<Rightarrow> (string \<Rightarrow> string \<Rightarrow> string) \<Rightarrow> string \<Rightarrow> int \<Rightarrow> int \<Rightarrow> bool \<Rightarrow> string \<Rightarrow> json \<Rightarrow> action_intent
     \<Rightarrow> trusted_snapshot \<Rightarrow> ledger \<Rightarrow> (consumed_permit \<times> ledger) res" where
  "consume_permit sha mac secret clock now fault token envelope action snapshot l =
     bindE (require_execution_permit sha envelope) (\<lambda>gate.
     bindE (crosscheck_execution_envelope clock envelope snapshot None) (\<lambda>_.
     bindE (validate_action_binding envelope action) (\<lambda>_.
     bindE (decode_permit mac secret token) (\<lambda>payload.
     spend_permit now fault payload (the (gr_envelope_fingerprint gate)) (intent_fingerprint sha action)
       envelope action snapshot l))))"

end
