(* ===== verification/Gateway.thy ===== *)
theory Gateway
  imports Permit Network
begin

text \<open>
  \<open>src/n0te/coordinator_gateway.py\<close>: the registry of read-only reference providers and discovery through
  them, the checks of the reference client on a response, and the mutation gateway, which consumes a
  permit, executes, verifies and reconciles. Registered callables act on a world of their own.
\<close>

subsection \<open>Reference discovery\<close>

text \<open>
  A provider is opaque; \<open>ranking\<close> is \<open>discover_ranked_references\<close> of \<open>reference_calibration.py\<close> applied
  to a provider and a request. The registrations are the dict in order of registration.
\<close>

record 'p provider_registration =
  rp_provider :: 'p
  rp_route :: network_route
  rp_registration_source_ref :: string

type_synonym 'p providers = "(string \<times> 'p provider_registration) list"

record 'r discovery_execution =
  de_provider_id :: string
  de_route_id :: string
  de_route_kind :: string
  de_registration_source_ref :: string
  de_transport_reason_codes :: "string list"
  de_ranked :: "'r list"
  de_read_only :: bool
  de_action_authority_granted :: bool

abbreviation discovery_error :: "string \<Rightarrow> exc" where
  "discovery_error msg \<equiv> Raise ReferenceDiscoveryGatewayError msg"

definition discovery_text :: "string \<Rightarrow> string \<Rightarrow> string res" where
  "discovery_text field_name value =
     (if strip value = [] then Inl (discovery_error (''reference discovery '' @ field_name @ '' must not be empty''))
      else Inr (strip value))"

definition make_discovery_execution ::
  "string \<Rightarrow> string \<Rightarrow> string \<Rightarrow> string \<Rightarrow> string list \<Rightarrow> 'r list \<Rightarrow> bool \<Rightarrow> bool \<Rightarrow> 'r discovery_execution res" where
  "make_discovery_execution provider_id route_id route_kind source_ref reason_codes ranked read_only authority =
     bindE (discovery_text ''provider_id'' provider_id) (\<lambda>provider_id.
     bindE (discovery_text ''route_id'' route_id) (\<lambda>route_id.
     bindE (discovery_text ''route_kind'' route_kind) (\<lambda>route_kind.
     bindE (discovery_text ''registration_source_ref'' source_ref) (\<lambda>source_ref.
     let reasons = map strip reason_codes in
     bindE (guardE (list_all (\<lambda>r. r \<noteq> []) reasons)
       (discovery_error ''transport_reason_codes must contain non-empty values'')) (\<lambda>_.
     bindE (guardE (read_only \<and> \<not> authority)
       (discovery_error ''reference discovery gateway may expose only read-only execution without action authority''))
       (\<lambda>_.
     Inr \<lparr>de_provider_id = provider_id, de_route_id = route_id, de_route_kind = route_kind,
           de_registration_source_ref = source_ref, de_transport_reason_codes = reasons, de_ranked = ranked,
           de_read_only = read_only, de_action_authority_granted = authority\<rparr>))))))"

fun route_kind_name :: "route_kind \<Rightarrow> string" where
  "route_kind_name LOCALHOST = ''LOCALHOST''"
| "route_kind_name LAN = ''LAN''"
| "route_kind_name INTERNET = ''INTERNET''"

definition register_provider ::
  "string \<Rightarrow> 'p \<Rightarrow> network_route \<Rightarrow> string \<Rightarrow> 'p providers \<Rightarrow> 'p providers res" where
  "register_provider provider_id provider route registration_source_ref providers =
     (let provider_id = strip provider_id; source_ref = strip registration_source_ref in
      bindE (guardE (provider_id \<noteq> []) (discovery_error ''provider_id must not be empty'')) (\<lambda>_.
      bindE (guardE (map_of providers provider_id = None)
        (discovery_error (''reference provider already registered: '' @ provider_id))) (\<lambda>_.
      bindE (guardE (source_ref \<noteq> []) (discovery_error ''registration_source_ref must not be empty'')) (\<lambda>_.
      Inr (providers @ [(provider_id, \<lparr>rp_provider = provider, rp_route = route,
             rp_registration_source_ref = source_ref\<rparr>)])))))"

definition registered_providers :: "'p providers \<Rightarrow> string list" where
  "registered_providers providers = sort (map fst providers)"

definition find_provider :: "'p providers \<Rightarrow> string \<Rightarrow> 'p provider_registration res" where
  "find_provider providers provider_id =
     (case map_of providers provider_id of
        None \<Rightarrow> Inl (discovery_error (''unregistered reference provider: '' @ provider_id))
      | Some registration \<Rightarrow> Inr registration)"

definition transport_decision_for :: "network_mode \<Rightarrow> 'p providers \<Rightarrow> string \<Rightarrow> transport_decision res" where
  "transport_decision_for mode providers provider_id =
     bindE (find_provider providers (strip provider_id)) (\<lambda>registration.
     Inr (evaluate_route mode (rp_route registration)))"

definition gateway_errors :: "exc_class list" where
  "gateway_errors = [CoordinatorGatewayError, ReferenceDiscoveryGatewayError,
     CoordinatorReferenceClientError, MutationVerificationError, MutationReconciliationError]"

definition discover_ranked ::
  "('p \<Rightarrow> 'q \<Rightarrow> 'r list res) \<Rightarrow> network_mode \<Rightarrow> 'p providers \<Rightarrow> string \<Rightarrow> 'q \<Rightarrow> 'r discovery_execution res" where
  "discover_ranked ranking mode providers provider_id request =
     (let provider_id = strip provider_id in
      bindE (find_provider providers provider_id) (\<lambda>registration.
      let decision = evaluate_route mode (rp_route registration) in
      bindE (guardE (td_status decision = TRANSPORT_ALLOW)
        (discovery_error (''reference provider transport denied: '' @ join '','' (td_reason_codes decision)))) (\<lambda>_.
      bindE (case ranking (rp_provider registration) request of
               Inl e \<Rightarrow>
                 if exc_cls e \<in> set gateway_errors then Inl e
                 else Inl (discovery_error (''reference provider discovery failed: '' @ provider_id))
             | Inr ranked \<Rightarrow> Inr ranked) (\<lambda>ranked.
      make_discovery_execution provider_id (nr_route_id (rp_route registration))
        (route_kind_name (nr_kind (rp_route registration))) (rp_registration_source_ref registration)
        (td_reason_codes decision) ranked True False))))"

subsection \<open>The reference client\<close>

abbreviation client_error :: "string \<Rightarrow> exc" where
  "client_error msg \<equiv> Raise CoordinatorReferenceClientError msg"

fun request_strings :: "string list \<Rightarrow> string \<Rightarrow> string list res" where
  "request_strings [] f = Inr []"
| "request_strings (raw # values) f =
     bindE (guardE (strip raw \<noteq> []) (client_error (f @ '' must contain non-empty values''))) (\<lambda>_.
     bindE (request_strings values f) (\<lambda>out. Inr (strip raw # out)))"

text \<open>
  What the client reads of an MCP tool result; an absent attribute is the default the code gives it.
\<close>

record mcp_block =
  mb_type :: string
  mb_text :: "string option"

record mcp_result =
  mr_is_error :: bool
  mr_structured_content :: json
  mr_content :: "mcp_block list option"

definition mcp_reference_payload :: "mcp_result \<Rightarrow> json res" where
  "mcp_reference_payload result =
     bindE (guardE (\<not> mr_is_error result) (client_error ''coordinator reference tool returned an MCP error'')) (\<lambda>_.
     if mr_structured_content result \<noteq> JNull then Inr (mr_structured_content result)
     else case mr_content result of
       Some [block] \<Rightarrow>
         bindE (guardE (mb_type block = ''text'')
           (client_error ''coordinator reference fallback must be exactly one text content block'')) (\<lambda>_.
         case mb_text block of
           None \<Rightarrow> Inl (client_error ''coordinator reference text payload is invalid'')
         | Some text \<Rightarrow>
             (case loads text of
                None \<Rightarrow> Inl (client_error ''coordinator reference text payload is not strict JSON'')
              | Some v \<Rightarrow> Inr v))
     | _ \<Rightarrow> Inl (client_error ''coordinator returned no unambiguous reference-discovery payload''))"

definition field_or_null :: "json \<Rightarrow> string \<Rightarrow> json" where
  "field_or_null x k = (case field x k of None \<Rightarrow> JNull | Some v \<Rightarrow> v)"

definition SESSION_IDENTITY :: "string list" where
  "SESSION_IDENTITY = [''workspace_id'', ''song_id'', ''workspace_observation_id'']"

definition validate_identity :: "json \<Rightarrow> json \<Rightarrow> unit res" where
  "validate_identity binding calibration =
     each (\<lambda>f. guardE (case field_or_null binding f of
                         JStr expected \<Rightarrow> field_or_null calibration f = JStr expected | _ \<Rightarrow> False)
       (client_error (''coordinator response crossed session identity: '' @ f))) SESSION_IDENTITY"

definition validate_ranked :: "json \<Rightarrow> json \<Rightarrow> unit res" where
  "validate_ranked ranked primary =
     (case ranked of
        JList items \<Rightarrow>
          bindE (guardE (primary = JNull \<or> is_obj primary)
            (client_error ''coordinator response primary reference must be an object or null'')) (\<lambda>_.
          case items of
            first # rest \<Rightarrow>
              guardE (primary \<noteq> JNull \<and> py_eq primary first)
                (client_error ''coordinator primary reference must equal the first ranked candidate'')
          | [] \<Rightarrow>
              guardE (primary = JNull)
                (client_error ''coordinator returned a primary reference without ranked candidates''))
      | _ \<Rightarrow> Inl (client_error ''coordinator response ranked references must be a list''))"

definition validated_reference_response :: "json \<Rightarrow> string \<Rightarrow> json \<Rightarrow> json res" where
  "validated_reference_response payload provider_id session =
     bindE (guardE (is_obj payload)
       (client_error ''coordinator returned no structured reference-discovery payload'')) (\<lambda>_.
     bindE (guardE (field_or_null payload ''provider_id'' = JStr provider_id)
       (client_error ''coordinator response provider does not match request'')) (\<lambda>_.
     bindE (guardE (field_or_null payload ''read_only'' = JBool True)
       (client_error ''coordinator reference response is not explicitly read-only'')) (\<lambda>_.
     bindE (guardE (field_or_null payload ''action_authority_granted'' = JBool False)
       (client_error ''coordinator reference response attempted to grant action authority'')) (\<lambda>_.
     let binding = field_or_null session ''binding''; calibration = field_or_null payload ''session_calibration'' in
     bindE (guardE (is_obj binding \<and> is_obj calibration)
       (client_error ''coordinator response is missing session identity evidence'')) (\<lambda>_.
     bindE (validate_identity binding calibration) (\<lambda>_.
     bindE (validate_ranked (field_or_null payload ''ranked'') (field_or_null payload ''primary'')) (\<lambda>_.
     case loads (dumps True payload) of
       None \<Rightarrow> Inl (Raise PyValueError ''Expecting value'')
     | Some v \<Rightarrow> Inr v)))))))"

subsection \<open>The mutation gateway\<close>

abbreviation coordinator_error :: "string \<Rightarrow> exc" where
  "coordinator_error msg \<equiv> Raise CoordinatorGatewayError msg"

record verification =
  mv_verified :: bool
  mv_evidence_refs :: "string list"
  mv_observation :: string

definition make_verification :: "bool \<Rightarrow> string list \<Rightarrow> string \<Rightarrow> verification res" where
  "make_verification verified evidence_refs observation =
     (let refs = map strip evidence_refs; observation = strip observation in
      bindE (guardE (list_all (\<lambda>r. r \<noteq> []) refs \<and> distinct refs)
        (coordinator_error ''verification evidence_refs must be unique non-empty refs'')) (\<lambda>_.
      bindE (guardE (observation \<noteq> []) (coordinator_error ''verification observation must not be empty'')) (\<lambda>_.
      bindE (guardE (verified \<longrightarrow> refs \<noteq> [])
        (coordinator_error ''verified mutation requires fresh evidence refs'')) (\<lambda>_.
      Inr \<lparr>mv_verified = verified, mv_evidence_refs = refs, mv_observation = observation\<rparr>))))"

text \<open>
  The registered callables act on a world of their own and may raise. A verifier may return something
  that is no \<open>MutationVerification\<close> (None here); a reconciler returns any value.
\<close>

record ('w, 't) mutation_registration =
  mu_action_class :: string
  mu_executor :: "action_intent \<Rightarrow> 'w \<Rightarrow> 't res \<times> 'w"
  mu_verifier :: "action_intent \<Rightarrow> 't \<Rightarrow> 'w \<Rightarrow> verification option res \<times> 'w"
  mu_reconciler :: "action_intent \<Rightarrow> 't \<Rightarrow> verification \<Rightarrow> 'w \<Rightarrow> json res \<times> 'w"

type_synonym ('w, 't) mutations = "(string \<times> ('w, 't) mutation_registration) list"

definition STATEFUL_CLASSES :: "string list" where
  "STATEFUL_CLASSES = [''REVERSIBLE'', ''COMPENSATABLE'', ''IRREVERSIBLE'']"

definition register_mutation ::
  "string \<Rightarrow> string \<Rightarrow> (action_intent \<Rightarrow> 'w \<Rightarrow> 't res \<times> 'w) \<Rightarrow> (action_intent \<Rightarrow> 't \<Rightarrow> 'w \<Rightarrow> verification option res \<times> 'w)
     \<Rightarrow> (action_intent \<Rightarrow> 't \<Rightarrow> verification \<Rightarrow> 'w \<Rightarrow> json res \<times> 'w) \<Rightarrow> ('w, 't) mutations \<Rightarrow> ('w, 't) mutations res" where
  "register_mutation name action_class executor verifier reconciler mutations =
     (let name = strip name; action_class = norm_enum action_class in
      bindE (guardE (name \<noteq> []) (coordinator_error ''mutation name must not be empty'')) (\<lambda>_.
      bindE (guardE (map_of mutations name = None)
        (coordinator_error (''mutation already registered: '' @ name))) (\<lambda>_.
      bindE (guardE (action_class \<noteq> ''READ_ONLY'')
        (coordinator_error ''read-only operations do not belong in mutation gateway'')) (\<lambda>_.
      bindE (guardE (action_class \<in> set STATEFUL_CLASSES)
        (coordinator_error (''unsupported mutation action class: '' @ action_class))) (\<lambda>_.
      Inr (mutations @ [(name, \<lparr>mu_action_class = action_class, mu_executor = executor,
             mu_verifier = verifier, mu_reconciler = reconciler\<rparr>)]))))))"

definition registered_mutations :: "('w, 't) mutations \<Rightarrow> string list" where
  "registered_mutations mutations = sort (map fst mutations)"

record 't gated_result =
  ge_permit_id :: string
  ge_action_id :: string
  ge_action_intent_fingerprint :: string
  ge_result :: 't
  ge_verification :: verification
  ge_reconciliation_ref :: string

text \<open>After the permit is consumed: execute, verify, reconcile.\<close>

definition run_mutation ::
  "(string \<Rightarrow> string) \<Rightarrow> ('w, 't) mutation_registration \<Rightarrow> consumed_permit \<Rightarrow> action_intent \<Rightarrow> 'w
     \<Rightarrow> 't gated_result res \<times> 'w" where
  "run_mutation sha registration consumed action w =
     (case mu_executor registration action w of
        (Inl e, w) \<Rightarrow> (Inl e, w)
      | (Inr result, w) \<Rightarrow>
     (case mu_verifier registration action result w of
        (Inl e, w) \<Rightarrow> (Inl e, w)
      | (Inr None, w) \<Rightarrow> (Inl (Raise MutationVerificationError
           ''mutation verifier returned no typed verification; completion remains unproven''), w)
      | (Inr (Some verification), w) \<Rightarrow>
     (if \<not> mv_verified verification then
        (Inl (Raise MutationVerificationError
           ''mutation completion is unverified after execution; reconstruct current state before any retry''), w)
      else case mu_reconciler registration action result verification w of
        (Inl e, w) \<Rightarrow> (Inl e, w)
      | (Inr v, w) \<Rightarrow>
          (let reconciliation_ref = strip (py_str v) in
           if reconciliation_ref = [] then
             (Inl (Raise MutationReconciliationError
                ''verified mutation has no canonical reconciliation receipt''), w)
           else (Inr \<lparr>ge_permit_id = cp_permit_id consumed, ge_action_id = ai_action_id action,
                   ge_action_intent_fingerprint = intent_fingerprint sha action, ge_result = result,
                   ge_verification = verification, ge_reconciliation_ref = reconciliation_ref\<rparr>, w)))))"

text \<open>Everything before: the registration, its class, the context and the permit.\<close>

definition admit_mutation ::
  "(string \<Rightarrow> string) \<Rightarrow> (string \<Rightarrow> string \<Rightarrow> string) \<Rightarrow> string \<Rightarrow> (string \<Rightarrow> trusted_snapshot res) \<Rightarrow> ('w, 't) mutations
     \<Rightarrow> int \<Rightarrow> int \<Rightarrow> bool \<Rightarrow> string \<Rightarrow> string \<Rightarrow> string \<Rightarrow> json \<Rightarrow> action_intent \<Rightarrow> ledger
     \<Rightarrow> (('w, 't) mutation_registration \<times> consumed_permit \<times> ledger) res" where
  "admit_mutation sha mac secret contexts mutations clock now fault name token snapshot_id envelope action l =
     (let name = strip name in
      bindE (case map_of mutations name of
               None \<Rightarrow> Inl (coordinator_error (''unregistered mutation: '' @ name))
             | Some registration \<Rightarrow> Inr registration) (\<lambda>registration.
      bindE (guardE (action_class_name (ai_action_class action) = mu_action_class registration)
        (coordinator_error (''registered mutation class mismatch expected='' @ mu_action_class registration
           @ '' action='' @ action_class_name (ai_action_class action)))) (\<lambda>_.
      bindE (contexts snapshot_id) (\<lambda>snapshot.
      bindE (consume_permit sha mac secret clock now fault token envelope action snapshot l) (\<lambda>(consumed, l).
      Inr (registration, consumed, l))))))"

definition execute_mutation ::
  "(string \<Rightarrow> string) \<Rightarrow> (string \<Rightarrow> string \<Rightarrow> string) \<Rightarrow> string \<Rightarrow> (string \<Rightarrow> trusted_snapshot res) \<Rightarrow> ('w, 't) mutations
     \<Rightarrow> int \<Rightarrow> int \<Rightarrow> bool \<Rightarrow> string \<Rightarrow> string \<Rightarrow> string \<Rightarrow> json \<Rightarrow> action_intent \<Rightarrow> ledger \<times> 'w
     \<Rightarrow> 't gated_result res \<times> ledger \<times> 'w" where
  "execute_mutation sha mac secret contexts mutations clock now fault name token snapshot_id envelope action st =
     (case admit_mutation sha mac secret contexts mutations clock now fault name token snapshot_id envelope action
             (fst st) of
        Inl e \<Rightarrow> (Inl e, st)
      | Inr (registration, consumed, l) \<Rightarrow>
          (case run_mutation sha registration consumed action (snd st) of (r, w) \<Rightarrow> (r, l, w)))"

end
