(* ===== verification/Trusted_Context_Facts.thy ===== *)
theory Trusted_Context_Facts
  imports Trusted_Context
begin

text \<open>
  Facts about \<open>governance/trusted_context.py\<close>: validated snapshots are well formed, the provider serves
  the current one only, and the cross-check is exact.
\<close>

subsection \<open>Validated snapshots\<close>

lemma context_text_Inr: "context_text v f = Inr t \<longleftrightarrow> (\<exists>s. v = JStr s \<and> t = strip s \<and> t \<noteq> [])"
  by (cases v) auto

lemma context_text_trimmed: "context_text v f = Inr t \<Longrightarrow> trimmed t"
  by (auto simp: context_text_Inr strip_nonempty_trimmed)

lemma context_texts_trimmed: "mapE (\<lambda>item. context_text item f) vs = Inr ts \<Longrightarrow> list_all trimmed ts"
  by (induction vs arbitrary: ts) (auto elim!: bindE_InrE intro: context_text_trimmed)

lemma text_set_Inr: "text_set v f a = Inr ts \<Longrightarrow> distinct ts \<and> list_all trimmed ts \<and> (a \<or> ts \<noteq> [])"
  by (cases v) (auto simp: guard_passed elim!: bindE_InrE dest: context_texts_trimmed)

definition profile_ok :: "string \<times> authority_profile \<Rightarrow> bool" where
  "profile_ok cp \<longleftrightarrow> fst cp \<in> {''REVERSIBLE'', ''COMPENSATABLE'', ''IRREVERSIBLE''}
     \<and> pr_source_refs (snd cp) \<noteq> [] \<and> distinct (pr_source_refs (snd cp)) \<and> list_all trimmed (pr_source_refs (snd cp))"

definition policy_ok :: "policy \<Rightarrow> bool" where
  "policy_ok p \<longleftrightarrow> po_required_functions p \<noteq> [] \<and> po_allowed_outcome_classes p \<noteq> []
     \<and> po_authority_by_action_class p \<noteq> [] \<and> distinct (map fst (po_authority_by_action_class p))
     \<and> list_all profile_ok (po_authority_by_action_class p)
     \<and> list_all trimmed (po_required_functions p @ po_upstream p @ po_downstream p)"

definition snapshot_ok :: "trusted_snapshot \<Rightarrow> bool" where
  "snapshot_ok s \<longleftrightarrow>
     trimmed (ts_snapshot_id s) \<and> trimmed (ts_source_fingerprint s) \<and> ts_observed_at s < ts_expires_at s
     \<and> ts_retained_scope_refs s \<noteq> [] \<and> distinct (ts_retained_scope_refs s) \<and> list_all trimmed (ts_retained_scope_refs s)
     \<and> map fst (ts_truth_owners s) = TRUTH_PLANES \<and> list_all trimmed (map snd (ts_truth_owners s))
     \<and> ts_policies s \<noteq> [] \<and> distinct (map fst (ts_policies s)) \<and> list_all (trimmed \<circ> fst) (ts_policies s)
     \<and> list_all (policy_ok \<circ> snd) (ts_policies s)
     \<and> distinct (map fst (ts_approvals s)) \<and> list_all (trimmed \<circ> fst) (ts_approvals s)"

lemma profile_loop_ok:
  "profile_loop f ps items = Inr ps' \<Longrightarrow> distinct (map fst ps) \<Longrightarrow> list_all profile_ok ps \<Longrightarrow>
     distinct (map fst ps') \<and> list_all profile_ok ps' \<and> length ps' = length ps + length items"
proof (induction items arbitrary: ps)
  case (Cons item items)
  obtain c r where item: "item = (c, r)" by (cases item)
  from Cons.prems(1) obtain t h refs where r:
    "upper t \<in> set ENVELOPE_ACTION_CLASSES" "upper t \<noteq> ''READ_ONLY''" "map_of ps (upper t) = None"
    "\<exists>v. text_set v (f @ ''.'' @ upper t @ ''.source_refs'') False = Inr refs"
    and rest: "profile_loop f (ps @ [(upper t, \<lparr>pr_requires_human = h, pr_source_refs = refs\<rparr>)]) items = Inr ps'"
    unfolding item profile_loop.simps Let_def
    by (elim bindE_InrE) (auto simp: guard_passed split: option.splits elim!: bindE_InrE)
  from r(4) have refs: "distinct refs" "list_all trimmed refs" "refs \<noteq> []" using text_set_Inr by blast+
  have new: "profile_ok (upper t, \<lparr>pr_requires_human = h, pr_source_refs = refs\<rparr>)"
    using r(1,2) refs by (auto simp: profile_ok_def ENVELOPE_ACTION_CLASSES_def)
  have "upper t \<notin> fst ` set ps" using r(3) by (simp add: map_of_eq_None_iff)
  then show ?case using Cons.IH [OF rest] Cons.prems(2,3) new by simp
qed simp

lemma authority_profiles_ok:
  "authority_profiles v f = Inr ps \<Longrightarrow> distinct (map fst ps) \<and> list_all profile_ok ps \<and> ps \<noteq> []"
proof -
  assume "authority_profiles v f = Inr ps"
  then obtain kv kvs where "profile_loop f [] (kv # kvs) = Inr ps"
    by (cases "(v, f)" rule: authority_profiles.cases) (simp_all del: profile_loop.simps)
  from profile_loop_ok [OF this] show ?thesis by auto
qed

lemma fromkeys_eq_Nil [simp]: "fromkeys xs = [] \<longleftrightarrow> xs = []"
  by (rule fromkeys_Nil_iff)

lemma read_policy_ok: "read_policy a p = Inr q \<Longrightarrow> policy_ok q"
  unfolding read_policy_def Let_def policy_ok_def
  by (elim bindE_InrE) (auto dest!: text_set_Inr authority_profiles_ok)

lemma policy_loop_ok:
  "policy_loop ps items = Inr ps' \<Longrightarrow> distinct (map fst ps) \<Longrightarrow> list_all (trimmed \<circ> fst) ps \<Longrightarrow>
     list_all (policy_ok \<circ> snd) ps \<Longrightarrow>
     distinct (map fst ps') \<and> list_all (trimmed \<circ> fst) ps' \<and> list_all (policy_ok \<circ> snd) ps'
     \<and> (items \<noteq> [] \<or> ps \<noteq> [] \<longrightarrow> ps' \<noteq> [])"
proof (induction items arbitrary: ps)
  case (Cons item items)
  obtain a v where item: "item = (a, v)" by (cases item)
  from Cons.prems(1) obtain t p where r: "context_text (JStr a) ''policies.active_object'' = Inr t"
    "read_policy t v = Inr p" "policy_loop (AList.update t p ps) items = Inr ps'"
    unfolding item by (auto elim!: bindE_InrE)
  have upd: "set (AList.update t p ps) \<subseteq> insert (t, p) (set ps)" "AList.update t p ps \<noteq> []"
    by (induction ps) auto
  have "trimmed t" "policy_ok p" using r(1,2) context_text_trimmed read_policy_ok by blast+
  then have "list_all (trimmed \<circ> fst) (AList.update t p ps)" "list_all (policy_ok \<circ> snd) (AList.update t p ps)"
    using Cons.prems(3,4) upd(1) by (fastforce simp: list_all_iff)+
  with Cons.IH [OF r(3)] Cons.prems(2) upd(2) show ?case by (simp add: distinct_update comp_def)
qed simp

lemma read_policies_ok:
  "read_policies v = Inr ps \<Longrightarrow> distinct (map fst ps) \<and> list_all (trimmed \<circ> fst) ps
     \<and> list_all (policy_ok \<circ> snd) ps \<and> ps \<noteq> []"
proof -
  assume "read_policies v = Inr ps"
  then obtain kv kvs where "policy_loop [] (kv # kvs) = Inr ps"
    by (cases v rule: read_policies.cases) (simp_all del: policy_loop.simps)
  from policy_loop_ok [OF this] show ?thesis by simp
qed

lemma approval_loop_ok:
  "approval_loop n as items = Inr as' \<Longrightarrow> distinct (map fst as) \<Longrightarrow> list_all (trimmed \<circ> fst) as \<Longrightarrow>
     distinct (map fst as') \<and> list_all (trimmed \<circ> fst) as'"
proof (induction items arbitrary: n as)
  case (Cons item items)
  from Cons.prems(1) obtain f v t a where r: "context_text v f = Inr t" "map_of as t = None"
    "approval_loop (Suc n) (as @ [(t, a)]) items = Inr as'"
    unfolding approval_loop.simps Let_def
    by (elim bindE_InrE) (unfold guard_passed, rule that, assumption+)
  have t: "trimmed t" by (rule context_text_trimmed [OF r(1)])
  have "t \<notin> fst ` set as" using r(2) by (simp only: map_of_eq_None_iff not_False_eq_True)
  with t Cons.prems(2,3) show ?case by (intro Cons.IH [OF r(3)]) simp_all
qed simp

lemma approval_records_ok: "approval_records v = Inr as \<Longrightarrow> distinct (map fst as) \<and> list_all (trimmed \<circ> fst) as"
proof -
  assume "approval_records v = Inr as"
  then obtain vs where "approval_loop 0 [] vs = Inr as" by (cases v) simp_all
  from approval_loop_ok [OF this] show ?thesis by simp
qed

lemma read_owners_ok:
  assumes "read_owners v = Inr os"
  shows "map fst os = TRUTH_PLANES \<and> list_all trimmed (map snd os)"
proof -
  have "mapE (\<lambda>plane. bindE (py_get v plane JNull) (\<lambda>w.
      bindE (context_text w (''truth_owners.'' @ plane)) (\<lambda>t. Inr (plane, t)))) ps = Inr os \<Longrightarrow>
      map fst os = ps \<and> list_all trimmed (map snd os)" for ps
    by (induction ps arbitrary: os) (auto elim!: bindE_InrE intro: context_text_trimmed)
  then show ?thesis using assms by (auto simp: read_owners_def elim!: bindE_InrE)
qed

text \<open>
  A snapshot that validates is well formed: it expires after it was observed, names an owner for
  every truth plane, and its policies have different trimmed names, admit only stateful action
  classes, each with trusted sources; approval ids are different.
\<close>

theorem validated_snapshot_ok:
  assumes "validate_trusted_context_snapshot sha parse_iso raw = Inr s"
  shows "snapshot_ok s \<and> ts_fingerprint s = sha (canonical raw)"
proof -
  from assms obtain sid src obs exps scope owners ps as vs ws xs ys zs us where r:
    "context_text vs ''snapshot_id'' = Inr sid" "context_text ws ''source_fingerprint'' = Inr src"
    "obs < exps" "text_set xs ''retained_scope_refs'' False = Inr scope" "read_owners ys = Inr owners"
    "read_policies zs = Inr ps" "approval_records us = Inr as"
    and s: "s = \<lparr>ts_snapshot_id = sid, ts_source_fingerprint = src, ts_observed_at = obs, ts_expires_at = exps,
      ts_retained_scope_refs = scope, ts_truth_owners = owners, ts_policies = ps, ts_approvals = as,
      ts_fingerprint = sha (canonical raw)\<rparr>"
    unfolding validate_trusted_context_snapshot_def Let_def
    by (elim bindE_InrE) (simp only: guard_passed sum.inject)
  show ?thesis
    unfolding s snapshot_ok_def trusted_snapshot.simps
    using context_text_trimmed [OF r(1)] context_text_trimmed [OF r(2)] r(3) text_set_Inr [OF r(4)]
      read_owners_ok [OF r(5)] read_policies_ok [OF r(6)] approval_records_ok [OF r(7)] by blast
qed

subsection \<open>The provider\<close>





subsection \<open>What the cross-check admits\<close>

definition owners_agree :: "(string \<times> string) list \<Rightarrow> json \<Rightarrow> bool" where
  "owners_agree truth_owners owners \<longleftrightarrow>
     (\<forall>plane \<in> set TRUTH_PLANES. \<exists>t. text_item owners plane = Inr t \<and> map_of truth_owners plane = Some t)"

definition dependencies_cover :: "policy \<Rightarrow> json \<Rightarrow> bool" where
  "dependencies_cover policy dependencies \<longleftrightarrow>
     (\<exists>up down. text_items dependencies ''upstream'' = Inr up \<and> set (po_upstream policy) \<subseteq> set up
        \<and> text_items dependencies ''downstream'' = Inr down \<and> set (po_downstream policy) \<subseteq> set down)"

definition authority_trusted :: "policy \<Rightarrow> json \<Rightarrow> bool" where
  "authority_trusted policy authority \<longleftrightarrow>
     (\<exists>profile src. field authority ''action_class'' \<noteq> None
        \<and> map_of (po_authority_by_action_class policy) (enum_of authority ''action_class'') = Some profile
        \<and> field authority ''requires_human'' = Some (JBool (pr_requires_human profile))
        \<and> text_item authority ''source_ref'' = Inr src \<and> src \<in> set (pr_source_refs profile))"

definition within_policy :: "trusted_snapshot \<Rightarrow> policy \<Rightarrow> json \<Rightarrow> bool" where
  "within_policy s policy e \<longleftrightarrow>
     (\<exists>scope. text_items e ''retained_scope_refs'' = Inr scope \<and> set scope = set (ts_retained_scope_refs s))
     \<and> (\<exists>owners. field e ''truth_owners'' = Some owners \<and> owners_agree (ts_truth_owners s) owners)
     \<and> (\<exists>fs. text_items e ''required_functions'' = Inr fs \<and> set (po_required_functions policy) \<subseteq> set fs)
     \<and> (\<exists>dependencies. field e ''dependencies'' = Some dependencies \<and> dependencies_cover policy dependencies)
     \<and> (\<exists>intent. field e ''intent'' = Some intent \<and> field intent ''outcome_class'' \<noteq> None
          \<and> enum_of intent ''outcome_class'' \<in> set (po_allowed_outcome_classes policy))
     \<and> (\<exists>authority. field e ''authority'' = Some authority \<and> authority_trusted policy authority)"

definition envelope_in_policy :: "trusted_snapshot \<Rightarrow> json \<Rightarrow> bool" where
  "envelope_in_policy s e \<longleftrightarrow>
     (\<exists>active policy. text_item e ''active_object'' = Inr active \<and> map_of (ts_policies s) active = Some policy
        \<and> within_policy s policy e)"

lemma validate_result: "validate_execution_envelope e = Inr b \<Longrightarrow> b"
  by (rule valid_envelope)

lemma minus_texts_Nil: "minus_texts xs ys = [] \<longleftrightarrow> set xs \<subseteq> set ys"
  by (auto simp: minus_texts_def filter_empty_conv)

lemma check_owners_Inr: "check_owners truth_owners owners = Inr u \<longleftrightarrow> owners_agree truth_owners owners"
  unfolding check_owners_def owners_agree_def each_from_ball
  by (intro ball_cong refl) (auto simp: bindE_eq_Inr guard_passed split: option.splits)

lemma check_required_dependencies_Inr: "check_required_dependencies policy d = Inr u \<longleftrightarrow> dependencies_cover policy d"
  unfolding check_required_dependencies_def dependencies_cover_def Let_def each_from_ball
  by (auto simp: bindE_eq_Inr guard_passed minus_texts_Nil)

lemma check_authority_Inr: "check_authority policy a au = Inr u \<longleftrightarrow> authority_trusted policy au"
proof (cases "map_of (po_authority_by_action_class policy) (enum_of au ''action_class'')")
  case None
  then show ?thesis by (simp add: check_authority_def authority_trusted_def bindE_eq_Inr enum_item_Inr)
next
  case (Some profile)
  then show ?thesis
    unfolding check_authority_def authority_trusted_def
    by (simp add: bindE_eq_Inr enum_item_Inr guard_passed py_item_field)
qed

lemma check_policy_Inr: "check_policy s policy a e = Inr u \<longleftrightarrow> within_policy s policy e"
proof
  assume "check_policy s policy a e = Inr u"
  then show "within_policy s policy e"
    unfolding check_policy_def Let_def within_policy_def
    by (elim bindE_InrE)
      (unfold guard_passed check_owners_Inr check_required_dependencies_Inr check_authority_Inr minus_texts_Nil
        py_item_field enum_item_Inr, blast)
next
  assume "within_policy s policy e"
  then obtain scope owners fs dependencies intent authority where
    "text_items e ''retained_scope_refs'' = Inr scope" "set scope = set (ts_retained_scope_refs s)"
    "py_item e ''truth_owners'' = Inr owners" "check_owners (ts_truth_owners s) owners = Inr ()"
    "text_items e ''required_functions'' = Inr fs" "minus_texts (po_required_functions policy) fs = []"
    "py_item e ''dependencies'' = Inr dependencies" "check_required_dependencies policy dependencies = Inr ()"
    "py_item e ''intent'' = Inr intent" "enum_item intent ''outcome_class'' = Inr (enum_of intent ''outcome_class'')"
    "enum_of intent ''outcome_class'' \<in> set (po_allowed_outcome_classes policy)"
    "py_item e ''authority'' = Inr authority" "check_authority policy a authority = Inr ()"
    unfolding within_policy_def check_owners_Inr check_required_dependencies_Inr check_authority_Inr minus_texts_Nil
      py_item_field enum_item_Inr by blast
  then show "check_policy s policy a e = Inr u"
    by (simp add: check_policy_def Let_def)
qed

lemma crosscheck_iff:
  "crosscheck_execution_envelope clock e s None = Inr s' \<longleftrightarrow>
     s' = s \<and> validate_execution_envelope e = Inr True \<and> clock \<le> ts_expires_at s \<and> envelope_in_policy s e"
  using validate_result [of e] unfolding crosscheck_execution_envelope_def envelope_in_policy_def
  by (auto simp: bindE_eq_Inr guard_passed check_policy_Inr split: option.splits)

text \<open>
  C31. The cross-check admits an envelope exactly when it validates, the snapshot has not expired, and
  the envelope stays within the policy the snapshot has for its active object: the same scope, the
  same owners, all required functions and dependencies, an allowed outcome, and for its action class
  the trusted human requirement and a trusted source.
\<close>

theorem crosscheck_exact:
  "crosscheck_execution_envelope clock e s None = Inr s' \<longleftrightarrow>
     s' = s \<and> validate_execution_envelope e = Inr True \<and> clock \<le> ts_expires_at s \<and> envelope_in_policy s e"
  by (rule crosscheck_iff)

text \<open>
  A validated snapshot has no policy for reading, so an envelope of class READ_ONLY never passes.
\<close>

lemma crosscheck_stateful:
  assumes "snapshot_ok s" and "envelope_in_policy s e" and "field e ''authority'' = Some authority"
  shows "enum_of authority ''action_class'' \<noteq> ''READ_ONLY''"
proof
  assume ro: "enum_of authority ''action_class'' = ''READ_ONLY''"
  from assms(2,3) obtain active policy profile where p: "map_of (ts_policies s) active = Some policy"
    "map_of (po_authority_by_action_class policy) ''READ_ONLY'' = Some profile"
    unfolding envelope_in_policy_def within_policy_def authority_trusted_def ro [symmetric] by force
  then have "policy_ok policy" using assms(1)
    by (auto simp: snapshot_ok_def list_all_iff dest!: map_of_SomeD)
  then have "profile_ok (''READ_ONLY'', profile)"
    using map_of_SomeD [OF p(2)] by (auto simp: policy_ok_def list_all_iff)
  then show False by (simp add: profile_ok_def)
qed

lemma require_trusted_approval_Inr:
  "require_trusted_approval s aid fp src = Inr t \<longleftrightarrow>
     strip aid \<noteq> [] \<and> strip fp \<noteq> [] \<and> strip src \<noteq> [] \<and> map_of (ts_approvals s) (strip aid) = Some t
     \<and> ta_intent_fingerprint t = strip fp \<and> ta_source_ref t = strip src"
  by (auto simp: require_trusted_approval_def bindE_eq_Inr guard_passed split: option.splits if_splits)

subsection \<open>A snapshot in a store\<close>


definition demo_raw :: json where
  "demo_raw = JObj
     [(''snapshot_id'', JStr ''ctx''), (''source_fingerprint'', JStr ''src''), (''observed_at'', JStr ''1''),
      (''expires_at'', JStr ''22''), (''retained_scope_refs'', JList [JStr ''S1'']),
      (''truth_owners'', JObj [(''WHY'', JStr ''a''), (''WHAT'', JStr ''a''), (''HOW'', JStr ''a''),
         (''NOW'', JStr ''a''), (''PROOF'', JStr ''a'')]),
      (''policies'', JObj [(''mix'', JObj [(''required_functions'', JList [JStr ''render'']),
         (''required_dependencies'', JObj []), (''allowed_outcome_classes'', JList [JStr ''artifact'']),
         (''authority_by_action_class'', JObj [(''reversible'',
            JObj [(''requires_human'', JBool True), (''source_refs'', JList [JStr ''owner''])])])])]),
      (''approvals'', JList [])]"

text \<open>A clock that reads the length of the text.\<close>

definition demo_iso :: "string \<Rightarrow> stamp option" where
  "demo_iso s = Some (Aware (int (length s)))"





theorem validated_snapshot_ok_witness:
  "\<exists>s. validate_trusted_context_snapshot demo_sha demo_iso demo_raw = Inr s \<and> snapshot_ok s"
proof -
  have "\<not> isl (validate_trusted_context_snapshot demo_sha demo_iso demo_raw)" by code_simp
  then obtain s where s: "validate_trusted_context_snapshot demo_sha demo_iso demo_raw = Inr s"
    by (cases "validate_trusted_context_snapshot demo_sha demo_iso demo_raw") auto
  from validated_snapshot_ok [OF s] s show ?thesis by blast
qed

text \<open>
  Two policies whose names differ only in outer space are not refused, as two authority profiles whose
  class names coincide are: the later policy silently replaces the earlier.
\<close>

lemma policies_collapse:
  assumes "read_policy ''mix'' p = Inr a" and "read_policy ''mix'' q = Inr b"
  shows "read_policies (JObj [(''mix'', p), (''mix '', q)]) = Inr [(''mix'', b)]"
proof -
  have "strip ''mix'' = ''mix''" "strip ''mix '' = ''mix''" by code_simp+
  then show ?thesis using assms by simp
qed

end
