(* ===== verification/Permit_Facts.thy ===== *)
theory Permit_Facts
  imports Permit Trusted_Context_Facts
begin

text \<open>
  Facts about \<open>governance/execution_permit.py\<close>: base64 and payloads read back, issued permits can be
  consumed, once, and only for what they were issued for.
\<close>

subsection \<open>Base64 round trip\<close>

lemma code_of_small [simp]: "n < 256 \<Longrightarrow> code (char_of n) = n"
  by (rule code_char_of)

lemma b64_digit_cases:
  assumes "n < 64"
  shows "b64_value (b64_digit n) = Some n" and "code (b64_digit n) < 128"
    and "b64_digit n \<noteq> CHR ''=''" and "b64_digit n \<noteq> CHR ''.''"
proof -
  have d: "code (b64_digit n) = (if n < 26 then 65 + n else if n < 52 then 71 + n else if n < 62 then n - 4
      else if n = 62 then 45 else 95)"
    using assms by (simp add: b64_digit_def code_def)
  then show "b64_value (b64_digit n) = Some n" using assms by (auto simp: b64_value_def Let_def)
  show "code (b64_digit n) < 128" using d assms by auto
  have "code CHR ''='' = 61" "code CHR ''.'' = 46" by (simp_all add: code_def)
  with d show "b64_digit n \<noteq> CHR ''=''" "b64_digit n \<noteq> CHR ''.''" using assms by (auto split: if_splits)
qed

text \<open>The six-bit groups of three bytes.\<close>

lemma byte_parts:
  "code a div 4 < 64" "code a div 16 < 16" "code a div 64 < 4" "code a mod 4 < 4" "code a mod 16 < 16" "code a mod 64 < 64"
  using code_less [of a] by (auto simp: less_mult_imp_div_less)

lemma sextets [simp]:
  "code a div 4 < 64" "code a mod 4 * 16 + code b div 16 < 64" "code b mod 16 * 4 + code c div 64 < 64"
  "code c mod 64 < 64" "code a mod 4 * 16 < 64" "code b mod 16 * 4 < 64"
  using byte_parts [of a] byte_parts [of b] byte_parts [of c] by linarith+

lemma join_first: "char_of (code a div 4 * 4 + (code a mod 4 * 16 + code b div 16) div 16) = a"
  and join_first_only: "char_of (code a div 4 * 4 + (code a mod 4 * 16) div 16) = a"
  and join_second: "char_of ((code a mod 4 * 16 + code b div 16) mod 16 * 16 + (code b mod 16 * 4 + code c div 64) div 4) = b"
  and join_second_only: "char_of ((code a mod 4 * 16 + code b div 16) mod 16 * 16 + (code b mod 16 * 4) div 4) = b"
  and join_third: "char_of ((code b mod 16 * 4 + code c div 64) mod 4 * 64 + code c mod 64) = c"
proof -
  note p = byte_parts [of a] byte_parts [of b] byte_parts [of c]
  have 1: "(code a mod 4 * 16 + code b div 16) div 16 = code a mod 4" using p by simp
  show "char_of (code a div 4 * 4 + (code a mod 4 * 16 + code b div 16) div 16) = a"
    unfolding 1 by (simp add: div_mult_mod_eq)
  show "char_of (code a div 4 * 4 + (code a mod 4 * 16) div 16) = a"
    by (simp add: div_mult_mod_eq)
  have 2: "(code a mod 4 * 16 + code b div 16) mod 16 = code b div 16" using p by simp
  have 3: "(code b mod 16 * 4 + code c div 64) div 4 = code b mod 16" using p by simp
  show "char_of ((code a mod 4 * 16 + code b div 16) mod 16 * 16 + (code b mod 16 * 4 + code c div 64) div 4) = b"
    unfolding 2 3 by (simp add: div_mult_mod_eq)
  show "char_of ((code a mod 4 * 16 + code b div 16) mod 16 * 16 + (code b mod 16 * 4) div 4) = b"
    unfolding 2 by (simp add: div_mult_mod_eq)
  have 4: "(code b mod 16 * 4 + code c div 64) mod 4 = code c div 64" using p by simp
  show "char_of ((code b mod 16 * 4 + code c div 64) mod 4 * 64 + code c mod 64) = c"
    unfolding 4 by (simp add: div_mult_mod_eq)
qed

lemma a2b_digit:
  assumes "n < 64"
  shows "a2b_base64 0 l p (b64_digit n # r) = a2b_base64 1 n 0 r"
    and "a2b_base64 1 l p (b64_digit n # r) = map_option ((#) (char_of (l * 4 + n div 16))) (a2b_base64 2 (n mod 16) 0 r)"
    and "a2b_base64 2 l p (b64_digit n # r) = map_option ((#) (char_of (l * 16 + n div 4))) (a2b_base64 3 (n mod 4) 0 r)"
    and "a2b_base64 3 l p (b64_digit n # r) = map_option ((#) (char_of (l * 64 + n))) (a2b_base64 0 0 0 r)"
  using assms by (simp_all add: b64_digit_cases)

lemma a2b_padding:
  "a2b_base64 3 l 0 [CHR ''=''] = Some []" "a2b_base64 2 l 0 [CHR ''='', CHR ''=''] = Some []"
  by simp_all

declare a2b_base64.simps [simp del]

lemma a2b_encode: "a2b_base64 0 0 0 (urlsafe_b64encode d) = Some d"
proof (induction d rule: urlsafe_b64encode.induct)
  case 1
  show ?case by (simp add: a2b_base64.simps)
next
  case (2 a)
  show ?case by (simp only: urlsafe_b64encode.simps a2b_digit sextets a2b_padding option.map join_first_only)
next
  case (3 a b)
  show ?case
    by (simp only: urlsafe_b64encode.simps a2b_digit sextets a2b_padding option.map join_first join_second_only)
next
  case (4 a b c cs)
  then show ?case
    by (simp only: urlsafe_b64encode.simps a2b_digit sextets option.map join_first join_second join_third)
qed

text \<open>The encoding is digits followed by at most two paddings that complete a group of four.\<close>

lemma encode_shape:
  "\<exists>body n. urlsafe_b64encode d = body @ replicate n (CHR ''='')
     \<and> list_all (\<lambda>c. code c < 128 \<and> c \<noteq> CHR ''='' \<and> c \<noteq> CHR ''.'') body \<and> n = (4 - length body mod 4) mod 4"
proof (induction d rule: urlsafe_b64encode.induct)
  case 1
  show ?case by (rule exI [of _ "[]"]) simp
next
  case (2 a)
  show ?case
    by (rule exI [of _ "[b64_digit (code a div 4), b64_digit (code a mod 4 * 16)]"])
      (simp add: b64_digit_cases numeral_2_eq_2)
next
  case (3 a b)
  show ?case
    by (rule exI [of _ "[b64_digit (code a div 4), b64_digit (code a mod 4 * 16 + code b div 16),
        b64_digit (code b mod 16 * 4)]"]) (simp add: b64_digit_cases)
next
  case (4 a b c cs)
  then obtain body n where b: "urlsafe_b64encode cs = body @ replicate n (CHR ''='')"
    "list_all (\<lambda>c. code c < 128 \<and> c \<noteq> CHR ''='' \<and> c \<noteq> CHR ''.'') body" "n = (4 - length body mod 4) mod 4"
    by blast
  let ?b = "[b64_digit (code a div 4), b64_digit (code a mod 4 * 16 + code b div 16),
     b64_digit (code b mod 16 * 4 + code c div 64), b64_digit (code c mod 64)] @ body"
  have "length ?b mod 4 = length body mod 4" by simp
  then show ?case using b by (intro exI [of _ ?b] exI [of _ n]) (simp add: b64_digit_cases)
qed

lemma b64encode_shape:
  "list_all (\<lambda>c. code c < 128 \<and> c \<noteq> CHR ''='' \<and> c \<noteq> CHR ''.'') (b64encode d)
   \<and> b64encode d @ replicate ((4 - length (b64encode d) mod 4) mod 4) (CHR ''='') = urlsafe_b64encode d"
proof -
  obtain body n where b: "urlsafe_b64encode d = body @ replicate n (CHR ''='')"
    "list_all (\<lambda>c. code c < 128 \<and> c \<noteq> CHR ''='' \<and> c \<noteq> CHR ''.'') body" "n = (4 - length body mod 4) mod 4"
    using encode_shape by blast
  have "dropWhile (\<lambda>c. c = CHR ''='') (rev body) = rev body"
    using b(2) by (cases "rev body") (auto simp: list_all_iff dropWhile_eq_Cons_conv simp flip: set_rev [of body])
  then have "b64encode d = body"
  proof -
    have "dropWhile (\<lambda>c. c = CHR ''='') (replicate n (CHR ''='') @ ys) = dropWhile (\<lambda>c. c = CHR ''='') ys" for ys
      by (induction n) auto
    then show ?thesis
      using \<open>dropWhile (\<lambda>c. c = CHR ''='') (rev body) = rev body\<close> by (simp add: b64encode_def b(1))
  qed
  then show ?thesis using b by simp
qed

lemma b64decode_encode: "b64decode (b64encode d) = Inr d"
  using b64encode_shape [of d] a2b_encode [of d]
  by (auto simp: b64decode_def Let_def list_all_iff)

text \<open>
  Base64 with its padding removed decodes back: every byte string is recovered from its encoding,
  although the decoder pads the text itself and skips what is no digit.
\<close>

theorem base64_round_trip: "b64decode (b64encode d) = Inr d"
  by (rule b64decode_encode)

lemma split_encoded: "split_token (b64encode x @ ''.'' @ b64encode y) = Inr (b64encode x, b64encode y)"
proof -
  have n: "\<forall>c \<in> set (b64encode z). c \<noteq> CHR ''.''" for z
    using b64encode_shape [of z] by (simp add: list_all_iff)
  then have "filter (\<lambda>c. c = CHR ''.'') (b64encode z) = []" for z by (simp add: filter_empty_conv)
  then show ?thesis using n by (simp add: split_token_def takeWhile_append2 dropWhile_append2)
qed

subsection \<open>Reading a signed payload back\<close>

lemma map_of_sort_key:
  assumes "distinct (map fst kvs)"
  shows "map_of (sort_key fst kvs) = map_of kvs"
proof -
  have "distinct (map fst (sort_key fst kvs))" by (rule distinct_keys_sort [OF assms])
  then show ?thesis using assms by (simp add: map_of_inject_set)
qed

lemma field_norm:
  assumes "distinct (map fst kvs)"
  shows "field (norm_json (JObj kvs)) k = map_option norm_json (map_of kvs k)"
proof -
  have "distinct (map fst (map (\<lambda>(k, v). (k, norm_json v)) kvs))"
    using assms by (simp add: comp_def case_prod_unfold)
  then show ?thesis by (simp add: map_of_sort_key map_of_map)
qed

lemma payload_fields:
  "field (norm_json (permit_payload pid t x efp sfp ifp cls src)) k =
     map_of [(''version'', JInt PERMIT_VERSION), (''permit_id'', JStr pid), (''issued_at'', JInt t),
       (''expires_at'', JInt x), (''envelope_fingerprint'', JStr efp),
       (''context_snapshot_fingerprint'', JStr sfp), (''action_intent_fingerprint'', JStr ifp),
       (''action_class'', JStr cls), (''authority_source_ref'', JStr src)] k"
  unfolding permit_payload_def by (subst field_norm) simp_all

lemma payload_wf: "wf_json (permit_payload pid t x efp sfp ifp cls src)"
  by (simp add: permit_payload_def)

lemma payload_obj: "is_obj (norm_json (permit_payload pid t x efp sfp ifp cls src))"
  by (simp add: permit_payload_def)

lemma decode_signed:
  assumes P_def: "P = permit_payload pid t x efp sfp ifp cls src"
  shows "decode_permit mac secret (b64encode (canonical P) @ ''.'' @ b64encode (mac secret (canonical P)))
    = Inr (norm_json P)"
proof -
  have "utf8_decode (canonical P) = Some (dumps False P)" by (simp add: canonical_def utf8_roundtrip)
  moreover have "loads (dumps False P) = Some (norm_json P)" by (rule loads_dumps) (simp add: P_def payload_wf)
  moreover have "py_get (norm_json P) ''version'' JNull = Inr (JInt PERMIT_VERSION)"
    unfolding P_def by (simp add: py_get_def payload_obj payload_fields)
  ultimately show ?thesis
    unfolding decode_permit_def split_encoded bindE_Inr prod.case b64decode_encode by simp
qed

subsection \<open>What issuing and consuming need\<close>

definition binding_ok :: "json \<Rightarrow> action_intent \<Rightarrow> bool" where
  "binding_ok e a \<longleftrightarrow> (\<exists>au. field e ''authority'' = Some au \<and> field au ''action_class'' \<noteq> None
     \<and> enum_of au ''action_class'' = action_class_name (ai_action_class a))"

lemma validate_action_binding_Inr: "validate_action_binding e a = Inr u \<longleftrightarrow> binding_ok e a"
  by (auto simp: validate_action_binding_def binding_ok_def bindE_eq_Inr py_item_field enum_item_Inr guard_passed)

lemma each_Inr: "each f xs = Inr u \<longleftrightarrow> (\<forall>x \<in> set xs. f x = Inr ())"
  by (induction xs) (auto simp: bindE_eq_Inr)

definition payload_matches :: "json \<Rightarrow> (string \<times> string) list \<Rightarrow> bool" where
  "payload_matches payload claims \<longleftrightarrow> is_obj payload \<and> list_all (\<lambda>(f, v). field payload f = Some (JStr v)) claims"

lemma claims_checked: "claims \<noteq> [] \<Longrightarrow> each (check_claim payload) claims = Inr u \<longleftrightarrow> payload_matches payload claims"
proof -
  assume ne: "claims \<noteq> []"
  have "check_claim payload c = Inr () \<longleftrightarrow> is_obj payload \<and> field payload (fst c) = Some (JStr (snd c))" for c
    by (auto simp: check_claim_def bindE_eq_Inr py_get_def guard_passed split: option.splits)
  then show ?thesis
    unfolding each_Inr payload_matches_def list_all_iff using ne by (cases claims) (auto simp: case_prod_unfold)
qed

lemma expected_claims_nonempty [simp]: "expected_claims efp ifp a s src \<noteq> []"
  by (simp add: expected_claims_def)

text \<open>The identifier a payload carries.\<close>

definition payload_id :: "json \<Rightarrow> string" where
  "payload_id payload = (case field payload ''permit_id'' of None \<Rightarrow> [] | Some v \<Rightarrow> strip (py_str v))"

text \<open>What the payload must hold for a permit to be spent.\<close>

definition spendable :: "int \<Rightarrow> json \<Rightarrow> string \<Rightarrow> string \<Rightarrow> json \<Rightarrow> action_intent \<Rightarrow> trusted_snapshot \<Rightarrow> bool" where
  "spendable now payload efp ifp e a s \<longleftrightarrow>
     (\<exists>v expires src. field payload ''expires_at'' = Some v \<and> py_int_value v = Inr expires \<and> now \<le> expires
        \<and> authority_source e = Inr src \<and> payload_matches payload (expected_claims efp ifp a s src)
        \<and> payload_id payload \<noteq> [])"

lemma payload_id_get: "is_obj payload \<Longrightarrow> py_get payload ''permit_id'' (JStr []) = Inr v \<longleftrightarrow>
    (case field payload ''permit_id'' of None \<Rightarrow> v = JStr [] | Some w \<Rightarrow> v = w)"
  by (auto simp: py_get_def split: option.splits)

lemma spend_permit_Inr:
  "spend_permit now fault payload efp ifp e a s l = Inr (c, l') \<longleftrightarrow>
     spendable now payload efp ifp e a s \<and> \<not> fault \<and> payload_id payload \<notin> set (map pl_permit_id l)
     \<and> l' = l @ [\<lparr>pl_permit_id = payload_id payload, pl_consumed_at = now, pl_envelope_fingerprint = efp,
          pl_action_intent_fingerprint = ifp\<rparr>]
     \<and> c = \<lparr>cp_permit_id = payload_id payload, cp_consumed_at = now, cp_envelope_fingerprint = efp,
          cp_action_intent_fingerprint = ifp\<rparr>"
proof (cases "is_obj payload")
  case True
  have get: "bindE (py_get payload ''permit_id'' (JStr [])) (\<lambda>v. f (strip (py_str v))) = f (payload_id payload)" for f
    using True by (simp add: payload_id_def py_get_def split: option.splits)
  show ?thesis
    unfolding spend_permit_def Let_def spendable_def get [of "\<lambda>pid.
      bindE (guardE (pid \<noteq> []) (permit_error ''execution permit has no permit_id'')) (\<lambda>_.
      bindE (ledger_consume fault \<lparr>pl_permit_id = pid, pl_consumed_at = now,
              pl_envelope_fingerprint = efp, pl_action_intent_fingerprint = ifp\<rparr> l) (\<lambda>l.
      Inr (\<lparr>cp_permit_id = pid, cp_consumed_at = now, cp_envelope_fingerprint = efp,
            cp_action_intent_fingerprint = ifp\<rparr>, l)))"]
    by (simp add: bindE_eq_Inr guard_passed py_item_field claims_checked ledger_consume_def) blast
next
  case False
  then have "\<not> payload_matches payload claims" for claims by (simp add: payload_matches_def)
  then show ?thesis
    using False unfolding spend_permit_def spendable_def
    by (simp add: bindE_eq_Inr py_item_field claims_checked)
qed

definition cleared :: "int \<Rightarrow> json \<Rightarrow> action_intent \<Rightarrow> trusted_snapshot \<Rightarrow> bool" where
  "cleared clock e a s \<longleftrightarrow> validate_execution_envelope e = Inr True \<and> envelope_admissible e
     \<and> clock \<le> ts_expires_at s \<and> envelope_in_policy s e \<and> binding_ok e a"

lemma cleared_checks:
  "(\<exists>gate. require_execution_permit sha e = Inr gate \<and> crosscheck_execution_envelope clock e s None = Inr s
      \<and> validate_action_binding e a = Inr () \<and> gr_envelope_fingerprint gate = Some (sha (canonical e)))
   \<longleftrightarrow> cleared clock e a s"
  using require_permit_Inr [of sha e] require_permit_total [of e sha]
  by (auto simp: cleared_def crosscheck_iff validate_action_binding_Inr)

lemma consume_permit_iff:
  "consume_permit sha mac secret clock now fault token e a s l = Inr (c, l') \<longleftrightarrow>
     cleared clock e a s
     \<and> (\<exists>payload. decode_permit mac secret token = Inr payload
          \<and> spendable now payload (sha (canonical e)) (intent_fingerprint sha a) e a s
          \<and> \<not> fault \<and> payload_id payload \<notin> set (map pl_permit_id l)
          \<and> l' = l @ [\<lparr>pl_permit_id = payload_id payload, pl_consumed_at = now,
               pl_envelope_fingerprint = sha (canonical e), pl_action_intent_fingerprint = intent_fingerprint sha a\<rparr>]
          \<and> c = \<lparr>cp_permit_id = payload_id payload, cp_consumed_at = now,
               cp_envelope_fingerprint = sha (canonical e), cp_action_intent_fingerprint = intent_fingerprint sha a\<rparr>)"
proof
  assume "consume_permit sha mac secret clock now fault token e a s l = Inr (c, l')"
  then obtain gate v payload where r: "require_execution_permit sha e = Inr gate"
    "crosscheck_execution_envelope clock e s None = Inr v" "validate_action_binding e a = Inr ()"
    "decode_permit mac secret token = Inr payload"
    "spend_permit now fault payload (the (gr_envelope_fingerprint gate)) (intent_fingerprint sha a) e a s l = Inr (c, l')"
    by (auto simp: consume_permit_def elim!: bindE_InrE)
  have g: "gr_envelope_fingerprint gate = Some (sha (canonical e))" using require_permit_Inr [OF r(1)] by simp
  have "v = s" using r(2) crosscheck_iff by blast
  then have "cleared clock e a s" using r(1-3) g unfolding cleared_checks [of sha, symmetric] by blast
  then show "cleared clock e a s
     \<and> (\<exists>payload. decode_permit mac secret token = Inr payload
          \<and> spendable now payload (sha (canonical e)) (intent_fingerprint sha a) e a s
          \<and> \<not> fault \<and> payload_id payload \<notin> set (map pl_permit_id l)
          \<and> l' = l @ [\<lparr>pl_permit_id = payload_id payload, pl_consumed_at = now,
               pl_envelope_fingerprint = sha (canonical e), pl_action_intent_fingerprint = intent_fingerprint sha a\<rparr>]
          \<and> c = \<lparr>cp_permit_id = payload_id payload, cp_consumed_at = now,
               cp_envelope_fingerprint = sha (canonical e), cp_action_intent_fingerprint = intent_fingerprint sha a\<rparr>)"
    using r(4) r(5) [unfolded g option.sel spend_permit_Inr] by blast
next
  assume r: "cleared clock e a s
     \<and> (\<exists>payload. decode_permit mac secret token = Inr payload
          \<and> spendable now payload (sha (canonical e)) (intent_fingerprint sha a) e a s
          \<and> \<not> fault \<and> payload_id payload \<notin> set (map pl_permit_id l)
          \<and> l' = l @ [\<lparr>pl_permit_id = payload_id payload, pl_consumed_at = now,
               pl_envelope_fingerprint = sha (canonical e), pl_action_intent_fingerprint = intent_fingerprint sha a\<rparr>]
          \<and> c = \<lparr>cp_permit_id = payload_id payload, cp_consumed_at = now,
               cp_envelope_fingerprint = sha (canonical e), cp_action_intent_fingerprint = intent_fingerprint sha a\<rparr>)"
  then obtain gate where g: "require_execution_permit sha e = Inr gate"
    "crosscheck_execution_envelope clock e s None = Inr s" "validate_action_binding e a = Inr ()"
    "gr_envelope_fingerprint gate = Some (sha (canonical e))" unfolding cleared_checks [of sha, symmetric] by blast
  from r obtain payload where p: "decode_permit mac secret token = Inr payload"
    "spend_permit now fault payload (sha (canonical e)) (intent_fingerprint sha a) e a s l = Inr (c, l')"
    unfolding spend_permit_Inr by blast
  show "consume_permit sha mac secret clock now fault token e a s l = Inr (c, l')"
    unfolding consume_permit_def g(1-3) bindE_Inr p(1) g(4) option.sel p(2) ..
qed

subsection \<open>What a permit token must be\<close>

text \<open>A text that is the base64 form of some bytes once its padding is put back.\<close>

definition base64_text :: "string \<Rightarrow> string \<Rightarrow> bool" where
  "base64_text v data \<longleftrightarrow> (\<forall>c \<in> set v. code c < 128)
     \<and> (\<exists>n < 4. (length v + n) mod 4 = 0 \<and> a2b_base64 0 0 0 (v @ replicate n (CHR ''='')) = Some data)"

text \<open>A token of two such texts around its only dot, the second the HMAC of what the first encodes.\<close>

definition signed_bytes :: "(string \<Rightarrow> string \<Rightarrow> string) \<Rightarrow> string \<Rightarrow> string \<Rightarrow> string \<Rightarrow> bool" where
  "signed_bytes mac secret token data \<longleftrightarrow>
     (\<exists>p q. token = p @ ''.'' @ q \<and> CHR ''.'' \<notin> set p \<union> set q \<and> base64_text p data \<and> base64_text q (mac secret data))"

text \<open>The payload the bytes spell, of the version in use (1, which True equals).\<close>

definition payload_of :: "string \<Rightarrow> json \<Rightarrow> bool" where
  "payload_of data payload \<longleftrightarrow>
     (\<exists>text. utf8_decode data = Some text \<and> loads text = Some payload)
     \<and> field payload ''version'' \<in> {Some (JInt 1), Some (JBool True)}"

text \<open>A payload names an envelope, a snapshot, an action, its class and its source of authority.\<close>

definition payload_names :: "(string \<Rightarrow> string) \<Rightarrow> json \<Rightarrow> json \<Rightarrow> action_intent \<Rightarrow> trusted_snapshot \<Rightarrow> bool" where
  "payload_names sha payload e a s \<longleftrightarrow>
     field payload ''envelope_fingerprint'' = Some (JStr (sha (canonical e)))
     \<and> field payload ''context_snapshot_fingerprint'' = Some (JStr (ts_fingerprint s))
     \<and> field payload ''action_intent_fingerprint'' = Some (JStr (intent_fingerprint sha a))
     \<and> field payload ''action_class'' = Some (JStr (action_class_name (ai_action_class a)))
     \<and> (\<exists>authority src. field e ''authority'' = Some authority \<and> field authority ''source_ref'' = Some src
          \<and> field payload ''authority_source_ref'' = Some (JStr (strip (py_str src))))"

lemma padding_unique: "n < 4 \<and> (m + n) mod 4 = 0 \<longleftrightarrow> n = (4 - m mod 4) mod 4" for m n :: nat
proof -
  have m: "(m + n) mod 4 = (m mod 4 + n) mod 4" by (simp add: mod_simps)
  have "m mod 4 = 0 \<or> m mod 4 = 1 \<or> m mod 4 = 2 \<or> m mod 4 = 3" by linarith
  then show ?thesis unfolding m by (elim disjE; simp) presburger+
qed

lemma b64decode_Inr: "b64decode v = Inr data \<longleftrightarrow> base64_text v data"
proof -
  have "base64_text v data \<longleftrightarrow> (\<forall>c \<in> set v. code c < 128)
     \<and> a2b_base64 0 0 0 (v @ replicate ((4 - length v mod 4) mod 4) (CHR ''='')) = Some data"
    unfolding base64_text_def conj_assoc [symmetric] padding_unique by blast
  then show ?thesis
    by (simp add: b64decode_def Let_def list_all_iff split: option.splits)
qed

lemma split_token_Inr: "split_token t = Inr (p, q) \<longleftrightarrow> t = p @ ''.'' @ q \<and> CHR ''.'' \<notin> set p \<union> set q"
proof
  assume "split_token t = Inr (p, q)"
  then have t: "length (filter (\<lambda>c. c = CHR ''.'') t) = 1" "p = takeWhile (\<lambda>c. c \<noteq> CHR ''.'') t"
    "q = tl (dropWhile (\<lambda>c. c \<noteq> CHR ''.'') t)" by (auto simp: split_token_def split: if_splits)
  then have "filter (\<lambda>c. c = CHR ''.'') t \<noteq> []" by (metis length_0_conv zero_neq_one)
  then have "CHR ''.'' \<in> set t" by (auto simp: filter_empty_conv)
  then obtain xs ys where s: "t = xs @ CHR ''.'' # ys" "CHR ''.'' \<notin> set xs" by (meson split_list_first)
  then have "\<forall>c \<in> set xs. c \<noteq> CHR ''.''" by auto
  then have "p = xs" "q = ys" using t(2,3) s(1) by (simp_all add: takeWhile_append2 dropWhile_append2)
  moreover have "filter (\<lambda>c. c = CHR ''.'') ys = []" using t(1) s(1) by simp
  ultimately show "t = p @ ''.'' @ q \<and> CHR ''.'' \<notin> set p \<union> set q" using s by (auto simp: filter_empty_conv)
next
  assume t: "t = p @ ''.'' @ q \<and> CHR ''.'' \<notin> set p \<union> set q"
  then have "filter (\<lambda>c. c = CHR ''.'') p = []" "filter (\<lambda>c. c = CHR ''.'') q = []" by (auto simp: filter_empty_conv)
  moreover have "\<forall>c \<in> set p. c \<noteq> CHR ''.''" using t by auto
  ultimately show "split_token t = Inr (p, q)"
    using t by (simp add: split_token_def takeWhile_append2 dropWhile_append2)
qed

lemma payload_read:
  "(case utf8_decode data of None \<Rightarrow> Inl e1
     | Some text \<Rightarrow> (case loads text of None \<Rightarrow> Inl e2 | Some payload \<Rightarrow> Inr payload)) = Inr x
   \<longleftrightarrow> (\<exists>text. utf8_decode data = Some text \<and> loads text = Some x)"
  by (simp split: option.splits)

lemma version_read: "(\<exists>v. py_get x ''version'' JNull = Inr v \<and> py_eq v (JInt PERMIT_VERSION)) \<longleftrightarrow>
    field x ''version'' \<in> {Some (JInt 1), Some (JBool True)}"
proof -
  have "py_eq v (JInt 1) \<longleftrightarrow> v = JInt 1 \<or> v = JBool True" for v
    by (cases v) (auto simp: py_eq_def)
  then show ?thesis
    by (cases x) (auto simp: py_get_def PERMIT_VERSION_def split: option.splits)
qed

lemma decode_permit_Inr:
  "decode_permit mac secret token = Inr payload \<longleftrightarrow>
     (\<exists>data. signed_bytes mac secret token data \<and> payload_of data payload)"
proof -
  have "signed_bytes mac secret token data \<longleftrightarrow> (\<exists>p q. split_token token = Inr (p, q) \<and> b64decode p = Inr data
      \<and> b64decode q = Inr (mac secret data))" for data
    unfolding signed_bytes_def split_token_Inr b64decode_Inr conj_assoc ..
  then show ?thesis
    unfolding decode_permit_def payload_of_def version_read [symmetric]
    by (simp add: bindE_eq_Inr guard_passed payload_read) blast
qed

lemma claims_name:
  "(\<exists>src. authority_source e = Inr src
      \<and> payload_matches payload (expected_claims (sha (canonical e)) (intent_fingerprint sha a) a s src))
   \<longleftrightarrow> payload_names sha payload e a s"
  unfolding payload_names_def payload_matches_def expected_claims_def authority_source_def text_item_def
  by (auto simp: bindE_eq_Inr py_item_field dest: field_obj)


subsection \<open>What a consumption needs\<close>

lemma binding_named:
  "binding_ok e a \<longleftrightarrow> (\<exists>authority. field e ''authority'' = Some authority
     \<and> enum_of authority ''action_class'' = action_class_name (ai_action_class a))"
proof -
  have "action_class_name k \<noteq> []" for k by (cases k) simp_all
  then show ?thesis unfolding binding_ok_def using enum_present by metis
qed

text \<open>
  C8. A permit is consumed exactly when the envelope is well formed and admissible, the snapshot current
  and its policy kept, the class of the envelope the action's; the token is two base64 texts around its
  only dot, of which the second is the HMAC of what the first encodes; this payload is of the version in
  use, not expired, and names the envelope, the snapshot, the action, its class and the source of
  authority; and its id is not blank and not in the ledger, which does not fail. Consumption then
  appends one row with that id, the time and the two fingerprints, and nothing else.
\<close>

theorem consume_exact:
  "consume_permit sha mac secret clock now fault token e a s l = Inr (c, l') \<longleftrightarrow>
     well_formed_envelope e \<and> envelope_admissible e \<and> clock \<le> ts_expires_at s \<and> envelope_in_policy s e
     \<and> (\<exists>authority. field e ''authority'' = Some authority
          \<and> enum_of authority ''action_class'' = action_class_name (ai_action_class a))
     \<and> (\<exists>data payload v expires.
          signed_bytes mac secret token data \<and> payload_of data payload
          \<and> field payload ''expires_at'' = Some v \<and> py_int_value v = Inr expires \<and> now \<le> expires
          \<and> payload_names sha payload e a s
          \<and> payload_id payload \<noteq> [] \<and> payload_id payload \<notin> set (map pl_permit_id l) \<and> \<not> fault
          \<and> l' = l @ [\<lparr>pl_permit_id = payload_id payload, pl_consumed_at = now,
               pl_envelope_fingerprint = sha (canonical e), pl_action_intent_fingerprint = intent_fingerprint sha a\<rparr>]
          \<and> c = \<lparr>cp_permit_id = payload_id payload, cp_consumed_at = now,
               cp_envelope_fingerprint = sha (canonical e), cp_action_intent_fingerprint = intent_fingerprint sha a\<rparr>)"
proof -
  have "spendable now payload (sha (canonical e)) (intent_fingerprint sha a) e a s \<longleftrightarrow>
      (\<exists>v expires. field payload ''expires_at'' = Some v \<and> py_int_value v = Inr expires \<and> now \<le> expires)
      \<and> payload_names sha payload e a s \<and> payload_id payload \<noteq> []" for payload
    unfolding spendable_def claims_name [symmetric] by blast
  moreover have "cleared clock e a s \<longleftrightarrow> well_formed_envelope e \<and> envelope_admissible e \<and> clock \<le> ts_expires_at s
      \<and> envelope_in_policy s e \<and> (\<exists>authority. field e ''authority'' = Some authority
        \<and> enum_of authority ''action_class'' = action_class_name (ai_action_class a))"
    unfolding cleared_def validate_envelope_Inr using binding_named by blast
  ultimately show ?thesis unfolding consume_permit_iff decode_permit_Inr by blast
qed

subsection \<open>Issuing\<close>

definition human_cleared :: "(string \<Rightarrow> string) \<Rightarrow> json \<Rightarrow> action_intent \<Rightarrow> approval_binding option \<Rightarrow> trusted_snapshot \<Rightarrow> bool" where
  "human_cleared sha e a approval s \<longleftrightarrow>
     (\<exists>au v. field e ''authority'' = Some au \<and> field au ''requires_human'' = Some v
        \<and> (v \<noteq> JBool True \<or> (\<exists>ap t. approval = Some ap \<and> ab_intent_fingerprint ap = intent_fingerprint sha a
             \<and> require_trusted_approval s (ab_approval_id ap) (ab_intent_fingerprint ap) (ab_source_ref ap) = Inr t)))"

lemma trusted_or_permit_error_Inr: "trusted_or_permit_error r = Inr x \<longleftrightarrow> r = Inr x"
  by (cases r) (auto simp: trusted_or_permit_error_def)

lemma human_approval_Inr:
  "validate_required_human_approval sha e a approval s = Inr u \<longleftrightarrow> human_cleared sha e a approval s"
  unfolding validate_required_human_approval_def human_cleared_def
  by (cases approval) (auto simp: bindE_eq_Inr py_item_field guard_passed trusted_or_permit_error_Inr
      validate_approval_def Let_def split: if_splits)

definition issued_payload ::
  "(string \<Rightarrow> string) \<Rightarrow> int \<Rightarrow> string \<Rightarrow> json \<Rightarrow> action_intent \<Rightarrow> trusted_snapshot \<Rightarrow> int \<Rightarrow> string \<Rightarrow> json" where
  "issued_payload sha now uuid e a s ttl src =
     permit_payload (''permit_'' @ uuid) now (now + ttl) (sha (canonical e)) (ts_fingerprint s)
       (intent_fingerprint sha a) (action_class_name (ai_action_class a)) src"

definition issued :: "(string \<Rightarrow> string) \<Rightarrow> (string \<Rightarrow> string \<Rightarrow> string) \<Rightarrow> string \<Rightarrow> int \<Rightarrow> string \<Rightarrow> json \<Rightarrow> action_intent
     \<Rightarrow> trusted_snapshot \<Rightarrow> int \<Rightarrow> string \<Rightarrow> issued_permit" where
  "issued sha mac secret now uuid e a s ttl src =
     (let payload_bytes = canonical (issued_payload sha now uuid e a s ttl src) in
      \<lparr>ip_token = b64encode payload_bytes @ ''.'' @ b64encode (mac secret payload_bytes),
       ip_permit_id = ''permit_'' @ uuid, ip_issued_at = now, ip_expires_at = now + ttl,
       ip_envelope_fingerprint = sha (canonical e), ip_context_snapshot_fingerprint = ts_fingerprint s,
       ip_action_intent_fingerprint = intent_fingerprint sha a,
       ip_action_class = action_class_name (ai_action_class a)\<rparr>)"

lemma issue_exact:
  "issue_permit sha mac secret clock now uuid e a s approval ttl = Inr p \<longleftrightarrow>
     1 \<le> ttl \<and> ttl \<le> 900 \<and> cleared clock e a s \<and> ai_action_class a \<noteq> READ_ONLY
     \<and> human_cleared sha e a approval s
     \<and> (\<exists>src. authority_source e = Inr src \<and> p = issued sha mac secret now uuid e a s ttl src)"
proof
  assume "issue_permit sha mac secret clock now uuid e a s approval ttl = Inr p"
  then obtain gate v src u w where r: "1 \<le> ttl \<and> ttl \<le> 900" "require_execution_permit sha e = Inr gate"
    "crosscheck_execution_envelope clock e s None = Inr v" "validate_action_binding e a = Inr u"
    "ai_action_class a \<noteq> READ_ONLY" "validate_required_human_approval sha e a approval s = Inr w"
    "authority_source e = Inr src"
    and p: "Inr \<lparr>ip_token = b64encode (canonical (permit_payload (''permit_'' @ uuid) now (now + ttl)
             (the (gr_envelope_fingerprint gate)) (ts_fingerprint s) (intent_fingerprint sha a)
             (action_class_name (ai_action_class a)) src)) @ ''.'' @ b64encode (mac secret (canonical (permit_payload (''permit_'' @ uuid) now (now + ttl)
             (the (gr_envelope_fingerprint gate)) (ts_fingerprint s) (intent_fingerprint sha a)
             (action_class_name (ai_action_class a)) src))),
       ip_permit_id = ''permit_'' @ uuid, ip_issued_at = now, ip_expires_at = now + ttl,
       ip_envelope_fingerprint = the (gr_envelope_fingerprint gate), ip_context_snapshot_fingerprint = ts_fingerprint s,
       ip_action_intent_fingerprint = intent_fingerprint sha a,
       ip_action_class = action_class_name (ai_action_class a)\<rparr> = (Inr p :: issued_permit res)"
    unfolding issue_permit_def Let_def
    by (elim bindE_InrE) (unfold guard_passed, rule that, assumption+)
  have g: "gr_envelope_fingerprint gate = Some (sha (canonical e))" using require_permit_Inr [OF r(2)] by simp
  have "v = s" using r(3) crosscheck_iff by blast
  then have "cleared clock e a s" using r(2-4) g unfolding cleared_checks [of sha, symmetric] by (cases u) blast
  then show "1 \<le> ttl \<and> ttl \<le> 900 \<and> cleared clock e a s \<and> ai_action_class a \<noteq> READ_ONLY
     \<and> human_cleared sha e a approval s
     \<and> (\<exists>src. authority_source e = Inr src \<and> p = issued sha mac secret now uuid e a s ttl src)"
    using r(1,5,7) r(6) [unfolded human_approval_Inr] p [unfolded g option.sel sum.inject]
    unfolding issued_def issued_payload_def Let_def by blast
next
  assume r: "1 \<le> ttl \<and> ttl \<le> 900 \<and> cleared clock e a s \<and> ai_action_class a \<noteq> READ_ONLY
     \<and> human_cleared sha e a approval s
     \<and> (\<exists>src. authority_source e = Inr src \<and> p = issued sha mac secret now uuid e a s ttl src)"
  then obtain gate where g: "require_execution_permit sha e = Inr gate"
    "crosscheck_execution_envelope clock e s None = Inr s" "validate_action_binding e a = Inr ()"
    "gr_envelope_fingerprint gate = Some (sha (canonical e))" unfolding cleared_checks [of sha, symmetric] by blast
  from r have h: "validate_required_human_approval sha e a approval s = Inr ()" unfolding human_approval_Inr by blast
  from r obtain src where src: "authority_source e = Inr src" "p = issued sha mac secret now uuid e a s ttl src" by blast
  show "issue_permit sha mac secret clock now uuid e a s approval ttl = Inr p"
    unfolding issue_permit_def g(1-3) h src bindE_Inr g(4) option.sel issued_def issued_payload_def Let_def
    using r by simp
qed

lemma decode_issued:
  "decode_permit mac secret (ip_token (issued sha mac secret now uuid e a s ttl src))
     = Inr (norm_json (issued_payload sha now uuid e a s ttl src))"
  unfolding issued_def Let_def issued_permit.simps by (rule decode_signed) (rule issued_payload_def)

lemma issued_payload_id: "payload_id (norm_json (issued_payload sha now uuid e a s ttl src)) = strip (''permit_'' @ uuid)"
  by (simp add: payload_id_def issued_payload_def payload_fields)

lemma strip_permit: "strip (''permit_'' @ uuid) \<noteq> []"
proof
  assume "strip (''permit_'' @ uuid) = []"
  then have "lstrip (rev (lstrip (''permit_'' @ uuid))) = []" by (simp add: strip_def)
  moreover have "lstrip (''permit_'' @ uuid) = ''permit_'' @ uuid"
    by (rule lstrip_id) (simp_all add: is_space_def code_def)
  moreover have "\<not> is_space (CHR ''p'')" by (simp add: is_space_def code_def)
  ultimately show False by (auto simp: lstrip_def dropWhile_eq_Nil_conv)
qed

lemma issued_matches:
  "payload_matches (norm_json (issued_payload sha now uuid e a s ttl src)) (expected_claims efp ifp a' s' src') \<longleftrightarrow>
     efp = sha (canonical e) \<and> ts_fingerprint s' = ts_fingerprint s \<and> ifp = intent_fingerprint sha a
     \<and> action_class_name (ai_action_class a') = action_class_name (ai_action_class a) \<and> src' = src"
  unfolding payload_matches_def issued_payload_def
  by (auto simp: payload_obj payload_fields expected_claims_def)

lemma issued_spendable:
  assumes "authority_source e = Inr src"
  shows "spendable now' (norm_json (issued_payload sha now uuid e a s ttl src)) (sha (canonical e))
      (intent_fingerprint sha a) e a s \<longleftrightarrow> now' \<le> now + ttl"
  unfolding spendable_def issued_payload_id
  using strip_permit assms by (simp add: issued_matches) (simp add: issued_payload_def payload_fields)

text \<open>
  C5. A permit that was issued can be used: until it expires (at most fifteen minutes later), for the
  same envelope, action and snapshot and as long as the snapshot is current, consuming its token
  succeeds against any ledger that does not have its id, and enters the id.
\<close>

theorem issued_permit_consumable:
  assumes "issue_permit sha mac secret clock now uuid e a s approval ttl = Inr p"
    and "now' \<le> ip_expires_at p" and "clock' \<le> ts_expires_at s"
    and "strip (ip_permit_id p) \<notin> set (map pl_permit_id l)"
  shows "\<exists>c l'. consume_permit sha mac secret clock' now' False (ip_token p) e a s l = Inr (c, l')
    \<and> cp_permit_id c = strip (ip_permit_id p)
    \<and> map pl_permit_id l' = map pl_permit_id l @ [strip (ip_permit_id p)]
    \<and> ip_expires_at p \<le> ip_issued_at p + 900"
proof -
  from assms(1) [unfolded issue_exact] obtain src where r: "1 \<le> ttl" "ttl \<le> 900" "cleared clock e a s"
    "authority_source e = Inr src" and p: "p = issued sha mac secret now uuid e a s ttl src" by blast
  let ?P = "norm_json (issued_payload sha now uuid e a s ttl src)"
  have x: "ip_expires_at p = now + ttl" "ip_permit_id p = ''permit_'' @ uuid" "ip_issued_at p = now"
    unfolding p issued_def Let_def by simp_all
  have "spendable now' ?P (sha (canonical e)) (intent_fingerprint sha a) e a s"
    using assms(2) issued_spendable [OF r(4)] x(1) by simp
  moreover have "cleared clock' e a s" using r(3) assms(3) by (simp add: cleared_def)
  moreover have "decode_permit mac secret (ip_token p) = Inr ?P" unfolding p by (rule decode_issued)
  moreover have "payload_id ?P = strip (ip_permit_id p)" unfolding issued_payload_id x(2) ..
  ultimately show ?thesis
    using assms(4) r(2) x(1,3) unfolding consume_permit_iff by (intro exI conjI) (assumption | rule refl | simp)+
qed

text \<open>
  C4. A permit authorizes exactly what it was issued for: if its token is ever consumed, then for the
  same envelope (up to the order of keys), the same action intent and a snapshot of the same
  fingerprint, and before it expired.
\<close>

theorem permit_binds_action:
  assumes "issue_permit sha mac secret clock now uuid e a s approval ttl = Inr p"
    and "consume_permit sha mac secret clock' now' fault (ip_token p) e' a' s' l = Inr (c, l')"
    and "collision_free sha [canonical (material_fields a), canonical (material_fields a')]"
    and "collision_free sha [canonical e, canonical e']" and "wf_json e" and "wf_json e'"
  shows "a' = a \<and> norm_json e' = norm_json e \<and> ts_fingerprint s' = ts_fingerprint s \<and> now' \<le> ip_expires_at p"
proof -
  from assms(1) [unfolded issue_exact] obtain src where
    p: "p = issued sha mac secret now uuid e a s ttl src" by blast
  let ?P = "norm_json (issued_payload sha now uuid e a s ttl src)"
  have "decode_permit mac secret (ip_token p) = Inr ?P" unfolding p by (rule decode_issued)
  then have sp: "spendable now' ?P (sha (canonical e')) (intent_fingerprint sha a') e' a' s'"
    using assms(2) [unfolded consume_permit_iff] by auto
  then obtain v x src' where v: "field ?P ''expires_at'' = Some v" "py_int_value v = Inr x" "now' \<le> x"
    "payload_matches ?P (expected_claims (sha (canonical e')) (intent_fingerprint sha a') a' s' src')"
    unfolding spendable_def by blast
  from v(1-3) have "now' \<le> now + ttl" by (auto simp: issued_payload_def payload_fields)
  moreover from v(4) [unfolded issued_matches] have eq: "sha (canonical e') = sha (canonical e)"
    "ts_fingerprint s' = ts_fingerprint s" "intent_fingerprint sha a' = intent_fingerprint sha a" by simp_all
  have "canonical e' = canonical e" by (rule collision_freeD [OF assms(4) _ _ eq(1)]) simp_all
  then have "norm_json e' = norm_json e" by (rule canonical_inj [OF assms(6,5)])
  moreover have "a' = a"
    using intent_fingerprint_eq_iff [OF assms(3), of a' a] eq(3) by simp
  ultimately show ?thesis using eq(2) by (simp add: p issued_def Let_def)
qed

subsection \<open>One use\<close>

record attempt =
  at_clock :: int
  at_now :: int
  at_fault :: bool
  at_token :: string
  at_envelope :: json
  at_action :: action_intent
  at_snapshot :: trusted_snapshot

definition try_consume ::
  "(string \<Rightarrow> string) \<Rightarrow> (string \<Rightarrow> string \<Rightarrow> string) \<Rightarrow> string \<Rightarrow> attempt \<Rightarrow> ledger \<Rightarrow> (consumed_permit \<times> ledger) res" where
  "try_consume sha mac secret x l =
     consume_permit sha mac secret (at_clock x) (at_now x) (at_fault x) (at_token x) (at_envelope x) (at_action x)
       (at_snapshot x) l"

fun after_attempts :: "(string \<Rightarrow> string) \<Rightarrow> (string \<Rightarrow> string \<Rightarrow> string) \<Rightarrow> string \<Rightarrow> attempt list \<Rightarrow> ledger \<Rightarrow> ledger" where
  "after_attempts sha mac secret [] l = l"
| "after_attempts sha mac secret (x # xs) l =
     after_attempts sha mac secret xs
       (case try_consume sha mac secret x l of Inl _ \<Rightarrow> l | Inr (c, l') \<Rightarrow> l')"

lemma try_consume_grows:
  "try_consume sha mac secret x l = Inr (c, l') \<Longrightarrow> \<exists>row. l' = l @ [row] \<and> pl_permit_id row \<notin> set (map pl_permit_id l)"
  unfolding try_consume_def consume_permit_iff by auto

lemma attempts_grow: "set (map pl_permit_id l) \<subseteq> set (map pl_permit_id (after_attempts sha mac secret xs l))"
proof (induction xs arbitrary: l)
  case (Cons x xs)
  show ?case
  proof (cases "try_consume sha mac secret x l")
    case (Inr r)
    obtain c l' where "r = (c, l')" by (cases r)
    with Inr try_consume_grows obtain row where "try_consume sha mac secret x l = Inr (c, l @ [row])" by blast
    then show ?thesis using Cons.IH [of "l @ [row]"] by auto
  qed (use Cons.IH in simp)
qed simp

lemma attempts_distinct:
  "distinct (map pl_permit_id l) \<Longrightarrow> distinct (map pl_permit_id (after_attempts sha mac secret xs l))"
proof (induction xs arbitrary: l)
  case (Cons x xs)
  show ?case
  proof (cases "try_consume sha mac secret x l")
    case (Inr r)
    obtain c l' where "r = (c, l')" by (cases r)
    with Inr try_consume_grows obtain row where "try_consume sha mac secret x l = Inr (c, l @ [row])"
      "pl_permit_id row \<notin> set (map pl_permit_id l)" by blast
    then show ?thesis using Cons.IH [of "l @ [row]"] Cons.prems by simp
  qed (use Cons in simp)
qed simp

text \<open>
  C3. A permit is used at most once: after its token was consumed and any number of further attempts
  with any tokens, consuming it again is refused, whatever envelope, action, snapshot or time is
  presented; and every id stands in the ledger once.
\<close>

theorem permit_used_once:
  assumes "try_consume sha mac secret x l = Inr (c, l')" and "at_token y = at_token x"
    and "distinct (map pl_permit_id l)"
  shows "isl (try_consume sha mac secret y (after_attempts sha mac secret xs l'))
    \<and> distinct (map pl_permit_id (after_attempts sha mac secret xs l'))"
proof
  from assms(1) obtain payload where p: "decode_permit mac secret (at_token x) = Inr payload"
    "payload_id payload \<in> set (map pl_permit_id l')"
    unfolding try_consume_def consume_permit_iff by force
  show "isl (try_consume sha mac secret y (after_attempts sha mac secret xs l'))"
  proof (rule ccontr)
    assume "\<not> isl (try_consume sha mac secret y (after_attempts sha mac secret xs l'))"
    then obtain d l'' where "try_consume sha mac secret y (after_attempts sha mac secret xs l') = Inr (d, l'')"
      by (cases "try_consume sha mac secret y (after_attempts sha mac secret xs l')") auto
    then have "payload_id payload \<notin> set (map pl_permit_id (after_attempts sha mac secret xs l'))"
      using p(1) assms(2) unfolding try_consume_def consume_permit_iff by auto
    then show False using p(2) attempts_grow by blast
  qed
  from try_consume_grows [OF assms(1)] assms(3) have "distinct (map pl_permit_id l')" by auto
  then show "distinct (map pl_permit_id (after_attempts sha mac secret xs l'))" by (rule attempts_distinct)
qed

text \<open>
  C6. A permit for an action that requires a human is issued only with an approval bound to exactly
  that action intent which the trusted snapshot itself records, under the same id and source.
\<close>

theorem human_approval_is_trusted:
  assumes "issue_permit sha mac secret clock now uuid e a s approval ttl = Inr p"
    and "field e ''authority'' = Some au" and "field au ''requires_human'' = Some (JBool True)"
    and "sha_text sha"
  shows "\<exists>ap t. approval = Some ap \<and> ab_intent_fingerprint ap = intent_fingerprint sha a
    \<and> map_of (ts_approvals s) (strip (ab_approval_id ap)) = Some t
    \<and> ta_intent_fingerprint t = intent_fingerprint sha a \<and> ta_source_ref t = strip (ab_source_ref ap)"
proof -
  from assms(1) have "human_cleared sha e a approval s" unfolding issue_exact by blast
  then obtain ap t where h: "approval = Some ap" "ab_intent_fingerprint ap = intent_fingerprint sha a"
    "require_trusted_approval s (ab_approval_id ap) (ab_intent_fingerprint ap) (ab_source_ref ap) = Inr t"
    using assms(2,3) by (auto simp: human_cleared_def)
  moreover have "strip (intent_fingerprint sha a) = intent_fingerprint sha a"
    using assms(4) by (simp add: intent_fingerprint_def sha_text_def strip_trimmed)
  ultimately show ?thesis unfolding require_trusted_approval_Inr by auto
qed

subsection \<open>A permit used\<close>

definition demo_claim :: json where
  "demo_claim = JObj [(''statement'', JStr ''the mix is current''), (''truth_type'', JStr ''current_fact''),
     (''evidence_posture'', JStr ''observed''), (''source_refs'', JList [JStr ''log:1'']),
     (''blocking'', JBool True)]"

definition demo_authority :: json where
  "demo_authority = JObj [(''action_class'', JStr ''reversible''), (''authorized'', JBool True),
     (''requires_human'', JBool True), (''source_ref'', JStr ''owner'')]"

definition demo_envelope :: json where
  "demo_envelope = JObj
     [(''intent'', JObj [(''description'', JStr ''render''), (''outcome_class'', JStr ''ARTIFACT'')]),
      (''active_object'', JStr ''mix''), (''retained_scope_refs'', JList [JStr ''S1'']),
      (''dependencies'', JObj [(''upstream'', JList []), (''downstream'', JList [])]),
      (''truth_owners'', JObj [(''WHY'', JStr ''a''), (''WHAT'', JStr ''a''), (''HOW'', JStr ''a''),
         (''NOW'', JStr ''a''), (''PROOF'', JStr ''a'')]),
      (''claims'', JList [demo_claim]), (''required_functions'', JList [JStr ''render'']),
      (''invoked_functions'', JList [JStr ''render'']), (''authority'', demo_authority),
      (''acceptance'', JObj [(''outcome_class'', JStr ''artifact''), (''observable_condition'', JStr ''file''),
         (''evidence_required'', JList [JStr ''hash''])]),
      (''next_causal_dependency'', JObj [(''state'', JStr ''NONE''), (''description'', JStr ''none''),
         (''source_ref'', JStr ''plan'')])]"

definition demo_action :: action_intent where
  "demo_action = \<lparr>ai_action_id = ''act'', ai_job_id = ''job'', ai_action_class = REVERSIBLE,
     ai_description = ''render'', ai_target_ref = ''mix'', ai_revision_fingerprint = ''r1'',
     ai_payload_fingerprint = ''p1'', ai_destination = None, ai_purpose = None, ai_data_categories = []\<rparr>"

definition demo_trusted :: trusted_snapshot where
  "demo_trusted = \<lparr>ts_snapshot_id = ''ctx'', ts_source_fingerprint = ''src'', ts_observed_at = 0, ts_expires_at = 100,
     ts_retained_scope_refs = [''S1''], ts_truth_owners = map (\<lambda>p. (p, ''a'')) TRUTH_PLANES,
     ts_policies = [(''mix'', \<lparr>po_required_functions = [''render''], po_upstream = [], po_downstream = [],
        po_allowed_outcome_classes = [''ARTIFACT''],
        po_authority_by_action_class = [(''REVERSIBLE'', \<lparr>pr_requires_human = True, pr_source_refs = [''owner'']\<rparr>)]\<rparr>)],
     ts_approvals = [(''ap1'', \<lparr>ta_intent_fingerprint = intent_fingerprint demo_sha demo_action, ta_source_ref = ''owner''\<rparr>)],
     ts_fingerprint = ''ctxfp''\<rparr>"

definition demo_approval :: approval_binding where
  "demo_approval = \<lparr>ab_approval_id = ''ap1'', ab_intent_fingerprint = intent_fingerprint demo_sha demo_action,
     ab_source_ref = ''owner''\<rparr>"

lemma demo_valid: "validate_execution_envelope demo_envelope = Inr True"
  by code_simp

lemma demo_crosscheck: "\<not> isl (crosscheck_execution_envelope 50 demo_envelope demo_trusted None)"
  by code_simp

lemma demo_binding: "validate_action_binding demo_envelope demo_action = Inr ()"
  by code_simp

lemma demo_blockers: "gr_blockers (projr (gate_validated (\<lambda>x. []) demo_envelope)) = []"
  by code_simp

lemma demo_in_policy: "envelope_in_policy demo_trusted demo_envelope"
proof -
  obtain s where "crosscheck_execution_envelope 50 demo_envelope demo_trusted None = Inr s"
    using demo_crosscheck by (cases "crosscheck_execution_envelope 50 demo_envelope demo_trusted None") auto
  then show ?thesis unfolding crosscheck_iff by blast
qed

lemma demo_admissible: "envelope_admissible demo_envelope"
  using gate_validated_total [OF demo_valid, of "\<lambda>x. []"] demo_blockers by auto

lemma demo_cleared: "clock \<le> 100 \<Longrightarrow> cleared clock demo_envelope demo_action demo_trusted"
  using demo_valid demo_admissible demo_in_policy demo_binding [unfolded validate_action_binding_Inr]
  by (simp add: cleared_def demo_trusted_def)

lemma demo_authority_at: "field demo_envelope ''authority'' = Some demo_authority"
  by (simp add: demo_envelope_def)

lemma demo_human: "human_cleared demo_sha demo_envelope demo_action (Some demo_approval) demo_trusted"
proof -
  have "strip (intent_fingerprint demo_sha demo_action) = intent_fingerprint demo_sha demo_action"
    using demo_sha_text by (simp add: intent_fingerprint_def sha_text_def strip_trimmed)
  moreover have "intent_fingerprint demo_sha demo_action \<noteq> []"
    using demo_sha_text trimmed_nonempty by (auto simp: intent_fingerprint_def sha_text_def)
  moreover have "strip ''ap1'' = ''ap1''" "strip ''owner'' = ''owner''" by code_simp+
  ultimately have "\<exists>t. require_trusted_approval demo_trusted (ab_approval_id demo_approval)
      (ab_intent_fingerprint demo_approval) (ab_source_ref demo_approval) = Inr t"
    by (simp add: require_trusted_approval_Inr demo_trusted_def demo_approval_def)
  then show ?thesis
    unfolding human_cleared_def demo_authority_at by (simp add: demo_authority_def demo_approval_def)
qed

lemma demo_source: "authority_source demo_envelope = Inr ''owner''"
  by code_simp

definition demo_mac :: "string \<Rightarrow> string \<Rightarrow> string" where
  "demo_mac key msg = key @ msg"

definition demo_permit :: issued_permit where
  "demo_permit = issued demo_sha demo_mac ''key'' 10 ''u1'' demo_envelope demo_action demo_trusted 300 ''owner''"

lemma demo_issue:
  "issue_permit demo_sha demo_mac ''key'' 50 10 ''u1'' demo_envelope demo_action demo_trusted (Some demo_approval) 300
     = Inr demo_permit"
  unfolding issue_exact using demo_cleared [of 50] demo_human demo_source
  by (simp add: demo_permit_def) (simp add: demo_action_def)

lemma demo_permit_times: "ip_expires_at demo_permit = 310" "ip_issued_at demo_permit = 10"
  by (simp_all add: demo_permit_def issued_def Let_def)

theorem issued_permit_consumable_witness:
  "\<exists>c l'. consume_permit demo_sha demo_mac ''key'' 60 20 False (ip_token demo_permit) demo_envelope demo_action
      demo_trusted [] = Inr (c, l') \<and> length l' = 1"
proof -
  have t: "20 \<le> ip_expires_at demo_permit" by (simp add: demo_permit_times)
  have x: "60 \<le> ts_expires_at demo_trusted" by (simp add: demo_trusted_def)
  have n: "strip (ip_permit_id demo_permit) \<notin> set (map pl_permit_id [])" by simp
  from issued_permit_consumable [OF demo_issue t x n] obtain c l' where
    c: "consume_permit demo_sha demo_mac ''key'' 60 20 False (ip_token demo_permit)
      demo_envelope demo_action demo_trusted [] = Inr (c, l')"
    and l: "map pl_permit_id l' = [strip (ip_permit_id demo_permit)]" unfolding list.map append_Nil by (elim exE conjE)
  have "length (map pl_permit_id l') = 1" unfolding l by simp
  then have "length l' = 1" by (simp only: length_map)
  with c show ?thesis by blast
qed

lemma demo_consume:
  "\<exists>c l'. consume_permit demo_sha demo_mac ''key'' 60 20 False (ip_token demo_permit) demo_envelope demo_action
      demo_trusted [] = Inr (c, l')"
proof -
  have "spendable 20 (norm_json (issued_payload demo_sha 10 ''u1'' demo_envelope demo_action demo_trusted 300 ''owner''))
      (demo_sha (canonical demo_envelope)) (intent_fingerprint demo_sha demo_action) demo_envelope demo_action demo_trusted"
    unfolding issued_spendable [OF demo_source] by simp
  then show ?thesis
    unfolding consume_permit_iff demo_permit_def decode_issued using demo_cleared [of 60] by simp
qed

lemma demo_envelope_wf: "wf_json demo_envelope"
  by code_simp

theorem permit_binds_action_witness:
  "\<exists>c l'. consume_permit demo_sha demo_mac ''key'' 60 20 False (ip_token demo_permit) demo_envelope demo_action
      demo_trusted [] = Inr (c, l') \<and> (20::int) \<le> ip_expires_at demo_permit"
proof -
  obtain c l' where c: "consume_permit demo_sha demo_mac ''key'' 60 20 False (ip_token demo_permit) demo_envelope
      demo_action demo_trusted [] = Inr (c, l')" using demo_consume by blast
  from permit_binds_action [OF demo_issue c demo_sha_free demo_sha_free demo_envelope_wf demo_envelope_wf] c
  show ?thesis by blast
qed

definition demo_attempt :: attempt where
  "demo_attempt = \<lparr>at_clock = 60, at_now = 20, at_fault = False, at_token = ip_token demo_permit,
     at_envelope = demo_envelope, at_action = demo_action, at_snapshot = demo_trusted\<rparr>"

theorem permit_used_once_witness:
  "\<exists>c l'. try_consume demo_sha demo_mac ''key'' demo_attempt [] = Inr (c, l')
     \<and> isl (try_consume demo_sha demo_mac ''key'' demo_attempt (after_attempts demo_sha demo_mac ''key'' [demo_attempt] l'))"
proof -
  obtain c l' where c: "try_consume demo_sha demo_mac ''key'' demo_attempt [] = Inr (c, l')"
    using demo_consume by (auto simp: try_consume_def demo_attempt_def)
  from permit_used_once [OF c refl, of "[demo_attempt]"] c show ?thesis by auto
qed

theorem human_approval_is_trusted_witness:
  "\<exists>t. map_of (ts_approvals demo_trusted) (strip (ab_approval_id demo_approval)) = Some t
     \<and> ta_intent_fingerprint t = intent_fingerprint demo_sha demo_action"
proof -
  have "field demo_authority ''requires_human'' = Some (JBool True)" by (simp add: demo_authority_def)
  from human_approval_is_trusted [OF demo_issue demo_authority_at this demo_sha_text] show ?thesis by auto
qed

end
