(* ===== verification/Gateway_Facts.thy ===== *)
theory Gateway_Facts
  imports Gateway Permit_Facts
begin

text \<open>
  Facts about \<open>coordinator_gateway.py\<close>: no effect without a permit, no replay, success only when verified
  and reconciled; discovery needs transport, and accepted responses are bound to their request.
\<close>

subsection \<open>Mutations\<close>

lemma admit_mutation_Inr:
  assumes "admit_mutation sha mac secret contexts mutations clock now fault name token sid e a l = Inr (reg, c, l')"
  obtains s where "map_of mutations (strip name) = Some reg"
    "action_class_name (ai_action_class a) = mu_action_class reg" "contexts sid = Inr s"
    "consume_permit sha mac secret clock now fault token e a s l = Inr (c, l')"
  using assms unfolding admit_mutation_def Let_def
  by (elim bindE_InrE) (auto simp: guard_passed split: option.splits)

lemma effect_has_permit:
  assumes "execute_mutation sha mac secret contexts mutations clock now fault name token sid e a (l, w) = (r, l', w')"
  shows "(isl r \<and> l' = l \<and> w' = w)
    \<or> (\<exists>s c. contexts sid = Inr s \<and> cleared clock e a s
         \<and> consume_permit sha mac secret clock now fault token e a s l = Inr (c, l')
         \<and> map pl_permit_id l' = map pl_permit_id l @ [cp_permit_id c])"
proof (cases "admit_mutation sha mac secret contexts mutations clock now fault name token sid e a l")
  case (Inl x)
  then have "r = Inl x \<and> l' = l \<and> w' = w" using assms by (simp add: execute_mutation_def)
  then show ?thesis by simp
next
  case (Inr t)
  obtain reg c l2 where t: "t = (reg, c, l2)" by (cases t)
  from admit_mutation_Inr [OF Inr [unfolded t]] obtain s where s: "contexts sid = Inr s"
    "consume_permit sha mac secret clock now fault token e a s l = Inr (c, l2)" .
  have "l' = l2" using assms Inr t by (simp add: execute_mutation_def split: prod.splits)
  moreover have "cleared clock e a s" "map pl_permit_id l2 = map pl_permit_id l @ [cp_permit_id c]"
    using s(2) [unfolded consume_permit_iff] by auto
  ultimately show ?thesis using s by blast
qed

text \<open>
  C1. No effect without a permit: an execution of a mutation either is refused and leaves the ledger and
  the world as they were, or has consumed a permit that a trusted snapshot, the envelope and the action
  clear, whose row is in the ledger whatever the executor, the verifier or the reconciler then do.
\<close>

theorem no_effect_without_permit:
  assumes "execute_mutation sha mac secret contexts mutations clock now fault name token sid e a (l, w) = (r, l', w')"
  shows "(isl r \<and> l' = l \<and> w' = w)
    \<or> (\<exists>s c. contexts sid = Inr s \<and> cleared clock e a s
         \<and> consume_permit sha mac secret clock now fault token e a s l = Inr (c, l')
         \<and> map pl_permit_id l' = map pl_permit_id l @ [cp_permit_id c])"
  using assms by (rule effect_has_permit)

lemma run_mutation_Inr:
  assumes "run_mutation sha reg c a w = (Inr g, w')"
  obtains x w1 v w2 u where "mu_executor reg a w = (Inr x, w1)" "mu_verifier reg a x w1 = (Inr (Some v), w2)"
    "mv_verified v" "mu_reconciler reg a x v w2 = (Inr u, w')" "strip (py_str u) \<noteq> []"
    "g = \<lparr>ge_permit_id = cp_permit_id c, ge_action_id = ai_action_id a,
       ge_action_intent_fingerprint = intent_fingerprint sha a, ge_result = x, ge_verification = v,
       ge_reconciliation_ref = strip (py_str u)\<rparr>"
  using assms unfolding run_mutation_def Let_def
  by (auto split: prod.splits sum.splits option.splits if_splits)

text \<open>
  C7. A mutation is reported done only when it was: the executor, then the verifier, then the reconciler
  of the mutation registered under that name ran in this order, the verification is positive, and the
  receipt is not empty; the report bears the id of the permit just entered in the ledger.
\<close>

theorem success_is_verified_and_reconciled:
  assumes "execute_mutation sha mac secret contexts mutations clock now fault name token sid e a (l, w) = (Inr g, l', w')"
  shows "\<exists>reg w1 w2 u. map_of mutations (strip name) = Some reg
    \<and> mu_action_class reg = action_class_name (ai_action_class a)
    \<and> mu_executor reg a w = (Inr (ge_result g), w1)
    \<and> mu_verifier reg a (ge_result g) w1 = (Inr (Some (ge_verification g)), w2)
    \<and> mv_verified (ge_verification g)
    \<and> mu_reconciler reg a (ge_result g) (ge_verification g) w2 = (Inr u, w')
    \<and> ge_reconciliation_ref g = strip (py_str u) \<and> ge_reconciliation_ref g \<noteq> []
    \<and> ge_permit_id g \<in> set (map pl_permit_id l') - set (map pl_permit_id l)"
proof (cases "admit_mutation sha mac secret contexts mutations clock now fault name token sid e a l")
  case (Inl x)
  then show ?thesis using assms by (simp add: execute_mutation_def)
next
  case (Inr t)
  obtain reg c l2 where t: "t = (reg, c, l2)" by (cases t)
  from admit_mutation_Inr [OF Inr [unfolded t]] obtain s where s: "map_of mutations (strip name) = Some reg"
    "action_class_name (ai_action_class a) = mu_action_class reg"
    "consume_permit sha mac secret clock now fault token e a s l = Inr (c, l2)" by blast
  have l': "l' = l2" and run: "run_mutation sha reg c a w = (Inr g, w')"
    using assms Inr t by (simp_all add: execute_mutation_def split: prod.splits)
  have "cp_permit_id c \<in> set (map pl_permit_id l2) - set (map pl_permit_id l)"
    using s(3) [unfolded consume_permit_iff] by auto
  moreover from run_mutation_Inr [OF run] obtain x w1 v w2 u where
    "mu_executor reg a w = (Inr x, w1)" "mu_verifier reg a x w1 = (Inr (Some v), w2)"
    "mv_verified v" "mu_reconciler reg a x v w2 = (Inr u, w')" "strip (py_str u) \<noteq> []"
    "g = \<lparr>ge_permit_id = cp_permit_id c, ge_action_id = ai_action_id a,
       ge_action_intent_fingerprint = intent_fingerprint sha a, ge_result = x, ge_verification = v,
       ge_reconciliation_ref = strip (py_str u)\<rparr>" .
  ultimately show ?thesis using s l' by auto
qed

text \<open>Registered classes are stateful, names are different and trimmed.\<close>

definition mutations_ok :: "('w, 't) mutations \<Rightarrow> bool" where
  "mutations_ok ms \<longleftrightarrow> distinct (map fst ms) \<and> list_all (trimmed \<circ> fst) ms
     \<and> list_all (\<lambda>m. mu_action_class (snd m) \<in> set STATEFUL_CLASSES) ms"

lemma register_mutation_ok:
  assumes "mutations_ok ms" and "register_mutation name cls ex ver rec ms = Inr ms'"
  shows "mutations_ok ms'"
proof -
  from assms(2) have "strip name \<noteq> []" "map_of ms (strip name) = None" "norm_enum cls \<in> set STATEFUL_CLASSES"
    "ms' = ms @ [(strip name, \<lparr>mu_action_class = norm_enum cls, mu_executor = ex, mu_verifier = ver,
       mu_reconciler = rec\<rparr>)]"
    unfolding register_mutation_def Let_def by (auto simp: guard_passed elim!: bindE_InrE)
  then show ?thesis
    using assms(1) strip_nonempty_trimmed by (auto simp: mutations_ok_def map_of_eq_None_iff)
qed

text \<open>
  A reconciler that returns None is taken to have given the receipt "None": the text of None is not
  empty, so the missing receipt is not noticed.
\<close>

lemma missing_receipt_accepted:
  assumes "mu_executor reg a w = (Inr x, w1)" and "mu_verifier reg a x w1 = (Inr (Some v), w2)"
    and "mv_verified v" and "mu_reconciler reg a x v w2 = (Inr JNull, w3)"
  shows "\<exists>g. run_mutation sha reg c a w = (Inr g, w3) \<and> ge_reconciliation_ref g = ''None''"
proof -
  have "strip ''None'' = ''None''" by code_simp
  then show ?thesis using assms by (simp add: run_mutation_def)
qed

subsection \<open>Replay of an executed mutation\<close>

text \<open>
  C2. A token works for one execution: once a permit was consumed by an execution, succeeded or not, a
  second execution with the same token changes nothing and fails, whatever name, snapshot, envelope,
  action or time it is given.
\<close>

theorem no_replay:
  assumes "execute_mutation sha mac secret contexts mutations clock now fault name token sid e a (l, w) = (r, l', w')"
    and "l' \<noteq> l"
  shows "\<exists>x. execute_mutation sha mac secret contexts' mutations' clock' now' fault' name' token sid' e' a' (l', w')
    = (Inl x, l', w')"
proof -
  from effect_has_permit [OF assms(1)] assms(2) obtain s c where
    c: "consume_permit sha mac secret clock now fault token e a s l = Inr (c, l')" by blast
  then obtain payload where p: "decode_permit mac secret token = Inr payload"
    "payload_id payload \<in> set (map pl_permit_id l')" unfolding consume_permit_iff by force
  have no: "\<not> (\<exists>d l''. consume_permit sha mac secret clock' now' fault' token e' a' s' l' = Inr (d, l''))" for s'
    using p unfolding consume_permit_iff by auto
  have "\<exists>x. admit_mutation sha mac secret contexts' mutations' clock' now' fault' name' token sid' e' a' l' = Inl x"
  proof (cases "admit_mutation sha mac secret contexts' mutations' clock' now' fault' name' token sid' e' a' l'")
    case (Inr t)
    obtain reg d l2 where t: "t = (reg, d, l2)" by (cases t)
    from admit_mutation_Inr [OF Inr [unfolded t]] no show ?thesis by metis
  qed simp
  then show ?thesis by (auto simp: execute_mutation_def)
qed

subsection \<open>Reference discovery\<close>

lemma reason_codes_trimmed: "map strip (td_reason_codes (evaluate_route mode route)) = td_reason_codes (evaluate_route mode route)"
proof -
  have "strip ''LOCALHOST_PERMITTED'' = ''LOCALHOST_PERMITTED''"
    "strip ''CONNECTIVITY_ONLY_NO_ACTION_AUTHORITY'' = ''CONNECTIVITY_ONLY_NO_ACTION_AUTHORITY''"
    "strip ''LAN_EXPLICIT_APPROVAL_REQUIRED'' = ''LAN_EXPLICIT_APPROVAL_REQUIRED''"
    "strip ''LAN_EXPLICIT_APPROVAL_PRESENT'' = ''LAN_EXPLICIT_APPROVAL_PRESENT''"
    "strip ''OFFLINE_BLOCKS_INTERNET'' = ''OFFLINE_BLOCKS_INTERNET''"
    "strip ''CONNECTED_INTERNET_TRANSPORT_ELIGIBLE'' = ''CONNECTED_INTERNET_TRANSPORT_ELIGIBLE''"
    by code_simp+
  then show ?thesis by (simp add: evaluate_route_def Let_def)
qed

text \<open>
  Discovery runs a provider only if it is registered and the network policy allows its route, and
  what it returns is read-only, grants no action authority and discloses why transport was allowed;
  offline no provider on the internet is ever asked.
\<close>

theorem discovery_needs_transport:
  assumes "discover_ranked ranking mode providers provider_id request = Inr x"
  shows "\<exists>reg. map_of providers (strip provider_id) = Some reg
    \<and> td_status (evaluate_route mode (rp_route reg)) = TRANSPORT_ALLOW
    \<and> ranking (rp_provider reg) request = Inr (de_ranked x)
    \<and> de_transport_reason_codes x = td_reason_codes (evaluate_route mode (rp_route reg))
    \<and> de_read_only x \<and> \<not> de_action_authority_granted x
    \<and> (mode = OFFLINE \<longrightarrow> nr_kind (rp_route reg) \<noteq> INTERNET)"
proof -
  from assms obtain reg ranked where r: "find_provider providers (strip provider_id) = Inr reg"
    "td_status (evaluate_route mode (rp_route reg)) = TRANSPORT_ALLOW"
    "(case ranking (rp_provider reg) request of
               Inl e \<Rightarrow>
                 if exc_cls e \<in> set gateway_errors then Inl e
                 else Inl (discovery_error (''reference provider discovery failed: '' @ strip provider_id))
             | Inr ranked \<Rightarrow> Inr ranked) = Inr ranked"
    "make_discovery_execution (strip provider_id) (nr_route_id (rp_route reg))
        (route_kind_name (nr_kind (rp_route reg))) (rp_registration_source_ref reg)
        (td_reason_codes (evaluate_route mode (rp_route reg))) ranked True False = Inr x"
    unfolding discover_ranked_def Let_def by (elim bindE_InrE) (unfold guard_passed, rule that)
  from r(1) have "map_of providers (strip provider_id) = Some reg"
    by (simp add: find_provider_def split: option.splits)
  moreover have "ranking (rp_provider reg) request = Inr ranked"
    using r(3) by (simp split: sum.splits if_splits)
  moreover have "de_ranked x = ranked" "de_read_only x" "\<not> de_action_authority_granted x"
    "de_transport_reason_codes x = map strip (td_reason_codes (evaluate_route mode (rp_route reg)))"
    using r(4) unfolding make_discovery_execution_def Let_def by (elim bindE_InrE, force)+
  moreover have "mode = OFFLINE \<longrightarrow> nr_kind (rp_route reg) \<noteq> INTERNET"
    using r(2) by (auto simp: evaluate_route_def Let_def)
  ultimately show ?thesis using r(2) reason_codes_trimmed by metis
qed

subsection \<open>Reference responses\<close>

definition same_session :: "json \<Rightarrow> json \<Rightarrow> bool" where
  "same_session binding calibration \<longleftrightarrow>
     list_all (\<lambda>f. \<exists>v. field binding f = Some (JStr v) \<and> field calibration f = Some (JStr v)) SESSION_IDENTITY"

lemma field_or_null_nonnull: "v \<noteq> JNull \<Longrightarrow> field_or_null x k = v \<longleftrightarrow> field x k = Some v"
  by (auto simp: field_or_null_def split: option.splits)

lemma validate_identity_Inr: "validate_identity b c = Inr u \<longleftrightarrow> same_session b c"
proof -
  have "(case field_or_null b f of JStr v \<Rightarrow> field_or_null c f = JStr v | _ \<Rightarrow> False)
      \<longleftrightarrow> (\<exists>v. field b f = Some (JStr v) \<and> field c f = Some (JStr v))" for f
    by (auto simp: field_or_null_def split: json.splits option.splits)
  then show ?thesis
    by (simp add: validate_identity_def same_session_def each_Inr guard_passed list_all_iff)
qed

lemma validate_ranked_Inr: "validate_ranked r p = Inr u \<longleftrightarrow>
   (\<exists>items. r = JList items \<and> (p = JNull \<or> is_obj p)
      \<and> (case items of [] \<Rightarrow> p = JNull | first # _ \<Rightarrow> p \<noteq> JNull \<and> py_eq p first))"
  by (cases r) (auto simp: validate_ranked_def bindE_eq_Inr guard_passed split: list.splits)

text \<open>
  A reference response the client accepts is the response it received, up to the order of keys,
  and is bound to the request: the same provider, explicitly read-only, no action authority, the same
  workspace, song and observation as the session, and a primary exactly if there is a ranking, equal to
  its first entry.
\<close>

theorem accepted_response_is_bound:
  assumes "validated_reference_response payload provider_id session = Inr response" and "wf_json payload"
  shows "response = norm_json payload
    \<and> field payload ''provider_id'' = Some (JStr provider_id)
    \<and> field payload ''read_only'' = Some (JBool True)
    \<and> field payload ''action_authority_granted'' = Some (JBool False)
    \<and> (\<exists>b c. field session ''binding'' = Some b \<and> field payload ''session_calibration'' = Some c \<and> same_session b c)
    \<and> (\<exists>items. field payload ''ranked'' = Some (JList items)
         \<and> (items = [] \<longleftrightarrow> field_or_null payload ''primary'' = JNull)
         \<and> (items = [] \<or> py_eq (field_or_null payload ''primary'') (hd items)))"
proof -
  from assms(1) have r: "field_or_null payload ''provider_id'' = JStr provider_id"
    "field_or_null payload ''read_only'' = JBool True"
    "field_or_null payload ''action_authority_granted'' = JBool False"
    "is_obj (field_or_null session ''binding'')" "is_obj (field_or_null payload ''session_calibration'')"
    "same_session (field_or_null session ''binding'') (field_or_null payload ''session_calibration'')"
    "\<exists>u. validate_ranked (field_or_null payload ''ranked'') (field_or_null payload ''primary'') = Inr u"
    "(case loads (dumps True payload) of None \<Rightarrow> Inl (Raise PyValueError ''Expecting value'') | Some v \<Rightarrow> Inr v)
       = Inr response"
    unfolding validated_reference_response_def Let_def
    by (elim bindE_InrE, unfold guard_passed validate_identity_Inr, blast)+
  have "response = norm_json payload" using r(8) loads_dumps [OF assms(2), of True] by simp
  moreover obtain b c where "field session ''binding'' = Some b" "field payload ''session_calibration'' = Some c"
    "same_session b c"
    using r(4-6) by (auto simp: field_or_null_def split: option.splits)
  moreover have "\<exists>items. field payload ''ranked'' = Some (JList items)
      \<and> (items = [] \<longleftrightarrow> field_or_null payload ''primary'' = JNull)
      \<and> (items = [] \<or> py_eq (field_or_null payload ''primary'') (hd items))"
  proof -
    from r(7) obtain items where i: "field_or_null payload ''ranked'' = JList items"
      "case items of [] \<Rightarrow> field_or_null payload ''primary'' = JNull
       | first # _ \<Rightarrow> field_or_null payload ''primary'' \<noteq> JNull \<and> py_eq (field_or_null payload ''primary'') first"
      unfolding validate_ranked_Inr by blast
    then show ?thesis by (cases items) (auto simp: field_or_null_nonnull)
  qed
  ultimately show ?thesis using r(1-3) by (simp add: field_or_null_nonnull)
qed

subsection \<open>A gateway at work\<close>

definition demo_providers :: "string providers" where
  "demo_providers = [(''lib'', \<lparr>rp_provider = ''lib'', rp_route = \<lparr>nr_route_id = ''r'', nr_kind = LOCALHOST,
     nr_description = ''d'', nr_lan_approval_ref = None\<rparr>, rp_registration_source_ref = ''boot''\<rparr>)]"

definition demo_ranking :: "string \<Rightarrow> string \<Rightarrow> string list res" where
  "demo_ranking p q = Inr [q]"

theorem discovery_needs_transport_witness:
  "\<exists>x. discover_ranked demo_ranking OFFLINE demo_providers ''lib'' ''q'' = Inr x \<and> de_read_only x"
proof -
  have "\<not> isl (discover_ranked demo_ranking OFFLINE demo_providers ''lib'' ''q'')" by code_simp
  then obtain x where x: "discover_ranked demo_ranking OFFLINE demo_providers ''lib'' ''q'' = Inr x"
    by (cases "discover_ranked demo_ranking OFFLINE demo_providers ''lib'' ''q''") auto
  from discovery_needs_transport [OF x] x show ?thesis by blast
qed

definition demo_session :: json where
  "demo_session = JObj [(''binding'', JObj [(''workspace_id'', JStr ''w''), (''song_id'', JStr ''s''),
     (''workspace_observation_id'', JStr ''o'')])]"

definition demo_response :: json where
  "demo_response = JObj [(''provider_id'', JStr ''lib''), (''read_only'', JBool True),
     (''action_authority_granted'', JBool False),
     (''session_calibration'', JObj [(''workspace_id'', JStr ''w''), (''song_id'', JStr ''s''),
        (''workspace_observation_id'', JStr ''o'')]), (''ranked'', JList []), (''primary'', JNull)]"

theorem accepted_response_is_bound_witness:
  "\<exists>r. validated_reference_response demo_response ''lib'' demo_session = Inr r \<and> r = norm_json demo_response"
proof -
  have w: "wf_json demo_response" by code_simp
  have l: "loads (dumps True demo_response) = Some (norm_json demo_response)" by (rule loads_dumps [OF w])
  have "validate_identity (field_or_null demo_session ''binding'') (field_or_null demo_response ''session_calibration'') = Inr ()"
    by code_simp
  then have "validated_reference_response demo_response ''lib'' demo_session = Inr (norm_json demo_response)"
    unfolding validated_reference_response_def Let_def l
    by (simp add: demo_response_def demo_session_def field_or_null_def validate_ranked_def)
  from accepted_response_is_bound [OF this w] this show ?thesis by blast
qed

definition demo_mutations :: "(string list, string) mutations" where
  "demo_mutations = [(''render'', \<lparr>mu_action_class = ''REVERSIBLE'',
     mu_executor = (\<lambda>a w. (Inr ''file'', w @ [''run''])),
     mu_verifier = (\<lambda>a x w. (Inr (Some \<lparr>mv_verified = True, mv_evidence_refs = [''hash''], mv_observation = ''seen''\<rparr>), w)),
     mu_reconciler = (\<lambda>a x v w. (Inr (JStr ''receipt''), w))\<rparr>)]"

definition demo_run :: "string gated_result res \<times> ledger \<times> string list" where
  "demo_run = execute_mutation demo_sha demo_mac ''key'' (\<lambda>_. Inr demo_trusted) demo_mutations 60 20 False ''render''
     (ip_token demo_permit) ''ctx'' demo_envelope demo_action ([], [])"

lemma demo_run_ok: "\<exists>g l. demo_run = (Inr g, l, [''run'']) \<and> l \<noteq> []"
proof -
  from demo_consume obtain c l where c: "consume_permit demo_sha demo_mac ''key'' 60 20 False (ip_token demo_permit)
    demo_envelope demo_action demo_trusted [] = Inr (c, l)" by blast
  have "strip ''render'' = ''render''" "strip ''receipt'' = ''receipt''" by code_simp+
  then have "\<exists>g. demo_run = (Inr g, l, [''run''])"
    using c by (simp add: demo_run_def execute_mutation_def admit_mutation_def Let_def demo_mutations_def
        run_mutation_def demo_action_def [of] action_class_name.simps)
  moreover have "l \<noteq> []" using c unfolding consume_permit_iff by auto
  ultimately show ?thesis by blast
qed

theorem no_effect_without_permit_witness:
  "\<exists>g l. demo_run = (Inr g, l, [''run'']) \<and> cleared 60 demo_envelope demo_action demo_trusted"
proof -
  obtain g l where d: "demo_run = (Inr g, l, [''run''])" "l \<noteq> []" using demo_run_ok by blast
  from no_effect_without_permit [OF d(1) [unfolded demo_run_def]] d show ?thesis by auto
qed

theorem success_is_verified_and_reconciled_witness:
  "\<exists>g l. demo_run = (Inr g, l, [''run'']) \<and> mv_verified (ge_verification g)"
proof -
  obtain g l where d: "demo_run = (Inr g, l, [''run''])" using demo_run_ok by blast
  from success_is_verified_and_reconciled [OF d [unfolded demo_run_def]] d show ?thesis by blast
qed

theorem no_replay_witness:
  "\<exists>g l x. demo_run = (Inr g, l, [''run'']) \<and>
     execute_mutation demo_sha demo_mac ''key'' (\<lambda>_. Inr demo_trusted) demo_mutations 60 20 False ''render''
       (ip_token demo_permit) ''ctx'' demo_envelope demo_action (l, [''run'']) = (Inl x, l, [''run''])"
proof -
  obtain g l where d: "demo_run = (Inr g, l, [''run''])" "l \<noteq> []" using demo_run_ok by blast
  from no_replay [OF d(1) [unfolded demo_run_def] d(2)] d(1) show ?thesis by blast
qed

end
