(* ===== verification/Evidence.thy ===== *)
theory Evidence
  imports Lineage_Facts Json Complex_Main
begin

text \<open>
  \<open>n0te/evidence.py\<close>: the append-only memory of claims in the profile database, their supersession, and
  the resolution of a key for a song from its most specific scope outwards. A value is JSON without
  floating-point numbers; a confidence is the exact value of its float.
\<close>

subsection \<open>Rows and claims\<close>

datatype scope_kind = SCOPE_PROFILE | SCOPE_ARTIST | SCOPE_SONG | SCOPE_VERSION
datatype source_kind =
  USER_DECLARED | OBSERVED | MEASURED | PROVIDER_VERIFIED | REMEMBERED | INFERRED
datatype twin_domain = TECHNICAL | CREATIVE | UNSPECIFIED
datatype resolution_status = EVIDENCE_UNKNOWN | EVIDENCE_RESOLVED | EVIDENCE_CONFLICT

definition SCOPE_KINDS :: "(string \<times> scope_kind) list" where
  "SCOPE_KINDS = [(''PROFILE'', SCOPE_PROFILE), (''ARTIST'', SCOPE_ARTIST), (''SONG'', SCOPE_SONG),
     (''VERSION'', SCOPE_VERSION)]"

definition SOURCE_KINDS :: "(string \<times> source_kind) list" where
  "SOURCE_KINDS = [(''USER_DECLARED'', USER_DECLARED), (''OBSERVED'', OBSERVED), (''MEASURED'', MEASURED),
     (''PROVIDER_VERIFIED'', PROVIDER_VERIFIED), (''REMEMBERED'', REMEMBERED), (''INFERRED'', INFERRED)]"

definition TWIN_DOMAINS :: "(string \<times> twin_domain) list" where
  "TWIN_DOMAINS = [(''TECHNICAL'', TECHNICAL), (''CREATIVE'', CREATIVE), (''UNSPECIFIED'', UNSPECIFIED)]"

fun scope_kind_name :: "scope_kind \<Rightarrow> string" where
  "scope_kind_name SCOPE_PROFILE = ''PROFILE''"
| "scope_kind_name SCOPE_ARTIST = ''ARTIST''"
| "scope_kind_name SCOPE_SONG = ''SONG''"
| "scope_kind_name SCOPE_VERSION = ''VERSION''"

fun source_kind_name :: "source_kind \<Rightarrow> string" where
  "source_kind_name USER_DECLARED = ''USER_DECLARED''"
| "source_kind_name OBSERVED = ''OBSERVED''"
| "source_kind_name MEASURED = ''MEASURED''"
| "source_kind_name PROVIDER_VERIFIED = ''PROVIDER_VERIFIED''"
| "source_kind_name REMEMBERED = ''REMEMBERED''"
| "source_kind_name INFERRED = ''INFERRED''"

text \<open>A row of \<open>evidence_claims\<close>, and the \<open>EvidenceClaim\<close> read from it.\<close>

record evidence_row =
  er_seq :: nat
  er_id :: string
  er_scope_kind :: scope_kind
  er_scope_id :: string
  er_key :: string
  er_value_json :: string
  er_source_kind :: source_kind
  er_source_ref :: "string option"
  er_confidence :: rat
  er_twin_domain :: twin_domain

record evidence_claim =
  ec_id :: string
  ec_sequence :: nat
  ec_scope_kind :: scope_kind
  ec_scope_id :: string
  ec_key :: string
  ec_value :: json
  ec_source_kind :: source_kind
  ec_source_ref :: "string option"
  ec_confidence :: rat
  ec_twin_domain :: twin_domain

text \<open>\<open>EvidenceResolution\<close>; the value \<open>None\<close> is JSON's null.\<close>

record evidence_resolution =
  rs_status :: resolution_status
  rs_key :: string
  rs_scope_kind :: "scope_kind option"
  rs_scope_id :: "string option"
  rs_value :: json
  rs_claims :: "evidence_claim list"

definition claim_ids :: "evidence_resolution \<Rightarrow> string list" where
  "claim_ids r = map ec_id (rs_claims r)"

text \<open>The profile database with the two tables; an edge is \<open>(new_claim_id, old_claim_id)\<close>.\<close>

record evidence_db = lineage_db +
  db_evidence_claims :: "evidence_row list"
  db_supersessions :: "(string \<times> string) list"

subsection \<open>Checks\<close>

definition store_profile_id :: "'a lineage_db_scheme \<Rightarrow> string" where
  "store_profile_id db = (case db_metadata db ''profile_id'' of Some p \<Rightarrow> p | None \<Rightarrow> [])"

text \<open>\<open>_validate_scope\<close> once the kind is read; \<open>cls\<close> is the error class the caller chose.\<close>

definition check_scope :: "exc_class \<Rightarrow> scope_kind \<Rightarrow> string \<Rightarrow> 'a lineage_db_scheme \<Rightarrow> unit res" where
  "check_scope cls kind sid0 db =
     (let sid = strip sid0 in
      case kind of
        SCOPE_PROFILE \<Rightarrow> guardE (sid = store_profile_id db)
          (Raise cls ''evidence profile scope does not match active profile'')
      | SCOPE_ARTIST \<Rightarrow> bindE (primary_artist_id db) (\<lambda>artist. guardE (sid = artist)
          (Raise cls ''evidence artist scope does not match active profile''))
      | SCOPE_SONG \<Rightarrow> guardE (get_song db sid \<noteq> None)
          (Raise cls ''evidence Song scope does not exist in active profile'')
      | SCOPE_VERSION \<Rightarrow> guardE (get_version db sid \<noteq> None)
          (Raise cls ''evidence version scope does not exist in active profile''))"

definition validate_scope ::
  "exc_class \<Rightarrow> string \<Rightarrow> string \<Rightarrow> 'a lineage_db_scheme \<Rightarrow> scope_kind res" where
  "validate_scope cls kind0 sid db =
     (case parse_enum SCOPE_KINDS kind0 of
        None \<Rightarrow> Inl (Raise cls (''unsupported evidence scope: '' @ norm_enum kind0))
      | Some kind \<Rightarrow> bindE (check_scope cls kind sid db) (\<lambda>_. Inr kind))"

definition canonical_value :: "json \<Rightarrow> string" where
  "canonical_value v = dumps True v"

definition normalize_twin_domain :: "string \<Rightarrow> twin_domain res" where
  "normalize_twin_domain value =
     (case parse_enum TWIN_DOMAINS value of
        None \<Rightarrow> Inl (Raise ValidationError (''unsupported Twin domain: '' @ norm_enum value))
      | Some d \<Rightarrow> Inr d)"

definition evidence_key :: "string \<Rightarrow> string res" where
  "evidence_key key0 =
     (let key = strip key0 in
      if key = [] then Inl (Raise ValidationError ''evidence key must not be empty'') else Inr key)"

subsection \<open>Reading\<close>

definition claim_from_row :: "evidence_row \<Rightarrow> evidence_claim res" where
  "claim_from_row r =
     (case loads (er_value_json r) of
        None \<Rightarrow> Inl (Raise PyValueError (er_value_json r))
      | Some v \<Rightarrow> Inr \<lparr>ec_id = er_id r, ec_sequence = er_seq r, ec_scope_kind = er_scope_kind r,
          ec_scope_id = er_scope_id r, ec_key = er_key r, ec_value = v, ec_source_kind = er_source_kind r,
          ec_source_ref = er_source_ref r, ec_confidence = er_confidence r,
          ec_twin_domain = er_twin_domain r\<rparr>)"

definition find_claim :: "'a evidence_db_scheme \<Rightarrow> string \<Rightarrow> evidence_row option" where
  "find_claim db cid = find (\<lambda>r. er_id r = cid) (db_evidence_claims db)"

definition get_claim :: "'a evidence_db_scheme \<Rightarrow> string \<Rightarrow> evidence_claim option res" where
  "get_claim db cid =
     (case find_claim db cid of
        None \<Rightarrow> Inr None
      | Some r \<Rightarrow> bindE (claim_from_row r) (\<lambda>c. Inr (Some c)))"

text \<open>The rows of a scope no supersession names as old, in \<open>seq\<close> order.\<close>

definition active_rows :: "'a evidence_db_scheme \<Rightarrow> scope_kind \<Rightarrow> string \<Rightarrow> evidence_row list" where
  "active_rows db kind sid =
     filter (\<lambda>r. er_scope_kind r = kind \<and> er_scope_id r = sid
                 \<and> er_id r \<notin> snd ` set (db_supersessions db)) (db_evidence_claims db)"

definition active_claims_for_scope ::
  "string \<Rightarrow> string \<Rightarrow> 'a evidence_db_scheme \<Rightarrow> evidence_claim list res" where
  "active_claims_for_scope kind0 sid db =
     bindE (validate_scope ValidationError kind0 sid db) (\<lambda>kind.
       mapE claim_from_row (active_rows db kind sid))"

definition active_claims ::
  "string \<Rightarrow> string \<Rightarrow> string \<Rightarrow> 'a evidence_db_scheme \<Rightarrow> evidence_claim list res" where
  "active_claims kind0 sid key0 db =
     bindE (evidence_key key0) (\<lambda>key.
     bindE (active_claims_for_scope kind0 sid db) (\<lambda>claims.
       Inr (filter (\<lambda>c. ec_key c = key) claims)))"

subsection \<open>Writing\<close>

text \<open>\<open>INSERT INTO evidence_claims\<close> with the trigger \<open>activity_evidence_claim_recorded\<close>.\<close>

definition evidence_activity ::
  "string \<Rightarrow> string \<Rightarrow> evidence_row \<Rightarrow> 'a evidence_db_scheme \<Rightarrow> 'a evidence_db_scheme res" where
  "evidence_activity etype cid r db =
     (case db_metadata db ''primary_artist_id'' of
        None \<Rightarrow> Inl (integrity ''NOT NULL constraint failed: activity_events.artist_id'')
      | Some artist \<Rightarrow> insert_activity etype artist
          (case er_scope_kind r of
             SCOPE_SONG \<Rightarrow> Some (er_scope_id r)
           | SCOPE_VERSION \<Rightarrow> map_option ve_song_id (get_version db (er_scope_id r))
           | _ \<Rightarrow> None)
          (if er_scope_kind r = SCOPE_VERSION then Some (er_scope_id r) else None)
          ''EVIDENCE_CLAIM'' cid db)"

definition insert_claim :: "evidence_row \<Rightarrow> 'a evidence_db_scheme \<Rightarrow> 'a evidence_db_scheme res" where
  "insert_claim r db =
     bindE (guardE (er_id r \<notin> er_id ` set (db_evidence_claims db))
       (integrity ''UNIQUE constraint failed: evidence_claims.id'')) (\<lambda>_.
     bindE (guardE (\<not> sql_blank (er_key r) \<and> 0 \<le> er_confidence r \<and> er_confidence r \<le> 1)
       (integrity ''CHECK constraint failed: evidence_claims'')) (\<lambda>_.
     evidence_activity ''EVIDENCE_CLAIM_RECORDED'' (er_id r) r
       (db\<lparr>db_evidence_claims := db_evidence_claims db @ [r]\<rparr>)))"

definition same_target :: "evidence_row \<Rightarrow> evidence_row \<Rightarrow> bool" where
  "same_target newer older \<longleftrightarrow> er_scope_kind newer = er_scope_kind older
     \<and> er_scope_id newer = er_scope_id older \<and> er_key newer = er_key older
     \<and> er_seq older < er_seq newer"

text \<open>
  \<open>INSERT INTO evidence_supersessions\<close>: the trigger \<open>evidence_supersession_same_target\<close>, the
  constraints, then \<open>activity_evidence_supersession_linked\<close>.
\<close>

definition insert_supersession ::
  "string \<Rightarrow> string \<Rightarrow> 'a evidence_db_scheme \<Rightarrow> 'a evidence_db_scheme res" where
  "insert_supersession new old db =
     (case (find_claim db new, find_claim db old) of
        (Some newer, Some older) \<Rightarrow>
          bindE (guardE (same_target newer older)
            (integrity ''supersession must target an older claim with identical scope and key'')) (\<lambda>_.
          bindE (guardE ((new, old) \<notin> set (db_supersessions db) \<and> new \<noteq> old)
            (integrity ''UNIQUE constraint failed: evidence_supersessions'')) (\<lambda>_.
          evidence_activity ''EVIDENCE_SUPERSESSION_LINKED'' new newer
            (db\<lparr>db_supersessions := db_supersessions db @ [(new, old)]\<rparr>)))
      | _ \<Rightarrow> Inl (integrity ''supersession must target an older claim with identical scope and key''))"

fun insert_supersessions ::
  "string \<Rightarrow> string list \<Rightarrow> 'a evidence_db_scheme \<Rightarrow> 'a evidence_db_scheme res" where
  "insert_supersessions new [] db = Inr db"
| "insert_supersessions new (old # olds) db =
     bindE (insert_supersession new old db) (insert_supersessions new olds)"

text \<open>\<open>except sqlite3.IntegrityError as exc: raise ValidationError(f"{msg}: {exc}")\<close>.\<close>

definition on_integrity :: "string \<Rightarrow> 'b res \<Rightarrow> 'b res" where
  "on_integrity msg r =
     (case r of
        Inl e \<Rightarrow> if exc_cls e = IntegrityError
                 then Inl (Raise ValidationError (msg @ '': '' @ exc_msg e)) else Inl e
      | Inr x \<Rightarrow> Inr x)"

definition check_superseded ::
  "scope_kind \<Rightarrow> string \<Rightarrow> string \<Rightarrow> string list \<Rightarrow> 'a evidence_db_scheme \<Rightarrow> string \<Rightarrow> unit res" where
  "check_superseded kind sid key active db old_id =
     bindE (get_claim db old_id) (\<lambda>found.
     case found of
       None \<Rightarrow> Inl (Raise NotFoundError (''evidence claim not found: '' @ old_id))
     | Some old \<Rightarrow>
         bindE (guardE (ec_scope_kind old = kind \<and> ec_scope_id old = sid \<and> ec_key old = key)
           (Raise ValidationError ''supersession cannot cross evidence scope or key'')) (\<lambda>_.
         guardE (old_id \<in> set active)
           (Raise ValidationError ''supersession may target only currently active claims'')))"

text \<open>
  \<open>record_claim\<close> over the statement that inserts the row: other stores add a trigger and an index to the
  table.
\<close>

definition record_claim_with ::
  "(evidence_row \<Rightarrow> 'a evidence_db_scheme \<Rightarrow> 'a evidence_db_scheme res)
     \<Rightarrow> string \<Rightarrow> string \<Rightarrow> string \<Rightarrow> json \<Rightarrow> string \<Rightarrow> string option \<Rightarrow> rat \<Rightarrow> string \<Rightarrow> string list
     \<Rightarrow> 'a evidence_db_scheme \<Rightarrow> (evidence_claim \<times> 'a evidence_db_scheme) res" where
  "record_claim_with insert_row kind0 sid key0 value source0 sref confidence domain0 supersedes db0 =
     bindE (normalize_twin_domain domain0) (\<lambda>domain.
     bindE (evidence_key key0) (\<lambda>key.
     bindE (validate_scope ValidationError kind0 sid db0) (\<lambda>kind.
     case parse_enum SOURCE_KINDS source0 of
       None \<Rightarrow> Inl (Raise ValidationError (''unsupported evidence source: '' @ norm_enum source0))
     | Some source \<Rightarrow>
         bindE (guardE (0 \<le> confidence \<and> confidence \<le> 1)
           (Raise ValidationError ''confidence must be between 0 and 1'')) (\<lambda>_.
         let old_ids = fromkeys supersedes in
         bindE (active_claims kind0 sid key db0) (\<lambda>active.
         bindE (mapE (check_superseded kind sid key (map ec_id active) db0) old_ids) (\<lambda>_.
         let (cid, db) = new_id ''claim'' db0;
             row = \<lparr>er_seq = Suc (length (db_evidence_claims db)), er_id = cid, er_scope_kind = kind,
               er_scope_id = sid, er_key = key, er_value_json = canonical_value value,
               er_source_kind = source, er_source_ref = sref, er_confidence = confidence,
               er_twin_domain = domain\<rparr> in
         bindE (on_integrity ''invalid scoped evidence mutation''
                  (bindE (insert_row row db) (insert_supersessions cid old_ids))) (\<lambda>db.
         bindE (get_claim db cid) (\<lambda>found.
         case found of
           None \<Rightarrow> Inl (Raise PyAssertionError [])
         | Some c \<Rightarrow> Inr (c, db)))))))))"

definition record_claim ::
  "string \<Rightarrow> string \<Rightarrow> string \<Rightarrow> json \<Rightarrow> string \<Rightarrow> string option \<Rightarrow> rat \<Rightarrow> string \<Rightarrow> string list
     \<Rightarrow> 'a evidence_db_scheme \<Rightarrow> (evidence_claim \<times> 'a evidence_db_scheme) res" where
  "record_claim = record_claim_with insert_claim"

subsection \<open>Resolution\<close>

text \<open>The loop over the scopes, the most specific first.\<close>

fun resolve_in ::
  "string \<Rightarrow> (scope_kind \<times> string) list \<Rightarrow> 'a evidence_db_scheme \<Rightarrow> evidence_resolution res" where
  "resolve_in key [] db =
     Inr \<lparr>rs_status = EVIDENCE_UNKNOWN, rs_key = key, rs_scope_kind = None, rs_scope_id = None,
          rs_value = JNull, rs_claims = []\<rparr>"
| "resolve_in key ((kind, sid) # scopes) db =
     bindE (active_claims (scope_kind_name kind) sid key db) (\<lambda>claims.
     if claims = [] then resolve_in key scopes db
     else if length (fromkeys (map (\<lambda>c. canonical_value (ec_value c)) claims)) = 1
     then Inr \<lparr>rs_status = EVIDENCE_RESOLVED, rs_key = key, rs_scope_kind = Some kind,
               rs_scope_id = Some sid, rs_value = ec_value (last claims), rs_claims = claims\<rparr>
     else Inr \<lparr>rs_status = EVIDENCE_CONFLICT, rs_key = key, rs_scope_kind = Some kind,
               rs_scope_id = Some sid, rs_value = JNull, rs_claims = claims\<rparr>)"

definition resolve_for_song ::
  "string \<Rightarrow> string \<Rightarrow> string option \<Rightarrow> 'a evidence_db_scheme \<Rightarrow> evidence_resolution res" where
  "resolve_for_song song_id key version_id db =
     (case get_song db song_id of
        None \<Rightarrow> Inl (Raise NotFoundError
          (''Song not found in profile '' @ store_profile_id db @ '': '' @ song_id))
      | Some song \<Rightarrow>
          bindE (case version_id of
              None \<Rightarrow> Inr []
            | Some vid \<Rightarrow>
                (case get_version db vid of
                   None \<Rightarrow> Inl (Raise NotFoundError (''version not found: '' @ vid))
                 | Some v \<Rightarrow> bindE (guardE (ve_song_id v = song_id)
                     (Raise ValidationError ''version belongs to a different Song''))
                     (\<lambda>_. Inr [(SCOPE_VERSION, vid)]))) (\<lambda>scopes.
          resolve_in key (scopes @ [(SCOPE_SONG, song_id), (SCOPE_ARTIST, so_artist_id song),
            (SCOPE_PROFILE, store_profile_id db)]) db))"

definition reconcile_for_song_with ::
  "(evidence_row \<Rightarrow> 'a evidence_db_scheme \<Rightarrow> 'a evidence_db_scheme res)
     \<Rightarrow> string \<Rightarrow> string \<Rightarrow> json \<Rightarrow> string \<Rightarrow> string option \<Rightarrow> rat \<Rightarrow> string \<Rightarrow> string option
     \<Rightarrow> 'a evidence_db_scheme \<Rightarrow> (evidence_claim \<times> 'a evidence_db_scheme) res" where
  "reconcile_for_song_with insert_row song_id key value source sref confidence domain version_id db =
     bindE (resolve_for_song song_id key version_id db) (\<lambda>resolution.
     bindE (guardE (rs_status resolution \<noteq> EVIDENCE_UNKNOWN)
       (Raise ValidationError ''there is no active evidence to reconcile'')) (\<lambda>_.
     let (kind, sid) = (case version_id of Some vid \<Rightarrow> (SCOPE_VERSION, vid)
                        | None \<Rightarrow> (SCOPE_SONG, song_id)) in
     bindE (guardE (\<not> (rs_scope_kind resolution \<noteq> Some kind \<or> rs_scope_id resolution \<noteq> Some sid))
       (Raise ValidationError
         ''reconciliation must target the currently applicable explicit scope'')) (\<lambda>_.
     record_claim_with insert_row (scope_kind_name kind) sid key value source sref confidence domain
       (claim_ids resolution) db)))"

definition reconcile_for_song ::
  "string \<Rightarrow> string \<Rightarrow> json \<Rightarrow> string \<Rightarrow> string option \<Rightarrow> rat \<Rightarrow> string \<Rightarrow> string option
     \<Rightarrow> 'a evidence_db_scheme \<Rightarrow> (evidence_claim \<times> 'a evidence_db_scheme) res" where
  "reconcile_for_song = reconcile_for_song_with insert_claim"

subsection \<open>Opening\<close>

text \<open>\<open>_create_schema_v2\<close>: a profile gets the two empty tables and the version of the schema.\<close>

definition install_evidence :: "lineage_db \<Rightarrow> evidence_db" where
  "install_evidence db = lineage_db.extend
     (db\<lparr>db_metadata := (db_metadata db)(''evidence_schema_version'' \<mapsto> ''2'')\<rparr>)
     (evidence_db.fields [] [])"

text \<open>
  A profile as it is found on disk: the table of claims with the columns of schema version 1, which had no
  \<open>twin_domain\<close>, or of version 2, and each of the two tables possibly missing.
\<close>

record evidence_row_v1 =
  e1_seq :: nat
  e1_id :: string
  e1_scope_kind :: scope_kind
  e1_scope_id :: string
  e1_key :: string
  e1_value_json :: string
  e1_source_kind :: source_kind
  e1_source_ref :: "string option"
  e1_confidence :: rat

datatype claims_table = Claims_V1 "evidence_row_v1 list" | Claims_V2 "evidence_row list"

record evidence_file = lineage_db +
  ef_claims :: "claims_table option"
  ef_supersessions :: "(string \<times> string) list option"

text \<open>\<open>ALTER TABLE ... ADD COLUMN twin_domain TEXT NOT NULL DEFAULT 'UNSPECIFIED'\<close>.\<close>

definition add_twin_domain :: "evidence_row_v1 \<Rightarrow> evidence_row" where
  "add_twin_domain r = \<lparr>er_seq = e1_seq r, er_id = e1_id r, er_scope_kind = e1_scope_kind r,
     er_scope_id = e1_scope_id r, er_key = e1_key r, er_value_json = e1_value_json r,
     er_source_kind = e1_source_kind r, er_source_ref = e1_source_ref r,
     er_confidence = e1_confidence r, er_twin_domain = UNSPECIFIED\<rparr>"

fun migrate_v1_to_v2 :: "claims_table \<Rightarrow> claims_table" where
  "migrate_v1_to_v2 (Claims_V1 rows) = Claims_V2 (map add_twin_domain rows)"
| "migrate_v1_to_v2 (Claims_V2 rows) = Claims_V2 rows"

text \<open>\<open>_ensure_schema\<close>.\<close>

definition ensure_evidence :: "evidence_file \<Rightarrow> evidence_db res" where
  "ensure_evidence f =
     (let version = db_metadata f ''evidence_schema_version'' in
      case (ef_claims f, ef_supersessions f, version) of
        (None, None, None) \<Rightarrow> Inr (install_evidence (lineage_db.truncate f))
      | (Some table, Some edges, Some v) \<Rightarrow>
          let (table, v, metadata) =
                (if v = ''1'' then (migrate_v1_to_v2 table, ''2'', (db_metadata f)(''evidence_schema_version'' \<mapsto> ''2''))
                 else (table, v, db_metadata f)) in
          bindE (guardE (v = ''2'')
            (Raise LineageCorruptionError (''unsupported scoped evidence schema version: '' @ v))) (\<lambda>_.
          case table of
            Claims_V1 _ \<Rightarrow> Inl (Raise LineageCorruptionError ''scoped evidence schema v2 is missing twin_domain'')
          | Claims_V2 rows \<Rightarrow> Inr (lineage_db.extend ((lineage_db.truncate f)\<lparr>db_metadata := metadata\<rparr>)
              (evidence_db.fields rows edges)))
      | _ \<Rightarrow> Inl (Raise LineageCorruptionError ''scoped evidence schema metadata/table mismatch''))"

text \<open>\<open>_validate_existing\<close>.\<close>

definition valid_edge :: "'a evidence_db_scheme \<Rightarrow> string \<times> string \<Rightarrow> bool" where
  "valid_edge db e =
     (case (find_claim db (fst e), find_claim db (snd e)) of
        (Some newer, Some older) \<Rightarrow> same_target newer older
      | _ \<Rightarrow> False)"

definition validate_evidence_row :: "'a evidence_db_scheme \<Rightarrow> evidence_row \<Rightarrow> unit res" where
  "validate_evidence_row db r =
     bindE (check_scope LineageCorruptionError (er_scope_kind r) (er_scope_id r) db) (\<lambda>_.
     bindE (guardE (0 \<le> er_confidence r \<and> er_confidence r \<le> 1)
       (Raise LineageCorruptionError ''scoped evidence contains invalid confidence'')) (\<lambda>_.
     guardE (loads (er_value_json r) \<noteq> None)
       (Raise LineageCorruptionError ''scoped evidence contains invalid JSON value'')))"

definition validate_evidence_memory :: "'a evidence_db_scheme \<Rightarrow> unit res" where
  "validate_evidence_memory db =
     bindE (guardE (db_metadata db ''evidence_schema_version'' = Some ''2'')
       (Raise LineageCorruptionError ''unsupported scoped evidence schema version'')) (\<lambda>_.
     bindE (mapE (validate_evidence_row db) (db_evidence_claims db)) (\<lambda>_.
     guardE (list_all (valid_edge db) (db_supersessions db))
       (Raise LineageCorruptionError ''scoped evidence supersession graph is invalid'')))"

end
