(* ===== verification/Evidence_Facts.thy ===== *)
theory Evidence_Facts
  imports Evidence
begin

text \<open>
  The invariant of the evidence memory (\<open>Evidence\<close>), the memory as a machine, and what follows for every
  reachable memory: supersession is a forest whose roots are the active claims, resolution is the
  one specified, and reconciliation settles it.
\<close>

subsection \<open>The invariant\<close>

text \<open>A claim that \<open>_validate_existing\<close> accepts, with a trimmed key and a value that reads back.\<close>

definition claim_ok :: "'a evidence_db_scheme \<Rightarrow> evidence_row \<Rightarrow> bool" where
  "claim_ok db r \<longleftrightarrow> check_scope LineageCorruptionError (er_scope_kind r) (er_scope_id r) db = Inr ()
     \<and> 0 \<le> er_confidence r \<and> er_confidence r \<le> 1 \<and> trimmed (er_key r)
     \<and> (\<exists>v. wf_json v \<and> er_value_json r = canonical_value v)"

text \<open>
  Supersession is a forest: an edge leads from a claim to an older one with the same scope and key,
  and no claim is superseded twice.
\<close>

definition edges_ok :: "evidence_row list \<Rightarrow> (string \<times> string) list \<Rightarrow> bool" where
  "edges_ok rows es \<longleftrightarrow> distinct (map snd es)
     \<and> (\<forall>e \<in> set es. \<exists>n \<in> set rows. \<exists>m \<in> set rows.
          er_id n = fst e \<and> er_id m = snd e \<and> same_target n m)"

definition ev_inv :: "'a evidence_db_scheme \<Rightarrow> bool" where
  "ev_inv db \<longleftrightarrow> lineage_inv db \<and> db_metadata db ''evidence_schema_version'' = Some ''2''
     \<and> distinct (map er_id (db_evidence_claims db))
     \<and> map er_seq (db_evidence_claims db) = [1..<Suc (length (db_evidence_claims db))]
     \<and> list_all (claim_ok db) (db_evidence_claims db)
     \<and> edges_ok (db_evidence_claims db) (db_supersessions db)"

lemma claim_id_eq:
  assumes "ev_inv db" and "n \<in> set (db_evidence_claims db)" and "m \<in> set (db_evidence_claims db)"
    and "er_id n = er_id m"
  shows "n = m"
proof -
  have "inj_on er_id (set (db_evidence_claims db))" using assms(1) by (simp add: ev_inv_def distinct_map)
  then show ?thesis by (rule inj_onD) (rule assms)+
qed

text \<open>Claims and edges are only added, and the lineage is extended.\<close>

definition ev_extends :: "'a evidence_db_scheme \<Rightarrow> 'a evidence_db_scheme \<Rightarrow> bool" where
  "ev_extends db db' \<longleftrightarrow> db_random db' = db_random db \<and> db_artists db' = db_artists db
     \<and> (\<forall>k. k \<noteq> ''active_song_id'' \<longrightarrow> db_metadata db' k = db_metadata db k)
     \<and> so_id ` set (db_songs db) \<subseteq> so_id ` set (db_songs db')
     \<and> prefix (db_versions db) (db_versions db') \<and> prefix (db_activity db) (db_activity db')
     \<and> prefix (db_evidence_claims db) (db_evidence_claims db')
     \<and> prefix (db_supersessions db) (db_supersessions db')"

lemma ev_extends_refl [simp]: "ev_extends db db"
  by (simp add: ev_extends_def)

lemma ev_extends_trans: "ev_extends a b \<Longrightarrow> ev_extends b c \<Longrightarrow> ev_extends a c"
  unfolding ev_extends_def by (elim conjE, intro conjI) (simp | blast intro: prefix_order.trans)+

lemma more_evidence:
  assumes "lineage_db.more db' = lineage_db.more db"
  shows "db_evidence_claims db' = db_evidence_claims db \<and> db_supersessions db' = db_supersessions db
    \<and> evidence_db.more db' = evidence_db.more db"
  using assms by (cases db; cases db') simp

lemma extends_ev_extends: "extends db db' \<Longrightarrow> ev_extends db db'"
  using more_evidence [of db' db] extends_songs [of db db'] by (simp add: extends_def ev_extends_def)

lemma check_scope_mono:
  assumes "ev_extends db db'" and "check_scope cls k sid db = Inr ()"
  shows "check_scope cls k sid db' = Inr ()"
proof -
  have "store_profile_id db' = store_profile_id db" "primary_artist_id db' = primary_artist_id db"
    using assms(1) by (simp_all add: ev_extends_def store_profile_id_def primary_artist_id_def)
  moreover have "ve_id ` set (db_versions db) \<subseteq> ve_id ` set (db_versions db')"
    using assms(1) set_mono_prefix unfolding ev_extends_def by blast
  moreover have "so_id ` set (db_songs db) \<subseteq> so_id ` set (db_songs db')"
    using assms(1) by (simp add: ev_extends_def)
  ultimately show ?thesis
    using assms(2) by (auto simp: check_scope_def Let_def guardE_eq_Inr split: scope_kind.splits)
qed

lemma claim_ok_mono: "ev_extends db db' \<Longrightarrow> claim_ok db r \<Longrightarrow> claim_ok db' r"
  unfolding claim_ok_def using check_scope_mono by blast

lemma edges_okD:
  assumes "edges_ok rows es" and "e \<in> set es"
  obtains n m where "n \<in> set rows" "m \<in> set rows" "er_id n = fst e" "er_id m = snd e" "same_target n m"
  using assms unfolding edges_ok_def by blast

lemma edges_ok_rows: "edges_ok rows es \<Longrightarrow> set rows \<subseteq> set rows' \<Longrightarrow> edges_ok rows' es"
  unfolding edges_ok_def by fast

lemma ev_inv_extends:
  assumes "ev_inv db" and "lineage_inv db'" and "extends db db'"
  shows "ev_inv db'"
proof -
  from assms(3) have m: "db_evidence_claims db' = db_evidence_claims db"
    "db_supersessions db' = db_supersessions db" using more_evidence by (auto simp: extends_def)
  have "list_all (claim_ok db') (db_evidence_claims db')"
    using assms(1) claim_ok_mono [OF extends_ev_extends [OF assms(3)]]
    by (auto simp: ev_inv_def m list_all_iff)
  moreover have "db_metadata db' ''evidence_schema_version'' = Some ''2''"
    using assms(1) extends_metadata [OF assms(3)] by (simp add: ev_inv_def)
  ultimately show ?thesis using assms(1,2) by (simp add: ev_inv_def m)
qed

subsection \<open>Reading rows\<close>

lemma find_claim_None [simp]: "find_claim db cid = None \<longleftrightarrow> cid \<notin> er_id ` set (db_evidence_claims db)"
  by (auto simp: find_claim_def find_None_iff)

lemma find_claim_Some: "find_claim db cid = Some r \<Longrightarrow> r \<in> set (db_evidence_claims db) \<and> er_id r = cid"
  by (auto simp: find_claim_def find_Some_iff in_set_conv_nth)

lemma find_claim_row:
  assumes "distinct (map er_id (db_evidence_claims db))" and "r \<in> set (db_evidence_claims db)"
  shows "find_claim db (er_id r) = Some r"
proof -
  obtain u where u: "find_claim db (er_id r) = Some u" using assms(2) by (cases "find_claim db (er_id r)") auto
  from find_claim_Some [OF u] assms have "u = r" by (metis eq_key_imp_eq_value inj_onD distinct_map)
  with u show ?thesis by simp
qed

text \<open>The claim a row with a well-formed value is read as.\<close>

definition row_claim :: "evidence_row \<Rightarrow> evidence_claim" where
  "row_claim r = \<lparr>ec_id = er_id r, ec_sequence = er_seq r, ec_scope_kind = er_scope_kind r,
     ec_scope_id = er_scope_id r, ec_key = er_key r, ec_value = the (loads (er_value_json r)),
     ec_source_kind = er_source_kind r, ec_source_ref = er_source_ref r,
     ec_confidence = er_confidence r, ec_twin_domain = er_twin_domain r\<rparr>"

lemma row_claim_simps [simp]:
  "ec_id (row_claim r) = er_id r" "ec_key (row_claim r) = er_key r"
  "ec_scope_kind (row_claim r) = er_scope_kind r" "ec_scope_id (row_claim r) = er_scope_id r"
  "ec_sequence (row_claim r) = er_seq r" "ec_source_kind (row_claim r) = er_source_kind r"
  by (simp_all add: row_claim_def)

lemma claim_from_row_Inr: "claim_from_row r = Inr c \<longleftrightarrow> loads (er_value_json r) \<noteq> None \<and> c = row_claim r"
  by (auto simp: claim_from_row_def row_claim_def split: option.splits)

lemma canonical_value_reads: "wf_json v \<Longrightarrow> loads (canonical_value v) = Some (norm_json v)"
  by (simp add: canonical_value_def loads_dumps)

lemma claim_ok_loads: "claim_ok db r \<Longrightarrow> loads (er_value_json r) \<noteq> None"
  by (auto simp: claim_ok_def canonical_value_reads)

lemma claims_read:
  assumes "ev_inv db"
  shows "mapE claim_from_row (active_rows db kind sid) = Inr (map row_claim (active_rows db kind sid))"
proof (rule mapE_total)
  fix r
  assume "r \<in> set (active_rows db kind sid)"
  then have "claim_ok db r" using assms by (auto simp: active_rows_def ev_inv_def list_all_iff)
  then show "claim_from_row r = Inr (row_claim r)" by (simp add: claim_from_row_Inr claim_ok_loads)
qed

text \<open>The active rows for a scope and a key.\<close>

definition active_for :: "'a evidence_db_scheme \<Rightarrow> scope_kind \<Rightarrow> string \<Rightarrow> string \<Rightarrow> evidence_row list" where
  "active_for db kind sid key = filter (\<lambda>r. er_key r = key) (active_rows db kind sid)"

lemma active_claims_eq:
  assumes "ev_inv db" and "strip key \<noteq> []" and "validate_scope ValidationError kind0 sid db = Inr kind"
  shows "active_claims kind0 sid key db = Inr (map row_claim (active_for db kind sid (strip key)))"
  using assms by (simp add: active_claims_def evidence_key_def Let_def active_claims_for_scope_def
      claims_read active_for_def filter_map comp_def)

lemma active_claims_Inr:
  assumes "active_claims kind0 sid key db = Inr cs" and "ev_inv db"
  obtains kind where "strip key \<noteq> []" "validate_scope ValidationError kind0 sid db = Inr kind"
    "cs = map row_claim (active_for db kind sid (strip key))"
proof -
  from assms(1) obtain kind where k: "strip key \<noteq> []" "validate_scope ValidationError kind0 sid db = Inr kind"
    by (auto simp: active_claims_def evidence_key_def active_claims_for_scope_def Let_def
        split: if_splits elim!: bindE_InrE)
  with active_claims_eq [OF assms(2) k] assms(1) show ?thesis using that by simp
qed

subsection \<open>Each statement\<close>

lemma evidence_activity_Inr:
  assumes "evidence_activity etype cid r db = Inr db'"
  obtains artist where "db_metadata db ''primary_artist_id'' = Some artist"
    "insert_activity etype artist (case er_scope_kind r of
             SCOPE_SONG \<Rightarrow> Some (er_scope_id r)
           | SCOPE_VERSION \<Rightarrow> map_option ve_song_id (get_version db (er_scope_id r))
           | _ \<Rightarrow> None)
       (if er_scope_kind r = SCOPE_VERSION then Some (er_scope_id r) else None) ''EVIDENCE_CLAIM'' cid db = Inr db'"
  using assms by (auto simp: evidence_activity_def split: option.splits)

text \<open>An event changes nothing but the chronology.\<close>

lemma evidence_activity_tables:
  assumes "evidence_activity etype cid r db = Inr db'"
  obtains row where "db' = db\<lparr>db_draws := Suc (db_draws db), db_activity := db_activity db @ [row]\<rparr>"
  using assms by (elim evidence_activity_Inr insert_activity_Inr) blast

lemma ev_frames [simp]:
  "core_ok (db\<lparr>db_evidence_claims := rs\<rparr>) = core_ok db"
  "core_ok (db\<lparr>db_supersessions := es\<rparr>) = core_ok db"
  "activity_ok (db\<lparr>db_evidence_claims := rs\<rparr>) = activity_ok db"
  "activity_ok (db\<lparr>db_supersessions := es\<rparr>) = activity_ok db"
  by (simp_all add: core_defs activity_ok_def activity_row_ok_def has_artist_def version_in_song_def
      fun_eq_iff list_all_iff)

lemma check_scope_cls: "check_scope cls k sid db = Inr () \<Longrightarrow> check_scope cls' k sid db = Inr ()"
  by (auto simp: check_scope_def Let_def bindE_eq_Inr guardE_eq_Inr split: scope_kind.splits)

lemma check_scope_frames [simp]:
  "check_scope cls k sid (db\<lparr>db_draws := n\<rparr>) = check_scope cls k sid db"
  "check_scope cls k sid (db\<lparr>db_draws := n, db_activity := acs\<rparr>) = check_scope cls k sid db"
  "check_scope cls k sid (db\<lparr>db_evidence_claims := rs\<rparr>) = check_scope cls k sid db"
  "check_scope cls k sid (db\<lparr>db_supersessions := es\<rparr>) = check_scope cls k sid db"
  by (simp_all add: check_scope_def primary_artist_id_def store_profile_id_def get_song_def get_version_def
      Let_def cong: scope_kind.case_cong)

lemma claim_ok_frames [simp]:
  "claim_ok (db\<lparr>db_draws := n\<rparr>) = claim_ok db"
  "claim_ok (db\<lparr>db_draws := n, db_activity := acs\<rparr>) = claim_ok db"
  "claim_ok (db\<lparr>db_evidence_claims := rs\<rparr>) = claim_ok db"
  "claim_ok (db\<lparr>db_supersessions := es\<rparr>) = claim_ok db"
  by (simp_all add: fun_eq_iff claim_ok_def)

lemma ev_inv_draws [simp]: "ev_inv (db\<lparr>db_draws := n\<rparr>) = ev_inv db"
  by (simp add: ev_inv_def list_all_iff)

lemma ev_extends_draws: "ev_extends db (db\<lparr>db_draws := n\<rparr>)"
  by (simp add: ev_extends_def)

lemma evidence_activity_inv:
  assumes "evidence_activity etype cid r db = Inr db'" and "core_ok db" and "activity_ok db"
  shows "lineage_inv db'"
  using assms by (elim evidence_activity_Inr) (auto intro: insert_activity_inv)

lemma insert_claim_step:
  assumes "insert_claim r db = Inr db'" and "ev_inv db"
    and "er_seq r = Suc (length (db_evidence_claims db))"
    and "check_scope cls (er_scope_kind r) (er_scope_id r) db = Inr ()"
    and "wf_json v" and "er_value_json r = canonical_value v" and "trimmed (er_key r)"
  shows "ev_inv db' \<and> ev_extends db db' \<and> db_evidence_claims db' = db_evidence_claims db @ [r]
    \<and> db_supersessions db' = db_supersessions db \<and> er_id r \<notin> er_id ` set (db_evidence_claims db)"
proof -
  let ?db = "db\<lparr>db_evidence_claims := db_evidence_claims db @ [r]\<rparr>"
  from assms(1) have new: "er_id r \<notin> er_id ` set (db_evidence_claims db)" and c: "0 \<le> er_confidence r"
    "er_confidence r \<le> 1" and a: "evidence_activity ''EVIDENCE_CLAIM_RECORDED'' (er_id r) r ?db = Inr db'"
    by (auto simp: insert_claim_def guardE_eq_Inr elim!: bindE_InrE)
  obtain row where db': "db' = ?db\<lparr>db_draws := Suc (db_draws ?db), db_activity := db_activity ?db @ [row]\<rparr>"
    using a by (rule evidence_activity_tables)
  have "lineage_inv db'"
    by (rule evidence_activity_inv [OF a]) (use assms(2) in \<open>simp_all add: ev_inv_def lineage_inv_def\<close>)
  moreover have "claim_ok db r"
    using assms(4-7) c check_scope_cls unfolding claim_ok_def by blast
  moreover have "edges_ok (db_evidence_claims db @ [r]) (db_supersessions db)"
    by (rule edges_ok_rows [of "db_evidence_claims db"]) (use assms(2) in \<open>auto simp: ev_inv_def\<close>)
  ultimately have "ev_inv db'"
    using assms(2,3) new by (simp add: ev_inv_def db')
  then show ?thesis using new by (simp add: db' ev_extends_def)
qed

lemma insert_supersession_step:
  assumes "insert_supersession new old db = Inr db'" and "ev_inv db"
    and "old \<notin> snd ` set (db_supersessions db)"
  shows "ev_inv db' \<and> ev_extends db db' \<and> db_evidence_claims db' = db_evidence_claims db
    \<and> db_supersessions db' = db_supersessions db @ [(new, old)]"
proof -
  let ?db = "db\<lparr>db_supersessions := db_supersessions db @ [(new, old)]\<rparr>"
  from assms(1) obtain newer older where f: "find_claim db new = Some newer" "find_claim db old = Some older"
    and t: "same_target newer older"
    and a: "evidence_activity ''EVIDENCE_SUPERSESSION_LINKED'' new newer ?db = Inr db'"
    by (auto simp: insert_supersession_def guardE_eq_Inr split: option.splits elim!: bindE_InrE)
  obtain row where db': "db' = ?db\<lparr>db_draws := Suc (db_draws ?db), db_activity := db_activity ?db @ [row]\<rparr>"
    using a by (rule evidence_activity_tables)
  have "lineage_inv db'"
    by (rule evidence_activity_inv [OF a]) (use assms(2) in \<open>simp_all add: ev_inv_def lineage_inv_def\<close>)
  moreover have "edges_ok (db_evidence_claims db) (db_supersessions db @ [(new, old)])"
  proof -
    have "\<exists>n \<in> set (db_evidence_claims db). \<exists>m \<in> set (db_evidence_claims db).
        er_id n = new \<and> er_id m = old \<and> same_target n m"
      using find_claim_Some [OF f(1)] find_claim_Some [OF f(2)] t by blast
    then show ?thesis using assms(2,3) by (auto simp: ev_inv_def edges_ok_def)
  qed
  ultimately have "ev_inv db'" using assms(2) by (simp add: ev_inv_def db' list_all_iff)
  then show ?thesis by (simp add: db' ev_extends_def)
qed

lemma insert_supersessions_step:
  "insert_supersessions new olds db = Inr db' \<Longrightarrow> ev_inv db \<Longrightarrow> distinct olds
     \<Longrightarrow> set olds \<inter> snd ` set (db_supersessions db) = {}
     \<Longrightarrow> ev_inv db' \<and> ev_extends db db' \<and> db_evidence_claims db' = db_evidence_claims db
       \<and> db_supersessions db' = db_supersessions db @ map (Pair new) olds"
proof (induction olds arbitrary: db)
  case Nil
  then show ?case by simp
next
  case (Cons old olds)
  from Cons.prems(1) obtain db1 where 1: "insert_supersession new old db = Inr db1"
    and 2: "insert_supersessions new olds db1 = Inr db'" by (auto elim!: bindE_InrE)
  have s: "ev_inv db1 \<and> ev_extends db db1 \<and> db_evidence_claims db1 = db_evidence_claims db
    \<and> db_supersessions db1 = db_supersessions db @ [(new, old)]"
    using insert_supersession_step [OF 1] Cons.prems by simp
  have "ev_inv db' \<and> ev_extends db1 db' \<and> db_evidence_claims db' = db_evidence_claims db1
       \<and> db_supersessions db' = db_supersessions db1 @ map (Pair new) olds"
    by (rule Cons.IH [OF 2]) (use s Cons.prems in auto)
  with s ev_extends_trans show ?case by auto
qed

subsection \<open>Each operation\<close>

lemma on_integrity_Inr [simp]: "on_integrity msg r = Inr x \<longleftrightarrow> r = Inr x"
  by (auto simp: on_integrity_def split: sum.splits if_splits)

lemma insert_supersessions_more:
  "insert_supersessions new olds db = Inr db' \<Longrightarrow> evidence_db.more db' = evidence_db.more db"
proof (induction olds arbitrary: db)
  case (Cons old olds)
  from Cons.prems obtain db1 where 1: "insert_supersession new old db = Inr db1"
    and 2: "insert_supersessions new olds db1 = Inr db'" by (auto elim!: bindE_InrE)
  have "evidence_db.more db1 = evidence_db.more db"
    using 1 unfolding insert_supersession_def
    by (auto split: option.splits elim!: bindE_InrE elim: evidence_activity_tables)
  with Cons.IH [OF 2] show ?case by simp
qed simp

text \<open>
  The contract of a store whose tables are the rest of the record (\<open>evidence_db.more\<close>): what it says of
  them survives while the memory below is extended and the claims stay.
\<close>

locale evidence_tables =
  fixes tables_ok :: "'a evidence_db_scheme \<Rightarrow> bool"
  assumes tables_mono: "ev_extends db db' \<Longrightarrow> db_evidence_claims db' = db_evidence_claims db
      \<Longrightarrow> evidence_db.more db' = evidence_db.more db \<Longrightarrow> tables_ok db \<Longrightarrow> tables_ok db'"
begin

text \<open>The store below and events keep the tables.\<close>

lemma lineage_step:
  assumes "exec_lineage l db = Inr db'" and "ev_inv db" and "tables_ok db"
  shows "ev_inv db' \<and> ev_extends db db' \<and> tables_ok db' \<and> db_evidence_claims db' = db_evidence_claims db
    \<and> evidence_db.more db' = evidence_db.more db"
proof -
  have "lineage_inv db' \<and> extends db db'" by (rule exec_lineage_inv) (use assms in \<open>simp_all add: ev_inv_def\<close>)
  moreover from this have "db_evidence_claims db' = db_evidence_claims db \<and> evidence_db.more db' = evidence_db.more db"
    using more_evidence by (auto simp: extends_def)
  ultimately show ?thesis using ev_inv_extends [OF assms(2)] extends_ev_extends tables_mono assms(3) by blast
qed

lemma draws_step: "tables_ok db \<Longrightarrow> tables_ok (db\<lparr>db_draws := n\<rparr>)"
  by (rule tables_mono [OF ev_extends_draws]) simp_all

end

text \<open>
  A store may also extend the statement that inserts a claim: it appends the row and keeps the memory and
  what the store says.
\<close>

locale evidence_store = evidence_tables tables_ok
  for tables_ok :: "'a evidence_db_scheme \<Rightarrow> bool" +
  fixes insert_row :: "evidence_row \<Rightarrow> 'a evidence_db_scheme \<Rightarrow> 'a evidence_db_scheme res"
  assumes insert_row_step: "insert_row r db = Inr db' \<Longrightarrow> ev_inv db \<Longrightarrow> tables_ok db
      \<Longrightarrow> er_seq r = Suc (length (db_evidence_claims db))
      \<Longrightarrow> check_scope ValidationError (er_scope_kind r) (er_scope_id r) db = Inr ()
      \<Longrightarrow> wf_json v \<Longrightarrow> er_value_json r = canonical_value v \<Longrightarrow> trimmed (er_key r)
      \<Longrightarrow> ev_inv db' \<and> tables_ok db' \<and> ev_extends db db'
        \<and> db_evidence_claims db' = db_evidence_claims db @ [r]
        \<and> db_supersessions db' = db_supersessions db \<and> er_id r \<notin> er_id ` set (db_evidence_claims db)"
begin

text \<open>What a recorded claim is: the row it stores, and the edges to what it supersedes.\<close>

lemma recorded_Inr:
  assumes "record_claim_with insert_row kind0 sid key0 value source0 sref conf domain0 olds db = Inr (c, db')"
    and "ev_inv db" and "tables_ok db" and "wf_json value"
  obtains r kind source db1 db2 where
    "ev_inv db'" "ev_extends db db'" "tables_ok db'" "c = row_claim r"
    "db_evidence_claims db' = db_evidence_claims db @ [r]"
    "er_id r \<notin> er_id ` set (db_evidence_claims db)"
    "db_supersessions db' = db_supersessions db @ map (Pair (er_id r)) (fromkeys olds)"
    "validate_scope ValidationError kind0 sid db = Inr kind" "er_scope_kind r = kind" "er_scope_id r = sid"
    "strip key0 \<noteq> []" "er_key r = strip key0" "er_value_json r = canonical_value value"
    "parse_enum SOURCE_KINDS source0 = Some source" "er_source_kind r = source" "er_source_ref r = sref"
    "set olds \<subseteq> set (map er_id (active_for db kind sid (strip key0)))"
    "er_confidence r = conf" "parse_enum TWIN_DOMAINS domain0 = Some (er_twin_domain r)"
    "new_id ''claim'' db = (er_id r, db1)" "insert_row r db1 = Inr db2"
    "evidence_db.more db' = evidence_db.more db2"
proof -
  obtain cid db1 where id: "new_id ''claim'' db = (cid, db1)" by (cases "new_id ''claim'' db") auto
  note db1 = new_id_draws [OF id]
  from assms(1) obtain domain kind source active db2 us where
    k: "strip key0 \<noteq> []" "validate_scope ValidationError kind0 sid db = Inr kind"
    and d: "parse_enum TWIN_DOMAINS domain0 = Some domain"
    and src: "parse_enum SOURCE_KINDS source0 = Some source"
    and act: "active_claims kind0 sid (strip key0) db = Inr active"
    and chk: "mapE (check_superseded kind sid (strip key0) (map ec_id active) db) (fromkeys olds) = Inr us"
    and ins: "insert_row \<lparr>er_seq = Suc (length (db_evidence_claims db1)), er_id = cid, er_scope_kind = kind,
               er_scope_id = sid, er_key = strip key0, er_value_json = canonical_value value,
               er_source_kind = source, er_source_ref = sref, er_confidence = conf,
               er_twin_domain = domain\<rparr> db1 = Inr db2"
    and sup: "insert_supersessions cid (fromkeys olds) db2 = Inr db'"
    and get: "get_claim db' cid = Inr (Some c)"
    unfolding record_claim_with_def id Let_def prod.case normalize_twin_domain_def evidence_key_def
    by (auto elim!: bindE_InrE split: option.splits if_splits)
  let ?r = "\<lparr>er_seq = Suc (length (db_evidence_claims db1)), er_id = cid, er_scope_kind = kind,
               er_scope_id = sid, er_key = strip key0, er_value_json = canonical_value value,
               er_source_kind = source, er_source_ref = sref, er_confidence = conf,
               er_twin_domain = domain\<rparr>"
  from k(2) have scope: "check_scope ValidationError kind sid db1 = Inr ()"
    by (auto simp: validate_scope_def db1 split: option.splits elim!: bindE_InrE)
  have "tables_ok db1" using assms(3) tables_mono [OF ev_extends_draws] unfolding db1 by simp
  then have s1: "ev_inv db2 \<and> tables_ok db2 \<and> ev_extends db1 db2 \<and> db_evidence_claims db2 = db_evidence_claims db1 @ [?r]
    \<and> db_supersessions db2 = db_supersessions db1 \<and> er_id ?r \<notin> er_id ` set (db_evidence_claims db1)"
    by (intro insert_row_step [OF ins, of "value"])
      (use assms(2,4) scope k(1) strip_nonempty_trimmed in \<open>simp_all add: db1\<close>)
  have old: "set olds \<subseteq> set (map er_id (active_for db kind sid (strip key0)))"
  proof
    fix x
    assume "x \<in> set olds"
    then obtain u where "check_superseded kind sid (strip key0) (map ec_id active) db x = Inr u"
      using mapE_all [OF chk] by (auto simp: list_all2_conv_all_nth in_set_conv_nth) (metis in_set_conv_nth set_fromkeys)
    then have "x \<in> set (map ec_id active)"
      by (auto simp: check_superseded_def guardE_eq_Inr elim!: bindE_InrE split: option.splits)
    moreover have "active = map row_claim (active_for db kind sid (strip key0))"
      using act active_claims_eq [OF assms(2) _ k(2), of "strip key0"] k(1) by simp
    ultimately show "x \<in> set (map er_id (active_for db kind sid (strip key0)))" by (auto simp: comp_def)
  qed
  have s2: "ev_inv db' \<and> ev_extends db2 db' \<and> db_evidence_claims db' = db_evidence_claims db2
       \<and> db_supersessions db' = db_supersessions db2 @ map (Pair cid) (fromkeys olds)"
  proof (rule insert_supersessions_step [OF sup])
    show "set (fromkeys olds) \<inter> snd ` set (db_supersessions db2) = {}"
      using old s1 by (force simp: db1 active_for_def active_rows_def)
  qed (use s1 in simp_all)
  note more = insert_supersessions_more [OF sup]
  have "tables_ok db'" using s1 s2 tables_mono more by blast
  moreover have "distinct (map er_id (db_evidence_claims db'))" using s2 unfolding ev_inv_def by blast
  moreover have "?r \<in> set (db_evidence_claims db')" using s1 s2 by simp
  ultimately have "tables_ok db'" "find_claim db' (er_id ?r) = Some ?r" using find_claim_row by blast+
  moreover from this have "c = row_claim ?r"
    using get by (auto simp: get_claim_def claim_from_row_Inr elim!: bindE_InrE)
  moreover have "ev_extends db db'" using s1 s2 ev_extends_trans ev_extends_draws unfolding db1 by blast
  ultimately show ?thesis
    using that [of ?r kind source db1 db2] s1 s2 k d src old id ins more by (simp add: db1)
qed

lemma reconciled_Inr:
  assumes "reconcile_for_song_with insert_row song_id key value source sref conf domain version_id db = Inr (c, db')"
  obtains res kind sid where "resolve_for_song song_id key version_id db = Inr res"
    "rs_status res \<noteq> EVIDENCE_UNKNOWN" "rs_scope_kind res = Some kind" "rs_scope_id res = Some sid"
    "(kind, sid) = (case version_id of Some vid \<Rightarrow> (SCOPE_VERSION, vid) | None \<Rightarrow> (SCOPE_SONG, song_id))"
    "record_claim_with insert_row (scope_kind_name kind) sid key value source sref conf domain (claim_ids res) db
       = Inr (c, db')"
  using assms unfolding reconcile_for_song_with_def
  by (auto simp: guardE_eq_Inr Let_def split: option.splits elim!: bindE_InrE)

end

interpretation evidence_memory: evidence_store "\<lambda>_. True" insert_claim
  by unfold_locales (use insert_claim_step in blast)+

lemmas record_claim_Inr = evidence_memory.recorded_Inr [folded record_claim_def, OF _ _ TrueI]

lemma reconcile_for_song_Inr:
  assumes "reconcile_for_song song_id key value source sref conf domain version_id db = Inr (c, db')"
  obtains res kind sid where "resolve_for_song song_id key version_id db = Inr res"
    "rs_status res \<noteq> EVIDENCE_UNKNOWN" "rs_scope_kind res = Some kind" "rs_scope_id res = Some sid"
    "(kind, sid) = (case version_id of Some vid \<Rightarrow> (SCOPE_VERSION, vid) | None \<Rightarrow> (SCOPE_SONG, song_id))"
    "record_claim (scope_kind_name kind) sid key value source sref conf domain (claim_ids res) db = Inr (c, db')"
  using assms unfolding reconcile_for_song_def record_claim_def by (rule evidence_memory.reconciled_Inr)

text \<open>Components that extend the record keep their tables.\<close>

lemma insert_claim_more: "insert_claim r db = Inr db' \<Longrightarrow> evidence_db.more db' = evidence_db.more db"
  unfolding insert_claim_def by (elim bindE_InrE evidence_activity_tables) simp

lemma record_claim_more:
  assumes "record_claim kind0 sid key0 v source0 sref conf domain0 olds db = Inr (c, db')"
  shows "evidence_db.more db' = evidence_db.more db"
proof -
  obtain cid db1 where id: "new_id ''claim'' db = (cid, db1)" by (cases "new_id ''claim'' db") auto
  from assms obtain r db2 where "insert_claim r db1 = Inr db2"
    "insert_supersessions cid (fromkeys olds) db2 = Inr db'"
    unfolding record_claim_def record_claim_with_def id Let_def prod.case
    by (auto elim!: bindE_InrE split: option.splits)
  then show ?thesis
    using new_id_draws [OF id] insert_claim_more insert_supersessions_more by fastforce
qed

lemma record_claim_inv:
  "record_claim kind0 sid key0 value source0 sref conf domain0 olds db = Inr (c, db') \<Longrightarrow> ev_inv db
     \<Longrightarrow> wf_json value \<Longrightarrow> ev_inv db' \<and> ev_extends db db'"
  by (elim record_claim_Inr) blast+

lemma reconcile_for_song_inv:
  "reconcile_for_song song_id key value source sref conf domain version_id db = Inr (c, db') \<Longrightarrow> ev_inv db
     \<Longrightarrow> wf_json value \<Longrightarrow> ev_inv db' \<and> ev_extends db db'"
  by (elim reconcile_for_song_Inr) (rule record_claim_inv)

subsection \<open>The memory as a machine\<close>

text \<open>
  The operations of the store and of the memory. The value of a claim is Python data, whose objects
  have distinct keys; a command with another value stands for no call.
\<close>

datatype evidence_cmd =
    Evidence_Lineage lineage_cmd
  | Record_Claim string string string json string "string option" rat string "string list"
  | Reconcile_Song string string json string "string option" rat string "string option"

fun exec_evidence :: "evidence_cmd \<Rightarrow> 'a evidence_db_scheme \<Rightarrow> 'a evidence_db_scheme res" where
  "exec_evidence (Evidence_Lineage c) db = exec_lineage c db"
| "exec_evidence (Record_Claim kind sid key v source sref conf domain olds) db =
     (if wf_json v then map_sum id snd (record_claim kind sid key v source sref conf domain olds db)
      else Inl (Raise PyTypeError []))"
| "exec_evidence (Reconcile_Song song key v source sref conf domain version) db =
     (if wf_json v then map_sum id snd (reconcile_for_song song key v source sref conf domain version db)
      else Inl (Raise PyTypeError []))"

lemma exec_evidence_inv:
  assumes "exec_evidence c db = Inr db'" and "ev_inv db"
  shows "ev_inv db' \<and> ev_extends db db'"
proof (cases c)
  case (Evidence_Lineage l)
  then have "exec_lineage l db = Inr db'" "lineage_inv db" using assms by (simp_all add: ev_inv_def)
  then have "lineage_inv db' \<and> extends db db'" by (rule exec_lineage_inv)
  then show ?thesis using ev_inv_extends [OF assms(2)] extends_ev_extends by blast
next
  case (Record_Claim kind sid key v source sref conf domain olds)
  with assms show ?thesis by (auto simp: map_sum_snd_Inr dest: record_claim_inv split: if_splits)
next
  case (Reconcile_Song song key v source sref conf domain version)
  with assms show ?thesis by (auto simp: map_sum_snd_Inr dest: reconcile_for_song_inv split: if_splits)
qed

lemma exec_evidence_more:
  assumes "exec_evidence c db = Inr db'" and "ev_inv db"
  shows "evidence_db.more db' = evidence_db.more db"
proof (cases c)
  case (Evidence_Lineage l)
  then have "exec_lineage l db = Inr db'" "lineage_inv db" using assms by (simp_all add: ev_inv_def)
  then have "extends db db'" using exec_lineage_inv by blast
  then show ?thesis using more_evidence by (auto simp: extends_def)
next
  case (Record_Claim kind sid key v source sref conf domain olds)
  with assms show ?thesis by (auto simp: map_sum_snd_Inr dest: record_claim_more split: if_splits)
next
  case (Reconcile_Song song key v source sref conf domain version)
  with assms show ?thesis
    by (auto simp: map_sum_snd_Inr dest: record_claim_more elim!: reconcile_for_song_Inr split: if_splits)
qed

interpretation evidence_machine: logged_machine exec_evidence ev_inv db_evidence_claims
  by unfold_locales (auto simp: ev_extends_def dest: exec_evidence_inv)

interpretation supersession_machine: logged_machine exec_evidence ev_inv db_supersessions
  by unfold_locales (auto simp: ev_extends_def dest: exec_evidence_inv)

lemma install_evidence_inv: "lineage_inv db \<Longrightarrow> ev_inv (install_evidence db)"
  using install_tables_inv [of db "''evidence_schema_version''" "''2''" "evidence_db.fields [] []"]
  by (simp add: install_evidence_def ev_inv_def lineage_db.defs evidence_db.defs edges_ok_def)

definition ev_reachable :: "evidence_db \<Rightarrow> bool" where
  "ev_reachable db \<longleftrightarrow> (\<exists>random name db0 cs. create_profile random name = Inr db0
     \<and> db = run_cmds exec_evidence cs (install_evidence db0))"

lemma ev_reachable_inv: "ev_reachable db \<Longrightarrow> ev_inv db"
  unfolding ev_reachable_def
  using evidence_machine.run_inv install_evidence_inv create_profile_inv by blast

lemma ev_reachable_run: "ev_reachable db \<Longrightarrow> ev_reachable (run_cmds exec_evidence cs db)"
  unfolding ev_reachable_def by (metis run_cmds_append)

subsection \<open>Stores over the memory\<close>

text \<open>A profile has one artist, its primary artist.\<close>

definition one_artist :: "'a lineage_db_scheme \<Rightarrow> bool" where
  "one_artist db \<longleftrightarrow> (\<exists>a. db_metadata db ''primary_artist_id'' = Some a \<and> map ar_id (db_artists db) = [a])"

lemma one_artist_primary: "one_artist db \<Longrightarrow> has_artist db a \<longleftrightarrow> primary_artist_id db = Inr a"
  by (auto simp: one_artist_def has_artist_def primary_artist_id_def)

lemma create_profile_artist: "create_profile random name = Inr db \<Longrightarrow> one_artist db \<and> db_random db = random"
  by (auto simp: create_profile_def new_id_def Let_def one_artist_def elim!: bindE_InrE insert_activity_Inr)

lemma ev_extends_artist:
  "ev_extends db db' \<Longrightarrow> primary_artist_id db' = primary_artist_id db \<and> (one_artist db \<longrightarrow> one_artist db')"
  by (simp add: ev_extends_def primary_artist_id_def one_artist_def)

text \<open>A component that extends the evidence memory adds its tables and its schema version.\<close>

lemma extend_ev_inv: "ev_inv (evidence_db.extend db m) = ev_inv db" for db :: evidence_db
proof -
  have "activity_row_ok (evidence_db.extend db m) = activity_row_ok db"
    by (simp add: fun_eq_iff activity_row_ok_def has_artist_def version_in_song_def evidence_db.defs)
  then have "lineage_inv (evidence_db.extend db m) = lineage_inv db"
    by (simp add: lineage_inv_def activity_ok_def core_defs has_artist_def version_in_song_def
        evidence_db.defs del: upt_Suc)
  moreover have "claim_ok (evidence_db.extend db m) = claim_ok db"
    by (simp add: fun_eq_iff claim_ok_def check_scope_def primary_artist_id_def store_profile_id_def
        get_song_def get_version_def evidence_db.defs Let_def cong: scope_kind.case_cong)
  ultimately show ?thesis by (simp add: ev_inv_def evidence_db.defs del: upt_Suc)
qed

lemma schema_version_ev_inv:
  assumes "ev_inv db"
    and "k \<notin> {''schema_version'', ''profile_id'', ''primary_artist_id'', ''active_song_id'',
      ''evidence_schema_version''}"
  shows "ev_inv (db\<lparr>db_metadata := (db_metadata db)(k \<mapsto> v)\<rparr>)"
proof -
  let ?db = "db\<lparr>db_metadata := (db_metadata db)(k \<mapsto> v)\<rparr>"
  have "metadata_ok ?db" using assms by (auto simp: ev_inv_def lineage_inv_def core_ok_def metadata_ok_def)
  moreover have "activity_row_ok ?db = activity_row_ok db" by (simp add: fun_eq_iff activity_row_ok_def)
  moreover have "store_profile_id ?db = store_profile_id db" "primary_artist_id ?db = primary_artist_id db"
    using assms(2) by (auto simp: store_profile_id_def primary_artist_id_def)
  then have "claim_ok ?db = claim_ok db"
    by (simp add: fun_eq_iff claim_ok_def check_scope_def get_song_def get_version_def Let_def
        cong: scope_kind.case_cong)
  moreover have "''evidence_schema_version'' \<noteq> k" using assms(2) by auto
  ultimately show ?thesis
    using assms by (simp add: ev_inv_def lineage_inv_def core_ok_def activity_ok_def del: upt_Suc)
qed

lemma ev_inv_truncate: "ev_inv db = ev_inv (evidence_db.truncate db)"
proof -
  have "evidence_db.extend (evidence_db.truncate db) (evidence_db.more db) = db"
    by (cases db) (simp add: evidence_db.defs)
  then show ?thesis using extend_ev_inv [of "evidence_db.truncate db" "evidence_db.more db"] by simp
qed

lemma ev_inv_same: "evidence_db.truncate db' = evidence_db.truncate db \<Longrightarrow> ev_inv db' = ev_inv db"
  using ev_inv_truncate by metis

lemma ev_extends_same: "evidence_db.truncate db' = evidence_db.truncate db \<Longrightarrow> ev_extends db db'"
  by (simp add: evidence_db.defs ev_extends_def)

context evidence_tables
begin

lemma event_step:
  assumes "insert_activity etype artist song version otype oid db = Inr db'" and "ev_inv db" and "tables_ok db"
  shows "ev_inv db' \<and> ev_extends db db' \<and> evidence_db.more db' = evidence_db.more db
    \<and> db_evidence_claims db' = db_evidence_claims db \<and> db_supersessions db' = db_supersessions db \<and> tables_ok db'"
proof -
  have "lineage_inv db' \<and> extends db db'"
    by (rule insert_activity_step [OF assms(1)]) (use assms(2) in \<open>simp_all add: ev_inv_def lineage_inv_def\<close>)
  moreover obtain row where "db' = db\<lparr>db_draws := Suc (db_draws db), db_activity := db_activity db @ [row]\<rparr>"
    using assms(1) by (rule insert_activity_Inr)
  then have "evidence_db.more db' = evidence_db.more db" "db_evidence_claims db' = db_evidence_claims db"
    "db_supersessions db' = db_supersessions db" by simp_all
  ultimately show ?thesis
    using ev_inv_extends [OF assms(2)] extends_ev_extends tables_mono assms(3) by blast
qed

text \<open>A statement changes the tables of the store, then its trigger records an event.\<close>

lemma statement_step:
  assumes "insert_activity etype artist song version otype oid db1 = Inr db'" and "ev_inv db"
    and same: "evidence_db.truncate db1 = evidence_db.truncate db" and "tables_ok db1"
  shows "ev_inv db' \<and> ev_extends db db' \<and> evidence_db.more db' = evidence_db.more db1
    \<and> db_evidence_claims db' = db_evidence_claims db \<and> db_supersessions db' = db_supersessions db \<and> tables_ok db'"
proof -
  have "ev_inv db1" using ev_inv_same [OF same] assms(2) by simp
  moreover have "db_evidence_claims db1 = db_evidence_claims db" "db_supersessions db1 = db_supersessions db"
    using same by (simp_all add: evidence_db.defs)
  ultimately show ?thesis
    using event_step [OF assms(1) _ assms(4)] ev_extends_same [OF same] ev_extends_trans by metis
qed

end

subsection \<open>Supersession\<close>

definition superseded_by :: "'a evidence_db_scheme \<Rightarrow> (string \<times> string) set" where
  "superseded_by db = {(old, new). (new, old) \<in> set (db_supersessions db)}"

lemma superseded_by_single: "ev_inv db \<Longrightarrow> single_valued (superseded_by db)"
proof -
  assume "ev_inv db"
  then have "inj_on snd (set (db_supersessions db))" by (simp add: ev_inv_def edges_ok_def distinct_map)
  then have "(y, x) = (z, x)" if "(y, x) \<in> set (db_supersessions db)" "(z, x) \<in> set (db_supersessions db)" for x y z
    using that by (metis inj_onD snd_conv)
  then show ?thesis by (auto simp: superseded_by_def single_valued_def)
qed

lemma superseded_by_newer:
  assumes "ev_inv db" and "(old, new) \<in> superseded_by db"
  obtains n m where "n \<in> set (db_evidence_claims db)" "m \<in> set (db_evidence_claims db)"
    "er_id n = new" "er_id m = old" "same_target n m"
proof -
  have "edges_ok (db_evidence_claims db) (db_supersessions db)" using assms(1) by (simp add: ev_inv_def)
  moreover have "(new, old) \<in> set (db_supersessions db)" using assms(2) by (simp add: superseded_by_def)
  ultimately obtain n m where "n \<in> set (db_evidence_claims db)" "m \<in> set (db_evidence_claims db)"
    "er_id n = fst (new, old)" "er_id m = snd (new, old)" "same_target n m" by (rule edges_okD)
  with that show ?thesis by simp
qed

lemma unsuperseded_end:
  assumes "(a, b) \<in> (superseded_by db)\<^sup>*" and "a \<notin> snd ` set (db_supersessions db)"
  shows "b = a"
  using assms by (induction rule: converse_rtrancl_induct) (force simp: superseded_by_def)+

lemma claim_seq:
  assumes "ev_inv db" and "n \<in> set (db_evidence_claims db)"
  shows "er_seq n \<le> length (db_evidence_claims db)"
proof -
  have "er_seq n \<in> set (map er_seq (db_evidence_claims db))" using assms(2) by simp
  also have "map er_seq (db_evidence_claims db) = [1..<Suc (length (db_evidence_claims db))]"
    using assms(1) by (simp add: ev_inv_def del: upt_Suc)
  finally show ?thesis by auto
qed

text \<open>Following the supersessions from any claim ends at an active one of the same scope and key.\<close>

lemma leads_to_active:
  assumes "ev_inv db" and "r \<in> set (db_evidence_claims db)"
  shows "\<exists>n \<in> set (active_for db (er_scope_kind r) (er_scope_id r) (er_key r)).
     (er_id r, er_id n) \<in> (superseded_by db)\<^sup>*"
  using assms(2)
proof (induction "length (db_evidence_claims db) - er_seq r" arbitrary: r rule: less_induct)
  case less
  show ?case
  proof (cases "er_id r \<in> snd ` set (db_supersessions db)")
    case False
    with less.prems have "r \<in> set (active_for db (er_scope_kind r) (er_scope_id r) (er_key r))"
      by (simp add: active_for_def active_rows_def)
    then show ?thesis by blast
  next
    case True
    then obtain new where e: "(er_id r, new) \<in> superseded_by db" by (auto simp: superseded_by_def)
    then obtain n m where n: "n \<in> set (db_evidence_claims db)" "m \<in> set (db_evidence_claims db)"
      "er_id n = new" "er_id m = er_id r" "same_target n m" by (rule superseded_by_newer [OF assms(1)])
    have mr: "m = r" by (rule claim_id_eq [OF assms(1) n(2) less.prems n(4)])
    have "er_seq n \<le> length (db_evidence_claims db)" by (rule claim_seq [OF assms(1) n(1)])
    then have "length (db_evidence_claims db) - er_seq n < length (db_evidence_claims db) - er_seq r"
      using n(5) mr by (auto simp: same_target_def)
    from less.hyps [OF this n(1)] e n(3,5) mr show ?thesis
      by (auto simp: same_target_def intro: converse_rtrancl_into_rtrancl)
  qed
qed

lemma scope_kind_parses [simp]: "parse_enum SCOPE_KINDS (scope_kind_name k) = Some k"
  by (cases k) (simp_all add: SCOPE_KINDS_def enum_eval of_char_def)

subsection \<open>Active claims\<close>

lemma validate_scope_name:
  "validate_scope cls (scope_kind_name k) sid db = Inr k' \<longleftrightarrow> check_scope cls k sid db = Inr () \<and> k' = k"
  by (auto simp: validate_scope_def bindE_eq_Inr)

lemma active_claims_name:
  assumes "ev_inv db" and "strip key \<noteq> []" and "check_scope cls k sid db = Inr ()"
  shows "active_claims (scope_kind_name k) sid key db = Inr (map row_claim (active_for db k sid (strip key)))"
  by (rule active_claims_eq [OF assms(1,2)]) (use check_scope_cls [OF assms(3)] in \<open>simp add: validate_scope_name\<close>)

lemma active_for_mem:
  "r \<in> set (active_for db k sid key) \<longleftrightarrow> r \<in> set (db_evidence_claims db) \<and> er_scope_kind r = k
     \<and> er_scope_id r = sid \<and> er_key r = key \<and> er_id r \<notin> snd ` set (db_supersessions db)"
  by (auto simp: active_for_def active_rows_def)

text \<open>Values read from the store are in normal form, so equal canonical texts mean equal values.\<close>

lemma row_claim_value:
  assumes "claim_ok db r"
  shows "canonical_value (ec_value (row_claim r)) = er_value_json r"
    and "norm_json (ec_value (row_claim r)) = ec_value (row_claim r)"
proof -
  from assms obtain v where v: "wf_json v" "er_value_json r = canonical_value v" by (auto simp: claim_ok_def)
  then have "ec_value (row_claim r) = norm_json v" by (simp add: row_claim_def canonical_value_reads)
  then show "canonical_value (ec_value (row_claim r)) = er_value_json r"
    "norm_json (ec_value (row_claim r)) = ec_value (row_claim r)" by (simp_all add: v(2) canonical_value_def)
qed

lemma row_claim_value_eq:
  assumes "claim_ok db r" and "claim_ok db s"
  shows "canonical_value (ec_value (row_claim r)) = canonical_value (ec_value (row_claim s))
     \<longleftrightarrow> ec_value (row_claim r) = ec_value (row_claim s)"
  using row_claim_value [OF assms(1)] row_claim_value [OF assms(2)]
  by (simp add: row_claim_def) (metis option.sel)

lemma fromkeys_single: "length (fromkeys xs) = 1 \<longleftrightarrow> xs \<noteq> [] \<and> (\<forall>x \<in> set xs. x = hd xs)"
proof
  assume "length (fromkeys xs) = 1"
  then obtain y where "fromkeys xs = [y]" by (auto simp: length_Suc_conv)
  then have "set xs = {y}" using set_fromkeys [of xs] by simp
  then show "xs \<noteq> [] \<and> (\<forall>x \<in> set xs. x = hd xs)" by (cases xs) auto
next
  assume "xs \<noteq> [] \<and> (\<forall>x \<in> set xs. x = hd xs)"
  then have "set (fromkeys xs) = {hd xs}" by (cases xs) auto
  then have "card (set (fromkeys xs)) = 1" by simp
  then show "length (fromkeys xs) = 1" by (simp only: distinct_card [OF distinct_fromkeys])
qed

subsection \<open>Resolution\<close>

text \<open>
  What a resolution promises: the first scope that has active claims decides, and it resolves exactly
  when they agree on the value.
\<close>

definition decide_claims :: "string \<Rightarrow> scope_kind \<Rightarrow> string \<Rightarrow> evidence_claim list \<Rightarrow> evidence_resolution" where
  "decide_claims key k sid cs =
     (if \<forall>c \<in> set cs. ec_value c = ec_value (hd cs)
      then \<lparr>rs_status = EVIDENCE_RESOLVED, rs_key = key, rs_scope_kind = Some k, rs_scope_id = Some sid,
            rs_value = ec_value (hd cs), rs_claims = cs\<rparr>
      else \<lparr>rs_status = EVIDENCE_CONFLICT, rs_key = key, rs_scope_kind = Some k, rs_scope_id = Some sid,
            rs_value = JNull, rs_claims = cs\<rparr>)"

definition resolution_spec ::
  "string \<Rightarrow> (scope_kind \<times> string) list \<Rightarrow> 'a evidence_db_scheme \<Rightarrow> evidence_resolution" where
  "resolution_spec key scopes db =
     (case find (\<lambda>(k, sid). active_for db k sid (strip key) \<noteq> []) scopes of
        None \<Rightarrow> \<lparr>rs_status = EVIDENCE_UNKNOWN, rs_key = key, rs_scope_kind = None, rs_scope_id = None,
                 rs_value = JNull, rs_claims = []\<rparr>
      | Some (k, sid) \<Rightarrow> decide_claims key k sid (map row_claim (active_for db k sid (strip key))))"

lemma same_value_hd:
  assumes "cs \<noteq> []"
    and eq: "\<And>c d. c \<in> set cs \<Longrightarrow> d \<in> set cs \<Longrightarrow>
      canonical_value (ec_value c) = canonical_value (ec_value d) \<longleftrightarrow> ec_value c = ec_value d"
  shows "length (fromkeys (map (\<lambda>c. canonical_value (ec_value c)) cs)) = 1
     \<longleftrightarrow> (\<forall>c \<in> set cs. ec_value c = ec_value (hd cs))"
  unfolding fromkeys_single using assms by (auto simp: hd_map)

lemma resolve_in_spec:
  assumes "ev_inv db" and "strip key \<noteq> []"
  shows "\<forall>(k, sid) \<in> set scopes. check_scope ValidationError k sid db = Inr () \<Longrightarrow>
    resolve_in key scopes db = Inr (resolution_spec key scopes db)"
proof (induction scopes)
  case Nil
  then show ?case by (simp add: resolution_spec_def)
next
  case (Cons e scopes)
  obtain k sid where e: "e = (k, sid)" by (cases e)
  let ?rs = "active_for db k sid (strip key)"
  let ?cs = "map row_claim ?rs"
  have act: "active_claims (scope_kind_name k) sid key db = Inr ?cs"
    by (rule active_claims_name [OF assms]) (use Cons.prems e in auto)
  show ?case
  proof (cases "?rs = []")
    case True
    then show ?thesis using Cons by (simp add: e act resolution_spec_def)
  next
    case False
    have "canonical_value (ec_value c) = canonical_value (ec_value d) \<longleftrightarrow> ec_value c = ec_value d"
      if cd: "c \<in> set ?cs" "d \<in> set ?cs" for c d
    proof -
      from cd obtain r s where r: "r \<in> set ?rs" "s \<in> set ?rs" "c = row_claim r" "d = row_claim s" by auto
      then have "claim_ok db r" "claim_ok db s"
        using assms(1) by (auto simp: active_for_mem ev_inv_def list_all_iff)
      then show ?thesis unfolding r(3,4) by (rule row_claim_value_eq)
    qed
    then have all: "length (fromkeys (map (\<lambda>c. canonical_value (ec_value c)) ?cs)) = 1
        \<longleftrightarrow> (\<forall>c \<in> set ?cs. ec_value c = ec_value (hd ?cs))"
      using False by (intro same_value_hd) simp_all
    have "ec_value (last ?cs) = ec_value (hd ?cs)" if "\<forall>c \<in> set ?cs. ec_value c = ec_value (hd ?cs)"
      using that False last_in_set [of ?cs] by blast
    then show ?thesis
      using False all unfolding e resolve_in.simps act bindE_Inr resolution_spec_def decide_claims_def
      by simp
  qed
qed

text \<open>A supersession takes exactly the claims it names out of the active ones.\<close>

lemma reconciled_active:
  assumes inv: "ev_inv db"
    and rec: "record_claim (scope_kind_name k) sid key v source sref conf domain
      (map er_id (active_for db k sid (strip key))) db = Inr (c, db')" and wf: "wf_json v"
  obtains r where "ev_inv db'" "ev_extends db db'" "c = row_claim r" "er_value_json r = canonical_value v"
    "active_for db' k sid (strip key) = [r]" "strip key \<noteq> []" "check_scope ValidationError k sid db = Inr ()"
  using rec
proof (rule record_claim_Inr [OF _ inv wf])
  fix r kind src
  assume a: "ev_inv db'" "ev_extends db db'" "c = row_claim r"
    "db_evidence_claims db' = db_evidence_claims db @ [r]" "er_id r \<notin> er_id ` set (db_evidence_claims db)"
    "db_supersessions db' = db_supersessions db
       @ map (Pair (er_id r)) (fromkeys (map er_id (active_for db k sid (strip key))))"
    "validate_scope ValidationError (scope_kind_name k) sid db = Inr kind" "er_scope_kind r = kind"
    "er_scope_id r = sid" "strip key \<noteq> []" "er_key r = strip key" "er_value_json r = canonical_value v"
  from a(7) have k: "kind = k" and scope: "check_scope ValidationError k sid db = Inr ()"
    by (auto simp: validate_scope_name)
  have olds: "snd ` set (db_supersessions db')
      = snd ` set (db_supersessions db) \<union> er_id ` set (active_for db k sid (strip key))"
    by (simp add: a(6) image_Un image_image)
  have "er_id r \<notin> snd ` set (db_supersessions db')"
  proof -
    have "snd ` set (db_supersessions db) \<subseteq> er_id ` set (db_evidence_claims db)"
      using inv by (force simp: ev_inv_def edges_ok_def)
    then show ?thesis using a(5) olds by (auto simp: active_for_mem)
  qed
  then have new: "active_for db' k sid (strip key)
      = filter (\<lambda>x. False) (db_evidence_claims db) @ [r]"
    using a(8,9,11) k olds
    by (auto simp: active_for_def active_rows_def a(4) filter_empty_conv active_for_mem)
  show ?thesis by (rule that [OF a(1-3,12) _ a(10) scope]) (use new in simp)
qed

lemma get_version_extends:
  "ev_extends db db' \<Longrightarrow> get_version db vid = Some v \<Longrightarrow> get_version db' vid = Some v"
  by (auto simp: ev_extends_def prefix_def get_version_def find_append_Some)

text \<open>Only the explicit scope, which comes first, has its kind.\<close>

lemma resolve_in_kind:
  assumes "resolve_in key scopes db = Inr res" and "rs_scope_kind res = Some k"
  shows "k \<in> fst ` set scopes"
  using assms by (induction key scopes db rule: resolve_in.induct) (auto elim!: bindE_InrE split: if_splits)

lemma resolve_in_first:
  assumes "resolve_in key ((k, sid) # scopes) db = Inr res" and "rs_scope_kind res = Some k"
    and "k \<notin> fst ` set scopes" and "ev_inv db"
  shows "claim_ids res = map er_id (active_for db k sid (strip key))"
proof -
  from assms(1) obtain cs where cs: "active_claims (scope_kind_name k) sid key db = Inr cs"
    and r: "(if cs = [] then resolve_in key scopes db
     else if length (fromkeys (map (\<lambda>c. canonical_value (ec_value c)) cs)) = 1
     then Inr \<lparr>rs_status = EVIDENCE_RESOLVED, rs_key = key, rs_scope_kind = Some k,
               rs_scope_id = Some sid, rs_value = ec_value (last cs), rs_claims = cs\<rparr>
     else Inr \<lparr>rs_status = EVIDENCE_CONFLICT, rs_key = key, rs_scope_kind = Some k,
               rs_scope_id = Some sid, rs_value = JNull, rs_claims = cs\<rparr>) = Inr res"
    unfolding resolve_in.simps by (rule bindE_InrE)
  have "cs \<noteq> []" using r resolve_in_kind [of key scopes db res] assms(2,3) by auto
  then have "rs_claims res = cs" using r by (auto split: if_splits)
  moreover obtain kind where "validate_scope ValidationError (scope_kind_name k) sid db = Inr kind"
    "cs = map row_claim (active_for db kind sid (strip key))"
    using cs assms(4) by (rule active_claims_Inr)
  ultimately show ?thesis by (simp add: claim_ids_def validate_scope_name comp_def)
qed

lemma ev_inv_validates:
  assumes inv: "ev_inv db"
  shows "validate_evidence_memory db = Inr ()"
proof -
  have "validate_evidence_row db r = Inr ()" if "r \<in> set (db_evidence_claims db)" for r
    using inv that claim_ok_loads [of db r]
    by (auto simp: ev_inv_def list_all_iff validate_evidence_row_def claim_ok_def guardE_def)
  then have "mapE (validate_evidence_row db) (db_evidence_claims db)
      = Inr (map (\<lambda>_. ()) (db_evidence_claims db))" by (rule mapE_total)
  moreover have "valid_edge db e" if e: "e \<in> set (db_supersessions db)" for e
  proof -
    have "edges_ok (db_evidence_claims db) (db_supersessions db)" "distinct (map er_id (db_evidence_claims db))"
      using inv by (simp_all add: ev_inv_def)
    obtain n m where "n \<in> set (db_evidence_claims db)" "m \<in> set (db_evidence_claims db)"
      "er_id n = fst e" "er_id m = snd e" "same_target n m"
      using \<open>edges_ok _ _\<close> e by (rule edges_okD)
    moreover from this have "find_claim db (fst e) = Some n" "find_claim db (snd e) = Some m"
      using find_claim_row [OF \<open>distinct _\<close>] by metis+
    ultimately show ?thesis by (simp add: valid_edge_def)
  qed
  ultimately show ?thesis
    using inv by (simp add: validate_evidence_memory_def ev_inv_def list_all_iff guardE_def)
qed

subsection \<open>Opening a stored memory\<close>

text \<open>A memory as its file holds it, and the file an installation of schema version 1 would hold.\<close>

definition memory_file :: "evidence_db \<Rightarrow> evidence_file" where
  "memory_file db = lineage_db.extend (lineage_db.truncate db)
     (evidence_file.fields (Some (Claims_V2 (db_evidence_claims db))) (Some (db_supersessions db)))"

definition without_domain :: "evidence_row \<Rightarrow> evidence_row_v1" where
  "without_domain r = \<lparr>e1_seq = er_seq r, e1_id = er_id r, e1_scope_kind = er_scope_kind r,
     e1_scope_id = er_scope_id r, e1_key = er_key r, e1_value_json = er_value_json r,
     e1_source_kind = er_source_kind r, e1_source_ref = er_source_ref r, e1_confidence = er_confidence r\<rparr>"

definition memory_file_v1 :: "evidence_db \<Rightarrow> evidence_file" where
  "memory_file_v1 db = lineage_db.extend
     ((lineage_db.truncate db)\<lparr>db_metadata := (db_metadata db)(''evidence_schema_version'' \<mapsto> ''1'')\<rparr>)
     (evidence_file.fields (Some (Claims_V1 (map without_domain (db_evidence_claims db))))
       (Some (db_supersessions db)))"

text \<open>What a migration forgets: the domain of a claim.\<close>

definition unspecified :: "evidence_claim \<Rightarrow> evidence_claim" where
  "unspecified c = c\<lparr>ec_twin_domain := UNSPECIFIED\<rparr>"

definition unspecified_row :: "evidence_row \<Rightarrow> evidence_row" where
  "unspecified_row r = r\<lparr>er_twin_domain := UNSPECIFIED\<rparr>"

definition unspecified_memory :: "evidence_db \<Rightarrow> evidence_db" where
  "unspecified_memory db = db\<lparr>db_evidence_claims := map unspecified_row (db_evidence_claims db)\<rparr>"

lemma unspecified_row_simps [simp]:
  "er_id (unspecified_row r) = er_id r" "er_seq (unspecified_row r) = er_seq r"
  "er_scope_kind (unspecified_row r) = er_scope_kind r" "er_scope_id (unspecified_row r) = er_scope_id r"
  "er_key (unspecified_row r) = er_key r" "er_value_json (unspecified_row r) = er_value_json r"
  "er_confidence (unspecified_row r) = er_confidence r"
  "add_twin_domain (without_domain r) = unspecified_row r"
  by (simp_all add: unspecified_row_def add_twin_domain_def without_domain_def)

lemma unspecified_simps [simp]:
  "ec_value (unspecified c) = ec_value c" "ec_key (unspecified c) = ec_key c" "ec_id (unspecified c) = ec_id c"
  by (simp_all add: unspecified_def)

lemma open_memory:
  assumes "db_metadata db ''evidence_schema_version'' = Some ''2''"
  shows "ensure_evidence (memory_file db) = Inr db"
  using assms by (cases db)
    (simp add: ensure_evidence_def memory_file_def lineage_db.defs evidence_file.defs evidence_db.defs guardE_def)

lemma open_memory_v1:
  assumes "db_metadata db ''evidence_schema_version'' = Some ''2''"
  shows "ensure_evidence (memory_file_v1 db) = Inr (unspecified_memory db)"
proof -
  have "(db_metadata db)(''evidence_schema_version'' \<mapsto> ''2'') = db_metadata db"
    using assms by (simp add: fun_upd_idem)
  then show ?thesis
    by (cases db) (simp add: ensure_evidence_def memory_file_v1_def unspecified_memory_def lineage_db.defs
        evidence_file.defs evidence_db.defs guardE_def comp_def)
qed

lemma unspecified_memory_frames [simp]:
  "get_song (unspecified_memory db) = get_song db" "get_version (unspecified_memory db) = get_version db"
  "store_profile_id (unspecified_memory db) = store_profile_id db"
  "check_scope cls k sid (unspecified_memory db) = check_scope cls k sid db"
  "validate_scope cls k0 sid (unspecified_memory db) = validate_scope cls k0 sid db"
  "claim_ok (unspecified_memory db) (unspecified_row r) = claim_ok db r"
  by (simp_all add: unspecified_memory_def get_song_def get_version_def store_profile_id_def fun_eq_iff
      validate_scope_def claim_ok_def split: option.split)

lemma unspecified_active_rows:
  "active_rows (unspecified_memory db) kind sid = map unspecified_row (active_rows db kind sid)"
  by (simp add: active_rows_def unspecified_memory_def filter_map comp_def)

lemma unspecified_claim:
  "claim_from_row (unspecified_row r) = map_sum id unspecified (claim_from_row r)"
  by (simp add: claim_from_row_def unspecified_row_def unspecified_def split: option.split)

lemma unspecified_claims:
  "mapE claim_from_row (map unspecified_row rows) = map_sum id (map unspecified) (mapE claim_from_row rows)"
  by (induction rows) (auto simp: unspecified_claim bindE_def split: sum.splits)

lemma unspecified_active_claims:
  "active_claims kind0 sid key (unspecified_memory db) = map_sum id (map unspecified) (active_claims kind0 sid key db)"
  by (auto simp: active_claims_def active_claims_for_scope_def unspecified_active_rows unspecified_claims
      filter_map comp_def bindE_def split: sum.splits)

definition unspecified_resolution :: "evidence_resolution \<Rightarrow> evidence_resolution" where
  "unspecified_resolution res = res\<lparr>rs_claims := map unspecified (rs_claims res)\<rparr>"

lemma unspecified_resolve_in:
  "resolve_in key scopes (unspecified_memory db) = map_sum id unspecified_resolution (resolve_in key scopes db)"
proof (induction key scopes db rule: resolve_in.induct)
  case (1 key db)
  then show ?case by (simp add: unspecified_resolution_def)
next
  case (2 key kind sid scopes db)
  show ?case
  proof (cases "active_claims (scope_kind_name kind) sid key db")
    case (Inr cs)
    then show ?thesis
      using 2 [OF Inr] by (cases "cs = []") (simp_all add: unspecified_active_claims unspecified_resolution_def comp_def last_map)
  qed (simp add: unspecified_active_claims)
qed

lemma unspecified_resolve:
  "resolve_for_song song key version (unspecified_memory db)
     = map_sum id unspecified_resolution (resolve_for_song song key version db)"
proof (cases "get_song db song")
  case (Some g)
  show ?thesis
  proof (cases "version")
    case (Some vid)
    show ?thesis
      by (cases "get_version db vid")
        (simp_all add: resolve_for_song_def \<open>get_song db song = Some g\<close> Some bindE_def guardE_def unspecified_resolve_in
          del: resolve_in.simps get_song_None get_version_None)
  qed (simp add: resolve_for_song_def Some unspecified_resolve_in del: resolve_in.simps)
qed (simp add: resolve_for_song_def del: get_song_None)

lemma unspecified_inv:
  assumes "ev_inv db"
  shows "ev_inv (unspecified_memory db)"
proof -
  have "lineage_inv (unspecified_memory db)"
    using assms by (simp add: ev_inv_def lineage_inv_def unspecified_memory_def)
  moreover have "edges_ok (map unspecified_row rows) es = edges_ok rows es" for rows es
    by (simp add: edges_ok_def same_target_def)
  moreover have "list_all (claim_ok (unspecified_memory db)) (map unspecified_row rows) = list_all (claim_ok db) rows" for rows
    by (simp add: list_all_iff)
  ultimately show ?thesis using assms
    by (simp add: ev_inv_def comp_def unspecified_memory_def)
qed

subsection \<open>Properties\<close>

text \<open>
  Every memory the code can reach re-opens: after any sequence of operations of the store and the
  memory, successful or failing, the validation on opening accepts the claims and the supersessions.
\<close>

theorem reachable_memory_validates:
  assumes "ev_reachable db"
  shows "validate_evidence_memory db = Inr ()"
  by (rule ev_inv_validates [OF ev_reachable_inv [OF assms]])

text \<open>
  C29. Opening keeps what was remembered: a file of the current version opens as the memory it holds, and
  a file of schema version 1 migrates to a memory that validates, has every claim and supersession, and
  resolves every key as before, with the domain of its claims left unspecified.
\<close>

theorem migration_keeps_evidence:
  assumes "ev_reachable db"
  shows "ensure_evidence (memory_file db) = Inr db
    \<and> (\<exists>db'. ensure_evidence (memory_file_v1 db) = Inr db' \<and> validate_evidence_memory db' = Inr ()
         \<and> map er_id (db_evidence_claims db') = map er_id (db_evidence_claims db)
         \<and> db_supersessions db' = db_supersessions db
         \<and> resolve_for_song song key version db'
             = map_sum id unspecified_resolution (resolve_for_song song key version db))"
proof -
  have inv: "ev_inv db" by (rule ev_reachable_inv [OF assms])
  then have "db_metadata db ''evidence_schema_version'' = Some ''2''" by (simp add: ev_inv_def)
  then show ?thesis
    using open_memory open_memory_v1 ev_inv_validates [OF unspecified_inv [OF inv]] unspecified_resolve
    by (simp add: unspecified_memory_def comp_def)
qed

text \<open>
  C17. Supersession loses no evidence: the claim of any row reads among the active ones of its scope and
  key, or leads along supersessions to exactly one active claim of that scope and key.
\<close>

theorem claim_leads_to_one_active:
  assumes "ev_reachable db" and "r \<in> set (db_evidence_claims db)"
  shows "\<exists>cs. active_claims (scope_kind_name (er_scope_kind r)) (er_scope_id r) (er_key r) db = Inr cs
    \<and> (\<exists>!c. c \<in> set cs \<and> (er_id r, ec_id c) \<in> (superseded_by db)\<^sup>*)"
proof -
  have inv: "ev_inv db" by (rule ev_reachable_inv [OF assms(1)])
  let ?act = "active_for db (er_scope_kind r) (er_scope_id r) (er_key r)"
  have ok: "claim_ok db r" using inv assms(2) by (simp add: ev_inv_def list_all_iff)
  then have "strip (er_key r) = er_key r" "strip (er_key r) \<noteq> []"
    and scope: "check_scope LineageCorruptionError (er_scope_kind r) (er_scope_id r) db = Inr ()"
    by (simp_all add: claim_ok_def strip_trimmed trimmed_nonempty)
  then have cs: "active_claims (scope_kind_name (er_scope_kind r)) (er_scope_id r) (er_key r) db
      = Inr (map row_claim ?act)"
    using active_claims_name [OF inv _ scope, of "er_key r"] by simp
  obtain n where n: "n \<in> set ?act" "(er_id r, er_id n) \<in> (superseded_by db)\<^sup>*"
    using leads_to_active [OF inv assms(2)] by blast
  have one: "m = n" if m: "m \<in> set ?act" "(er_id r, er_id m) \<in> (superseded_by db)\<^sup>*" for m
  proof -
    have "er_id m \<notin> snd ` set (db_supersessions db)" "er_id n \<notin> snd ` set (db_supersessions db)"
      using m(1) n(1) by (simp_all add: active_for_mem)
    then have "er_id m = er_id n"
      using single_valued_confluent [OF superseded_by_single [OF inv] m(2) n(2)] unsuperseded_end by metis
    then show "m = n" using m(1) n(1) claim_id_eq [OF inv] by (simp add: active_for_mem)
  qed
  have "\<exists>!c. c \<in> set (map row_claim ?act) \<and> (er_id r, ec_id c) \<in> (superseded_by db)\<^sup>*"
  proof (intro ex1I [of _ "row_claim n"])
    show "row_claim n \<in> set (map row_claim ?act) \<and> (er_id r, ec_id (row_claim n)) \<in> (superseded_by db)\<^sup>*"
      using n by simp
    fix c
    assume "c \<in> set (map row_claim ?act) \<and> (er_id r, ec_id c) \<in> (superseded_by db)\<^sup>*"
    then obtain m where "m \<in> set ?act" "c = row_claim m" "(er_id r, er_id m) \<in> (superseded_by db)\<^sup>*" by auto
    with one show "c = row_claim n" by blast
  qed
  with cs show ?thesis by blast
qed

text \<open>
  C18. Resolution is exact: on scopes that exist it always returns, and its result is the one
  specified: the most specific scope with active claims decides, it resolves exactly when they agree.
\<close>

theorem resolution_exact:
  assumes "ev_reachable db" and "get_song db song_id = Some song" and "strip key \<noteq> []"
    and "pred_option (\<lambda>vid. \<exists>v. get_version db vid = Some v \<and> ve_song_id v = song_id) version_id"
    and "scopes = (case version_id of None \<Rightarrow> [] | Some vid \<Rightarrow> [(SCOPE_VERSION, vid)])
      @ [(SCOPE_SONG, song_id), (SCOPE_ARTIST, so_artist_id song), (SCOPE_PROFILE, store_profile_id db)]"
    and "\<forall>(k, sid) \<in> set scopes. check_scope ValidationError k sid db = Inr ()"
  shows "resolve_for_song song_id key version_id db = Inr (resolution_spec key scopes db)"
  using resolve_in_spec [OF ev_reachable_inv [OF assms(1)] assms(3,6)] assms(2,4,5)
  by (cases version_id) (auto simp: resolve_for_song_def simp del: resolve_in.simps)

text \<open>
  C19. Reconciliation settles: when evidence about a song or version is reconciled, resolution at that
  scope afterwards returns the reconciled value, resting on the new claim alone.
\<close>

theorem reconciliation_resolves:
  assumes "ev_reachable db" and "wf_json v"
    and "reconcile_for_song song_id key v source sref conf domain version_id db = Inr (c, db')"
  shows "resolve_for_song song_id key version_id db' = Inr \<lparr>rs_status = EVIDENCE_RESOLVED, rs_key = key,
     rs_scope_kind = Some (if version_id = None then SCOPE_SONG else SCOPE_VERSION),
     rs_scope_id = Some (case version_id of None \<Rightarrow> song_id | Some vid \<Rightarrow> vid),
     rs_value = norm_json v, rs_claims = [c]\<rparr>"
proof -
  have inv: "ev_inv db" by (rule ev_reachable_inv [OF assms(1)])
  from assms(3) obtain res k sid where r: "resolve_for_song song_id key version_id db = Inr res"
    "rs_scope_kind res = Some k"
    and ks: "(k, sid) = (case version_id of Some vid \<Rightarrow> (SCOPE_VERSION, vid) | None \<Rightarrow> (SCOPE_SONG, song_id))"
    and rec: "record_claim (scope_kind_name k) sid key v source sref conf domain (claim_ids res) db = Inr (c, db')"
    by (rule reconcile_for_song_Inr)
  from r(1) obtain song where song: "get_song db song_id = Some song"
    by (auto simp: resolve_for_song_def split: option.splits)
  have vers: "\<exists>u. get_version db vid = Some u \<and> ve_song_id u = song_id" if "version_id = Some vid" for vid
    using r(1) song that by (auto simp: resolve_for_song_def guardE_eq_Inr split: option.splits elim!: bindE_InrE)
  define rest where "rest s = (if version_id = None then [] else [(SCOPE_SONG, song_id)])
     @ [(SCOPE_ARTIST, so_artist_id s), (SCOPE_PROFILE, store_profile_id db)]" for s :: song
  have first: "resolve_in key ((k, sid) # rest song) db = Inr res"
    using r(1) song vers ks by (cases version_id) (auto simp: resolve_for_song_def rest_def simp del: resolve_in.simps)
  have "k \<notin> fst ` set (rest song)" using ks by (cases version_id) (auto simp: rest_def)
  then have "claim_ids res = map er_id (active_for db k sid (strip key))"
    using resolve_in_first [OF first r(2) _ inv] by blast
  with rec obtain x where x: "ev_inv db'" "ev_extends db db'" "c = row_claim x"
    "er_value_json x = canonical_value v" "active_for db' k sid (strip key) = [x]" "strip key \<noteq> []"
    "check_scope ValidationError k sid db = Inr ()"
    using reconciled_active [OF inv _ assms(2)] by metis
  have cs: "active_claims (scope_kind_name k) sid key db' = Inr [c]"
    using active_claims_name [OF x(1,6) check_scope_mono [OF x(2,7)]] by (simp add: x(3,5))
  have val: "ec_value c = norm_json v"
    using assms(2) by (simp add: x(3,4) row_claim_def canonical_value_reads)
  have "song_id \<in> so_id ` set (db_songs db')"
    using get_song_Some [OF song] x(2) unfolding ev_extends_def by blast
  then obtain song' where "get_song db' song_id = Some song'" by (cases "get_song db' song_id") auto
  moreover have "store_profile_id db' = store_profile_id db"
    using x(2) by (simp add: ev_extends_def store_profile_id_def)
  ultimately show ?thesis
    using cs val ks vers get_version_extends [OF x(2)]
    by (cases version_id) (auto simp: resolve_for_song_def fromkeys_def)
qed

text \<open>A song with two claims about its tempo that disagree.\<close>

definition tempo_claim :: "int \<Rightarrow> evidence_cmd" where
  "tempo_claim bpm = Record_Claim ''SONG'' ''song_aaaa'' ''tempo'' (JObj [(''bpm'', JInt bpm)]) ''OBSERVED''
     (Some ''host'') 1 ''TECHNICAL'' []"

definition demo_memory :: evidence_db where
  "demo_memory = run_cmds exec_evidence
     [Evidence_Lineage (Create_Song ''Dawn''), tempo_claim 120, tempo_claim 124]
     (install_evidence demo_profile)"

lemma demo_memory_reachable: "ev_reachable demo_memory"
  unfolding ev_reachable_def demo_memory_def using demo_profile_created by blast

definition demo_settled :: "evidence_claim \<times> evidence_db" where
  "demo_settled = (case reconcile_for_song ''song_aaaa'' ''tempo'' (JObj [(''bpm'', JInt 120)]) ''USER_DECLARED''
     None 1 ''CREATIVE'' None demo_memory of Inr x \<Rightarrow> x | Inl _ \<Rightarrow> undefined)"

lemma demo_conflict:
  "map_sum id rs_status (resolve_for_song ''song_aaaa'' ''tempo'' None demo_memory) = Inr EVIDENCE_CONFLICT"
  by code_simp

lemma demo_reconciles:
  "reconcile_for_song ''song_aaaa'' ''tempo'' (JObj [(''bpm'', JInt 120)]) ''USER_DECLARED''
     None 1 ''CREATIVE'' None demo_memory = Inr (fst demo_settled, snd demo_settled)"
proof -
  have "\<not> isl (reconcile_for_song ''song_aaaa'' ''tempo'' (JObj [(''bpm'', JInt 120)]) ''USER_DECLARED''
     None 1 ''CREATIVE'' None demo_memory)" by code_simp
  then show ?thesis by (auto simp: demo_settled_def split: sum.splits)
qed

theorem reachable_memory_validates_witness:
  "length (db_evidence_claims demo_memory) = 2 \<and> validate_evidence_memory demo_memory = Inr ()"
proof
  show "length (db_evidence_claims demo_memory) = 2" by code_simp
qed (rule reachable_memory_validates [OF demo_memory_reachable])

theorem migration_keeps_evidence_witness:
  "length (db_evidence_claims demo_memory) = 2
   \<and> ensure_evidence (memory_file demo_memory) = Inr demo_memory
   \<and> (\<exists>db'. ensure_evidence (memory_file_v1 demo_memory) = Inr db' \<and> validate_evidence_memory db' = Inr ()
        \<and> map er_id (db_evidence_claims db') = map er_id (db_evidence_claims demo_memory)
        \<and> db_supersessions db' = db_supersessions demo_memory
        \<and> resolve_for_song ''song_aaaa'' ''tempo'' None db'
            = map_sum id unspecified_resolution (resolve_for_song ''song_aaaa'' ''tempo'' None demo_memory))"
proof
  show "length (db_evidence_claims demo_memory) = 2" by code_simp
qed (rule migration_keeps_evidence [OF demo_memory_reachable])

theorem reconciliation_resolves_witness:
  "map_sum id rs_status (resolve_for_song ''song_aaaa'' ''tempo'' None demo_memory) = Inr EVIDENCE_CONFLICT
   \<and> resolve_for_song ''song_aaaa'' ''tempo'' None (snd demo_settled)
     = Inr \<lparr>rs_status = EVIDENCE_RESOLVED, rs_key = ''tempo'', rs_scope_kind = Some SCOPE_SONG,
         rs_scope_id = Some ''song_aaaa'', rs_value = JObj [(''bpm'', JInt 120)],
         rs_claims = [fst demo_settled]\<rparr>"
  using demo_conflict reconciliation_resolves [OF demo_memory_reachable _ demo_reconciles] by simp

lemma demo_row: "db_evidence_claims demo_memory ! 0 \<in> set (db_evidence_claims demo_memory)"
proof (rule nth_mem)
  show "0 < length (db_evidence_claims demo_memory)" by code_simp
qed

theorem claim_leads_to_one_active_witness:
  "er_key (db_evidence_claims demo_memory ! 0) = ''tempo''
   \<and> (\<exists>cs. active_claims (scope_kind_name (er_scope_kind (db_evidence_claims demo_memory ! 0)))
         (er_scope_id (db_evidence_claims demo_memory ! 0)) (er_key (db_evidence_claims demo_memory ! 0)) demo_memory = Inr cs
       \<and> (\<exists>!c. c \<in> set cs \<and> (er_id (db_evidence_claims demo_memory ! 0), ec_id c) \<in> (superseded_by demo_memory)\<^sup>*))"
proof
  show "er_key (db_evidence_claims demo_memory ! 0) = ''tempo''" by code_simp
qed (rule claim_leads_to_one_active [OF demo_memory_reachable demo_row])

definition demo_song :: song where
  "demo_song = the (get_song demo_memory ''song_aaaa'')"

definition demo_scopes :: "(scope_kind \<times> string) list" where
  "demo_scopes = [(SCOPE_SONG, ''song_aaaa''), (SCOPE_ARTIST, so_artist_id demo_song),
     (SCOPE_PROFILE, store_profile_id demo_memory)]"

lemma demo_song_found: "get_song demo_memory ''song_aaaa'' = Some demo_song"
proof -
  have "get_song demo_memory ''song_aaaa'' \<noteq> None" by code_simp
  then show ?thesis by (auto simp: demo_song_def simp del: get_song_None)
qed

lemma demo_scopes_ok: "list_all (\<lambda>(k, sid). check_scope ValidationError k sid demo_memory = Inr ()) demo_scopes"
  by code_simp

theorem resolution_exact_witness:
  "resolve_for_song ''song_aaaa'' ''tempo'' None demo_memory
     = Inr (resolution_spec ''tempo'' demo_scopes demo_memory)"
proof (rule resolution_exact [OF demo_memory_reachable demo_song_found])
  show "strip ''tempo'' \<noteq> []" by code_simp
  show "demo_scopes = (case None of None \<Rightarrow> [] | Some vid \<Rightarrow> [(SCOPE_VERSION, vid)])
      @ [(SCOPE_SONG, ''song_aaaa''), (SCOPE_ARTIST, so_artist_id demo_song),
         (SCOPE_PROFILE, store_profile_id demo_memory)]" by (simp add: demo_scopes_def)
  show "\<forall>(k, sid) \<in> set demo_scopes. check_scope ValidationError k sid demo_memory = Inr ()"
    using demo_scopes_ok by (simp add: list_all_iff)
qed simp

text \<open>
  A claim about the profile whose id has outer space is recorded, for the check trims the id the row
  does not; it is then not among the active claims of the profile.
\<close>

lemma padded_scope_is_lost:
  "map_sum id (\<lambda>(c, db). active_claims ''PROFILE'' (store_profile_id db) ''k'' db)
     (record_claim ''PROFILE'' (store_profile_id demo_memory @ '' '') ''k'' JNull ''OBSERVED'' None 1 ''TECHNICAL''
       [] demo_memory) = Inr (Inr [])"
  by code_simp

end
