(* ===== verification/Calendar.thy ===== *)
theory Calendar
  imports Json
begin

text \<open>
  Calendar dates of Python's \<open>datetime.date\<close>: validity, order, and ISO text with its round trip.
\<close>

subsection \<open>Calendar dates\<close>

text \<open>\<open>datetime.date\<close>: year, month and day of the proleptic Gregorian calendar, years 1 to 9999.\<close>

type_synonym date = "nat \<times> nat \<times> nat"

definition is_leap :: "nat \<Rightarrow> bool" where
  "is_leap y \<longleftrightarrow> y mod 4 = 0 \<and> (y mod 100 \<noteq> 0 \<or> y mod 400 = 0)"

definition days_in_month :: "nat \<Rightarrow> nat \<Rightarrow> nat" where
  "days_in_month y m =
     (if m = 2 then if is_leap y then 29 else 28
      else if m \<in> {4, 6, 9, 11} then 30 else 31)"

definition valid_date :: "date \<Rightarrow> bool" where
  "valid_date d = (case d of (y, m, dd) \<Rightarrow> 1 \<le> y \<and> y \<le> 9999 \<and> 1 \<le> m \<and> m \<le> 12
     \<and> 1 \<le> dd \<and> dd \<le> days_in_month y m)"

text \<open>Comparison of dates.\<close>

definition date_before :: "date \<Rightarrow> date \<Rightarrow> bool" where
  "date_before a b = (case (a, b) of ((y, m, d), (y', m', d')) \<Rightarrow>
     y < y' \<or> y = y' \<and> (m < m' \<or> m = m' \<and> d < d'))"

subsection \<open>ISO text\<close>

definition digit :: "nat \<Rightarrow> char" where
  "digit n = char_of (48 + n mod 10)"

definition show2 :: "nat \<Rightarrow> string" where
  "show2 n = [digit (n div 10), digit n]"

definition show4 :: "nat \<Rightarrow> string" where
  "show4 n = show2 (n div 100) @ show2 n"

definition date_isoformat :: "date \<Rightarrow> string" where
  "date_isoformat d = (case d of (y, m, dd) \<Rightarrow> show4 y @ ''-'' @ show2 m @ ''-'' @ show2 dd)"

definition digits_val :: "string \<Rightarrow> nat option" where
  "digits_val s = (if s \<noteq> [] \<and> list_all is_digit s then Some (digit_val s) else None)"

text \<open>Days before the year \<open>y\<close>, and the weekday of its first day (0 is Monday).\<close>

definition first_weekday :: "nat \<Rightarrow> nat" where
  "first_weekday y = (let p = y - 1 in (365 * p + p div 4 - p div 100 + p div 400) mod 7)"

text \<open>The date \<open>n\<close> days after the first of month \<open>m\<close> of year \<open>y\<close>; at most two months are passed after a year.\<close>

fun forward :: "nat list \<Rightarrow> nat \<Rightarrow> nat \<Rightarrow> date" where
  "forward [] y n = (Suc y, 1, Suc n)"
| "forward (m # ms) y n =
     (if n < days_in_month y m then (y, m, Suc n) else forward ms y (n - days_in_month y m))"

text \<open>
  \<open>_isoweek_to_gregorian\<close>: week 1 is the week with the first Thursday, so its Monday lies at most
  three days before the year or three after its first day.
\<close>

definition isoweek_date :: "nat \<Rightarrow> nat \<Rightarrow> nat \<Rightarrow> date option" where
  "isoweek_date y w d =
     (let f = first_weekday y in
      if 1 \<le> y \<and> 1 \<le> w \<and> (w \<le> 52 \<or> w = 53 \<and> (f = 3 \<or> f = 2 \<and> is_leap y)) \<and> 1 \<le> d \<and> d \<le> 7
      then
        let n = (w - 1) * 7 + (d - 1);
            date = (if f \<le> 3
                    then if n < f then (y - 1, 12, 32 + n - f) else forward [1..<13] y (n - f)
                    else forward [1..<13] y (n + 7 - f))
        in if valid_date date then Some date else None
      else None)"

text \<open>
  \<open>date.fromisoformat\<close> (Python 3.11): \<open>YYYY-MM-DD\<close>, \<open>YYYYMMDD\<close>, \<open>YYYY-Www\<close>, \<open>YYYYWww\<close>, \<open>YYYY-Www-D\<close> and
  \<open>YYYYWwwD\<close>; the dashes are all there or none. What follows a complete date is not looked at, so a
  text of ten characters may end in two of any kind.
\<close>

definition sep_rest :: "bool \<Rightarrow> string \<Rightarrow> string option" where
  "sep_rest sep s =
     (case s of
        [] \<Rightarrow> None
      | c # r \<Rightarrow> if sep then (if c = CHR ''-'' then Some r else None)
                 else (if c = CHR ''-'' then None else Some s))"

definition date_fromisoformat :: "string \<Rightarrow> date option" where
  "date_fromisoformat s =
     (case digits_val (take 4 s) of
        None \<Rightarrow> None
      | Some y \<Rightarrow>
          if length s \<noteq> 7 \<and> length s \<noteq> 8 \<and> length s \<noteq> 10 then None
          else
            let sep = (s ! 4 = CHR ''-''); r = (if sep then drop 5 s else drop 4 s) in
            if take 1 r = ''W'' then
              (case digits_val (take 2 (drop 1 r)) of
                 None \<Rightarrow> None
               | Some w \<Rightarrow>
                   if drop 3 r = [] then isoweek_date y w 1
                   else
                     (case sep_rest sep (drop 3 r) of
                        None \<Rightarrow> None
                      | Some t \<Rightarrow>
                          (case digits_val (take 1 t) of None \<Rightarrow> None | Some d \<Rightarrow> isoweek_date y w d)))
            else
              (case (digits_val (take 2 r), sep_rest sep (drop 2 r)) of
                 (Some m, Some t) \<Rightarrow>
                   if length t < 2 then None
                   else (case digits_val (take 2 t) of
                           None \<Rightarrow> None
                         | Some d \<Rightarrow> if valid_date (y, m, d) then Some (y, m, d) else None)
               | _ \<Rightarrow> None))"

lemma digit_facts: "is_digit (digit n)" "code (digit n) = 48 + n mod 10"
  using digit_char [of "n mod 10"] by (simp_all add: digit_def)

lemma digit_val_show2: "digit_val (ds @ show2 n) = digit_val ds * 100 + n mod 100"
proof -
  have "digit_val (ds @ show2 n) = (digit_val ds * 10 + n div 10 mod 10) * 10 + n mod 10"
    using digit_val_snoc [of "ds @ [digit (n div 10)]" "digit n"] digit_val_snoc [of ds "digit (n div 10)"]
    by (simp add: show2_def digit_facts)
  moreover have "n mod 100 = n div 10 mod 10 * 10 + n mod 10" using mod_mult2_eq [of n 10 10] by simp
  ultimately show ?thesis by simp
qed

lemma digits_val_show2: "n < 100 \<Longrightarrow> digits_val (show2 n) = Some n"
  using digit_val_show2 [of "[]" n] by (simp add: digits_val_def digit_val_def) (simp add: show2_def digit_facts)

lemma digits_val_show4: "n < 10000 \<Longrightarrow> digits_val (show4 n) = Some n"
  using digit_val_show2 [of "show2 (n div 100)" n] digit_val_show2 [of "[]" "n div 100"]
  by (simp add: digits_val_def show4_def digit_val_def [of "[]"]) (simp add: show2_def digit_facts)

text \<open>A date reads back from its ISO text.\<close>

lemma date_round_trip:
  assumes "valid_date d"
  shows "date_fromisoformat (date_isoformat d) = Some d"
proof -
  obtain y m dd where d: "d = (y, m, dd)" by (cases d)
  have b: "y < 10000" "m < 100" "dd < 100"
    using assms by (auto simp: d valid_date_def days_in_month_def split: if_splits)
  have l: "length (show4 y) = 4" "length (show2 m) = 2" "length (show2 dd) = 2"
    by (simp_all add: show4_def show2_def)
  have "hd (show2 m) \<noteq> CHR ''W''"
    using digit_facts [of "m div 10"] by (auto simp: show2_def is_digit_def code_def)
  then have w: "take 1 (show2 m @ t) \<noteq> ''W''" for t by (simp add: show2_def)
  have "digits_val (take 4 (date_isoformat d)) = Some y"
    using l digits_val_show4 [OF b(1)] by (simp add: d date_isoformat_def)
  moreover have "length (date_isoformat d) = 10" "date_isoformat d ! 4 = CHR ''-''"
    "drop 5 (date_isoformat d) = show2 m @ ''-'' @ show2 dd"
    using l by (simp_all add: d date_isoformat_def nth_append)
  ultimately show ?thesis
    using w [of "''-'' @ show2 dd"] l b(2,3) assms
    by (simp add: date_fromisoformat_def sep_rest_def digits_val_show2 d)
qed

lemma date_fromisoformat_valid: "date_fromisoformat s = Some d \<Longrightarrow> valid_date d"
  by (auto simp: date_fromisoformat_def isoweek_date_def Let_def split: option.splits if_splits)

end
