(* ===== verification/People.thy ===== *)
theory People
  imports Evidence_Facts Calendar
begin

text \<open>
  \<open>n0te/people.py\<close>: the people of a profile and follow-ups with them, which are opened once and closed
  once, with the constraints and triggers of the two tables.
\<close>

subsection \<open>Text fields\<close>

text \<open>\<open>str.split()\<close>: the runs of characters that are no white space.\<close>

fun words_acc :: "string \<Rightarrow> string \<Rightarrow> string list" where
  "words_acc w [] = (if w = [] then [] else [w])"
| "words_acc w (c # s) =
     (if is_space c then (if w = [] then words_acc [] s else w # words_acc [] s)
      else words_acc (w @ [c]) s)"

definition squeeze :: "string \<Rightarrow> string" where
  "squeeze s = join '' '' (words_acc [] s)"

definition clean_text :: "string \<Rightarrow> string \<Rightarrow> nat \<Rightarrow> string res" where
  "clean_text value field maximum =
     (let text = squeeze value in
      if text = [] then Inl (Raise ValidationError (field @ '' must not be empty''))
      else if maximum < length text then Inl (Raise ValidationError (field @ '' is too long''))
      else Inr text)"

definition optional_clean_text :: "string option \<Rightarrow> string \<Rightarrow> nat \<Rightarrow> string option res" where
  "optional_clean_text value field maximum =
     (case value of
        None \<Rightarrow> Inr None
      | Some v \<Rightarrow>
          (let text = squeeze v in
           if text = [] then Inr None
           else if maximum < length text then Inl (Raise ValidationError (field @ '' is too long''))
           else Inr (Some text)))"

text \<open>\<open>str(value).strip().upper().replace("-", "_").replace(" ", "_")\<close>.\<close>

definition enum_word :: "string \<Rightarrow> string" where
  "enum_word value = map (\<lambda>c. if c = CHR ''-'' \<or> c = CHR '' '' then CHR ''_'' else c) (norm_enum value)"

definition normalize_due_on :: "string option \<Rightarrow> string option res" where
  "normalize_due_on value =
     (case value of
        None \<Rightarrow> Inr None
      | Some v \<Rightarrow>
          (let text = strip v in
           if text = [] then Inr None
           else (case date_fromisoformat text of
                   None \<Rightarrow> Inl (Raise ValidationError ''due_on must be an ISO calendar date (YYYY-MM-DD)'')
                 | Some d \<Rightarrow> Inr (Some (date_isoformat d)))))"

subsection \<open>Rows\<close>

datatype responsibility = ARTIST_OWES | WAITING_ON_OTHER | MUTUAL
datatype followup_state = FOLLOWUP_OPEN | FOLLOWUP_RESOLVED | FOLLOWUP_CANCELED

definition FOLLOWUP_RESPONSIBILITIES :: "(string \<times> responsibility) list" where
  "FOLLOWUP_RESPONSIBILITIES = [(''ARTIST_OWES'', ARTIST_OWES), (''WAITING_ON_OTHER'', WAITING_ON_OTHER),
     (''MUTUAL'', MUTUAL)]"

definition FOLLOWUP_STATES :: "(string \<times> followup_state) list" where
  "FOLLOWUP_STATES = [(''OPEN'', FOLLOWUP_OPEN), (''RESOLVED'', FOLLOWUP_RESOLVED),
     (''CANCELED'', FOLLOWUP_CANCELED)]"

fun followup_state_name :: "followup_state \<Rightarrow> string" where
  "followup_state_name FOLLOWUP_OPEN = ''OPEN''"
| "followup_state_name FOLLOWUP_RESOLVED = ''RESOLVED''"
| "followup_state_name FOLLOWUP_CANCELED = ''CANCELED''"

record person =
  pn_seq :: nat
  pn_id :: string
  pn_artist_id :: string
  pn_display_name :: string
  pn_relationship_context :: "string option"

record followup =
  fu_seq :: nat
  fu_id :: string
  fu_artist_id :: string
  fu_person_id :: string
  fu_song_id :: "string option"
  fu_responsibility :: responsibility
  fu_summary :: string
  fu_due_on :: "string option"
  fu_state :: followup_state
  fu_resolution_note :: "string option"

record people_db = evidence_db +
  db_people :: "person list"
  db_followups :: "followup list"

definition normalize_responsibility :: "string \<Rightarrow> responsibility res" where
  "normalize_responsibility value =
     (case map_of FOLLOWUP_RESPONSIBILITIES (enum_word value) of
        None \<Rightarrow> Inl (Raise ValidationError
          (''unsupported follow-up responsibility: '' @ enum_word value))
      | Some r \<Rightarrow> Inr r)"

subsection \<open>People\<close>

definition get_person :: "'a people_db_scheme \<Rightarrow> string \<Rightarrow> person option" where
  "get_person db pid = find (\<lambda>p. pn_id p = strip pid) (db_people db)"

definition insert_person :: "person \<Rightarrow> 'a people_db_scheme \<Rightarrow> 'a people_db_scheme res" where
  "insert_person p db =
     bindE (guardE (pn_id p \<notin> pn_id ` set (db_people db))
       (integrity ''UNIQUE constraint failed: people_people.id'')) (\<lambda>_.
     bindE (guardE (\<not> sql_blank (pn_display_name p)
                    \<and> pred_option (\<lambda>c. \<not> sql_blank c) (pn_relationship_context p))
       (integrity ''CHECK constraint failed: people_people'')) (\<lambda>_.
     bindE (guardE (has_artist db (pn_artist_id p)) (integrity ''FOREIGN KEY constraint failed'')) (\<lambda>_.
     insert_activity ''PERSON_CREATED'' (pn_artist_id p) None None ''PERSON'' (pn_id p)
       (db\<lparr>db_people := db_people db @ [p]\<rparr>))))"

definition create_person ::
  "string \<Rightarrow> string option \<Rightarrow> 'a people_db_scheme \<Rightarrow> (person \<times> 'a people_db_scheme) res" where
  "create_person display_name relationship_context db0 =
     bindE (clean_text display_name ''display_name'' 160) (\<lambda>name.
     bindE (optional_clean_text relationship_context ''relationship_context'' 800) (\<lambda>context.
     let (pid, db) = new_id ''person'' db0 in
     bindE (primary_artist_id db) (\<lambda>artist.
     bindE (on_integrity ''cannot create person''
         (insert_person \<lparr>pn_seq = Suc (length (db_people db)), pn_id = pid, pn_artist_id = artist,
            pn_display_name = name, pn_relationship_context = context\<rparr> db)) (\<lambda>db.
     case get_person db pid of
       None \<Rightarrow> Inl (Raise LineageCorruptionError ''new person disappeared after creation'')
     | Some p \<Rightarrow> Inr (p, db)))))"

definition people :: "'a people_db_scheme \<Rightarrow> person list" where
  "people db = db_people db"

definition require_person :: "'a people_db_scheme \<Rightarrow> string \<Rightarrow> person res" where
  "require_person db pid =
     (case get_person db pid of
        None \<Rightarrow> Inl (Raise NotFoundError
          (''person not found in profile '' @ store_profile_id db @ '': '' @ pid))
      | Some p \<Rightarrow> Inr p)"

subsection \<open>Follow-ups\<close>

definition get_followup :: "'a people_db_scheme \<Rightarrow> string \<Rightarrow> followup option" where
  "get_followup db fid = find (\<lambda>f. fu_id f = strip fid) (db_followups db)"

text \<open>\<open>INSERT INTO people_followups\<close>: the two triggers, the constraints, then the event.\<close>

definition person_of_artist :: "'a people_db_scheme \<Rightarrow> string \<Rightarrow> string \<Rightarrow> bool" where
  "person_of_artist db pid artist \<longleftrightarrow>
     list_ex (\<lambda>p. pn_id p = pid \<and> pn_artist_id p = artist) (db_people db)"

definition song_of_artist :: "'a lineage_db_scheme \<Rightarrow> string \<Rightarrow> string \<Rightarrow> bool" where
  "song_of_artist db sid artist \<longleftrightarrow>
     list_ex (\<lambda>s. so_id s = sid \<and> so_artist_id s = artist) (db_songs db)"

definition insert_followup :: "followup \<Rightarrow> 'a people_db_scheme \<Rightarrow> 'a people_db_scheme res" where
  "insert_followup f db =
     bindE (guardE (person_of_artist db (fu_person_id f) (fu_artist_id f))
       (integrity ''follow-up person belongs to a different Artist'')) (\<lambda>_.
     bindE (guardE (pred_option (\<lambda>s. song_of_artist db s (fu_artist_id f)) (fu_song_id f))
       (integrity ''follow-up Song belongs to a different Artist'')) (\<lambda>_.
     bindE (guardE (fu_id f \<notin> fu_id ` set (db_followups db))
       (integrity ''UNIQUE constraint failed: people_followups.id'')) (\<lambda>_.
     bindE (guardE (\<not> sql_blank (fu_summary f)
                    \<and> pred_option (\<lambda>n. \<not> sql_blank n) (fu_resolution_note f))
       (integrity ''CHECK constraint failed: people_followups'')) (\<lambda>_.
     bindE (guardE (has_artist db (fu_artist_id f)) (integrity ''FOREIGN KEY constraint failed'')) (\<lambda>_.
     insert_activity ''FOLLOWUP_CREATED'' (fu_artist_id f) (fu_song_id f) None ''FOLLOWUP'' (fu_id f)
       (db\<lparr>db_followups := db_followups db @ [f]\<rparr>))))))"

definition followup_song :: "'a people_db_scheme \<Rightarrow> string option \<Rightarrow> string option res" where
  "followup_song db song_id =
     (case song_id of
        None \<Rightarrow> Inr None
      | Some s0 \<Rightarrow>
          (let sid = strip s0 in
           case get_song db sid of
             None \<Rightarrow> Inl (Raise NotFoundError
               (''Song not found in profile '' @ store_profile_id db @ '': '' @ sid))
           | Some song \<Rightarrow>
               bindE (primary_artist_id db) (\<lambda>artist.
               bindE (guardE (so_artist_id song = artist)
                 (Raise ValidationError ''follow-up Song belongs to a different Artist'')) (\<lambda>_.
               Inr (Some sid)))))"

definition create_followup ::
  "string \<Rightarrow> string \<Rightarrow> string \<Rightarrow> string option \<Rightarrow> string option \<Rightarrow> 'a people_db_scheme
     \<Rightarrow> (followup \<times> 'a people_db_scheme) res" where
  "create_followup person_id summary responsibility song_id due_on db0 =
     bindE (require_person db0 person_id) (\<lambda>person.
     bindE (primary_artist_id db0) (\<lambda>artist.
     bindE (guardE (pn_artist_id person = artist)
       (Raise ValidationError ''follow-up person belongs to a different Artist'')) (\<lambda>_.
     bindE (followup_song db0 song_id) (\<lambda>song.
     let (fid, db) = new_id ''followup'' db0 in
     bindE (clean_text summary ''summary'' 600) (\<lambda>summary.
     bindE (normalize_responsibility responsibility) (\<lambda>resp.
     bindE (normalize_due_on due_on) (\<lambda>due.
     bindE (on_integrity ''cannot create follow-up''
         (insert_followup \<lparr>fu_seq = Suc (length (db_followups db)), fu_id = fid, fu_artist_id = artist,
            fu_person_id = pn_id person, fu_song_id = song, fu_responsibility = resp,
            fu_summary = summary, fu_due_on = due, fu_state = FOLLOWUP_OPEN,
            fu_resolution_note = None\<rparr> db)) (\<lambda>db.
     case get_followup db fid of
       None \<Rightarrow> Inl (Raise LineageCorruptionError ''new follow-up disappeared after creation'')
     | Some f \<Rightarrow> Inr (f, db)))))))))"

definition followups ::
  "string option \<Rightarrow> string option \<Rightarrow> 'a people_db_scheme \<Rightarrow> followup list res" where
  "followups state person_id db =
     bindE (case state of
              None \<Rightarrow> Inr (\<lambda>_. True)
            | Some v \<Rightarrow>
                (case parse_enum FOLLOWUP_STATES v of
                   None \<Rightarrow> Inl (Raise ValidationError (''unsupported follow-up state: '' @ norm_enum v))
                 | Some st \<Rightarrow> Inr (\<lambda>f. fu_state f = st))) (\<lambda>in_state.
     bindE (case person_id of
              None \<Rightarrow> Inr (\<lambda>_. True)
            | Some pid \<Rightarrow> bindE (require_person db pid) (\<lambda>p. Inr (\<lambda>f. fu_person_id f = pn_id p)))
       (\<lambda>of_person.
     Inr (filter (\<lambda>f. in_state f \<and> of_person f) (db_followups db))))"

definition open_followups :: "string option \<Rightarrow> 'a people_db_scheme \<Rightarrow> followup list res" where
  "open_followups person_id db = followups (Some ''OPEN'') person_id db"

text \<open>
  \<open>UPDATE people_followups SET state=?, resolution_note=? WHERE id=? AND state='OPEN'\<close>: no row is a
  corruption; the trigger \<open>people_followup_transition_shape\<close>; then the event.
\<close>

definition update_followup ::
  "string \<Rightarrow> followup_state \<Rightarrow> string \<Rightarrow> 'a people_db_scheme \<Rightarrow> 'a people_db_scheme res" where
  "update_followup fid state note db =
     (case find (\<lambda>f. fu_id f = fid \<and> fu_state f = FOLLOWUP_OPEN) (db_followups db) of
        None \<Rightarrow> Inl (Raise LineageCorruptionError ''follow-up changed while its close was being recorded'')
      | Some f \<Rightarrow>
          bindE (guardE (state \<noteq> FOLLOWUP_OPEN \<and> \<not> sql_blank note)
            (integrity ''follow-up may only close once with a resolution note'')) (\<lambda>_.
          insert_activity (''FOLLOWUP_'' @ followup_state_name state) (fu_artist_id f) (fu_song_id f) None
            ''FOLLOWUP'' fid
            (db\<lparr>db_followups := map (\<lambda>g. if fu_id g = fid \<and> fu_state g = FOLLOWUP_OPEN
                then g\<lparr>fu_state := state, fu_resolution_note := Some note\<rparr> else g) (db_followups db)\<rparr>)))"

definition close_followup ::
  "string \<Rightarrow> followup_state \<Rightarrow> string \<Rightarrow> 'a people_db_scheme \<Rightarrow> (followup \<times> 'a people_db_scheme) res" where
  "close_followup followup_id state resolution_note db =
     (case get_followup db followup_id of
        None \<Rightarrow> Inl (Raise NotFoundError
          (''follow-up not found in profile '' @ store_profile_id db @ '': '' @ followup_id))
      | Some current \<Rightarrow>
          bindE (guardE (fu_state current = FOLLOWUP_OPEN)
            (Raise ValidationError ''follow-up is already closed'')) (\<lambda>_.
          bindE (clean_text resolution_note ''resolution_note'' 1000) (\<lambda>note.
          bindE (guardE (state \<noteq> FOLLOWUP_OPEN)
            (Raise ValidationError (''unsupported follow-up close state: '' @ followup_state_name state))) (\<lambda>_.
          bindE (on_integrity ''cannot close follow-up'' (update_followup (fu_id current) state note db)) (\<lambda>db.
          case get_followup db (fu_id current) of
            None \<Rightarrow> Inl (Raise LineageCorruptionError ''closed follow-up could not be read back'')
          | Some result \<Rightarrow>
              bindE (guardE (fu_state result = state)
                (Raise LineageCorruptionError ''closed follow-up could not be read back'')) (\<lambda>_.
              Inr (result, db)))))))"

definition resolve_followup ::
  "string \<Rightarrow> string \<Rightarrow> 'a people_db_scheme \<Rightarrow> (followup \<times> 'a people_db_scheme) res" where
  "resolve_followup followup_id note db = close_followup followup_id FOLLOWUP_RESOLVED note db"

definition cancel_followup ::
  "string \<Rightarrow> string \<Rightarrow> 'a people_db_scheme \<Rightarrow> (followup \<times> 'a people_db_scheme) res" where
  "cancel_followup followup_id reason db = close_followup followup_id FOLLOWUP_CANCELED reason db"

subsection \<open>Opening\<close>

definition install_people :: "evidence_db \<Rightarrow> people_db" where
  "install_people db = evidence_db.extend
     (db\<lparr>db_metadata := (db_metadata db)(''people_schema_version'' \<mapsto> ''1'')\<rparr>)
     (people_db.fields [] [])"

definition validate_person_row :: "'a people_db_scheme \<Rightarrow> person \<Rightarrow> unit res" where
  "validate_person_row db p =
     bindE (primary_artist_id db) (\<lambda>artist.
     guardE (pn_artist_id p = artist)
       (Raise LineageCorruptionError ''person Artist does not match active profile''))"

definition validate_followup_row :: "'a people_db_scheme \<Rightarrow> followup \<Rightarrow> unit res" where
  "validate_followup_row db f =
     bindE (primary_artist_id db) (\<lambda>artist.
     bindE (guardE (fu_artist_id f = artist)
       (Raise LineageCorruptionError ''follow-up Artist does not match active profile'')) (\<lambda>_.
     bindE (guardE (case get_person db (fu_person_id f) of
                      None \<Rightarrow> False | Some p \<Rightarrow> pn_artist_id p = fu_artist_id f)
       (Raise LineageCorruptionError ''follow-up is bound to an invalid person'')) (\<lambda>_.
     bindE (guardE (case fu_song_id f of
                      None \<Rightarrow> True
                    | Some sid \<Rightarrow> (case get_song db sid of
                        None \<Rightarrow> False | Some s \<Rightarrow> so_artist_id s = fu_artist_id f))
       (Raise LineageCorruptionError ''follow-up is bound to an invalid Song'')) (\<lambda>_.
     bindE (case normalize_due_on (fu_due_on f) of
              Inl _ \<Rightarrow> Inl (Raise LineageCorruptionError ''People memory is unreadable or corrupt'')
            | Inr _ \<Rightarrow> Inr ()) (\<lambda>_.
     bindE (guardE (\<not> (fu_state f = FOLLOWUP_OPEN \<and> fu_resolution_note f \<noteq> None))
       (Raise LineageCorruptionError ''open follow-up unexpectedly has a resolution note'')) (\<lambda>_.
     guardE (\<not> (fu_state f \<noteq> FOLLOWUP_OPEN \<and> fu_resolution_note f = None))
       (Raise LineageCorruptionError ''closed follow-up is missing a resolution note'')))))))"

definition validate_people :: "'a people_db_scheme \<Rightarrow> unit res" where
  "validate_people db =
     bindE (guardE (db_metadata db ''people_schema_version'' = Some ''1'')
       (Raise LineageCorruptionError ''unsupported People schema version'')) (\<lambda>_.
     bindE (mapE (validate_person_row db) (db_people db)) (\<lambda>_.
     bindE (mapE (validate_followup_row db) (db_followups db)) (\<lambda>_. Inr ())))"

end
