(* ===== verification/People_Facts.thy ===== *)
theory People_Facts
  imports People
begin

text \<open>
  The invariant of \<open>People\<close>, the memory as a machine, and what follows: a follow-up keeps its binding and
  is closed at most once, and every reachable memory re-opens.
\<close>

subsection \<open>Text and identifiers\<close>

lemma words_acc_words:
  "list_all (\<lambda>c. \<not> is_space c) w \<Longrightarrow> x \<in> set (words_acc w s) \<Longrightarrow> x \<noteq> [] \<and> list_all (\<lambda>c. \<not> is_space c) x"
proof (induction w s rule: words_acc.induct)
  case (1 w)
  then show ?case by (simp split: if_splits)
next
  case (2 w c s)
  show ?case
  proof (cases "is_space c")
    case True
    then have "x = w \<and> w \<noteq> [] \<or> x \<in> set (words_acc [] s)" using 2(5) by (simp split: if_splits)
    then show ?thesis using 2(1,2,4) True by (cases "w = []") auto
  next
    case False
    then show ?thesis using 2(3,4,5) by simp
  qed
qed

lemma join_trimmed: "ws \<noteq> [] \<Longrightarrow> \<forall>w \<in> set ws. trimmed w \<Longrightarrow> trimmed (join '' '' ws)"
proof (induction "'' ''" ws rule: join.induct)
  case (3 x y ys)
  then have "trimmed x" "trimmed (join '' '' (y # ys))" by simp_all
  then show ?case by (auto simp: trimmed_def)
qed simp_all

lemma squeeze_trimmed: "squeeze s \<noteq> [] \<Longrightarrow> trimmed (squeeze s)"
proof -
  assume ne: "squeeze s \<noteq> []"
  have "trimmed w" if "w \<in> set (words_acc [] s)" for w
    using words_acc_words [of "[]" w s] that by (auto simp: trimmed_def list_all_iff)
  moreover have "words_acc [] s \<noteq> []" using ne by (auto simp: squeeze_def)
  ultimately show ?thesis unfolding squeeze_def by (intro join_trimmed) blast+
qed

lemma clean_text_Inr: "clean_text v f m = Inr t \<longleftrightarrow> t = squeeze v \<and> t \<noteq> [] \<and> length t \<le> m"
  by (auto simp: clean_text_def Let_def)

text \<open>\<open>uuid4().hex\<close> has no white space, so no identifier ends in any.\<close>

definition hex_stream :: "(nat \<Rightarrow> string) \<Rightarrow> bool" where
  "hex_stream random \<longleftrightarrow> (\<forall>n. trimmed (random n))"

lemma new_id_trimmed:
  assumes "new_id p db = (i, db')" and "hex_stream (db_random db)" and "trimmed p"
  shows "trimmed i"
  using assms by (auto simp: new_id_def hex_stream_def trimmed_def)

subsection \<open>The invariant\<close>

definition person_ok :: "'a people_db_scheme \<Rightarrow> person \<Rightarrow> bool" where
  "person_ok db p \<longleftrightarrow> trimmed (pn_id p) \<and> primary_artist_id db = Inr (pn_artist_id p)"

definition followup_ok :: "'a people_db_scheme \<Rightarrow> followup \<Rightarrow> bool" where
  "followup_ok db f \<longleftrightarrow> trimmed (fu_id f) \<and> primary_artist_id db = Inr (fu_artist_id f)
     \<and> trimmed (fu_person_id f) \<and> fu_person_id f \<in> pn_id ` set (db_people db)
     \<and> pred_option (\<lambda>s. s \<in> so_id ` set (db_songs db)) (fu_song_id f)
     \<and> pred_option (\<lambda>t. \<exists>d. valid_date d \<and> t = date_isoformat d) (fu_due_on f)
     \<and> (fu_state f = FOLLOWUP_OPEN \<longleftrightarrow> fu_resolution_note f = None)"

definition people_inv :: "'a people_db_scheme \<Rightarrow> bool" where
  "people_inv db \<longleftrightarrow> ev_inv db \<and> one_artist db \<and> hex_stream (db_random db)
     \<and> db_metadata db ''people_schema_version'' = Some ''1''
     \<and> distinct (map pn_id (db_people db)) \<and> list_all (person_ok db) (db_people db)
     \<and> distinct (map fu_id (db_followups db)) \<and> list_all (followup_ok db) (db_followups db)"

text \<open>A follow-up later on: its binding stays, and once closed nothing changes.\<close>

definition followup_kept :: "followup \<Rightarrow> followup \<Rightarrow> bool" where
  "followup_kept f g \<longleftrightarrow>
     g\<lparr>fu_state := fu_state f, fu_resolution_note := fu_resolution_note f\<rparr> = f
     \<and> (fu_state f \<noteq> FOLLOWUP_OPEN \<longrightarrow> g = f)"

definition people_extends :: "'a people_db_scheme \<Rightarrow> 'a people_db_scheme \<Rightarrow> bool" where
  "people_extends db db' \<longleftrightarrow> ev_extends db db' \<and> prefix (db_people db) (db_people db')
     \<and> (\<exists>fs gs. db_followups db' = fs @ gs \<and> list_all2 followup_kept (db_followups db) fs)"

lemma followup_kept_refl [simp]: "followup_kept f f"
  by (simp add: followup_kept_def)

lemma followup_kept_trans: "followup_kept f g \<Longrightarrow> followup_kept g h \<Longrightarrow> followup_kept f h"
  by (cases f; cases g; cases h) (auto simp: followup_kept_def)

lemma followups_kept_refl [simp]: "list_all2 followup_kept fs fs"
  by (simp add: list_all2_same)

lemma people_extendsI:
  "ev_extends db db' \<Longrightarrow> prefix (db_people db) (db_people db') \<Longrightarrow> db_followups db' = fs @ gs
     \<Longrightarrow> list_all2 followup_kept (db_followups db) fs \<Longrightarrow> people_extends db db'"
  unfolding people_extends_def by blast

lemma people_extends_refl [simp]: "people_extends db db"
  by (rule people_extendsI [of _ _ "db_followups db" "[]"]) simp_all

lemma people_extends_trans:
  assumes "people_extends a b" and "people_extends b c"
  shows "people_extends a c"
proof -
  from assms obtain fs gs hs js where f: "db_followups b = fs @ gs" "list_all2 followup_kept (db_followups a) fs"
    "db_followups c = hs @ js" "list_all2 followup_kept (fs @ gs) hs" unfolding people_extends_def by metis
  from f(4) obtain h1 h2 where h: "hs = h1 @ h2" "list_all2 followup_kept fs h1"
    by (auto simp: list_all2_append1)
  have "list_all2 followup_kept (db_followups a) h1"
    by (rule list_all2_trans [OF followup_kept_trans f(2) h(2)])
  then have "\<exists>fs gs. db_followups c = fs @ gs \<and> list_all2 followup_kept (db_followups a) fs"
    using f(3) h(1) by (intro exI [of _ h1] exI [of _ "h2 @ js"]) simp
  then show ?thesis
    using assms ev_extends_trans [of a b c] prefix_order.trans unfolding people_extends_def by blast
qed

lemma person_ok_mono: "ev_extends db db' \<Longrightarrow> person_ok db p \<Longrightarrow> person_ok db' p"
  by (simp add: person_ok_def ev_extends_artist)

lemma followup_ok_mono:
  assumes "ev_extends db db'" and "set (db_people db) \<subseteq> set (db_people db')" and "followup_ok db f"
  shows "followup_ok db' f"
proof -
  have "pred_option (\<lambda>s. s \<in> so_id ` set (db_songs db')) (fu_song_id f)"
    using assms(1,3) by (cases "fu_song_id f") (auto simp: followup_ok_def ev_extends_def)
  moreover have "fu_person_id f \<in> pn_id ` set (db_people db')"
    using assms(2,3) by (auto simp: followup_ok_def)
  ultimately show ?thesis
    using assms(3) ev_extends_artist [OF assms(1)] by (simp add: followup_ok_def)
qed

text \<open>An operation of the memory below keeps what People adds.\<close>

lemma people_inv_ev:
  assumes "people_inv db" and "ev_inv db'" and "ev_extends db db'"
    and "evidence_db.more db' = evidence_db.more db"
  shows "people_inv db' \<and> people_extends db db'"
proof -
  have t: "db_people db' = db_people db" "db_followups db' = db_followups db"
    using assms(4) by (cases db; cases db'; simp)+
  have "list_all (person_ok db') (db_people db')" "list_all (followup_ok db') (db_followups db')"
    using assms(1) person_ok_mono [OF assms(3)] followup_ok_mono [OF assms(3)]
    by (auto simp: people_inv_def t list_all_iff)
  moreover have "db_metadata db' ''people_schema_version'' = Some ''1''" "db_random db' = db_random db"
    using assms(1,3) by (simp_all add: people_inv_def ev_extends_def)
  ultimately have "people_inv db'"
    using assms ev_extends_artist [OF assms(3)] unfolding people_inv_def t by simp
  moreover have "people_extends db db'"
    by (rule people_extendsI [of _ _ "db_followups db" "[]"]) (simp_all add: assms(3) t)
  ultimately show ?thesis by simp
qed

subsection \<open>Each operation\<close>

text \<open>An event of the chronology keeps the memory and whatever extends it.\<close>

lemma insert_activity_ev:
  assumes "insert_activity etype artist song version otype oid db = Inr db'" and "ev_inv db"
  shows "ev_inv db' \<and> ev_extends db db' \<and> evidence_db.more db' = evidence_db.more db"
proof -
  have l: "lineage_inv db' \<and> extends db db'"
    by (rule insert_activity_step [OF assms(1)]) (use assms(2) in \<open>simp_all add: ev_inv_def lineage_inv_def\<close>)
  then have "lineage_db.more db' = lineage_db.more db" by (simp add: extends_def)
  then show ?thesis using l ev_inv_extends [OF assms(2)] extends_ev_extends more_evidence by blast
qed

lemma people_frames [simp]:
  "ev_inv (db\<lparr>db_people := ps\<rparr>) = ev_inv db"
  "ev_inv (db\<lparr>db_followups := fs\<rparr>) = ev_inv db"
  "ev_extends db (db\<lparr>db_people := ps\<rparr>)"
  "ev_extends db (db\<lparr>db_followups := fs\<rparr>)"
  by (simp_all add: ev_inv_def lineage_inv_def core_defs activity_ok_def activity_row_ok_def has_artist_def
      version_in_song_def claim_ok_def check_scope_def primary_artist_id_def store_profile_id_def
      get_song_def get_version_def ev_extends_def list_all_iff Let_def cong: scope_kind.case_cong)

lemma people_inv_draws [simp]: "people_inv (db\<lparr>db_draws := n\<rparr>) = people_inv db"
  by (simp add: people_inv_def one_artist_def list_all_iff person_ok_def followup_ok_def primary_artist_id_def)

lemma people_extends_draws: "people_extends db (db\<lparr>db_draws := n\<rparr>)"
  by (rule people_extendsI [of _ _ "db_followups db" "[]"]) (simp_all add: ev_extends_draws)

lemma insert_person_step:
  assumes "insert_person p db = Inr db'" and "people_inv db" and "person_ok db p"
  shows "people_inv db' \<and> people_extends db db' \<and> db_people db' = db_people db @ [p]
    \<and> db_followups db' = db_followups db"
proof -
  let ?db = "db\<lparr>db_people := db_people db @ [p]\<rparr>"
  from assms(1) have new: "pn_id p \<notin> pn_id ` set (db_people db)"
    and a: "insert_activity ''PERSON_CREATED'' (pn_artist_id p) None None ''PERSON'' (pn_id p) ?db = Inr db'"
    unfolding insert_person_def by (auto simp: guardE_eq_Inr elim!: bindE_InrE)
  have ev: "ev_inv db' \<and> ev_extends ?db db' \<and> evidence_db.more db' = evidence_db.more ?db"
    by (rule insert_activity_ev [OF a]) (use assms(2) in \<open>simp add: people_inv_def\<close>)
  then have x: "ev_extends db db'" using ev_extends_trans people_frames(3) by blast
  have t: "db_people db' = db_people db @ [p]" "db_followups db' = db_followups db"
    using ev by (cases db'; cases db; simp)+
  have "list_all (person_ok db') (db_people db')" "list_all (followup_ok db') (db_followups db')"
    using assms(2,3) person_ok_mono [OF x] followup_ok_mono [OF x]
    by (auto simp: people_inv_def t list_all_iff)
  moreover have "db_metadata db' ''people_schema_version'' = Some ''1''" "db_random db' = db_random db"
    using assms(2) x by (simp_all add: people_inv_def ev_extends_def)
  ultimately have "people_inv db'"
    using assms(2) ev new ev_extends_artist [OF x] unfolding people_inv_def t by simp
  moreover have "people_extends db db'"
    by (rule people_extendsI [of _ _ "db_followups db" "[]"]) (simp_all add: x t)
  ultimately show ?thesis using t by simp
qed

text \<open>Any change of the follow-ups that keeps them, with its event.\<close>

lemma followups_step:
  assumes a: "insert_activity etype artist song version otype oid (db\<lparr>db_followups := fs\<rparr>) = Inr db'"
    and inv: "people_inv db" and "distinct (map fu_id fs)" and "list_all (followup_ok db) fs"
    and kept: "fs = gs @ hs" "list_all2 followup_kept (db_followups db) gs"
  shows "people_inv db' \<and> people_extends db db' \<and> db_followups db' = fs \<and> db_people db' = db_people db"
proof -
  let ?db = "db\<lparr>db_followups := fs\<rparr>"
  have ev: "ev_inv db' \<and> ev_extends ?db db' \<and> evidence_db.more db' = evidence_db.more ?db"
    by (rule insert_activity_ev [OF a]) (use inv in \<open>simp add: people_inv_def\<close>)
  then have x: "ev_extends db db'" using ev_extends_trans people_frames(4) by blast
  have t: "db_people db' = db_people db" "db_followups db' = fs" using ev by (cases db'; cases db; simp)+
  have "list_all (person_ok db') (db_people db')" "list_all (followup_ok db') fs"
    using inv assms(4) person_ok_mono [OF x] followup_ok_mono [OF x]
    by (auto simp: people_inv_def t list_all_iff)
  moreover have "db_metadata db' ''people_schema_version'' = Some ''1''" "db_random db' = db_random db"
    using inv x by (simp_all add: people_inv_def ev_extends_def)
  ultimately have "people_inv db'"
    using inv ev assms(3) ev_extends_artist [OF x] unfolding people_inv_def t by simp
  moreover have "people_extends db db'"
    by (rule people_extendsI [of _ _ gs hs]) (simp_all add: x t kept)
  ultimately show ?thesis using t by simp
qed

lemma trimmed_lits: "trimmed ''person''" "trimmed ''followup''"
  by (simp_all add: trimmed_def is_space_def code_def)

lemma create_person_inv:
  assumes "create_person name context db = Inr (p, db')" and "people_inv db"
  shows "people_inv db' \<and> people_extends db db'"
proof -
  obtain pid db1 where id: "new_id ''person'' db = (pid, db1)" by (cases "new_id ''person'' db") auto
  from assms(1) obtain n c artist where art: "primary_artist_id db1 = Inr artist"
    and ins: "insert_person \<lparr>pn_seq = Suc (length (db_people db1)), pn_id = pid, pn_artist_id = artist,
            pn_display_name = n, pn_relationship_context = c\<rparr> db1 = Inr db'"
    unfolding create_person_def id Let_def prod.case by (auto elim!: bindE_InrE split: option.splits)
  have "trimmed pid"
    using new_id_trimmed [OF id] assms(2) trimmed_lits by (simp add: people_inv_def)
  then have "people_inv db' \<and> people_extends db1 db'"
    using insert_person_step [OF ins] assms(2) art new_id_draws [OF id] by (simp add: person_ok_def)
  then show ?thesis
    using new_id_draws [OF id] people_extends_draws people_extends_trans by metis
qed

lemma get_person_Some: "get_person db pid = Some p \<Longrightarrow> p \<in> set (db_people db) \<and> pn_id p = strip pid"
  by (auto simp: get_person_def find_Some_iff in_set_conv_nth)

lemma get_followup_Some: "get_followup db fid = Some f \<Longrightarrow> f \<in> set (db_followups db) \<and> fu_id f = strip fid"
  by (auto simp: get_followup_def find_Some_iff in_set_conv_nth)

lemma due_on_ok:
  assumes "normalize_due_on v = Inr d"
  shows "pred_option (\<lambda>t. \<exists>x. valid_date x \<and> t = date_isoformat x) d"
proof (cases d)
  case (Some t)
  with assms obtain w x where "date_fromisoformat w = Some x" "t = date_isoformat x"
    by (auto simp: normalize_due_on_def Let_def split: option.splits if_splits)
  with date_fromisoformat_valid Some show ?thesis by (simp only: option.pred_inject) blast
qed simp

lemma create_followup_Inr:
  assumes "create_followup person_id summary resp song_id due_on db = Inr (f, db')" and "people_inv db"
  obtains fid g where "people_inv db'" "people_extends db db'" "db_followups db' = db_followups db @ [g]"
    "fu_state g = FOLLOWUP_OPEN" "fu_person_id g = strip person_id" "db_people db' = db_people db"
proof -
  obtain fid db1 where id: "new_id ''followup'' db = (fid, db1)" by (cases "new_id ''followup'' db") auto
  note db1 = new_id_draws [OF id]
  from assms(1) obtain p artist song s r due where p: "get_person db person_id = Some p"
    and art: "primary_artist_id db = Inr artist" "pn_artist_id p = artist"
    and song: "followup_song db song_id = Inr song" and due: "normalize_due_on due_on = Inr due"
    and ins: "insert_followup \<lparr>fu_seq = Suc (length (db_followups db1)), fu_id = fid, fu_artist_id = artist,
            fu_person_id = pn_id p, fu_song_id = song, fu_responsibility = r, fu_summary = s,
            fu_due_on = due, fu_state = FOLLOWUP_OPEN, fu_resolution_note = None\<rparr> db1 = Inr db'"
    unfolding create_followup_def id Let_def prod.case require_person_def
    by (auto simp: guardE_eq_Inr elim!: bindE_InrE split: option.splits)
  let ?f = "\<lparr>fu_seq = Suc (length (db_followups db1)), fu_id = fid, fu_artist_id = artist,
            fu_person_id = pn_id p, fu_song_id = song, fu_responsibility = r, fu_summary = s,
            fu_due_on = due, fu_state = FOLLOWUP_OPEN, fu_resolution_note = None\<rparr>"
  from ins have new: "fid \<notin> fu_id ` set (db_followups db1)"
    and a: "insert_activity ''FOLLOWUP_CREATED'' artist song None ''FOLLOWUP'' fid
       (db1\<lparr>db_followups := db_followups db1 @ [?f]\<rparr>) = Inr db'"
    unfolding insert_followup_def by (auto simp: guardE_eq_Inr elim!: bindE_InrE)
  have pin: "p \<in> set (db_people db)" "pn_id p = strip person_id" using get_person_Some [OF p] by simp_all
  then have "trimmed (pn_id p)" using assms(2) unfolding people_inv_def list_all_iff person_ok_def by blast
  moreover have "trimmed fid"
    using new_id_trimmed [OF id] assms(2) trimmed_lits by (simp add: people_inv_def)
  moreover have "pred_option (\<lambda>s. s \<in> so_id ` set (db_songs db)) song"
    using song by (auto simp: followup_song_def Let_def dest!: get_song_Some elim!: bindE_InrE
        split: option.splits) (metis image_eqI)
  ultimately have "followup_ok db1 ?f"
    using pin(1) art due_on_ok [OF due] by (simp add: followup_ok_def db1 primary_artist_id_def)
  moreover have "list_all (followup_ok db1) (db_followups db1)" "distinct (map fu_id (db_followups db1))"
    "people_inv db1"
    using assms(2) by (simp_all add: db1) (simp_all add: people_inv_def followup_ok_def primary_artist_id_def list_all_iff)
  ultimately have "people_inv db' \<and> people_extends db1 db' \<and> db_followups db' = db_followups db1 @ [?f]
      \<and> db_people db' = db_people db1"
    using new by (intro followups_step [OF a, of "db_followups db1" "[?f]"]) simp_all
  moreover from this have "people_extends db db'"
    using people_extends_trans [OF people_extends_draws] unfolding db1 by blast
  ultimately show ?thesis using that [of ?f] pin(2) by (simp add: db1)
qed

lemma update_followup_step:
  assumes "update_followup fid st note db = Inr db'" and "people_inv db"
  shows "people_inv db' \<and> people_extends db db' \<and> db_people db' = db_people db \<and> st \<noteq> FOLLOWUP_OPEN
    \<and> db_followups db' = map (\<lambda>g. if fu_id g = fid \<and> fu_state g = FOLLOWUP_OPEN
        then g\<lparr>fu_state := st, fu_resolution_note := Some note\<rparr> else g) (db_followups db)"
proof -
  let ?up = "\<lambda>g. if fu_id g = fid \<and> fu_state g = FOLLOWUP_OPEN
      then g\<lparr>fu_state := st, fu_resolution_note := Some note\<rparr> else g"
  obtain f where f: "find (\<lambda>f. fu_id f = fid \<and> fu_state f = FOLLOWUP_OPEN) (db_followups db) = Some f"
    using assms(1) by (auto simp: update_followup_def split: option.splits)
  from assms(1) have st: "st \<noteq> FOLLOWUP_OPEN"
    and a: "insert_activity (''FOLLOWUP_'' @ followup_state_name st) (fu_artist_id f) (fu_song_id f) None
      ''FOLLOWUP'' fid (db\<lparr>db_followups := map ?up (db_followups db)\<rparr>) = Inr db'"
    by (auto simp: update_followup_def f guardE_eq_Inr elim!: bindE_InrE)
  have ids: "map fu_id (map ?up (db_followups db)) = map fu_id (db_followups db)" by simp
  have "distinct (map fu_id (map ?up (db_followups db)))" unfolding ids using assms(2) by (simp add: people_inv_def)
  moreover have "list_all (followup_ok db) (map ?up (db_followups db))"
    using assms(2) st by (auto simp: people_inv_def list_all_iff followup_ok_def)
  moreover have "list_all2 followup_kept (db_followups db) (map ?up (db_followups db))"
    using assms(2) by (auto simp: list_all2_conv_all_nth followup_kept_def people_inv_def list_all_length followup_ok_def)
  ultimately show ?thesis
    using followups_step [OF a assms(2), of "map ?up (db_followups db)" "[]"] st by simp
qed

lemma close_followup_Inr:
  assumes "close_followup fid st note db = Inr (f, db')"
  obtains g n where "get_followup db fid = Some g" "fu_state g = FOLLOWUP_OPEN"
    "update_followup (fu_id g) st n db = Inr db'" "get_followup db' (fu_id g) = Some f" "fu_state f = st"
  using assms unfolding close_followup_def
  by (auto simp: guardE_eq_Inr split: option.splits elim!: bindE_InrE)

lemma close_followup_inv:
  "close_followup fid st note db = Inr (f, db') \<Longrightarrow> people_inv db \<Longrightarrow> people_inv db' \<and> people_extends db db'"
  by (elim close_followup_Inr) (use update_followup_step in blast)

subsection \<open>The memory of people as a machine\<close>

datatype people_cmd =
    People_Evidence evidence_cmd
  | Create_Person string "string option"
  | Create_Followup string string string "string option" "string option"
  | Resolve_Followup string string
  | Cancel_Followup string string

fun exec_people :: "people_cmd \<Rightarrow> 'a people_db_scheme \<Rightarrow> 'a people_db_scheme res" where
  "exec_people (People_Evidence c) db = exec_evidence c db"
| "exec_people (Create_Person name ctx) db = map_sum id snd (create_person name ctx db)"
| "exec_people (Create_Followup person summary resp song due) db =
     map_sum id snd (create_followup person summary resp song due db)"
| "exec_people (Resolve_Followup fid note) db = map_sum id snd (resolve_followup fid note db)"
| "exec_people (Cancel_Followup fid reason) db = map_sum id snd (cancel_followup fid reason db)"

lemma exec_people_inv:
  assumes "exec_people c db = Inr db'" and "people_inv db"
  shows "people_inv db' \<and> people_extends db db'"
proof (cases c)
  case (People_Evidence e)
  with assms(1) have x: "exec_evidence e db = Inr db'" by simp
  have ev: "ev_inv db" using assms(2) by (simp add: people_inv_def)
  show ?thesis
    using people_inv_ev [OF assms(2)] exec_evidence_inv [OF x ev] exec_evidence_more [OF x ev] by blast
next
  case (Create_Person name ctx)
  with assms show ?thesis by (auto simp: map_sum_snd_Inr dest: create_person_inv)
next
  case (Create_Followup person summary resp song due)
  with assms show ?thesis by (auto simp: map_sum_snd_Inr elim: create_followup_Inr)
next
  case (Resolve_Followup fid msg)
  with assms show ?thesis by (auto simp: map_sum_snd_Inr resolve_followup_def dest: close_followup_inv)
next
  case (Cancel_Followup fid reason)
  with assms show ?thesis by (auto simp: map_sum_snd_Inr cancel_followup_def dest: close_followup_inv)
qed

interpretation people_machine: logged_machine exec_people people_inv db_people
  by unfold_locales (auto simp: people_extends_def dest: exec_people_inv)

interpretation people_activity: logged_machine exec_people people_inv db_activity
  by unfold_locales (auto simp: people_extends_def ev_extends_def dest: exec_people_inv)

lemma people_run_extends: "people_inv db \<Longrightarrow> people_extends db (run_cmds exec_people cs db)"
proof (induction cs arbitrary: db)
  case (Cons c cs)
  then show ?case
    using exec_people_inv people_extends_trans by (cases "exec_people c db") fastforce+
qed simp

lemma install_people_inv:
  assumes "ev_inv db" and "one_artist db" and "hex_stream (db_random db)"
  shows "people_inv (install_people db)"
proof -
  have "ev_inv (install_people db)"
    unfolding install_people_def extend_ev_inv by (rule schema_version_ev_inv) (use assms in simp_all)
  then show ?thesis
    using assms(2,3) by (simp add: people_inv_def install_people_def evidence_db.defs people_db.defs one_artist_def)
qed

definition people_reachable :: "people_db \<Rightarrow> bool" where
  "people_reachable db \<longleftrightarrow> (\<exists>random name db0 cs. hex_stream random \<and> create_profile random name = Inr db0
     \<and> db = run_cmds exec_people cs (install_people (install_evidence db0)))"

lemma created_people_inv:
  assumes "create_profile random name = Inr db0" and "hex_stream random"
  shows "people_inv (install_people (install_evidence db0))"
proof -
  have "one_artist (install_evidence db0) \<and> hex_stream (db_random (install_evidence db0))"
    using create_profile_artist [OF assms(1)] assms(2)
    by (simp add: one_artist_def install_evidence_def lineage_db.defs)
  then show ?thesis
    using install_people_inv install_evidence_inv create_profile_inv [OF assms(1)] by blast
qed

lemma people_reachable_inv: "people_reachable db \<Longrightarrow> people_inv db"
  unfolding people_reachable_def using people_machine.run_inv created_people_inv by blast

subsection \<open>Properties\<close>

lemma get_followup_row:
  assumes "people_inv db" and "f \<in> set (db_followups db)" and "strip fid = fu_id f"
  shows "get_followup db fid = Some f"
proof -
  have "get_followup db fid \<noteq> None" using assms(2,3) by (auto simp: get_followup_def find_None_iff)
  then obtain g where g: "get_followup db fid = Some g" by blast
  have "inj_on fu_id (set (db_followups db))" using assms(1) by (simp add: people_inv_def distinct_map)
  then have "g = f" using get_followup_Some [OF g] assms(2,3) by (auto dest: inj_onD)
  with g show ?thesis by simp
qed

lemma get_person_row:
  assumes "people_inv db" and "p \<in> set (db_people db)" and "strip pid = pn_id p"
  shows "get_person db pid = Some p"
proof -
  have "get_person db pid \<noteq> None" using assms(2,3) by (auto simp: get_person_def find_None_iff)
  then obtain q where q: "get_person db pid = Some q" by blast
  have "inj_on pn_id (set (db_people db))" using assms(1) by (simp add: people_inv_def distinct_map)
  then have "q = p" using get_person_Some [OF q] assms(2,3) by (auto dest: inj_onD)
  with q show ?thesis by simp
qed

lemma followup_later:
  assumes "people_inv db" and "f \<in> set (db_followups db)"
  obtains g where "g \<in> set (db_followups (run_cmds exec_people cs db))" "followup_kept f g"
proof -
  obtain fs gs where f: "db_followups (run_cmds exec_people cs db) = fs @ gs"
    "list_all2 followup_kept (db_followups db) fs"
    using people_run_extends [OF assms(1), of cs] unfolding people_extends_def by blast
  from assms(2) obtain i where i: "i < length (db_followups db)" "db_followups db ! i = f"
    by (auto simp: in_set_conv_nth)
  have "followup_kept f (fs ! i)" using list_all2_nthD [OF f(2) i(1)] i(2) by simp
  moreover have "i < length fs" using i(1) list_all2_lengthD [OF f(2)] by simp
  ultimately show ?thesis using that [of "fs ! i"] f(1) by simp
qed

lemma song_artist:
  assumes "people_inv db" and "sid \<in> so_id ` set (db_songs db)"
  obtains s where "get_song db sid = Some s" "primary_artist_id db = Inr (so_artist_id s)"
proof -
  obtain s where s: "get_song db sid = Some s" using assms(2) by (cases "get_song db sid") auto
  then have "has_artist db (so_artist_id s)"
    using assms(1) get_song_Some [OF s] by (simp add: people_inv_def ev_inv_def lineage_inv_def core_ok_def songs_ok_def)
  moreover have "one_artist db" using assms(1) by (simp add: people_inv_def)
  ultimately show ?thesis using that s one_artist_primary by blast
qed

lemma date_iso_trimmed: "trimmed (date_isoformat d)"
proof -
  have "\<not> is_space (digit n)" for n using digit_facts [of n] by (auto simp: is_space_def is_digit_def Let_def)
  then show ?thesis by (cases d) (simp add: trimmed_def date_isoformat_def show4_def show2_def)
qed

lemma due_reads_back:
  "valid_date d \<Longrightarrow> normalize_due_on (Some (date_isoformat d)) = Inr (Some (date_isoformat d))"
  using date_iso_trimmed [of d]
  by (simp add: normalize_due_on_def strip_trimmed trimmed_nonempty date_round_trip Let_def)

text \<open>
  A follow-up is closed at most once: after it was resolved or canceled, whatever happens next, an
  attempt to close it again fails, and the follow-up still has the state and the note it got.
\<close>

theorem followup_closes_once:
  assumes "people_reachable db" and "close_followup fid st note db = Inr (f, db')"
    and "db2 = run_cmds exec_people cs db'"
  shows "fu_state f = st \<and> st \<noteq> FOLLOWUP_OPEN \<and> get_followup db2 fid = Some f
    \<and> close_followup fid st' note' db2
        = Inl (Raise ValidationError ''follow-up is already closed'')"
proof -
  have inv: "people_inv db" by (rule people_reachable_inv [OF assms(1)])
  from assms(2) obtain g n where g: "get_followup db fid = Some g" "fu_state g = FOLLOWUP_OPEN"
    and up: "update_followup (fu_id g) st n db = Inr db'" "get_followup db' (fu_id g) = Some f" "fu_state f = st"
    by (rule close_followup_Inr)
  note s = update_followup_step [OF up(1) inv]
  have id: "fu_id f = strip fid" using get_followup_Some [OF g(1)] get_followup_Some [OF up(2)] by simp
  obtain h where h: "h \<in> set (db_followups db2)" "followup_kept f h"
    using followup_later [of db' f cs] s get_followup_Some [OF up(2)] assms(3) by blast
  then have "h = f" using s up(3) by (simp add: followup_kept_def)
  moreover have "people_inv db2" unfolding assms(3) by (rule people_machine.run_inv) (use s in simp)
  ultimately have "get_followup db2 fid = Some f" using get_followup_row [of db2 f fid] h(1) id by simp
  then show ?thesis using s up(3) by (simp add: close_followup_def guardE_def)
qed

text \<open>
  Every memory of people the code can reach re-opens: the validation on opening accepts its people
  and follow-ups, provided identifiers have no outer white space (as \<open>uuid4().hex\<close> has none).
\<close>

theorem reachable_people_validate:
  assumes "people_reachable db"
  shows "validate_people db = Inr ()"
proof -
  have inv: "people_inv db" by (rule people_reachable_inv [OF assms])
  have "validate_person_row db p = Inr ()" if "p \<in> set (db_people db)" for p
    using inv that by (simp add: people_inv_def list_all_iff person_ok_def validate_person_row_def guardE_def)
  then have p: "mapE (validate_person_row db) (db_people db) = Inr (map (\<lambda>_. ()) (db_people db))"
    by (rule mapE_total)
  have "validate_followup_row db f = Inr ()" if f: "f \<in> set (db_followups db)" for f
  proof -
    have ok: "followup_ok db f" using inv f by (simp add: people_inv_def list_all_iff)
    then obtain q where q: "q \<in> set (db_people db)" "pn_id q = fu_person_id f" by (auto simp: followup_ok_def)
    have gp: "get_person db (fu_person_id f) = Some q"
      by (rule get_person_row [OF inv q(1)]) (use ok q(2) in \<open>simp add: followup_ok_def strip_trimmed\<close>)
    have qa: "pn_artist_id q = fu_artist_id f"
      using inv q(1) ok by (simp add: people_inv_def list_all_iff person_ok_def followup_ok_def)
    have song: "\<exists>s. get_song db sid = Some s \<and> so_artist_id s = fu_artist_id f" if "fu_song_id f = Some sid" for sid
    proof -
      have "sid \<in> so_id ` set (db_songs db)" using ok that by (simp add: followup_ok_def)
      then show ?thesis using song_artist [OF inv] ok by (metis followup_ok_def sum.inject(2))
    qed
    have due: "\<not> isl (normalize_due_on (fu_due_on f))"
    proof (cases "fu_due_on f")
      case (Some t)
      then obtain d where "valid_date d" "t = date_isoformat d" using ok by (auto simp: followup_ok_def)
      then show ?thesis using Some due_reads_back by simp
    qed (simp add: normalize_due_on_def)
    show ?thesis
      using ok gp qa song due
      by (auto simp: validate_followup_row_def followup_ok_def guardE_def split: option.splits sum.splits)
  qed
  then have "mapE (validate_followup_row db) (db_followups db) = Inr (map (\<lambda>_. ()) (db_followups db))"
    by (rule mapE_total)
  with p show ?thesis using inv by (simp add: validate_people_def people_inv_def guardE_def)
qed

text \<open>A person and a promise, which is then kept.\<close>

lemma demo_hex: "hex_stream demo_random"
  by (simp add: hex_stream_def demo_random_def trimmed_def is_space_def code_def del: replicate_Suc)

definition demo_people :: people_db where
  "demo_people = run_cmds exec_people
     [Create_Person ''Bo  Lee'' (Some ''mixer''),
      Create_Followup ''person_aaaa'' ''send the mix'' ''waiting on-other'' None None]
     (install_people (install_evidence demo_profile))"

lemma demo_people_reachable: "people_reachable demo_people"
  unfolding people_reachable_def demo_people_def using demo_profile_created demo_hex by blast

definition demo_closed :: "followup \<times> people_db" where
  "demo_closed = (case close_followup ''followup_aaaaaa'' FOLLOWUP_RESOLVED ''got it'' demo_people of
     Inr x \<Rightarrow> x | Inl _ \<Rightarrow> undefined)"

lemma demo_closes:
  "close_followup ''followup_aaaaaa'' FOLLOWUP_RESOLVED ''got it'' demo_people = Inr (fst demo_closed, snd demo_closed)"
proof -
  have "\<not> isl (close_followup ''followup_aaaaaa'' FOLLOWUP_RESOLVED ''got it'' demo_people)" by code_simp
  then show ?thesis by (auto simp: demo_closed_def split: sum.splits)
qed

theorem followup_closes_once_witness:
  "fu_state (fst demo_closed) = FOLLOWUP_RESOLVED
   \<and> close_followup ''followup_aaaaaa'' FOLLOWUP_CANCELED ''never mind'' (snd demo_closed)
       = Inl (Raise ValidationError ''follow-up is already closed'')"
  using followup_closes_once [OF demo_people_reachable demo_closes, of _ "[]"] by simp

theorem reachable_people_validate_witness:
  "length (db_followups demo_people) = 1 \<and> validate_people demo_people = Inr ()"
proof
  show "length (db_followups demo_people) = 1" by code_simp
qed (rule reachable_people_validate [OF demo_people_reachable])

end
