(* ===== verification/Obligations.thy ===== *)
theory Obligations
  imports People_Facts
begin

text \<open>
  Obligations (\<open>obligations.py\<close>): what is owed, to whom, on which evidence. Rows and snapshots, the
  states derived from a snapshot, the statements with their triggers, the operations, the queries and the
  validation on opening.
\<close>

subsection \<open>Rows\<close>

datatype obligation_kind = DELIVERABLE | DEADLINE | LICENSE | PAYMENT | OTHER
datatype obligation_status =
  OBL_OPEN | OBL_BLOCKED | OBL_DISPUTED | OBL_SATISFIED | OBL_WAIVED | OBL_CANCELED

definition OBLIGATION_KINDS :: "(string \<times> obligation_kind) list" where
  "OBLIGATION_KINDS = [(''DELIVERABLE'', DELIVERABLE), (''DEADLINE'', DEADLINE), (''LICENSE'', LICENSE),
     (''PAYMENT'', PAYMENT), (''OTHER'', OTHER)]"

definition OBLIGATION_STATUSES :: "(string \<times> obligation_status) list" where
  "OBLIGATION_STATUSES = [(''OPEN'', OBL_OPEN), (''BLOCKED'', OBL_BLOCKED), (''DISPUTED'', OBL_DISPUTED),
     (''SATISFIED'', OBL_SATISFIED), (''WAIVED'', OBL_WAIVED), (''CANCELED'', OBL_CANCELED)]"

definition TERMINAL_OBLIGATION_STATUSES :: "obligation_status list" where
  "TERMINAL_OBLIGATION_STATUSES = [OBL_SATISFIED, OBL_WAIVED, OBL_CANCELED]"

definition PROVENANCE_REQUIRED :: "source_kind list" where
  "PROVENANCE_REQUIRED = [OBSERVED, MEASURED, PROVIDER_VERIFIED, INFERRED]"

fun obligation_status_name :: "obligation_status \<Rightarrow> string" where
  "obligation_status_name OBL_OPEN = ''OPEN''"
| "obligation_status_name OBL_BLOCKED = ''BLOCKED''"
| "obligation_status_name OBL_DISPUTED = ''DISPUTED''"
| "obligation_status_name OBL_SATISFIED = ''SATISFIED''"
| "obligation_status_name OBL_WAIVED = ''WAIVED''"
| "obligation_status_name OBL_CANCELED = ''CANCELED''"

record obligation_row =
  ob_seq :: nat
  ob_id :: string
  ob_artist_id :: string
  ob_person_id :: string
  ob_song_id :: "string option"
  ob_followup_id :: "string option"
  ob_kind :: obligation_kind
  ob_responsibility :: responsibility
  ob_summary :: string
  ob_due_on :: "string option"
  ob_trigger_ref :: "string option"
  ob_source_claim_id :: string
  ob_consequence_note :: "string option"

record obligation_event_row =
  obe_seq :: nat
  obe_id :: string
  obe_obligation_id :: string
  obe_status :: obligation_status
  obe_evidence_claim_id :: string
  obe_note :: "string option"

record obligation_trigger_row =
  obt_seq :: nat
  obt_id :: string
  obt_obligation_id :: string
  obt_evidence_claim_id :: string
  obt_note :: string

record obligation_db = people_db +
  db_obligations :: "obligation_row list"
  db_obligation_events :: "obligation_event_row list"
  db_obligation_triggers :: "obligation_trigger_row list"

text \<open>\<open>ObligationEvent\<close>, \<open>ObligationTriggerEvent\<close> and \<open>ObligationSnapshot\<close>: rows with what they cite.\<close>

record obligation_event = obligation_event_row +
  obe_source_kind :: source_kind
  obe_source_ref :: "string option"

record obligation_trigger_event = obligation_trigger_row +
  obt_source_kind :: source_kind
  obt_source_ref :: "string option"

record obligation_snapshot = obligation_row +
  os_profile_id :: string
  os_person_display_name :: string
  os_followup_state :: "followup_state option"
  os_source_kind :: source_kind
  os_source_ref :: "string option"
  os_source_current :: bool
  os_events :: "obligation_event list"
  os_trigger_events :: "obligation_trigger_event list"

subsection \<open>Reading a snapshot\<close>

definition obligation_status_of :: "obligation_snapshot \<Rightarrow> obligation_status res" where
  "obligation_status_of s =
     (if os_events s = [] then Inl (Raise ObligationError ''obligation has no lifecycle evidence'')
      else Inr (obe_status (last (os_events s))))"

definition obligation_terminal :: "obligation_snapshot \<Rightarrow> bool res" where
  "obligation_terminal s = bindE (obligation_status_of s) (\<lambda>st. Inr (st \<in> set TERMINAL_OBLIGATION_STATUSES))"

datatype trigger_state = TRIGGER_NONE | TRIGGER_OBSERVED | TRIGGER_PENDING

definition trigger_state_of :: "obligation_snapshot \<Rightarrow> trigger_state" where
  "trigger_state_of s =
     (if ob_trigger_ref s = None then TRIGGER_NONE
      else if os_trigger_events s \<noteq> [] then TRIGGER_OBSERVED else TRIGGER_PENDING)"

datatype source_truth = TRUTH_PROVIDER_VERIFIED | TRUTH_OBSERVED | TRUTH_DECLARED | TRUTH_INFERRED

definition source_truth_class :: "obligation_snapshot \<Rightarrow> source_truth" where
  "source_truth_class s =
     (case os_source_kind s of
        PROVIDER_VERIFIED \<Rightarrow> TRUTH_PROVIDER_VERIFIED
      | OBSERVED \<Rightarrow> TRUTH_OBSERVED | MEASURED \<Rightarrow> TRUTH_OBSERVED
      | USER_DECLARED \<Rightarrow> TRUTH_DECLARED | REMEMBERED \<Rightarrow> TRUTH_DECLARED
      | INFERRED \<Rightarrow> TRUTH_INFERRED)"

text \<open>\<open>as_of\<close> is a date or its text.\<close>

definition as_of_date :: "date + string \<Rightarrow> date res" where
  "as_of_date v =
     (case v of
        Inl d \<Rightarrow> Inr d
      | Inr t \<Rightarrow> (case date_fromisoformat (strip t) of
                   None \<Rightarrow> Inl (Raise ValidationError ''as_of must be an ISO calendar date (YYYY-MM-DD)'')
                 | Some d \<Rightarrow> Inr d))"

datatype due_state = DUE_CLOSED | WAITING_FOR_TRIGGER | UNSCHEDULED | UPCOMING | DUE | OVERDUE

definition due_state_of :: "obligation_snapshot \<Rightarrow> date + string \<Rightarrow> due_state res" where
  "due_state_of s as_of =
     bindE (obligation_terminal s) (\<lambda>terminal.
     if terminal then Inr DUE_CLOSED
     else if ob_trigger_ref s \<noteq> None \<and> os_trigger_events s = [] then Inr WAITING_FOR_TRIGGER
     else (case ob_due_on s of
             None \<Rightarrow> Inr UNSCHEDULED
           | Some text \<Rightarrow>
               bindE (as_of_date as_of) (\<lambda>current.
               case date_fromisoformat text of
                 None \<Rightarrow> Inl (Raise PyValueError (''Invalid isoformat string: '' @ text))
               | Some due \<Rightarrow>
                   Inr (if date_before current due then UPCOMING
                        else if current = due then DUE else OVERDUE))))"

datatype attention_state =
    ATTENTION_CLOSED | NEEDS_REVALIDATION | NEEDS_RECONCILIATION | ATTENTION_BLOCKED
  | ATTENTION_DISPUTED | ATTENTION_WAITING | ATTENTION_OVERDUE | ACTIONABLE

definition attention_state_of :: "obligation_snapshot \<Rightarrow> date + string \<Rightarrow> attention_state res" where
  "attention_state_of s as_of =
     bindE (obligation_terminal s) (\<lambda>terminal.
     if terminal then Inr ATTENTION_CLOSED
     else if \<not> os_source_current s then Inr NEEDS_REVALIDATION
     else if os_followup_state s \<in> {Some FOLLOWUP_RESOLVED, Some FOLLOWUP_CANCELED}
     then Inr NEEDS_RECONCILIATION
     else bindE (obligation_status_of s) (\<lambda>st.
       if st = OBL_BLOCKED then Inr ATTENTION_BLOCKED
       else if st = OBL_DISPUTED then Inr ATTENTION_DISPUTED
       else bindE (due_state_of s as_of) (\<lambda>timing.
         Inr (if timing = WAITING_FOR_TRIGGER then ATTENTION_WAITING
              else if timing = OVERDUE then ATTENTION_OVERDUE else ACTIONABLE))))"

subsection \<open>Checks\<close>

definition obligation_enum :: "string \<Rightarrow> string \<Rightarrow> (string \<times> 'b) list \<Rightarrow> 'b res" where
  "obligation_enum value field allowed =
     (case map_of allowed (enum_word value) of
        None \<Rightarrow> Inl (Raise ValidationError (''unsupported '' @ field @ '': '' @ enum_word value))
      | Some x \<Rightarrow> Inr x)"

definition obligation_person :: "'a people_db_scheme \<Rightarrow> string \<Rightarrow> person res" where
  "obligation_person db person_id =
     (case get_person db (strip person_id) of
        None \<Rightarrow> Inl (Raise NotFoundError (''person not found: '' @ person_id))
      | Some p \<Rightarrow>
          bindE (primary_artist_id db) (\<lambda>artist.
          bindE (guardE (pn_artist_id p = artist)
            (Raise ValidationError ''obligation person belongs to a different Artist'')) (\<lambda>_. Inr p)))"

definition obligation_song :: "'a people_db_scheme \<Rightarrow> string option \<Rightarrow> string option res" where
  "obligation_song db song_id =
     (case song_id of
        None \<Rightarrow> Inr None
      | Some s0 \<Rightarrow>
          (let sid = strip s0 in
           if sid = [] then Inr None
           else (case get_song db sid of
                   None \<Rightarrow> Inl (Raise NotFoundError (''Song not found: '' @ sid))
                 | Some song \<Rightarrow>
                     bindE (primary_artist_id db) (\<lambda>artist.
                     bindE (guardE (so_artist_id song = artist)
                       (Raise ValidationError ''obligation Song belongs to a different Artist'')) (\<lambda>_.
                     Inr (Some sid))))))"

definition claim_compatible :: "'a people_db_scheme \<Rightarrow> evidence_claim \<Rightarrow> string option \<Rightarrow> bool res" where
  "claim_compatible db claim song_id =
     (if ec_scope_kind claim = SCOPE_ARTIST
      then bindE (primary_artist_id db) (\<lambda>artist. Inr (ec_scope_id claim = artist))
      else Inr (case song_id of
          None \<Rightarrow> False
        | Some sid \<Rightarrow>
            (case ec_scope_kind claim of
               SCOPE_SONG \<Rightarrow> ec_scope_id claim = sid
             | SCOPE_VERSION \<Rightarrow> (case get_version db (ec_scope_id claim) of
                                   None \<Rightarrow> False | Some v \<Rightarrow> ve_song_id v = sid)
             | _ \<Rightarrow> False)))"

definition claim_current :: "'a people_db_scheme \<Rightarrow> evidence_claim \<Rightarrow> bool res" where
  "claim_current db claim =
     bindE (active_claims (scope_kind_name (ec_scope_kind claim)) (ec_scope_id claim) (ec_key claim) db)
       (\<lambda>items. Inr (ec_id claim \<in> set (map ec_id items)))"

definition has_provenance :: "evidence_claim \<Rightarrow> bool" where
  "has_provenance claim \<longleftrightarrow>
     \<not> (ec_source_kind claim \<in> set PROVENANCE_REQUIRED
        \<and> \<not> (case ec_source_ref claim of None \<Rightarrow> False | Some r \<Rightarrow> strip r \<noteq> []))"

definition obligation_claim :: "'a people_db_scheme \<Rightarrow> string \<Rightarrow> string option \<Rightarrow> evidence_claim res" where
  "obligation_claim db claim_id song_id =
     bindE (get_claim db (strip claim_id)) (\<lambda>found.
     case found of
       None \<Rightarrow> Inl (Raise NotFoundError (''evidence claim not found: '' @ claim_id))
     | Some claim \<Rightarrow>
         bindE (claim_compatible db claim song_id) (\<lambda>compatible.
         bindE (guardE compatible
           (Raise ValidationError ''obligation evidence scope does not match Artist/Song binding'')) (\<lambda>_.
         bindE (guardE (has_provenance claim)
           (Raise ValidationError (source_kind_name (ec_source_kind claim)
             @ '' obligation evidence requires source_ref provenance''))) (\<lambda>_.
         bindE (claim_current db claim) (\<lambda>current.
         bindE (guardE current
           (Raise ValidationError ''obligation may bind only currently active evidence'')) (\<lambda>_.
         Inr claim))))))"

definition obligation_followup ::
  "'a people_db_scheme \<Rightarrow> string option \<Rightarrow> string \<Rightarrow> string option \<Rightarrow> responsibility \<Rightarrow> string option
     \<Rightarrow> string option res" where
  "obligation_followup db followup_id person_id song_id responsibility due_on =
     (case followup_id of
        None \<Rightarrow> Inr None
      | Some f0 \<Rightarrow>
          (let fid = strip f0 in
           if fid = [] then Inr None
           else (case get_followup db fid of
                   None \<Rightarrow> Inl (Raise NotFoundError (''follow-up not found: '' @ fid))
                 | Some f \<Rightarrow>
                     bindE (primary_artist_id db) (\<lambda>artist.
                     bindE (guardE (\<not> (fu_artist_id f \<noteq> artist \<or> fu_person_id f \<noteq> person_id
                                       \<or> fu_song_id f \<noteq> song_id \<or> fu_responsibility f \<noteq> responsibility))
                       (Raise ValidationError ''obligation follow-up binding does not match'')) (\<lambda>_.
                     bindE (guardE (\<not> (fu_due_on f \<noteq> None \<and> fu_due_on f \<noteq> due_on))
                       (Raise ValidationError ''obligation due_on conflicts with linked follow-up'')) (\<lambda>_.
                     Inr (Some fid)))))))"

subsection \<open>Statements\<close>

text \<open>The scope condition of the triggers, in SQL over the row of the claim.\<close>

definition scope_match :: "'a people_db_scheme \<Rightarrow> evidence_row \<Rightarrow> string \<Rightarrow> string option \<Rightarrow> bool" where
  "scope_match db c artist song \<longleftrightarrow>
     er_scope_kind c = SCOPE_ARTIST \<and> er_scope_id c = artist
     \<or> er_scope_kind c = SCOPE_SONG \<and> song \<noteq> None \<and> Some (er_scope_id c) = song
     \<or> er_scope_kind c = SCOPE_VERSION \<and> song \<noteq> None
        \<and> list_ex (\<lambda>v. ve_id v = er_scope_id c \<and> Some (ve_song_id v) = song) (db_versions db)"

definition claim_matches :: "'a people_db_scheme \<Rightarrow> string \<Rightarrow> string \<Rightarrow> string option \<Rightarrow> bool" where
  "claim_matches db cid artist song \<longleftrightarrow>
     list_ex (\<lambda>c. er_id c = cid \<and> scope_match db c artist song) (db_evidence_claims db)"

definition followup_matches :: "'a people_db_scheme \<Rightarrow> obligation_row \<Rightarrow> string \<Rightarrow> bool" where
  "followup_matches db r fid \<longleftrightarrow>
     list_ex (\<lambda>f. fu_id f = fid \<and> fu_artist_id f = ob_artist_id r \<and> fu_person_id f = ob_person_id r
        \<and> fu_song_id f = ob_song_id r \<and> fu_responsibility f = ob_responsibility r
        \<and> (fu_due_on f = None \<or> fu_due_on f = ob_due_on r)) (db_followups db)"

text \<open>\<open>INSERT INTO business_obligations\<close>: four triggers, the constraints, the event.\<close>

definition insert_obligation :: "obligation_row \<Rightarrow> 'a obligation_db_scheme \<Rightarrow> 'a obligation_db_scheme res" where
  "insert_obligation r db =
     bindE (guardE (person_of_artist db (ob_person_id r) (ob_artist_id r))
       (integrity ''obligation person belongs to a different Artist'')) (\<lambda>_.
     bindE (guardE (pred_option (\<lambda>s. song_of_artist db s (ob_artist_id r)) (ob_song_id r))
       (integrity ''obligation Song belongs to a different Artist'')) (\<lambda>_.
     bindE (guardE (pred_option (followup_matches db r) (ob_followup_id r))
       (integrity ''obligation follow-up binding does not match'')) (\<lambda>_.
     bindE (guardE (claim_matches db (ob_source_claim_id r) (ob_artist_id r) (ob_song_id r))
       (integrity ''obligation source evidence scope does not match'')) (\<lambda>_.
     bindE (guardE (ob_id r \<notin> ob_id ` set (db_obligations db))
       (integrity ''UNIQUE constraint failed: business_obligations.id'')) (\<lambda>_.
     bindE (guardE (\<not> sql_blank (ob_summary r) \<and> pred_option (\<lambda>x. \<not> sql_blank x) (ob_trigger_ref r)
                    \<and> pred_option (\<lambda>x. \<not> sql_blank x) (ob_consequence_note r))
       (integrity ''CHECK constraint failed: business_obligations'')) (\<lambda>_.
     bindE (guardE (has_artist db (ob_artist_id r)) (integrity ''FOREIGN KEY constraint failed'')) (\<lambda>_.
     insert_activity ''OBLIGATION_CREATED'' (ob_artist_id r) (ob_song_id r) None ''OBLIGATION'' (ob_id r)
       (db\<lparr>db_obligations := db_obligations db @ [r]\<rparr>))))))))"

definition obligation_events :: "'a obligation_db_scheme \<Rightarrow> string \<Rightarrow> obligation_event_row list" where
  "obligation_events db oid = filter (\<lambda>e. obe_obligation_id e = oid) (db_obligation_events db)"

definition obligation_triggers :: "'a obligation_db_scheme \<Rightarrow> string \<Rightarrow> obligation_trigger_row list" where
  "obligation_triggers db oid = filter (\<lambda>t. obt_obligation_id t = oid) (db_obligation_triggers db)"

definition find_obligation :: "'a obligation_db_scheme \<Rightarrow> string \<Rightarrow> obligation_row option" where
  "find_obligation db oid = find (\<lambda>r. ob_id r = oid) (db_obligations db)"

text \<open>The trigger \<open>obligation_event_transition_shape\<close>: what may follow the events so far.\<close>

definition transition_shape :: "obligation_status list \<Rightarrow> obligation_status \<Rightarrow> bool" where
  "transition_shape prior new \<longleftrightarrow>
     \<not> (prior = [] \<and> new \<noteq> OBL_OPEN
        \<or> prior \<noteq> [] \<and> last prior \<in> set TERMINAL_OBLIGATION_STATUSES
        \<or> prior \<noteq> [] \<and> new = last prior
        \<or> new = OBL_OPEN \<and> prior \<noteq> [] \<and> last prior \<notin> {OBL_BLOCKED, OBL_DISPUTED})"

definition insert_obligation_event ::
  "string \<Rightarrow> string \<Rightarrow> obligation_status \<Rightarrow> string \<Rightarrow> string option
     \<Rightarrow> 'a obligation_db_scheme \<Rightarrow> 'a obligation_db_scheme res" where
  "insert_obligation_event eid oid status cid note db =
     (case find_obligation db oid of
        None \<Rightarrow> Inl (integrity ''obligation lifecycle evidence scope does not match'')
      | Some o' \<Rightarrow>
          bindE (guardE (claim_matches db cid (ob_artist_id o') (ob_song_id o'))
            (integrity ''obligation lifecycle evidence scope does not match'')) (\<lambda>_.
          bindE (guardE (transition_shape (map obe_status (obligation_events db oid)) status)
            (integrity ''invalid obligation lifecycle transition'')) (\<lambda>_.
          bindE (guardE (eid \<notin> obe_id ` set (db_obligation_events db))
            (integrity ''UNIQUE constraint failed: business_obligation_events.id'')) (\<lambda>_.
          bindE (guardE (pred_option (\<lambda>x. \<not> sql_blank x) note)
            (integrity ''CHECK constraint failed: business_obligation_events'')) (\<lambda>_.
          insert_activity (''OBLIGATION_STATUS_'' @ obligation_status_name status) (ob_artist_id o')
            (ob_song_id o') None ''OBLIGATION'' oid
            (db\<lparr>db_obligation_events := db_obligation_events db @
               [\<lparr>obe_seq = Suc (length (db_obligation_events db)), obe_id = eid, obe_obligation_id = oid,
                 obe_status = status, obe_evidence_claim_id = cid, obe_note = note\<rparr>]\<rparr>))))))"

definition insert_obligation_trigger ::
  "string \<Rightarrow> string \<Rightarrow> string \<Rightarrow> string \<Rightarrow> 'a obligation_db_scheme \<Rightarrow> 'a obligation_db_scheme res" where
  "insert_obligation_trigger tid oid cid note db =
     (case find_obligation db oid of
        None \<Rightarrow> Inl (integrity ''obligation trigger evidence scope does not match'')
      | Some o' \<Rightarrow>
          bindE (guardE (ob_trigger_ref o' \<noteq> None \<and> claim_matches db cid (ob_artist_id o') (ob_song_id o'))
            (integrity ''obligation trigger evidence scope does not match'')) (\<lambda>_.
          bindE (guardE (tid \<notin> obt_id ` set (db_obligation_triggers db))
            (integrity ''UNIQUE constraint failed: business_obligation_triggers.id'')) (\<lambda>_.
          bindE (guardE (\<not> sql_blank note)
            (integrity ''CHECK constraint failed: business_obligation_triggers'')) (\<lambda>_.
          insert_activity ''OBLIGATION_TRIGGER_OBSERVED'' (ob_artist_id o') (ob_song_id o') None
            ''OBLIGATION'' oid
            (db\<lparr>db_obligation_triggers := db_obligation_triggers db @
               [\<lparr>obt_seq = Suc (length (db_obligation_triggers db)), obt_id = tid, obt_obligation_id = oid,
                 obt_evidence_claim_id = cid, obt_note = note\<rparr>]\<rparr>)))))"

subsection \<open>Operations\<close>

definition read_obligation_event :: "'a obligation_db_scheme \<Rightarrow> obligation_event_row \<Rightarrow> obligation_event res" where
  "read_obligation_event db e =
     bindE (get_claim db (obe_evidence_claim_id e)) (\<lambda>found.
     case found of
       None \<Rightarrow> Inl (Raise LineageCorruptionError ''obligation event lost source evidence'')
     | Some c \<Rightarrow> Inr (obligation_event_row.extend (e\<lparr>obe_evidence_claim_id := ec_id c\<rparr>)
         (obligation_event.fields (ec_source_kind c) (ec_source_ref c))))"

definition read_obligation_trigger ::
  "'a obligation_db_scheme \<Rightarrow> obligation_trigger_row \<Rightarrow> obligation_trigger_event res" where
  "read_obligation_trigger db t =
     bindE (get_claim db (obt_evidence_claim_id t)) (\<lambda>found.
     case found of
       None \<Rightarrow> Inl (Raise LineageCorruptionError ''obligation trigger lost source evidence'')
     | Some c \<Rightarrow> Inr (obligation_trigger_row.extend (t\<lparr>obt_evidence_claim_id := ec_id c\<rparr>)
         (obligation_trigger_event.fields (ec_source_kind c) (ec_source_ref c))))"

definition linked_followup_state :: "'a people_db_scheme \<Rightarrow> string option \<Rightarrow> followup_state option res" where
  "linked_followup_state db fid =
     (case fid of
        None \<Rightarrow> Inr None
      | Some f \<Rightarrow> (case get_followup db f of
                    None \<Rightarrow> Inl (Raise LineageCorruptionError ''obligation lost linked follow-up'')
                  | Some g \<Rightarrow> Inr (Some (fu_state g))))"

definition get_obligation :: "'a obligation_db_scheme \<Rightarrow> string \<Rightarrow> obligation_snapshot res" where
  "get_obligation db obligation_id =
     (case find_obligation db (strip obligation_id) of
        None \<Rightarrow> Inl (Raise NotFoundError (''obligation not found: '' @ obligation_id))
      | Some r \<Rightarrow>
          bindE (obligation_person db (ob_person_id r)) (\<lambda>person.
          bindE (get_claim db (ob_source_claim_id r)) (\<lambda>found.
          case found of
            None \<Rightarrow> Inl (Raise LineageCorruptionError ''obligation lost compatible source evidence'')
          | Some source \<Rightarrow>
              bindE (claim_compatible db source (ob_song_id r)) (\<lambda>compatible.
              bindE (guardE compatible
                (Raise LineageCorruptionError ''obligation lost compatible source evidence'')) (\<lambda>_.
              bindE (mapE (read_obligation_event db) (obligation_events db (ob_id r))) (\<lambda>events.
              bindE (mapE (read_obligation_trigger db) (obligation_triggers db (ob_id r))) (\<lambda>triggers.
              bindE (linked_followup_state db (ob_followup_id r)) (\<lambda>followup_state.
              bindE (claim_current db source) (\<lambda>current.
              bindE (primary_artist_id db) (\<lambda>artist.
              bindE (guardE (ob_artist_id r = artist)
                (Raise LineageCorruptionError ''obligation Artist does not match active profile'')) (\<lambda>_.
              bindE (guardE (events \<noteq> [] \<and> obe_status (hd events) = OBL_OPEN)
                (Raise LineageCorruptionError ''obligation lifecycle does not begin OPEN'')) (\<lambda>_.
              Inr (obligation_row.extend (r\<lparr>ob_person_id := pn_id person, ob_source_claim_id := ec_id source\<rparr>)
                (obligation_snapshot.fields (store_profile_id db) (pn_display_name person) followup_state
                   (ec_source_kind source) (ec_source_ref source) current events triggers))))))))))))))"

definition create_obligation ::
  "string \<Rightarrow> string \<Rightarrow> string \<Rightarrow> string \<Rightarrow> string \<Rightarrow> string option \<Rightarrow> string option \<Rightarrow> string option
     \<Rightarrow> string option \<Rightarrow> string option \<Rightarrow> 'a obligation_db_scheme
     \<Rightarrow> (obligation_snapshot \<times> 'a obligation_db_scheme) res" where
  "create_obligation person_id kind resp summary source_claim_id song_id followup_id due_on trigger_ref
       consequence_note db0 =
     bindE (obligation_person db0 person_id) (\<lambda>person.
     bindE (obligation_song db0 song_id) (\<lambda>song.
     bindE (obligation_enum kind ''obligation kind'' OBLIGATION_KINDS) (\<lambda>kind.
     bindE (obligation_enum resp ''obligation responsibility'' FOLLOWUP_RESPONSIBILITIES) (\<lambda>resp.
     bindE (clean_text summary ''summary'' 1200) (\<lambda>summary.
     bindE (normalize_due_on due_on) (\<lambda>due.
     bindE (optional_clean_text trigger_ref ''trigger_ref'' 800) (\<lambda>trig.
     bindE (optional_clean_text consequence_note ''consequence_note'' 1200) (\<lambda>consequence.
     bindE (obligation_claim db0 source_claim_id song) (\<lambda>source.
     bindE (obligation_followup db0 followup_id (pn_id person) song resp due) (\<lambda>followup.
     let (oid, db1) = new_id ''obl'' db0; (eid, db) = new_id ''oble'' db1 in
     bindE (primary_artist_id db) (\<lambda>artist.
     bindE (on_integrity ''cannot create obligation''
       (bindE (insert_obligation \<lparr>ob_seq = Suc (length (db_obligations db)), ob_id = oid,
            ob_artist_id = artist, ob_person_id = pn_id person, ob_song_id = song,
            ob_followup_id = followup, ob_kind = kind, ob_responsibility = resp, ob_summary = summary,
            ob_due_on = due, ob_trigger_ref = trig, ob_source_claim_id = ec_id source,
            ob_consequence_note = consequence\<rparr> db)
          (insert_obligation_event eid oid OBL_OPEN (ec_id source) None))) (\<lambda>db.
     bindE (get_obligation db oid) (\<lambda>s. Inr (s, db))))))))))))))"

definition record_trigger ::
  "string \<Rightarrow> string \<Rightarrow> string \<Rightarrow> 'a obligation_db_scheme \<Rightarrow> (obligation_snapshot \<times> 'a obligation_db_scheme) res" where
  "record_trigger obligation_id claim_id note db0 =
     bindE (get_obligation db0 obligation_id) (\<lambda>current.
     bindE (guardE (ob_trigger_ref current \<noteq> None)
       (Raise ValidationError ''obligation has no explicit trigger to observe'')) (\<lambda>_.
     bindE (obligation_terminal current) (\<lambda>terminal.
     bindE (guardE (\<not> terminal)
       (Raise ValidationError ''terminal obligation cannot receive trigger evidence'')) (\<lambda>_.
     bindE (obligation_claim db0 claim_id (ob_song_id current)) (\<lambda>claim.
     bindE (clean_text note ''note'' 1200) (\<lambda>note.
     let (tid, db) = new_id ''oblt'' db0 in
     bindE (on_integrity ''cannot record obligation trigger''
       (insert_obligation_trigger tid (ob_id current) (ec_id claim) note db)) (\<lambda>db.
     bindE (get_obligation db (ob_id current)) (\<lambda>s. Inr (s, db)))))))))"

definition transition_obligation ::
  "string \<Rightarrow> string \<Rightarrow> string \<Rightarrow> string \<Rightarrow> 'a obligation_db_scheme
     \<Rightarrow> (obligation_snapshot \<times> 'a obligation_db_scheme) res" where
  "transition_obligation obligation_id status claim_id note db0 =
     bindE (get_obligation db0 obligation_id) (\<lambda>current.
     bindE (obligation_enum status ''obligation status'' OBLIGATION_STATUSES) (\<lambda>new.
     bindE (obligation_terminal current) (\<lambda>terminal.
     bindE (guardE (\<not> terminal)
       (Raise ValidationError ''terminal obligation lifecycle is immutable'')) (\<lambda>_.
     bindE (obligation_status_of current) (\<lambda>old.
     bindE (guardE (new \<noteq> old)
       (Raise ValidationError ''obligation lifecycle transition must change status'')) (\<lambda>_.
     bindE (guardE (\<not> (new = OBL_OPEN \<and> old \<notin> {OBL_BLOCKED, OBL_DISPUTED}))
       (Raise ValidationError ''OPEN may only reopen BLOCKED or DISPUTED obligations'')) (\<lambda>_.
     bindE (obligation_claim db0 claim_id (ob_song_id current)) (\<lambda>claim.
     bindE (clean_text note ''note'' 1200) (\<lambda>note.
     let (eid, db) = new_id ''oble'' db0 in
     bindE (on_integrity ''cannot transition obligation''
       (insert_obligation_event eid (ob_id current) new (ec_id claim) (Some note) db)) (\<lambda>db.
     bindE (get_obligation db (ob_id current)) (\<lambda>s. Inr (s, db))))))))))))"

subsection \<open>Queries and opening\<close>

definition all_obligations :: "'a obligation_db_scheme \<Rightarrow> obligation_snapshot list res" where
  "all_obligations db = mapE (get_obligation db) (map ob_id (db_obligations db))"

definition obligations_for_person :: "'a obligation_db_scheme \<Rightarrow> string \<Rightarrow> obligation_snapshot list res" where
  "obligations_for_person db person_id =
     bindE (obligation_person db person_id) (\<lambda>person.
     mapE (get_obligation db) (map ob_id (filter (\<lambda>r. ob_person_id r = pn_id person) (db_obligations db))))"

definition obligations_for_song :: "'a obligation_db_scheme \<Rightarrow> string \<Rightarrow> obligation_snapshot list res" where
  "obligations_for_song db song_id =
     bindE (obligation_song db (Some song_id)) (\<lambda>song.
     bindE (guardE (song \<noteq> None) (Raise PyAssertionError [])) (\<lambda>_.
     mapE (get_obligation db) (map ob_id (filter (\<lambda>r. ob_song_id r = song) (db_obligations db)))))"

definition install_obligations :: "people_db \<Rightarrow> obligation_db" where
  "install_obligations db = people_db.extend
     (db\<lparr>db_metadata := (db_metadata db)(''obligation_schema_version'' \<mapsto> ''1'')\<rparr>)
     (obligation_db.fields [] [] [])"

text \<open>The loop over the events of a snapshot in \<open>_validate_existing\<close>.\<close>

definition claim_bound :: "'a obligation_db_scheme \<Rightarrow> string \<Rightarrow> string option \<Rightarrow> string \<Rightarrow> unit res" where
  "claim_bound db cid song msg =
     bindE (get_claim db cid) (\<lambda>found.
     case found of
       None \<Rightarrow> Inl (Raise LineageCorruptionError msg)
     | Some c \<Rightarrow> bindE (claim_compatible db c song) (\<lambda>compatible.
         guardE compatible (Raise LineageCorruptionError msg)))"

fun validate_lifecycle ::
  "'a obligation_db_scheme \<Rightarrow> string option \<Rightarrow> obligation_status option \<Rightarrow> obligation_event list \<Rightarrow> unit res" where
  "validate_lifecycle db song prev [] = Inr ()"
| "validate_lifecycle db song prev (e # es) =
     bindE (claim_bound db (obe_evidence_claim_id e) song
       ''obligation lifecycle evidence binding is invalid'') (\<lambda>_.
     bindE (guardE (\<not> (\<exists>p \<in> set_option prev. p \<in> set TERMINAL_OBLIGATION_STATUSES))
       (Raise LineageCorruptionError ''terminal obligation has later lifecycle evidence'')) (\<lambda>_.
     bindE (guardE (prev \<noteq> Some (obe_status e))
       (Raise LineageCorruptionError ''obligation lifecycle repeats the same status'')) (\<lambda>_.
     bindE (guardE (\<not> (obe_status e = OBL_OPEN \<and> prev \<notin> {None, Some OBL_BLOCKED, Some OBL_DISPUTED}))
       (Raise LineageCorruptionError ''obligation OPEN transition is invalid'')) (\<lambda>_.
     validate_lifecycle db song (Some (obe_status e)) es))))"

definition validate_trigger_event ::
  "'a obligation_db_scheme \<Rightarrow> obligation_snapshot \<Rightarrow> obligation_trigger_event \<Rightarrow> unit res" where
  "validate_trigger_event db s t =
     bindE (guardE (ob_trigger_ref s \<noteq> None)
       (Raise LineageCorruptionError ''obligation has trigger evidence without a trigger'')) (\<lambda>_.
     claim_bound db (obt_evidence_claim_id t) (ob_song_id s)
       ''obligation trigger evidence binding is invalid'')"

text \<open>Errors of other classes than corruption become corruption.\<close>

definition as_corruption :: "string \<Rightarrow> 'b res \<Rightarrow> 'b res" where
  "as_corruption msg r =
     (case r of
        Inl e \<Rightarrow> if exc_cls e \<in> {ValidationError, PyValueError, PyTypeError}
                 then Inl (Raise LineageCorruptionError msg) else Inl e
      | Inr x \<Rightarrow> Inr x)"

definition validate_obligations :: "'a obligation_db_scheme \<Rightarrow> unit res" where
  "validate_obligations db =
     as_corruption ''Obligation memory is unreadable or corrupt''
       (bindE (guardE (db_metadata db ''obligation_schema_version'' = Some ''1'')
          (Raise LineageCorruptionError ''unsupported Obligation schema version'')) (\<lambda>_.
        bindE (mapE (\<lambda>oid.
          bindE (get_obligation db oid) (\<lambda>s.
          bindE (normalize_due_on (ob_due_on s)) (\<lambda>_.
          bindE (validate_lifecycle db (ob_song_id s) None (os_events s)) (\<lambda>_.
          bindE (mapE (validate_trigger_event db s) (os_trigger_events s)) (\<lambda>_. Inr ())))))
          (map ob_id (db_obligations db))) (\<lambda>_. Inr ())))"

end
