(* ===== verification/People_Store.thy ===== *)
theory People_Store
  imports People_Facts
begin

text \<open>
  What stores over the people memory share: the commands of that memory leave the fields a store adds alone, its
  invariant does not see them, and the contract \<open>people_store\<close> of a store whose tables stay sound when the
  people memory below is extended.
\<close>

subsection \<open>What the commands of the people memory leave alone\<close>

lemma people_extends_sets:
  assumes "people_extends db db'"
  shows "set (db_evidence_claims db) \<subseteq> set (db_evidence_claims db')"
    and "set (db_versions db) \<subseteq> set (db_versions db')" and "set (db_people db) \<subseteq> set (db_people db')"
    and "so_id ` set (db_songs db) \<subseteq> so_id ` set (db_songs db')"
    and "fu_id ` set (db_followups db) \<subseteq> fu_id ` set (db_followups db')"
    and "primary_artist_id db' = primary_artist_id db"
proof -
  from assms have e: "ev_extends db db'" and p: "prefix (db_people db) (db_people db')"
    by (simp_all add: people_extends_def)
  from e p show "set (db_evidence_claims db) \<subseteq> set (db_evidence_claims db')"
    "set (db_versions db) \<subseteq> set (db_versions db')" "set (db_people db) \<subseteq> set (db_people db')"
    "so_id ` set (db_songs db) \<subseteq> so_id ` set (db_songs db')" "primary_artist_id db' = primary_artist_id db"
    using ev_extends_artist [OF e] by (simp_all add: ev_extends_def set_mono_prefix)
  from assms obtain fs gs where f: "db_followups db' = fs @ gs" "list_all2 followup_kept (db_followups db) fs"
    unfolding people_extends_def by blast
  have "fu_id f = fu_id g" if "followup_kept f g" for f g
    using that by (cases f; cases g) (simp add: followup_kept_def)
  then have "map fu_id (db_followups db) = map fu_id fs"
    using f(2) by (auto simp: list_all2_conv_all_nth intro: nth_equalityI)
  then have "fu_id ` set (db_followups db) = fu_id ` set fs" by (metis list.set_map)
  then show "fu_id ` set (db_followups db) \<subseteq> fu_id ` set (db_followups db')" by (auto simp: f(1))
qed

lemma more_people:
  assumes "evidence_db.more db' = evidence_db.more db"
  shows "people_db.more db' = people_db.more db"
  using assms by (cases db; cases db') simp

lemma insert_activity_people:
  assumes "insert_activity etype artist song version otype oid db = Inr db'" and "people_inv db"
  shows "people_inv db' \<and> people_extends db db' \<and> people_db.more db' = people_db.more db"
proof -
  have "ev_inv db' \<and> ev_extends db db' \<and> evidence_db.more db' = evidence_db.more db"
    by (rule insert_activity_ev [OF assms(1)]) (use assms(2) in \<open>simp add: people_inv_def\<close>)
  then show ?thesis using people_inv_ev [OF assms(2)] more_people by blast
qed

lemma insert_person_more:
  assumes "insert_person p db = Inr db'" and "people_inv db"
  shows "people_db.more db' = people_db.more db"
proof -
  from assms(1) have a: "insert_activity ''PERSON_CREATED'' (pn_artist_id p) None None ''PERSON'' (pn_id p)
      (db\<lparr>db_people := db_people db @ [p]\<rparr>) = Inr db'"
    unfolding insert_person_def by (elim bindE_InrE)
  have "evidence_db.more db' = evidence_db.more (db\<lparr>db_people := db_people db @ [p]\<rparr>)"
    using insert_activity_ev [OF a] assms(2) by (simp add: people_inv_def)
  then show ?thesis using more_people [of db' "db\<lparr>db_people := db_people db @ [p]\<rparr>"] by simp
qed

lemma insert_followup_more:
  assumes "insert_followup f db = Inr db'" and "people_inv db"
  shows "people_db.more db' = people_db.more db"
proof -
  from assms(1) have a: "insert_activity ''FOLLOWUP_CREATED'' (fu_artist_id f) (fu_song_id f) None ''FOLLOWUP''
      (fu_id f) (db\<lparr>db_followups := db_followups db @ [f]\<rparr>) = Inr db'"
    unfolding insert_followup_def by (elim bindE_InrE)
  have "evidence_db.more db' = evidence_db.more (db\<lparr>db_followups := db_followups db @ [f]\<rparr>)"
    using insert_activity_ev [OF a] assms(2) by (simp add: people_inv_def)
  then show ?thesis using more_people [of db' "db\<lparr>db_followups := db_followups db @ [f]\<rparr>"] by simp
qed

lemma update_followup_more:
  assumes "update_followup fid st note db = Inr db'" and "people_inv db"
  shows "people_db.more db' = people_db.more db"
proof -
  let ?db = "db\<lparr>db_followups := map (\<lambda>g. if fu_id g = fid \<and> fu_state g = FOLLOWUP_OPEN
                then g\<lparr>fu_state := st, fu_resolution_note := Some note\<rparr> else g) (db_followups db)\<rparr>"
  from assms(1) obtain f :: followup where a: "insert_activity (''FOLLOWUP_'' @ followup_state_name st) (fu_artist_id f)
      (fu_song_id f) None ''FOLLOWUP'' fid ?db = Inr db'"
    unfolding update_followup_def by (auto elim!: bindE_InrE split: option.splits)
  have "evidence_db.more db' = evidence_db.more ?db"
    using insert_activity_ev [OF a] assms(2) by (simp add: people_inv_def)
  then show ?thesis using more_people [of db' ?db] by simp
qed

lemma create_person_more:
  assumes "create_person name ctx db = Inr (p, db')" and "people_inv db"
  shows "people_db.more db' = people_db.more db"
proof -
  obtain pid db1 where id: "new_id ''person'' db = (pid, db1)" by (cases "new_id ''person'' db") auto
  from assms(1) obtain q where "insert_person q db1 = Inr db'"
    unfolding create_person_def id Let_def prod.case
    by (elim bindE_InrE) (auto split: option.splits)
  then have "people_db.more db' = people_db.more db1"
    by (rule insert_person_more) (use assms(2) new_id_draws [OF id] in simp)
  then show ?thesis using new_id_draws [OF id] by simp
qed

lemma create_followup_more:
  assumes "create_followup person summary resp song due db = Inr (f, db')" and "people_inv db"
  shows "people_db.more db' = people_db.more db"
proof -
  obtain fid db1 where id: "new_id ''followup'' db = (fid, db1)" by (cases "new_id ''followup'' db") auto
  from assms(1) obtain g where "insert_followup g db1 = Inr db'"
    unfolding create_followup_def id Let_def prod.case
    by (elim bindE_InrE) (auto split: option.splits)
  then have "people_db.more db' = people_db.more db1"
    by (rule insert_followup_more) (use assms(2) new_id_draws [OF id] in simp)
  then show ?thesis using new_id_draws [OF id] by simp
qed

lemma close_followup_more:
  assumes "close_followup fid st note db = Inr (f, db')" and "people_inv db"
  shows "people_db.more db' = people_db.more db"
  using assms(1) by (elim close_followup_Inr) (use update_followup_more assms(2) in blast)

lemma exec_people_more:
  assumes "exec_people c db = Inr db'" and "people_inv db"
  shows "people_db.more db' = people_db.more db"
proof (cases c)
  case (People_Evidence e)
  with assms(1) have x: "exec_evidence e db = Inr db'" by simp
  have "ev_inv db" using assms(2) by (simp add: people_inv_def)
  then show ?thesis using exec_evidence_more [OF x] more_people by blast
next
  case (Create_Person name ctx)
  with assms show ?thesis by (auto simp: map_sum_snd_Inr dest: create_person_more)
next
  case (Create_Followup person summary resp song due)
  with assms show ?thesis by (auto simp: map_sum_snd_Inr dest: create_followup_more)
next
  case (Resolve_Followup fid msg)
  with assms show ?thesis by (auto simp: map_sum_snd_Inr resolve_followup_def dest: close_followup_more)
next
  case (Cancel_Followup fid reason)
  with assms show ?thesis by (auto simp: map_sum_snd_Inr cancel_followup_def dest: close_followup_more)
qed

lemma extend_people_inv: "people_inv (people_db.extend db m) = people_inv db" for db :: people_db
proof -
  let ?db = "people_db.extend db m"
  have e: "ev_inv ?db = ev_inv db"
    unfolding ev_inv_truncate [of ?db] ev_inv_truncate [of db]
    by (simp add: evidence_db.defs people_db.defs)
  have "person_ok ?db = person_ok db" "followup_ok ?db = followup_ok db"
    by (simp_all add: fun_eq_iff person_ok_def followup_ok_def primary_artist_id_def people_db.defs)
  then show ?thesis unfolding people_inv_def e by (simp add: one_artist_def people_db.defs)
qed

lemma schema_version_people_inv:
  assumes "people_inv db"
    and "k \<notin> {''schema_version'', ''profile_id'', ''primary_artist_id'', ''active_song_id'',
      ''evidence_schema_version'', ''people_schema_version''}"
  shows "people_inv (db\<lparr>db_metadata := (db_metadata db)(k \<mapsto> v)\<rparr>)"
proof -
  let ?db = "db\<lparr>db_metadata := (db_metadata db)(k \<mapsto> v)\<rparr>"
  have "ev_inv ?db" by (rule schema_version_ev_inv) (use assms in \<open>auto simp: people_inv_def\<close>)
  moreover have "primary_artist_id ?db = primary_artist_id db"
    using assms(2) by (auto simp: primary_artist_id_def)
  then have "person_ok ?db = person_ok db" "followup_ok ?db = followup_ok db"
    by (simp_all add: fun_eq_iff person_ok_def followup_ok_def)
  moreover have "one_artist ?db" using assms by (auto simp: people_inv_def one_artist_def)
  moreover have "db_metadata ?db ''people_schema_version'' = db_metadata db ''people_schema_version''"
    using assms(2) by auto
  ultimately show ?thesis using assms(1) unfolding people_inv_def by simp
qed

text \<open>Only the fields of the people memory matter to its invariant.\<close>

lemma people_inv_truncate: "people_inv db = people_inv (people_db.truncate db)"
proof -
  have "people_db.extend (people_db.truncate db) (people_db.more db) = db"
    by (cases db) (simp add: people_db.defs)
  then show ?thesis using extend_people_inv [of "people_db.truncate db" "people_db.more db"] by simp
qed

lemma people_inv_same: "people_db.truncate db' = people_db.truncate db \<Longrightarrow> people_inv db' = people_inv db"
  using people_inv_truncate by metis

lemma people_extends_same:
  assumes "people_db.truncate db' = people_db.truncate db"
  shows "people_extends db db'"
proof -
  have "ev_extends db db'" using assms by (simp add: people_db.defs ev_extends_def)
  then show ?thesis
    by (rule people_extendsI [of _ _ "db_followups db" "[]"]) (use assms in \<open>simp_all add: people_db.defs\<close>)
qed

subsection \<open>The contract of a store\<close>

text \<open>
  The tables a store adds to the people memory are the rest of the record (\<open>people_db.more\<close>); the
  contract is that what the store says of them survives when the people memory below is extended.
\<close>

locale people_store =
  fixes tables_ok :: "'a people_db_scheme \<Rightarrow> bool"
  assumes tables_mono: "people_extends db db' \<Longrightarrow> people_db.more db' = people_db.more db
    \<Longrightarrow> tables_ok db \<Longrightarrow> tables_ok db'"
begin

lemma draws_step: "tables_ok db \<Longrightarrow> tables_ok (db\<lparr>db_draws := n\<rparr>)"
  by (rule tables_mono [OF people_extends_draws]) simp_all

lemma people_step:
  assumes "exec_people c db = Inr db'" and "people_inv db" and "tables_ok db"
  shows "people_inv db' \<and> people_extends db db' \<and> people_db.more db' = people_db.more db \<and> tables_ok db'"
  using exec_people_inv [OF assms(1,2)] exec_people_more [OF assms(1,2)] tables_mono assms(3) by blast

lemma event_step:
  assumes "insert_activity etype artist song version otype oid db = Inr db'" and "people_inv db" and "tables_ok db"
  shows "people_inv db' \<and> people_extends db db' \<and> people_db.more db' = people_db.more db \<and> tables_ok db'"
  using insert_activity_people [OF assms(1,2)] tables_mono assms(3) by blast

text \<open>A statement changes the tables of the store, then its trigger records an event.\<close>

lemma statement_step:
  assumes "insert_activity etype artist song version otype oid db1 = Inr db'" and "people_inv db"
    and same: "people_db.truncate db1 = people_db.truncate db" and "tables_ok db1"
  shows "people_inv db' \<and> people_extends db db' \<and> people_db.more db' = people_db.more db1 \<and> tables_ok db'"
proof -
  have "people_inv db1" using people_inv_same [OF same] assms(2) by simp
  then show ?thesis
    using event_step [OF assms(1) _ assms(4)] people_extends_same [OF same] people_extends_trans by blast
qed

end

end
