(* ===== verification/Obligations_Facts.thy ===== *)
theory Obligations_Facts
  imports Obligations People_Store
begin

text \<open>
  The lifecycle of an obligation as a step relation, the invariant of the three tables, the memory as a
  machine over the people and the evidence it cites, and what follows for every reachable memory.
\<close>

subsection \<open>The lifecycle as a step relation\<close>

inductive obl_step :: "obligation_status option \<Rightarrow> obligation_status \<Rightarrow> bool" where
  obl_start: "obl_step None OBL_OPEN"
| obl_block: "s \<in> {OBL_OPEN, OBL_DISPUTED} \<Longrightarrow> obl_step (Some s) OBL_BLOCKED"
| obl_dispute: "s \<in> {OBL_OPEN, OBL_BLOCKED} \<Longrightarrow> obl_step (Some s) OBL_DISPUTED"
| obl_reopen: "s \<in> {OBL_BLOCKED, OBL_DISPUTED} \<Longrightarrow> obl_step (Some s) OBL_OPEN"
| obl_close: "s \<in> {OBL_OPEN, OBL_BLOCKED, OBL_DISPUTED} \<Longrightarrow> t \<in> {OBL_SATISFIED, OBL_WAIVED, OBL_CANCELED}
    \<Longrightarrow> obl_step (Some s) t"

inductive_simps obl_step_simps: "obl_step p s"

definition last_status :: "obligation_status list \<Rightarrow> obligation_status option" where
  "last_status ss = (if ss = [] then None else Some (last ss))"

text \<open>The trigger admits exactly the steps.\<close>

lemma transition_shape_iff: "transition_shape ss s \<longleftrightarrow> obl_step (last_status ss) s"
  by (cases s; cases "last ss")
    (auto simp: transition_shape_def last_status_def obl_step_simps TERMINAL_OBLIGATION_STATUSES_def)

fun lifecycle :: "obligation_status option \<Rightarrow> obligation_status list \<Rightarrow> bool" where
  "lifecycle p [] = True"
| "lifecycle p (s # ss) = (obl_step p s \<and> lifecycle (Some s) ss)"

lemma lifecycle_snoc:
  "lifecycle p (ss @ [s]) \<longleftrightarrow> lifecycle p ss \<and> obl_step (if ss = [] then p else Some (last ss)) s"
  by (induction ss arbitrary: p) auto

lemma lifecycle_extend: "lifecycle None ss \<Longrightarrow> transition_shape ss s \<Longrightarrow> lifecycle None (ss @ [s])"
  by (simp add: lifecycle_snoc transition_shape_iff last_status_def)

lemma terminal_no_step: "s \<in> set TERMINAL_OBLIGATION_STATUSES \<Longrightarrow> \<not> obl_step (Some s) t"
  by (auto simp: obl_step_simps TERMINAL_OBLIGATION_STATUSES_def)

lemma lifecycle_live:
  "lifecycle p ss \<Longrightarrow> i + 1 < length ss \<Longrightarrow> ss ! i \<notin> set TERMINAL_OBLIGATION_STATUSES"
proof (induction p ss arbitrary: i rule: lifecycle.induct)
  case (2 p s ss)
  show ?case
  proof (cases i)
    case 0
    then obtain t ts where "ss = t # ts" using 2(3) by (cases ss) auto
    then show ?thesis using 2(2) 0 terminal_no_step by auto
  next
    case (Suc j)
    then show ?thesis using 2 by auto
  qed
qed simp

subsection \<open>The invariant\<close>

text \<open>A claim an obligation with this artist and song may cite: in scope, and with provenance.\<close>

definition cites :: "'a people_db_scheme \<Rightarrow> obligation_row \<Rightarrow> string \<Rightarrow> bool" where
  "cites db r cid \<longleftrightarrow> (\<exists>c \<in> set (db_evidence_claims db). er_id c = cid
     \<and> scope_match db c (ob_artist_id r) (ob_song_id r) \<and> has_provenance (row_claim c))"

definition obligation_ok :: "'a people_db_scheme \<Rightarrow> obligation_row \<Rightarrow> bool" where
  "obligation_ok db r \<longleftrightarrow> trimmed (ob_id r) \<and> primary_artist_id db = Inr (ob_artist_id r)
     \<and> trimmed (ob_person_id r) \<and> ob_person_id r \<in> pn_id ` set (db_people db)
     \<and> pred_option (\<lambda>s. s \<in> so_id ` set (db_songs db)) (ob_song_id r)
     \<and> pred_option (\<lambda>f. trimmed f \<and> f \<in> fu_id ` set (db_followups db)) (ob_followup_id r)
     \<and> pred_option (\<lambda>t. \<exists>d. valid_date d \<and> t = date_isoformat d) (ob_due_on r)
     \<and> cites db r (ob_source_claim_id r)"

definition obligation_tables_ok ::
  "'a people_db_scheme \<Rightarrow> obligation_row list \<Rightarrow> obligation_event_row list \<Rightarrow> obligation_trigger_row list \<Rightarrow> bool" where
  "obligation_tables_ok db rs es ts \<longleftrightarrow>
     distinct (map ob_id rs) \<and> list_all (obligation_ok db) rs
     \<and> (\<forall>e \<in> set es. \<exists>r \<in> set rs. ob_id r = obe_obligation_id e \<and> cites db r (obe_evidence_claim_id e))
     \<and> (\<forall>t \<in> set ts. \<exists>r \<in> set rs. ob_id r = obt_obligation_id t \<and> ob_trigger_ref r \<noteq> None
          \<and> cites db r (obt_evidence_claim_id t))
     \<and> (\<forall>oid. lifecycle None (map obe_status (filter (\<lambda>e. obe_obligation_id e = oid) es)))"

definition obligation_inv :: "'a obligation_db_scheme \<Rightarrow> bool" where
  "obligation_inv db \<longleftrightarrow> people_inv db \<and> db_metadata db ''obligation_schema_version'' = Some ''1''
     \<and> obligation_tables_ok db (db_obligations db) (db_obligation_events db) (db_obligation_triggers db)
     \<and> (\<forall>r \<in> set (db_obligations db). obligation_events db (ob_id r) \<noteq> [])"

definition obligation_extends :: "'a obligation_db_scheme \<Rightarrow> 'a obligation_db_scheme \<Rightarrow> bool" where
  "obligation_extends db db' \<longleftrightarrow> people_extends db db' \<and> prefix (db_obligations db) (db_obligations db')
     \<and> prefix (db_obligation_events db) (db_obligation_events db')
     \<and> prefix (db_obligation_triggers db) (db_obligation_triggers db')"

lemma obligation_extends_refl [simp]: "obligation_extends db db"
  by (simp add: obligation_extends_def)

lemma obligation_extends_trans:
  "obligation_extends a b \<Longrightarrow> obligation_extends b c \<Longrightarrow> obligation_extends a c"
  unfolding obligation_extends_def
  by (elim conjE, intro conjI) (erule (1) people_extends_trans prefix_order.trans)+

lemma cites_mono: "people_extends db db' \<Longrightarrow> cites db r cid \<Longrightarrow> cites db' r cid"
  using people_extends_sets(1,2) [of db db'] unfolding cites_def scope_match_def list_ex_iff by blast

lemma obligation_ok_mono:
  assumes "people_extends db db'" and "obligation_ok db r"
  shows "obligation_ok db' r"
  using assms(2) people_extends_sets [OF assms(1)] cites_mono [OF assms(1)]
  by (cases "ob_song_id r"; cases "ob_followup_id r") (auto simp: obligation_ok_def)

lemma obligation_tables_mono:
  assumes "people_extends db db'" and "obligation_tables_ok db rs es ts"
  shows "obligation_tables_ok db' rs es ts"
  using assms(2) cites_mono [OF assms(1)] obligation_ok_mono [OF assms(1)]
  unfolding obligation_tables_ok_def list_all_iff by meson

subsection \<open>Each statement\<close>

definition ob_base :: "'a obligation_db_scheme \<Rightarrow> bool" where
  "ob_base db \<longleftrightarrow> people_inv db \<and> db_metadata db ''obligation_schema_version'' = Some ''1''
     \<and> obligation_tables_ok db (db_obligations db) (db_obligation_events db) (db_obligation_triggers db)"

definition all_opened :: "'a obligation_db_scheme \<Rightarrow> bool" where
  "all_opened db \<longleftrightarrow> (\<forall>r \<in> set (db_obligations db). obligation_events db (ob_id r) \<noteq> [])"

lemma obligation_inv_base: "obligation_inv db \<longleftrightarrow> ob_base db \<and> all_opened db"
  by (auto simp: obligation_inv_def ob_base_def all_opened_def)

lemma obligation_people_frames [simp]:
  "people_inv (db\<lparr>db_obligations := rs\<rparr>) = people_inv db"
  "people_inv (db\<lparr>db_obligation_events := es\<rparr>) = people_inv db"
  "people_inv (db\<lparr>db_obligation_triggers := ts\<rparr>) = people_inv db"
  "people_extends db (db\<lparr>db_obligations := rs\<rparr>)"
  "people_extends db (db\<lparr>db_obligation_events := es\<rparr>)"
  "people_extends db (db\<lparr>db_obligation_triggers := ts\<rparr>)"
  by (simp_all add: people_inv_def person_ok_def followup_ok_def one_artist_def ev_inv_def lineage_inv_def
      core_defs activity_ok_def activity_row_ok_def has_artist_def
      version_in_song_def claim_ok_def check_scope_def primary_artist_id_def store_profile_id_def
      get_song_def get_version_def ev_extends_def list_all_iff Let_def people_extends_def cong: scope_kind.case_cong)
    (metis append_Nil2 followups_kept_refl)+

lemma more_obligations:
  assumes "people_db.more db' = people_db.more db"
  shows "db_obligations db' = db_obligations db \<and> db_obligation_events db' = db_obligation_events db
    \<and> db_obligation_triggers db' = db_obligation_triggers db"
  using assms by (cases db; cases db') simp

text \<open>A change of the three tables, with its event.\<close>

lemma tables_step:
  assumes a: "insert_activity etype artist song version otype oid db1 = Inr db'"
    and base: "ob_base db" and keep: "people_inv db1" "people_extends db db1"
    and t: "obligation_tables_ok db (db_obligations db1) (db_obligation_events db1) (db_obligation_triggers db1)"
  shows "ob_base db' \<and> people_extends db db' \<and> db_obligations db' = db_obligations db1
    \<and> db_obligation_events db' = db_obligation_events db1
    \<and> db_obligation_triggers db' = db_obligation_triggers db1"
proof -
  have p: "people_inv db' \<and> people_extends db1 db' \<and> people_db.more db' = people_db.more db1"
    by (rule insert_activity_people [OF a keep(1)])
  then have x: "people_extends db db'" using keep(2) people_extends_trans by blast
  have m: "db_obligations db' = db_obligations db1 \<and> db_obligation_events db' = db_obligation_events db1
    \<and> db_obligation_triggers db' = db_obligation_triggers db1" using p more_obligations by blast
  have "db_metadata db' ''obligation_schema_version'' = Some ''1''"
    using base x by (simp add: ob_base_def people_extends_def ev_extends_def)
  then show ?thesis
    using p x m obligation_tables_mono [OF x t] by (simp add: ob_base_def)
qed

lemma insert_obligation_step:
  assumes "insert_obligation r db = Inr db'" and "ob_base db" and "obligation_ok db r"
  shows "ob_base db' \<and> obligation_extends db db' \<and> db_obligations db' = db_obligations db @ [r]
    \<and> db_obligation_events db' = db_obligation_events db \<and> ob_id r \<notin> ob_id ` set (db_obligations db)"
proof -
  let ?db = "db\<lparr>db_obligations := db_obligations db @ [r]\<rparr>"
  from assms(1) have new: "ob_id r \<notin> ob_id ` set (db_obligations db)"
    and a: "insert_activity ''OBLIGATION_CREATED'' (ob_artist_id r) (ob_song_id r) None ''OBLIGATION'' (ob_id r)
       ?db = Inr db'"
    unfolding insert_obligation_def by (auto simp: guardE_eq_Inr elim!: bindE_InrE)
  have "obligation_tables_ok db (db_obligations db @ [r]) (db_obligation_events db) (db_obligation_triggers db)"
    using assms(2,3) new by (auto simp: ob_base_def obligation_tables_ok_def)
  then have "ob_base db' \<and> people_extends db db' \<and> db_obligations db' = db_obligations ?db
    \<and> db_obligation_events db' = db_obligation_events ?db
    \<and> db_obligation_triggers db' = db_obligation_triggers ?db"
    by (intro tables_step [OF a assms(2)]) (use assms(2) in \<open>simp_all add: ob_base_def\<close>)
  then show ?thesis using new by (simp add: obligation_extends_def)
qed

lemma find_obligation_Some: "find_obligation db oid = Some r \<Longrightarrow> r \<in> set (db_obligations db) \<and> ob_id r = oid"
  by (auto simp: find_obligation_def find_Some_iff in_set_conv_nth)

lemma find_obligation_row:
  assumes "ob_base db" and "r \<in> set (db_obligations db)"
  shows "find_obligation db (ob_id r) = Some r"
proof -
  have "find_obligation db (ob_id r) \<noteq> None" using assms(2) by (auto simp: find_obligation_def find_None_iff)
  then obtain q where q: "find_obligation db (ob_id r) = Some q" by blast
  have "inj_on ob_id (set (db_obligations db))"
    using assms(1) by (simp add: ob_base_def obligation_tables_ok_def distinct_map)
  then have "q = r" using find_obligation_Some [OF q] assms(2) by (auto dest: inj_onD)
  with q show ?thesis by simp
qed

text \<open>A claim the service admits is one row, so what the trigger finds under its id has provenance.\<close>

lemma obligation_claim_Inr:
  assumes "obligation_claim db cid song = Inr c" and "ev_inv db"
  obtains r where "r \<in> set (db_evidence_claims db)" "c = row_claim r" "has_provenance (row_claim r)"
proof -
  from assms(1) have g: "get_claim db (strip cid) = Inr (Some c)" and p: "has_provenance c"
    unfolding obligation_claim_def by (auto simp: guardE_eq_Inr elim!: bindE_InrE split: option.splits)
  from g obtain r where "find_claim db (strip cid) = Some r" "c = row_claim r"
    by (auto simp: get_claim_def claim_from_row_Inr elim!: bindE_InrE split: option.splits)
  with find_claim_Some p that show ?thesis by blast
qed

lemma matches_cites:
  assumes "claim_matches db cid artist song" and "ev_inv db" and "r \<in> set (db_evidence_claims db)"
    and "er_id r = cid" and "has_provenance (row_claim r)" and "ob_artist_id q = artist" "ob_song_id q = song"
  shows "cites db q cid"
proof -
  from assms(1) obtain c where c: "c \<in> set (db_evidence_claims db)" "er_id c = cid" "scope_match db c artist song"
    by (auto simp: claim_matches_def list_ex_iff)
  then have "c = r" using claim_id_eq [OF assms(2)] assms(3,4) by metis
  with c assms(4-7) show ?thesis unfolding cites_def using assms(3) by blast
qed

lemma insert_obligation_event_step:
  assumes "insert_obligation_event eid oid st (er_id c) note db = Inr db'" and "ob_base db"
    and c: "c \<in> set (db_evidence_claims db)" "has_provenance (row_claim c)"
  obtains row where "ob_base db'" "obligation_extends db db'" "db_obligations db' = db_obligations db"
    "db_obligation_events db' = db_obligation_events db @ [row]" "obe_obligation_id row = oid"
    "obe_status row = st" "oid \<in> ob_id ` set (db_obligations db)"
    "transition_shape (map obe_status (obligation_events db oid)) st"
proof -
  obtain q where q: "find_obligation db oid = Some q"
    using assms(1) by (auto simp: insert_obligation_event_def split: option.splits)
  let ?row = "\<lparr>obe_seq = Suc (length (db_obligation_events db)), obe_id = eid, obe_obligation_id = oid,
      obe_status = st, obe_evidence_claim_id = er_id c, obe_note = note\<rparr>"
  let ?db = "db\<lparr>db_obligation_events := db_obligation_events db @ [?row]\<rparr>"
  from assms(1) have m: "claim_matches db (er_id c) (ob_artist_id q) (ob_song_id q)"
    and sh: "transition_shape (map obe_status (obligation_events db oid)) st"
    and a: "insert_activity (''OBLIGATION_STATUS_'' @ obligation_status_name st) (ob_artist_id q)
            (ob_song_id q) None ''OBLIGATION'' oid ?db = Inr db'"
    by (auto simp: insert_obligation_event_def q guardE_eq_Inr elim!: bindE_InrE)
  have qr: "q \<in> set (db_obligations db)" "ob_id q = oid" using find_obligation_Some [OF q] by simp_all
  have ev: "ev_inv db" using assms(2) by (simp add: ob_base_def people_inv_def)
  have cite: "cites db q (er_id c)" by (rule matches_cites [OF m ev c(1) refl c(2)]) simp_all
  have "lifecycle None (map obe_status (filter (\<lambda>e. obe_obligation_id e = x) (db_obligation_events db @ [?row])))" for x
    using assms(2) sh lifecycle_extend
    by (cases "x = oid") (simp_all add: ob_base_def obligation_tables_ok_def obligation_events_def)
  then have "obligation_tables_ok db (db_obligations db) (db_obligation_events db @ [?row]) (db_obligation_triggers db)"
    using assms(2) qr cite by (auto simp: ob_base_def obligation_tables_ok_def)
  then have "ob_base db' \<and> people_extends db db' \<and> db_obligations db' = db_obligations ?db
    \<and> db_obligation_events db' = db_obligation_events ?db
    \<and> db_obligation_triggers db' = db_obligation_triggers ?db"
    by (intro tables_step [OF a assms(2)]) (use assms(2) in \<open>simp_all add: ob_base_def\<close>)
  then show ?thesis
    using that [of ?row] qr sh by (auto simp: obligation_extends_def)
qed

lemma insert_obligation_trigger_step:
  assumes "insert_obligation_trigger tid oid (er_id c) note db = Inr db'" and "ob_base db"
    and c: "c \<in> set (db_evidence_claims db)" "has_provenance (row_claim c)"
  shows "ob_base db' \<and> obligation_extends db db' \<and> db_obligations db' = db_obligations db
    \<and> db_obligation_events db' = db_obligation_events db"
proof -
  obtain q where q: "find_obligation db oid = Some q"
    using assms(1) by (auto simp: insert_obligation_trigger_def split: option.splits)
  let ?row = "\<lparr>obt_seq = Suc (length (db_obligation_triggers db)), obt_id = tid, obt_obligation_id = oid,
      obt_evidence_claim_id = er_id c, obt_note = note\<rparr>"
  let ?db = "db\<lparr>db_obligation_triggers := db_obligation_triggers db @ [?row]\<rparr>"
  from assms(1) have m: "claim_matches db (er_id c) (ob_artist_id q) (ob_song_id q)" "ob_trigger_ref q \<noteq> None"
    and a: "insert_activity ''OBLIGATION_TRIGGER_OBSERVED'' (ob_artist_id q) (ob_song_id q) None
            ''OBLIGATION'' oid ?db = Inr db'"
    by (auto simp: insert_obligation_trigger_def q guardE_eq_Inr elim!: bindE_InrE)
  have qr: "q \<in> set (db_obligations db)" "ob_id q = oid" using find_obligation_Some [OF q] by simp_all
  have ev: "ev_inv db" using assms(2) by (simp add: ob_base_def people_inv_def)
  have "cites db q (er_id c)" by (rule matches_cites [OF m(1) ev c(1) refl c(2)]) simp_all
  then have "obligation_tables_ok db (db_obligations db) (db_obligation_events db) (db_obligation_triggers db @ [?row])"
    using assms(2) qr m(2) by (auto simp: ob_base_def obligation_tables_ok_def)
  then have "ob_base db' \<and> people_extends db db' \<and> db_obligations db' = db_obligations ?db
    \<and> db_obligation_events db' = db_obligation_events ?db
    \<and> db_obligation_triggers db' = db_obligation_triggers ?db"
    by (intro tables_step [OF a assms(2)]) (use assms(2) in \<open>simp_all add: ob_base_def\<close>)
  then show ?thesis by (simp add: obligation_extends_def)
qed

subsection \<open>Each operation\<close>

lemma cites_draws [simp]: "cites (db\<lparr>db_draws := n\<rparr>) = cites db"
  by (simp add: fun_eq_iff cites_def scope_match_def)

lemma obligation_ok_draws [simp]: "obligation_ok (db\<lparr>db_draws := n\<rparr>) = obligation_ok db"
  by (simp add: fun_eq_iff obligation_ok_def primary_artist_id_def)

lemma ob_base_draws [simp]: "ob_base (db\<lparr>db_draws := n\<rparr>) = ob_base db"
  by (simp add: ob_base_def obligation_tables_ok_def)

lemma obligation_inv_draws [simp]: "obligation_inv (db\<lparr>db_draws := n\<rparr>) = obligation_inv db"
  by (simp add: obligation_inv_base all_opened_def obligation_events_def)

lemma obligation_extends_draws: "obligation_extends db (db\<lparr>db_draws := n\<rparr>)"
  by (simp add: obligation_extends_def people_extends_draws)

lemma obligation_lits: "trimmed ''obl''"
  by (simp add: trimmed_def is_space_def code_def)

lemma obligation_person_Inr:
  assumes "obligation_person db pid = Inr p" and "people_inv db"
  shows "p \<in> set (db_people db) \<and> trimmed (pn_id p) \<and> primary_artist_id db = Inr (pn_artist_id p)"
proof -
  from assms(1) have "get_person db (strip pid) = Some p"
    by (auto simp: obligation_person_def elim!: bindE_InrE split: option.splits)
  then have "p \<in> set (db_people db)" using get_person_Some by blast
  then show ?thesis using assms(2) unfolding people_inv_def list_all_iff person_ok_def by blast
qed

lemma obligation_song_Inr:
  "obligation_song db song = Inr s \<Longrightarrow> pred_option (\<lambda>s. s \<in> so_id ` set (db_songs db)) s"
  by (auto simp: obligation_song_def Let_def dest!: get_song_Some elim!: bindE_InrE split: option.splits if_splits)
    (metis image_eqI)

lemma obligation_followup_Inr:
  "obligation_followup db fid pid song resp due = Inr f
     \<Longrightarrow> pred_option (\<lambda>f. trimmed f \<and> f \<in> fu_id ` set (db_followups db)) f"
  by (auto simp: obligation_followup_def Let_def strip_nonempty_trimmed dest!: get_followup_Some
      elim!: bindE_InrE split: option.splits if_splits) (metis image_eqI)

lemma obligation_events_snoc:
  "db_obligation_events db' = db_obligation_events db @ [row]
     \<Longrightarrow> obligation_events db' oid = obligation_events db oid @ (if obe_obligation_id row = oid then [row] else [])"
  by (simp add: obligation_events_def)

lemma create_obligation_inv:
  assumes "create_obligation pid kind resp summary cid song fid due trig cons db = Inr (s, db')" and "obligation_inv db"
  shows "obligation_inv db' \<and> obligation_extends db db'"
proof -
  obtain oid db1 where id1: "new_id ''obl'' db = (oid, db1)" by (cases "new_id ''obl'' db") auto
  obtain eid db2 where id2: "new_id ''oble'' db1 = (eid, db2)" by (cases "new_id ''oble'' db1") auto
  note d1 = new_id_draws [OF id1] note d2 = new_id_draws [OF id2]
  have base: "ob_base db" "all_opened db" and ppl: "people_inv db" and ev: "ev_inv db"
    using assms(2) by (simp_all add: obligation_inv_base) (simp_all add: ob_base_def people_inv_def)
  from assms(1) obtain p sg k rsp sm du tr co source fu artist db3 where
    p: "obligation_person db pid = Inr p" and sg: "obligation_song db song = Inr sg"
    and du: "normalize_due_on due = Inr du" and src: "obligation_claim db cid sg = Inr source"
    and fu: "obligation_followup db fid (pn_id p) sg rsp du = Inr fu"
    and art: "primary_artist_id db2 = Inr artist"
    and ins: "insert_obligation \<lparr>ob_seq = Suc (length (db_obligations db2)), ob_id = oid,
            ob_artist_id = artist, ob_person_id = pn_id p, ob_song_id = sg,
            ob_followup_id = fu, ob_kind = k, ob_responsibility = rsp, ob_summary = sm,
            ob_due_on = du, ob_trigger_ref = tr, ob_source_claim_id = ec_id source,
            ob_consequence_note = co\<rparr> db2 = Inr db3"
    and evt: "insert_obligation_event eid oid OBL_OPEN (ec_id source) None db3 = Inr db'"
    unfolding create_obligation_def id1 id2 Let_def prod.case
    by (elim bindE_InrE) (simp add: bindE_eq_Inr, blast)
  let ?r = "\<lparr>ob_seq = Suc (length (db_obligations db2)), ob_id = oid,
            ob_artist_id = artist, ob_person_id = pn_id p, ob_song_id = sg,
            ob_followup_id = fu, ob_kind = k, ob_responsibility = rsp, ob_summary = sm,
            ob_due_on = du, ob_trigger_ref = tr, ob_source_claim_id = ec_id source,
            ob_consequence_note = co\<rparr>"
  obtain c where c: "c \<in> set (db_evidence_claims db)" "source = row_claim c" "has_provenance (row_claim c)"
    using src ev by (rule obligation_claim_Inr)
  have m: "claim_matches db2 (er_id c) artist sg"
    using ins unfolding insert_obligation_def by (auto simp: guardE_eq_Inr c(2) elim!: bindE_InrE)
  have "cites db2 ?r (er_id c)"
    by (rule matches_cites [OF m _ _ refl c(3)]) (simp_all add: d1 d2 ev c(1))
  moreover have "trimmed oid"
    using new_id_trimmed [OF id1] ppl obligation_lits by (simp add: people_inv_def)
  moreover have "primary_artist_id db = Inr artist" using art by (simp add: d1 d2 primary_artist_id_def)
  ultimately have ok: "obligation_ok db2 ?r"
    using obligation_person_Inr [OF p ppl] obligation_song_Inr [OF sg] obligation_followup_Inr [OF fu]
      due_on_ok [OF du] by (auto simp: obligation_ok_def c(2) d1 d2)
  have s1: "ob_base db3 \<and> obligation_extends db2 db3 \<and> db_obligations db3 = db_obligations db2 @ [?r]
    \<and> db_obligation_events db3 = db_obligation_events db2 \<and> ob_id ?r \<notin> ob_id ` set (db_obligations db2)"
    by (rule insert_obligation_step [OF ins _ ok]) (simp add: d1 d2 base)
  have c3: "c \<in> set (db_evidence_claims db3)"
    using s1 people_extends_sets(1) [of db2 db3] c(1) by (auto simp: obligation_extends_def d1 d2)
  obtain row where row: "ob_base db'" "obligation_extends db3 db'" "db_obligations db' = db_obligations db3"
    "db_obligation_events db' = db_obligation_events db3 @ [row]" "obe_obligation_id row = oid"
    by (rule insert_obligation_event_step [OF _ _ c3 c(3), of eid oid OBL_OPEN None db'])
      (use evt s1 in \<open>simp_all add: c(2)\<close>)
  have "all_opened db'"
    using base(2) s1 row(3-5) by (auto simp: all_opened_def obligation_events_def d1 d2)
  moreover have "obligation_extends db db2"
    using obligation_extends_trans [OF obligation_extends_draws obligation_extends_draws] by (simp add: d1 d2)
  then have "obligation_extends db db'"
    using s1 row(2) obligation_extends_trans by blast
  ultimately show ?thesis using row(1) by (simp add: obligation_inv_base)
qed

lemma get_obligation_row:
  assumes "get_obligation db oid = Inr s"
  obtains r where "find_obligation db (strip oid) = Some r" "ob_id s = ob_id r" "ob_song_id s = ob_song_id r"
    "ob_trigger_ref s = ob_trigger_ref r" "ob_due_on s = ob_due_on r"
    "mapE (read_obligation_event db) (obligation_events db (ob_id r)) = Inr (os_events s)"
    "mapE (read_obligation_trigger db) (obligation_triggers db (ob_id r)) = Inr (os_trigger_events s)"
  using assms unfolding get_obligation_def
  by (auto simp: obligation_row.defs obligation_snapshot.defs elim!: bindE_InrE split: option.splits)

lemma record_trigger_Inr:
  assumes "record_trigger oid cid note db = Inr (s, db')" and "obligation_inv db"
  shows "obligation_inv db' \<and> obligation_extends db db' \<and> db_obligation_events db' = db_obligation_events db"
proof -
  obtain tid db1 where id: "new_id ''oblt'' db = (tid, db1)" by (cases "new_id ''oblt'' db") auto
  note d1 = new_id_draws [OF id]
  have base: "ob_base db" "all_opened db" and ev: "ev_inv db"
    using assms(2) by (simp_all add: obligation_inv_base) (simp add: ob_base_def people_inv_def)
  from assms(1) obtain cur :: obligation_snapshot and source n where src: "obligation_claim db cid (ob_song_id cur) = Inr source"
    and ins: "insert_obligation_trigger tid (ob_id cur) (ec_id source) n db1 = Inr db'"
    unfolding record_trigger_def id Let_def prod.case by (elim bindE_InrE) auto
  obtain c where c: "c \<in> set (db_evidence_claims db)" "source = row_claim c" "has_provenance (row_claim c)"
    using src ev by (rule obligation_claim_Inr)
  have s: "ob_base db' \<and> obligation_extends db1 db' \<and> db_obligations db' = db_obligations db1
    \<and> db_obligation_events db' = db_obligation_events db1"
    by (rule insert_obligation_trigger_step [OF _ _ _ c(3), of tid "ob_id cur" n db1 db'])
      (use ins base c(1) in \<open>simp_all add: c(2) d1\<close>)
  then have "obligation_extends db db'"
    using obligation_extends_trans [OF obligation_extends_draws] unfolding d1 by blast
  then show ?thesis
    using s base by (simp add: obligation_inv_base all_opened_def obligation_events_def d1)
qed

lemma transition_Inr:
  assumes "transition_obligation oid status cid note db = Inr (s, db')" and "obligation_inv db"
  shows "obligation_inv db' \<and> obligation_extends db db'"
proof -
  obtain eid db1 where id: "new_id ''oble'' db = (eid, db1)" by (cases "new_id ''oble'' db") auto
  note d1 = new_id_draws [OF id]
  have base: "ob_base db" "all_opened db" and ev: "ev_inv db"
    using assms(2) by (simp_all add: obligation_inv_base) (simp add: ob_base_def people_inv_def)
  from assms(1) obtain cur :: obligation_snapshot and st source n where src: "obligation_claim db cid (ob_song_id cur) = Inr source"
    and ins: "insert_obligation_event eid (ob_id cur) st (ec_id source) (Some n) db1 = Inr db'"
    unfolding transition_obligation_def id Let_def prod.case by (elim bindE_InrE) auto
  obtain c where c: "c \<in> set (db_evidence_claims db)" "source = row_claim c" "has_provenance (row_claim c)"
    using src ev by (rule obligation_claim_Inr)
  obtain row where row: "ob_base db'" "obligation_extends db1 db'" "db_obligations db' = db_obligations db1"
    "db_obligation_events db' = db_obligation_events db1 @ [row]"
    by (rule insert_obligation_event_step [OF _ _ _ c(3), of eid "ob_id cur" st "Some n" db1 db'])
      (use ins base c(1) in \<open>simp_all add: c(2) d1\<close>)
  have "all_opened db'" using base(2) row(3,4) by (auto simp: all_opened_def obligation_events_def d1)
  moreover have "obligation_extends db db'"
    using row(2) obligation_extends_trans [OF obligation_extends_draws] unfolding d1 by blast
  ultimately show ?thesis using row(1) by (simp add: obligation_inv_base)
qed

subsection \<open>The memory of obligations as a machine\<close>

definition obligation_holds :: "'a obligation_db_scheme \<Rightarrow> bool" where
  "obligation_holds db \<longleftrightarrow> db_metadata db ''obligation_schema_version'' = Some ''1''
     \<and> obligation_tables_ok db (db_obligations db) (db_obligation_events db) (db_obligation_triggers db)
     \<and> all_opened db"

lemma obligation_inv_holds: "obligation_inv db \<longleftrightarrow> people_inv db \<and> obligation_holds db"
  by (auto simp: obligation_inv_def obligation_holds_def all_opened_def)

interpretation obligation_store: people_store obligation_holds
proof unfold_locales
  fix db db' :: "'a obligation_db_scheme"
  assume x: "people_extends db db'" and m: "people_db.more db' = people_db.more db" and h: "obligation_holds db"
  have "obligation_tables_ok db' (db_obligations db) (db_obligation_events db) (db_obligation_triggers db)"
    by (rule obligation_tables_mono [OF x]) (use h in \<open>simp add: obligation_holds_def\<close>)
  moreover have "db_metadata db' ''obligation_schema_version'' = db_metadata db ''obligation_schema_version''"
    using x by (simp add: people_extends_def ev_extends_def)
  ultimately show "obligation_holds db'"
    using h more_obligations [OF m] by (simp add: obligation_holds_def all_opened_def obligation_events_def)
qed

datatype obligation_cmd =
    Obligation_People people_cmd
  | Create_Obligation string string string string string "string option" "string option" "string option"
      "string option" "string option"
  | Record_Trigger string string string
  | Transition_Obligation string string string string

fun exec_obligation :: "obligation_cmd \<Rightarrow> 'a obligation_db_scheme \<Rightarrow> 'a obligation_db_scheme res" where
  "exec_obligation (Obligation_People c) db = exec_people c db"
| "exec_obligation (Create_Obligation person kind resp summary claim song followup due trig consequence) db =
     map_sum id snd
       (create_obligation person kind resp summary claim song followup due trig consequence db)"
| "exec_obligation (Record_Trigger oid claim note) db = map_sum id snd (record_trigger oid claim note db)"
| "exec_obligation (Transition_Obligation oid status claim note) db =
     map_sum id snd (transition_obligation oid status claim note db)"

lemma exec_obligation_inv:
  assumes "exec_obligation c db = Inr db'" and "obligation_inv db"
  shows "obligation_inv db' \<and> obligation_extends db db'"
proof (cases c)
  case (Obligation_People p)
  with assms(1) have x: "exec_people p db = Inr db'" by simp
  show ?thesis
    using obligation_store.people_step [OF x] assms(2) more_obligations [of db' db]
    by (auto simp: obligation_inv_holds obligation_extends_def)
next
  case (Create_Obligation person kind resp summary claim song followup due trig consequence)
  with assms show ?thesis by (auto simp: map_sum_snd_Inr dest: create_obligation_inv)
next
  case (Record_Trigger oid claim msg)
  with assms show ?thesis by (auto simp: map_sum_snd_Inr dest: record_trigger_Inr)
next
  case (Transition_Obligation oid status claim msg)
  with assms show ?thesis by (auto simp: map_sum_snd_Inr dest: transition_Inr)
qed

interpretation obligation_machine: logged_machine exec_obligation obligation_inv db_obligation_events
  by unfold_locales (auto simp: obligation_extends_def dest: exec_obligation_inv)

interpretation obligation_rows: logged_machine exec_obligation obligation_inv db_obligations
  by unfold_locales (auto simp: obligation_extends_def dest: exec_obligation_inv)

lemma obligation_run_extends:
  "obligation_inv db \<Longrightarrow> obligation_extends db (run_cmds exec_obligation cs db)"
proof (induction cs arbitrary: db)
  case (Cons c cs)
  then show ?case
    using exec_obligation_inv obligation_extends_trans by (cases "exec_obligation c db") fastforce+
qed simp

lemma install_obligations_inv: "people_inv db \<Longrightarrow> obligation_inv (install_obligations db)"
  unfolding obligation_inv_def install_obligations_def extend_people_inv
  by (simp add: schema_version_people_inv people_db.defs obligation_db.defs obligation_tables_ok_def)

definition obligation_reachable :: "obligation_db \<Rightarrow> bool" where
  "obligation_reachable db \<longleftrightarrow> (\<exists>random name db0 cs. hex_stream random \<and> create_profile random name = Inr db0
     \<and> db = run_cmds exec_obligation cs (install_obligations (install_people (install_evidence db0))))"

lemma obligation_reachable_inv: "obligation_reachable db \<Longrightarrow> obligation_inv db"
  unfolding obligation_reachable_def
  using obligation_machine.run_inv install_obligations_inv created_people_inv by blast

lemma obligation_reachable_run:
  "obligation_reachable db \<Longrightarrow> obligation_reachable (run_cmds exec_obligation cs db)"
  unfolding obligation_reachable_def using run_cmds_append by metis

subsection \<open>Reading never fails\<close>

lemma get_claim_row:
  assumes "ev_inv db" and "c \<in> set (db_evidence_claims db)"
  shows "get_claim db (er_id c) = Inr (Some (row_claim c))"
proof -
  have "find_claim db (er_id c) = Some c"
    by (rule find_claim_row) (use assms in \<open>simp_all add: ev_inv_def\<close>)
  moreover have "claim_from_row c = Inr (row_claim c)"
    using assms by (auto simp: claim_from_row_Inr ev_inv_def list_all_iff dest!: claim_ok_loads bspec)
  ultimately show ?thesis by (simp add: get_claim_def)
qed

text \<open>What the triggers admit in SQL is what the service admits in Python.\<close>

lemma version_row:
  assumes "ev_inv db" and "v \<in> set (db_versions db)"
  shows "get_version db (ve_id v) = Some v"
proof -
  have "inj_on ve_id (set (db_versions db))"
    using assms(1) by (simp add: ev_inv_def lineage_inv_def core_ok_def versions_ok_def distinct_map)
  moreover obtain u where u: "get_version db (ve_id v) = Some u"
    using assms(2) by (cases "get_version db (ve_id v)") (auto simp: get_version_def find_None_iff)
  moreover from u have "u \<in> set (db_versions db)" "ve_id u = ve_id v"
    by (auto simp: get_version_def find_Some_iff in_set_conv_nth)
  ultimately show ?thesis using assms(2) by (auto dest: inj_onD)
qed

lemma claim_compatible_iff:
  assumes "ev_inv db" and "primary_artist_id db = Inr artist"
  shows "claim_compatible db (row_claim c) song = Inr (scope_match db c artist song)"
proof (cases "er_scope_kind c = SCOPE_VERSION \<and> song \<noteq> None")
  case True
  then obtain sid where s: "song = Some sid" by blast
  have "list_ex (\<lambda>v. ve_id v = er_scope_id c \<and> ve_song_id v = sid) (db_versions db)
    \<longleftrightarrow> (\<exists>v. get_version db (er_scope_id c) = Some v \<and> ve_song_id v = sid)"
    using version_row [OF assms(1)] unfolding list_ex_iff
    by (metis (mono_tags, lifting) find_Some_iff get_version_def nth_mem)
  then show ?thesis using True s
    by (auto simp: claim_compatible_def scope_match_def simp del: get_version_None split: option.splits)
next
  case False
  then show ?thesis using assms(2)
    by (cases "er_scope_kind c"; cases song) (auto simp: claim_compatible_def scope_match_def)
qed

lemma claim_current_total:
  assumes "ev_inv db" and "c \<in> set (db_evidence_claims db)"
  shows "claim_current db (row_claim c) = Inr (er_id c \<in> er_id ` set
    (active_for db (er_scope_kind c) (er_scope_id c) (er_key c)))"
proof -
  have ok: "claim_ok db c" using assms by (simp add: ev_inv_def list_all_iff)
  then have "active_claims (scope_kind_name (er_scope_kind c)) (er_scope_id c) (er_key c) db
      = Inr (map row_claim (active_for db (er_scope_kind c) (er_scope_id c) (strip (er_key c))))"
    by (intro active_claims_name [OF assms(1)]) (auto simp: claim_ok_def strip_trimmed trimmed_nonempty)
  moreover have "strip (er_key c) = er_key c" using ok by (simp add: claim_ok_def strip_trimmed)
  ultimately show ?thesis by (simp add: claim_current_def image_image)
qed

definition cited_claim :: "'a evidence_db_scheme \<Rightarrow> string \<Rightarrow> evidence_claim" where
  "cited_claim db cid = row_claim (the (find_claim db cid))"

lemma cites_reads:
  assumes "people_inv db" and "cites db r cid" and "primary_artist_id db = Inr (ob_artist_id r)"
  shows "get_claim db cid = Inr (Some (cited_claim db cid)) \<and> ec_id (cited_claim db cid) = cid
    \<and> claim_compatible db (cited_claim db cid) (ob_song_id r) = Inr True
    \<and> (\<exists>b. claim_current db (cited_claim db cid) = Inr b)"
proof -
  have ev: "ev_inv db" using assms(1) by (simp add: people_inv_def)
  obtain c where c: "c \<in> set (db_evidence_claims db)" "er_id c = cid"
    "scope_match db c (ob_artist_id r) (ob_song_id r)" using assms(2) by (auto simp: cites_def)
  have "find_claim db cid = Some c"
    using find_claim_row [OF _ c(1)] ev c(2) by (simp add: ev_inv_def)
  then have e: "cited_claim db cid = row_claim c" by (simp add: cited_claim_def)
  show ?thesis unfolding e
    using get_claim_row [OF ev c(1)] claim_current_total [OF ev c(1)] claim_compatible_iff [OF ev assms(3), of c] c(2,3)
    by simp
qed

definition event_read :: "'a evidence_db_scheme \<Rightarrow> obligation_event_row \<Rightarrow> obligation_event" where
  "event_read db e = obligation_event_row.extend e (obligation_event.fields
     (ec_source_kind (cited_claim db (obe_evidence_claim_id e)))
     (ec_source_ref (cited_claim db (obe_evidence_claim_id e))))"

definition trigger_read :: "'a evidence_db_scheme \<Rightarrow> obligation_trigger_row \<Rightarrow> obligation_trigger_event" where
  "trigger_read db t = obligation_trigger_row.extend t (obligation_trigger_event.fields
     (ec_source_kind (cited_claim db (obt_evidence_claim_id t)))
     (ec_source_ref (cited_claim db (obt_evidence_claim_id t))))"

lemma event_read_simps [simp]:
  "obe_status (event_read db e) = obe_status e"
  "obe_evidence_claim_id (event_read db e) = obe_evidence_claim_id e"
  "obt_evidence_claim_id (trigger_read db t) = obt_evidence_claim_id t"
  by (simp_all add: event_read_def trigger_read_def obligation_event_row.defs obligation_trigger_row.defs)

lemma obligation_rowD:
  assumes "obligation_inv db" and "r \<in> set (db_obligations db)"
  shows "obligation_ok db r" and "obligation_events db (ob_id r) \<noteq> []"
    and "find_obligation db (ob_id r) = Some r"
    and "\<And>e. e \<in> set (obligation_events db (ob_id r)) \<Longrightarrow> cites db r (obe_evidence_claim_id e)"
    and "\<And>t. t \<in> set (obligation_triggers db (ob_id r))
      \<Longrightarrow> cites db r (obt_evidence_claim_id t) \<and> ob_trigger_ref r \<noteq> None"
    and "lifecycle None (map obe_status (obligation_events db (ob_id r)))"
proof -
  have base: "ob_base db" using assms(1) by (simp add: obligation_inv_base)
  then have t: "obligation_tables_ok db (db_obligations db) (db_obligation_events db) (db_obligation_triggers db)"
    by (simp add: ob_base_def)
  show "obligation_ok db r" using t assms(2) by (simp add: obligation_tables_ok_def list_all_iff)
  show "obligation_events db (ob_id r) \<noteq> []" using assms by (simp add: obligation_inv_def)
  show "find_obligation db (ob_id r) = Some r" by (rule find_obligation_row [OF base assms(2)])
  have inj: "q = r" if "q \<in> set (db_obligations db)" "ob_id q = ob_id r" for q
    using t that assms(2) by (auto simp: obligation_tables_ok_def distinct_map dest: inj_onD)
  show "cites db r (obe_evidence_claim_id e)" if "e \<in> set (obligation_events db (ob_id r))" for e
  proof -
    from that have "e \<in> set (db_obligation_events db)" and e: "obe_obligation_id e = ob_id r"
      by (simp_all add: obligation_events_def)
    then obtain q where "q \<in> set (db_obligations db)" "ob_id q = ob_id r" "cites db q (obe_evidence_claim_id e)"
      using t unfolding obligation_tables_ok_def by metis
    then show ?thesis using inj by blast
  qed
  show "cites db r (obt_evidence_claim_id u) \<and> ob_trigger_ref r \<noteq> None"
    if "u \<in> set (obligation_triggers db (ob_id r))" for u
  proof -
    from that have "u \<in> set (db_obligation_triggers db)" and u: "obt_obligation_id u = ob_id r"
      by (simp_all add: obligation_triggers_def)
    then obtain q where "q \<in> set (db_obligations db)" "ob_id q = ob_id r" "cites db q (obt_evidence_claim_id u)"
      "ob_trigger_ref q \<noteq> None"
      using t unfolding obligation_tables_ok_def by metis
    then show ?thesis using inj by blast
  qed
  show "lifecycle None (map obe_status (obligation_events db (ob_id r)))"
    using t by (simp add: obligation_tables_ok_def obligation_events_def)
qed

lemma row_cites_reads:
  assumes "obligation_inv db" and "r \<in> set (db_obligations db)" and "cites db r cid"
  shows "get_claim db cid = Inr (Some (cited_claim db cid)) \<and> ec_id (cited_claim db cid) = cid
    \<and> claim_compatible db (cited_claim db cid) (ob_song_id r) = Inr True
    \<and> (\<exists>b. claim_current db (cited_claim db cid) = Inr b)"
  by (rule cites_reads [OF _ assms(3)])
    (use assms(1) obligation_rowD(1) [OF assms(1,2)] in \<open>simp_all add: obligation_inv_def obligation_ok_def\<close>)

lemma events_read:
  assumes "obligation_inv db" and "r \<in> set (db_obligations db)"
  shows "mapE (read_obligation_event db) (obligation_events db (ob_id r))
    = Inr (map (event_read db) (obligation_events db (ob_id r)))"
proof (rule mapE_total)
  fix e assume "e \<in> set (obligation_events db (ob_id r))"
  then have "cites db r (obe_evidence_claim_id e)" by (rule obligation_rowD(4) [OF assms])
  then show "read_obligation_event db e = Inr (event_read db e)"
    using row_cites_reads [OF assms] by (cases e) (simp add: read_obligation_event_def event_read_def)
qed

lemma triggers_read:
  assumes "obligation_inv db" and "r \<in> set (db_obligations db)"
  shows "mapE (read_obligation_trigger db) (obligation_triggers db (ob_id r))
    = Inr (map (trigger_read db) (obligation_triggers db (ob_id r)))"
proof (rule mapE_total)
  fix t assume "t \<in> set (obligation_triggers db (ob_id r))"
  then have "cites db r (obt_evidence_claim_id t)" using obligation_rowD(5) [OF assms] by blast
  then show "read_obligation_trigger db t = Inr (trigger_read db t)"
    using row_cites_reads [OF assms] by (cases t) (simp add: read_obligation_trigger_def trigger_read_def)
qed

lemma obligation_person_total:
  assumes "people_inv db" and "trimmed pid" and "pid \<in> pn_id ` set (db_people db)"
  shows "\<exists>p. obligation_person db pid = Inr p \<and> pn_id p = pid"
proof -
  from assms(3) obtain p where p: "p \<in> set (db_people db)" "pn_id p = pid" by blast
  have "get_person db (strip pid) = Some p"
    by (rule get_person_row [OF assms(1) p(1)]) (use assms(2) p(2) in \<open>simp add: strip_trimmed\<close>)
  moreover have "primary_artist_id db = Inr (pn_artist_id p)"
    using assms(1) p(1) unfolding people_inv_def list_all_iff person_ok_def by blast
  ultimately show ?thesis using p(2) by (simp add: obligation_person_def guardE_def)
qed

lemma linked_followup_total:
  assumes "people_inv db" and "pred_option (\<lambda>f. trimmed f \<and> f \<in> fu_id ` set (db_followups db)) fid"
  shows "\<exists>st. linked_followup_state db fid = Inr st"
proof (cases fid)
  case (Some f)
  then obtain g where g: "g \<in> set (db_followups db)" "fu_id g = f" and "trimmed f" using assms(2) by auto
  then have "get_followup db f = Some g" by (intro get_followup_row [OF assms(1)]) (simp_all add: strip_trimmed)
  with Some show ?thesis by (simp add: linked_followup_state_def)
qed (simp add: linked_followup_state_def)

lemma lifecycle_opens: "lifecycle None ss \<Longrightarrow> ss \<noteq> [] \<Longrightarrow> hd ss = OBL_OPEN"
  by (cases ss) (auto simp: obl_step_simps)

text \<open>The snapshot of a row.\<close>

definition snapshot_of :: "'a obligation_db_scheme \<Rightarrow> obligation_row \<Rightarrow> obligation_snapshot \<Rightarrow> bool" where
  "snapshot_of db r s \<longleftrightarrow> ob_id s = ob_id r \<and> ob_artist_id s = ob_artist_id r \<and> ob_song_id s = ob_song_id r
     \<and> ob_trigger_ref s = ob_trigger_ref r \<and> ob_due_on s = ob_due_on r
     \<and> ob_source_claim_id s = ob_source_claim_id r
     \<and> os_events s = map (event_read db) (obligation_events db (ob_id r))
     \<and> os_trigger_events s = map (trigger_read db) (obligation_triggers db (ob_id r))"

lemma get_obligation_total:
  assumes "obligation_inv db" and "r \<in> set (db_obligations db)"
  obtains s where "get_obligation db (ob_id r) = Inr s" "snapshot_of db r s"
proof -
  have ppl: "people_inv db" using assms(1) by (simp add: obligation_inv_def)
  note row = obligation_rowD [OF assms]
  have ok: "trimmed (ob_id r)" "primary_artist_id db = Inr (ob_artist_id r)" "cites db r (ob_source_claim_id r)"
    "trimmed (ob_person_id r)" "ob_person_id r \<in> pn_id ` set (db_people db)"
    "pred_option (\<lambda>f. trimmed f \<and> f \<in> fu_id ` set (db_followups db)) (ob_followup_id r)"
    using row(1) by (simp_all add: obligation_ok_def)
  obtain p where p: "obligation_person db (ob_person_id r) = Inr p" "pn_id p = ob_person_id r"
    using obligation_person_total [OF ppl ok(4,5)] by blast
  obtain st where st: "linked_followup_state db (ob_followup_id r) = Inr st"
    using linked_followup_total [OF ppl ok(6)] by blast
  let ?c = "cited_claim db (ob_source_claim_id r)"
  obtain b where c: "get_claim db (ob_source_claim_id r) = Inr (Some ?c)" "ec_id ?c = ob_source_claim_id r"
    "claim_compatible db ?c (ob_song_id r) = Inr True" "claim_current db ?c = Inr b"
    using row_cites_reads [OF assms ok(3)] by blast
  have "hd (map obe_status (obligation_events db (ob_id r))) = OBL_OPEN"
    by (rule lifecycle_opens [OF row(6)]) (use row(2) in simp)
  then have "obe_status (hd (map (event_read db) (obligation_events db (ob_id r)))) = OBL_OPEN"
    using row(2) by (simp add: hd_map)
  then show ?thesis
    using that row(2,3) ok p st c events_read [OF assms] triggers_read [OF assms]
    by (simp add: get_obligation_def strip_trimmed guardE_def snapshot_of_def
        obligation_row.defs obligation_snapshot.defs)
qed

lemma get_obligation_snapshot:
  assumes "get_obligation db oid = Inr s" and "obligation_inv db"
  obtains r where "r \<in> set (db_obligations db)" "ob_id r = strip oid" "snapshot_of db r s"
proof -
  obtain r where r: "find_obligation db (strip oid) = Some r" using assms(1) by (rule get_obligation_row)
  have m: "r \<in> set (db_obligations db)" "ob_id r = strip oid" using find_obligation_Some [OF r] by simp_all
  have t: "strip (strip oid) = strip oid"
    using obligation_rowD(1) [OF assms(2) m(1)] m(2) by (simp add: obligation_ok_def strip_trimmed)
  obtain s' where s: "get_obligation db (ob_id r) = Inr s'" "snapshot_of db r s'"
    using get_obligation_total [OF assms(2) m(1)] by blast
  have "get_obligation db (strip oid) = get_obligation db oid" using r by (simp add: get_obligation_def t)
  then have "s' = s" using s(1) assms(1) m(2) by simp
  then show ?thesis using that m s(2) by blast
qed

lemma snapshot_status:
  assumes "snapshot_of db r s" and "obligation_inv db" and "r \<in> set (db_obligations db)"
  shows "obligation_status_of s = Inr (obe_status (last (obligation_events db (ob_id r))))"
  using assms(1) obligation_rowD(2) [OF assms(2,3)]
  by (simp add: snapshot_of_def obligation_status_of_def last_map)

lemma validate_lifecycle_ok:
  assumes "\<And>e. e \<in> set es \<Longrightarrow> claim_bound db (obe_evidence_claim_id e) song
       ''obligation lifecycle evidence binding is invalid'' = Inr ()"
    and "lifecycle prev (map obe_status es)"
  shows "validate_lifecycle db song prev es = Inr ()"
  using assms
proof (induction es arbitrary: prev)
  case (Cons e es)
  have "obl_step prev (obe_status e)" using Cons.prems(2) by simp
  moreover have "validate_lifecycle db song (Some (obe_status e)) es = Inr ()"
    by (rule Cons.IH) (use Cons.prems in simp_all)
  ultimately show ?case
    using Cons.prems(1) [of e] by (auto simp: guardE_def obl_step_simps TERMINAL_OBLIGATION_STATUSES_def)
qed simp

lemma row_claim_bound:
  assumes "obligation_inv db" and "r \<in> set (db_obligations db)" and "cites db r cid"
  shows "claim_bound db cid (ob_song_id r) msg = Inr ()"
  using row_cites_reads [OF assms] by (simp add: claim_bound_def guardE_def)

lemma obligation_later:
  assumes "obligation_inv db" and "r \<in> set (db_obligations db)"
  shows "r \<in> set (db_obligations (run_cmds exec_obligation cs db))"
    and "prefix (obligation_events db oid) (obligation_events (run_cmds exec_obligation cs db) oid)"
proof -
  have e: "obligation_extends db (run_cmds exec_obligation cs db)" by (rule obligation_run_extends [OF assms(1)])
  then show "r \<in> set (db_obligations (run_cmds exec_obligation cs db))"
    using assms(2) set_mono_prefix unfolding obligation_extends_def by blast
  from e obtain es where "db_obligation_events (run_cmds exec_obligation cs db) = db_obligation_events db @ es"
    unfolding obligation_extends_def prefix_def by blast
  then show "prefix (obligation_events db oid) (obligation_events (run_cmds exec_obligation cs db) oid)"
    by (simp add: obligation_events_def)
qed

lemma closed_events_kept:
  assumes "prefix es fs" and "es \<noteq> []" and "lifecycle None (map obe_status fs)"
    and "obe_status (last es) \<in> set TERMINAL_OBLIGATION_STATUSES"
  shows "fs = es"
proof (rule ccontr)
  assume "fs \<noteq> es"
  with assms(1) obtain gs where g: "fs = es @ gs" "gs \<noteq> []" by (auto simp: prefix_def)
  let ?i = "length es - 1"
  have "map obe_status fs ! ?i = obe_status (last es)"
    using assms(2) g(1) by (simp add: last_conv_nth nth_append)
  moreover have "?i + 1 < length (map obe_status fs)" using assms(2) g by (cases es; cases gs) simp_all
  ultimately show False using lifecycle_live [OF assms(3)] assms(4) by metis
qed

lemma transition_result:
  assumes "transition_obligation oid status cid note db = Inr (s, db')" and "obligation_inv db"
  shows "obligation_inv db' \<and> (\<exists>oid'. get_obligation db' oid' = Inr s)"
  using transition_Inr [OF assms] assms(1) unfolding transition_obligation_def Let_def
  by (auto elim!: bindE_InrE split: prod.splits)

lemma closed_obligation_refuses:
  assumes "get_obligation db oid = Inr s" and "obligation_terminal s = Inr True"
  shows "transition_obligation oid status cid note db
      = (case obligation_enum status ''obligation status'' OBLIGATION_STATUSES of
           Inl e \<Rightarrow> Inl e
         | Inr _ \<Rightarrow> Inl (Raise ValidationError ''terminal obligation lifecycle is immutable''))"
    and "record_trigger oid cid note db
      = Inl (Raise ValidationError (if ob_trigger_ref s = None then ''obligation has no explicit trigger to observe''
           else ''terminal obligation cannot receive trigger evidence''))"
  using assms
  by (simp_all add: transition_obligation_def record_trigger_def guardE_def split: sum.splits)

subsection \<open>Properties\<close>

text \<open>
  C21. A reachable obligation can always be read, and its history is a path of the lifecycle: it was
  opened, moves between open, blocked and disputed, reopens only from these two, and is closed at most
  once, as its last event.
\<close>

theorem obligation_history_is_lifecycle:
  assumes "obligation_reachable db" and "r \<in> set (db_obligations db)"
  shows "\<exists>s. get_obligation db (ob_id r) = Inr s \<and> os_events s \<noteq> []
    \<and> lifecycle None (map obe_status (os_events s))
    \<and> (\<forall>i. i + 1 < length (os_events s)
          \<longrightarrow> obe_status (os_events s ! i) \<notin> set TERMINAL_OBLIGATION_STATUSES)"
proof -
  have inv: "obligation_inv db" by (rule obligation_reachable_inv [OF assms(1)])
  obtain s where s: "get_obligation db (ob_id r) = Inr s" "snapshot_of db r s"
    by (rule get_obligation_total [OF inv assms(2)])
  have m: "map obe_status (os_events s) = map obe_status (obligation_events db (ob_id r))"
    using s(2) by (simp add: snapshot_of_def)
  then have l: "lifecycle None (map obe_status (os_events s))" using obligation_rowD(6) [OF inv assms(2)] by simp
  have "os_events s \<noteq> []" using m obligation_rowD(2) [OF inv assms(2)] by auto
  moreover have "obe_status (os_events s ! i) \<notin> set TERMINAL_OBLIGATION_STATUSES" if "i + 1 < length (os_events s)" for i
    using lifecycle_live [OF l, of i] that by simp
  ultimately show ?thesis using s(1) l by blast
qed

text \<open>
  C20. Nothing in an obligation is unsupported: its source, each of its lifecycle events and each trigger
  observation cites a stored claim that is in scope for its artist and song and has the provenance its
  kind of source requires.
\<close>

theorem obligation_is_evidenced:
  assumes "obligation_reachable db" and "r \<in> set (db_obligations db)"
    and "cid \<in> insert (ob_source_claim_id r) (obe_evidence_claim_id ` set (obligation_events db (ob_id r))
           \<union> obt_evidence_claim_id ` set (obligation_triggers db (ob_id r)))"
  shows "\<exists>c. get_claim db cid = Inr (Some c) \<and> ec_id c = cid
    \<and> claim_compatible db c (ob_song_id r) = Inr True \<and> has_provenance c"
proof -
  have inv: "obligation_inv db" by (rule obligation_reachable_inv [OF assms(1)])
  note row = obligation_rowD [OF inv assms(2)]
  have "cites db r cid" using assms(3) row(1,4,5) by (auto simp: obligation_ok_def)
  then obtain c where c: "c \<in> set (db_evidence_claims db)" "er_id c = cid" "has_provenance (row_claim c)"
    unfolding cites_def by blast
  have "get_claim db cid = Inr (Some (row_claim c))"
    using get_claim_row [OF _ c(1)] inv c(2) by (simp add: obligation_inv_def people_inv_def)
  then show ?thesis using row_cites_reads [OF inv assms(2) \<open>cites db r cid\<close>] c(2,3) by auto
qed

text \<open>
  C22. Closing is final: once a transition has satisfied, waived or canceled an obligation, whatever
  happens next its events are the same, it is due no more, and every later transition and trigger
  observation fails, with the error given here.
\<close>

theorem closed_obligation_is_final:
  assumes "obligation_reachable db" and "transition_obligation oid status cid note db = Inr (s, db')"
    and "obligation_terminal s = Inr True" and "db2 = run_cmds exec_obligation cs db'"
  shows "\<exists>s2. get_obligation db2 (ob_id s) = Inr s2
    \<and> map obe_id (os_events s2) = map obe_id (os_events s) \<and> due_state_of s2 as_of = Inr DUE_CLOSED
    \<and> transition_obligation (ob_id s) status' cid' note' db2
       = (case obligation_enum status' ''obligation status'' OBLIGATION_STATUSES of
           Inl e \<Rightarrow> Inl e
         | Inr _ \<Rightarrow> Inl (Raise ValidationError ''terminal obligation lifecycle is immutable''))
    \<and> isl (record_trigger (ob_id s) cid' note' db2)"
proof -
  have inv: "obligation_inv db'" and "\<exists>oid'. get_obligation db' oid' = Inr s"
    using transition_result [OF assms(2) obligation_reachable_inv [OF assms(1)]] by blast+
  then obtain r where r: "r \<in> set (db_obligations db')" "snapshot_of db' r s"
    using get_obligation_snapshot by metis
  have inv2: "obligation_inv db2" unfolding assms(4) by (rule obligation_machine.run_inv [OF inv])
  have r2: "r \<in> set (db_obligations db2)" and p: "prefix (obligation_events db' (ob_id r)) (obligation_events db2 (ob_id r))"
    using obligation_later [OF inv r(1)] assms(4) by blast+
  have same: "obligation_events db2 (ob_id r) = obligation_events db' (ob_id r)"
    by (rule closed_events_kept [OF p obligation_rowD(2) [OF inv r(1)] obligation_rowD(6) [OF inv2 r2]])
      (use assms(3) snapshot_status [OF r(2) inv r(1)] in \<open>simp add: obligation_terminal_def\<close>)
  obtain s2 where s2: "get_obligation db2 (ob_id r) = Inr s2" "snapshot_of db2 r s2"
    by (rule get_obligation_total [OF inv2 r2])
  have "obligation_status_of s2 = obligation_status_of s"
    using snapshot_status [OF s2(2) inv2 r2] snapshot_status [OF r(2) inv r(1)] same by simp
  then have t: "obligation_terminal s2 = Inr True" using assms(3) by (simp add: obligation_terminal_def)
  have "ob_id s = ob_id r" and "map obe_id (os_events s2) = map obe_id (os_events s)"
    using r(2) s2(2) same by (simp_all add: snapshot_of_def event_read_def obligation_event_row.defs)
  then show ?thesis
    using s2(1) t closed_obligation_refuses [OF s2(1) t] by (simp add: due_state_of_def)
qed

text \<open>
  Every memory of obligations the code can reach re-opens: the validation on opening accepts it.
\<close>

theorem reachable_obligations_validate:
  assumes "obligation_reachable db"
  shows "validate_obligations db = Inr ()"
proof -
  have inv: "obligation_inv db" by (rule obligation_reachable_inv [OF assms])
  define check where "check oid = bindE (get_obligation db oid) (\<lambda>s.
          bindE (normalize_due_on (ob_due_on s)) (\<lambda>_.
          bindE (validate_lifecycle db (ob_song_id s) None (os_events s)) (\<lambda>_.
          bindE (mapE (validate_trigger_event db s) (os_trigger_events s)) (\<lambda>_. Inr ()))))" for oid
  have "check (ob_id r) = Inr ()" if r: "r \<in> set (db_obligations db)" for r
  proof -
    obtain s where s: "get_obligation db (ob_id r) = Inr s" "snapshot_of db r s"
      by (rule get_obligation_total [OF inv r])
    note row = obligation_rowD [OF inv r] and snap = s(2) [unfolded snapshot_of_def]
    have due: "normalize_due_on (ob_due_on r) = Inr (ob_due_on r)"
      using row(1) due_reads_back by (cases "ob_due_on r") (auto simp: obligation_ok_def normalize_due_on_def)
    have "validate_lifecycle db (ob_song_id r) None (os_events s) = Inr ()"
      by (rule validate_lifecycle_ok)
        (use row(4,6) row_claim_bound [OF inv r] snap in \<open>auto simp: comp_def\<close>)
    moreover have "validate_trigger_event db s t = Inr ()" if "t \<in> set (os_trigger_events s)" for t
      using that snap row(5) row_claim_bound [OF inv r] by (auto simp: validate_trigger_event_def guardE_def)
    then have "mapE (validate_trigger_event db s) (os_trigger_events s) = Inr (map (\<lambda>_. ()) (os_trigger_events s))"
      by (rule mapE_total)
    ultimately show ?thesis using s(1) snap due by (simp add: check_def)
  qed
  then have "mapE check (map ob_id (db_obligations db)) = Inr (map (\<lambda>_. ()) (map ob_id (db_obligations db)))"
    by (intro mapE_total) auto
  then show ?thesis
    using inv by (simp add: validate_obligations_def as_corruption_def obligation_inv_def guardE_def check_def [abs_def])
qed

text \<open>Stems promised once the mix is approved: blocked, triggered, then satisfied.\<close>

definition demo_promise :: obligation_db where
  "demo_promise = run_cmds exec_obligation
     [Obligation_People (People_Evidence (Evidence_Lineage (Create_Song ''Dawn''))),
      Obligation_People (People_Evidence (tempo_claim 120)),
      Obligation_People (Create_Person ''Bo  Lee'' (Some ''mixer'')),
      Create_Obligation ''person_aaaaaaaaa'' ''deliverable'' ''artist-owes'' ''send stems'' ''claim_aaaaaaa''
        (Some ''song_aaaa'') None None (Some ''mix approved'') None,
      Transition_Obligation ''obl_aaaaaaaaaaa'' ''blocked'' ''claim_aaaaaaa'' ''no disk'',
      Record_Trigger ''obl_aaaaaaaaaaa'' ''claim_aaaaaaa'' ''approved in the room'']
     (install_obligations (install_people (install_evidence demo_profile)))"

lemma demo_promise_reachable: "obligation_reachable demo_promise"
  unfolding obligation_reachable_def demo_promise_def using demo_profile_created demo_hex by blast

definition promise_summary :: "obligation_db \<Rightarrow> string list \<times> obligation_status list \<times> string list" where
  "promise_summary db = (map ob_id (db_obligations db), map obe_status (db_obligation_events db),
     map obt_evidence_claim_id (db_obligation_triggers db))"

lemma demo_promise_summary:
  "promise_summary demo_promise = ([''obl_aaaaaaaaaaa''], [OBL_OPEN, OBL_BLOCKED], [''claim_aaaaaaa''])"
  by code_simp

definition demo_transition :: "(obligation_snapshot \<times> obligation_db) res" where
  "demo_transition =
     transition_obligation ''obl_aaaaaaaaaaa'' ''satisfied'' ''claim_aaaaaaa'' ''sent'' demo_promise"

definition demo_kept :: "obligation_snapshot \<times> obligation_db" where
  "demo_kept = (case demo_transition of Inr x \<Rightarrow> x | Inl _ \<Rightarrow> undefined)"

lemma demo_terminal: "map_sum id (\<lambda>x. obligation_terminal (fst x)) demo_transition = Inr (Inr True)"
  by code_simp

lemma demo_keeps:
  "transition_obligation ''obl_aaaaaaaaaaa'' ''satisfied'' ''claim_aaaaaaa'' ''sent'' demo_promise
     = Inr (fst demo_kept, snd demo_kept)"
  and demo_kept_terminal: "obligation_terminal (fst demo_kept) = Inr True"
  using demo_terminal by (auto simp: demo_kept_def demo_transition_def split: sum.splits)

theorem obligation_history_is_lifecycle_witness:
  "db_obligations demo_promise \<noteq> [] \<and> (\<exists>s. get_obligation demo_promise (ob_id (hd (db_obligations demo_promise))) = Inr s
     \<and> lifecycle None (map obe_status (os_events s)))"
proof
  show n: "db_obligations demo_promise \<noteq> []" using demo_promise_summary by (auto simp: promise_summary_def)
  show "\<exists>s. get_obligation demo_promise (ob_id (hd (db_obligations demo_promise))) = Inr s
     \<and> lifecycle None (map obe_status (os_events s))"
    using obligation_history_is_lifecycle [OF demo_promise_reachable hd_in_set [OF n]] by blast
qed

theorem obligation_is_evidenced_witness:
  "\<exists>c. get_claim demo_promise (ob_source_claim_id (hd (db_obligations demo_promise))) = Inr (Some c)
     \<and> has_provenance c"
proof -
  have n: "db_obligations demo_promise \<noteq> []" using demo_promise_summary by (auto simp: promise_summary_def)
  show ?thesis using obligation_is_evidenced [OF demo_promise_reachable hd_in_set [OF n] insertI1] by blast
qed

theorem closed_obligation_is_final_witness:
  "isl (record_trigger (ob_id (fst demo_kept)) ''claim_aaaaaaa'' ''again'' (snd demo_kept))
   \<and> transition_obligation (ob_id (fst demo_kept)) ''open'' ''claim_aaaaaaa'' ''again'' (snd demo_kept)
     = Inl (Raise ValidationError ''terminal obligation lifecycle is immutable'')"
proof -
  have e: "obligation_enum ''open'' ''obligation status'' OBLIGATION_STATUSES = Inr OBL_OPEN" by code_simp
  have "snd demo_kept = run_cmds exec_obligation [] (snd demo_kept)" by simp
  note closed_obligation_is_final [OF demo_promise_reachable demo_keeps demo_kept_terminal this,
      of _ "''open''" "''claim_aaaaaaa''" "''again''"]
  then show ?thesis using e by auto
qed

theorem reachable_obligations_validate_witness:
  "length (db_obligation_events demo_promise) = 2 \<and> validate_obligations demo_promise = Inr ()"
  using reachable_obligations_validate [OF demo_promise_reachable]
    arg_cong [OF demo_promise_summary, of "\<lambda>x. length (fst (snd x))"] by (simp add: promise_summary_def)

end
