(* ===== verification/Credits.thy ===== *)
theory Credits
  imports People_Facts
begin

text \<open>
  Credits and composition splits (\<open>credits.py\<close>): who is credited on a song, and who shares its composition
  in basis points. Rows, the statements with their triggers and indexes, the operations, the queries and the
  validation on opening.
\<close>

subsection \<open>Rows\<close>

datatype split_state = DRAFT | OPEN_CONFIRMATION | VOIDED
datatype confirmation_status = RECORDED_CONFIRMED | RECORDED_DISPUTED

definition CONFIRMATION_STATUSES :: "(string \<times> confirmation_status) list" where
  "CONFIRMATION_STATUSES = [(''RECORDED_CONFIRMED'', RECORDED_CONFIRMED),
     (''RECORDED_DISPUTED'', RECORDED_DISPUTED)]"

definition CREDIT_TRUTH_TYPE :: string where
  "CREDIT_TRUTH_TYPE = ''USER_DECLARED''"

record credit_entry =
  cr_seq :: nat
  cr_id :: string
  cr_artist_id :: string
  cr_song_id :: string
  cr_person_id :: string
  cr_role :: string
  cr_role_context :: "string option"
  cr_truth_type :: string

record split_sheet =
  ss_seq :: nat
  ss_id :: string
  ss_artist_id :: string
  ss_song_id :: string
  ss_state :: split_state
  ss_closure_note :: "string option"

record split_allocation =
  sa_seq :: nat
  sa_id :: string
  sa_sheet_id :: string
  sa_artist_id :: string
  sa_song_id :: string
  sa_person_id :: string
  sa_basis_points :: int

record split_confirmation =
  sc_seq :: nat
  sc_id :: string
  sc_sheet_id :: string
  sc_artist_id :: string
  sc_song_id :: string
  sc_person_id :: string
  sc_status :: confirmation_status
  sc_note :: string
  sc_truth_type :: string

text \<open>
  Allocations are deleted and written again, so the \<open>AUTOINCREMENT\<close> of their table is a counter of its
  own, \<open>db_split_allocation_seq\<close>.
\<close>

record credits_db = people_db +
  db_credits :: "credit_entry list"
  db_split_sheets :: "split_sheet list"
  db_split_allocations :: "split_allocation list"
  db_split_allocation_seq :: nat
  db_split_confirmations :: "split_confirmation list"

definition active_state :: "split_state \<Rightarrow> bool" where
  "active_state st \<longleftrightarrow> st \<in> {DRAFT, OPEN_CONFIRMATION}"

subsection \<open>Checks and queries\<close>

definition credits_song :: "'a people_db_scheme \<Rightarrow> string \<Rightarrow> song res" where
  "credits_song db song_id =
     (case get_song db (strip song_id) of
        None \<Rightarrow> Inl (Raise NotFoundError
          (''Song not found in profile '' @ store_profile_id db @ '': '' @ strip song_id))
      | Some song \<Rightarrow>
          bindE (primary_artist_id db) (\<lambda>artist.
          bindE (guardE (so_artist_id song = artist)
            (Raise ValidationError ''Song belongs to a different Artist'')) (\<lambda>_. Inr song)))"

definition credits_person :: "'a people_db_scheme \<Rightarrow> string \<Rightarrow> person res" where
  "credits_person db person_id =
     (case get_person db (strip person_id) of
        None \<Rightarrow> Inl (Raise NotFoundError
          (''person not found in profile '' @ store_profile_id db @ '': '' @ strip person_id))
      | Some p \<Rightarrow>
          bindE (primary_artist_id db) (\<lambda>artist.
          bindE (guardE (pn_artist_id p = artist)
            (Raise ValidationError ''person belongs to a different Artist'')) (\<lambda>_. Inr p)))"

definition get_credit :: "'a credits_db_scheme \<Rightarrow> string \<Rightarrow> credit_entry option" where
  "get_credit db cid = find (\<lambda>c. cr_id c = strip cid) (db_credits db)"

definition credits_for_song :: "'a credits_db_scheme \<Rightarrow> string \<Rightarrow> credit_entry list res" where
  "credits_for_song db song_id =
     bindE (credits_song db song_id) (\<lambda>song. Inr (filter (\<lambda>c. cr_song_id c = so_id song) (db_credits db)))"

definition get_split_sheet :: "'a credits_db_scheme \<Rightarrow> string \<Rightarrow> split_sheet option" where
  "get_split_sheet db sid = find (\<lambda>s. ss_id s = strip sid) (db_split_sheets db)"

definition split_history :: "'a credits_db_scheme \<Rightarrow> string \<Rightarrow> split_sheet list res" where
  "split_history db song_id =
     bindE (credits_song db song_id) (\<lambda>song.
       Inr (filter (\<lambda>s. ss_song_id s = so_id song) (db_split_sheets db)))"

definition active_split_for_song :: "'a credits_db_scheme \<Rightarrow> string \<Rightarrow> split_sheet option res" where
  "active_split_for_song db song_id =
     bindE (credits_song db song_id) (\<lambda>song.
       Inr (find (\<lambda>s. ss_song_id s = so_id song \<and> active_state (ss_state s)) (db_split_sheets db)))"

definition split_allocations :: "'a credits_db_scheme \<Rightarrow> string \<Rightarrow> split_allocation list" where
  "split_allocations db sid = filter (\<lambda>a. sa_sheet_id a = strip sid) (db_split_allocations db)"

definition total_points :: "split_allocation list \<Rightarrow> int" where
  "total_points as = sum_list (map sa_basis_points as)"

definition confirmation_history ::
  "'a credits_db_scheme \<Rightarrow> string \<Rightarrow> string option \<Rightarrow> split_confirmation list res" where
  "confirmation_history db sid person_id =
     (case person_id of
        None \<Rightarrow> Inr (filter (\<lambda>c. sc_sheet_id c = strip sid) (db_split_confirmations db))
      | Some pid \<Rightarrow> bindE (credits_person db pid) (\<lambda>p.
          Inr (filter (\<lambda>c. sc_sheet_id c = strip sid \<and> sc_person_id c = pn_id p) (db_split_confirmations db))))"

text \<open>\<open>ORDER BY seq DESC LIMIT 1\<close>.\<close>

definition latest_confirmation ::
  "'a credits_db_scheme \<Rightarrow> string \<Rightarrow> string \<Rightarrow> split_confirmation option res" where
  "latest_confirmation db sid person_id =
     bindE (credits_person db person_id) (\<lambda>p.
     let cs = filter (\<lambda>c. sc_sheet_id c = strip sid \<and> sc_person_id c = pn_id p) (db_split_confirmations db)
     in Inr (if cs = [] then None else Some (last cs)))"

text \<open>The state \<open>PENDING\<close> is \<open>None\<close>.\<close>

definition confirmation_state ::
  "'a credits_db_scheme \<Rightarrow> string \<Rightarrow> string \<Rightarrow> confirmation_status option res" where
  "confirmation_state db sid person_id =
     bindE (latest_confirmation db sid person_id) (\<lambda>latest. Inr (map_option sc_status latest))"

fun all_confirmed :: "'a credits_db_scheme \<Rightarrow> string \<Rightarrow> split_allocation list \<Rightarrow> bool res" where
  "all_confirmed db sid [] = Inr True"
| "all_confirmed db sid (a # as) =
     bindE (confirmation_state db sid (sa_person_id a)) (\<lambda>st.
     if st = Some RECORDED_CONFIRMED then all_confirmed db sid as else Inr False)"

definition all_recorded_confirmed :: "'a credits_db_scheme \<Rightarrow> string \<Rightarrow> bool res" where
  "all_recorded_confirmed db sheet_id =
     (case get_split_sheet db sheet_id of
        None \<Rightarrow> Inr False
      | Some sheet \<Rightarrow>
          if ss_state sheet \<noteq> OPEN_CONFIRMATION then Inr False
          else (let allocations = split_allocations db (ss_id sheet) in
                if allocations = [] then Inr False
                else all_confirmed db (ss_id sheet) allocations))"

subsection \<open>Statements\<close>

definition insert_credit :: "credit_entry \<Rightarrow> 'a credits_db_scheme \<Rightarrow> 'a credits_db_scheme res" where
  "insert_credit c db =
     bindE (guardE (song_of_artist db (cr_song_id c) (cr_artist_id c)
                    \<and> person_of_artist db (cr_person_id c) (cr_artist_id c))
       (integrity ''credit Artist/Song/Person binding is invalid'')) (\<lambda>_.
     bindE (guardE (\<not> sql_blank (cr_role c) \<and> pred_option (\<lambda>x. \<not> sql_blank x) (cr_role_context c)
                    \<and> cr_truth_type c = ''USER_DECLARED'')
       (integrity ''CHECK constraint failed: song_credits'')) (\<lambda>_.
     bindE (guardE (cr_id c \<notin> cr_id ` set (db_credits db))
       (integrity ''UNIQUE constraint failed: song_credits.id'')) (\<lambda>_.
     bindE (guardE (\<not> list_ex (\<lambda>d. cr_song_id d = cr_song_id c \<and> cr_person_id d = cr_person_id c
                                   \<and> nocase (cr_role d) = nocase (cr_role c)) (db_credits db))
       (integrity (''UNIQUE constraint failed: song_credits.song_id, song_credits.person_id, ''
          @ ''song_credits.role''))) (\<lambda>_.
     bindE (guardE (has_artist db (cr_artist_id c)) (integrity ''FOREIGN KEY constraint failed'')) (\<lambda>_.
     insert_activity ''SONG_CREDIT_RECORDED'' (cr_artist_id c) (Some (cr_song_id c)) None ''SONG_CREDIT''
       (cr_id c) (db\<lparr>db_credits := db_credits db @ [c]\<rparr>))))))"

text \<open>The partial index \<open>composition_split_one_active_per_song\<close> leaves a song one active sheet.\<close>

definition one_active_with :: "split_sheet \<Rightarrow> 'a credits_db_scheme \<Rightarrow> bool" where
  "one_active_with s db \<longleftrightarrow> \<not> (active_state (ss_state s)
     \<and> list_ex (\<lambda>t. ss_id t \<noteq> ss_id s \<and> ss_song_id t = ss_song_id s \<and> active_state (ss_state t))
         (db_split_sheets db))"

definition insert_split_sheet :: "split_sheet \<Rightarrow> 'a credits_db_scheme \<Rightarrow> 'a credits_db_scheme res" where
  "insert_split_sheet s db =
     bindE (guardE (song_of_artist db (ss_song_id s) (ss_artist_id s))
       (integrity ''split Song belongs to a different Artist'')) (\<lambda>_.
     bindE (guardE (pred_option (\<lambda>x. \<not> sql_blank x) (ss_closure_note s))
       (integrity ''CHECK constraint failed: composition_split_sheets'')) (\<lambda>_.
     bindE (guardE (ss_id s \<notin> ss_id ` set (db_split_sheets db))
       (integrity ''UNIQUE constraint failed: composition_split_sheets.id'')) (\<lambda>_.
     bindE (guardE (one_active_with s db)
       (integrity ''UNIQUE constraint failed: composition_split_sheets.song_id'')) (\<lambda>_.
     bindE (guardE (has_artist db (ss_artist_id s)) (integrity ''FOREIGN KEY constraint failed'')) (\<lambda>_.
     insert_activity ''COMPOSITION_SPLIT_DRAFT_CREATED'' (ss_artist_id s) (Some (ss_song_id s)) None
       ''COMPOSITION_SPLIT'' (ss_id s) (db\<lparr>db_split_sheets := db_split_sheets db @ [s]\<rparr>))))))"

definition draft_sheet :: "'a credits_db_scheme \<Rightarrow> string \<Rightarrow> bool" where
  "draft_sheet db sid \<longleftrightarrow> list_ex (\<lambda>s. ss_id s = sid \<and> ss_state s = DRAFT) (db_split_sheets db)"

definition insert_allocation :: "split_allocation \<Rightarrow> 'a credits_db_scheme \<Rightarrow> 'a credits_db_scheme res" where
  "insert_allocation a db =
     bindE (guardE (list_ex (\<lambda>s. ss_id s = sa_sheet_id a \<and> ss_artist_id s = sa_artist_id a
                               \<and> ss_song_id s = sa_song_id a) (db_split_sheets db)
                    \<and> person_of_artist db (sa_person_id a) (sa_artist_id a))
       (integrity ''split allocation binding is invalid'')) (\<lambda>_.
     bindE (guardE (draft_sheet db (sa_sheet_id a))
       (integrity ''submitted split allocations are immutable'')) (\<lambda>_.
     bindE (guardE (1 \<le> sa_basis_points a \<and> sa_basis_points a \<le> 10000)
       (integrity ''CHECK constraint failed: composition_split_allocations'')) (\<lambda>_.
     bindE (guardE (sa_id a \<notin> sa_id ` set (db_split_allocations db))
       (integrity ''UNIQUE constraint failed: composition_split_allocations.id'')) (\<lambda>_.
     bindE (guardE (\<not> list_ex (\<lambda>b. sa_sheet_id b = sa_sheet_id a \<and> sa_person_id b = sa_person_id a)
                       (db_split_allocations db))
       (integrity (''UNIQUE constraint failed: composition_split_allocations.sheet_id, ''
          @ ''composition_split_allocations.person_id''))) (\<lambda>_.
     Inr (db\<lparr>db_split_allocations := db_split_allocations db @ [a],
             db_split_allocation_seq := sa_seq a\<rparr>))))))"

definition delete_allocations :: "string \<Rightarrow> 'a credits_db_scheme \<Rightarrow> 'a credits_db_scheme res" where
  "delete_allocations sid db =
     bindE (guardE (draft_sheet db sid \<or> filter (\<lambda>a. sa_sheet_id a = sid) (db_split_allocations db) = [])
       (integrity ''submitted split allocations are immutable'')) (\<lambda>_.
     Inr (db\<lparr>db_split_allocations := filter (\<lambda>a. sa_sheet_id a \<noteq> sid) (db_split_allocations db)\<rparr>))"

definition insert_confirmation ::
  "split_confirmation \<Rightarrow> 'a credits_db_scheme \<Rightarrow> 'a credits_db_scheme res" where
  "insert_confirmation c db =
     bindE (guardE (list_ex (\<lambda>s. ss_id s = sc_sheet_id c \<and> ss_artist_id s = sc_artist_id c
                               \<and> ss_song_id s = sc_song_id c \<and> ss_state s = OPEN_CONFIRMATION)
                      (db_split_sheets db)
                    \<and> person_of_artist db (sc_person_id c) (sc_artist_id c))
       (integrity ''split confirmation binding is invalid or closed'')) (\<lambda>_.
     bindE (guardE (list_ex (\<lambda>a. sa_sheet_id a = sc_sheet_id c \<and> sa_person_id a = sc_person_id c)
                      (db_split_allocations db))
       (integrity ''only split participants can have confirmation records'')) (\<lambda>_.
     bindE (guardE (\<not> sql_blank (sc_note c) \<and> sc_truth_type c = ''USER_DECLARED'')
       (integrity ''CHECK constraint failed: composition_split_confirmations'')) (\<lambda>_.
     bindE (guardE (sc_id c \<notin> sc_id ` set (db_split_confirmations db))
       (integrity ''UNIQUE constraint failed: composition_split_confirmations.id'')) (\<lambda>_.
     insert_activity ''COMPOSITION_SPLIT_CONFIRMATION_RECORDED'' (sc_artist_id c) (Some (sc_song_id c)) None
       ''COMPOSITION_SPLIT'' (sc_sheet_id c)
       (db\<lparr>db_split_confirmations := db_split_confirmations db @ [c]\<rparr>)))))"

text \<open>
  An \<open>UPDATE\<close> of the state and closure note of the sheet with this id: the trigger
  \<open>credits_split_transition_valid\<close>, for a submission \<open>credits_split_submit_complete\<close>, the constraints,
  then the event.
\<close>

definition transition_valid :: "split_sheet \<Rightarrow> split_sheet \<Rightarrow> bool" where
  "transition_valid old new \<longleftrightarrow>
     ss_state old = DRAFT \<and> ss_state new = OPEN_CONFIRMATION \<and> ss_closure_note new = None
     \<or> ss_state old \<in> {DRAFT, OPEN_CONFIRMATION} \<and> ss_state new = VOIDED
        \<and> (case ss_closure_note new of None \<Rightarrow> False | Some x \<Rightarrow> \<not> sql_blank x)"

definition update_split_sheet ::
  "split_sheet \<Rightarrow> split_sheet \<Rightarrow> 'a credits_db_scheme \<Rightarrow> 'a credits_db_scheme res" where
  "update_split_sheet old new db =
     bindE (guardE (transition_valid old new)
       (integrity ''invalid composition split state transition'')) (\<lambda>_.
     bindE (guardE (\<not> (ss_state old = DRAFT \<and> ss_state new = OPEN_CONFIRMATION
          \<and> (let as = filter (\<lambda>a. sa_sheet_id a = ss_id old) (db_split_allocations db)
             in as = [] \<or> total_points as \<noteq> 10000)))
       (integrity ''composition split must total exactly 100 percent'')) (\<lambda>_.
     bindE (guardE (one_active_with new db)
       (integrity ''UNIQUE constraint failed: composition_split_sheets.song_id'')) (\<lambda>_.
     insert_activity
       (if ss_state new = OPEN_CONFIRMATION then ''COMPOSITION_SPLIT_SUBMITTED'' else ''COMPOSITION_SPLIT_VOIDED'')
       (ss_artist_id new) (Some (ss_song_id new)) None ''COMPOSITION_SPLIT'' (ss_id new)
       (db\<lparr>db_split_sheets := map (\<lambda>s. if ss_id s = ss_id old then new else s) (db_split_sheets db)\<rparr>))))"

subsection \<open>Operations\<close>

definition record_credit ::
  "string \<Rightarrow> string \<Rightarrow> string \<Rightarrow> string option \<Rightarrow> 'a credits_db_scheme \<Rightarrow> (credit_entry \<times> 'a credits_db_scheme) res" where
  "record_credit song_id person_id role role_context db0 =
     bindE (credits_song db0 song_id) (\<lambda>song.
     bindE (credits_person db0 person_id) (\<lambda>person.
     bindE (clean_text role ''role'' 120) (\<lambda>role.
     bindE (optional_clean_text role_context ''role_context'' 500) (\<lambda>context.
     let (cid, db) = new_id ''credit'' db0 in
     bindE (primary_artist_id db) (\<lambda>artist.
     bindE (on_integrity ''cannot record Song credit''
       (insert_credit \<lparr>cr_seq = Suc (length (db_credits db)), cr_id = cid, cr_artist_id = artist,
          cr_song_id = so_id song, cr_person_id = pn_id person, cr_role = role, cr_role_context = context,
          cr_truth_type = CREDIT_TRUTH_TYPE\<rparr> db)) (\<lambda>db.
     case get_credit db cid of
       None \<Rightarrow> Inl (Raise LineageCorruptionError ''new Song credit disappeared after creation'')
     | Some c \<Rightarrow> Inr (c, db)))))))"

text \<open>\<open>except sqlite3.IntegrityError: raise ValidationError(msg)\<close>, without the message of SQLite.\<close>

definition when_integrity :: "string \<Rightarrow> 'b res \<Rightarrow> 'b res" where
  "when_integrity msg r =
     (case r of
        Inl e \<Rightarrow> if exc_cls e = IntegrityError then Inl (Raise ValidationError msg) else Inl e
      | Inr x \<Rightarrow> Inr x)"

definition create_split_draft ::
  "string \<Rightarrow> 'a credits_db_scheme \<Rightarrow> (split_sheet \<times> 'a credits_db_scheme) res" where
  "create_split_draft song_id db0 =
     bindE (credits_song db0 song_id) (\<lambda>song.
     let (sid, db) = new_id ''split'' db0 in
     bindE (primary_artist_id db) (\<lambda>artist.
     bindE (when_integrity ''this Song already has an active composition split proposal''
       (insert_split_sheet \<lparr>ss_seq = Suc (length (db_split_sheets db)), ss_id = sid, ss_artist_id = artist,
          ss_song_id = so_id song, ss_state = DRAFT, ss_closure_note = None\<rparr> db)) (\<lambda>db.
     case get_split_sheet db sid of
       None \<Rightarrow> Inl (Raise LineageCorruptionError ''new split draft disappeared after creation'')
     | Some s \<Rightarrow> Inr (s, db))))"

definition require_split_sheet :: "'a credits_db_scheme \<Rightarrow> string \<Rightarrow> split_sheet res" where
  "require_split_sheet db sheet_id =
     (case get_split_sheet db sheet_id of
        None \<Rightarrow> Inl (Raise NotFoundError
          (''composition split not found in profile '' @ store_profile_id db @ '': '' @ sheet_id))
      | Some s \<Rightarrow> Inr s)"

text \<open>The loop over \<open>allocations.items()\<close>: the people by their ids, none twice.\<close>

fun normalize_allocations ::
  "'a people_db_scheme \<Rightarrow> string list \<Rightarrow> (string \<times> int) list \<Rightarrow> (string \<times> int) list res" where
  "normalize_allocations db seen [] = Inr []"
| "normalize_allocations db seen ((pid, points) # rest) =
     bindE (credits_person db pid) (\<lambda>person.
     bindE (guardE (pn_id person \<notin> set seen)
       (Raise ValidationError ''a split participant may appear only once'')) (\<lambda>_.
     bindE (guardE (\<not> (points \<le> 0 \<or> points > 10000))
       (Raise ValidationError ''split shares must be between 0.01 and 100 percent'')) (\<lambda>_.
     bindE (normalize_allocations db (pn_id person # seen) rest) (\<lambda>normalized.
     Inr ((pn_id person, points) # normalized)))))"

fun insert_allocations ::
  "split_sheet \<Rightarrow> (string \<times> int) list \<Rightarrow> 'a credits_db_scheme \<Rightarrow> 'a credits_db_scheme res" where
  "insert_allocations sheet [] db = Inr db"
| "insert_allocations sheet ((pid, points) # rest) db0 =
     (let (aid, db) = new_id ''allocation'' db0 in
      bindE (insert_allocation \<lparr>sa_seq = Suc (db_split_allocation_seq db), sa_id = aid,
          sa_sheet_id = ss_id sheet, sa_artist_id = ss_artist_id sheet, sa_song_id = ss_song_id sheet,
          sa_person_id = pid, sa_basis_points = points\<rparr> db)
        (insert_allocations sheet rest))"

definition set_draft_allocations ::
  "string \<Rightarrow> (string \<times> int) list \<Rightarrow> 'a credits_db_scheme
     \<Rightarrow> (split_allocation list \<times> 'a credits_db_scheme) res" where
  "set_draft_allocations sheet_id allocations db =
     bindE (require_split_sheet db sheet_id) (\<lambda>sheet.
     bindE (guardE (ss_state sheet = DRAFT)
       (Raise ValidationError ''submitted composition split allocations are immutable'')) (\<lambda>_.
     bindE (normalize_allocations db [] allocations) (\<lambda>normalized.
     bindE (guardE (sum_list (map snd normalized) \<le> 10000)
       (Raise ValidationError ''draft composition split exceeds 100 percent'')) (\<lambda>_.
     bindE (on_integrity ''cannot save composition split draft''
       (bindE (delete_allocations (ss_id sheet) db) (insert_allocations sheet normalized))) (\<lambda>db.
     Inr (split_allocations db (ss_id sheet), db))))))"

text \<open>
  \<open>UPDATE ... WHERE id=? AND state IN (...)\<close>: a row count other than one is a corruption, then the row is
  read back.
\<close>

definition move_split_sheet ::
  "string \<Rightarrow> split_state list \<Rightarrow> split_state \<Rightarrow> (string option \<Rightarrow> string option) \<Rightarrow> string \<Rightarrow> string \<Rightarrow> string
     \<Rightarrow> 'a credits_db_scheme \<Rightarrow> (split_sheet \<times> 'a credits_db_scheme) res" where
  "move_split_sheet sid from target note_of changed failed unread db =
     bindE (on_integrity failed
       (case find (\<lambda>s. ss_id s = sid \<and> ss_state s \<in> set from) (db_split_sheets db) of
          None \<Rightarrow> Inl (Raise LineageCorruptionError changed)
        | Some s \<Rightarrow> update_split_sheet s
            (s\<lparr>ss_state := target, ss_closure_note := note_of (ss_closure_note s)\<rparr>) db)) (\<lambda>db.
     case get_split_sheet db sid of
       None \<Rightarrow> Inl (Raise LineageCorruptionError unread)
     | Some result \<Rightarrow>
         bindE (guardE (ss_state result = target) (Raise LineageCorruptionError unread)) (\<lambda>_.
         Inr (result, db)))"

definition submit_split ::
  "string \<Rightarrow> 'a credits_db_scheme \<Rightarrow> (split_sheet \<times> 'a credits_db_scheme) res" where
  "submit_split sheet_id db =
     bindE (require_split_sheet db sheet_id) (\<lambda>sheet.
     bindE (guardE (ss_state sheet = DRAFT)
       (Raise ValidationError ''only a draft composition split can be submitted'')) (\<lambda>_.
     let allocations = split_allocations db (ss_id sheet) in
     bindE (guardE (\<not> (allocations = [] \<or> total_points allocations \<noteq> 10000))
       (Raise ValidationError ''composition split must total exactly 100.00 percent'')) (\<lambda>_.
     move_split_sheet (ss_id sheet) [DRAFT] OPEN_CONFIRMATION id
       ''composition split changed while it was being submitted'' ''cannot submit composition split''
       ''submitted composition split could not be read back'' db)))"

definition void_split ::
  "string \<Rightarrow> string \<Rightarrow> 'a credits_db_scheme \<Rightarrow> (split_sheet \<times> 'a credits_db_scheme) res" where
  "void_split sheet_id reason db =
     bindE (require_split_sheet db sheet_id) (\<lambda>sheet.
     bindE (guardE (ss_state sheet \<noteq> VOIDED)
       (Raise ValidationError ''composition split is already voided'')) (\<lambda>_.
     bindE (clean_text reason ''void reason'' 1000) (\<lambda>reason.
     move_split_sheet (ss_id sheet) [DRAFT, OPEN_CONFIRMATION] VOIDED (\<lambda>_. Some reason)
       ''composition split changed while it was being voided'' ''cannot void composition split''
       ''voided composition split could not be read back'' db)))"

definition record_confirmation ::
  "string \<Rightarrow> string \<Rightarrow> string \<Rightarrow> string \<Rightarrow> 'a credits_db_scheme
     \<Rightarrow> (split_confirmation \<times> 'a credits_db_scheme) res" where
  "record_confirmation sheet_id person_id status note db0 =
     bindE (require_split_sheet db0 sheet_id) (\<lambda>sheet.
     bindE (guardE (ss_state sheet = OPEN_CONFIRMATION)
       (Raise ValidationError ''split confirmations can only be recorded after submission'')) (\<lambda>_.
     bindE (credits_person db0 person_id) (\<lambda>person.
     bindE (guardE (pn_id person \<in> sa_person_id ` set (split_allocations db0 (ss_id sheet)))
       (Raise ValidationError ''only split participants can have confirmation records'')) (\<lambda>_.
     case parse_enum CONFIRMATION_STATUSES status of
       None \<Rightarrow> Inl (Raise ValidationError (''unsupported split confirmation status: '' @ norm_enum status))
     | Some status \<Rightarrow>
         bindE (clean_text note ''confirmation note'' 1000) (\<lambda>note.
         bindE (latest_confirmation db0 (ss_id sheet) (pn_id person)) (\<lambda>latest.
         bindE (guardE (map_option sc_status latest \<noteq> Some status)
           (Raise ValidationError ''that confirmation state is already the latest recorded state'')) (\<lambda>_.
         let (cid, db) = new_id ''confirmation'' db0 in
         bindE (on_integrity ''cannot record split confirmation''
           (insert_confirmation \<lparr>sc_seq = Suc (length (db_split_confirmations db)), sc_id = cid,
              sc_sheet_id = ss_id sheet, sc_artist_id = ss_artist_id sheet, sc_song_id = ss_song_id sheet,
              sc_person_id = pn_id person, sc_status = status, sc_note = note,
              sc_truth_type = CREDIT_TRUTH_TYPE\<rparr> db)) (\<lambda>db.
         bindE (latest_confirmation db (ss_id sheet) (pn_id person)) (\<lambda>result.
         case result of
           None \<Rightarrow> Inl (Raise LineageCorruptionError ''split confirmation disappeared after creation'')
         | Some c \<Rightarrow>
             bindE (guardE (sc_id c = cid)
               (Raise LineageCorruptionError ''split confirmation disappeared after creation'')) (\<lambda>_.
             Inr (c, db)))))))))))"

subsection \<open>Opening\<close>

definition install_credits :: "people_db \<Rightarrow> credits_db" where
  "install_credits db = people_db.extend
     (db\<lparr>db_metadata := (db_metadata db)(''credits_schema_version'' \<mapsto> ''1'')\<rparr>)
     (credits_db.fields [] [] [] 0 [])"

definition validate_credit :: "'a credits_db_scheme \<Rightarrow> credit_entry \<Rightarrow> unit res" where
  "validate_credit db c =
     bindE (credits_song db (cr_song_id c)) (\<lambda>song.
     bindE (credits_person db (cr_person_id c)) (\<lambda>person.
     bindE (guardE (\<not> (cr_artist_id c \<noteq> so_artist_id song \<or> cr_artist_id c \<noteq> pn_artist_id person))
       (Raise LineageCorruptionError ''credit binding does not match its Artist'')) (\<lambda>_.
     guardE (cr_truth_type c = CREDIT_TRUTH_TYPE)
       (Raise LineageCorruptionError ''credit truth type is invalid''))))"

definition validate_allocation :: "'a credits_db_scheme \<Rightarrow> split_sheet \<Rightarrow> split_allocation \<Rightarrow> unit res" where
  "validate_allocation db s a =
     bindE (credits_person db (sa_person_id a)) (\<lambda>person.
     guardE (\<not> (sa_artist_id a \<noteq> ss_artist_id s \<or> sa_song_id a \<noteq> ss_song_id s
                 \<or> pn_artist_id person \<noteq> ss_artist_id s))
       (Raise LineageCorruptionError ''split allocation binding is invalid''))"

definition validate_confirmation_row :: "split_sheet \<Rightarrow> string list \<Rightarrow> split_confirmation \<Rightarrow> unit res" where
  "validate_confirmation_row s participants c =
     bindE (guardE (sc_person_id c \<in> set participants)
       (Raise LineageCorruptionError ''split confirmation belongs to a non-participant'')) (\<lambda>_.
     bindE (guardE (sc_truth_type c = CREDIT_TRUTH_TYPE)
       (Raise LineageCorruptionError ''split confirmation truth type is invalid'')) (\<lambda>_.
     guardE (\<not> (sc_artist_id c \<noteq> ss_artist_id s \<or> sc_song_id c \<noteq> ss_song_id s))
       (Raise LineageCorruptionError ''split confirmation binding is invalid'')))"

definition validate_sheet :: "'a credits_db_scheme \<Rightarrow> split_sheet \<Rightarrow> unit res" where
  "validate_sheet db s =
     bindE (credits_song db (ss_song_id s)) (\<lambda>song.
     bindE (guardE (ss_artist_id s = so_artist_id song)
       (Raise LineageCorruptionError ''split binding does not match its Artist'')) (\<lambda>_.
     let allocations = split_allocations db (ss_id s); total = total_points allocations in
     bindE (guardE (total \<le> 10000)
       (Raise LineageCorruptionError ''split allocations exceed 100 percent'')) (\<lambda>_.
     bindE (guardE (\<not> (ss_state s = OPEN_CONFIRMATION \<and> (allocations = [] \<or> total \<noteq> 10000)))
       (Raise LineageCorruptionError ''submitted split is not arithmetically complete'')) (\<lambda>_.
     bindE (guardE (\<not> (ss_state s = VOIDED \<and> ss_closure_note s = None))
       (Raise LineageCorruptionError ''voided split is missing a reason'')) (\<lambda>_.
     bindE (guardE (\<not> (ss_state s \<noteq> VOIDED \<and> ss_closure_note s \<noteq> None))
       (Raise LineageCorruptionError ''open split unexpectedly has a closure note'')) (\<lambda>_.
     bindE (mapE (validate_allocation db s) allocations) (\<lambda>_.
     bindE (confirmation_history db (ss_id s) None) (\<lambda>confirmations.
     bindE (mapE (validate_confirmation_row s (map sa_person_id allocations)) confirmations) (\<lambda>_.
     Inr ())))))))))"

definition corruption_only :: "string \<Rightarrow> 'b res \<Rightarrow> 'b res" where
  "corruption_only msg r =
     (case r of
        Inl e \<Rightarrow> if exc_cls e \<in> {ValidationError, NotFoundError, PyValueError, PyTypeError}
                 then Inl (Raise LineageCorruptionError msg) else Inl e
      | Inr x \<Rightarrow> Inr x)"

definition validate_credits :: "'a credits_db_scheme \<Rightarrow> unit res" where
  "validate_credits db =
     corruption_only ''Credits memory is unreadable or corrupt''
       (bindE (guardE (db_metadata db ''credits_schema_version'' = Some ''1'')
          (Raise LineageCorruptionError ''unsupported Credits schema version'')) (\<lambda>_.
        bindE (mapE (validate_credit db) (db_credits db)) (\<lambda>_.
        bindE (mapE (validate_sheet db) (db_split_sheets db)) (\<lambda>_. Inr ()))))"

end
