(* ===== verification/Credits_Facts.thy ===== *)
theory Credits_Facts
  imports Credits People_Store
begin

text \<open>
  The invariant of the four tables (shares within one hundred percent, exact once submitted; one active sheet
  per song; confirmations by participants), the memory as a machine, and what follows for every reachable memory.
\<close>

subsection \<open>The invariant\<close>

definition song_bound :: "'a people_db_scheme \<Rightarrow> string \<Rightarrow> string \<Rightarrow> bool" where
  "song_bound db artist sid \<longleftrightarrow> primary_artist_id db = Inr artist \<and> strip sid = sid
     \<and> sid \<in> so_id ` set (db_songs db)"

definition person_bound :: "'a people_db_scheme \<Rightarrow> string \<Rightarrow> bool" where
  "person_bound db pid \<longleftrightarrow> pid \<in> pn_id ` set (db_people db)"

definition credit_key :: "credit_entry \<Rightarrow> string \<times> string \<times> string" where
  "credit_key c = (cr_song_id c, cr_person_id c, nocase (cr_role c))"

definition credit_ok :: "'a people_db_scheme \<Rightarrow> credit_entry \<Rightarrow> bool" where
  "credit_ok db c \<longleftrightarrow> song_bound db (cr_artist_id c) (cr_song_id c) \<and> person_bound db (cr_person_id c)
     \<and> cr_truth_type c = CREDIT_TRUTH_TYPE"

definition sheet_ok :: "'a people_db_scheme \<Rightarrow> split_sheet \<Rightarrow> bool" where
  "sheet_ok db s \<longleftrightarrow> trimmed (ss_id s) \<and> song_bound db (ss_artist_id s) (ss_song_id s)
     \<and> (ss_closure_note s = None \<longleftrightarrow> ss_state s \<noteq> VOIDED)"

definition shares_of :: "string \<Rightarrow> split_allocation list \<Rightarrow> split_allocation list" where
  "shares_of sid as = filter (\<lambda>a. sa_sheet_id a = sid) as"

text \<open>Whole basis points, nobody twice on a sheet, at most one hundred percent, and exactly that once submitted.\<close>

definition of_sheet :: "split_sheet list \<Rightarrow> split_allocation \<Rightarrow> bool" where
  "of_sheet ss a \<longleftrightarrow> (\<exists>s \<in> set ss. ss_id s = sa_sheet_id a \<and> ss_artist_id s = sa_artist_id a
     \<and> ss_song_id s = sa_song_id a)"

definition shares_ok :: "split_sheet list \<Rightarrow> split_allocation list \<Rightarrow> bool" where
  "shares_ok ss as \<longleftrightarrow> distinct (map (\<lambda>a. (sa_sheet_id a, sa_person_id a)) as)
     \<and> (\<forall>a \<in> set as. 1 \<le> sa_basis_points a \<and> sa_basis_points a \<le> 10000 \<and> of_sheet ss a)
     \<and> (\<forall>s \<in> set ss. total_points (shares_of (ss_id s) as) \<le> 10000
          \<and> (ss_state s = OPEN_CONFIRMATION \<longrightarrow> total_points (shares_of (ss_id s) as) = 10000))"

definition confirmations_ok ::
  "split_sheet list \<Rightarrow> split_allocation list \<Rightarrow> split_confirmation list \<Rightarrow> bool" where
  "confirmations_ok ss as cs \<longleftrightarrow> (\<forall>c \<in> set cs. sc_truth_type c = CREDIT_TRUTH_TYPE
     \<and> (\<exists>s \<in> set ss. ss_id s = sc_sheet_id c \<and> ss_artist_id s = sc_artist_id c
          \<and> ss_song_id s = sc_song_id c \<and> ss_state s \<noteq> DRAFT)
     \<and> (\<exists>a \<in> set as. sa_sheet_id a = sc_sheet_id c \<and> sa_person_id a = sc_person_id c))"

definition sheets_ok :: "split_sheet list \<Rightarrow> bool" where
  "sheets_ok ss \<longleftrightarrow> distinct (map ss_id ss)
     \<and> distinct (map ss_song_id (filter (\<lambda>s. active_state (ss_state s)) ss))"

text \<open>What refers to the memory below, and what the tables say of each other.\<close>

definition credits_refer :: "'a credits_db_scheme \<Rightarrow> bool" where
  "credits_refer db \<longleftrightarrow> db_metadata db ''credits_schema_version'' = Some ''1''
     \<and> list_all (credit_ok db) (db_credits db) \<and> list_all (sheet_ok db) (db_split_sheets db)
     \<and> list_all (\<lambda>a. person_bound db (sa_person_id a)) (db_split_allocations db)"

definition credits_agree :: "'a credits_db_scheme \<Rightarrow> bool" where
  "credits_agree db \<longleftrightarrow> distinct (map credit_key (db_credits db)) \<and> sheets_ok (db_split_sheets db)
     \<and> shares_ok (db_split_sheets db) (db_split_allocations db)
     \<and> confirmations_ok (db_split_sheets db) (db_split_allocations db) (db_split_confirmations db)"

definition credits_holds :: "'a credits_db_scheme \<Rightarrow> bool" where
  "credits_holds db \<longleftrightarrow> credits_refer db \<and> credits_agree db"

definition credits_inv :: "'a credits_db_scheme \<Rightarrow> bool" where
  "credits_inv db \<longleftrightarrow> people_inv db \<and> credits_holds db"

lemma more_credits:
  assumes "people_db.more db' = people_db.more db"
  shows "db_credits db' = db_credits db \<and> db_split_sheets db' = db_split_sheets db
    \<and> db_split_allocations db' = db_split_allocations db
    \<and> db_split_allocation_seq db' = db_split_allocation_seq db
    \<and> db_split_confirmations db' = db_split_confirmations db"
  using assms by (cases db; cases db') simp

lemma song_bound_mono: "people_extends db db' \<Longrightarrow> song_bound db a s \<Longrightarrow> song_bound db' a s"
  using people_extends_sets(4,6) [of db db'] by (auto simp: song_bound_def)

lemma person_bound_mono: "people_extends db db' \<Longrightarrow> person_bound db p \<Longrightarrow> person_bound db' p"
  using people_extends_sets(3) [of db db'] by (auto simp: person_bound_def)

interpretation credits_store: people_store credits_holds
proof unfold_locales
  fix db db' :: "'a credits_db_scheme"
  assume x: "people_extends db db'" and m: "people_db.more db' = people_db.more db" and h: "credits_holds db"
  have "db_metadata db' ''credits_schema_version'' = db_metadata db ''credits_schema_version''"
    using x by (simp add: people_extends_def ev_extends_def)
  moreover have "credit_ok db c \<Longrightarrow> credit_ok db' c" and "sheet_ok db s \<Longrightarrow> sheet_ok db' s" for c s
    using song_bound_mono [OF x] person_bound_mono [OF x] by (auto simp: credit_ok_def sheet_ok_def)
  ultimately show "credits_holds db'"
    using h more_credits [OF m] person_bound_mono [OF x]
    by (simp add: credits_holds_def credits_refer_def credits_agree_def list_all_iff)
qed

subsection \<open>What a later state keeps\<close>

inductive split_step :: "split_state \<Rightarrow> split_state \<Rightarrow> bool" where
  split_submit: "split_step DRAFT OPEN_CONFIRMATION"
| split_void: "s \<noteq> VOIDED \<Longrightarrow> split_step s VOIDED"

inductive_simps split_step_simps: "split_step s t"

definition sheet_kept :: "split_sheet \<Rightarrow> split_sheet \<Rightarrow> bool" where
  "sheet_kept s t \<longleftrightarrow> ss_seq t = ss_seq s \<and> ss_id t = ss_id s \<and> ss_artist_id t = ss_artist_id s
     \<and> ss_song_id t = ss_song_id s \<and> (t = s \<or> split_step (ss_state s) (ss_state t))"

definition credits_extends :: "'a credits_db_scheme \<Rightarrow> 'a credits_db_scheme \<Rightarrow> bool" where
  "credits_extends db db' \<longleftrightarrow> people_extends db db' \<and> prefix (db_credits db) (db_credits db')
     \<and> prefix (db_split_confirmations db) (db_split_confirmations db')
     \<and> (\<forall>s \<in> set (db_split_sheets db). \<exists>t \<in> set (db_split_sheets db'). sheet_kept s t
          \<and> (ss_state s \<noteq> DRAFT \<longrightarrow> shares_of (ss_id s) (db_split_allocations db')
                                    = shares_of (ss_id s) (db_split_allocations db)))"

lemma sheet_kept_refl [simp]: "sheet_kept s s"
  by (simp add: sheet_kept_def)

lemma sheet_kept_trans: "sheet_kept s t \<Longrightarrow> sheet_kept t u \<Longrightarrow> sheet_kept s u"
  by (auto simp: sheet_kept_def split_step_simps)

lemma sheet_kept_draft: "sheet_kept s t \<Longrightarrow> ss_state s \<noteq> DRAFT \<Longrightarrow> ss_state t \<noteq> DRAFT \<and> ss_id t = ss_id s"
  by (auto simp: sheet_kept_def split_step_simps)

lemma credits_extends_refl [simp]: "credits_extends db db"
  unfolding credits_extends_def by (auto intro: bexI sheet_kept_refl)

lemma credits_extends_trans:
  assumes "credits_extends a b" and "credits_extends b c"
  shows "credits_extends a c"
  unfolding credits_extends_def
proof (intro conjI ballI)
  show "people_extends a c" using assms people_extends_trans unfolding credits_extends_def by blast
  show "prefix (db_credits a) (db_credits c)" "prefix (db_split_confirmations a) (db_split_confirmations c)"
    using assms unfolding credits_extends_def by (blast intro: prefix_order.trans)+
  fix s
  assume "s \<in> set (db_split_sheets a)"
  then obtain t where t: "t \<in> set (db_split_sheets b)" "sheet_kept s t" "ss_state s \<noteq> DRAFT
    \<longrightarrow> shares_of (ss_id s) (db_split_allocations b) = shares_of (ss_id s) (db_split_allocations a)"
    using assms(1) unfolding credits_extends_def by blast
  then obtain u where u: "u \<in> set (db_split_sheets c)" "sheet_kept t u" "ss_state t \<noteq> DRAFT
    \<longrightarrow> shares_of (ss_id t) (db_split_allocations c) = shares_of (ss_id t) (db_split_allocations b)"
    using assms(2) unfolding credits_extends_def by blast
  show "\<exists>u \<in> set (db_split_sheets c). sheet_kept s u \<and> (ss_state s \<noteq> DRAFT
    \<longrightarrow> shares_of (ss_id s) (db_split_allocations c) = shares_of (ss_id s) (db_split_allocations a))"
    using t u sheet_kept_trans sheet_kept_draft [OF t(2)] by (intro bexI [OF _ u(1)]) auto
qed

subsection \<open>Each statement\<close>

lemma credits_same [simp]:
  "people_db.truncate (db\<lparr>db_credits := cs\<rparr>) = people_db.truncate db"
  "people_db.truncate (db\<lparr>db_split_sheets := ss\<rparr>) = people_db.truncate db"
  "people_db.truncate (db\<lparr>db_split_allocations := as\<rparr>) = people_db.truncate db"
  "people_db.truncate (db\<lparr>db_split_allocation_seq := n\<rparr>) = people_db.truncate db"
  "people_db.truncate (db\<lparr>db_split_confirmations := ks\<rparr>) = people_db.truncate db"
  by (simp_all add: people_db.defs)

lemma bound_frames [simp]:
  "song_bound (db\<lparr>db_credits := cs\<rparr>) = song_bound db" "person_bound (db\<lparr>db_credits := cs\<rparr>) = person_bound db"
  "song_bound (db\<lparr>db_split_sheets := ss\<rparr>) = song_bound db"
  "person_bound (db\<lparr>db_split_sheets := ss\<rparr>) = person_bound db"
  "song_bound (db\<lparr>db_split_allocations := as\<rparr>) = song_bound db"
  "person_bound (db\<lparr>db_split_allocations := as\<rparr>) = person_bound db"
  "song_bound (db\<lparr>db_split_allocation_seq := n\<rparr>) = song_bound db"
  "person_bound (db\<lparr>db_split_allocation_seq := n\<rparr>) = person_bound db"
  "song_bound (db\<lparr>db_split_confirmations := ks\<rparr>) = song_bound db"
  "person_bound (db\<lparr>db_split_confirmations := ks\<rparr>) = person_bound db"
  "song_bound (db\<lparr>db_draws := m\<rparr>) = song_bound db" "person_bound (db\<lparr>db_draws := m\<rparr>) = person_bound db"
  by (simp_all add: fun_eq_iff song_bound_def person_bound_def primary_artist_id_def)

lemma row_frames:
  "song_bound db' = song_bound db \<Longrightarrow> person_bound db' = person_bound db
     \<Longrightarrow> credit_ok db' = credit_ok db \<and> sheet_ok db' = sheet_ok db"
  by (simp add: fun_eq_iff credit_ok_def sheet_ok_def)

lemma credits_row_frames [simp]:
  "credit_ok (db\<lparr>db_credits := cs\<rparr>) = credit_ok db" "sheet_ok (db\<lparr>db_credits := cs\<rparr>) = sheet_ok db"
  "credit_ok (db\<lparr>db_split_sheets := ss\<rparr>) = credit_ok db" "sheet_ok (db\<lparr>db_split_sheets := ss\<rparr>) = sheet_ok db"
  "credit_ok (db\<lparr>db_split_allocations := as\<rparr>) = credit_ok db"
  "sheet_ok (db\<lparr>db_split_allocations := as\<rparr>) = sheet_ok db"
  "credit_ok (db\<lparr>db_split_allocation_seq := n\<rparr>) = credit_ok db"
  "sheet_ok (db\<lparr>db_split_allocation_seq := n\<rparr>) = sheet_ok db"
  "credit_ok (db\<lparr>db_split_confirmations := ks\<rparr>) = credit_ok db"
  "sheet_ok (db\<lparr>db_split_confirmations := ks\<rparr>) = sheet_ok db"
  "credit_ok (db\<lparr>db_draws := m\<rparr>) = credit_ok db" "sheet_ok (db\<lparr>db_draws := m\<rparr>) = sheet_ok db"
  using row_frames [of "db\<lparr>db_credits := cs\<rparr>" db] row_frames [of "db\<lparr>db_split_sheets := ss\<rparr>" db]
    row_frames [of "db\<lparr>db_split_allocations := as\<rparr>" db] row_frames [of "db\<lparr>db_split_allocation_seq := n\<rparr>" db]
    row_frames [of "db\<lparr>db_split_confirmations := ks\<rparr>" db] row_frames [of "db\<lparr>db_draws := m\<rparr>" db]
  by simp_all

lemma credits_inv_draws [simp]: "credits_inv (db\<lparr>db_draws := n\<rparr>) = credits_inv db"
  by (simp add: credits_inv_def credits_holds_def credits_refer_def credits_agree_def)

lemma credits_extends_draws: "credits_extends db (db\<lparr>db_draws := n\<rparr>)"
  unfolding credits_extends_def by (auto simp: people_extends_draws intro: bexI sheet_kept_refl)

lemma credits_statement:
  assumes "insert_activity etype artist song version otype oid db1 = Inr db'" and "credits_inv db"
    and same: "people_db.truncate db1 = people_db.truncate db" and "credits_holds db1"
  shows "credits_inv db' \<and> people_extends db db' \<and> db_credits db' = db_credits db1
    \<and> db_split_sheets db' = db_split_sheets db1 \<and> db_split_allocations db' = db_split_allocations db1
    \<and> db_split_confirmations db' = db_split_confirmations db1"
  using credits_store.statement_step [OF assms(1) _ same assms(4)] assms(2) more_credits [of db' db1]
  by (auto simp: credits_inv_def)

lemma insert_credit_step:
  assumes "insert_credit c db = Inr db'" and "credits_inv db" and "credit_ok db c"
  shows "credits_inv db' \<and> credits_extends db db' \<and> db_credits db' = db_credits db @ [c]"
proof -
  let ?db = "db\<lparr>db_credits := db_credits db @ [c]\<rparr>"
  from assms(1) have a: "insert_activity ''SONG_CREDIT_RECORDED'' (cr_artist_id c) (Some (cr_song_id c)) None
      ''SONG_CREDIT'' (cr_id c) ?db = Inr db'"
    and new: "\<not> list_ex (\<lambda>d. cr_song_id d = cr_song_id c \<and> cr_person_id d = cr_person_id c
                     \<and> nocase (cr_role d) = nocase (cr_role c)) (db_credits db)"
    unfolding insert_credit_def by (auto simp: guardE_eq_Inr elim!: bindE_InrE)
  have "credit_key c \<notin> credit_key ` set (db_credits db)"
    using new by (force simp: list_ex_iff credit_key_def)
  then have "credits_holds ?db"
    using assms(2,3) by (simp add: credits_inv_def credits_holds_def credits_refer_def credits_agree_def)
  then have "credits_inv db' \<and> people_extends db db' \<and> db_credits db' = db_credits ?db
    \<and> db_split_sheets db' = db_split_sheets ?db \<and> db_split_allocations db' = db_split_allocations ?db
    \<and> db_split_confirmations db' = db_split_confirmations ?db"
    by (intro credits_statement [OF a assms(2)]) simp_all
  then show ?thesis by (auto simp: credits_extends_def intro: bexI sheet_kept_refl)
qed

lemma of_sheet_snoc: "of_sheet ss a \<Longrightarrow> of_sheet (ss @ [s]) a"
  by (auto simp: of_sheet_def)

lemma no_shares: "shares_ok ss as \<Longrightarrow> sid \<notin> ss_id ` set ss \<Longrightarrow> shares_of sid as = []"
  by (force simp: shares_ok_def shares_of_def of_sheet_def filter_empty_conv)

lemma insert_split_sheet_step:
  assumes "insert_split_sheet s db = Inr db'" and "credits_inv db" and "sheet_ok db s" and "ss_state s = DRAFT"
  shows "credits_inv db' \<and> credits_extends db db' \<and> db_split_sheets db' = db_split_sheets db @ [s]"
proof -
  let ?ss = "db_split_sheets db" let ?db = "db\<lparr>db_split_sheets := ?ss @ [s]\<rparr>"
  from assms(1) have a: "insert_activity ''COMPOSITION_SPLIT_DRAFT_CREATED'' (ss_artist_id s) (Some (ss_song_id s))
      None ''COMPOSITION_SPLIT'' (ss_id s) ?db = Inr db'"
    and new: "ss_id s \<notin> ss_id ` set ?ss" and one: "one_active_with s db"
    unfolding insert_split_sheet_def by (auto simp: guardE_eq_Inr elim!: bindE_InrE)
  have agree: "credits_agree db" using assms(2) by (simp add: credits_inv_def credits_holds_def)
  have "ss_song_id s \<notin> ss_song_id ` set (filter (\<lambda>s. active_state (ss_state s)) ?ss)"
  proof
    assume "ss_song_id s \<in> ss_song_id ` set (filter (\<lambda>s. active_state (ss_state s)) ?ss)"
    then obtain t where t: "t \<in> set ?ss" "ss_song_id t = ss_song_id s" "active_state (ss_state t)" by auto
    moreover have "ss_id t \<noteq> ss_id s" using t(1) new by (metis image_eqI)
    ultimately show False
      using one assms(4) by (auto simp: one_active_with_def active_state_def list_ex_iff)
  qed
  then have "sheets_ok (?ss @ [s])"
    using agree new assms(4) by (simp add: credits_agree_def sheets_ok_def active_state_def)
  moreover have "shares_of (ss_id s) (db_split_allocations db) = []"
    by (rule no_shares [OF _ new]) (use agree in \<open>simp add: credits_agree_def\<close>)
  then have "shares_ok (?ss @ [s]) (db_split_allocations db)"
    using agree of_sheet_snoc assms(4) unfolding credits_agree_def shares_ok_def
    by (simp add: total_points_def)
  moreover have "confirmations_ok (?ss @ [s]) (db_split_allocations db) (db_split_confirmations db)"
    using agree by (force simp: credits_agree_def confirmations_ok_def)
  ultimately have "credits_holds ?db"
    using assms(2,3) by (simp add: credits_inv_def credits_holds_def credits_refer_def credits_agree_def)
  then have "credits_inv db' \<and> people_extends db db' \<and> db_credits db' = db_credits ?db
    \<and> db_split_sheets db' = db_split_sheets ?db \<and> db_split_allocations db' = db_split_allocations ?db
    \<and> db_split_confirmations db' = db_split_confirmations ?db"
    by (intro credits_statement [OF a assms(2)]) simp_all
  then show ?thesis by (auto simp: credits_extends_def intro: bexI sheet_kept_refl)
qed

lemma insert_confirmation_step:
  assumes "insert_confirmation c db = Inr db'" and "credits_inv db" and "sc_truth_type c = CREDIT_TRUTH_TYPE"
  shows "credits_inv db' \<and> credits_extends db db'
    \<and> db_split_confirmations db' = db_split_confirmations db @ [c]"
proof -
  let ?db = "db\<lparr>db_split_confirmations := db_split_confirmations db @ [c]\<rparr>"
  from assms(1) have a: "insert_activity ''COMPOSITION_SPLIT_CONFIRMATION_RECORDED'' (sc_artist_id c)
      (Some (sc_song_id c)) None ''COMPOSITION_SPLIT'' (sc_sheet_id c) ?db = Inr db'"
    and s: "list_ex (\<lambda>s. ss_id s = sc_sheet_id c \<and> ss_artist_id s = sc_artist_id c
              \<and> ss_song_id s = sc_song_id c \<and> ss_state s = OPEN_CONFIRMATION) (db_split_sheets db)"
    and p: "list_ex (\<lambda>a. sa_sheet_id a = sc_sheet_id c \<and> sa_person_id a = sc_person_id c)
              (db_split_allocations db)"
    unfolding insert_confirmation_def by (auto simp: guardE_eq_Inr elim!: bindE_InrE)
  have "\<exists>s \<in> set (db_split_sheets db). ss_id s = sc_sheet_id c \<and> ss_artist_id s = sc_artist_id c
     \<and> ss_song_id s = sc_song_id c \<and> ss_state s \<noteq> DRAFT" using s by (force simp: list_ex_iff)
  then have "credits_holds ?db"
    using assms(2,3) p by (simp add: credits_inv_def credits_holds_def credits_refer_def credits_agree_def
        confirmations_ok_def list_ex_iff)
  then have "credits_inv db' \<and> people_extends db db' \<and> db_credits db' = db_credits ?db
    \<and> db_split_sheets db' = db_split_sheets ?db \<and> db_split_allocations db' = db_split_allocations ?db
    \<and> db_split_confirmations db' = db_split_confirmations ?db"
    by (intro credits_statement [OF a assms(2)]) simp_all
  then show ?thesis by (auto simp: credits_extends_def intro: bexI sheet_kept_refl)
qed

lemma total_points_simps [simp]:
  "total_points [] = 0" "total_points (a # as) = sa_basis_points a + total_points as"
  "total_points (as @ bs) = total_points as + total_points bs"
  by (simp_all add: total_points_def)

lemma shares_of_simps [simp]:
  "shares_of sid [] = []" "shares_of sid (as @ bs) = shares_of sid as @ shares_of sid bs"
  "shares_of sid (a # as) = (if sa_sheet_id a = sid then a # shares_of sid as else shares_of sid as)"
  by (simp_all add: shares_of_def)

lemma credits_invD:
  assumes "credits_inv db"
  shows "people_inv db" and "credits_refer db" and "sheets_ok (db_split_sheets db)"
    and "shares_ok (db_split_sheets db) (db_split_allocations db)"
    and "confirmations_ok (db_split_sheets db) (db_split_allocations db) (db_split_confirmations db)"
    and "distinct (map credit_key (db_credits db))"
  using assms by (simp_all add: credits_inv_def credits_holds_def credits_agree_def)

lemma sheet_unique:
  assumes "sheets_ok ss" and "s \<in> set ss" and "t \<in> set ss" and "ss_id s = ss_id t"
  shows "s = t"
proof -
  have "inj_on ss_id (set ss)" using assms(1) by (simp add: sheets_ok_def distinct_map)
  then show ?thesis by (rule inj_onD) (rule assms)+
qed

lemma shares_okD:
  assumes "shares_ok ss as"
  shows "distinct (map (\<lambda>a. (sa_sheet_id a, sa_person_id a)) as)"
    and "\<And>a. a \<in> set as \<Longrightarrow> 1 \<le> sa_basis_points a \<and> sa_basis_points a \<le> 10000 \<and> of_sheet ss a"
    and "\<And>s. s \<in> set ss \<Longrightarrow> total_points (shares_of (ss_id s) as) \<le> 10000"
    and "\<And>s. s \<in> set ss \<Longrightarrow> ss_state s = OPEN_CONFIRMATION \<Longrightarrow> total_points (shares_of (ss_id s) as) = 10000"
  using assms unfolding shares_ok_def by blast+

text \<open>Changing the shares of one draft: the new shares of that sheet are what has to be checked.\<close>

lemma shares_okI:
  assumes "shares_ok ss as" and "sheets_ok ss" and sheet: "sheet \<in> set ss" "ss_state sheet = DRAFT"
    and "distinct (map (\<lambda>a. (sa_sheet_id a, sa_person_id a)) bs)"
    and "\<And>a. a \<in> set bs \<Longrightarrow> 1 \<le> sa_basis_points a \<and> sa_basis_points a \<le> 10000 \<and> of_sheet ss a"
    and other: "\<And>sid. sid \<noteq> ss_id sheet \<Longrightarrow> shares_of sid bs = shares_of sid as"
    and "total_points (shares_of (ss_id sheet) bs) \<le> 10000"
  shows "shares_ok ss bs"
  unfolding shares_ok_def
proof (intro conjI ballI impI)
  fix s assume s: "s \<in> set ss"
  show "total_points (shares_of (ss_id s) bs) \<le> 10000"
    using shares_okD(3) [OF assms(1) s] other [of "ss_id s"] assms(8) by (cases "ss_id s = ss_id sheet") simp_all
  assume o: "ss_state s = OPEN_CONFIRMATION"
  then have "ss_id s \<noteq> ss_id sheet" using sheet_unique [OF assms(2) s sheet(1)] sheet(2) by auto
  then show "total_points (shares_of (ss_id s) bs) = 10000"
    using shares_okD(4) [OF assms(1) s o] other [of "ss_id s"] by simp
qed (use assms(5,6) in simp_all)

text \<open>The allocations of a draft may be exchanged for others that keep within one hundred percent.\<close>

lemma new_allocations_inv:
  assumes "credits_inv db" and sheet: "sheet \<in> set (db_split_sheets db)" "ss_state sheet = DRAFT"
    and "shares_ok (db_split_sheets db) as" and "\<forall>a \<in> set as. person_bound db (sa_person_id a)"
    and other: "\<And>sid. sid \<noteq> ss_id sheet \<Longrightarrow> shares_of sid as = shares_of sid (db_split_allocations db)"
    and db': "db' = db\<lparr>db_split_allocations := as, db_split_allocation_seq := n\<rparr>"
  shows "credits_inv db' \<and> credits_extends db db'"
proof -
  note inv = credits_invD [OF assms(1)]
  have same: "people_db.truncate db' = people_db.truncate db" by (simp add: db')
  have ne: "sc_sheet_id c \<noteq> ss_id sheet" if "c \<in> set (db_split_confirmations db)" for c
  proof -
    obtain s where "s \<in> set (db_split_sheets db)" "ss_id s = sc_sheet_id c" "ss_state s \<noteq> DRAFT"
      using inv(5) \<open>c \<in> _\<close> unfolding confirmations_ok_def by blast
    then show ?thesis using sheet_unique [OF inv(3) _ sheet(1), of s] sheet(2) by auto
  qed
  have keep: "\<exists>a \<in> set as. sa_sheet_id a = sc_sheet_id c \<and> sa_person_id a = sc_person_id c"
    if c: "c \<in> set (db_split_confirmations db)" for c
  proof -
    obtain a where a: "a \<in> set (db_split_allocations db)" "sa_sheet_id a = sc_sheet_id c" "sa_person_id a = sc_person_id c"
      using inv(5) c unfolding confirmations_ok_def by blast
    then have "a \<in> set (shares_of (sc_sheet_id c) (db_split_allocations db))" by (simp add: shares_of_def)
    then have "a \<in> set (shares_of (sc_sheet_id c) as)" using other [OF ne [OF c]] by simp
    then show ?thesis using a by (auto simp: shares_of_def)
  qed
  have "confirmations_ok (db_split_sheets db) as (db_split_confirmations db)"
    using inv(5) keep unfolding confirmations_ok_def by blast
  then have agree: "credits_agree db'" using inv(3,6) assms(4) by (simp add: db' credits_agree_def)
  have refer: "credits_refer db'"
    using inv(2) assms(5) by (simp add: db' credits_refer_def list_all_iff)
  have "people_inv db'" using inv(1) people_inv_same [OF same] by simp
  with agree refer have "credits_inv db'" by (simp add: credits_inv_def credits_holds_def)
  moreover have nd: "ss_id s \<noteq> ss_id sheet" if "s \<in> set (db_split_sheets db)" "ss_state s \<noteq> DRAFT" for s
    using sheet_unique [OF inv(3) that(1) sheet(1)] that(2) sheet(2) by blast
  have "\<exists>t \<in> set (db_split_sheets db'). sheet_kept s t \<and> (ss_state s \<noteq> DRAFT
      \<longrightarrow> shares_of (ss_id s) (db_split_allocations db') = shares_of (ss_id s) (db_split_allocations db))"
    if "s \<in> set (db_split_sheets db)" for s
    using that other [of "ss_id s"] nd [OF that] by (intro bexI [of _ s]) (simp_all add: db')
  then have "credits_extends db db'"
    using people_extends_same [OF same] by (simp add: credits_extends_def db')
  ultimately show ?thesis by simp
qed

lemma delete_allocations_step:
  assumes "delete_allocations (ss_id sheet) db = Inr db'" and "credits_inv db"
    and sheet: "sheet \<in> set (db_split_sheets db)" "ss_state sheet = DRAFT"
  shows "credits_inv db' \<and> credits_extends db db' \<and> db_split_sheets db' = db_split_sheets db
    \<and> people_db.truncate db' = people_db.truncate db
    \<and> shares_of (ss_id sheet) (db_split_allocations db') = []"
proof -
  let ?as = "filter (\<lambda>a. sa_sheet_id a \<noteq> ss_id sheet) (db_split_allocations db)"
  note inv = credits_invD [OF assms(2)]
  have db': "db' = db\<lparr>db_split_allocations := ?as, db_split_allocation_seq := db_split_allocation_seq db\<rparr>"
    using assms(1) by (cases db) (auto simp: delete_allocations_def elim!: bindE_InrE)
  have other: "shares_of sid ?as = shares_of sid (db_split_allocations db)" if "sid \<noteq> ss_id sheet" for sid
    unfolding shares_of_def using that by (induction "db_split_allocations db") (auto simp: filter_filter intro: filter_cong)
  have gone: "shares_of (ss_id sheet) ?as = []" by (simp add: shares_of_def filter_empty_conv)
  have "shares_ok (db_split_sheets db) ?as"
    by (rule shares_okI [OF inv(4,3) sheet _ _ other])
      (use shares_okD(1,2) [OF inv(4)] gone in \<open>auto simp: distinct_map_filter\<close>)
  then have "credits_inv db' \<and> credits_extends db db'"
    by (rule new_allocations_inv [OF assms(2) sheet _ _ _ db'])
      (use inv(2) other in \<open>auto simp: credits_refer_def list_all_iff\<close>)
  then show ?thesis using gone by (simp add: db')
qed

lemma insert_allocation_step:
  assumes "insert_allocation a db = Inr db'" and "credits_inv db"
    and sheet: "sheet \<in> set (db_split_sheets db)" "ss_state sheet = DRAFT" "sa_sheet_id a = ss_id sheet"
    and "person_bound db (sa_person_id a)"
    and room: "total_points (shares_of (ss_id sheet) (db_split_allocations db)) + sa_basis_points a \<le> 10000"
  shows "credits_inv db' \<and> credits_extends db db' \<and> db_split_sheets db' = db_split_sheets db
    \<and> people_db.truncate db' = people_db.truncate db
    \<and> shares_of (ss_id sheet) (db_split_allocations db')
        = shares_of (ss_id sheet) (db_split_allocations db) @ [a]"
proof -
  let ?as = "db_split_allocations db @ [a]"
  note inv = credits_invD [OF assms(2)]
  from assms(1) have db': "db' = db\<lparr>db_split_allocations := ?as, db_split_allocation_seq := sa_seq a\<rparr>"
    and bind: "list_ex (\<lambda>s. ss_id s = sa_sheet_id a \<and> ss_artist_id s = sa_artist_id a
                               \<and> ss_song_id s = sa_song_id a) (db_split_sheets db)"
    and range: "1 \<le> sa_basis_points a" "sa_basis_points a \<le> 10000"
    and new: "\<not> list_ex (\<lambda>b. sa_sheet_id b = sa_sheet_id a \<and> sa_person_id b = sa_person_id a)
                (db_split_allocations db)"
    unfolding insert_allocation_def by (auto simp: guardE_eq_Inr elim!: bindE_InrE)
  have own: "of_sheet (db_split_sheets db) a" using bind by (auto simp: of_sheet_def list_ex_iff)
  have fresh: "(sa_sheet_id a, sa_person_id a) \<notin> (\<lambda>a. (sa_sheet_id a, sa_person_id a)) ` set (db_split_allocations db)"
    using new by (auto simp: list_ex_iff)
  have other: "shares_of sid ?as = shares_of sid (db_split_allocations db)" if "sid \<noteq> ss_id sheet" for sid
    using that sheet(3) by simp
  have row: "1 \<le> sa_basis_points b \<and> sa_basis_points b \<le> 10000 \<and> of_sheet (db_split_sheets db) b"
    if "b \<in> set ?as" for b
    using that shares_okD(2) [OF inv(4), of b] own range by auto
  have "shares_ok (db_split_sheets db) ?as"
    by (rule shares_okI [OF inv(4,3) sheet(1,2) _ row other])
      (use shares_okD(1) [OF inv(4)] fresh room sheet(3) in simp_all)
  then have "credits_inv db' \<and> credits_extends db db'"
    by (rule new_allocations_inv [OF assms(2) sheet(1,2) _ _ other db'])
      (use inv(2) assms(6) in \<open>auto simp: credits_refer_def list_all_iff\<close>)
  then show ?thesis using sheet(3) by (simp add: db')
qed

lemma person_bound_same: "people_db.truncate db' = people_db.truncate db \<Longrightarrow> person_bound db' = person_bound db"
  by (simp add: fun_eq_iff person_bound_def people_db.defs)

lemma insert_allocations_step:
  assumes "insert_allocations sheet ns db = Inr db'" and "credits_inv db"
    and sheet: "sheet \<in> set (db_split_sheets db)" "ss_state sheet = DRAFT"
    and "\<forall>(p, n) \<in> set ns. person_bound db p \<and> 0 < n"
    and "total_points (shares_of (ss_id sheet) (db_split_allocations db)) + sum_list (map snd ns) \<le> 10000"
  shows "credits_inv db' \<and> credits_extends db db' \<and> db_split_sheets db' = db_split_sheets db
    \<and> map (\<lambda>a. (sa_person_id a, sa_basis_points a)) (shares_of (ss_id sheet) (db_split_allocations db'))
        = map (\<lambda>a. (sa_person_id a, sa_basis_points a)) (shares_of (ss_id sheet) (db_split_allocations db)) @ ns"
  using assms
proof (induction ns arbitrary: db)
  case (Cons pn ns)
  obtain p n where pn: "pn = (p, n)" by (cases pn)
  obtain aid db1 where id: "new_id ''allocation'' db = (aid, db1)" by (cases "new_id ''allocation'' db") auto
  note d1 = new_id_draws [OF id]
  let ?a = "\<lparr>sa_seq = Suc (db_split_allocation_seq db1), sa_id = aid, sa_sheet_id = ss_id sheet,
      sa_artist_id = ss_artist_id sheet, sa_song_id = ss_song_id sheet, sa_person_id = p, sa_basis_points = n\<rparr>"
  from Cons.prems(1) obtain db2 where ins: "insert_allocation ?a db1 = Inr db2"
    and rest: "insert_allocations sheet ns db2 = Inr db'"
    by (auto simp: pn id Let_def elim!: bindE_InrE)
  have pos: "0 \<le> sum_list (map snd ns)"
    using Cons.prems(5) by (intro sum_list_nonneg) (auto simp: pn)
  have s: "credits_inv db2 \<and> credits_extends db1 db2 \<and> db_split_sheets db2 = db_split_sheets db1
    \<and> people_db.truncate db2 = people_db.truncate db1
    \<and> shares_of (ss_id sheet) (db_split_allocations db2)
        = shares_of (ss_id sheet) (db_split_allocations db1) @ [?a]"
    by (rule insert_allocation_step [OF ins _ _ Cons.prems(4)])
      (use Cons.prems pos in \<open>simp_all add: d1 pn\<close>)
  then have "person_bound db2 = person_bound db" using person_bound_same by (metis d1 bound_frames(12))
  then have "credits_inv db' \<and> credits_extends db2 db' \<and> db_split_sheets db' = db_split_sheets db2
    \<and> map (\<lambda>a. (sa_person_id a, sa_basis_points a)) (shares_of (ss_id sheet) (db_split_allocations db'))
        = map (\<lambda>a. (sa_person_id a, sa_basis_points a)) (shares_of (ss_id sheet) (db_split_allocations db2)) @ ns"
    by (intro Cons.IH [OF rest]) (use s Cons.prems in \<open>simp_all add: d1 pn\<close>)
  moreover have "credits_extends db db1" unfolding d1 by (rule credits_extends_draws)
  then have "credits_extends db db'" if "credits_extends db2 db'"
    using that s credits_extends_trans by blast
  ultimately show ?case using s by (simp add: d1 pn)
qed simp

text \<open>A sheet changes its state, and with it its closure note.\<close>

definition moved :: "split_sheet \<Rightarrow> split_sheet \<Rightarrow> split_sheet \<Rightarrow> split_sheet" where
  "moved old new s = (if ss_id s = ss_id old then new else s)"

lemma map_moved_id: "ss_id new = ss_id old \<Longrightarrow> map ss_id (map (moved old new) ss) = map ss_id ss"
  by (simp add: moved_def comp_def)

lemma filter_map_distinct:
  assumes "distinct (map f (filter P xs))" and "\<And>x. x \<in> set xs \<Longrightarrow> f (g x) = f x \<and> (P (g x) \<longrightarrow> P x)"
  shows "distinct (map f (filter P (map g xs)))"
  using assms by (induction xs) (auto split: if_splits)

lemma moved_keeps:
  assumes "sheets_ok ss" and "old \<in> set ss" and "s \<in> set ss" and "split_step (ss_state old) st"
    and new: "new = old\<lparr>ss_state := st, ss_closure_note := cn\<rparr>"
  shows "ss_id (moved old new s) = ss_id s \<and> ss_song_id (moved old new s) = ss_song_id s
      \<and> ss_artist_id (moved old new s) = ss_artist_id s" and "sheet_kept s (moved old new s)"
    and "ss_state s \<noteq> DRAFT \<longrightarrow> ss_state (moved old new s) \<noteq> DRAFT"
    and "active_state (ss_state (moved old new s)) \<longrightarrow> active_state (ss_state s)"
proof -
  have "moved old new s = s \<or> s = old \<and> moved old new s = new"
    using sheet_unique [OF assms(1,3,2)] by (auto simp: moved_def)
  then show "ss_id (moved old new s) = ss_id s \<and> ss_song_id (moved old new s) = ss_song_id s
      \<and> ss_artist_id (moved old new s) = ss_artist_id s" and "sheet_kept s (moved old new s)"
    and "ss_state s \<noteq> DRAFT \<longrightarrow> ss_state (moved old new s) \<noteq> DRAFT"
    and "active_state (ss_state (moved old new s)) \<longrightarrow> active_state (ss_state s)"
    using assms(4) by (auto simp: new sheet_kept_def split_step_simps active_state_def)
qed

lemma moved_agrees:
  assumes ss: "sheets_ok ss" "old \<in> set ss" and step: "split_step (ss_state old) st"
    and new: "new = old\<lparr>ss_state := st, ss_closure_note := cn\<rparr>"
    and as: "shares_ok ss as"
    and full: "st = OPEN_CONFIRMATION \<Longrightarrow> total_points (shares_of (ss_id old) as) = 10000"
  shows "sheets_ok (map (moved old new) ss)" and "shares_ok (map (moved old new) ss) as"
    and "confirmations_ok ss as cs \<Longrightarrow> confirmations_ok (map (moved old new) ss) as cs"
proof -
  note keeps = moved_keeps [OF ss _ step new]
  have "distinct (map ss_song_id (filter (\<lambda>s. active_state (ss_state s)) (map (moved old new) ss)))"
    by (rule filter_map_distinct) (use ss(1) keeps(1,4) in \<open>simp_all add: sheets_ok_def\<close>)
  moreover have "map ss_id (map (moved old new) ss) = map ss_id ss" by (rule map_moved_id) (simp add: new)
  ultimately show "sheets_ok (map (moved old new) ss)" using ss(1) by (simp only: sheets_ok_def)
  have own: "of_sheet (map (moved old new) ss) b" if "of_sheet ss b" for b
    using that keeps(1) by (auto simp: of_sheet_def)
  have "total_points (shares_of (ss_id t) as) \<le> 10000
      \<and> (ss_state t = OPEN_CONFIRMATION \<longrightarrow> total_points (shares_of (ss_id t) as) = 10000)"
    if t: "t \<in> set (map (moved old new) ss)" for t
  proof -
    obtain s where s: "s \<in> set ss" "t = moved old new s" using t by auto
    have "t = s \<or> s = old \<and> t = new" using sheet_unique [OF ss(1) s(1) ss(2)] s(2) by (auto simp: moved_def)
    then show ?thesis using shares_okD(3,4) [OF as s(1)] full by (auto simp: new)
  qed
  then show "shares_ok (map (moved old new) ss) as" using as own unfolding shares_ok_def by blast
  assume cs: "confirmations_ok ss as cs"
  have "\<exists>t \<in> set (map (moved old new) ss). ss_id t = sc_sheet_id c \<and> ss_artist_id t = sc_artist_id c
      \<and> ss_song_id t = sc_song_id c \<and> ss_state t \<noteq> DRAFT" if c: "c \<in> set cs" for c
  proof -
    obtain s where s: "s \<in> set ss" "ss_id s = sc_sheet_id c" "ss_artist_id s = sc_artist_id c"
      "ss_song_id s = sc_song_id c" "ss_state s \<noteq> DRAFT"
      using cs c unfolding confirmations_ok_def by blast
    then show ?thesis using keeps(1,3) [OF s(1)] by (intro bexI [of _ "moved old new s"]) simp_all
  qed
  then show "confirmations_ok (map (moved old new) ss) as cs" using cs unfolding confirmations_ok_def by blast
qed

lemma update_split_sheet_step:
  assumes "update_split_sheet old new db = Inr db'" and "credits_inv db" and old: "old \<in> set (db_split_sheets db)"
    and new: "new = old\<lparr>ss_state := st, ss_closure_note := cn\<rparr>"
  shows "credits_inv db' \<and> credits_extends db db'
    \<and> db_split_sheets db' = map (moved old new) (db_split_sheets db)"
proof -
  let ?ss = "db_split_sheets db" let ?as = "db_split_allocations db"
  let ?db = "db\<lparr>db_split_sheets := map (moved old new) ?ss\<rparr>"
  note inv = credits_invD [OF assms(2)]
  from assms(1) have a: "insert_activity
       (if ss_state new = OPEN_CONFIRMATION then ''COMPOSITION_SPLIT_SUBMITTED'' else ''COMPOSITION_SPLIT_VOIDED'')
       (ss_artist_id new) (Some (ss_song_id new)) None ''COMPOSITION_SPLIT'' (ss_id new) ?db = Inr db'"
    unfolding update_split_sheet_def moved_def by (elim bindE_InrE)
  from assms(1) have tv: "transition_valid old new"
    and sum: "\<not> (ss_state old = DRAFT \<and> ss_state new = OPEN_CONFIRMATION
          \<and> (let as = filter (\<lambda>a. sa_sheet_id a = ss_id old) ?as in as = [] \<or> total_points as \<noteq> 10000))"
    unfolding update_split_sheet_def by (elim bindE_InrE, simp add: guardE_eq_Inr)+
  have step: "split_step (ss_state old) st" using tv by (auto simp: transition_valid_def new split_step_simps)
  have full: "st = OPEN_CONFIRMATION \<Longrightarrow> total_points (shares_of (ss_id old) ?as) = 10000"
    using sum step by (auto simp: new shares_of_def Let_def split_step_simps)
  note agree = moved_agrees [OF inv(3) old step new inv(4) full]
  have "sheet_ok db old" using inv(2) old by (simp add: credits_refer_def list_all_iff)
  then have "sheet_ok db new" using tv by (auto simp: sheet_ok_def new transition_valid_def)
  then have "list_all (sheet_ok db) (map (moved old new) ?ss)"
    using inv(2) by (auto simp: credits_refer_def list_all_iff moved_def)
  then have "credits_holds ?db"
    using inv(2,6) agree(1,2) agree(3) [OF _ inv(5)]
    by (simp add: credits_holds_def credits_refer_def credits_agree_def)
  then have r: "credits_inv db' \<and> people_extends db db' \<and> db_credits db' = db_credits ?db
    \<and> db_split_sheets db' = db_split_sheets ?db \<and> db_split_allocations db' = db_split_allocations ?db
    \<and> db_split_confirmations db' = db_split_confirmations ?db"
    by (intro credits_statement [OF a assms(2)]) simp_all
  then have "credits_extends db db'"
    using moved_keeps(2) [OF inv(3) old _ step new] by (auto simp: credits_extends_def)
  then show ?thesis using r by simp
qed

subsection \<open>Each operation\<close>

lemma credits_song_Inr:
  assumes "credits_song db sid = Inr s" and "primary_artist_id db = Inr a"
  shows "song_bound db a (so_id s)"
  using assms by (auto simp: credits_song_def song_bound_def guardE_eq_Inr dest!: get_song_Some
      elim!: bindE_InrE split: option.splits)

lemma credits_person_Inr: "credits_person db pid = Inr p \<Longrightarrow> person_bound db (pn_id p)"
  by (auto simp: credits_person_def person_bound_def dest!: get_person_Some elim!: bindE_InrE split: option.splits)

lemma credits_lits: "trimmed ''split''"
  by (simp add: trimmed_def is_space_def code_def)

lemma when_integrity_Inr [simp]: "when_integrity msg r = Inr x \<longleftrightarrow> r = Inr x"
  by (auto simp: when_integrity_def split: sum.splits if_splits)

lemma record_credit_inv:
  assumes "record_credit song person role ctx db = Inr (c, db')" and "credits_inv db"
  shows "credits_inv db' \<and> credits_extends db db'"
proof -
  obtain cid db1 where id: "new_id ''credit'' db = (cid, db1)" by (cases "new_id ''credit'' db") auto
  note d1 = new_id_draws [OF id]
  from assms(1) obtain s p r x a where s: "credits_song db song = Inr s" and p: "credits_person db person = Inr p"
    and a: "primary_artist_id db1 = Inr a"
    and ins: "insert_credit \<lparr>cr_seq = Suc (length (db_credits db1)), cr_id = cid, cr_artist_id = a,
          cr_song_id = so_id s, cr_person_id = pn_id p, cr_role = r, cr_role_context = x,
          cr_truth_type = CREDIT_TRUTH_TYPE\<rparr> db1 = Inr db'"
    unfolding record_credit_def id Let_def prod.case by (elim bindE_InrE) (auto split: option.splits)
  have "primary_artist_id db = Inr a" using a by (simp add: d1 primary_artist_id_def)
  then have "credits_inv db' \<and> credits_extends db1 db'"
    using insert_credit_step [OF ins] assms(2) credits_song_Inr [OF s] credits_person_Inr [OF p]
    by (simp add: d1 credit_ok_def)
  then show ?thesis using credits_extends_trans [OF credits_extends_draws] unfolding d1 by blast
qed

lemma create_split_draft_Inr:
  assumes "create_split_draft song db = Inr (s, db')" and "credits_inv db"
  shows "credits_inv db' \<and> credits_extends db db'"
proof -
  obtain sid db1 where id: "new_id ''split'' db = (sid, db1)" by (cases "new_id ''split'' db") auto
  note d1 = new_id_draws [OF id]
  from assms(1) obtain g a where g: "credits_song db song = Inr g" and a: "primary_artist_id db1 = Inr a"
    and ins: "insert_split_sheet \<lparr>ss_seq = Suc (length (db_split_sheets db1)), ss_id = sid, ss_artist_id = a,
          ss_song_id = so_id g, ss_state = DRAFT, ss_closure_note = None\<rparr> db1 = Inr db'"
    unfolding create_split_draft_def id Let_def prod.case by (elim bindE_InrE) (auto split: option.splits)
  have "primary_artist_id db = Inr a" using a by (simp add: d1 primary_artist_id_def)
  moreover have "trimmed sid"
    using new_id_trimmed [OF id] credits_invD(1) [OF assms(2)] credits_lits by (simp add: people_inv_def)
  ultimately have "credits_inv db' \<and> credits_extends db1 db'"
    using insert_split_sheet_step [OF ins] assms(2) credits_song_Inr [OF g] by (simp add: d1 sheet_ok_def)
  then show ?thesis using credits_extends_trans [OF credits_extends_draws] unfolding d1 by blast
qed

lemma require_split_sheet_Inr:
  "require_split_sheet db sid = Inr s \<Longrightarrow> s \<in> set (db_split_sheets db) \<and> ss_id s = strip sid"
  by (auto simp: require_split_sheet_def get_split_sheet_def find_Some_iff in_set_conv_nth split: option.splits)

lemma normalize_allocations_Inr:
  assumes "normalize_allocations db seen as = Inr ns"
  shows "(\<forall>(p, n) \<in> set ns. person_bound db p \<and> 0 < n \<and> n \<le> 10000) \<and> map snd ns = map snd as
    \<and> distinct (map fst ns) \<and> set (map fst ns) \<inter> set seen = {}"
  using assms
proof (induction as arbitrary: seen ns)
  case (Cons pn as)
  obtain pid n where pn: "pn = (pid, n)" by (cases pn)
  from Cons.prems obtain p ms where p: "credits_person db pid = Inr p" "pn_id p \<notin> set seen" "0 < n" "n \<le> 10000"
    and rest: "normalize_allocations db (pn_id p # seen) as = Inr ms" and ns: "ns = (pn_id p, n) # ms"
    by (auto simp: pn guardE_eq_Inr elim!: bindE_InrE)
  show ?case using Cons.IH [OF rest] p credits_person_Inr [OF p(1)] by (auto simp: ns pn)
qed simp

lemma set_draft_allocations_Inr:
  assumes "set_draft_allocations sid as db = Inr (rows, db')" and "credits_inv db"
  shows "credits_inv db' \<and> credits_extends db db' \<and> map sa_basis_points rows = map snd as"
proof -
  from assms(1) obtain s ns db1 where s: "require_split_sheet db sid = Inr s" "ss_state s = DRAFT"
    and ns: "normalize_allocations db [] as = Inr ns" "sum_list (map snd ns) \<le> 10000"
    and del: "delete_allocations (ss_id s) db = Inr db1" and ins: "insert_allocations s ns db1 = Inr db'"
    and rows: "rows = split_allocations db' (ss_id s)"
    unfolding set_draft_allocations_def by (auto simp: guardE_eq_Inr elim!: bindE_InrE)
  have sm: "s \<in> set (db_split_sheets db)" using require_split_sheet_Inr [OF s(1)] by blast
  note n = normalize_allocations_Inr [OF ns(1)]
  have pos: "\<forall>(p, n) \<in> set ns. person_bound db p \<and> 0 < n" using n by blast
  have d: "credits_inv db1 \<and> credits_extends db db1 \<and> db_split_sheets db1 = db_split_sheets db
    \<and> people_db.truncate db1 = people_db.truncate db \<and> shares_of (ss_id s) (db_split_allocations db1) = []"
    by (rule delete_allocations_step [OF del assms(2) sm s(2)])
  have "person_bound db1 = person_bound db" using person_bound_same d by blast
  then have i: "credits_inv db' \<and> credits_extends db1 db' \<and> db_split_sheets db' = db_split_sheets db1
    \<and> map (\<lambda>a. (sa_person_id a, sa_basis_points a)) (shares_of (ss_id s) (db_split_allocations db'))
        = map (\<lambda>a. (sa_person_id a, sa_basis_points a)) (shares_of (ss_id s) (db_split_allocations db1)) @ ns"
    by (intro insert_allocations_step [OF ins]) (use d s(2) sm ns(2) pos in simp_all)
  have "strip (ss_id s) = ss_id s"
    using credits_invD(2) [OF assms(2)] sm by (simp add: credits_refer_def list_all_iff sheet_ok_def strip_trimmed)
  then have "rows = shares_of (ss_id s) (db_split_allocations db')"
    by (simp add: rows split_allocations_def shares_of_def)
  then have "map (\<lambda>a. (sa_person_id a, sa_basis_points a)) rows = ns" using i d by simp
  then have "map snd (map (\<lambda>a. (sa_person_id a, sa_basis_points a)) rows) = map snd ns" by simp
  then have "map sa_basis_points rows = map snd ns" by (simp add: comp_def)
  moreover have "credits_extends db db'" using credits_extends_trans i d by blast
  moreover have "map snd ns = map snd as" using n by blast
  ultimately show ?thesis using i by simp
qed

lemma move_split_sheet_Inr:
  assumes "move_split_sheet sid from target nf changed failed unread db = Inr (r, db')" and "credits_inv db"
  obtains s where "credits_inv db'" "credits_extends db db'" "s \<in> set (db_split_sheets db)" "ss_id s = sid"
    "ss_state s \<in> set from" "get_split_sheet db' sid = Some r" "ss_state r = target"
    "db_split_sheets db' = map (moved s (s\<lparr>ss_state := target, ss_closure_note := nf (ss_closure_note s)\<rparr>))
       (db_split_sheets db)"
proof -
  from assms(1) obtain s where f: "find (\<lambda>s. ss_id s = sid \<and> ss_state s \<in> set from) (db_split_sheets db) = Some s"
    and u: "update_split_sheet s (s\<lparr>ss_state := target, ss_closure_note := nf (ss_closure_note s)\<rparr>) db = Inr db'"
    and r: "get_split_sheet db' sid = Some r" "ss_state r = target"
    unfolding move_split_sheet_def by (auto simp: guardE_eq_Inr elim!: bindE_InrE split: option.splits)
  have s: "s \<in> set (db_split_sheets db)" "ss_id s = sid" "ss_state s \<in> set from"
    using f by (auto simp: find_Some_iff in_set_conv_nth)
  show ?thesis using update_split_sheet_step [OF u assms(2) s(1) refl] that s r by blast
qed

lemma submit_split_inv:
  "submit_split sid db = Inr (r, db') \<Longrightarrow> credits_inv db \<Longrightarrow> credits_inv db' \<and> credits_extends db db'"
  unfolding submit_split_def Let_def by (elim bindE_InrE) (blast elim: move_split_sheet_Inr)

lemma void_split_inv:
  "void_split sid reason db = Inr (r, db') \<Longrightarrow> credits_inv db \<Longrightarrow> credits_inv db' \<and> credits_extends db db'"
  unfolding void_split_def by (elim bindE_InrE) (blast elim: move_split_sheet_Inr)

lemma record_confirmation_inv:
  assumes "record_confirmation sid person status msg db = Inr (c, db')" and "credits_inv db"
  shows "credits_inv db' \<and> credits_extends db db'"
proof -
  obtain cid db1 where id: "new_id ''confirmation'' db = (cid, db1)" by (cases "new_id ''confirmation'' db") auto
  note d1 = new_id_draws [OF id]
  from assms(1) obtain k where ins: "insert_confirmation k db1 = Inr db'" and t: "sc_truth_type k = CREDIT_TRUTH_TYPE"
    unfolding record_confirmation_def id Let_def prod.case
    by (elim bindE_InrE) (auto elim!: bindE_InrE split: option.splits)
  have "credits_inv db' \<and> credits_extends db1 db'"
    using insert_confirmation_step [OF ins _ t] assms(2) by (simp add: d1)
  then show ?thesis using credits_extends_trans [OF credits_extends_draws] unfolding d1 by blast
qed

subsection \<open>The memory of credits as a machine\<close>

datatype credits_cmd =
    Credits_People people_cmd
  | Record_Credit string string string "string option"
  | Create_Split string
  | Set_Allocations string "(string \<times> int) list"
  | Submit_Split string
  | Record_Confirmation string string string string
  | Void_Split string string

fun exec_credits :: "credits_cmd \<Rightarrow> 'a credits_db_scheme \<Rightarrow> 'a credits_db_scheme res" where
  "exec_credits (Credits_People c) db = exec_people c db"
| "exec_credits (Record_Credit song person role ctx) db = map_sum id snd (record_credit song person role ctx db)"
| "exec_credits (Create_Split song) db = map_sum id snd (create_split_draft song db)"
| "exec_credits (Set_Allocations sid as) db = map_sum id snd (set_draft_allocations sid as db)"
| "exec_credits (Submit_Split sid) db = map_sum id snd (submit_split sid db)"
| "exec_credits (Record_Confirmation sid person status msg) db =
     map_sum id snd (record_confirmation sid person status msg db)"
| "exec_credits (Void_Split sid reason) db = map_sum id snd (void_split sid reason db)"

lemma exec_credits_inv:
  assumes "exec_credits c db = Inr db'" and "credits_inv db"
  shows "credits_inv db' \<and> credits_extends db db'"
proof (cases c)
  case (Credits_People p)
  with assms(1) have "exec_people p db = Inr db'" by simp
  from credits_store.people_step [OF this] have
    r: "people_inv db' \<and> people_extends db db' \<and> people_db.more db' = people_db.more db \<and> credits_holds db'"
    using assms(2) by (simp add: credits_inv_def)
  then have "credits_extends db db'"
    using more_credits [of db' db] by (auto simp: credits_extends_def intro: bexI sheet_kept_refl)
  then show ?thesis using r by (simp add: credits_inv_def)
qed (use assms in \<open>auto simp: map_sum_snd_Inr dest: record_credit_inv create_split_draft_Inr set_draft_allocations_Inr
       submit_split_inv record_confirmation_inv void_split_inv\<close>)

interpretation credits_machine: logged_machine exec_credits credits_inv db_credits
  by unfold_locales (auto simp: credits_extends_def dest: exec_credits_inv)

interpretation confirmation_log: logged_machine exec_credits credits_inv db_split_confirmations
  by unfold_locales (auto simp: credits_extends_def dest: exec_credits_inv)

lemma credits_run_extends: "credits_inv db \<Longrightarrow> credits_extends db (run_cmds exec_credits cs db)"
proof (induction cs arbitrary: db)
  case (Cons c cs)
  show ?case
  proof (cases "exec_credits c db")
    case (Inr db')
    then show ?thesis using exec_credits_inv [OF Inr Cons.prems] Cons.IH credits_extends_trans by simp blast
  qed (use Cons in simp)
qed simp

lemma install_credits_inv:
  assumes "people_inv db"
  shows "credits_inv (install_credits db)"
proof -
  have "people_inv (install_credits db)"
    unfolding install_credits_def extend_people_inv
    by (rule schema_version_people_inv) (use assms in \<open>simp_all\<close>)
  then show ?thesis
    by (simp add: credits_inv_def credits_holds_def credits_refer_def credits_agree_def install_credits_def
        people_db.defs credits_db.defs sheets_ok_def shares_ok_def confirmations_ok_def)
qed

definition credits_reachable :: "credits_db \<Rightarrow> bool" where
  "credits_reachable db \<longleftrightarrow> (\<exists>random name db0 cs. hex_stream random \<and> create_profile random name = Inr db0
     \<and> db = run_cmds exec_credits cs (install_credits (install_people (install_evidence db0))))"

lemma credits_reachable_inv: "credits_reachable db \<Longrightarrow> credits_inv db"
  unfolding credits_reachable_def
  using credits_machine.run_inv install_credits_inv created_people_inv by blast

lemma credits_reachable_run: "credits_reachable db \<Longrightarrow> credits_reachable (run_cmds exec_credits cs db)"
  unfolding credits_reachable_def using run_cmds_append by metis

subsection \<open>Reading\<close>

lemma sheet_row:
  assumes "credits_inv db" and "s \<in> set (db_split_sheets db)" and "strip sid = ss_id s"
  shows "get_split_sheet db sid = Some s"
proof -
  have "get_split_sheet db sid \<noteq> None" using assms(2,3) by (auto simp: get_split_sheet_def find_None_iff)
  then obtain t where t: "get_split_sheet db sid = Some t" by blast
  then have "t \<in> set (db_split_sheets db)" "ss_id t = strip sid"
    by (auto simp: get_split_sheet_def find_Some_iff in_set_conv_nth)
  then have "t = s" using sheet_unique [OF credits_invD(3) [OF assms(1)] _ assms(2)] assms(3) by simp
  then show ?thesis using t by simp
qed

lemma sheet_facts:
  assumes "credits_inv db" and "s \<in> set (db_split_sheets db)"
  shows "strip (ss_id s) = ss_id s" and "song_bound db (ss_artist_id s) (ss_song_id s)"
    and "ss_closure_note s = None \<longleftrightarrow> ss_state s \<noteq> VOIDED"
    and "split_allocations db (ss_id s) = shares_of (ss_id s) (db_split_allocations db)"
proof -
  have ok: "sheet_ok db s" using credits_invD(2) [OF assms(1)] assms(2) by (simp add: credits_refer_def list_all_iff)
  then show st: "strip (ss_id s) = ss_id s" and "song_bound db (ss_artist_id s) (ss_song_id s)"
    and "ss_closure_note s = None \<longleftrightarrow> ss_state s \<noteq> VOIDED" by (simp_all add: sheet_ok_def strip_trimmed)
  show "split_allocations db (ss_id s) = shares_of (ss_id s) (db_split_allocations db)"
    by (simp add: split_allocations_def shares_of_def st)
qed

lemma credits_song_total:
  assumes "people_inv db" and "song_bound db artist sid"
  shows "\<exists>s. credits_song db sid = Inr s \<and> so_id s = sid \<and> so_artist_id s = artist"
proof -
  have b: "sid \<in> so_id ` set (db_songs db)" "strip sid = sid" "primary_artist_id db = Inr artist"
    using assms(2) by (simp_all add: song_bound_def)
  obtain s where s: "get_song db sid = Some s" "primary_artist_id db = Inr (so_artist_id s)"
    by (rule song_artist [OF assms(1) b(1)])
  then have "so_id s = sid" using get_song_Some [OF s(1)] by simp
  then show ?thesis using s b by (simp add: credits_song_def guardE_def)
qed

lemma credits_person_total:
  assumes "people_inv db" and "person_bound db pid" and "primary_artist_id db = Inr artist"
  shows "\<exists>p. credits_person db pid = Inr p \<and> pn_id p = pid \<and> pn_artist_id p = artist"
proof -
  from assms(2) obtain p where p: "p \<in> set (db_people db)" "pn_id p = pid" by (auto simp: person_bound_def)
  have ok: "trimmed (pn_id p)" "primary_artist_id db = Inr (pn_artist_id p)"
    using assms(1) p(1) unfolding people_inv_def list_all_iff person_ok_def by blast+
  have "get_person db (strip pid) = Some p"
    by (rule get_person_row [OF assms(1) p(1)]) (use ok p(2) in \<open>simp add: strip_trimmed\<close>)
  then show ?thesis using p(2) ok(2) assms(3) by (simp add: credits_person_def guardE_def)
qed

lemma share_person:
  assumes "credits_inv db" and "s \<in> set (db_split_sheets db)" and "a \<in> set (split_allocations db (ss_id s))"
  shows "\<exists>p. credits_person db (sa_person_id a) = Inr p \<and> pn_id p = sa_person_id a \<and> pn_artist_id p = ss_artist_id s"
proof (rule credits_person_total)
  show "people_inv db" by (rule credits_invD [OF assms(1)])
  show "person_bound db (sa_person_id a)"
    using credits_invD(2) [OF assms(1)] assms(3) by (simp add: credits_refer_def list_all_iff split_allocations_def)
  show "primary_artist_id db = Inr (ss_artist_id s)"
    using sheet_facts(2) [OF assms(1,2)] by (simp add: song_bound_def)
qed

text \<open>What the people of a sheet have said last.\<close>

definition last_word :: "'a credits_db_scheme \<Rightarrow> string \<Rightarrow> string \<Rightarrow> confirmation_status option" where
  "last_word db sid pid =
     (let cs = filter (\<lambda>c. sc_sheet_id c = sid \<and> sc_person_id c = pid) (db_split_confirmations db)
      in if cs = [] then None else Some (sc_status (last cs)))"

lemma confirmation_state_total:
  assumes "credits_inv db" and "s \<in> set (db_split_sheets db)" and "a \<in> set (split_allocations db (ss_id s))"
  shows "confirmation_state db (ss_id s) (sa_person_id a) = Inr (last_word db (ss_id s) (sa_person_id a))"
proof -
  obtain p where "credits_person db (sa_person_id a) = Inr p" "pn_id p = sa_person_id a"
    using share_person [OF assms] by blast
  then show ?thesis
    by (simp add: confirmation_state_def latest_confirmation_def last_word_def sheet_facts(1) [OF assms(1,2)] Let_def)
qed

lemma all_confirmed_eq:
  assumes "\<And>a. a \<in> set as \<Longrightarrow> confirmation_state db sid (sa_person_id a) = Inr (w (sa_person_id a))"
  shows "all_confirmed db sid as = Inr (\<forall>a \<in> set as. w (sa_person_id a) = Some RECORDED_CONFIRMED)"
  using assms by (induction as) simp_all

lemma sheet_later:
  assumes "credits_inv db" and "s \<in> set (db_split_sheets db)"
  obtains t where "t \<in> set (db_split_sheets (run_cmds exec_credits cs db))" "sheet_kept s t"
    "ss_state s \<noteq> DRAFT \<Longrightarrow> shares_of (ss_id s) (db_split_allocations (run_cmds exec_credits cs db))
       = shares_of (ss_id s) (db_split_allocations db)"
  using credits_run_extends [OF assms(1), of cs] assms(2) unfolding credits_extends_def by blast

lemma submit_split_Inr:
  assumes "submit_split sid db = Inr (r, db')" and "credits_inv db"
  shows "credits_inv db' \<and> r \<in> set (db_split_sheets db') \<and> ss_id r = strip sid \<and> ss_state r = OPEN_CONFIRMATION"
proof -
  from assms(1) obtain s where s: "require_split_sheet db sid = Inr s"
    and m: "move_split_sheet (ss_id s) [DRAFT] OPEN_CONFIRMATION id
       ''composition split changed while it was being submitted'' ''cannot submit composition split''
       ''submitted composition split could not be read back'' db = Inr (r, db')"
    unfolding submit_split_def Let_def by (elim bindE_InrE) auto
  have id: "ss_id s = strip sid" using require_split_sheet_Inr [OF s] by blast
  from move_split_sheet_Inr [OF m assms(2)] have
    "credits_inv db'" "get_split_sheet db' (ss_id s) = Some r" "ss_state r = OPEN_CONFIRMATION" by blast+
  then show ?thesis by (auto simp: get_split_sheet_def find_Some_iff in_set_conv_nth id)
qed

lemma active_unique:
  assumes "sheets_ok ss" and "s \<in> set ss" "t \<in> set ss" and "active_state (ss_state s)" "active_state (ss_state t)"
    and "ss_song_id s = ss_song_id t"
  shows "s = t"
proof -
  have "inj_on ss_song_id (set (filter (\<lambda>s. active_state (ss_state s)) ss))"
    using assms(1) by (simp add: sheets_ok_def distinct_map del: set_filter)
  then show ?thesis by (rule inj_onD) (use assms in simp_all)
qed

lemma credit_again_fails:
  assumes "c \<in> set (db_credits db)" and "cr_song_id d = cr_song_id c" "cr_person_id d = cr_person_id c"
    and "nocase (cr_role d) = nocase (cr_role c)"
  shows "insert_credit d db \<noteq> Inr db'"
  using assms by (auto simp: insert_credit_def guardE_eq_Inr list_ex_iff elim!: bindE_InrE)

lemma get_credit_Some: "get_credit db cid = Some c \<Longrightarrow> c \<in> set (db_credits db)"
  by (auto simp: get_credit_def find_Some_iff in_set_conv_nth)

lemma credits_song_id: "credits_song db sid = Inr s \<Longrightarrow> so_id s = strip sid"
  by (auto simp: credits_song_def dest!: get_song_Some elim!: bindE_InrE split: option.splits)

lemma credits_person_id: "credits_person db pid = Inr p \<Longrightarrow> pn_id p = strip pid"
  by (auto simp: credits_person_def dest!: get_person_Some elim!: bindE_InrE split: option.splits)

lemma record_credit_row:
  assumes "record_credit song person role ctx db = Inr (c, db')"
  obtains d db1 s p where "insert_credit d db1 = Inr db'" "credits_song db song = Inr s" "credits_person db person = Inr p"
    "cr_song_id d = so_id s" "cr_person_id d = pn_id p" "cr_role d = squeeze role" "db_credits db1 = db_credits db"
proof -
  obtain cid db1 where id: "new_id ''credit'' db = (cid, db1)" by (cases "new_id ''credit'' db") auto
  from assms obtain s p r x a where r: "credits_song db song = Inr s" "credits_person db person = Inr p"
      "clean_text role ''role'' 120 = Inr r"
    and ins: "insert_credit \<lparr>cr_seq = Suc (length (db_credits db1)), cr_id = cid, cr_artist_id = a,
          cr_song_id = so_id s, cr_person_id = pn_id p, cr_role = r, cr_role_context = x,
          cr_truth_type = CREDIT_TRUTH_TYPE\<rparr> db1 = Inr db'"
    unfolding record_credit_def id Let_def prod.case by (elim bindE_InrE) (auto split: option.splits)
  have "db_credits db1 = db_credits db" using new_id_draws [OF id] by simp
  moreover have "r = squeeze role" using r(3) by (simp add: clean_text_Inr)
  ultimately show ?thesis using that [OF ins r(1,2)] by simp
qed

lemma insert_credit_appends:
  assumes "insert_credit c db = Inr db'"
  shows "c \<in> set (db_credits db')"
proof -
  from assms have "insert_activity ''SONG_CREDIT_RECORDED'' (cr_artist_id c) (Some (cr_song_id c)) None
      ''SONG_CREDIT'' (cr_id c) (db\<lparr>db_credits := db_credits db @ [c]\<rparr>) = Inr db'"
    unfolding insert_credit_def by (elim bindE_InrE)
  then show ?thesis by (elim insert_activity_Inr) simp
qed

subsection \<open>Properties\<close>

text \<open>
  C23. Shares are whole basis points and never exceed one hundred percent: on every reachable sheet each
  share is between 1 and 10000, nobody has two, the sum is at most 10000, and once the sheet is submitted
  it is exactly 10000.
\<close>

theorem split_shares_bounded:
  assumes "credits_reachable db" and "s \<in> set (db_split_sheets db)"
    and "shares = split_allocations db (ss_id s)"
  shows "(\<forall>a \<in> set shares. 1 \<le> sa_basis_points a \<and> sa_basis_points a \<le> 10000)
    \<and> distinct (map sa_person_id shares) \<and> total_points shares \<le> 10000
    \<and> (ss_state s = OPEN_CONFIRMATION \<longrightarrow> shares \<noteq> [] \<and> total_points shares = 10000)"
proof -
  have inv: "credits_inv db" by (rule credits_reachable_inv [OF assms(1)])
  note ok = shares_okD [OF credits_invD(4) [OF inv]]
  have sh: "shares = shares_of (ss_id s) (db_split_allocations db)"
    using sheet_facts(4) [OF inv assms(2)] assms(3) by simp
  have "distinct (map (\<lambda>a. (sa_sheet_id a, sa_person_id a)) shares)"
    using ok(1) by (simp add: sh shares_of_def distinct_map_filter)
  then have "distinct (map snd (map (\<lambda>a. (sa_sheet_id a, sa_person_id a)) shares))"
    by (subst distinct_map) (auto simp: sh shares_of_def inj_on_def)
  then have "distinct (map sa_person_id shares)" by (simp add: comp_def)
  moreover have "1 \<le> sa_basis_points a \<and> sa_basis_points a \<le> 10000" if "a \<in> set shares" for a
    using ok(2) [of a] that by (simp add: sh shares_of_def)
  moreover have "shares \<noteq> []" if "total_points shares = 10000" using that by auto
  moreover have "total_points shares \<le> 10000" using ok(3) [OF assms(2)] sh by simp
  moreover have "total_points shares = 10000" if "ss_state s = OPEN_CONFIRMATION" using ok(4) [OF assms(2) that] sh by simp
  ultimately show ?thesis by blast
qed

text \<open>
  C24. What was submitted stays as it was: whatever happens after a submission, the shares of the sheet
  are those that were submitted, and attempts to change them or to submit again fail.
\<close>

theorem submitted_split_frozen:
  assumes "credits_reachable db" and "submit_split sid db = Inr (s, db')"
    and "db2 = run_cmds exec_credits cs db'"
  shows "split_allocations db2 (ss_id s) = split_allocations db' (ss_id s)
    \<and> total_points (split_allocations db2 (ss_id s)) = 10000
    \<and> set_draft_allocations (ss_id s) new db2
        = Inl (Raise ValidationError ''submitted composition split allocations are immutable'')
    \<and> submit_split (ss_id s) db2
        = Inl (Raise ValidationError ''only a draft composition split can be submitted'')"
proof -
  have r: "credits_inv db'" "s \<in> set (db_split_sheets db')" "ss_state s = OPEN_CONFIRMATION"
    using submit_split_Inr [OF assms(2) credits_reachable_inv [OF assms(1)]] by simp_all
  obtain t where t: "t \<in> set (db_split_sheets db2)" "sheet_kept s t"
    and same: "shares_of (ss_id s) (db_split_allocations db2) = shares_of (ss_id s) (db_split_allocations db')"
    using sheet_later [OF r(1,2), of cs] r(3) unfolding assms(3) by auto
  have inv2: "credits_inv db2" unfolding assms(3) by (rule credits_machine.run_inv [OF r(1)])
  have id: "ss_id t = ss_id s" "ss_state t \<noteq> DRAFT" using sheet_kept_draft [OF t(2)] r(3) by auto
  have st: "strip (ss_id s) = ss_id s" by (rule sheet_facts(1) [OF r(1,2)])
  have "get_split_sheet db2 (ss_id s) = Some t" by (rule sheet_row [OF inv2 t(1)]) (simp add: st id)
  then have q: "require_split_sheet db2 (ss_id s) = Inr t" by (simp add: require_split_sheet_def)
  have eq: "split_allocations db2 (ss_id s) = split_allocations db' (ss_id s)"
    using sheet_facts(4) [OF inv2 t(1)] sheet_facts(4) [OF r(1,2)] same id by simp
  moreover have "total_points (split_allocations db' (ss_id s)) = 10000"
    using shares_okD(4) [OF credits_invD(4) [OF r(1)] r(2,3)] sheet_facts(4) [OF r(1,2)] by simp
  ultimately show ?thesis
    using q id(2) by (simp add: set_draft_allocations_def submit_split_def guardE_def)
qed

text \<open>
  A song has at most one active proposal: on every reachable database the active sheet of a song is
  the one the query returns.
\<close>

theorem active_split_is_unique:
  assumes "credits_reachable db" and "s \<in> set (db_split_sheets db)" and "active_state (ss_state s)"
  shows "active_split_for_song db (ss_song_id s) = Inr (Some s)"
proof -
  have inv: "credits_inv db" by (rule credits_reachable_inv [OF assms(1)])
  obtain g where g: "credits_song db (ss_song_id s) = Inr g" "so_id g = ss_song_id s"
    using credits_song_total [OF credits_invD(1) [OF inv] sheet_facts(2) [OF inv assms(2)]] by blast
  let ?P = "\<lambda>t. ss_song_id t = ss_song_id s \<and> active_state (ss_state t)"
  have "find ?P (db_split_sheets db) \<noteq> None" using assms(2,3) by (auto simp: find_None_iff)
  then obtain t where t: "find ?P (db_split_sheets db) = Some t" by blast
  then have "t \<in> set (db_split_sheets db)" "?P t" by (auto simp: find_Some_iff in_set_conv_nth)
  then have "t = s" using active_unique [OF credits_invD(3) [OF inv] _ assms(2) _ assms(3)] by blast
  then show ?thesis using t g by (simp add: active_split_for_song_def)
qed

text \<open>
  C25. A split counts as confirmed exactly when it was submitted and the last word of each of its people
  is a confirmation; on reachable databases the question always has an answer.
\<close>

theorem confirmed_by_everyone:
  assumes "credits_reachable db" and "s \<in> set (db_split_sheets db)"
  shows "all_recorded_confirmed db (ss_id s) = Inr (ss_state s = OPEN_CONFIRMATION
    \<and> (\<forall>a \<in> set (split_allocations db (ss_id s)).
         last_word db (ss_id s) (sa_person_id a) = Some RECORDED_CONFIRMED))"
proof -
  have inv: "credits_inv db" by (rule credits_reachable_inv [OF assms(1)])
  have row: "get_split_sheet db (ss_id s) = Some s"
    by (rule sheet_row [OF inv assms(2) sheet_facts(1) [OF inv assms(2)]])
  have all: "all_confirmed db (ss_id s) (split_allocations db (ss_id s)) = Inr (\<forall>a \<in> set (split_allocations db (ss_id s)).
      last_word db (ss_id s) (sa_person_id a) = Some RECORDED_CONFIRMED)"
    by (rule all_confirmed_eq) (rule confirmation_state_total [OF inv assms(2)])
  show ?thesis
  proof (cases "ss_state s = OPEN_CONFIRMATION")
    case True
    have "total_points (split_allocations db (ss_id s)) = 10000"
      using shares_okD(4) [OF credits_invD(4) [OF inv] assms(2) True] sheet_facts(4) [OF inv assms(2)] by simp
    then have "split_allocations db (ss_id s) \<noteq> []" by auto
    then show ?thesis using True row all by (simp add: all_recorded_confirmed_def Let_def)
  qed (simp add: all_recorded_confirmed_def row)
qed

text \<open>
  A person has a role on a song once: after a credit was recorded, whatever happens next, the same
  song, person and role, in any letter case and spacing, is refused.
\<close>

theorem credit_recorded_once:
  assumes "credits_reachable db" and "record_credit song person role ctx db = Inr (c, db')"
    and "db2 = run_cmds exec_credits cs db'" and "nocase (squeeze role') = nocase (squeeze role)"
    and "strip song' = strip song" and "strip person' = strip person"
  shows "isl (record_credit song' person' role' ctx' db2)"
proof (rule ccontr)
  assume "\<not> isl (record_credit song' person' role' ctx' db2)"
  then obtain e db3 where again: "record_credit song' person' role' ctx' db2 = Inr (e, db3)"
    by (cases "record_credit song' person' role' ctx' db2") auto
  have inv: "credits_inv db'" using record_credit_inv [OF assms(2) credits_reachable_inv [OF assms(1)]] by blast
  obtain d s p where d: "d \<in> set (db_credits db')" "credits_song db song = Inr s"
    "credits_person db person = Inr p" "cr_song_id d = so_id s" "cr_person_id d = pn_id p" "cr_role d = squeeze role"
    by (rule record_credit_row [OF assms(2)]) (use insert_credit_appends in blast)
  obtain d' db1' s' p' where d': "insert_credit d' db1' = Inr db3" "credits_song db2 song' = Inr s'"
    "credits_person db2 person' = Inr p'" "cr_song_id d' = so_id s'" "cr_person_id d' = pn_id p'"
    "cr_role d' = squeeze role'" "db_credits db1' = db_credits db2"
    by (rule record_credit_row [OF again])
  have ids: "so_id s' = so_id s" "pn_id p' = pn_id p"
    using credits_song_id [OF d(2)] credits_song_id [OF d'(2)] credits_person_id [OF d(3)] credits_person_id [OF d'(3)]
      assms(5,6) by simp_all
  have "d \<in> set (db_credits db2)"
    using credits_machine.run_log_kept [OF inv, of d cs] d(1) assms(3) by simp
  then show False
    using credit_again_fails [of d db1' d' db3] d(4-6) d' ids assms(4) by simp
qed

text \<open>Every reachable memory of credits passes the validation on opening.\<close>

lemma validate_credit_ok:
  assumes "credits_inv db" and "c \<in> set (db_credits db)"
  shows "validate_credit db c = Inr ()"
proof -
  have ok: "credit_ok db c" using credits_invD(2) [OF assms(1)] assms(2) by (simp add: credits_refer_def list_all_iff)
  then have b: "song_bound db (cr_artist_id c) (cr_song_id c)" "person_bound db (cr_person_id c)"
    "primary_artist_id db = Inr (cr_artist_id c)" by (simp_all add: credit_ok_def song_bound_def)
  obtain s where s: "credits_song db (cr_song_id c) = Inr s" "so_artist_id s = cr_artist_id c"
    using credits_song_total [OF credits_invD(1) [OF assms(1)] b(1)] by blast
  obtain p where p: "credits_person db (cr_person_id c) = Inr p" "pn_artist_id p = cr_artist_id c"
    using credits_person_total [OF credits_invD(1) [OF assms(1)] b(2,3)] by blast
  show ?thesis using s p ok by (simp add: validate_credit_def guardE_def credit_ok_def)
qed

lemma validate_allocation_ok:
  assumes "credits_inv db" and "s \<in> set (db_split_sheets db)" and a: "a \<in> set (split_allocations db (ss_id s))"
  shows "validate_allocation db s a = Inr ()"
proof -
  have am: "a \<in> set (db_split_allocations db)" "sa_sheet_id a = ss_id s"
    using a sheet_facts(1) [OF assms(1,2)] by (simp_all add: split_allocations_def)
  then obtain t where t: "t \<in> set (db_split_sheets db)" "ss_id t = sa_sheet_id a" "ss_artist_id t = sa_artist_id a"
    "ss_song_id t = sa_song_id a"
    using shares_okD(2) [OF credits_invD(4) [OF assms(1)] am(1)] by (auto simp: of_sheet_def)
  then have "t = s" using sheet_unique [OF credits_invD(3) [OF assms(1)] t(1) assms(2)] am(2) by simp
  then show ?thesis
    using share_person [OF assms] t by (auto simp: validate_allocation_def guardE_def)
qed

lemma validate_confirmation_ok:
  assumes "credits_inv db" and "s \<in> set (db_split_sheets db)"
    and c: "c \<in> set (db_split_confirmations db)" "sc_sheet_id c = ss_id s"
  shows "validate_confirmation_row s (map sa_person_id (split_allocations db (ss_id s))) c = Inr ()"
proof -
  note k = credits_invD(5) [OF assms(1), unfolded confirmations_ok_def, rule_format, OF c(1)]
  obtain t where t: "t \<in> set (db_split_sheets db)" "ss_id t = sc_sheet_id c" "ss_artist_id t = sc_artist_id c"
    "ss_song_id t = sc_song_id c" using k by blast
  then have ts: "t = s" using sheet_unique [OF credits_invD(3) [OF assms(1)] t(1) assms(2)] c(2) by simp
  have "sc_person_id c \<in> sa_person_id ` set (split_allocations db (ss_id s))"
    using k c(2) sheet_facts(1) [OF assms(1,2)] by (force simp: split_allocations_def)
  then show ?thesis using k t(3,4) ts by (simp add: validate_confirmation_row_def guardE_def)
qed

lemma validate_sheet_ok:
  assumes "credits_inv db" and "s \<in> set (db_split_sheets db)"
  shows "validate_sheet db s = Inr ()"
proof -
  note sf = sheet_facts [OF assms]
  let ?as = "split_allocations db (ss_id s)"
  obtain g where g: "credits_song db (ss_song_id s) = Inr g" "so_artist_id g = ss_artist_id s"
    using credits_song_total [OF credits_invD(1) [OF assms(1)] sf(2)] by blast
  have t: "total_points ?as \<le> 10000" "ss_state s = OPEN_CONFIRMATION \<Longrightarrow> total_points ?as = 10000"
    using shares_okD(3,4) [OF credits_invD(4) [OF assms(1)] assms(2)] sf(4) by simp_all
  have full: "\<not> (ss_state s = OPEN_CONFIRMATION \<and> (?as = [] \<or> total_points ?as \<noteq> 10000))" using t(2) by auto
  have a: "mapE (validate_allocation db s) ?as = Inr (map (\<lambda>_. ()) ?as)"
    by (rule mapE_total) (rule validate_allocation_ok [OF assms])
  let ?cs = "filter (\<lambda>c. sc_sheet_id c = ss_id s) (db_split_confirmations db)"
  have c: "mapE (validate_confirmation_row s (map sa_person_id ?as)) ?cs = Inr (map (\<lambda>_. ()) ?cs)"
    by (rule mapE_total) (rule validate_confirmation_ok [OF assms], simp_all)
  show ?thesis
    using g t(1) full sf(3) a c by (simp add: validate_sheet_def Let_def guardE_def confirmation_history_def sf(1))
qed

lemma reachable_credits_validate: "credits_reachable db \<Longrightarrow> validate_credits db = Inr ()"
proof -
  assume "credits_reachable db"
  then have inv: "credits_inv db" by (rule credits_reachable_inv)
  have "mapE (validate_credit db) (db_credits db) = Inr (map (\<lambda>_. ()) (db_credits db))"
    by (rule mapE_total) (rule validate_credit_ok [OF inv])
  moreover have "mapE (validate_sheet db) (db_split_sheets db) = Inr (map (\<lambda>_. ()) (db_split_sheets db))"
    by (rule mapE_total) (rule validate_sheet_ok [OF inv])
  ultimately show ?thesis
    using credits_invD(2) [OF inv] by (simp add: validate_credits_def corruption_only_def guardE_def credits_refer_def)
qed

text \<open>A song of two writers, shared sixty to forty; one of them has confirmed.\<close>

definition demo_draft :: credits_db where
  "demo_draft = run_cmds exec_credits
     [Credits_People (People_Evidence (Evidence_Lineage (Create_Song ''Dawn''))),
      Credits_People (Create_Person ''Ada'' None), Credits_People (Create_Person ''Bo'' None),
      Create_Split ''song_aaaa'',
      Set_Allocations ''split_aaaaaaaaaaa'' [(''person_aaaaaaa'', 6000), (''person_aaaaaaaaa'', 4000)]]
     (install_credits (install_people (install_evidence demo_profile)))"

definition demo_split :: credits_db where
  "demo_split = run_cmds exec_credits
     [Submit_Split ''split_aaaaaaaaaaa'',
      Record_Confirmation ''split_aaaaaaaaaaa'' ''person_aaaaaaa'' ''recorded_confirmed'' ''said so'']
     demo_draft"

lemma demo_draft_reachable: "credits_reachable demo_draft"
  unfolding credits_reachable_def demo_draft_def using demo_profile_created demo_hex by blast

lemma demo_split_reachable: "credits_reachable demo_split"
  unfolding demo_split_def by (rule credits_reachable_run [OF demo_draft_reachable])

definition split_summary :: "credits_db \<Rightarrow> (string \<times> string \<times> split_state) list \<times> int list \<times> confirmation_status list" where
  "split_summary db = (map (\<lambda>s. (ss_id s, ss_song_id s, ss_state s)) (db_split_sheets db),
     map sa_basis_points (db_split_allocations db), map sc_status (db_split_confirmations db))"

definition demo_submission :: "(split_sheet \<times> credits_db) res" where
  "demo_submission = submit_split ''split_aaaaaaaaaaa'' demo_draft"

definition demo_credit :: "(credit_entry \<times> credits_db) res" where
  "demo_credit = record_credit ''song_aaaa'' ''person_aaaaaaa'' ''Producer'' None demo_draft"

text \<open>What is evaluated of them, over one evaluation of the draft.\<close>

definition draft_outcomes where
  "draft_outcomes db =
     (split_summary (run_cmds exec_credits
        [Submit_Split ''split_aaaaaaaaaaa'',
         Record_Confirmation ''split_aaaaaaaaaaa'' ''person_aaaaaaa'' ''recorded_confirmed'' ''said so''] db),
      isl (submit_split ''split_aaaaaaaaaaa'' db),
      isl (record_credit ''song_aaaa'' ''person_aaaaaaa'' ''Producer'' None db))"

lemma draft_outcomes_eq:
  "draft_outcomes demo_draft = (([(''split_aaaaaaaaaaa'', ''song_aaaa'', OPEN_CONFIRMATION)], [6000, 4000],
     [RECORDED_CONFIRMED]), False, False)"
  by code_simp

lemma demo_split_summary:
  "split_summary demo_split = ([(''split_aaaaaaaaaaa'', ''song_aaaa'', OPEN_CONFIRMATION)], [6000, 4000],
     [RECORDED_CONFIRMED])"
  and demo_submission_ok: "\<not> isl demo_submission" and demo_credit_ok: "\<not> isl demo_credit"
  using draft_outcomes_eq by (simp_all add: draft_outcomes_def demo_split_def demo_submission_def demo_credit_def)

lemma demo_sheet:
  obtains s where "s \<in> set (db_split_sheets demo_split)" "ss_id s = ''split_aaaaaaaaaaa''"
    "ss_song_id s = ''song_aaaa''" "ss_state s = OPEN_CONFIRMATION"
  using demo_split_summary by (auto simp: split_summary_def map_eq_Cons_conv)

theorem split_shares_bounded_witness:
  "\<exists>s \<in> set (db_split_sheets demo_split). ss_state s = OPEN_CONFIRMATION
     \<and> total_points (split_allocations demo_split (ss_id s)) = 10000"
proof -
  obtain s where s: "s \<in> set (db_split_sheets demo_split)" "ss_state s = OPEN_CONFIRMATION" by (rule demo_sheet)
  show ?thesis using split_shares_bounded [OF demo_split_reachable s(1) refl] s by blast
qed

theorem active_split_is_unique_witness:
  "\<exists>s. active_split_for_song demo_split ''song_aaaa'' = Inr (Some s) \<and> ss_id s = ''split_aaaaaaaaaaa''"
proof -
  obtain s where s: "s \<in> set (db_split_sheets demo_split)" "ss_id s = ''split_aaaaaaaaaaa''"
    "ss_song_id s = ''song_aaaa''" "ss_state s = OPEN_CONFIRMATION" by (rule demo_sheet)
  show ?thesis using active_split_is_unique [OF demo_split_reachable s(1)] s by (auto simp: active_state_def)
qed

theorem confirmed_by_everyone_witness:
  "\<exists>b. all_recorded_confirmed demo_split ''split_aaaaaaaaaaa'' = Inr b"
proof -
  obtain s where s: "s \<in> set (db_split_sheets demo_split)" "ss_id s = ''split_aaaaaaaaaaa''" by (rule demo_sheet)
  show ?thesis using confirmed_by_everyone [OF demo_split_reachable s(1)] s(2) by simp
qed

theorem submitted_split_frozen_witness:
  "\<exists>s db'. demo_submission = Inr (s, db')
     \<and> set_draft_allocations (ss_id s) [] (run_cmds exec_credits [Void_Split ''split_aaaaaaaaaaa'' ''redo''] db')
       = Inl (Raise ValidationError ''submitted composition split allocations are immutable'')"
proof -
  obtain s db' where r: "demo_submission = Inr (s, db')"
    using demo_submission_ok by (metis isl_def sum.exhaust surj_pair)
  then show ?thesis
    using submitted_split_frozen [OF demo_draft_reachable, of _ s db', OF r [unfolded demo_submission_def] refl] by blast
qed

theorem credit_recorded_once_witness:
  "\<exists>c db'. demo_credit = Inr (c, db')
     \<and> isl (record_credit ''song_aaaa'' ''person_aaaaaaa'' '' producer'' (Some ''again'') db')"
proof -
  obtain c db' where r: "demo_credit = Inr (c, db')" using demo_credit_ok by (metis isl_def sum.exhaust surj_pair)
  have n: "nocase (squeeze '' producer'') = nocase (squeeze ''Producer'')" by code_simp
  show ?thesis
    using r credit_recorded_once [OF demo_draft_reachable r [unfolded demo_credit_def], of db' "[]", OF _ n refl refl]
    by auto
qed

end
