(* ===== verification/Sessions.thy ===== *)
theory Sessions
  imports Evidence_Facts
begin

text \<open>
  Sessions of work on a song (\<open>session.py\<close>): what a session is for, the scratch written while it is open, its
  debrief, and the promotion of a piece of scratch to a claim of the evidence memory. Rows, the statements
  with their triggers and indexes, the operations and the validation on opening.
\<close>

subsection \<open>Rows\<close>

datatype session_state = SESSION_OPEN | SESSION_CLOSED
datatype item_kind = ITEM_OBSERVATION | ITEM_DECISION | ITEM_REJECTED_IDEA | ITEM_UNRESOLVED | ITEM_MARK

definition SESSION_ITEM_KINDS :: "(string \<times> item_kind) list" where
  "SESSION_ITEM_KINDS = [(''OBSERVATION'', ITEM_OBSERVATION), (''DECISION'', ITEM_DECISION),
     (''REJECTED_IDEA'', ITEM_REJECTED_IDEA), (''UNRESOLVED'', ITEM_UNRESOLVED), (''MARK'', ITEM_MARK)]"

definition PROMOTION_SCOPES :: "(string \<times> scope_kind) list" where
  "PROMOTION_SCOPES = [(''SONG'', SCOPE_SONG), (''VERSION'', SCOPE_VERSION)]"

record session_item =
  si_seq :: nat
  si_id :: string
  si_session_id :: string
  si_kind :: item_kind
  si_body :: string

record song_session =
  sn_seq :: nat
  sn_id :: string
  sn_artist_id :: string
  sn_song_id :: string
  sn_version_id :: "string option"
  sn_objective :: string
  sn_state :: session_state
  sn_debrief_summary :: "string option"
  sn_next_action :: "string option"

record session_promotion =
  sp_item_id :: string
  sp_claim_id :: string

record promotion_request =
  pr_seq :: nat
  pr_id :: string
  pr_item_id :: string
  pr_source_ref :: string
  pr_scope_kind :: scope_kind
  pr_scope_id :: string
  pr_key :: string
  pr_value_json :: string
  pr_source_kind :: source_kind
  pr_twin_domain :: twin_domain
  pr_confidence :: rat

record session_db = evidence_db +
  db_sessions :: "song_session list"
  db_session_items :: "session_item list"
  db_promotion_requests :: "promotion_request list"
  db_promotions :: "session_promotion list"

subsection \<open>Queries\<close>

definition get_session :: "'a session_db_scheme \<Rightarrow> string \<Rightarrow> song_session option" where
  "get_session db sid = find (\<lambda>s. sn_id s = sid) (db_sessions db)"

definition require_session :: "'a session_db_scheme \<Rightarrow> string \<Rightarrow> song_session res" where
  "require_session db sid =
     (case get_session db sid of
        None \<Rightarrow> Inl (Raise NotFoundError
          (''Session not found in profile '' @ store_profile_id db @ '': '' @ sid))
      | Some s \<Rightarrow> Inr s)"

definition items_for_session :: "'a session_db_scheme \<Rightarrow> string \<Rightarrow> session_item list res" where
  "items_for_session db sid =
     bindE (require_session db sid) (\<lambda>_. Inr (filter (\<lambda>i. si_session_id i = sid) (db_session_items db)))"

text \<open>\<open>ORDER BY seq DESC LIMIT 1\<close>.\<close>

definition latest_for_song :: "'a session_db_scheme \<Rightarrow> string \<Rightarrow> song_session option res" where
  "latest_for_song db song_id =
     (case get_song db song_id of
        None \<Rightarrow> Inl (Raise NotFoundError
          (''Song not found in profile '' @ store_profile_id db @ '': '' @ song_id))
      | Some _ \<Rightarrow>
          let ss = filter (\<lambda>s. sn_song_id s = song_id) (db_sessions db)
          in Inr (if ss = [] then None else Some (last ss)))"

definition get_item :: "'a session_db_scheme \<Rightarrow> string \<Rightarrow> session_item option" where
  "get_item db iid = find (\<lambda>i. si_id i = iid) (db_session_items db)"

definition item_with_session :: "'a session_db_scheme \<Rightarrow> string \<Rightarrow> (session_item \<times> song_session) res" where
  "item_with_session db iid =
     (let missing = Inl (Raise NotFoundError
          (''Session item not found in profile '' @ store_profile_id db @ '': '' @ iid)) in
      case get_item db iid of
        None \<Rightarrow> missing
      | Some i \<Rightarrow> (case get_session db (si_session_id i) of None \<Rightarrow> missing | Some s \<Rightarrow> Inr (i, s)))"

definition promotion_for_item :: "'a session_db_scheme \<Rightarrow> string \<Rightarrow> session_promotion option" where
  "promotion_for_item db iid = find (\<lambda>p. sp_item_id p = iid) (db_promotions db)"

definition request_for_item :: "'a session_db_scheme \<Rightarrow> string \<Rightarrow> promotion_request option" where
  "request_for_item db iid = find (\<lambda>r. pr_item_id r = iid) (db_promotion_requests db)"

subsection \<open>Statements\<close>

definition insert_session :: "song_session \<Rightarrow> 'a session_db_scheme \<Rightarrow> 'a session_db_scheme res" where
  "insert_session s db =
     bindE (guardE (pred_option (\<lambda>v. version_in_song db v (sn_song_id s)) (sn_version_id s))
       (integrity ''Session version belongs to a different Song'')) (\<lambda>_.
     bindE (guardE (\<not> sql_blank (sn_objective s))
       (integrity ''CHECK constraint failed: sessions'')) (\<lambda>_.
     bindE (guardE (sn_id s \<notin> sn_id ` set (db_sessions db))
       (integrity ''UNIQUE constraint failed: sessions.id'')) (\<lambda>_.
     bindE (guardE (\<not> (sn_state s = SESSION_OPEN
          \<and> list_ex (\<lambda>t. sn_song_id t = sn_song_id s \<and> sn_state t = SESSION_OPEN) (db_sessions db)))
       (integrity ''UNIQUE constraint failed: sessions.song_id'')) (\<lambda>_.
     bindE (guardE (has_artist db (sn_artist_id s) \<and> get_song db (sn_song_id s) \<noteq> None)
       (integrity ''FOREIGN KEY constraint failed'')) (\<lambda>_.
     insert_activity ''SESSION_STARTED'' (sn_artist_id s) (Some (sn_song_id s)) (sn_version_id s) ''SESSION''
       (sn_id s) (db\<lparr>db_sessions := db_sessions db @ [s]\<rparr>))))))"

definition insert_session_item :: "session_item \<Rightarrow> 'a session_db_scheme \<Rightarrow> 'a session_db_scheme res" where
  "insert_session_item i db =
     (case get_session db (si_session_id i) of
        None \<Rightarrow> Inl (integrity ''scratch can be appended only to an open Session'')
      | Some s \<Rightarrow>
          bindE (guardE (sn_state s = SESSION_OPEN)
            (integrity ''scratch can be appended only to an open Session'')) (\<lambda>_.
          bindE (guardE (\<not> sql_blank (si_body i))
            (integrity ''CHECK constraint failed: session_items'')) (\<lambda>_.
          bindE (guardE (si_id i \<notin> si_id ` set (db_session_items db))
            (integrity ''UNIQUE constraint failed: session_items.id'')) (\<lambda>_.
          insert_activity ''SESSION_SCRATCH_ADDED'' (sn_artist_id s) (Some (sn_song_id s)) (sn_version_id s)
            ''SESSION_ITEM'' (si_id i) (db\<lparr>db_session_items := db_session_items db @ [i]\<rparr>)))))"

text \<open>
  An \<open>UPDATE\<close> of state, debrief and next action: the triggers \<open>session_closed_immutable\<close>,
  \<open>session_close_requires_debrief\<close> and \<open>session_open_has_no_debrief\<close>, then the event.
\<close>

definition has_text :: "string option \<Rightarrow> bool" where
  "has_text x \<longleftrightarrow> (case x of None \<Rightarrow> False | Some t \<Rightarrow> \<not> sql_blank t)"

definition update_session ::
  "song_session \<Rightarrow> song_session \<Rightarrow> 'a session_db_scheme \<Rightarrow> 'a session_db_scheme res" where
  "update_session old new db =
     bindE (guardE (sn_state old \<noteq> SESSION_CLOSED) (integrity ''closed Session is immutable'')) (\<lambda>_.
     bindE (guardE (\<not> (sn_state new = SESSION_CLOSED
          \<and> (\<not> has_text (sn_debrief_summary new) \<or> \<not> has_text (sn_next_action new))))
       (integrity ''closing Session requires debrief and next action'')) (\<lambda>_.
     bindE (guardE (\<not> (sn_state new = SESSION_OPEN
          \<and> (sn_debrief_summary new \<noteq> None \<or> sn_next_action new \<noteq> None)))
       (integrity ''open Session cannot contain final debrief'')) (\<lambda>_.
     let db1 = db\<lparr>db_sessions := map (\<lambda>s. if sn_id s = sn_id old then new else s) (db_sessions db)\<rparr> in
     if sn_state old = SESSION_OPEN \<and> sn_state new = SESSION_CLOSED
     then insert_activity ''SESSION_CLOSED'' (sn_artist_id new) (Some (sn_song_id new)) (sn_version_id new)
            ''SESSION'' (sn_id new) db1
     else Inr db1)))"

definition in_session_scope :: "'a session_db_scheme \<Rightarrow> promotion_request \<Rightarrow> bool" where
  "in_session_scope db r \<longleftrightarrow>
     list_ex (\<lambda>i. si_id i = pr_item_id r \<and> list_ex (\<lambda>s. sn_id s = si_session_id i
         \<and> (pr_scope_kind r = SCOPE_SONG \<and> pr_scope_id r = sn_song_id s
            \<or> pr_scope_kind r = SCOPE_VERSION \<and> sn_version_id s = Some (pr_scope_id r)))
       (db_sessions db)) (db_session_items db)"

definition insert_promotion_request ::
  "promotion_request \<Rightarrow> 'a session_db_scheme \<Rightarrow> 'a session_db_scheme res" where
  "insert_promotion_request r db =
     bindE (guardE (in_session_scope db r)
       (integrity ''Session promotion scope crosses Session binding'')) (\<lambda>_.
     bindE (guardE (pr_scope_kind r \<in> {SCOPE_SONG, SCOPE_VERSION} \<and> \<not> sql_blank (pr_key r)
                    \<and> 0 \<le> pr_confidence r \<and> pr_confidence r \<le> 1)
       (integrity ''CHECK constraint failed: session_promotion_requests'')) (\<lambda>_.
     bindE (guardE (pr_id r \<notin> pr_id ` set (db_promotion_requests db))
       (integrity ''UNIQUE constraint failed: session_promotion_requests.id'')) (\<lambda>_.
     bindE (guardE (pr_item_id r \<notin> pr_item_id ` set (db_promotion_requests db))
       (integrity ''UNIQUE constraint failed: session_promotion_requests.item_id'')) (\<lambda>_.
     bindE (guardE (pr_source_ref r \<notin> pr_source_ref ` set (db_promotion_requests db))
       (integrity ''UNIQUE constraint failed: session_promotion_requests.source_ref'')) (\<lambda>_.
     Inr (db\<lparr>db_promotion_requests := db_promotion_requests db @ [r]\<rparr>))))))"

text \<open>\<open>INSERT INTO session_promotions\<close> with the trigger \<open>session_promoted_activity\<close>.\<close>

definition insert_promotion :: "session_promotion \<Rightarrow> 'a session_db_scheme \<Rightarrow> 'a session_db_scheme res" where
  "insert_promotion p db =
     bindE (guardE (sp_item_id p \<notin> sp_item_id ` set (db_promotions db))
       (integrity ''UNIQUE constraint failed: session_promotions.item_id'')) (\<lambda>_.
     bindE (guardE (sp_claim_id p \<notin> sp_claim_id ` set (db_promotions db))
       (integrity ''UNIQUE constraint failed: session_promotions.claim_id'')) (\<lambda>_.
     bindE (guardE (sp_item_id p \<in> si_id ` set (db_session_items db) \<and> find_claim db (sp_claim_id p) \<noteq> None)
       (integrity ''FOREIGN KEY constraint failed'')) (\<lambda>_.
     let db1 = db\<lparr>db_promotions := db_promotions db @ [p]\<rparr> in
     case item_with_session db1 (sp_item_id p) of
       Inl _ \<Rightarrow> Inr db1
     | Inr (_, s) \<Rightarrow> insert_activity ''SESSION_ITEM_PROMOTED'' (sn_artist_id s) (Some (sn_song_id s))
         (sn_version_id s) ''EVIDENCE_CLAIM'' (sp_claim_id p) db1)))"

definition request_matches :: "promotion_request \<Rightarrow> evidence_row \<Rightarrow> bool" where
  "request_matches r c \<longleftrightarrow> er_source_ref c = Some (pr_source_ref r) \<and> pr_scope_kind r = er_scope_kind c
     \<and> pr_scope_id r = er_scope_id c \<and> pr_key r = er_key c \<and> pr_value_json r = er_value_json c
     \<and> pr_source_kind r = er_source_kind c \<and> pr_twin_domain r = er_twin_domain c
     \<and> pr_confidence r = er_confidence c"

text \<open>The trigger \<open>session_promotion_claim_link\<close>: a row for each request the new claim matches.\<close>

fun link_promotions ::
  "evidence_row \<Rightarrow> promotion_request list \<Rightarrow> 'a session_db_scheme \<Rightarrow> 'a session_db_scheme res" where
  "link_promotions c [] db = Inr db"
| "link_promotions c (r # rs) db =
     bindE (if request_matches r c then insert_promotion \<lparr>sp_item_id = pr_item_id r, sp_claim_id = er_id c\<rparr> db
            else Inr db) (link_promotions c rs)"

text \<open>\<open>source_ref LIKE 'session-promotion:%'\<close>.\<close>

definition promotion_prefix :: string where
  "promotion_prefix = ''session-promotion:''"

definition like_promotion :: "string \<Rightarrow> bool" where
  "like_promotion s \<longleftrightarrow> nocase (take (length promotion_prefix) s) = promotion_prefix"

text \<open>
  An insertion into \<open>evidence_claims\<close> once Session memory is installed: the partial index
  \<open>session_promotion_claim_source\<close>, the statement of the evidence memory, and the trigger that links the
  claim to a pending request.
\<close>

definition source_ref_free :: "evidence_row \<Rightarrow> evidence_row list \<Rightarrow> bool" where
  "source_ref_free c rows \<longleftrightarrow> (case er_source_ref c of None \<Rightarrow> True
     | Some ref \<Rightarrow> \<not> (like_promotion ref \<and> list_ex (\<lambda>d. er_source_ref d = Some ref) rows))"

definition session_insert_claim :: "evidence_row \<Rightarrow> 'a session_db_scheme \<Rightarrow> 'a session_db_scheme res" where
  "session_insert_claim c db =
     bindE (guardE (source_ref_free c (db_evidence_claims db))
       (integrity ''UNIQUE constraint failed: evidence_claims.source_ref'')) (\<lambda>_.
     bindE (insert_claim c db) (\<lambda>db. link_promotions c (db_promotion_requests db) db))"

subsection \<open>Operations\<close>

definition session_version ::
  "'a session_db_scheme \<Rightarrow> song \<Rightarrow> string option \<Rightarrow> string option res" where
  "session_version db song version_id =
     bindE (case version_id of
         None \<Rightarrow> Inr (so_current_version_id song)
       | Some v \<Rightarrow> bindE (guardE (get_version db v \<noteq> None)
           (Raise NotFoundError (''version not found: '' @ v))) (\<lambda>_. Inr (Some v))) (\<lambda>version.
     case version of
       None \<Rightarrow> Inr None
     | Some v \<Rightarrow>
         (case get_version db v of
            None \<Rightarrow> Inl (Raise PyAssertionError [])
          | Some w \<Rightarrow> bindE (guardE (ve_song_id w = so_id song)
              (Raise ValidationError ''Session version belongs to a different Song'')) (\<lambda>_. Inr (Some v))))"

definition start_session ::
  "string \<Rightarrow> string \<Rightarrow> string option \<Rightarrow> 'a session_db_scheme \<Rightarrow> (song_session \<times> 'a session_db_scheme) res" where
  "start_session song_id objective version_id db0 =
     (case get_song db0 song_id of
        None \<Rightarrow> Inl (Raise NotFoundError
          (''Song not found in profile '' @ store_profile_id db0 @ '': '' @ song_id))
      | Some song \<Rightarrow>
          bindE (require_text ValidationError objective ''objective'') (\<lambda>objective.
          bindE (session_version db0 song version_id) (\<lambda>version.
          let (sid, db) = new_id ''sess'' db0 in
          bindE (primary_artist_id db) (\<lambda>artist.
          bindE (on_integrity ''cannot start Session''
            (insert_session \<lparr>sn_seq = Suc (length (db_sessions db)), sn_id = sid, sn_artist_id = artist,
               sn_song_id = so_id song, sn_version_id = version, sn_objective = objective,
               sn_state = SESSION_OPEN, sn_debrief_summary = None, sn_next_action = None\<rparr> db)) (\<lambda>db.
          bindE (require_session db sid) (\<lambda>s. Inr (s, db)))))))"

definition append_scratch ::
  "string \<Rightarrow> string \<Rightarrow> string \<Rightarrow> 'a session_db_scheme \<Rightarrow> (session_item \<times> 'a session_db_scheme) res" where
  "append_scratch session_id kind body db0 =
     bindE (require_session db0 session_id) (\<lambda>session.
     bindE (guardE (sn_state session = SESSION_OPEN)
       (Raise ValidationError ''cannot append scratch to a closed Session'')) (\<lambda>_.
     case parse_enum SESSION_ITEM_KINDS kind of
       None \<Rightarrow> Inl (Raise ValidationError (''unsupported Session scratch kind: '' @ norm_enum kind))
     | Some kind \<Rightarrow>
         bindE (require_text ValidationError body ''body'') (\<lambda>body.
         let (iid, db) = new_id ''sitem'' db0 in
         bindE (on_integrity ''cannot append Session scratch''
           (insert_session_item \<lparr>si_seq = Suc (length (db_session_items db)), si_id = iid,
              si_session_id = sn_id session, si_kind = kind, si_body = body\<rparr> db)) (\<lambda>db.
         case get_item db iid of
           None \<Rightarrow> Inl (Raise PyAssertionError [])
         | Some i \<Rightarrow> Inr (i, db)))))"

definition close_session ::
  "string \<Rightarrow> string \<Rightarrow> string \<Rightarrow> 'a session_db_scheme \<Rightarrow> (song_session \<times> 'a session_db_scheme) res" where
  "close_session session_id debrief_summary next_action db =
     bindE (require_session db session_id) (\<lambda>session.
     bindE (guardE (sn_state session = SESSION_OPEN)
       (Raise ValidationError ''Session is already closed'')) (\<lambda>_.
     bindE (require_text ValidationError debrief_summary ''debrief_summary'') (\<lambda>debrief.
     bindE (require_text ValidationError next_action ''next_action'') (\<lambda>action.
     bindE (on_integrity ''cannot close Session''
       (case find (\<lambda>s. sn_id s = sn_id session \<and> sn_state s = SESSION_OPEN) (db_sessions db) of
          None \<Rightarrow> Inr db
        | Some s \<Rightarrow> update_session s (s\<lparr>sn_state := SESSION_CLOSED, sn_debrief_summary := Some debrief,
            sn_next_action := Some action\<rparr>) db)) (\<lambda>db.
     bindE (require_session db (sn_id session)) (\<lambda>s. Inr (s, db)))))))"

text \<open>The evidence memory's operations on a profile with Session memory.\<close>

definition session_record_claim ::
  "string \<Rightarrow> string \<Rightarrow> string \<Rightarrow> json \<Rightarrow> string \<Rightarrow> string option \<Rightarrow> rat \<Rightarrow> string \<Rightarrow> string list
     \<Rightarrow> 'a session_db_scheme \<Rightarrow> (evidence_claim \<times> 'a session_db_scheme) res" where
  "session_record_claim = record_claim_with session_insert_claim"

definition session_reconcile ::
  "string \<Rightarrow> string \<Rightarrow> json \<Rightarrow> string \<Rightarrow> string option \<Rightarrow> rat \<Rightarrow> string \<Rightarrow> string option
     \<Rightarrow> 'a session_db_scheme \<Rightarrow> (evidence_claim \<times> 'a session_db_scheme) res" where
  "session_reconcile = reconcile_for_song_with session_insert_claim"

subsection \<open>Promotion\<close>

fun twin_domain_name :: "twin_domain \<Rightarrow> string" where
  "twin_domain_name TECHNICAL = ''TECHNICAL''"
| "twin_domain_name CREATIVE = ''CREATIVE''"
| "twin_domain_name UNSPECIFIED = ''UNSPECIFIED''"

text \<open>What a call of \<open>promote_item\<close> asks for, once its arguments are read.\<close>

definition promotion_scope_id :: "scope_kind \<Rightarrow> song_session \<Rightarrow> string res" where
  "promotion_scope_id kind session =
     (if kind = SCOPE_SONG then Inr (sn_song_id session)
      else case sn_version_id session of
        None \<Rightarrow> Inl (Raise ValidationError ''Session has no bound Version to promote into'')
      | Some v \<Rightarrow> Inr v)"

definition read_promotion ::
  "string \<Rightarrow> string \<Rightarrow> string \<Rightarrow> string \<Rightarrow> string \<Rightarrow> rat \<Rightarrow> 'a session_db_scheme
     \<Rightarrow> (session_item \<times> promotion_request) res" where
  "read_promotion item_id scope_kind key source_kind domain confidence db =
     bindE (item_with_session db item_id) (\<lambda>(item, session).
     bindE (require_text ValidationError key ''key'') (\<lambda>key.
     case parse_enum PROMOTION_SCOPES scope_kind of
       None \<Rightarrow> Inl (Raise ValidationError (''unsupported Session promotion scope: '' @ norm_enum scope_kind))
     | Some kind \<Rightarrow>
         (case parse_enum SOURCE_KINDS source_kind of
            None \<Rightarrow> Inl (Raise ValidationError (''unsupported evidence source: '' @ norm_enum source_kind))
          | Some source \<Rightarrow>
              (case parse_enum TWIN_DOMAINS domain of
                 None \<Rightarrow> Inl (Raise ValidationError (''unsupported Twin domain: '' @ norm_enum domain))
               | Some domain \<Rightarrow>
                   bindE (guardE (0 \<le> confidence \<and> confidence \<le> 1)
                     (Raise ValidationError ''confidence must be between 0 and 1'')) (\<lambda>_.
                   bindE (promotion_scope_id kind session) (\<lambda>scope_id.
                   Inr (item, \<lparr>pr_seq = 0, pr_id = [], pr_item_id = si_id item, pr_source_ref = [],
                     pr_scope_kind = kind, pr_scope_id = scope_id, pr_key = key,
                     pr_value_json = canonical_value (JStr (si_body item)), pr_source_kind = source,
                     pr_twin_domain = domain, pr_confidence = confidence\<rparr>)))))))"

text \<open>The tuples \<open>expected\<close> and \<open>actual\<close>.\<close>

definition same_promotion :: "promotion_request \<Rightarrow> promotion_request \<Rightarrow> bool" where
  "same_promotion q r \<longleftrightarrow>
     (pr_scope_kind q, pr_scope_id q, pr_key q, pr_value_json q, pr_source_kind q, pr_twin_domain q, pr_confidence q)
     = (pr_scope_kind r, pr_scope_id r, pr_key r, pr_value_json r, pr_source_kind r, pr_twin_domain r, pr_confidence r)"

text \<open>The first transaction: the request of the item, made now or found.\<close>

definition request_promotion ::
  "session_item \<Rightarrow> promotion_request \<Rightarrow> 'a session_db_scheme \<Rightarrow> (promotion_request \<times> 'a session_db_scheme) res" where
  "request_promotion item wanted db0 =
     (case request_for_item db0 (si_id item) of
        None \<Rightarrow>
          let (rid, db) = new_id ''spr'' db0 in
          bindE (on_integrity ''cannot request Session promotion''
            (insert_promotion_request (wanted\<lparr>pr_seq := Suc (length (db_promotion_requests db)), pr_id := rid,
               pr_source_ref := promotion_prefix @ rid\<rparr>) db)) (\<lambda>db.
          case request_for_item db (si_id item) of
            None \<Rightarrow> Inl (Raise PyAssertionError [])
          | Some r \<Rightarrow> Inr (r, db))
      | Some r \<Rightarrow>
          bindE (guardE (same_promotion r wanted)
            (Raise ValidationError ''Session item already has a different immutable promotion request'')) (\<lambda>_.
          Inr (r, db0)))"

definition linked_claim :: "'a session_db_scheme \<Rightarrow> session_promotion \<Rightarrow> evidence_claim res" where
  "linked_claim db p =
     bindE (get_claim db (sp_claim_id p)) (\<lambda>found.
     case found of
       None \<Rightarrow> Inl (Raise LineageCorruptionError ''Session promotion lost its EvidenceClaim'')
     | Some c \<Rightarrow> Inr c)"

text \<open>
  The second transaction: the claim that the trigger links to the request. The result comes with the
  database it leaves, for a failure does not undo what was committed before.
\<close>

definition claim_promotion ::
  "session_item \<Rightarrow> promotion_request \<Rightarrow> string \<Rightarrow> 'a session_db_scheme
     \<Rightarrow> evidence_claim res \<times> 'a session_db_scheme" where
  "claim_promotion item wanted source_ref db =
     (case promotion_for_item db (si_id item) of
        Some p \<Rightarrow> (linked_claim db p, db)
      | None \<Rightarrow>
          (case session_record_claim (scope_kind_name (pr_scope_kind wanted)) (pr_scope_id wanted) (pr_key wanted)
              (JStr (si_body item)) (source_kind_name (pr_source_kind wanted)) (Some source_ref)
              (pr_confidence wanted) (twin_domain_name (pr_twin_domain wanted)) [] db of
             Inl e \<Rightarrow>
               (if exc_cls e = ValidationError then
                  (case promotion_for_item db (si_id item) of
                     None \<Rightarrow> Inl e
                   | Some p \<Rightarrow> linked_claim db p)
                else Inl e, db)
           | Inr (c, db) \<Rightarrow>
               (case promotion_for_item db (si_id item) of
                  None \<Rightarrow> Inl (Raise LineageCorruptionError
                    ''Evidence promotion committed without matching Session link'')
                | Some p \<Rightarrow> bindE (guardE (sp_claim_id p = ec_id c)
                    (Raise LineageCorruptionError ''Evidence promotion committed without matching Session link''))
                    (\<lambda>_. Inr c), db)))"

definition promote_item ::
  "string \<Rightarrow> string \<Rightarrow> string \<Rightarrow> string \<Rightarrow> string \<Rightarrow> rat \<Rightarrow> 'a session_db_scheme
     \<Rightarrow> evidence_claim res \<times> 'a session_db_scheme" where
  "promote_item item_id scope_kind key source_kind domain confidence db =
     (case read_promotion item_id scope_kind key source_kind domain confidence db of
        Inl e \<Rightarrow> (Inl e, db)
      | Inr (item, wanted) \<Rightarrow>
          (case request_promotion item wanted db of
             Inl e \<Rightarrow> (Inl e, db)
           | Inr (r, db) \<Rightarrow> claim_promotion item wanted (pr_source_ref r) db))"

subsection \<open>Opening\<close>

text \<open>
  \<open>_ensure_schema\<close> on a profile without Session memory; the unique index cannot be created over claims that
  already share such a source.
\<close>

definition install_sessions :: "evidence_db \<Rightarrow> session_db res" where
  "install_sessions db =
     bindE (guardE (distinct (filter like_promotion (List.map_filter er_source_ref (db_evidence_claims db))))
       (Raise LineageCorruptionError ''cannot initialize Session memory'')) (\<lambda>_.
     Inr (evidence_db.extend
       (db\<lparr>db_metadata := (db_metadata db)(''session_schema_version'' \<mapsto> ''1'')\<rparr>)
       (session_db.fields [] [] [] [])))"

definition validate_session :: "'a session_db_scheme \<Rightarrow> song_session \<Rightarrow> unit res" where
  "validate_session db s =
     bindE (guardE (case get_song db (sn_song_id s) of None \<Rightarrow> False
                    | Some song \<Rightarrow> so_artist_id song = sn_artist_id s)
       (Raise LineageCorruptionError ''Session is bound to invalid Song/Artist'')) (\<lambda>_.
     bindE (primary_artist_id db) (\<lambda>artist.
     bindE (guardE (sn_artist_id s = artist)
       (Raise LineageCorruptionError ''Session artist does not match active profile'')) (\<lambda>_.
     bindE (guardE (case sn_version_id s of None \<Rightarrow> True
                    | Some v \<Rightarrow> (case get_version db v of None \<Rightarrow> False
                                | Some w \<Rightarrow> ve_song_id w = sn_song_id s))
       (Raise LineageCorruptionError ''Session version crosses Songs'')) (\<lambda>_.
     bindE (guardE (\<not> (sn_state s = SESSION_OPEN
          \<and> (sn_debrief_summary s \<noteq> None \<or> sn_next_action s \<noteq> None)))
       (Raise LineageCorruptionError ''open Session contains final debrief'')) (\<lambda>_.
     guardE (\<not> (sn_state s = SESSION_CLOSED
          \<and> (sn_debrief_summary s \<in> {None, Some []} \<or> sn_next_action s \<in> {None, Some []})))
       (Raise LineageCorruptionError ''closed Session is missing debrief''))))))"

text \<open>The rows of the join of requests, items and sessions; a request without them is not looked at.\<close>

definition validate_request :: "'a session_db_scheme \<Rightarrow> promotion_request \<Rightarrow> unit res" where
  "validate_request db r =
     (case item_with_session db (pr_item_id r) of
        Inl _ \<Rightarrow> Inr ()
      | Inr (i, s) \<Rightarrow>
          bindE (guardE (prefix promotion_prefix (pr_source_ref r))
            (Raise LineageCorruptionError ''Session promotion source reference is invalid'')) (\<lambda>_.
          bindE (guardE (pr_scope_kind r \<in> {SCOPE_SONG, SCOPE_VERSION})
            (Raise LineageCorruptionError ''Session promotion contains invalid scope'')) (\<lambda>_.
          bindE (guardE (0 \<le> pr_confidence r \<and> pr_confidence r \<le> 1)
            (Raise LineageCorruptionError ''Session promotion contains invalid confidence'')) (\<lambda>_.
          bindE (guardE (loads (pr_value_json r) \<noteq> None)
            (Raise LineageCorruptionError ''Session memory is unreadable or corrupt'')) (\<lambda>_.
          bindE (guardE (loads (pr_value_json r) = Some (JStr (si_body i)))
            (Raise LineageCorruptionError ''Session promotion value diverges from scratch'')) (\<lambda>_.
          if pr_scope_kind r = SCOPE_SONG
          then guardE (pr_scope_id r = sn_song_id s)
            (Raise LineageCorruptionError ''Session promotion crosses Songs'')
          else guardE (sn_version_id s = Some (pr_scope_id r))
            (Raise LineageCorruptionError ''Session promotion crosses Session version'')))))))"

text \<open>In SQL a missing source reference does not differ from any.\<close>

definition valid_promotion :: "'a session_db_scheme \<Rightarrow> session_promotion \<Rightarrow> bool" where
  "valid_promotion db p \<longleftrightarrow>
     (case (request_for_item db (sp_item_id p), find_claim db (sp_claim_id p)) of
        (Some r, Some c) \<Rightarrow> request_matches r
          (if er_source_ref c = None then c\<lparr>er_source_ref := Some (pr_source_ref r)\<rparr> else c)
      | _ \<Rightarrow> False)"

definition validate_sessions :: "'a session_db_scheme \<Rightarrow> unit res" where
  "validate_sessions db =
     bindE (guardE (db_metadata db ''session_schema_version'' = Some ''1'')
       (Raise LineageCorruptionError ''unsupported Session schema version'')) (\<lambda>_.
     bindE (mapE (validate_session db) (db_sessions db)) (\<lambda>_.
     bindE (mapE (\<lambda>i. guardE (get_session db (si_session_id i) \<noteq> None)
       (Raise LineageCorruptionError ''Session scratch lost its Session'')) (db_session_items db)) (\<lambda>_.
     bindE (mapE (validate_request db) (db_promotion_requests db)) (\<lambda>_.
     guardE (list_all (valid_promotion db) (db_promotions db))
       (Raise LineageCorruptionError ''Session promotion link is inconsistent'')))))"

end
