(* ===== verification/Sessions_Facts.thy ===== *)
theory Sessions_Facts
  imports Sessions
begin

text \<open>
  The invariant of \<open>Sessions\<close>, what may happen to a session (\<open>session_kept\<close>), each statement and operation,
  the contract of a store over the evidence memory interpreted, and what follows for every reachable memory:
  one open session per song, closed sessions final, promotion once, faithful, and possible to finish after an
  interruption.
\<close>

subsection \<open>The invariant\<close>

definition session_ok :: "'a session_db_scheme \<Rightarrow> song_session \<Rightarrow> bool" where
  "session_ok db s \<longleftrightarrow> sn_song_id s \<in> so_id ` set (db_songs db) \<and> primary_artist_id db = Inr (sn_artist_id s)
     \<and> pred_option (\<lambda>v. \<exists>w \<in> set (db_versions db). ve_id w = v \<and> ve_song_id w = sn_song_id s) (sn_version_id s)
     \<and> (sn_state s = SESSION_OPEN \<longrightarrow> sn_debrief_summary s = None \<and> sn_next_action s = None)
     \<and> (sn_state s = SESSION_CLOSED
          \<longrightarrow> sn_debrief_summary s \<notin> {None, Some []} \<and> sn_next_action s \<notin> {None, Some []})"

text \<open>Only the last session of a song may be open.\<close>

definition closed_before :: "song_session \<Rightarrow> song_session \<Rightarrow> bool" where
  "closed_before s t \<longleftrightarrow> (sn_song_id s = sn_song_id t \<longrightarrow> sn_state s = SESSION_CLOSED)"

definition session_binding :: "song_session \<Rightarrow> string \<times> string \<times> string option" where
  "session_binding s = (sn_id s, sn_song_id s, sn_version_id s)"

definition scope_binds :: "promotion_request \<Rightarrow> string \<Rightarrow> string option \<Rightarrow> bool" where
  "scope_binds r song version \<longleftrightarrow> pr_scope_kind r = SCOPE_SONG \<and> pr_scope_id r = song
     \<or> pr_scope_kind r = SCOPE_VERSION \<and> version = Some (pr_scope_id r)"

definition request_ok ::
  "(string \<times> string \<times> string option) set \<Rightarrow> session_item list \<Rightarrow> promotion_request \<Rightarrow> bool" where
  "request_ok bindings is r \<longleftrightarrow> pr_source_ref r = promotion_prefix @ pr_id r \<and> trimmed (pr_key r)
     \<and> 0 \<le> pr_confidence r \<and> pr_confidence r \<le> 1
     \<and> (\<exists>i \<in> set is. si_id i = pr_item_id r \<and> pr_value_json r = canonical_value (JStr (si_body i))
          \<and> (\<exists>song version. (si_session_id i, song, version) \<in> bindings \<and> scope_binds r song version))"

definition requests_ok ::
  "(string \<times> string \<times> string option) set \<Rightarrow> session_item list \<Rightarrow> promotion_request list \<Rightarrow> bool" where
  "requests_ok bindings is rs \<longleftrightarrow> distinct (map pr_item_id rs) \<and> distinct (map pr_source_ref rs)
     \<and> list_all (request_ok bindings is) rs"

definition promotions_ok ::
  "promotion_request list \<Rightarrow> evidence_row list \<Rightarrow> session_promotion list \<Rightarrow> bool" where
  "promotions_ok rs rows ps \<longleftrightarrow> distinct (map sp_item_id ps)
     \<and> (\<forall>p \<in> set ps. \<exists>r \<in> set rs. \<exists>c \<in> set rows.
          pr_item_id r = sp_item_id p \<and> er_id c = sp_claim_id p \<and> request_matches r c)"

definition promotion_sources :: "evidence_row list \<Rightarrow> string list" where
  "promotion_sources rows = filter like_promotion (List.map_filter er_source_ref rows)"

definition session_tables_ok :: "'a session_db_scheme \<Rightarrow> bool" where
  "session_tables_ok db \<longleftrightarrow> one_artist db \<and> db_metadata db ''session_schema_version'' = Some ''1''
     \<and> distinct (map sn_id (db_sessions db)) \<and> list_all (session_ok db) (db_sessions db)
     \<and> sorted_wrt closed_before (db_sessions db)
     \<and> distinct (map si_id (db_session_items db))
     \<and> list_all (\<lambda>i. si_session_id i \<in> sn_id ` set (db_sessions db)) (db_session_items db)
     \<and> requests_ok (session_binding ` set (db_sessions db)) (db_session_items db) (db_promotion_requests db)
     \<and> promotions_ok (db_promotion_requests db) (db_evidence_claims db) (db_promotions db)
     \<and> distinct (promotion_sources (db_evidence_claims db))"

definition session_inv :: "'a session_db_scheme \<Rightarrow> bool" where
  "session_inv db \<longleftrightarrow> ev_inv db \<and> session_tables_ok db"

lemma session_tables_okD:
  assumes "session_tables_ok db"
  shows "one_artist db" and "db_metadata db ''session_schema_version'' = Some ''1''"
    and "distinct (map sn_id (db_sessions db))" and "list_all (session_ok db) (db_sessions db)"
    and "sorted_wrt closed_before (db_sessions db)"
    and "distinct (map si_id (db_session_items db))"
    and "list_all (\<lambda>i. si_session_id i \<in> sn_id ` set (db_sessions db)) (db_session_items db)"
    and "requests_ok (session_binding ` set (db_sessions db)) (db_session_items db) (db_promotion_requests db)"
    and "promotions_ok (db_promotion_requests db) (db_evidence_claims db) (db_promotions db)"
    and "distinct (promotion_sources (db_evidence_claims db))"
  using assms by (simp_all add: session_tables_ok_def)

lemma session_invD: "session_inv db \<Longrightarrow> ev_inv db" "session_inv db \<Longrightarrow> session_tables_ok db"
  by (simp_all add: session_inv_def)

lemma more_sessions:
  assumes "evidence_db.more db' = evidence_db.more db"
  shows "db_sessions db' = db_sessions db" and "db_session_items db' = db_session_items db"
    and "db_promotion_requests db' = db_promotion_requests db" and "db_promotions db' = db_promotions db"
  using assms by (cases db; cases db'; simp)+

lemma session_ok_mono:
  assumes "ev_extends db db'" and "session_ok db s"
  shows "session_ok db' s"
proof -
  have "set (db_versions db) \<subseteq> set (db_versions db')"
    using assms(1) unfolding ev_extends_def by (blast dest: set_mono_prefix)
  moreover have "so_id ` set (db_songs db) \<subseteq> so_id ` set (db_songs db')" using assms(1) by (simp add: ev_extends_def)
  moreover have "primary_artist_id db' = primary_artist_id db" using ev_extends_artist [OF assms(1)] by simp
  ultimately show ?thesis using assms(2) by (cases "sn_version_id s") (auto simp: session_ok_def)
qed

lemma request_ok_mono: "request_ok bs is r \<Longrightarrow> bs \<subseteq> bs' \<Longrightarrow> set is \<subseteq> set is' \<Longrightarrow> request_ok bs' is' r"
  unfolding request_ok_def by blast

lemma requests_ok_mono: "requests_ok bs is rs \<Longrightarrow> bs \<subseteq> bs' \<Longrightarrow> set is \<subseteq> set is' \<Longrightarrow> requests_ok bs' is' rs"
  unfolding requests_ok_def by (auto simp: list_all_iff intro: request_ok_mono)

lemma promotions_ok_mono:
  "promotions_ok rs rows ps \<Longrightarrow> set rs \<subseteq> set rs' \<Longrightarrow> set rows \<subseteq> set rows' \<Longrightarrow> promotions_ok rs' rows' ps"
  unfolding promotions_ok_def by (elim conjE, intro conjI ballI) (simp, meson in_mono)

text \<open>Below the tables the lineage may grow, and claims may be added.\<close>

lemma session_tables_mono:
  assumes "ev_extends db db'" and "evidence_db.more db' = evidence_db.more db" and "session_tables_ok db"
    and "distinct (promotion_sources (db_evidence_claims db'))"
  shows "session_tables_ok db'"
proof -
  note t = session_tables_okD [OF assms(3)]
  have "one_artist db'" using ev_extends_artist [OF assms(1)] t(1) by blast
  moreover have "db_metadata db' ''session_schema_version'' = Some ''1''"
    using assms(1) t(2) by (simp add: ev_extends_def)
  moreover have "list_all (session_ok db') (db_sessions db)"
    using t(4) session_ok_mono [OF assms(1)] by (simp add: list_all_iff)
  moreover have "set (db_evidence_claims db) \<subseteq> set (db_evidence_claims db')"
    using assms(1) unfolding ev_extends_def by (blast dest: set_mono_prefix)
  then have "promotions_ok (db_promotion_requests db) (db_evidence_claims db') (db_promotions db)"
    using promotions_ok_mono [OF t(9)] by simp
  ultimately show ?thesis
    using t assms(4) by (simp add: session_tables_ok_def more_sessions [OF assms(2)])
qed

subsection \<open>What may happen to a session\<close>

definition session_kept :: "song_session \<Rightarrow> song_session \<Rightarrow> bool" where
  "session_kept s t \<longleftrightarrow> t\<lparr>sn_state := sn_state s, sn_debrief_summary := sn_debrief_summary s,
       sn_next_action := sn_next_action s\<rparr> = s \<and> (sn_state s = SESSION_CLOSED \<longrightarrow> t = s)"

lemma session_kept_refl [simp]: "session_kept s s"
  by (simp add: session_kept_def)

lemma session_kept_trans: "session_kept s t \<Longrightarrow> session_kept t u \<Longrightarrow> session_kept s u"
  by (cases s; cases t; cases u) (auto simp: session_kept_def)

lemma session_kept_id: "session_kept s t \<Longrightarrow> sn_id t = sn_id s \<and> session_binding t = session_binding s"
  by (cases s; cases t) (auto simp: session_kept_def session_binding_def)

definition scratch_of :: "string \<Rightarrow> session_item list \<Rightarrow> session_item list" where
  "scratch_of sid is = filter (\<lambda>i. si_session_id i = sid) is"

definition session_extends :: "'a session_db_scheme \<Rightarrow> 'a session_db_scheme \<Rightarrow> bool" where
  "session_extends db db' \<longleftrightarrow> ev_extends db db'
     \<and> (\<forall>s \<in> set (db_sessions db). \<exists>t \<in> set (db_sessions db'). session_kept s t)
     \<and> (\<forall>s \<in> set (db_sessions db). sn_state s = SESSION_CLOSED
          \<longrightarrow> scratch_of (sn_id s) (db_session_items db') = scratch_of (sn_id s) (db_session_items db))
     \<and> prefix (db_session_items db) (db_session_items db')
     \<and> prefix (db_promotion_requests db) (db_promotion_requests db')
     \<and> prefix (db_promotions db) (db_promotions db')"

lemma session_extendsD:
  assumes "session_extends db db'"
  shows "ev_extends db db'" and "s \<in> set (db_sessions db) \<Longrightarrow> \<exists>t \<in> set (db_sessions db'). session_kept s t"
    and "s \<in> set (db_sessions db) \<Longrightarrow> sn_state s = SESSION_CLOSED
      \<Longrightarrow> scratch_of (sn_id s) (db_session_items db') = scratch_of (sn_id s) (db_session_items db)"
    and "prefix (db_session_items db) (db_session_items db')"
    and "prefix (db_promotion_requests db) (db_promotion_requests db')"
    and "prefix (db_promotions db) (db_promotions db')"
  using assms by (simp_all add: session_extends_def)

lemma session_extends_trans:
  assumes "session_extends a b" and "session_extends b c"
  shows "session_extends a c"
proof -
  note ab = session_extendsD [OF assms(1)] and bc = session_extendsD [OF assms(2)]
  have "\<exists>u \<in> set (db_sessions c). session_kept s u" if "s \<in> set (db_sessions a)" for s
    using ab(2) [OF that] bc(2) session_kept_trans by blast
  moreover have "scratch_of (sn_id s) (db_session_items c) = scratch_of (sn_id s) (db_session_items a)"
    if s: "s \<in> set (db_sessions a)" "sn_state s = SESSION_CLOSED" for s
  proof -
    have "s \<in> set (db_sessions b)" using ab(2) [OF s(1)] s(2) by (auto simp: session_kept_def)
    then show ?thesis using ab(3) [OF s] bc(3) s(2) by simp
  qed
  moreover have "ev_extends a c" using ab(1) bc(1) by (rule ev_extends_trans)
  moreover have "prefix (db_session_items a) (db_session_items c)"
    "prefix (db_promotion_requests a) (db_promotion_requests c)" "prefix (db_promotions a) (db_promotions c)"
    using prefix_order.trans [OF ab(4) bc(4)] prefix_order.trans [OF ab(5) bc(5)]
      prefix_order.trans [OF ab(6) bc(6)] by simp_all
  ultimately show ?thesis unfolding session_extends_def by (intro conjI ballI impI)
qed

lemma session_extends_tables:
  assumes "ev_extends db db'" and "db_sessions db' = db_sessions db" and "db_session_items db' = db_session_items db"
    and "prefix (db_promotion_requests db) (db_promotion_requests db')" and "prefix (db_promotions db) (db_promotions db')"
  shows "session_extends db db'"
proof -
  have "\<exists>t \<in> set (db_sessions db). session_kept s t" if "s \<in> set (db_sessions db)" for s
    using that session_kept_refl by blast
  then show ?thesis using assms by (simp add: session_extends_def)
qed

lemma session_extends_more:
  "ev_extends db db' \<Longrightarrow> evidence_db.more db' = evidence_db.more db \<Longrightarrow> session_extends db db'"
  using more_sessions [of db' db] by (intro session_extends_tables) simp_all

lemma session_extends_refl [simp]: "session_extends db db"
  by (rule session_extends_tables) simp_all

subsection \<open>The statement that inserts a claim\<close>

lemma promotion_sources_append:
  "promotion_sources (rows @ [c]) = promotion_sources rows
     @ (case er_source_ref c of None \<Rightarrow> [] | Some ref \<Rightarrow> if like_promotion ref then [ref] else [])"
  by (simp add: promotion_sources_def List.map_filter_def split: option.split)

lemma promotion_sources_mem:
  "ref \<in> set (promotion_sources rows) \<longleftrightarrow> like_promotion ref \<and> (\<exists>c \<in> set rows. er_source_ref c = Some ref)"
  by (auto simp: promotion_sources_def List.map_filter_def) force

lemma source_ref_free_distinct:
  assumes "source_ref_free c rows" and "distinct (promotion_sources rows)"
  shows "distinct (promotion_sources (rows @ [c]))"
  using assms by (auto simp: source_ref_free_def promotion_sources_append promotion_sources_mem list_ex_iff
      split: option.splits)

interpretation session_tables: evidence_tables session_tables_ok
proof unfold_locales
  fix db db' :: "'a session_db_scheme"
  assume "ev_extends db db'" "db_evidence_claims db' = db_evidence_claims db"
    "evidence_db.more db' = evidence_db.more db" "session_tables_ok db"
  then show "session_tables_ok db'" using session_tables_mono session_tables_okD(10) by metis
qed

lemma session_frames [simp]:
  "session_ok (db\<lparr>db_sessions := ss\<rparr>) = session_ok db"
  "session_ok (db\<lparr>db_session_items := is\<rparr>) = session_ok db"
  "session_ok (db\<lparr>db_promotion_requests := rs\<rparr>) = session_ok db"
  "session_ok (db\<lparr>db_promotions := ps\<rparr>) = session_ok db"
  "one_artist (db\<lparr>db_sessions := ss\<rparr>) = one_artist db"
  "one_artist (db\<lparr>db_session_items := is\<rparr>) = one_artist db"
  "one_artist (db\<lparr>db_promotion_requests := rs\<rparr>) = one_artist db"
  "one_artist (db\<lparr>db_promotions := ps\<rparr>) = one_artist db"
  "evidence_db.truncate (db\<lparr>db_sessions := ss\<rparr>) = evidence_db.truncate db"
  "evidence_db.truncate (db\<lparr>db_session_items := is\<rparr>) = evidence_db.truncate db"
  "evidence_db.truncate (db\<lparr>db_promotion_requests := rs\<rparr>) = evidence_db.truncate db"
  "evidence_db.truncate (db\<lparr>db_promotions := ps\<rparr>) = evidence_db.truncate db"
  by (simp_all add: session_ok_def fun_eq_iff primary_artist_id_def one_artist_def evidence_db.defs)

text \<open>The four tables of two databases agree, but for the promotions.\<close>

definition same_sessions :: "'a session_db_scheme \<Rightarrow> 'a session_db_scheme \<Rightarrow> bool" where
  "same_sessions db db' \<longleftrightarrow> db_sessions db' = db_sessions db \<and> db_session_items db' = db_session_items db
     \<and> db_promotion_requests db' = db_promotion_requests db"

lemma insert_promotion_step:
  assumes "insert_promotion p db = Inr db'" and "ev_inv db" and "session_tables_ok db"
    and "r \<in> set (db_promotion_requests db)" and "c \<in> set (db_evidence_claims db)"
    and "pr_item_id r = sp_item_id p" and "er_id c = sp_claim_id p" and "request_matches r c"
  shows "ev_inv db' \<and> ev_extends db db' \<and> session_tables_ok db' \<and> same_sessions db db'
    \<and> db_evidence_claims db' = db_evidence_claims db \<and> db_supersessions db' = db_supersessions db
    \<and> db_promotions db' = db_promotions db @ [p]"
proof -
  let ?db = "db\<lparr>db_promotions := db_promotions db @ [p]\<rparr>"
  from assms(1) have new: "sp_item_id p \<notin> sp_item_id ` set (db_promotions db)"
    and ins: "(case item_with_session ?db (sp_item_id p) of
       Inl _ \<Rightarrow> Inr ?db
     | Inr (_, s) \<Rightarrow> insert_activity ''SESSION_ITEM_PROMOTED'' (sn_artist_id s) (Some (sn_song_id s))
         (sn_version_id s) ''EVIDENCE_CLAIM'' (sp_claim_id p) ?db) = Inr db'"
    unfolding insert_promotion_def Let_def by (auto simp: guardE_eq_Inr elim!: bindE_InrE)
  note t = session_tables_okD [OF assms(3)]
  have "promotions_ok (db_promotion_requests db) (db_evidence_claims db) (db_promotions db @ [p])"
    using t(9) new assms(4-8) unfolding promotions_ok_def by auto
  then have ok: "session_tables_ok ?db" using t by (simp add: session_tables_ok_def)
  have same: "evidence_db.truncate ?db = evidence_db.truncate db" by simp
  show ?thesis
  proof (cases "item_with_session ?db (sp_item_id p)")
    case (Inl e)
    with ins have "db' = ?db" by simp
    moreover have "ev_inv ?db" "ev_extends db ?db" using ev_inv_same [OF same] ev_extends_same [OF same] assms(2) by simp_all
    ultimately show ?thesis using ok by (simp add: same_sessions_def)
  next
    case (Inr x)
    obtain i s where x: "x = (i, s)" by (cases x)
    from ins Inr x have a: "insert_activity ''SESSION_ITEM_PROMOTED'' (sn_artist_id s) (Some (sn_song_id s))
         (sn_version_id s) ''EVIDENCE_CLAIM'' (sp_claim_id p) ?db = Inr db'" by simp
    have s: "ev_inv db' \<and> ev_extends db db' \<and> evidence_db.more db' = evidence_db.more ?db
      \<and> db_evidence_claims db' = db_evidence_claims db \<and> db_supersessions db' = db_supersessions db
      \<and> session_tables_ok db'"
      by (rule session_tables.statement_step [OF a assms(2) same ok])
    then have m: "evidence_db.more db' = evidence_db.more ?db" by blast
    show ?thesis using s more_sessions [OF m] by (simp add: same_sessions_def)
  qed
qed

lemma link_promotions_step:
  assumes "link_promotions c rs db = Inr db'" and "ev_inv db" and "session_tables_ok db"
    and "set rs \<subseteq> set (db_promotion_requests db)" and "c \<in> set (db_evidence_claims db)"
  shows "ev_inv db' \<and> ev_extends db db' \<and> session_tables_ok db' \<and> same_sessions db db'
    \<and> db_evidence_claims db' = db_evidence_claims db \<and> db_supersessions db' = db_supersessions db
    \<and> db_promotions db' = db_promotions db
        @ map (\<lambda>r. \<lparr>sp_item_id = pr_item_id r, sp_claim_id = er_id c\<rparr>) (filter (\<lambda>r. request_matches r c) rs)"
  using assms
proof (induction rs arbitrary: db)
  case Nil
  then show ?case by (simp add: same_sessions_def)
next
  case (Cons r rs)
  from Cons.prems(1) obtain db1 where
    1: "(if request_matches r c then insert_promotion \<lparr>sp_item_id = pr_item_id r, sp_claim_id = er_id c\<rparr> db else Inr db) = Inr db1"
    and 2: "link_promotions c rs db1 = Inr db'" unfolding link_promotions.simps by (rule bindE_InrE)
  have s: "ev_inv db1 \<and> ev_extends db db1 \<and> session_tables_ok db1 \<and> same_sessions db db1
    \<and> db_evidence_claims db1 = db_evidence_claims db \<and> db_supersessions db1 = db_supersessions db
    \<and> db_promotions db1 = db_promotions db
       @ (if request_matches r c then [\<lparr>sp_item_id = pr_item_id r, sp_claim_id = er_id c\<rparr>] else [])"
  proof (cases "request_matches r c")
    case True
    with 1 have i: "insert_promotion \<lparr>sp_item_id = pr_item_id r, sp_claim_id = er_id c\<rparr> db = Inr db1" by simp
    show ?thesis
      using insert_promotion_step [OF i Cons.prems(2,3), of r c] Cons.prems(4,5) True by simp
  qed (use 1 Cons.prems in \<open>simp add: same_sessions_def\<close>)
  have "ev_inv db' \<and> ev_extends db1 db' \<and> session_tables_ok db' \<and> same_sessions db1 db'
    \<and> db_evidence_claims db' = db_evidence_claims db1 \<and> db_supersessions db' = db_supersessions db1
    \<and> db_promotions db' = db_promotions db1
        @ map (\<lambda>r. \<lparr>sp_item_id = pr_item_id r, sp_claim_id = er_id c\<rparr>) (filter (\<lambda>r. request_matches r c) rs)"
    by (rule Cons.IH [OF 2]) (use s Cons.prems in \<open>simp_all add: same_sessions_def\<close>)
  with s show ?case using ev_extends_trans [of db db1 db'] by (simp add: same_sessions_def)
qed

lemma session_insert_claim_step:
  assumes "session_insert_claim c db = Inr db'" and "ev_inv db" and "session_tables_ok db"
    and "er_seq c = Suc (length (db_evidence_claims db))"
    and "check_scope ValidationError (er_scope_kind c) (er_scope_id c) db = Inr ()"
    and "wf_json v" and "er_value_json c = canonical_value v" and "trimmed (er_key c)"
  shows "ev_inv db' \<and> session_tables_ok db' \<and> ev_extends db db'
    \<and> db_evidence_claims db' = db_evidence_claims db @ [c] \<and> db_supersessions db' = db_supersessions db
    \<and> er_id c \<notin> er_id ` set (db_evidence_claims db) \<and> same_sessions db db'
    \<and> db_promotions db' = db_promotions db @ map (\<lambda>r. \<lparr>sp_item_id = pr_item_id r, sp_claim_id = er_id c\<rparr>)
        (filter (\<lambda>r. request_matches r c) (db_promotion_requests db))
    \<and> source_ref_free c (db_evidence_claims db)"
proof -
  from assms(1) obtain db1 where f: "source_ref_free c (db_evidence_claims db)"
    and i: "insert_claim c db = Inr db1" and l: "link_promotions c (db_promotion_requests db1) db1 = Inr db'"
    unfolding session_insert_claim_def by (auto simp: guardE_eq_Inr elim!: bindE_InrE)
  have s: "ev_inv db1 \<and> ev_extends db db1 \<and> db_evidence_claims db1 = db_evidence_claims db @ [c]
    \<and> db_supersessions db1 = db_supersessions db \<and> er_id c \<notin> er_id ` set (db_evidence_claims db)"
    by (rule insert_claim_step [OF i assms(2,4-8)])
  note m = insert_claim_more [OF i]
  have "session_tables_ok db1"
  proof (rule session_tables_mono [OF _ m assms(3)])
    show "distinct (promotion_sources (db_evidence_claims db1))"
      using s source_ref_free_distinct [OF f session_tables_okD(10) [OF assms(3)]] by simp
  qed (use s in simp)
  then have "ev_inv db' \<and> ev_extends db1 db' \<and> session_tables_ok db' \<and> same_sessions db1 db'
    \<and> db_evidence_claims db' = db_evidence_claims db1 \<and> db_supersessions db' = db_supersessions db1
    \<and> db_promotions db' = db_promotions db1
        @ map (\<lambda>r. \<lparr>sp_item_id = pr_item_id r, sp_claim_id = er_id c\<rparr>)
          (filter (\<lambda>r. request_matches r c) (db_promotion_requests db1))"
    by (intro link_promotions_step [OF l]) (use s in simp_all)
  then show ?thesis
    using s f ev_extends_trans [of db db1 db'] by (simp add: more_sessions [OF m] same_sessions_def)
qed

interpretation session_store: evidence_store session_tables_ok session_insert_claim
  by unfold_locales (use session_insert_claim_step in blast)

subsection \<open>Each operation\<close>

lemma session_extends_same:
  assumes "ev_extends db db'" and "same_sessions db db'" and "prefix (db_promotions db) (db_promotions db')"
  shows "session_extends db db'"
  using assms by (intro session_extends_tables) (simp_all add: same_sessions_def)

lemma link_promotions_rows:
  "link_promotions r rs db = Inr db' \<Longrightarrow> same_sessions db db'
     \<and> db_promotions db' = db_promotions db @ map (\<lambda>q. \<lparr>sp_item_id = pr_item_id q, sp_claim_id = er_id r\<rparr>)
        (filter (\<lambda>q. request_matches q r) rs)"
proof (induction rs arbitrary: db)
  case Nil
  then show ?case by (simp add: same_sessions_def)
next
  case (Cons q rs)
  from Cons.prems obtain db1 where
    1: "(if request_matches q r then insert_promotion \<lparr>sp_item_id = pr_item_id q, sp_claim_id = er_id r\<rparr> db else Inr db) = Inr db1"
    and 2: "link_promotions r rs db1 = Inr db'" unfolding link_promotions.simps by (rule bindE_InrE)
  have "db_promotions db1 = db_promotions db
      @ (if request_matches q r then [\<lparr>sp_item_id = pr_item_id q, sp_claim_id = er_id r\<rparr>] else [])
    \<and> same_sessions db db1"
    using 1 by (auto simp: insert_promotion_def Let_def same_sessions_def split: if_splits sum.splits
        elim!: bindE_InrE insert_activity_Inr)
  with Cons.IH [OF 2] show ?case by (simp add: same_sessions_def)
qed

lemma session_record_claim_Inr:
  assumes "session_record_claim kind0 sid key0 v source0 sref conf domain0 olds db = Inr (c, db')"
    and "session_inv db" and "wf_json v"
  obtains r where "session_inv db'" "session_extends db db'" "same_sessions db db'" "c = row_claim r"
    "db_evidence_claims db' = db_evidence_claims db @ [r]" "er_id r \<notin> er_id ` set (db_evidence_claims db)"
    "db_promotions db' = db_promotions db @ map (\<lambda>q. \<lparr>sp_item_id = pr_item_id q, sp_claim_id = er_id r\<rparr>)
        (filter (\<lambda>q. request_matches q r) (db_promotion_requests db))"
    "parse_enum SCOPE_KINDS kind0 = Some (er_scope_kind r)" "er_scope_id r = sid" "er_key r = strip key0"
    "er_value_json r = canonical_value v" "parse_enum SOURCE_KINDS source0 = Some (er_source_kind r)"
    "er_source_ref r = sref" "er_confidence r = conf" "parse_enum TWIN_DOMAINS domain0 = Some (er_twin_domain r)"
    "source_ref_free r (db_evidence_claims db)"
proof -
  note inv = session_invD [OF assms(2)]
  obtain r kind source db1 db2 where r: "ev_inv db'" "ev_extends db db'" "session_tables_ok db'" "c = row_claim r"
    "db_evidence_claims db' = db_evidence_claims db @ [r]" "er_id r \<notin> er_id ` set (db_evidence_claims db)"
    "validate_scope ValidationError kind0 sid db = Inr kind" "er_scope_kind r = kind" "er_scope_id r = sid"
    "strip key0 \<noteq> []" "er_key r = strip key0" "er_value_json r = canonical_value v"
    "parse_enum SOURCE_KINDS source0 = Some source" "er_source_kind r = source" "er_source_ref r = sref"
    "er_confidence r = conf" "parse_enum TWIN_DOMAINS domain0 = Some (er_twin_domain r)"
    and n: "new_id ''claim'' db = (er_id r, db1)" and i: "session_insert_claim r db1 = Inr db2"
    and m: "evidence_db.more db' = evidence_db.more db2"
    using assms(1) unfolding session_record_claim_def
    by (rule session_store.recorded_Inr [OF _ inv assms(3)])
  note db1 = new_id_draws [OF n]
  have "source_ref_free r (db_evidence_claims db1) \<and> same_sessions db1 db2 \<and> db_promotions db2 = db_promotions db1
      @ map (\<lambda>q. \<lparr>sp_item_id = pr_item_id q, sp_claim_id = er_id r\<rparr>)
        (filter (\<lambda>q. request_matches q r) (db_promotion_requests db1))"
  proof -
    from i obtain db3 where f: "source_ref_free r (db_evidence_claims db1)" and a: "insert_claim r db1 = Inr db3"
      and l: "link_promotions r (db_promotion_requests db3) db3 = Inr db2"
      unfolding session_insert_claim_def by (auto simp: guardE_eq_Inr elim!: bindE_InrE)
    from link_promotions_rows [OF l] show ?thesis using f by (simp add: more_sessions [OF insert_claim_more [OF a]] same_sessions_def)
  qed
  then have p: "source_ref_free r (db_evidence_claims db)" "same_sessions db db'"
    "db_promotions db' = db_promotions db @ map (\<lambda>q. \<lparr>sp_item_id = pr_item_id q, sp_claim_id = er_id r\<rparr>)
        (filter (\<lambda>q. request_matches q r) (db_promotion_requests db))"
    by (simp_all add: more_sessions [OF m] db1 same_sessions_def)
  then have "session_extends db db'" using session_extends_same [OF r(2)] by simp
  moreover have "parse_enum SCOPE_KINDS kind0 = Some (er_scope_kind r)"
    using r(7,8) by (auto simp: validate_scope_def split: option.splits elim!: bindE_InrE)
  moreover have "session_inv db'" using r(1,3) by (simp add: session_inv_def)
  ultimately show ?thesis
    using that [of r, OF _ _ p(2) r(4,5,6) p(3) _ r(9,11,12) _ r(15,16,17) p(1)] r(13,14) by simp
qed

lemma session_ids:
  assumes "session_inv db" and "s \<in> set (db_sessions db)"
  shows "get_session db (sn_id s) = Some s"
proof -
  have d: "distinct (map sn_id (db_sessions db))" using session_tables_okD(3) session_invD(2) assms(1) by blast
  obtain t where t: "get_session db (sn_id s) = Some t"
    using assms(2) by (cases "get_session db (sn_id s)") (auto simp: get_session_def find_None_iff)
  then have "t \<in> set (db_sessions db)" "sn_id t = sn_id s"
    by (auto simp: get_session_def find_Some_iff in_set_conv_nth)
  then show ?thesis using t d assms(2) by (simp add: distinct_map inj_on_def)
qed

lemma get_session_Some: "get_session db sid = Some s \<Longrightarrow> s \<in> set (db_sessions db) \<and> sn_id s = sid"
  by (auto simp: get_session_def find_Some_iff in_set_conv_nth)

lemma require_session_Inr: "require_session db sid = Inr s \<longleftrightarrow> get_session db sid = Some s"
  by (simp add: require_session_def split: option.splits)

lemma insert_session_step:
  assumes "insert_session s db = Inr db'" and "session_inv db"
    and "sn_song_id s \<in> so_id ` set (db_songs db)" and "primary_artist_id db = Inr (sn_artist_id s)"
    and "sn_state s = SESSION_OPEN" and "sn_debrief_summary s = None" and "sn_next_action s = None"
  shows "session_inv db' \<and> session_extends db db' \<and> db_sessions db' = db_sessions db @ [s]"
proof -
  let ?db = "db\<lparr>db_sessions := db_sessions db @ [s]\<rparr>"
  from assms(1,5) have v: "pred_option (\<lambda>v. version_in_song db v (sn_song_id s)) (sn_version_id s)"
    and new: "sn_id s \<notin> sn_id ` set (db_sessions db)"
    and one: "\<not> list_ex (\<lambda>t. sn_song_id t = sn_song_id s \<and> sn_state t = SESSION_OPEN) (db_sessions db)"
    and a: "insert_activity ''SESSION_STARTED'' (sn_artist_id s) (Some (sn_song_id s)) (sn_version_id s) ''SESSION''
       (sn_id s) ?db = Inr db'"
    unfolding insert_session_def by (auto simp: guardE_eq_Inr elim!: bindE_InrE)
  note inv = session_invD [OF assms(2)]
  note t = session_tables_okD [OF inv(2)]
  have "session_ok db s"
    using assms(3-7) v by (cases "sn_version_id s") (auto simp: session_ok_def version_in_song_def list_ex_iff)
  moreover have "closed_before u s" if "u \<in> set (db_sessions db)" for u
    using one that by (cases "sn_state u") (auto simp: closed_before_def list_ex_iff)
  moreover have "requests_ok (session_binding ` set (db_sessions db @ [s])) (db_session_items db) (db_promotion_requests db)"
    using t(8) by (rule requests_ok_mono) auto
  ultimately have ok: "session_tables_ok ?db"
    using t new by (auto simp: session_tables_ok_def sorted_wrt_append list_all_iff)
  have st: "ev_inv db' \<and> ev_extends db db' \<and> evidence_db.more db' = evidence_db.more ?db
    \<and> db_evidence_claims db' = db_evidence_claims db \<and> db_supersessions db' = db_supersessions db \<and> session_tables_ok db'"
    by (rule session_tables.statement_step [OF a inv(1) _ ok]) simp
  then have m: "evidence_db.more db' = evidence_db.more ?db" by blast
  have "session_extends db db'"
    unfolding session_extends_def using st more_sessions [OF m] by (auto intro: session_kept_refl)
  then show ?thesis using st more_sessions [OF m] by (simp add: session_inv_def)
qed

lemma insert_session_item_step:
  assumes "insert_session_item i db = Inr db'" and "session_inv db"
  shows "session_inv db' \<and> session_extends db db' \<and> db_session_items db' = db_session_items db @ [i]
    \<and> db_sessions db' = db_sessions db"
proof -
  let ?db = "db\<lparr>db_session_items := db_session_items db @ [i]\<rparr>"
  from assms(1) obtain s where s: "get_session db (si_session_id i) = Some s" "sn_state s = SESSION_OPEN"
    and new: "si_id i \<notin> si_id ` set (db_session_items db)"
    and a: "insert_activity ''SESSION_SCRATCH_ADDED'' (sn_artist_id s) (Some (sn_song_id s)) (sn_version_id s)
            ''SESSION_ITEM'' (si_id i) ?db = Inr db'"
    unfolding insert_session_item_def by (auto simp: guardE_eq_Inr split: option.splits elim!: bindE_InrE)
  note inv = session_invD [OF assms(2)]
  note t = session_tables_okD [OF inv(2)]
  note sm = get_session_Some [OF s(1)]
  have "requests_ok (session_binding ` set (db_sessions db)) (db_session_items db @ [i]) (db_promotion_requests db)"
    using t(8) by (rule requests_ok_mono) auto
  moreover have "si_session_id i \<in> sn_id ` set (db_sessions db)" using sm by (metis imageI)
  ultimately have ok: "session_tables_ok ?db"
    using t new by (auto simp: session_tables_ok_def)
  have st: "ev_inv db' \<and> ev_extends db db' \<and> evidence_db.more db' = evidence_db.more ?db
    \<and> db_evidence_claims db' = db_evidence_claims db \<and> db_supersessions db' = db_supersessions db \<and> session_tables_ok db'"
    by (rule session_tables.statement_step [OF a inv(1) _ ok]) simp
  then have m: "evidence_db.more db' = evidence_db.more ?db" by blast
  have "scratch_of (sn_id u) (db_session_items db @ [i]) = scratch_of (sn_id u) (db_session_items db)"
    if u: "u \<in> set (db_sessions db)" "sn_state u = SESSION_CLOSED" for u
  proof -
    have "sn_id u \<noteq> si_session_id i" using session_ids [OF assms(2) u(1)] s u(2) by auto
    then show ?thesis by (auto simp: scratch_of_def)
  qed
  then have "session_extends db db'"
    unfolding session_extends_def using st more_sessions [OF m] by (auto intro: session_kept_refl)
  then show ?thesis using st more_sessions [OF m] by (simp add: session_inv_def)
qed

text \<open>Closing.\<close>

lemma replaced_sessions:
  assumes "distinct (map sn_id ss)" and "s \<in> set ss"
  shows "map (\<lambda>u. if sn_id u = sn_id s then t else u) ss = map (\<lambda>u. if u = s then t else u) ss"
  using assms by (auto simp: distinct_map inj_on_def)

lemma closed_before_replaced:
  assumes "sorted_wrt closed_before ss" and "sn_song_id t = sn_song_id s" and "sn_state t = SESSION_CLOSED"
  shows "sorted_wrt closed_before (map (\<lambda>u. if u = s then t else u) ss)"
  using assms(1) by (induction ss) (use assms(2,3) in \<open>auto simp: closed_before_def\<close>)

lemma update_session_step:
  assumes "update_session s t db = Inr db'" and "session_inv db" and "s \<in> set (db_sessions db)"
    and "sn_state s = SESSION_OPEN" and "sn_state t = SESSION_CLOSED" and "session_kept s t"
    and "sn_debrief_summary t \<noteq> Some []" and "sn_next_action t \<noteq> Some []"
  shows "session_inv db' \<and> session_extends db db' \<and> t \<in> set (db_sessions db')"
proof -
  define ss where "ss = map (\<lambda>u. if u = s then t else u) (db_sessions db)"
  note inv = session_invD [OF assms(2)]
  note T = session_tables_okD [OF inv(2)]
  note rep = replaced_sessions [OF T(3) assms(3), of t, folded ss_def]
  let ?db = "db\<lparr>db_sessions := ss\<rparr>"
  from assms(1,4,5) have tx: "has_text (sn_debrief_summary t)" "has_text (sn_next_action t)"
    and a: "insert_activity ''SESSION_CLOSED'' (sn_artist_id t) (Some (sn_song_id t)) (sn_version_id t)
            ''SESSION'' (sn_id t) ?db = Inr db'"
    unfolding update_session_def Let_def rep by (auto simp: guardE_eq_Inr elim!: bindE_InrE)
  have eq: "sn_id t = sn_id s" "sn_song_id t = sn_song_id s" "sn_version_id t = sn_version_id s"
    "sn_artist_id t = sn_artist_id s" "session_binding t = session_binding s"
    using assms(6) by (cases s; cases t; auto simp: session_kept_def session_binding_def)+
  have mem: "set ss \<subseteq> insert t (set (db_sessions db))" "t \<in> set ss" using assms(3) by (auto simp: ss_def)
  have "map sn_id ss = map sn_id (db_sessions db)" "map session_binding ss = map session_binding (db_sessions db)"
    using eq by (auto simp: ss_def)
  note ids = this(1) arg_cong [OF this(1), of set, unfolded set_map] arg_cong [OF this(2), of set, unfolded set_map]
  have "session_ok db s" using T(4) assms(3) by (simp add: list_all_iff)
  then have "session_ok db t"
    using tx assms(5,7,8) eq by (auto simp: session_ok_def has_text_def split: option.splits)
  then have ok1: "list_all (session_ok db) ss" using T(4) mem(1) unfolding list_all_iff by blast
  have ok2: "sorted_wrt closed_before ss" unfolding ss_def using T(5) eq(2) assms(5) by (rule closed_before_replaced)
  have ok: "session_tables_ok ?db"
    using T(1,2,3,6-10) ids ok1 ok2 by (simp add: session_tables_ok_def)
  have st: "ev_inv db' \<and> ev_extends db db' \<and> evidence_db.more db' = evidence_db.more ?db
    \<and> db_evidence_claims db' = db_evidence_claims db \<and> db_supersessions db' = db_supersessions db \<and> session_tables_ok db'"
    by (rule session_tables.statement_step [OF a inv(1) _ ok]) simp
  then have m: "evidence_db.more db' = evidence_db.more ?db" by blast
  have "\<exists>v \<in> set ss. session_kept u v" if "u \<in> set (db_sessions db)" for u
    using that assms(6) by (cases "u = s") (auto simp: ss_def intro!: rev_bexI [of u])
  then have "session_extends db db'"
    unfolding session_extends_def using st more_sessions [OF m] by simp
  then show ?thesis using st more_sessions [OF m] mem(2) by (simp add: session_inv_def)
qed

lemma require_text_Inr: "require_text cls v f = Inr t \<longleftrightarrow> t = strip v \<and> t \<noteq> []"
  by (auto simp: require_text_def Let_def)

lemma session_inv_draws: "session_inv (db\<lparr>db_draws := n\<rparr>) = session_inv db"
  by (simp add: session_inv_def session_tables_ok_def one_artist_def session_ok_def list_all_iff primary_artist_id_def
      cong: conj_cong)

lemma session_extends_draws: "session_extends db (db\<lparr>db_draws := n\<rparr>)"
  by (rule session_extends_more [OF ev_extends_draws]) simp

lemma session_version_Inr:
  assumes "session_version db song v0 = Inr version"
  shows "pred_option (\<lambda>v. \<exists>w. get_version db v = Some w \<and> ve_song_id w = so_id song) version"
  using assms by (auto simp: session_version_def guardE_eq_Inr split: option.splits elim!: bindE_InrE)

lemma start_session_Inr:
  assumes "start_session song_id objective version_id db = Inr (s, db')" and "session_inv db"
  shows "session_inv db' \<and> session_extends db db' \<and> db_sessions db' = db_sessions db @ [s]
    \<and> sn_song_id s = song_id \<and> sn_state s = SESSION_OPEN"
proof -
  obtain sid db1 where id: "new_id ''sess'' db = (sid, db1)" by (cases "new_id ''sess'' db") auto
  note db1 = new_id_draws [OF id]
  from assms(1) obtain song version artist where song: "get_song db song_id = Some song"
    and artist: "primary_artist_id db1 = Inr artist"
    and ins: "insert_session \<lparr>sn_seq = Suc (length (db_sessions db1)), sn_id = sid, sn_artist_id = artist,
               sn_song_id = so_id song, sn_version_id = version, sn_objective = strip objective,
               sn_state = SESSION_OPEN, sn_debrief_summary = None, sn_next_action = None\<rparr> db1 = Inr db'" (is "insert_session ?s _ = _")
    and get: "get_session db' sid = Some s"
    unfolding start_session_def id Let_def prod.case
    by (auto simp: require_text_Inr require_session_Inr split: option.splits elim!: bindE_InrE simp del: get_song_None)
  have inv1: "session_inv db1" using assms(2) by (simp add: db1 session_inv_draws)
  have sg: "so_id song = song_id" "song_id \<in> so_id ` set (db_songs db)" using get_song_Some [OF song] by auto
  have st: "session_inv db' \<and> session_extends db1 db' \<and> db_sessions db' = db_sessions db1 @ [?s]"
    by (rule insert_session_step [OF ins inv1]) (use artist sg in \<open>simp_all add: db1\<close>)
  have "get_session db' (sn_id ?s) = Some ?s" by (rule session_ids) (use st in simp_all)
  then have "s = ?s" using get by simp
  moreover have "session_extends db db'" using st session_extends_draws session_extends_trans unfolding db1 by blast
  ultimately show ?thesis using st sg by (simp add: db1)
qed

lemma get_item_Some: "get_item db iid = Some i \<Longrightarrow> i \<in> set (db_session_items db) \<and> si_id i = iid"
  by (auto simp: get_item_def find_Some_iff in_set_conv_nth)

lemma item_row:
  assumes "distinct (map si_id (db_session_items db))" and "i \<in> set (db_session_items db)"
  shows "get_item db (si_id i) = Some i"
proof -
  obtain j where j: "get_item db (si_id i) = Some j"
    using assms(2) by (cases "get_item db (si_id i)") (auto simp: get_item_def find_None_iff)
  then show ?thesis using get_item_Some [OF j] assms by (simp add: distinct_map inj_on_def)
qed

lemma append_scratch_Inr:
  assumes "append_scratch sid kind body db = Inr (i, db')" and "session_inv db"
  shows "session_inv db' \<and> session_extends db db' \<and> db_session_items db' = db_session_items db @ [i]
    \<and> db_sessions db' = db_sessions db \<and> si_session_id i = sid \<and> si_body i = strip body"
proof -
  obtain iid db1 where id: "new_id ''sitem'' db = (iid, db1)" by (cases "new_id ''sitem'' db") auto
  note db1 = new_id_draws [OF id]
  from assms(1) obtain s k where s: "get_session db sid = Some s"
    and ins: "insert_session_item \<lparr>si_seq = Suc (length (db_session_items db1)), si_id = iid,
              si_session_id = sn_id s, si_kind = k, si_body = strip body\<rparr> db1 = Inr db'" (is "insert_session_item ?i _ = _")
    and get: "get_item db' iid = Some i"
    unfolding append_scratch_def id Let_def prod.case
    by (auto simp: require_text_Inr require_session_Inr guardE_eq_Inr split: option.splits elim!: bindE_InrE)
  have inv1: "session_inv db1" using assms(2) by (simp add: db1 session_inv_draws)
  have st: "session_inv db' \<and> session_extends db1 db' \<and> db_session_items db' = db_session_items db1 @ [?i]
    \<and> db_sessions db' = db_sessions db1"
    by (rule insert_session_item_step [OF ins inv1])
  have "distinct (map si_id (db_session_items db'))" using session_tables_okD(6) session_invD(2) st by blast
  moreover have "?i \<in> set (db_session_items db')" using st by simp
  ultimately have "get_item db' (si_id ?i) = Some ?i" by (rule item_row)
  then have "i = ?i" using get by simp
  moreover have "session_extends db db'" using st session_extends_draws session_extends_trans unfolding db1 by blast
  ultimately show ?thesis using st get_session_Some [OF s] by (simp add: db1)
qed

lemma close_session_Inr:
  assumes "close_session sid debrief action db = Inr (s, db')" and "session_inv db"
  shows "session_inv db' \<and> session_extends db db' \<and> s \<in> set (db_sessions db') \<and> sn_id s = sid
    \<and> sn_state s = SESSION_CLOSED \<and> sn_debrief_summary s = Some (strip debrief) \<and> sn_next_action s = Some (strip action)"
proof -
  from assms(1) obtain o0 where o0: "get_session db sid = Some o0" "sn_state o0 = SESSION_OPEN"
    and ne: "strip debrief \<noteq> []" "strip action \<noteq> []"
    and up: "(case find (\<lambda>u. sn_id u = sn_id o0 \<and> sn_state u = SESSION_OPEN) (db_sessions db) of
          None \<Rightarrow> Inr db
        | Some u \<Rightarrow> update_session u (u\<lparr>sn_state := SESSION_CLOSED, sn_debrief_summary := Some (strip debrief),
            sn_next_action := Some (strip action)\<rparr>) db) = Inr db'"
    and get: "get_session db' (sn_id o0) = Some s"
    unfolding close_session_def
    by (auto simp: require_text_Inr require_session_Inr guardE_eq_Inr elim!: bindE_InrE)
  note om = get_session_Some [OF o0(1)]
  have "find (\<lambda>u. sn_id u = sn_id o0 \<and> sn_state u = SESSION_OPEN) (db_sessions db) \<noteq> None"
    using om o0(2) by (auto simp: find_None_iff)
  then obtain u where u: "find (\<lambda>u. sn_id u = sn_id o0 \<and> sn_state u = SESSION_OPEN) (db_sessions db) = Some u" by blast
  then have um: "u \<in> set (db_sessions db)" "sn_id u = sn_id o0" "sn_state u = SESSION_OPEN"
    by (auto simp: find_Some_iff in_set_conv_nth)
  let ?t = "u\<lparr>sn_state := SESSION_CLOSED, sn_debrief_summary := Some (strip debrief), sn_next_action := Some (strip action)\<rparr>"
  from up u have "update_session u ?t db = Inr db'" by simp
  then have st: "session_inv db' \<and> session_extends db db' \<and> ?t \<in> set (db_sessions db')"
    by (rule update_session_step [OF _ assms(2) um(1,3)]) (use um ne in \<open>simp_all add: session_kept_def\<close>)
  then have "get_session db' (sn_id ?t) = Some ?t" by (intro session_ids) blast+
  then have "s = ?t" using get um(2) by simp
  then show ?thesis using st um om by simp
qed

subsection \<open>Promotion, one transaction after the other\<close>

lemma read_promotion_Inr:
  assumes "read_promotion iid sk key src tw conf db = Inr (item, w)"
  obtains s kind where "get_item db iid = Some item" "get_session db (si_session_id item) = Some s"
    "pr_item_id w = si_id item" "pr_value_json w = canonical_value (JStr (si_body item))"
    "pr_key w = strip key" "strip key \<noteq> []" "scope_binds w (sn_song_id s) (sn_version_id s)"
    "pr_confidence w = conf" "0 \<le> conf" "conf \<le> 1"
    "parse_enum SOURCE_KINDS src = Some (pr_source_kind w)" "parse_enum TWIN_DOMAINS tw = Some (pr_twin_domain w)"
    "parse_enum PROMOTION_SCOPES sk = Some kind" "pr_scope_kind w = kind"
proof -
  from assms obtain s kind source domain sid where
    i: "item_with_session db iid = Inr (item, s)" and k: "strip key \<noteq> []"
    and pk: "parse_enum PROMOTION_SCOPES sk = Some kind" and ps: "parse_enum SOURCE_KINDS src = Some source"
    and pd: "parse_enum TWIN_DOMAINS tw = Some domain" and c: "0 \<le> conf" "conf \<le> 1"
    and sid: "promotion_scope_id kind s = Inr sid"
    and w: "w = \<lparr>pr_seq = 0, pr_id = [], pr_item_id = si_id item, pr_source_ref = [],
                     pr_scope_kind = kind, pr_scope_id = sid, pr_key = strip key,
                     pr_value_json = canonical_value (JStr (si_body item)), pr_source_kind = source,
                     pr_twin_domain = domain, pr_confidence = conf\<rparr>"
    unfolding read_promotion_def
    by (auto simp: require_text_Inr guardE_eq_Inr split: option.splits prod.splits elim!: bindE_InrE)
  have "kind \<in> {SCOPE_SONG, SCOPE_VERSION}"
    using pk by (auto simp: parse_enum_def PROMOTION_SCOPES_def split: if_splits)
  then have "scope_binds w (sn_song_id s) (sn_version_id s)"
    using sid by (auto simp: w scope_binds_def promotion_scope_id_def split: option.splits)
  moreover have "get_item db iid = Some item" "get_session db (si_session_id item) = Some s"
    using i by (auto simp: item_with_session_def Let_def split: option.splits)
  ultimately show ?thesis using that [of s kind] k pk ps pd c by (simp add: w)
qed

lemma request_for_item_Some:
  "request_for_item db iid = Some r \<Longrightarrow> r \<in> set (db_promotion_requests db) \<and> pr_item_id r = iid"
  by (auto simp: request_for_item_def find_Some_iff in_set_conv_nth)

lemma request_for_item_None:
  "request_for_item db iid = None \<longleftrightarrow> iid \<notin> pr_item_id ` set (db_promotion_requests db)"
  by (auto simp: request_for_item_def find_None_iff)

lemma keyed_find:
  assumes "distinct (map f xs)" and "x \<in> set xs"
  shows "find (\<lambda>y. f y = f x) xs = Some x"
proof -
  obtain y where y: "find (\<lambda>y. f y = f x) xs = Some y"
    using assms(2) by (cases "find (\<lambda>y. f y = f x) xs") (auto simp: find_None_iff)
  then have "y \<in> set xs" "f y = f x" by (auto simp: find_Some_iff in_set_conv_nth)
  then show ?thesis using y assms by (simp add: distinct_map inj_on_def)
qed

lemma request_row:
  assumes "session_inv db" and "r \<in> set (db_promotion_requests db)"
  shows "request_for_item db (pr_item_id r) = Some r"
  using keyed_find [of pr_item_id, OF _ assms(2)] session_tables_okD(8) [OF session_invD(2) [OF assms(1)]]
  by (simp add: request_for_item_def requests_ok_def)

lemma insert_promotion_request_step:
  assumes "insert_promotion_request r db = Inr db'" and "session_inv db"
    and "get_item db iid = Some item" and "get_session db (si_session_id item) = Some s"
    and "pr_item_id r = si_id item" and "pr_value_json r = canonical_value (JStr (si_body item))"
    and "scope_binds r (sn_song_id s) (sn_version_id s)" and "pr_source_ref r = promotion_prefix @ pr_id r"
    and "trimmed (pr_key r)"
  shows "session_inv db' \<and> session_extends db db'
    \<and> db' = db\<lparr>db_promotion_requests := db_promotion_requests db @ [r]\<rparr>"
proof -
  from assms(1) have c: "0 \<le> pr_confidence r" "pr_confidence r \<le> 1"
    and new: "pr_item_id r \<notin> pr_item_id ` set (db_promotion_requests db)"
      "pr_source_ref r \<notin> pr_source_ref ` set (db_promotion_requests db)"
    and db': "db' = db\<lparr>db_promotion_requests := db_promotion_requests db @ [r]\<rparr>"
    unfolding insert_promotion_request_def by (auto simp: guardE_eq_Inr elim!: bindE_InrE)
  note inv = session_invD [OF assms(2)]
  note T = session_tables_okD [OF inv(2)]
  have "item \<in> set (db_session_items db)" "s \<in> set (db_sessions db)" "sn_id s = si_session_id item"
    using get_item_Some [OF assms(3)] get_session_Some [OF assms(4)] by simp_all
  moreover from this have "(si_session_id item, sn_song_id s, sn_version_id s) \<in> session_binding ` set (db_sessions db)"
    unfolding session_binding_def by (metis (mono_tags, lifting) image_eqI)
  ultimately have "request_ok (session_binding ` set (db_sessions db)) (db_session_items db) r"
    using assms(5-9) c unfolding request_ok_def by metis
  then have "requests_ok (session_binding ` set (db_sessions db)) (db_session_items db) (db_promotion_requests db @ [r])"
    using T(8) new by (simp add: requests_ok_def)
  moreover have "promotions_ok (db_promotion_requests db @ [r]) (db_evidence_claims db) (db_promotions db)"
    by (rule promotions_ok_mono [OF T(9)]) auto
  ultimately have "session_tables_ok db'" using T by (simp add: db' session_tables_ok_def)
  moreover have same: "evidence_db.truncate db' = evidence_db.truncate db" by (simp add: db')
  then have "ev_inv db'" "ev_extends db db'" using ev_inv_same ev_extends_same inv(1) by metis+
  moreover from this have "session_extends db db'" by (intro session_extends_tables) (simp_all add: db')
  ultimately show ?thesis using db' by (simp add: session_inv_def)
qed

lemma request_promotion_Inr:
  assumes "request_promotion item w db = Inr (r, db')" and "session_inv db"
    and "read_promotion iid sk key src tw conf db = Inr (item, w)"
  shows "session_inv db' \<and> session_extends db db' \<and> request_for_item db' (si_id item) = Some r
    \<and> same_promotion r w \<and> db_promotions db' = db_promotions db \<and> db_evidence_claims db' = db_evidence_claims db
    \<and> db_session_items db' = db_session_items db \<and> db_sessions db' = db_sessions db
    \<and> (\<forall>q. request_for_item db (si_id item) = Some q \<longrightarrow> q = r \<and> db' = db)"
proof (cases "request_for_item db (si_id item)")
  case (Some q)
  with assms(1) have "q = r \<and> db' = db \<and> same_promotion r w"
    by (auto simp: request_promotion_def guardE_eq_Inr elim!: bindE_InrE)
  then show ?thesis using Some assms(2) by simp
next
  case None
  obtain rid db1 where id: "new_id ''spr'' db = (rid, db1)" by (cases "new_id ''spr'' db") auto
  note db1 = new_id_draws [OF id]
  let ?r = "w\<lparr>pr_seq := Suc (length (db_promotion_requests db1)), pr_id := rid, pr_source_ref := promotion_prefix @ rid\<rparr>"
  from assms(1) None have ins: "insert_promotion_request ?r db1 = Inr db'"
    and get: "request_for_item db' (si_id item) = Some r"
    by (auto simp: request_promotion_def id split: option.splits elim!: bindE_InrE)
  obtain s where i: "get_item db iid = Some item" "get_session db (si_session_id item) = Some s"
    and w: "pr_item_id w = si_id item" "pr_value_json w = canonical_value (JStr (si_body item))"
    "pr_key w = strip key" "strip key \<noteq> []" "scope_binds w (sn_song_id s) (sn_version_id s)"
    using assms(3) by (rule read_promotion_Inr)
  have inv1: "session_inv db1" using assms(2) by (simp add: db1 session_inv_draws)
  have st: "session_inv db' \<and> session_extends db1 db'
    \<and> db' = db1\<lparr>db_promotion_requests := db_promotion_requests db1 @ [?r]\<rparr>"
    by (rule insert_promotion_request_step [OF ins inv1, of iid item s])
      (use i w strip_nonempty_trimmed in \<open>simp_all add: db1 get_item_def get_session_def scope_binds_def\<close>)
  then have d: "db' = db1\<lparr>db_promotion_requests := db_promotion_requests db1 @ [?r]\<rparr>" by blast
  have "request_for_item db' (pr_item_id ?r) = Some ?r" by (rule request_row) (use st d in simp_all)
  then have r: "r = ?r" using get w(1) by simp
  moreover have "session_extends db db'" using st session_extends_draws session_extends_trans unfolding db1 by blast
  ultimately show ?thesis
    using st get None d by (simp add: db1 same_promotion_def)
qed

lemma promotion_for_item_Some:
  "promotion_for_item db iid = Some p \<Longrightarrow> p \<in> set (db_promotions db) \<and> sp_item_id p = iid"
  by (auto simp: promotion_for_item_def find_Some_iff in_set_conv_nth)

lemma claim_promotion_step:
  assumes "claim_promotion item w ref db = (res, db')" and "session_inv db"
  shows "session_inv db' \<and> session_extends db db' \<and> same_sessions db db'"
    and "res = Inr c \<Longrightarrow> \<exists>p. promotion_for_item db' (si_id item) = Some p \<and> linked_claim db' p = Inr c"
proof -
  let ?rec = "session_record_claim (scope_kind_name (pr_scope_kind w)) (pr_scope_id w) (pr_key w)
      (JStr (si_body item)) (source_kind_name (pr_source_kind w)) (Some ref)
      (pr_confidence w) (twin_domain_name (pr_twin_domain w)) [] db"
  have "(session_inv db' \<and> session_extends db db' \<and> same_sessions db db')
    \<and> (res = Inr c \<longrightarrow> (\<exists>p. promotion_for_item db' (si_id item) = Some p \<and> linked_claim db' p = Inr c))"
  proof (cases "promotion_for_item db (si_id item)")
    case (Some p)
    then show ?thesis using assms by (auto simp: claim_promotion_def same_sessions_def)
  next
    case None
    show ?thesis
    proof (cases "?rec")
      case (Inl e)
      then show ?thesis using None assms by (auto simp: claim_promotion_def same_sessions_def split: if_splits)
    next
      case (Inr x)
      obtain k db1 where x: "x = (k, db1)" by (cases x)
      then have rec: "?rec = Inr (k, db1)" using Inr by simp
      then have d: "db' = db1" using assms(1) None by (simp add: claim_promotion_def)
      obtain r where r: "session_inv db1" "session_extends db db1" "same_sessions db db1" "k = row_claim r"
        "db_evidence_claims db1 = db_evidence_claims db @ [r]" "er_value_json r = canonical_value (JStr (si_body item))"
        using rec assms(2) by (rule session_record_claim_Inr) simp
      have "\<exists>p. promotion_for_item db1 (si_id item) = Some p \<and> linked_claim db1 p = Inr c" if res: "res = Inr c"
      proof -
        from res assms(1) None rec obtain p where p: "promotion_for_item db1 (si_id item) = Some p"
          "sp_claim_id p = ec_id k" "c = k"
          by (auto simp: claim_promotion_def guardE_eq_Inr split: option.splits elim!: bindE_InrE)
        have "distinct (map er_id (db_evidence_claims db1))" using session_invD(1) [OF r(1)] by (simp add: ev_inv_def)
        then have "find_claim db1 (er_id r) = Some r" by (rule find_claim_row) (simp add: r(5))
        moreover have "claim_from_row r = Inr k"
          using r(4,6) canonical_value_reads [of "JStr (si_body item)"] by (simp add: claim_from_row_Inr)
        ultimately have "linked_claim db1 p = Inr k" using p(2) r(4) by (simp add: linked_claim_def get_claim_def)
        then show ?thesis using p by blast
      qed
      then show ?thesis using r(1-3) d by blast
    qed
  qed
  then show "session_inv db' \<and> session_extends db db' \<and> same_sessions db db'"
    and "res = Inr c \<Longrightarrow> \<exists>p. promotion_for_item db' (si_id item) = Some p \<and> linked_claim db' p = Inr c" by blast+
qed

lemma promote_item_step:
  assumes "promote_item iid sk key src tw conf db = (res, db')" and "session_inv db"
  shows "session_inv db' \<and> session_extends db db'"
proof (cases "read_promotion iid sk key src tw conf db")
  case (Inl e)
  then show ?thesis using assms by (simp add: promote_item_def)
next
  case (Inr x)
  obtain item w where x: "x = (item, w)" by (cases x)
  show ?thesis
  proof (cases "request_promotion item w db")
    case (Inl e)
    then show ?thesis using assms Inr x by (simp add: promote_item_def)
  next
    case Req: (Inr y)
    obtain r db1 where y: "y = (r, db1)" by (cases y)
    have "session_inv db1 \<and> session_extends db db1"
      using request_promotion_Inr [OF Req [unfolded y] assms(2) Inr [unfolded x]] by blast
    moreover have "claim_promotion item w (pr_source_ref r) db1 = (res, db')"
      using assms(1) Inr x Req y by (simp add: promote_item_def)
    ultimately show ?thesis using claim_promotion_step(1) session_extends_trans by blast
  qed
qed

subsection \<open>The memory as a machine\<close>

text \<open>
  The operations of the store, of the evidence memory and of the sessions. A promotion commits what it did
  before it failed; \<open>Interrupted_Promotion\<close> is one that ended between its two transactions.
\<close>

datatype session_cmd =
    Session_Lineage lineage_cmd
  | Session_Record string string string json string "string option" rat string "string list"
  | Session_Reconcile string string json string "string option" rat string "string option"
  | Start_Session string string "string option"
  | Append_Scratch string string string
  | Close_Session string string string
  | Promote_Item string string string string string rat
  | Interrupted_Promotion string string string string string rat

fun exec_session :: "session_cmd \<Rightarrow> 'a session_db_scheme \<Rightarrow> 'a session_db_scheme res" where
  "exec_session (Session_Lineage c) db = exec_lineage c db"
| "exec_session (Session_Record kind sid key v source sref conf domain olds) db =
     (if wf_json v then map_sum id snd (session_record_claim kind sid key v source sref conf domain olds db)
      else Inl (Raise PyTypeError []))"
| "exec_session (Session_Reconcile song key v source sref conf domain version) db =
     (if wf_json v then map_sum id snd (session_reconcile song key v source sref conf domain version db)
      else Inl (Raise PyTypeError []))"
| "exec_session (Start_Session song objective version) db = map_sum id snd (start_session song objective version db)"
| "exec_session (Append_Scratch session kind body) db = map_sum id snd (append_scratch session kind body db)"
| "exec_session (Close_Session session debrief action) db = map_sum id snd (close_session session debrief action db)"
| "exec_session (Promote_Item item kind key source domain conf) db =
     Inr (snd (promote_item item kind key source domain conf db))"
| "exec_session (Interrupted_Promotion item kind key source domain conf) db =
     bindE (read_promotion item kind key source domain conf db) (\<lambda>(i, w).
       map_sum id snd (request_promotion i w db))"

lemma exec_session_step:
  assumes "exec_session c db = Inr db'" and "session_inv db"
  shows "session_inv db' \<and> session_extends db db'"
proof (cases c)
  case (Session_Lineage l)
  then have "exec_lineage l db = Inr db'" using assms(1) by simp
  then have "ev_inv db' \<and> ev_extends db db' \<and> session_tables_ok db' \<and> db_evidence_claims db' = db_evidence_claims db
    \<and> evidence_db.more db' = evidence_db.more db"
    using session_invD [OF assms(2)] by (rule session_tables.lineage_step)
  then show ?thesis using session_extends_more unfolding session_inv_def by blast
next
  case (Session_Record kind sid key v source sref conf domain olds)
  then obtain k where "session_record_claim kind sid key v source sref conf domain olds db = Inr (k, db')" "wf_json v"
    using assms(1) by (auto simp: map_sum_snd_Inr split: if_splits)
  then show ?thesis using assms(2) by (elim session_record_claim_Inr) blast+
next
  case (Session_Reconcile song key v source sref conf domain version)
  then obtain k where k: "session_reconcile song key v source sref conf domain version db = Inr (k, db')" "wf_json v"
    using assms(1) by (auto simp: map_sum_snd_Inr split: if_splits)
  from k(1) obtain kind sid olds where
    "session_record_claim (scope_kind_name kind) sid key v source sref conf domain olds db = Inr (k, db')"
    unfolding session_reconcile_def session_record_claim_def by (rule session_store.reconciled_Inr)
  then show ?thesis using assms(2) k(2) by (elim session_record_claim_Inr) blast+
next
  case (Start_Session song objective version)
  then obtain s where "start_session song objective version db = Inr (s, db')"
    using assms(1) by (auto simp: map_sum_snd_Inr)
  from start_session_Inr [OF this assms(2)] show ?thesis by blast
next
  case (Append_Scratch session kind body)
  then obtain i where "append_scratch session kind body db = Inr (i, db')"
    using assms(1) by (auto simp: map_sum_snd_Inr)
  from append_scratch_Inr [OF this assms(2)] show ?thesis by blast
next
  case (Close_Session session debrief action)
  then obtain s where "close_session session debrief action db = Inr (s, db')"
    using assms(1) by (auto simp: map_sum_snd_Inr)
  from close_session_Inr [OF this assms(2)] show ?thesis by blast
next
  case (Promote_Item item kind key source domain conf)
  then have "promote_item item kind key source domain conf db = (fst (promote_item item kind key source domain conf db), db')"
    using assms(1) by (metis exec_session.simps(7) prod.collapse sum.inject(2))
  from promote_item_step [OF this assms(2)] show ?thesis .
next
  case (Interrupted_Promotion item kind key source domain conf)
  then obtain i w r where "read_promotion item kind key source domain conf db = Inr (i, w)"
    "request_promotion i w db = Inr (r, db')"
    using assms(1) by (auto simp: map_sum_snd_Inr elim!: bindE_InrE)
  then show ?thesis using request_promotion_Inr assms(2) by blast
qed

interpretation session_machine: logged_machine exec_session session_inv db_session_items
  by unfold_locales (auto simp: session_extends_def dest: exec_session_step)

interpretation promotion_machine: logged_machine exec_session session_inv db_promotions
  by unfold_locales (auto simp: session_extends_def dest: exec_session_step)

lemma session_run_extends: "session_inv db \<Longrightarrow> session_extends db (run_cmds exec_session cs db)"
proof (induction cs arbitrary: db)
  case (Cons c cs)
  then show ?case
    using exec_session_step session_extends_trans by (cases "exec_session c db") fastforce+
qed simp

lemma evidence_run_extends: "ev_inv db \<Longrightarrow> ev_extends db (run_cmds exec_evidence cs db)"
proof (induction cs arbitrary: db)
  case (Cons c cs)
  then show ?case
    using exec_evidence_inv ev_extends_trans by (cases "exec_evidence c db") fastforce+
qed simp

lemma install_sessions_inv:
  assumes "install_sessions db = Inr db'" and "ev_inv db" and "one_artist db"
  shows "session_inv db'"
proof -
  let ?db = "db\<lparr>db_metadata := (db_metadata db)(''session_schema_version'' \<mapsto> ''1'')\<rparr>"
  from assms(1) have d: "distinct (promotion_sources (db_evidence_claims db))"
    and db': "db' = evidence_db.extend ?db (session_db.fields [] [] [] [])"
    by (auto simp: install_sessions_def promotion_sources_def guardE_eq_Inr elim!: bindE_InrE)
  have "ev_inv db'" unfolding db' extend_ev_inv by (rule schema_version_ev_inv [OF assms(2)]) simp
  moreover have "session_tables_ok db'"
    using d assms(3) by (simp add: db' session_tables_ok_def evidence_db.defs session_db.defs one_artist_def
        requests_ok_def promotions_ok_def)
  ultimately show ?thesis by (simp add: session_inv_def)
qed

text \<open>A profile with sessions: an evidence memory that may have been used before, opened with sessions.\<close>

definition session_reachable :: "session_db \<Rightarrow> bool" where
  "session_reachable db \<longleftrightarrow> (\<exists>random name db0 es db1 cs. create_profile random name = Inr db0
     \<and> install_sessions (run_cmds exec_evidence es (install_evidence db0)) = Inr db1
     \<and> db = run_cmds exec_session cs db1)"

lemma session_reachable_inv:
  assumes "session_reachable db"
  shows "session_inv db"
proof -
  obtain random name db0 es db1 cs where c: "create_profile random name = Inr db0"
    "install_sessions (run_cmds exec_evidence es (install_evidence db0)) = Inr db1" "db = run_cmds exec_session cs db1"
    using assms unfolding session_reachable_def by blast
  have "ev_inv (install_evidence db0)" using install_evidence_inv create_profile_inv [OF c(1)] by blast
  moreover have "one_artist (install_evidence db0)"
    using create_profile_artist [OF c(1)]
    by (simp add: install_evidence_def one_artist_def lineage_db.defs evidence_db.defs)
  ultimately have "session_inv db1"
    using install_sessions_inv [OF c(2)] evidence_machine.run_inv evidence_run_extends ev_extends_artist by blast
  then show ?thesis unfolding c(3) by (rule session_machine.run_inv)
qed

lemma session_reachable_run: "session_reachable db \<Longrightarrow> session_reachable (run_cmds exec_session cs db)"
  unfolding session_reachable_def by (metis run_cmds_append)

subsection \<open>What follows for every reachable memory\<close>

lemma sorted_wrt_last:
  assumes "sorted_wrt P xs" and "x \<in> set xs" and "\<And>y. y \<in> set xs \<Longrightarrow> \<not> P x y"
  shows "last xs = x"
  using assms by (induction xs) (auto split: if_splits)

text \<open>
  A song has at most one open session, and it is the latest of the song: while it is open no other can
  be started.
\<close>

theorem open_session_is_latest:
  assumes "session_reachable db" and "s \<in> set (db_sessions db)" and "sn_state s = SESSION_OPEN"
  shows "latest_for_song db (sn_song_id s) = Inr (Some s)
    \<and> isl (start_session (sn_song_id s) objective version db)"
proof
  have inv: "session_inv db" by (rule session_reachable_inv [OF assms(1)])
  note T = session_tables_okD [OF session_invD(2) [OF inv]]
  let ?ss = "filter (\<lambda>t. sn_song_id t = sn_song_id s) (db_sessions db)"
  have "sorted_wrt closed_before ?ss" using T(5) by (rule sorted_wrt_filter)
  then have "last ?ss = s"
    by (rule sorted_wrt_last) (use assms(2,3) in \<open>auto simp: closed_before_def\<close>)
  moreover have "?ss \<noteq> []" using assms(2) by (auto simp: filter_empty_conv)
  moreover have "get_song db (sn_song_id s) \<noteq> None"
    using T(4) assms(2) by (auto simp: list_all_iff session_ok_def)
  ultimately show "latest_for_song db (sn_song_id s) = Inr (Some s)"
    by (auto simp: latest_for_song_def Let_def simp del: get_song_None split: option.splits)
  show "isl (start_session (sn_song_id s) objective version db)"
  proof (cases "start_session (sn_song_id s) objective version db")
    case (Inr x)
    obtain t db' where "x = (t, db')" by (cases x)
    then have t: "session_inv db'" "db_sessions db' = db_sessions db @ [t]" "sn_song_id t = sn_song_id s"
      using start_session_Inr [of "sn_song_id s" objective version db t db'] Inr inv by simp_all
    have "sorted_wrt closed_before (db_sessions db @ [t])"
      using session_tables_okD(5) [OF session_invD(2) [OF t(1)]] t(2) by simp
    then show ?thesis using assms(2,3) t(3) by (auto simp: sorted_wrt_append closed_before_def)
  qed simp
qed

text \<open>
  A closed session is final: whatever happens later, its record and its scratch stay as they were
  when it was closed, and appending to it or closing it again fails.
\<close>

theorem closed_session_final:
  assumes "session_reachable db" and "close_session sid debrief action db = Inr (s, db')"
    and "db2 = run_cmds exec_session cs db'"
  shows "get_session db2 sid = Some s \<and> items_for_session db2 sid = items_for_session db' sid
    \<and> append_scratch sid kind body db2 = Inl (Raise ValidationError ''cannot append scratch to a closed Session'')
    \<and> close_session sid debrief' action' db2 = Inl (Raise ValidationError ''Session is already closed'')"
proof -
  have c: "session_inv db'" "s \<in> set (db_sessions db')" "sn_id s = sid" "sn_state s = SESSION_CLOSED"
    using close_session_Inr [OF assms(2) session_reachable_inv [OF assms(1)]] by simp_all
  note e = session_extendsD [OF session_run_extends [OF c(1), of cs, folded assms(3)]]
  have "s \<in> set (db_sessions db2)" using e(2) [OF c(2)] c(4) by (auto simp: session_kept_def)
  moreover have "session_inv db2" unfolding assms(3) by (rule session_machine.run_inv [OF c(1)])
  ultimately have "get_session db2 sid = Some s" using session_ids c(3) by blast
  moreover have "get_session db' sid = Some s" using session_ids [OF c(1,2)] c(3) by simp
  moreover have "scratch_of sid (db_session_items db2) = scratch_of sid (db_session_items db')"
    using e(3) [OF c(2,4)] c(3) by simp
  ultimately show ?thesis
    using c(4) by (simp add: items_for_session_def append_scratch_def close_session_def require_session_def
        guardE_def scratch_of_def)
qed

lemma find_prefix:
  assumes "prefix xs ys" and "find P xs = Some x"
  shows "find P ys = Some x"
proof -
  have "find P us = Some x \<Longrightarrow> find P (us @ vs) = Some x" for us vs by (induction us) (auto split: if_splits)
  then show ?thesis using assms by (auto simp: prefix_def)
qed

lemma read_promotion_later:
  assumes "session_extends db db2" and "session_inv db2"
    and "read_promotion iid sk key src tw conf db = Inr (item, w)"
  shows "read_promotion iid sk key src tw conf db2 = Inr (item, w)"
proof -
  obtain s where i: "get_item db iid = Some item" "get_session db (si_session_id item) = Some s"
    using assms(3) by (rule read_promotion_Inr)
  have i2: "get_item db2 iid = Some item"
    using find_prefix [OF session_extendsD(4) [OF assms(1)]] i(1) by (simp add: get_item_def)
  obtain t where t: "t \<in> set (db_sessions db2)" "session_kept s t"
    using session_extendsD(2) [OF assms(1)] get_session_Some [OF i(2)] by blast
  have b: "sn_song_id t = sn_song_id s" "sn_version_id t = sn_version_id s" "sn_id t = si_session_id item"
    using session_kept_id [OF t(2)] get_session_Some [OF i(2)] by (simp_all add: session_binding_def)
  then have t2: "get_session db2 (si_session_id item) = Some t" using session_ids [OF assms(2) t(1)] by simp
  have sc: "promotion_scope_id k t = promotion_scope_id k s" for k by (simp add: promotion_scope_id_def b)
  have "item_with_session db iid = Inr (item, s)" "item_with_session db2 iid = Inr (item, t)"
    by (simp_all add: item_with_session_def i i2 t2)
  then show ?thesis using assms(3) unfolding read_promotion_def by (simp only: bindE_Inr prod.case sc)
qed

lemma like_promotion_prefix: "like_promotion (promotion_prefix @ x)"
proof -
  have "nocase promotion_prefix = promotion_prefix" by code_simp
  then show ?thesis by (simp add: like_promotion_def)
qed

lemma promotion_source_unique:
  assumes "distinct (promotion_sources rows)" and "r \<in> set rows" and "s \<in> set rows" and "like_promotion ref"
    and "er_source_ref r = Some ref" and "er_source_ref s = Some ref"
  shows "r = s"
  using assms(1-3)
proof (induction rows)
  case (Cons a rows)
  have "promotion_sources (a # rows) = (case er_source_ref a of None \<Rightarrow> [] | Some x \<Rightarrow> if like_promotion x then [x] else [])
      @ promotion_sources rows" by (simp add: promotion_sources_def List.map_filter_def split: option.split)
  then have "distinct (promotion_sources rows)"
    "er_source_ref a = Some ref \<Longrightarrow> ref \<notin> set (promotion_sources rows)"
    using Cons.prems(1) assms(4) by auto
  then show ?case using Cons assms(4-6) by (auto simp: promotion_sources_mem)
qed simp

text \<open>What stands behind a promotion.\<close>

lemma promotion_facts:
  assumes "session_inv db" and "p \<in> set (db_promotions db)"
  obtains r c i s where "request_for_item db (sp_item_id p) = Some r" "get_item db (sp_item_id p) = Some i"
    "get_session db (si_session_id i) = Some s" "find_claim db (sp_claim_id p) = Some c"
    "request_matches r c" "pr_value_json r = canonical_value (JStr (si_body i))"
    "scope_binds r (sn_song_id s) (sn_version_id s)" "like_promotion (pr_source_ref r)"
    "\<forall>x \<in> set (db_evidence_claims db). er_source_ref x = Some (pr_source_ref r) \<longrightarrow> x = c"
proof -
  note inv = session_invD [OF assms(1)]
  note T = session_tables_okD [OF inv(2)]
  obtain r c where r: "r \<in> set (db_promotion_requests db)" and c: "c \<in> set (db_evidence_claims db)"
    and m: "pr_item_id r = sp_item_id p" "er_id c = sp_claim_id p" "request_matches r c"
    using T(9) assms(2) unfolding promotions_ok_def by blast
  have "request_ok (session_binding ` set (db_sessions db)) (db_session_items db) r"
    using T(8) r by (simp add: requests_ok_def list_all_iff)
  then obtain i song version where i: "i \<in> set (db_session_items db)" "si_id i = pr_item_id r"
    and v: "pr_value_json r = canonical_value (JStr (si_body i))"
    and b: "(si_session_id i, song, version) \<in> session_binding ` set (db_sessions db)" "scope_binds r song version"
    and ref: "pr_source_ref r = promotion_prefix @ pr_id r" unfolding request_ok_def by blast
  from b(1) obtain s where s: "s \<in> set (db_sessions db)" "sn_id s = si_session_id i" "sn_song_id s = song"
    "sn_version_id s = version" unfolding session_binding_def by auto
  have like: "like_promotion (pr_source_ref r)" by (simp add: ref like_promotion_prefix)
  have "x = c" if "x \<in> set (db_evidence_claims db)" "er_source_ref x = Some (pr_source_ref r)" for x
    using promotion_source_unique [OF T(10) that(1) c like that(2)] m(3) by (simp add: request_matches_def)
  moreover have "find_claim db (sp_claim_id p) = Some c"
    using find_claim_row [OF _ c] m(2) inv(1) by (simp add: ev_inv_def)
  moreover have "request_for_item db (sp_item_id p) = Some r" using request_row [OF assms(1) r] m(1) by simp
  moreover have "get_item db (sp_item_id p) = Some i" using item_row [OF T(6) i(1)] i(2) m(1) by simp
  moreover have "get_session db (si_session_id i) = Some s" using session_ids [OF assms(1) s(1)] s(2) by simp
  ultimately show ?thesis using that m(3) v b(2) s(3,4) like by blast
qed

text \<open>What is linked stays linked, to the same claim.\<close>

lemma linked_later:
  assumes "session_extends db db2" and "promotion_for_item db iid = Some p" and "linked_claim db p = Inr c"
  shows "promotion_for_item db2 iid = Some p \<and> linked_claim db2 p = Inr c"
proof -
  have pre: "prefix (db_evidence_claims db) (db_evidence_claims db2)"
    using session_extendsD(1) [OF assms(1)] by (simp add: ev_extends_def)
  from assms(3) obtain row where row: "find_claim db (sp_claim_id p) = Some row" "claim_from_row row = Inr c"
    by (auto simp: linked_claim_def get_claim_def split: option.splits elim!: bindE_InrE)
  have "find_claim db2 (sp_claim_id p) = Some row"
    using find_prefix [OF pre row(1) [unfolded find_claim_def]] by (simp add: find_claim_def)
  then have "linked_claim db2 p = Inr c" using row(2) by (simp add: linked_claim_def get_claim_def)
  moreover have "promotion_for_item db2 iid = Some p"
    using find_prefix [OF session_extendsD(6) [OF assms(1)]] assms(2) by (simp add: promotion_for_item_def)
  ultimately show ?thesis by simp
qed

text \<open>The claim of a promoted item says what the item says, and no other claim carries its source reference.\<close>

lemma linked_claim_facts:
  assumes "session_inv db" and "promotion_for_item db (si_id item) = Some p" and "linked_claim db p = Inr c"
    and "get_item db iid = Some item"
  shows "ec_value c = JStr (si_body item)
    \<and> (\<exists>!x. x \<in> set (db_evidence_claims db) \<and> er_source_ref x = ec_source_ref c)"
proof -
  have pm: "p \<in> set (db_promotions db)" "sp_item_id p = si_id item" using promotion_for_item_Some [OF assms(2)] by simp_all
  obtain q x i s where f: "request_for_item db (sp_item_id p) = Some q" "get_item db (sp_item_id p) = Some i"
    "get_session db (si_session_id i) = Some s" "find_claim db (sp_claim_id p) = Some x"
    "request_matches q x" "pr_value_json q = canonical_value (JStr (si_body i))"
    "scope_binds q (sn_song_id s) (sn_version_id s)" "like_promotion (pr_source_ref q)"
    and one: "\<forall>y \<in> set (db_evidence_claims db). er_source_ref y = Some (pr_source_ref q) \<longrightarrow> y = x"
    by (rule promotion_facts [OF assms(1) pm(1)])
  have c: "c = row_claim x"
    using assms(3) f(4) by (auto simp: linked_claim_def get_claim_def claim_from_row_Inr elim!: bindE_InrE)
  have "i = item" using f(2) pm(2) get_item_Some [OF assms(4)] assms(4) by simp
  then have val: "ec_value c = JStr (si_body item)"
    using f(5,6) canonical_value_reads [of "JStr (si_body i)"] by (simp add: c row_claim_def request_matches_def)
  have ref: "ec_source_ref c = Some (pr_source_ref q)" using f(5) by (simp add: c row_claim_def request_matches_def)
  have "x \<in> set (db_evidence_claims db)" "er_source_ref x = Some (pr_source_ref q)"
    using find_claim_Some [OF f(4)] f(5) by (simp_all add: request_matches_def)
  then have "\<exists>!y. y \<in> set (db_evidence_claims db) \<and> er_source_ref y = ec_source_ref c" unfolding ref using one by blast
  with val show ?thesis by (intro conjI)
qed

text \<open>
  C26. An item is promoted once: after a promotion succeeded, whatever happens next, the same call returns
  the same claim and changes nothing, and no other claim carries its source reference. The claim says what
  the scratch says.
\<close>

theorem promoted_once:
  assumes "session_reachable db" and "promote_item iid sk key src tw conf db = (Inr c, db')"
    and "db2 = run_cmds exec_session cs db'"
  shows "promote_item iid sk key src tw conf db2 = (Inr c, db2)
    \<and> map_option (\<lambda>i. JStr (si_body i)) (get_item db2 iid) = Some (ec_value c)
    \<and> (\<exists>!x. x \<in> set (db_evidence_claims db2) \<and> er_source_ref x = ec_source_ref c)"
proof -
  have inv: "session_inv db" by (rule session_reachable_inv [OF assms(1)])
  obtain item w r db1 where rd: "read_promotion iid sk key src tw conf db = Inr (item, w)"
    and rq: "request_promotion item w db = Inr (r, db1)"
    and cl: "claim_promotion item w (pr_source_ref r) db1 = (Inr c, db')"
    using assms(2) by (auto simp: promote_item_def split: sum.splits prod.splits)
  have r1: "session_inv db1" "session_extends db db1" "request_for_item db1 (si_id item) = Some r" "same_promotion r w"
    using request_promotion_Inr [OF rq inv rd] by simp_all
  note c1 = claim_promotion_step [OF cl r1(1)]
  have inv': "session_inv db'" and ext': "session_extends db1 db'" using c1(1) by simp_all
  obtain p where p: "promotion_for_item db' (si_id item) = Some p" "linked_claim db' p = Inr c"
    using c1(2) [OF refl] by (elim exE conjE)
  have ext2: "session_extends db' db2" unfolding assms(3) by (rule session_run_extends [OF inv'])
  have inv2: "session_inv db2" unfolding assms(3) by (rule session_machine.run_inv [OF inv'])
  have rd2: "read_promotion iid sk key src tw conf db2 = Inr (item, w)"
    by (rule read_promotion_later [OF session_extends_trans [OF r1(2) session_extends_trans [OF ext' ext2]] inv2 rd])
  have rf2: "request_for_item db2 (si_id item) = Some r"
    using find_prefix [OF session_extendsD(5) [OF session_extends_trans [OF ext' ext2]]] r1(3)
    by (simp add: request_for_item_def)
  note p2 = linked_later [OF ext2 p]
  have again: "promote_item iid sk key src tw conf db2 = (Inr c, db2)"
    using rd2 rf2 p2 r1(4) by (simp add: promote_item_def request_promotion_def claim_promotion_def guardE_def)
  have gi: "get_item db2 iid = Some item" using rd2 by (rule read_promotion_Inr)
  have l: "ec_value c = JStr (si_body item)
      \<and> (\<exists>!x. x \<in> set (db_evidence_claims db2) \<and> er_source_ref x = ec_source_ref c)"
    by (rule linked_claim_facts [OF inv2 conjunct1 [OF p2] conjunct2 [OF p2] gi])
  then have "map_option (\<lambda>i. JStr (si_body i)) (get_item db2 iid) = Some (ec_value c)" using gi by simp
  with again l show ?thesis by (intro conjI) simp_all
qed

text \<open>
  C28. A promotion takes what the scratch says to where the session belongs: on every reachable memory the
  claim of a promoted item reads as the text of the item, and its scope is the song or the version its
  session is bound to.
\<close>

theorem promotion_is_faithful:
  assumes "session_reachable db" and "p \<in> set (db_promotions db)"
  shows "\<exists>i s c. get_item db (sp_item_id p) = Some i \<and> get_session db (si_session_id i) = Some s
    \<and> get_claim db (sp_claim_id p) = Inr (Some c) \<and> ec_value c = JStr (si_body i)
    \<and> (ec_scope_kind c = SCOPE_SONG \<and> ec_scope_id c = sn_song_id s
       \<or> ec_scope_kind c = SCOPE_VERSION \<and> sn_version_id s = Some (ec_scope_id c))"
proof -
  have inv: "session_inv db" by (rule session_reachable_inv [OF assms(1)])
  obtain r c i s where f: "request_for_item db (sp_item_id p) = Some r" "get_item db (sp_item_id p) = Some i"
    "get_session db (si_session_id i) = Some s" "find_claim db (sp_claim_id p) = Some c"
    "request_matches r c" "pr_value_json r = canonical_value (JStr (si_body i))"
    "scope_binds r (sn_song_id s) (sn_version_id s)" "like_promotion (pr_source_ref r)"
    "\<forall>x \<in> set (db_evidence_claims db). er_source_ref x = Some (pr_source_ref r) \<longrightarrow> x = c"
    by (rule promotion_facts [OF inv assms(2)])
  have l: "loads (er_value_json c) = Some (JStr (si_body i))"
    using f(5,6) canonical_value_reads [of "JStr (si_body i)"] by (simp add: request_matches_def)
  then have "claim_from_row c = Inr (row_claim c)" by (simp add: claim_from_row_Inr)
  then have "get_claim db (sp_claim_id p) = Inr (Some (row_claim c))" using f(4) by (simp add: get_claim_def)
  moreover have "ec_value (row_claim c) = JStr (si_body i)" using l by (simp add: row_claim_def)
  moreover have "er_scope_kind c = SCOPE_SONG \<and> er_scope_id c = sn_song_id s
       \<or> er_scope_kind c = SCOPE_VERSION \<and> sn_version_id s = Some (er_scope_id c)"
    using f(5,7) by (auto simp: scope_binds_def request_matches_def)
  ultimately show ?thesis using f(2,3) by (intro exI [of _ i] exI [of _ s] exI [of _ "row_claim c"]) simp
qed

subsection \<open>Opening\<close>

lemma session_validates:
  assumes "session_inv db" and "s \<in> set (db_sessions db)"
  shows "validate_session db s = Inr ()"
proof -
  note inv = session_invD [OF assms(1)]
  have ok: "session_ok db s" using session_tables_okD(4) [OF inv(2)] assms(2) by (simp add: list_all_iff)
  then obtain song where song: "get_song db (sn_song_id s) = Some song"
    by (cases "get_song db (sn_song_id s)") (auto simp: session_ok_def)
  have "has_artist db (so_artist_id song)"
    using inv(1) get_song_Some [OF song] by (auto simp: ev_inv_def lineage_inv_def core_defs list_all_iff)
  then have "so_artist_id song = sn_artist_id s"
    using one_artist_primary [OF session_tables_okD(1) [OF inv(2)]] ok by (simp add: session_ok_def)
  moreover have "case sn_version_id s of None \<Rightarrow> True
      | Some v \<Rightarrow> (case get_version db v of None \<Rightarrow> False | Some w \<Rightarrow> ve_song_id w = sn_song_id s)"
  proof (cases "sn_version_id s")
    case (Some v)
    then obtain w where w: "w \<in> set (db_versions db)" "ve_id w = v" "ve_song_id w = sn_song_id s"
      using ok by (auto simp: session_ok_def)
    have "distinct (map ve_id (db_versions db))" using inv(1) by (simp add: ev_inv_def lineage_inv_def core_defs)
    then have "get_version db v = Some w" using keyed_find [of ve_id, OF _ w(1)] w(2) by (simp add: get_version_def)
    then show ?thesis using Some w(3) by simp
  qed simp
  ultimately show ?thesis
    using ok song by (auto simp: validate_session_def session_ok_def guardE_def)
qed

lemma request_validates:
  assumes "session_inv db" and "r \<in> set (db_promotion_requests db)"
  shows "validate_request db r = Inr ()"
proof -
  note T = session_tables_okD [OF session_invD(2) [OF assms(1)]]
  have "request_ok (session_binding ` set (db_sessions db)) (db_session_items db) r"
    using T(8) assms(2) by (simp add: requests_ok_def list_all_iff)
  then obtain i song version where i: "i \<in> set (db_session_items db)" "si_id i = pr_item_id r"
    and v: "pr_value_json r = canonical_value (JStr (si_body i))"
    and b: "(si_session_id i, song, version) \<in> session_binding ` set (db_sessions db)" "scope_binds r song version"
    and rest: "pr_source_ref r = promotion_prefix @ pr_id r" "0 \<le> pr_confidence r" "pr_confidence r \<le> 1"
    unfolding request_ok_def by blast
  from b(1) obtain s where s: "s \<in> set (db_sessions db)" "sn_id s = si_session_id i" "sn_song_id s = song"
    "sn_version_id s = version" unfolding session_binding_def by auto
  have "item_with_session db (pr_item_id r) = Inr (i, s)"
    using item_row [OF T(6) i(1)] session_ids [OF assms(1) s(1)] i(2) s(2) by (simp add: item_with_session_def)
  moreover have "loads (pr_value_json r) = Some (JStr (si_body i))"
    using canonical_value_reads [of "JStr (si_body i)"] by (simp add: v)
  ultimately show ?thesis
    using b(2) rest s(3,4) by (auto simp: validate_request_def scope_binds_def guardE_def)
qed

lemma promotion_validates:
  assumes "session_inv db" and "p \<in> set (db_promotions db)"
  shows "valid_promotion db p"
proof -
  obtain r c i s where f: "request_for_item db (sp_item_id p) = Some r" "get_item db (sp_item_id p) = Some i"
    "get_session db (si_session_id i) = Some s" "find_claim db (sp_claim_id p) = Some c" "request_matches r c"
    by (rule promotion_facts [OF assms])
  then show ?thesis by (auto simp: valid_promotion_def request_matches_def)
qed

text \<open>
  Every reachable memory of sessions re-opens: the validation accepts its sessions, its scratch, its requests
  and its promotions.
\<close>

theorem reachable_sessions_validate:
  assumes "session_reachable db"
  shows "validate_sessions db = Inr ()"
proof -
  have inv: "session_inv db" by (rule session_reachable_inv [OF assms])
  note T = session_tables_okD [OF session_invD(2) [OF inv]]
  have s: "mapE (validate_session db) (db_sessions db) = Inr (map (\<lambda>_. ()) (db_sessions db))"
    by (rule mapE_total) (rule session_validates [OF inv])
  have "get_session db (si_session_id i) \<noteq> None" if "i \<in> set (db_session_items db)" for i
  proof -
    have "si_session_id i \<in> sn_id ` set (db_sessions db)" using T(7) that unfolding list_all_iff by blast
    then obtain s where "s \<in> set (db_sessions db)" "sn_id s = si_session_id i" by (elim imageE) simp
    then have "get_session db (si_session_id i) = Some s" using session_ids [OF inv, of s] by simp
    then show ?thesis by simp
  qed
  then have i: "mapE (\<lambda>i. guardE (get_session db (si_session_id i) \<noteq> None)
       (Raise LineageCorruptionError ''Session scratch lost its Session'')) (db_session_items db)
      = Inr (map (\<lambda>_. ()) (db_session_items db))"
    by (intro mapE_total) (auto simp: guardE_def)
  have r: "mapE (validate_request db) (db_promotion_requests db) = Inr (map (\<lambda>_. ()) (db_promotion_requests db))"
    by (rule mapE_total) (rule request_validates [OF inv])
  have "list_all (valid_promotion db) (db_promotions db)"
    using promotion_validates [OF inv] by (simp add: list_all_iff)
  then show ?thesis using s i r T(2) by (simp add: validate_sessions_def guardE_def)
qed

subsection \<open>A pending promotion can be finished\<close>

lemma insert_activity_total:
  assumes "version = None \<or> (\<exists>v s. version = Some v \<and> song = Some s \<and> version_in_song db v s)"
    and "pred_option (\<lambda>s. s \<in> so_id ` set (db_songs db)) song"
    and "\<not> sql_blank etype" and "\<not> sql_blank otype" and "\<not> sql_blank oid" and "has_artist db artist"
    and "''act_'' @ db_random db (db_draws db) \<notin> ac_id ` set (db_activity db)"
  obtains row where "insert_activity etype artist song version otype oid db
      = Inr (db\<lparr>db_draws := Suc (db_draws db), db_activity := db_activity db @ [row]\<rparr>)"
    "ac_id row = ''act_'' @ db_random db (db_draws db)"
proof -
  let ?row = "\<lparr>ac_seq = Suc (length (db_activity db)), ac_id = ''act_'' @ db_random db (db_draws db),
    ac_event_type = etype, ac_artist_id = artist, ac_song_id = song, ac_version_id = version,
    ac_object_type = otype, ac_object_id = oid\<rparr>"
  have song: "case song of None \<Rightarrow> True | Some s \<Rightarrow> get_song db s \<noteq> None" using assms(2) by (cases song) simp_all
  have version: "case version of None \<Rightarrow> True
      | Some v \<Rightarrow> (case song of None \<Rightarrow> False | Some s \<Rightarrow> version_in_song db v s)"
    "case version of None \<Rightarrow> True | Some v \<Rightarrow> get_version db v \<noteq> None"
    using assms(1) by (auto simp: version_in_song_def list_ex_iff)
  have "insert_activity etype artist song version otype oid db
      = Inr (db\<lparr>db_draws := Suc (db_draws db), db_activity := db_activity db @ [?row]\<rparr>)"
    unfolding insert_activity_def new_id_def Let_def prod.case
    using song version assms(3-7) by (simp add: guardE_def version_in_song_def has_artist_def get_song_def get_version_def
        cong: option.case_cong)
  then show ?thesis by (rule that) simp
qed

text \<open>The next event of the chronology has an id of its own, and so has the one after it.\<close>

definition fresh_events :: "'a lineage_db_scheme \<Rightarrow> nat \<Rightarrow> bool" where
  "fresh_events db n \<longleftrightarrow> ''act_'' @ db_random db n \<notin> ac_id ` set (db_activity db)
     \<and> ''act_'' @ db_random db (Suc n) \<notin> ac_id ` set (db_activity db)
     \<and> db_random db n \<noteq> db_random db (Suc n)"

lemma parse_names:
  "parse_enum SOURCE_KINDS (source_kind_name k) = Some k" "parse_enum TWIN_DOMAINS (twin_domain_name d) = Some d"
proof -
  have "list_all (\<lambda>k. parse_enum SOURCE_KINDS (source_kind_name k) = Some k)
    [USER_DECLARED, OBSERVED, MEASURED, PROVIDER_VERIFIED, REMEMBERED, INFERRED]" by code_simp
  then show "parse_enum SOURCE_KINDS (source_kind_name k) = Some k" by (cases k) simp_all
  have "list_all (\<lambda>d. parse_enum TWIN_DOMAINS (twin_domain_name d) = Some d) [TECHNICAL, CREATIVE, UNSPECIFIED]"
    by code_simp
  then show "parse_enum TWIN_DOMAINS (twin_domain_name d) = Some d" by (cases d) simp_all
qed

text \<open>The row that links a claim.\<close>

lemma link_one:
  assumes "r \<in> set rs" and "distinct (map pr_source_ref rs)" and "request_matches r c"
    and "insert_promotion \<lparr>sp_item_id = pr_item_id r, sp_claim_id = er_id c\<rparr> db = Inr db'"
  shows "link_promotions c rs db = Inr db'"
  using assms
proof (induction rs arbitrary: db)
  case (Cons q rs)
  have none: "link_promotions c ps d = Inr d" if "\<forall>p \<in> set ps. \<not> request_matches p c" for ps and d :: "'a session_db_scheme"
    using that by (induction ps) simp_all
  show ?case
  proof (cases "q = r")
    case True
    have "\<not> request_matches p c" if "p \<in> set rs" for p
      using that Cons.prems(2,3) True by (auto simp: request_matches_def)
    then show ?thesis using none [of rs db'] Cons.prems(3,4) True by simp
  next
    case False
    then have m: "r \<in> set rs" using Cons.prems(1) by simp
    then have "pr_source_ref q \<noteq> pr_source_ref r" using Cons.prems(2) by (metis distinct.simps(2) image_eqI list.simps(9) list.set_map)
    then have "\<not> request_matches q c" using Cons.prems(3) by (simp add: request_matches_def)
    moreover have "link_promotions c rs db = Inr db'"
      by (rule Cons.IH [OF m _ Cons.prems(3,4)]) (use Cons.prems(2) in simp)
    ultimately show ?thesis by simp
  qed
qed simp

lemma session_place:
  assumes "session_inv db" and "s \<in> set (db_sessions db)"
  shows "sn_song_id s \<in> so_id ` set (db_songs db)" and "has_artist db (sn_artist_id s)"
    and "db_metadata db ''primary_artist_id'' = Some (sn_artist_id s)"
    and "sn_version_id s = Some v \<Longrightarrow> \<exists>w. get_version db v = Some w \<and> ve_song_id w = sn_song_id s
      \<and> version_in_song db v (sn_song_id s)"
proof -
  note inv = session_invD [OF assms(1)]
  note T = session_tables_okD [OF inv(2)]
  have ok: "session_ok db s" using T(4) assms(2) by (simp add: list_all_iff)
  then show "sn_song_id s \<in> so_id ` set (db_songs db)" by (simp add: session_ok_def)
  have a: "primary_artist_id db = Inr (sn_artist_id s)" using ok by (simp add: session_ok_def)
  then show "has_artist db (sn_artist_id s)" using one_artist_primary [OF T(1)] by simp
  show "db_metadata db ''primary_artist_id'' = Some (sn_artist_id s)"
    using a by (simp add: primary_artist_id_def split: option.splits)
  assume "sn_version_id s = Some v"
  then obtain w where w: "w \<in> set (db_versions db)" "ve_id w = v" "ve_song_id w = sn_song_id s"
    using ok by (auto simp: session_ok_def)
  have "distinct (map ve_id (db_versions db))" using inv(1) by (simp add: ev_inv_def lineage_inv_def core_defs)
  then have "get_version db v = Some w" using keyed_find [of ve_id, OF _ w(1)] w(2) by (simp add: get_version_def)
  moreover have "version_in_song db v (sn_song_id s)" using w by (auto simp: version_in_song_def list_ex_iff)
  ultimately show "\<exists>w. get_version db v = Some w \<and> ve_song_id w = sn_song_id s
      \<and> version_in_song db v (sn_song_id s)" using w(3) by blast
qed

lemma insert_claim_total:
  assumes "session_inv db" and "s \<in> set (db_sessions db)" and "scope_binds r (sn_song_id s) (sn_version_id s)"
    and "request_matches r c" and "er_id c \<notin> er_id ` set (db_evidence_claims db)" and "trimmed (er_key c)"
    and "0 \<le> er_confidence c" and "er_confidence c \<le> 1" and "\<not> sql_blank (er_id c)"
    and "''act_'' @ db_random db (db_draws db) \<notin> ac_id ` set (db_activity db)"
  obtains row where "insert_claim c db = Inr (db\<lparr>db_evidence_claims := db_evidence_claims db @ [c],
      db_draws := Suc (db_draws db), db_activity := db_activity db @ [row]\<rparr>)"
    "ac_id row = ''act_'' @ db_random db (db_draws db)"
proof -
  let ?db = "db\<lparr>db_evidence_claims := db_evidence_claims db @ [c]\<rparr>"
  note place = session_place [OF assms(1,2)]
  have sc: "er_scope_kind c = pr_scope_kind r" "er_scope_id c = pr_scope_id r"
    using assms(4) by (simp_all add: request_matches_def)
  have kb: "\<not> sql_blank (er_key c)" using assms(6) by (rule trimmed_not_blank)
  let ?song = "case er_scope_kind c of SCOPE_SONG \<Rightarrow> Some (er_scope_id c)
           | SCOPE_VERSION \<Rightarrow> map_option ve_song_id (get_version ?db (er_scope_id c)) | _ \<Rightarrow> None"
  let ?version = "if er_scope_kind c = SCOPE_VERSION then Some (er_scope_id c) else None"
  have gv: "get_version ?db = get_version db" "version_in_song ?db = version_in_song db" "has_artist ?db = has_artist db"
    by (simp_all add: get_version_def version_in_song_def has_artist_def fun_eq_iff)
  have sv: "?song = Some (sn_song_id s) \<and> (?version = None \<or> ?version = sn_version_id s)"
    using assms(3) unfolding scope_binds_def
  proof (elim disjE conjE)
    assume "pr_scope_kind r = SCOPE_VERSION" and v: "sn_version_id s = Some (pr_scope_id r)"
    moreover obtain w where "get_version db (pr_scope_id r) = Some w" "ve_song_id w = sn_song_id s"
      using place(4) [OF v] by blast
    ultimately show ?thesis by (simp add: sc gv)
  qed (simp add: sc)
  then have sg: "?song = Some (sn_song_id s)" by simp
  have v: "?version = None \<or> (\<exists>v s. ?version = Some v \<and> ?song = Some s \<and> version_in_song ?db v s)"
  proof (cases ?version)
    case (Some v)
    then have "version_in_song ?db v (sn_song_id s)" using sv place(4) [of v] by (auto simp: gv)
    then show ?thesis using Some sg by blast
  qed simp
  obtain row where "insert_activity ''EVIDENCE_CLAIM_RECORDED'' (sn_artist_id s) ?song ?version ''EVIDENCE_CLAIM'' (er_id c) ?db
      = Inr (?db\<lparr>db_draws := Suc (db_draws ?db), db_activity := db_activity ?db @ [row]\<rparr>)"
    "ac_id row = ''act_'' @ db_random ?db (db_draws ?db)"
  proof (rule insert_activity_total [OF v, of "''EVIDENCE_CLAIM_RECORDED''" "''EVIDENCE_CLAIM''" "er_id c" "sn_artist_id s"])
    show "pred_option (\<lambda>s. s \<in> so_id ` set (db_songs ?db)) ?song" unfolding sg using place(1) by simp
  qed (use assms(9,10) place(2) in \<open>simp_all add: gv sql_blank_def\<close>)
  moreover have "db_metadata ?db ''primary_artist_id'' = Some (sn_artist_id s)" using place(3) by simp
  ultimately have "evidence_activity ''EVIDENCE_CLAIM_RECORDED'' (er_id c) c ?db
      = Inr (?db\<lparr>db_draws := Suc (db_draws ?db), db_activity := db_activity ?db @ [row]\<rparr>)"
    unfolding evidence_activity_def by (simp only: option.case)
  then have "insert_claim c db = Inr (?db\<lparr>db_draws := Suc (db_draws ?db), db_activity := db_activity ?db @ [row]\<rparr>)"
    using assms(5,7,8) kb by (simp add: insert_claim_def guardE_def)
  then show ?thesis by (intro that [of row]) (use \<open>ac_id row = _\<close> in simp_all)
qed

lemma insert_promotion_total:
  assumes "session_inv db" and "i \<in> set (db_session_items db)" and "s \<in> set (db_sessions db)"
    and "sn_id s = si_session_id i" and "promotion_for_item db (si_id i) = None"
    and "cid \<notin> sp_claim_id ` set (db_promotions db)" and "cid \<in> er_id ` set (db_evidence_claims db)"
    and "\<not> sql_blank cid" and "''act_'' @ db_random db (db_draws db) \<notin> ac_id ` set (db_activity db)"
  shows "\<exists>db'. insert_promotion \<lparr>sp_item_id = si_id i, sp_claim_id = cid\<rparr> db = Inr db'"
proof -
  let ?p = "\<lparr>sp_item_id = si_id i, sp_claim_id = cid\<rparr>"
  let ?db = "db\<lparr>db_promotions := db_promotions db @ [?p]\<rparr>"
  note place = session_place [OF assms(1,3)]
  have iw: "item_with_session ?db (si_id i) = Inr (i, s)"
    using item_row [OF session_tables_okD(6) [OF session_invD(2) [OF assms(1)]] assms(2)]
      session_ids [OF assms(1,3)] assms(4)
    by (simp add: item_with_session_def get_item_def get_session_def)
  have v: "sn_version_id s = None \<or> (\<exists>v u. sn_version_id s = Some v \<and> Some (sn_song_id s) = Some u \<and> version_in_song ?db v u)"
    using place(4) by (cases "sn_version_id s") (auto simp: version_in_song_def)
  obtain row where "insert_activity ''SESSION_ITEM_PROMOTED'' (sn_artist_id s) (Some (sn_song_id s)) (sn_version_id s)
      ''EVIDENCE_CLAIM'' cid ?db = Inr (?db\<lparr>db_draws := Suc (db_draws ?db), db_activity := db_activity ?db @ [row]\<rparr>)"
    by (rule insert_activity_total [OF v, of "''SESSION_ITEM_PROMOTED''" "''EVIDENCE_CLAIM''" cid "sn_artist_id s"])
      (use assms(8,9) place(1,2) in \<open>simp_all add: sql_blank_def has_artist_def\<close>)
  moreover have "si_id i \<notin> sp_item_id ` set (db_promotions db)"
    using assms(5) by (auto simp: promotion_for_item_def find_None_iff)
  ultimately show ?thesis
    using assms(2,6,7) iw by (simp add: insert_promotion_def guardE_def)
qed

lemma filter_unique:
  assumes "distinct (map f xs)" and "x \<in> set xs" and "P x" and "\<And>y. P y \<Longrightarrow> f y = f x"
  shows "filter P xs = [x]"
  using assms(1,2)
proof (induction xs)
  case (Cons y xs)
  have none: "filter P ys = []" if "f x \<notin> f ` set ys" for ys by (rule filter_False) (metis assms(4) that image_eqI)
  show ?case
  proof (cases "y = x")
    case True
    then show ?thesis using Cons.prems(1) none [of xs] assms(3) by simp
  next
    case False
    then have "x \<in> set xs" using Cons.prems(2) by simp
    moreover from this have "\<not> P y" using assms(4) [of y] Cons.prems(1) by auto
    ultimately show ?thesis using Cons by simp
  qed
qed simp

lemma find_appended: "find P xs = None \<Longrightarrow> P x \<Longrightarrow> find P (xs @ [x]) = Some x"
  by (induction xs) (auto split: if_splits)

lemma session_insert_claim_total:
  assumes inv: "session_inv db" and r: "r \<in> set (db_promotion_requests db)" "request_matches r c"
    and i: "i \<in> set (db_session_items db)" "si_id i = pr_item_id r"
    and s: "s \<in> set (db_sessions db)" "sn_id s = si_session_id i" "scope_binds r (sn_song_id s) (sn_version_id s)"
    and pending: "promotion_for_item db (si_id i) = None"
      "\<forall>d \<in> set (db_evidence_claims db). er_source_ref d \<noteq> er_source_ref c"
    and row: "er_seq c = Suc (length (db_evidence_claims db))" "er_id c \<notin> er_id ` set (db_evidence_claims db)"
      "\<not> sql_blank (er_id c)" "trimmed (er_key c)" "0 \<le> er_confidence c" "er_confidence c \<le> 1"
      "wf_json v" "er_value_json c = canonical_value v"
      "check_scope ValidationError (er_scope_kind c) (er_scope_id c) db = Inr ()"
    and fresh: "fresh_events db (db_draws db)"
  shows "\<exists>db'. session_insert_claim c db = Inr db'"
proof -
  obtain ev where ev: "insert_claim c db = Inr (db\<lparr>db_evidence_claims := db_evidence_claims db @ [c],
      db_draws := Suc (db_draws db), db_activity := db_activity db @ [ev]\<rparr>)" (is "_ = Inr ?db1")
    "ac_id ev = ''act_'' @ db_random db (db_draws db)"
    by (rule insert_claim_total [OF inv s(1,3) r(2) row(2,4,5,6,3)]) (use fresh in \<open>simp_all add: fresh_events_def\<close>)
  have free: "source_ref_free c (db_evidence_claims db)"
    using pending(2) by (auto simp: source_ref_free_def list_ex_iff split: option.split)
  have "ev_inv ?db1 \<and> ev_extends db ?db1 \<and> db_evidence_claims ?db1 = db_evidence_claims db @ [c]
    \<and> db_supersessions ?db1 = db_supersessions db \<and> er_id c \<notin> er_id ` set (db_evidence_claims db)"
    by (rule insert_claim_step [OF ev(1) session_invD(1) [OF inv] row(1,9,7,8,4)])
  moreover have "session_tables_ok ?db1"
  proof (rule session_tables_mono [OF _ _ session_invD(2) [OF inv]])
    show "distinct (promotion_sources (db_evidence_claims ?db1))"
      using source_ref_free_distinct [OF free session_tables_okD(10) [OF session_invD(2) [OF inv]]] by simp
  qed (use calculation in simp_all)
  ultimately have inv1: "session_inv ?db1" by (simp add: session_inv_def)
  have "er_id c \<notin> sp_claim_id ` set (db_promotions db)"
  proof
    assume "er_id c \<in> sp_claim_id ` set (db_promotions db)"
    then obtain p where "p \<in> set (db_promotions db)" "sp_claim_id p = er_id c" by auto
    then obtain d where "find_claim db (er_id c) = Some d" using promotion_facts [OF inv] by metis
    then show False using row(2) find_claim_None [of db "er_id c"] by simp
  qed
  then have "\<exists>db'. insert_promotion \<lparr>sp_item_id = si_id i, sp_claim_id = er_id c\<rparr> ?db1 = Inr db'"
    using fresh by (intro insert_promotion_total [OF inv1, of i s])
      (use i s pending row(3) not_sym [OF conjunct2 [OF conjunct2 [OF fresh [unfolded fresh_events_def]]]] ev(2) in \<open>simp_all add: promotion_for_item_def fresh_events_def\<close>)
  then obtain db' where p: "insert_promotion \<lparr>sp_item_id = pr_item_id r, sp_claim_id = er_id c\<rparr> ?db1 = Inr db'"
    unfolding i(2) by blast
  have "link_promotions c (db_promotion_requests db) ?db1 = Inr db'"
    by (rule link_one [OF r(1) _ r(2) p])
      (use session_tables_okD(8) [OF session_invD(2) [OF inv]] in \<open>simp add: requests_ok_def\<close>)
  then show ?thesis using free ev(1) by (simp add: session_insert_claim_def guardE_def)
qed

lemma bound_scope_exists:
  assumes "session_inv db" and "s \<in> set (db_sessions db)" and "scope_binds r (sn_song_id s) (sn_version_id s)"
    and "trimmed (pr_scope_id r)"
  shows "check_scope ValidationError (pr_scope_kind r) (pr_scope_id r) db = Inr ()"
  using assms(3) unfolding scope_binds_def
proof (elim disjE conjE)
  assume "pr_scope_kind r = SCOPE_SONG" "pr_scope_id r = sn_song_id s"
  then show ?thesis using session_place(1) [OF assms(1,2)] assms(4) strip_trimmed [OF assms(4)]
    by (simp add: check_scope_def guardE_def)
next
  assume k: "pr_scope_kind r = SCOPE_VERSION" and v: "sn_version_id s = Some (pr_scope_id r)"
  obtain u where "get_version db (pr_scope_id r) = Some u" using session_place(4) [OF assms(1,2) v] by blast
  then show ?thesis using k strip_trimmed [OF assms(4)] by (simp add: check_scope_def guardE_def del: get_version_None)
qed

text \<open>Recording a claim without supersession returns when its statement does.\<close>

lemma session_record_claim_total:
  assumes inv: "session_inv db" and scope: "check_scope ValidationError k sid db = Inr ()"
    and key: "trimmed key" and conf: "0 \<le> conf" "conf \<le> 1" and v: "wf_json v"
    and new: "new_id ''claim'' db = (cid, db1)"
    and c: "c = \<lparr>er_seq = Suc (length (db_evidence_claims db1)), er_id = cid, er_scope_kind = k, er_scope_id = sid,
      er_key = key, er_value_json = canonical_value v, er_source_kind = src, er_source_ref = sref,
      er_confidence = conf, er_twin_domain = tw\<rparr>"
    and ins: "session_insert_claim c db1 = Inr db2"
  shows "session_record_claim (scope_kind_name k) sid key v (source_kind_name src) sref conf (twin_domain_name tw) [] db
    = Inr (row_claim c, db2)"
proof -
  note db1 = new_id_draws [OF new]
  have inv1: "session_inv db1" using inv by (simp add: db1 session_inv_draws)
  have sc1: "check_scope ValidationError (er_scope_kind c) (er_scope_id c) db1 = Inr ()" using scope by (simp add: c db1)
  have st: "ev_inv db2" "db_evidence_claims db2 = db_evidence_claims db1 @ [c]"
    using session_insert_claim_step [OF ins session_invD [OF inv1] _ sc1 v] key by (simp_all add: c)
  have "distinct (map er_id (db_evidence_claims db2))" using st(1) by (simp add: ev_inv_def)
  then have "find_claim db2 (er_id c) = Some c" by (rule find_claim_row) (simp add: st(2))
  moreover have "claim_from_row c = Inr (row_claim c)"
    using canonical_value_reads [OF v] by (simp add: claim_from_row_Inr c)
  ultimately have get: "get_claim db2 cid = Inr (Some (row_claim c))" by (simp add: get_claim_def c)
  have ks: "strip key = key" "key \<noteq> []" using key strip_trimmed trimmed_nonempty by blast+
  have act: "active_claims (scope_kind_name k) sid key db = Inr (map row_claim (active_for db k sid (strip key)))"
    by (rule active_claims_name [OF session_invD(1) [OF inv] _ scope]) (use ks in simp)
  have val: "validate_scope ValidationError (scope_kind_name k) sid db = Inr k"
    using scope by (simp add: validate_scope_name)
  show ?thesis
    unfolding session_record_claim_def record_claim_with_def normalize_twin_domain_def evidence_key_def new prod.case Let_def
    using ins get act val conf ks by (simp add: parse_names guardE_def fromkeys_def on_integrity_def c [symmetric])
qed

text \<open>
  C27. An interrupted promotion can be finished: if its request is pending and nobody else used its source
  reference, calling again with the same arguments succeeds as soon as the identifiers drawn are new, and
  links the item to a claim under the pending request.
\<close>

theorem pending_promotion_completes:
  assumes "session_reachable db" and "read_promotion iid sk key src tw conf db = Inr (item, w)"
    and "request_for_item db (si_id item) = Some r" and "same_promotion r w"
    and "promotion_for_item db (si_id item) = None"
    and "\<forall>d \<in> set (db_evidence_claims db). er_source_ref d \<noteq> Some (pr_source_ref r)"
    and "trimmed (pr_scope_id r)" and "''claim_'' @ db_random db (db_draws db) \<notin> er_id ` set (db_evidence_claims db)"
    and "fresh_events db (Suc (db_draws db))"
  shows "\<exists>c db'. promote_item iid sk key src tw conf db = (Inr c, db')
    \<and> ec_source_ref c = Some (pr_source_ref r) \<and> db_promotion_requests db' = db_promotion_requests db
    \<and> promotion_for_item db' (si_id item) = Some \<lparr>sp_item_id = si_id item, sp_claim_id = ec_id c\<rparr>"
proof -
  have inv: "session_inv db" by (rule session_reachable_inv [OF assms(1)])
  obtain s where i: "get_item db iid = Some item" "get_session db (si_session_id item) = Some s"
    and w: "pr_item_id w = si_id item" "pr_value_json w = canonical_value (JStr (si_body item))"
    "pr_key w = strip key" "strip key \<noteq> []" "scope_binds w (sn_song_id s) (sn_version_id s)"
    "pr_confidence w = conf" "0 \<le> conf" "conf \<le> 1"
    using assms(2) by (rule read_promotion_Inr)
  note im = get_item_Some [OF i(1)] and sm = get_session_Some [OF i(2)] and rm = request_for_item_Some [OF assms(3)]
  have rw: "pr_scope_kind w = pr_scope_kind r" "pr_scope_id w = pr_scope_id r" "pr_key w = pr_key r"
    "pr_value_json w = pr_value_json r" "pr_source_kind w = pr_source_kind r" "pr_twin_domain w = pr_twin_domain r"
    "pr_confidence w = pr_confidence r" using assms(4) by (simp_all add: same_promotion_def)
  have key: "trimmed (pr_key r)" using w(3,4) rw(3) strip_nonempty_trimmed [of key] by simp
  have binds: "scope_binds r (sn_song_id s) (sn_version_id s)" using w(5) rw(1,2) by (simp add: scope_binds_def)
  note scope = bound_scope_exists [OF inv conjunct1 [OF sm] binds assms(7)]
  let ?cid = "''claim_'' @ db_random db (db_draws db)" and ?db1 = "db\<lparr>db_draws := Suc (db_draws db)\<rparr>"
  define c where "c = \<lparr>er_seq = Suc (length (db_evidence_claims ?db1)), er_id = ?cid, er_scope_kind = pr_scope_kind r,
      er_scope_id = pr_scope_id r, er_key = pr_key r, er_value_json = canonical_value (JStr (si_body item)),
      er_source_kind = pr_source_kind r, er_source_ref = Some (pr_source_ref r), er_confidence = pr_confidence r,
      er_twin_domain = pr_twin_domain r\<rparr>"
  have inv1: "session_inv ?db1" using inv by (simp add: session_inv_draws)
  have m: "request_matches r c" using w(2) rw(4) by (simp add: request_matches_def c_def)
  have conf: "0 \<le> pr_confidence r" "pr_confidence r \<le> 1" using w(6-8) rw(7) by simp_all
  have "\<exists>db2. session_insert_claim c ?db1 = Inr db2"
    by (rule session_insert_claim_total [OF inv1 _ m, of item s "JStr (si_body item)"])
      (use rm im sm binds assms(5,6,8,9) key conf scope in
        \<open>simp_all add: promotion_for_item_def c_def fresh_events_def sql_blank_def\<close>)
  then obtain db2 where ins: "session_insert_claim c ?db1 = Inr db2" by blast
  note rec = session_record_claim_total [OF inv scope key conf _ _ c_def ins]
  have one: "filter (\<lambda>q. request_matches q c) (db_promotion_requests db) = [r]"
    by (rule filter_unique [of pr_source_ref]) (use session_tables_okD(8) [OF session_invD(2) [OF inv]] rm m in
        \<open>auto simp: requests_ok_def request_matches_def\<close>)
  have sc1: "check_scope ValidationError (er_scope_kind c) (er_scope_id c) ?db1 = Inr ()" using scope by (simp add: c_def)
  have st: "db_promotions db2 = db_promotions db @ [\<lparr>sp_item_id = si_id item, sp_claim_id = er_id c\<rparr>]"
    "same_sessions ?db1 db2"
    using session_insert_claim_step [OF ins session_invD [OF inv1] _ sc1, of "JStr (si_body item)"] key one rm
    by (simp_all add: c_def)
  have p: "promotion_for_item db2 (si_id item) = Some \<lparr>sp_item_id = si_id item, sp_claim_id = er_id c\<rparr>"
    using assms(5) unfolding promotion_for_item_def st(1) by (rule find_appended) simp
  have "claim_promotion item w (pr_source_ref r) db = (Inr (row_claim c), db2)"
    using assms(5) p rec by (simp add: claim_promotion_def rw guardE_def new_id_def)
  then have "promote_item iid sk key src tw conf db = (Inr (row_claim c), db2)"
    using assms(2-4) by (simp add: promote_item_def request_promotion_def guardE_def)
  then show ?thesis
    using p st(2) by (intro exI [of _ "row_claim c"] exI [of _ db2]) (simp add: same_sessions_def row_claim_def c_def)
qed

subsection \<open>A session with one decision\<close>

definition demo_opened :: session_db where
  "demo_opened = (case install_sessions (install_evidence demo_profile) of Inr db \<Rightarrow> db | Inl _ \<Rightarrow> undefined)"

definition demo_scratch :: session_db where
  "demo_scratch = run_cmds exec_session
     [Session_Lineage (Create_Song ''Dawn''), Start_Session ''song_aaaa'' ''Finish the chorus'' None,
      Append_Scratch ''sess_aaaaaaa'' ''decision'' ''Keep the bridge''] demo_opened"

definition demo_item :: string where
  "demo_item = ''sitem_aaaaaaaaa''"

definition demo_pending :: session_db where
  "demo_pending = run_cmds exec_session
     [Interrupted_Promotion demo_item ''song'' ''bridge'' ''user_declared'' ''creative'' 1] demo_scratch"

definition demo_promoted :: "evidence_claim res \<times> session_db" where
  "demo_promoted = promote_item demo_item ''song'' ''bridge'' ''user_declared'' ''creative'' 1 demo_pending"

definition demo_closed_session :: "song_session \<times> session_db" where
  "demo_closed_session = (case close_session ''sess_aaaaaaa'' ''Bridge stays'' ''Mix it'' demo_scratch of
     Inr x \<Rightarrow> x | Inl _ \<Rightarrow> undefined)"

definition demo_read :: "session_item \<times> promotion_request" where
  "demo_read = (case read_promotion demo_item ''song'' ''bridge'' ''user_declared'' ''creative'' 1 demo_pending of
     Inr x \<Rightarrow> x | Inl _ \<Rightarrow> undefined)"

definition demo_request :: promotion_request where
  "demo_request = hd (db_promotion_requests demo_pending)"

lemma demo_scratch_eval:
  "length (db_sessions demo_scratch) = 1 \<and> sn_state (hd (db_sessions demo_scratch)) = SESSION_OPEN
   \<and> map si_id (db_session_items demo_scratch) = [demo_item]
   \<and> \<not> isl (close_session ''sess_aaaaaaa'' ''Bridge stays'' ''Mix it'' demo_scratch)"
  by code_simp

definition pending_summary :: "session_db \<Rightarrow> bool" where
  "pending_summary db \<longleftrightarrow> db_evidence_claims db = [] \<and> fresh_events db (Suc (db_draws db))
     \<and> (case read_promotion demo_item ''song'' ''bridge'' ''user_declared'' ''creative'' 1 db of
          Inl _ \<Rightarrow> False
        | Inr (item, w) \<Rightarrow> promotion_for_item db (si_id item) = None
            \<and> (case request_for_item db (si_id item) of
                 None \<Rightarrow> False
               | Some r \<Rightarrow> r = hd (db_promotion_requests db) \<and> same_promotion r w \<and> pr_scope_id r = ''song_aaaa''))"

lemma demo_pending_summary: "pending_summary demo_pending"
  by code_simp

lemma demo_pending_eval:
  "\<not> isl (read_promotion demo_item ''song'' ''bridge'' ''user_declared'' ''creative'' 1 demo_pending)"
  "request_for_item demo_pending (si_id (fst demo_read)) = Some demo_request"
  "same_promotion demo_request (snd demo_read)"
  "promotion_for_item demo_pending (si_id (fst demo_read)) = None"
  "db_evidence_claims demo_pending = []" "pr_scope_id demo_request = ''song_aaaa''"
  "fresh_events demo_pending (Suc (db_draws demo_pending))"
  using demo_pending_summary
  by (auto simp: pending_summary_def demo_read_def demo_request_def split: sum.splits prod.splits option.splits)

lemma demo_promoted_eval:
  "\<not> isl (fst demo_promoted) \<and> length (db_promotions (snd demo_promoted)) = 1"
  by code_simp

lemma demo_scratch_reachable: "session_reachable demo_scratch"
proof -
  have "install_sessions (install_evidence demo_profile) = Inr demo_opened"
  proof -
    have "\<not> isl (install_sessions (install_evidence demo_profile))" by code_simp
    then show ?thesis by (auto simp: demo_opened_def split: sum.splits)
  qed
  then show ?thesis
    unfolding session_reachable_def demo_scratch_def using demo_profile_created
    by (metis run_cmds.simps(1))
qed

lemma demo_pending_reachable: "session_reachable demo_pending"
  unfolding demo_pending_def by (rule session_reachable_run [OF demo_scratch_reachable])

lemma demo_promotes:
  "promote_item demo_item ''song'' ''bridge'' ''user_declared'' ''creative'' 1 demo_pending
     = (Inr (projr (fst demo_promoted)), snd demo_promoted)"
  using demo_promoted_eval by (cases demo_promoted) (auto simp: demo_promoted_def [symmetric])

lemma demo_promoted_reachable: "session_reachable (snd demo_promoted)"
proof -
  have "snd demo_promoted = run_cmds exec_session
      [Promote_Item demo_item ''song'' ''bridge'' ''user_declared'' ''creative'' 1] demo_pending"
    by (simp add: demo_promoted_def)
  then show ?thesis using session_reachable_run [OF demo_pending_reachable] by metis
qed

theorem open_session_is_latest_witness:
  "latest_for_song demo_scratch (sn_song_id (hd (db_sessions demo_scratch))) = Inr (Some (hd (db_sessions demo_scratch)))
   \<and> isl (start_session (sn_song_id (hd (db_sessions demo_scratch))) ''Again'' None demo_scratch)"
proof (rule open_session_is_latest [OF demo_scratch_reachable])
  show "hd (db_sessions demo_scratch) \<in> set (db_sessions demo_scratch)"
    using demo_scratch_eval by (intro hd_in_set) auto
  show "sn_state (hd (db_sessions demo_scratch)) = SESSION_OPEN" using demo_scratch_eval by simp
qed

lemma demo_session_closes:
  "close_session ''sess_aaaaaaa'' ''Bridge stays'' ''Mix it'' demo_scratch
     = Inr (fst demo_closed_session, snd demo_closed_session)"
  using demo_scratch_eval by (auto simp: demo_closed_session_def split: sum.splits)

theorem closed_session_final_witness:
  "get_session (run_cmds exec_session [Append_Scratch ''sess_aaaaaaa'' ''mark'' ''Late''] (snd demo_closed_session))
       ''sess_aaaaaaa'' = Some (fst demo_closed_session)
   \<and> append_scratch ''sess_aaaaaaa'' ''mark'' ''Later''
       (run_cmds exec_session [Append_Scratch ''sess_aaaaaaa'' ''mark'' ''Late''] (snd demo_closed_session))
     = Inl (Raise ValidationError ''cannot append scratch to a closed Session'')"
  using closed_session_final [OF demo_scratch_reachable demo_session_closes refl,
    of "[Append_Scratch ''sess_aaaaaaa'' ''mark'' ''Late'']" "''mark''" "''Later''" "''x''" "''y''"] by blast

theorem promoted_once_witness:
  "promote_item demo_item ''song'' ''bridge'' ''user_declared'' ''creative'' 1
      (run_cmds exec_session [Close_Session ''sess_aaaaaaa'' ''Bridge stays'' ''Mix it''] (snd demo_promoted))
     = (Inr (projr (fst demo_promoted)),
        run_cmds exec_session [Close_Session ''sess_aaaaaaa'' ''Bridge stays'' ''Mix it''] (snd demo_promoted))"
  using promoted_once [OF demo_pending_reachable demo_promotes refl,
    of "[Close_Session ''sess_aaaaaaa'' ''Bridge stays'' ''Mix it'']"] by blast

theorem promotion_is_faithful_witness:
  "\<exists>p i s c. db_promotions (snd demo_promoted) = [p] \<and> get_item (snd demo_promoted) (sp_item_id p) = Some i
    \<and> get_session (snd demo_promoted) (si_session_id i) = Some s
    \<and> get_claim (snd demo_promoted) (sp_claim_id p) = Inr (Some c) \<and> ec_value c = JStr (si_body i)"
proof -
  obtain p where p: "db_promotions (snd demo_promoted) = [p]"
    using demo_promoted_eval by (cases "db_promotions (snd demo_promoted)") auto
  then have "p \<in> set (db_promotions (snd demo_promoted))" by simp
  from promotion_is_faithful [OF demo_promoted_reachable this] p show ?thesis by blast
qed

theorem reachable_sessions_validate_witness:
  "length (db_promotions (snd demo_promoted)) = 1 \<and> validate_sessions (snd demo_promoted) = Inr ()"
  using demo_promoted_eval reachable_sessions_validate [OF demo_promoted_reachable] by simp

lemma demo_reads:
  "read_promotion demo_item ''song'' ''bridge'' ''user_declared'' ''creative'' 1 demo_pending
     = Inr (fst demo_read, snd demo_read)"
  using demo_pending_eval by (auto simp: demo_read_def split: sum.splits)

theorem pending_promotion_completes_witness:
  "\<exists>c db'. promote_item demo_item ''song'' ''bridge'' ''user_declared'' ''creative'' 1 demo_pending = (Inr c, db')
    \<and> ec_source_ref c = Some (pr_source_ref demo_request)
    \<and> db_promotion_requests db' = db_promotion_requests demo_pending
    \<and> promotion_for_item db' (si_id (fst demo_read)) = Some \<lparr>sp_item_id = si_id (fst demo_read), sp_claim_id = ec_id c\<rparr>"
proof (rule pending_promotion_completes [OF demo_pending_reachable demo_reads])
  show "trimmed (pr_scope_id demo_request)" using demo_pending_eval(6) by (simp add: trimmed_def is_space_def code_def)
qed (use demo_pending_eval in simp_all)

end
