(* ===== verification/Spec2Isabelle.thy ===== *)
theory Spec2Isabelle
  imports Transactions_Demo Governance_Facts Gateway_Facts Obligations_Facts Credits_Facts Sessions_Facts
begin

text \<open>
  N0TE's decision and durability core: what may leave the machine, what was approved, which work the
  governance admits, what an execution permit allows, and what a profile database remembers.

  Values. \<open>Prelude\<close> has Python text, exceptions as values and sequencing; \<open>Json\<close> has JSON text
  (\<open>json.dumps\<close> with sorted keys and compact separators, \<open>json.loads\<close>, UTF-8) with its round
  trips; \<open>Dynamic\<close> has values of unknown shape, read from files, with what Python raises on the wrong
  shape; \<open>Machine\<close> has runs of command sequences and the contracts of a durable state.

  Decisions (\<open>src/n0te\<close>). \<open>Authority\<close> (\<open>authority.py\<close>) binds approvals to action intents, \<open>Egress\<close>
  (\<open>egress.py\<close>) packages outbound material as such an intent, \<open>Network\<close> (\<open>network.py\<close>) decides
  transport and changes of connectivity, \<open>Eligibility\<close> (\<open>eligibility.py\<close>) execution eligibility.

  Stores (\<open>src/n0te\<close>). \<open>Lineage\<close> (\<open>lineage.py\<close>, hooks of \<open>activity.py\<close>) is the profile database of
  songs, assets, versions and the chronology. \<open>Operations\<close> (\<open>operations.py\<close>) extends its record by the
  journal of operations, whose claims need an approval, a transport decision and an eligibility
  decision. \<open>Transactions\<close> (\<open>transactions.py\<close>) extends it again by planned transactions: a run takes a
  snapshot, executes the steps through a driver, checks postconditions, and compensates in reverse
  order when one fails, each effect recorded before and after it happens.
  \<open>Evidence\<close> (\<open>evidence.py\<close>) extends the profile database by scoped claims and their supersession,
  resolves a key for a song and reconciles conflicts; \<open>People\<close> (\<open>people.py\<close>) extends that by people and
  follow-ups, with the dates of \<open>Calendar\<close> (\<open>datetime.date\<close>: parsing ISO forms, printing, order);
  \<open>Obligations\<close> (\<open>obligations.py\<close>) extends that by what is owed to whom, each row and each event citing
  claims of the evidence memory and binding people, songs and follow-ups; \<open>Credits\<close> (\<open>credits.py\<close>)
  extends \<open>People\<close> the other way, by who is credited on a song and who shares its composition, in whole
  basis points, from a draft over its submission to the confirmations of its people. \<open>Sessions\<close>
  (\<open>session.py\<close>) extends \<open>Evidence\<close> by sessions of work on a song: scratch written while a session is open,
  and its promotion to a claim in two transactions, of which the second rests on a trigger on the claims of
  the evidence memory. Each table of these carries the hook that writes the chronology. \<open>Evidence\<close> and
  \<open>Operations\<close> also open files of their first schema version and migrate them.

  Execution under a permit (\<open>src/governance\<close> and \<open>src/n0te/coordinator_gateway.py\<close>).
  \<open>Governance_Model\<close> (\<open>model.py\<close>) evaluates construction programs, evidence and incidents;
  \<open>Envelope\<close> (\<open>execution_envelope.py\<close>) validates an execution envelope and reports its blockers;
  \<open>Trusted_Context\<close> (\<open>trusted_context.py\<close>) cross-checks it against a snapshot only a trusted process
  writes; \<open>Permit\<close> (\<open>execution_permit.py\<close>) issues a signed one-time permit for an envelope, a snapshot
  and an action intent of \<open>Authority\<close>, and consumes it against a ledger; \<open>Gateway\<close> consumes a permit
  before a registered mutation runs, then verifies and reconciles it. Names follow the source; a row
  or dataclass is a record, an enumeration a datatype, a constructor's \<open>__post_init__\<close> a function
  \<open>make_...\<close>, a raise \<open>Inl (Raise class message)\<close>.

  Facts. \<open>Lineage_Facts\<close>, \<open>Operations_Facts\<close> and \<open>Transactions_Facts\<close> hold the invariants every
  operation keeps, the interpretations of the contracts of \<open>Machine\<close> on the model's commands, and what
  follows for every reachable database; \<open>Transactions_Run\<close> has the pre/postcondition rules for the
  loops of a run, and \<open>Transactions_Demo\<close> three concrete runs. \<open>Evidence_Facts\<close> proves supersession a
  forest whose roots are the active claims, resolution equal to its specification, and that
  reconciliation settles a conflict; \<open>People_Facts\<close> and \<open>Obligations_Facts\<close> carry the invariant up the
  two extensions (each store keeps the tables of the stores above it), the latter with the lifecycle of
  an obligation as a relation (\<open>obl_step\<close>) that every stored history follows. \<open>People_Store\<close> states
  once what a store over the people memory keeps (the contract \<open>people_store\<close>); \<open>Obligations_Facts\<close>
  and \<open>Credits_Facts\<close> interpret it, the latter for the bounds of the shares and what a submission freezes.
  \<open>Evidence_Facts\<close> states the same contract one level below (\<open>evidence_tables\<close>, extended to
  \<open>evidence_store\<close> where a store changes the statement that inserts a claim), which \<open>Sessions_Facts\<close>
  interprets to show that a promotion happens once, says what the scratch says, and can be finished after
  it was interrupted. \<open>Governance_Facts\<close> proves the search of
  dependencies a decision procedure for acyclicity and the eligible packages exactly the clear ones;
  \<open>Envelope\<close>, \<open>Trusted_Context_Facts\<close>, \<open>Permit_Facts\<close> and \<open>Gateway_Facts\<close> build on each other:
  validation admits exactly the well-formed envelopes (\<open>well_formed_envelope\<close>), the cross-check is exact, a
  consumption succeeds exactly on a signed and matching token (\<open>consume_exact\<close>) and once, no mutation happens
  without a consumed permit. The properties
  of the other components stand in their theories.

  Conventions. Text is a list of code points below 256; \<open>str.upper\<close> is exact there but for the two
  letters whose capitals lie above 255. SHA-256 and HMAC are parameters; statements that need it assume
  that digests are trimmed texts (\<open>sha_text\<close>) and that the named encodings do not collide
  (\<open>collision_free\<close>). Clocks, \<open>datetime.fromisoformat\<close>, the ranking of references, drivers and registered
  callables are parameters too; the latter act on a world of any type. Identifiers come from a stream
  of texts (\<open>uuid4\<close>); a repeated identifier is a uniqueness violation as in SQLite, and nothing is assumed
  of the stream but, for people and obligations, that its texts are trimmed and not empty (\<open>hex_stream\<close>).
  A confidence is a rational. A transaction of the database returns the new state or an error, an error leaving the old
  state; a failure of SQLite in the permit ledger is an input. The payload column of a chronology row, fixed
  text or a column of the row that causes it, is left out; the payload of a permit is read as UTF-8, which
  is what the authority writes. Arguments have the types the code
  annotates where it does not read them from files; run-time type checks on them are left out.

  Bounds. The JSON reader \<open>p_value\<close> recurses on a depth that \<open>loads\<close> sets to one more than the length of
  the text; \<open>loads_dumps\<close> proves it enough for every encoded value. The dependency search \<open>visit\<close>
  terminates because each nested call has fewer unvisited packages; Python's recursion limit is left
  out. All other recursion is structural.

  What modelling showed. A reconciler that returns \<open>None\<close> passes for one with a receipt
  (\<open>missing_receipt_accepted\<close>); policies whose names differ in outer space replace each other
  (\<open>policies_collapse\<close>); a null state of a dependency counts as \<open>NONE\<close> (\<open>null_state_is_none\<close>); null or
  spaced dependencies pass the checks and crash the search (\<open>null_dependencies_crash\<close>,
  \<open>spaced_dependency_crashes\<close>); a step executed twice passes validation
  (\<open>repeated_execution_accepted\<close>); evidence recorded with a padded scope id is never found again
  (\<open>padded_scope_is_lost\<close>).

  Not modelled: files and connections, floating-point numbers (and with them the
  scoring modules), the shells, the integrations with music software, remote services, and the
  components the manifest lists as such.
\<close>

end
